(* ===== verification/Prelude.thy ===== *)
theory Prelude
  imports Main "HOL-Library.Word" "HOL-Library.Monad_Syntax"
begin

text \<open>
  Shared ground of the development: names for the C integer types, the errno
  values the code tests for, the collections of rewrite rules, and the generic
  lemmas on lists, loops and words the component theories rest on.

  Conventions.  A C \<open>int\<close> that only carries a return code or a small
  count is an \<open>int\<close>; \<open>uint32_t\<close> and \<open>uint64_t\<close> values are words, so that
  wrap-around is the machine's.  A NULL pointer is \<open>None\<close>.  A loop
  \<open>for (i = a; i < b; i++)\<close> without an early exit is \<^term>\<open>fold f [a..<b] s\<close>.
\<close>

unbundle bit_operations_syntax

type_synonym byte = "8 word"
type_synonym u32 = "32 word"
type_synonym u64 = "64 word"

subsection \<open>errno values\<close>

abbreviation (input) ENOENT :: int where "ENOENT \<equiv> 2"
abbreviation (input) EIO :: int where "EIO \<equiv> 5"
abbreviation (input) EAGAIN :: int where "EAGAIN \<equiv> 11"
abbreviation (input) ENOMEM :: int where "ENOMEM \<equiv> 12"
abbreviation (input) EEXIST :: int where "EEXIST \<equiv> 17"
abbreviation (input) EINVAL :: int where "EINVAL \<equiv> 22"
abbreviation (input) ENOSPC :: int where "ENOSPC \<equiv> 28"
abbreviation (input) ENOTCONN :: int where "ENOTCONN \<equiv> 107"
abbreviation (input) ESTALE :: int where "ESTALE \<equiv> 116"

subsection \<open>Rewrite collections\<close>

named_theorems layout_simps \<open>equations of the layout operations\<close>
named_theorems dict_simps \<open>lookup equations of the dictionary operations\<close>
named_theorems xdb_simps \<open>equations of the index database operations\<close>

subsection \<open>Lists\<close>

definition swap_nth :: "nat \<Rightarrow> nat \<Rightarrow> 'a list \<Rightarrow> 'a list" where
  "swap_nth i j xs = xs[i := xs ! j, j := xs ! i]"

lemma length_swap_nth [simp]: "length (swap_nth i j xs) = length xs"
  by (simp add: swap_nth_def)

lemma nth_swap_nth:
  "i < length xs \<Longrightarrow> j < length xs \<Longrightarrow> k < length xs \<Longrightarrow>
   swap_nth i j xs ! k = (if k = j then xs ! i else if k = i then xs ! j else xs ! k)"
  by (auto simp: swap_nth_def nth_list_update)

lemma fold_invariant:
  assumes "P s" and "\<And>x s. x \<in> set xs \<Longrightarrow> P s \<Longrightarrow> P (f x s)"
  shows "P (fold f xs s)"
  using assms by (induction xs arbitrary: s) auto

lemma fold_upt_invariant:
  assumes "P a s" and "a \<le> b"
    and "\<And>i s. a \<le> i \<Longrightarrow> i < b \<Longrightarrow> P i s \<Longrightarrow> P (Suc i) (f i s)"
  shows "P b (fold f [a..<b] s)"
  using assms(2,1,3)
proof (induction b rule: dec_induct)
  case base
  then show ?case by simp
next
  case (step n)
  then show ?case by simp
qed

lemma drop_eq_nths4:
  assumes "pos + 4 \<le> length xs"
  shows "drop pos xs = xs ! pos # xs ! (pos + 1) # xs ! (pos + 2) # xs ! (pos + 3) # drop (pos + 4) xs"
  using assms
  by (simp add: Cons_nth_drop_Suc [symmetric] numeral_eq_Suc)

subsection \<open>Words\<close>

lemma word_succ_nonzero: "x \<noteq> - 1 \<Longrightarrow> x + 1 \<noteq> (0 :: 'a::len word)"
  by (metis add_diff_cancel_right' diff_0)

lemma unat_succ: "x \<noteq> - 1 \<Longrightarrow> unat (x + 1 :: 'a::len word) = Suc (unat x)"
  using unatSuc [of x] word_succ_nonzero [of x] by (simp add: add.commute)

lemma unat_succ_less: "x < y \<Longrightarrow> unat (x + 1 :: 'a::len word) = Suc (unat x)"
  using word_order.extremum_strict by (intro unat_succ) auto

lemma unat_succ_le: "unat (x + 1 :: 'a::len word) \<le> Suc (unat x)"
  by (cases "x = - 1") (simp_all add: unat_succ)

lemma word_less_succ: "x \<noteq> - 1 \<Longrightarrow> x < (x + 1 :: 'a::len word)"
  by (simp add: word_less_nat_alt unat_succ)

subsection \<open>Strings\<close>

definition is_prefix_of :: "string \<Rightarrow> string \<Rightarrow> bool" where
  "is_prefix_of p s \<longleftrightarrow> take (length p) s = p"

text \<open>C's \<open>strncmp (a, b, n) == 0\<close>, both strings without their NUL.\<close>

definition strncmp_eq :: "string \<Rightarrow> string \<Rightarrow> nat \<Rightarrow> bool" where
  "strncmp_eq a b n \<longleftrightarrow> take n a = take n b"

lemma strncmp_eq_prefix: "strncmp_eq s p (length p) \<longleftrightarrow> is_prefix_of p s"
  by (simp add: strncmp_eq_def is_prefix_of_def)

end
