(* ===== verification/Hashfn.thy ===== *)
theory Hashfn
  imports Prelude
begin

text \<open>
  The string hashes of \<open>libglusterfs/src/hashfn.c\<close>, byte for byte on a
  little-endian host with signed \<open>char\<close>.  A read outside the buffer makes the
  result \<open>None\<close>, so that a theorem \<open>f msg len = Some h\<close> says that the C
  function stays inside the first \<open>len\<close> bytes.
\<close>

subsection \<open>Memory reads\<close>

definition rd8 :: "byte list \<Rightarrow> nat \<Rightarrow> byte option" where
  "rd8 m i = (if i < length m then Some (m ! i) else None)"

definition get16bits :: "byte list \<Rightarrow> nat \<Rightarrow> u32 option" where
  "get16bits m i = do {
     a \<leftarrow> rd8 m i; b \<leftarrow> rd8 m (i + 1);
     Some (ucast a OR push_bit 8 (ucast b)) }"

definition rd32 :: "byte list \<Rightarrow> nat \<Rightarrow> u32 option" where
  "rd32 m i = do {
     a \<leftarrow> rd8 m i; b \<leftarrow> rd8 m (i + 1); c \<leftarrow> rd8 m (i + 2); d \<leftarrow> rd8 m (i + 3);
     Some (ucast a OR push_bit 8 (ucast b) OR push_bit 16 (ucast c) OR push_bit 24 (ucast d)) }"

text \<open>A \<open>char\<close> used in 32-bit arithmetic is sign-extended.\<close>

definition char_u32 :: "byte \<Rightarrow> u32" where
  "char_u32 c = scast c"

subsection \<open>ReallySimpleHash\<close>

fun ReallySimpleHash_loop :: "byte list \<Rightarrow> nat \<Rightarrow> u32 \<Rightarrow> u32 option" where
  "ReallySimpleHash_loop path 0 hash = Some hash"
| "ReallySimpleHash_loop path (Suc n) hash = do {
     c \<leftarrow> rd8 path (Suc n);
     ReallySimpleHash_loop path n (hash XOR char_u32 c) }"

definition ReallySimpleHash :: "byte list \<Rightarrow> nat \<Rightarrow> u32 option" where
  "ReallySimpleHash path len = ReallySimpleHash_loop path len 0"

subsection \<open>SuperFastHash\<close>

fun SuperFastHash_loop :: "nat \<Rightarrow> byte list \<Rightarrow> nat \<Rightarrow> u32 \<Rightarrow> u32 option" where
  "SuperFastHash_loop 0 m pos hash = Some hash"
| "SuperFastHash_loop (Suc n) m pos hash = do {
     lo \<leftarrow> get16bits m pos;
     hi \<leftarrow> get16bits m (pos + 2);
     let hash = hash + lo;
     let tmp = push_bit 11 hi XOR hash;
     let hash = push_bit 16 hash XOR tmp;
     let hash = hash + drop_bit 11 hash;
     SuperFastHash_loop n m (pos + 4) hash }"

definition SuperFastHash_tail :: "nat \<Rightarrow> byte list \<Rightarrow> nat \<Rightarrow> u32 \<Rightarrow> u32 option" where
  "SuperFastHash_tail rem m pos hash =
     (if rem = 3 then do {
        w \<leftarrow> get16bits m pos;
        let hash = hash + w;
        let hash = hash XOR push_bit 16 hash;
        c \<leftarrow> rd8 m (pos + 2);
        let hash = hash XOR push_bit 18 (char_u32 c);
        Some (hash + drop_bit 11 hash) }
      else if rem = 2 then do {
        w \<leftarrow> get16bits m pos;
        let hash = hash + w;
        let hash = hash XOR push_bit 11 hash;
        Some (hash + drop_bit 17 hash) }
      else if rem = 1 then do {
        c \<leftarrow> rd8 m pos;
        let hash = hash + char_u32 c;
        let hash = hash XOR push_bit 10 hash;
        Some (hash + drop_bit 1 hash) }
      else Some hash)"

definition avalanche :: "u32 \<Rightarrow> u32" where
  "avalanche hash =
     (let hash = hash XOR push_bit 3 hash;
          hash = hash + drop_bit 5 hash;
          hash = hash XOR push_bit 4 hash;
          hash = hash + drop_bit 17 hash;
          hash = hash XOR push_bit 25 hash
      in hash + drop_bit 6 hash)"

definition SuperFastHash :: "byte list option \<Rightarrow> nat \<Rightarrow> u32 option" where
  "SuperFastHash data len =
     (case data of
        None \<Rightarrow> Some 1
      | Some m \<Rightarrow>
          if len \<le> 1 then Some 1
          else do {
            hash \<leftarrow> SuperFastHash_loop (len div 4) m 0 (of_nat len);
            hash \<leftarrow> SuperFastHash_tail (len mod 4) m (4 * (len div 4)) hash;
            Some (avalanche hash) })"

subsection \<open>The Davies-Meyer hash\<close>

abbreviation (input) DM_DELTA :: u32 where "DM_DELTA \<equiv> 0x9E3779B9"
abbreviation (input) DM_FULLROUNDS :: u32 where "DM_FULLROUNDS \<equiv> 10"
abbreviation (input) DM_PARTROUNDS :: u32 where "DM_PARTROUNDS \<equiv> 6"

text \<open>The four key words \<open>array[0..3]\<close>.\<close>

type_synonym dm_key = "u32 \<times> u32 \<times> u32 \<times> u32"

text \<open>
  The \<open>do { ... } while (--n)\<close> loop of \<open>dm_round\<close>: the body runs first and the
  counter wraps, so the measure is the number of decrements left before zero.
\<close>

function dm_loop :: "u32 \<Rightarrow> dm_key \<Rightarrow> u32 \<Rightarrow> u32 \<Rightarrow> u32 \<Rightarrow> u32 \<times> u32" where
  "dm_loop n (a0, a1, a2, a3) sm b0 b1 =
     (let sm = sm + DM_DELTA;
          b0 = b0 + ((push_bit 4 b1 + a0) XOR (b1 + sm) XOR (drop_bit 5 b1 + a1));
          b1 = b1 + ((push_bit 4 b0 + a2) XOR (b0 + sm) XOR (drop_bit 5 b0 + a3))
      in if n - 1 = 0 then (b0, b1) else dm_loop (n - 1) (a0, a1, a2, a3) sm b0 b1)"
  by pat_completeness auto
termination
proof (relation "measure (\<lambda>(n, _). unat (n - 1))")
  fix n :: u32 assume "n - 1 \<noteq> 0"
  then have "unat (n - 1 - 1) < unat (n - 1)"
    by (metis unat_minus_one unat_gt_0 diff_less zero_less_one)
  then show "((n - 1, b), (n, c)) \<in> measure (\<lambda>(n, _). unat (n - 1))" for b c
    by simp
qed auto

definition dm_round :: "u32 \<Rightarrow> dm_key \<Rightarrow> u32 \<times> u32 \<Rightarrow> u32 \<times> u32" where
  "dm_round rounds key h =
     (let (b0, b1) = dm_loop rounds key 0 (fst h) (snd h)
      in (fst h + b0, snd h + b1))"

definition pad_word :: "nat \<Rightarrow> u32" where
  "pad_word len =
     (let pad = of_nat len OR push_bit 8 (of_nat len)
      in pad OR push_bit 16 pad)"

fun dm_quads :: "nat \<Rightarrow> byte list \<Rightarrow> nat \<Rightarrow> u32 \<times> u32 \<Rightarrow> (u32 \<times> u32) option" where
  "dm_quads 0 msg pos h = Some h"
| "dm_quads (Suc q) msg pos h = do {
     a0 \<leftarrow> rd32 msg pos; a1 \<leftarrow> rd32 msg (pos + 4);
     a2 \<leftarrow> rd32 msg (pos + 8); a3 \<leftarrow> rd32 msg (pos + 12);
     dm_quads q msg (pos + 16) (dm_round DM_PARTROUNDS (a0, a1, a2, a3) h) }"

text \<open>\<open>while (full_bytes) { array[j] <<= 8; array[j] |= msg[len - full_bytes]; full_bytes--; }\<close>\<close>

fun dm_tail_bytes :: "nat \<Rightarrow> byte list \<Rightarrow> nat \<Rightarrow> u32 \<Rightarrow> u32 option" where
  "dm_tail_bytes 0 msg len w = Some w"
| "dm_tail_bytes (Suc fb) msg len w = do {
     c \<leftarrow> rd8 msg (len - Suc fb);
     dm_tail_bytes fb msg len (push_bit 8 w OR char_u32 c) }"

text \<open>The last key: whole words first, then the left-over bytes over the pad, then pads.\<close>

fun dm_tail_words :: "nat \<Rightarrow> byte list \<Rightarrow> nat \<Rightarrow> u32 \<Rightarrow> nat \<Rightarrow> nat \<Rightarrow> nat \<Rightarrow> u32 list option" where
  "dm_tail_words 0 msg len pad pos full_words full_bytes = Some []"
| "dm_tail_words (Suc j) msg len pad pos full_words full_bytes =
     (if full_words \<noteq> 0 then do {
        w \<leftarrow> rd32 msg pos;
        ws \<leftarrow> dm_tail_words j msg len pad (pos + 4) (full_words - 1) (full_bytes - 4);
        Some (w # ws) }
      else do {
        w \<leftarrow> dm_tail_bytes full_bytes msg len pad;
        ws \<leftarrow> dm_tail_words j msg len pad pos 0 0;
        Some (w # ws) })"

definition gf_dm_hashfn :: "byte list \<Rightarrow> nat \<Rightarrow> u32 option" where
  "gf_dm_hashfn msg len = do {
     let full_quads = len div 16;
     h \<leftarrow> dm_quads full_quads msg 0 (0x9464a485, 0x542e1a94);
     ws \<leftarrow> dm_tail_words 4 msg len (pad_word len) (16 * full_quads)
             (len div 4 - 4 * full_quads) (len - 16 * full_quads);
     let h = dm_round DM_FULLROUNDS (ws ! 0, ws ! 1, ws ! 2, ws ! 3) h;
     Some (fst h XOR snd h) }"

declare dm_loop.simps [simp del]


subsection \<open>Reads stay inside the buffer\<close>

lemma rd8_Some [simp]: "i < length m \<Longrightarrow> rd8 m i = Some (m ! i)"
  by (simp add: rd8_def)

lemma rd8_take [simp]: "i < n \<Longrightarrow> rd8 (take n m) i = rd8 m i"
  by (simp add: rd8_def)

lemma get16bits_take [simp]: "i + 2 \<le> n \<Longrightarrow> get16bits (take n m) i = get16bits m i"
  by (simp add: get16bits_def)

lemma get16bits_Some: "i + 2 \<le> length m \<Longrightarrow> \<exists>w. get16bits m i = Some w"
  by (simp add: get16bits_def)

lemma rd32_take [simp]: "i + 4 \<le> n \<Longrightarrow> rd32 (take n m) i = rd32 m i"
  by (simp add: rd32_def)

lemma rd32_Some: "i + 4 \<le> length m \<Longrightarrow> \<exists>w. rd32 m i = Some w"
  by (simp add: rd32_def)

lemma SuperFastHash_loop_take:
  "pos + 4 * n \<le> len \<Longrightarrow> SuperFastHash_loop n (take len m) pos h = SuperFastHash_loop n m pos h"
  by (induction n arbitrary: pos h) (simp_all add: Let_def)

lemma SuperFastHash_loop_Some:
  "pos + 4 * n \<le> length m \<Longrightarrow> \<exists>h'. SuperFastHash_loop n m pos h = Some h'"
proof (induction n arbitrary: pos h)
  case (Suc n)
  obtain lo hi where "get16bits m pos = Some lo" "get16bits m (pos + 2) = Some hi"
    using get16bits_Some[of pos m] get16bits_Some[of "pos + 2" m] Suc.prems by auto
  with Suc show ?case by (simp add: Let_def)
qed simp

lemma SuperFastHash_tail_take:
  "pos + r \<le> len \<Longrightarrow> SuperFastHash_tail r (take len m) pos h = SuperFastHash_tail r m pos h"
  by (simp add: SuperFastHash_tail_def Let_def)

lemma SuperFastHash_tail_Some:
  "pos + r \<le> length m \<Longrightarrow> \<exists>h'. SuperFastHash_tail r m pos h = Some h'"
  using get16bits_Some[of pos m] by (auto simp: SuperFastHash_tail_def Let_def)

lemma dm_quads_take:
  "pos + 16 * q \<le> len \<Longrightarrow> dm_quads q (take len m) pos h = dm_quads q m pos h"
  by (induction q arbitrary: pos h) simp_all

lemma dm_quads_Some:
  "pos + 16 * q \<le> length m \<Longrightarrow> \<exists>h'. dm_quads q m pos h = Some h'"
proof (induction q arbitrary: pos h)
  case (Suc q)
  obtain a0 a1 a2 a3 where "rd32 m pos = Some a0" "rd32 m (pos + 4) = Some a1"
      "rd32 m (pos + 8) = Some a2" "rd32 m (pos + 12) = Some a3"
    using rd32_Some[of pos m] rd32_Some[of "pos + 4" m] rd32_Some[of "pos + 8" m]
      rd32_Some[of "pos + 12" m] Suc.prems by auto
  with Suc show ?case by simp
qed simp

lemma dm_tail_bytes_take:
  "fb \<le> len \<Longrightarrow> dm_tail_bytes fb (take len m) len w = dm_tail_bytes fb m len w"
  by (induction fb arbitrary: w) simp_all

lemma dm_tail_bytes_Some:
  "fb \<le> len \<Longrightarrow> len \<le> length m \<Longrightarrow> \<exists>w'. dm_tail_bytes fb m len w = Some w'"
  by (induction fb arbitrary: w) simp_all

lemma dm_tail_words_take:
  "pos + 4 * fw \<le> len \<Longrightarrow> fb \<le> len \<Longrightarrow>
   dm_tail_words j (take len m) len pad pos fw fb = dm_tail_words j m len pad pos fw fb"
  by (induction j arbitrary: pos fw fb) (simp_all add: dm_tail_bytes_take)

lemma dm_tail_words_Some:
  "pos + 4 * fw \<le> len \<Longrightarrow> fb \<le> len \<Longrightarrow> len \<le> length m \<Longrightarrow>
   \<exists>ws. dm_tail_words j m len pad pos fw fb = Some ws \<and> length ws = j"
proof (induction j arbitrary: pos fw fb)
  case (Suc j)
  show ?case
  proof (cases "fw = 0")
    case True
    with Suc dm_tail_bytes_Some[of fb len m pad] show ?thesis
      by (fastforce dest: Suc.IH[of pos 0 0])
  next
    case False
    then have "pos + 4 + 4 * (fw - 1) \<le> len" using Suc.prems by simp
    with False Suc rd32_Some[of pos m] show ?thesis
      by (fastforce dest: Suc.IH[of "pos + 4" "fw - 1" "fb - 4"])
  qed
qed simp

lemma quad_bounds:
  fixes len :: nat
  shows "16 * (len div 16) \<le> len" "16 * (len div 16) + 4 * (len div 4 - 4 * (len div 16)) \<le> len"
proof -
  have "4 * (len div 4) \<le> len" "16 * (len div 16) \<le> len" by simp_all
  then show "16 * (len div 16) \<le> len" "16 * (len div 16) + 4 * (len div 4 - 4 * (len div 16)) \<le> len"
    by linarith+
qed

lemma gf_dm_hashfn_take [simp]: "gf_dm_hashfn (take len m) len = gf_dm_hashfn m len"
proof -
  show ?thesis using quad_bounds[of len]
    by (simp add: gf_dm_hashfn_def dm_quads_take dm_tail_words_take)
qed

lemma gf_dm_hashfn_Some: "len \<le> length m \<Longrightarrow> \<exists>h. gf_dm_hashfn m len = Some h"
proof -
  assume len: "len \<le> length m"
  note b = quad_bounds[of len]
  obtain h where "dm_quads (len div 16) m 0 (0x9464a485, 0x542e1a94) = Some h"
    using dm_quads_Some[of 0 "len div 16" m] b len by fastforce
  moreover obtain ws where "dm_tail_words 4 m len (pad_word len) (16 * (len div 16))
      (len div 4 - 4 * (len div 16)) (len - 16 * (len div 16)) = Some ws"
    using dm_tail_words_Some[OF b(2) _ len, of "len - 16 * (len div 16)" 4 "pad_word len"] by auto
  ultimately show ?thesis by (simp add: gf_dm_hashfn_def Let_def)
qed

lemma SuperFastHash_take [simp]: "SuperFastHash (Some (take len m)) len = SuperFastHash (Some m) len"
proof -
  have "4 * (len div 4) + len mod 4 \<le> len" by simp
  moreover have "4 * (len div 4) \<le> len" by simp
  ultimately show ?thesis
    by (simp add: SuperFastHash_def SuperFastHash_loop_take SuperFastHash_tail_take)
qed

lemma SuperFastHash_Some: "len \<le> length m \<Longrightarrow> \<exists>h. SuperFastHash (Some m) len = Some h"
proof -
  assume len: "len \<le> length m"
  have "4 * (len div 4) \<le> len" and "4 * (len div 4) + len mod 4 = len"
    by simp_all
  with len have b: "0 + 4 * (len div 4) \<le> length m" "4 * (len div 4) + len mod 4 \<le> length m"
    by linarith+
  obtain h where h: "SuperFastHash_loop (len div 4) m 0 (of_nat len) = Some h"
    using SuperFastHash_loop_Some[OF b(1)] by blast
  obtain h' where "SuperFastHash_tail (len mod 4) m (4 * (len div 4)) h = Some h'"
    using SuperFastHash_tail_Some[OF b(2)] by blast
  with h show ?thesis by (simp add: SuperFastHash_def)
qed

end
