(* ===== verification/Byteorder.thy ===== *)
theory Byteorder
  imports Hashfn
begin

text \<open>
  Byte order conversion (\<open>libglusterfs/src/byte-order.h\<close>) on a little-endian
  host, the in-memory image of a 32-bit word, and C strings as byte buffers.
  These carry the two wire formats of the program: the 16-byte on-disk layout
  of a directory and the serialized dictionary.
\<close>

subsection \<open>Byte swapping\<close>

definition do_swap2 :: "u32 \<Rightarrow> u32" where
  "do_swap2 x = push_bit 8 (x AND 0xff) OR drop_bit 8 (x AND 0xff00)"

definition do_swap4 :: "u32 \<Rightarrow> u32" where
  "do_swap4 x = push_bit 16 (do_swap2 (x AND 0xffff)) OR do_swap2 (drop_bit 16 (x AND 0xffff0000))"

definition hton32 :: "u32 \<Rightarrow> u32" where
  "hton32 x = do_swap4 x"

text \<open>\<open>ntoh32\<close> is a macro for \<open>hton32\<close>.\<close>

abbreviation ntoh32 :: "u32 \<Rightarrow> u32" where "ntoh32 \<equiv> hton32"

text \<open>The four bytes a \<open>memcpy\<close> from a \<open>uint32_t\<close> writes.\<close>

definition st32 :: "u32 \<Rightarrow> byte list" where
  "st32 w = [ucast w, ucast (drop_bit 8 w), ucast (drop_bit 16 w), ucast (drop_bit 24 w)]"

subsection \<open>C strings in a buffer\<close>

definition bytes_of :: "string \<Rightarrow> byte list" where
  "bytes_of s = map of_char s"

definition string_of :: "byte list \<Rightarrow> string" where
  "string_of b = map (\<lambda>w. char_of (unat w)) b"

text \<open>A string with its terminating NUL.\<close>

definition cstr :: "string \<Rightarrow> byte list" where
  "cstr s = bytes_of s @ [0]"

text \<open>The string a \<open>char *\<close> into a buffer denotes: up to the first NUL.\<close>

definition str_at :: "byte list \<Rightarrow> string" where
  "str_at b = string_of (takeWhile (\<lambda>w. w \<noteq> 0) b)"

definition no_nul :: "string \<Rightarrow> bool" where
  "no_nul s \<longleftrightarrow> CHR 0x00 \<notin> set s"

subsection \<open>Laws\<close>

lemma byte_cases:
  obtains "n < 8" | k where "n = k + 8" "k < 8" | k where "n = k + 16" "k < 8" | k where "n = k + 24" "k < 8" | "32 \<le> (n::nat)"
proof -
  have "n < 8 \<or> (\<exists>k<8. n = k + 8) \<or> (\<exists>k<8. n = k + 16) \<or> (\<exists>k<8. n = k + 24) \<or> 32 \<le> n" by presburger
  with that show thesis by blast
qed

lemma swap_masks: "0xff = (mask 8 :: u32)" "0xffff = (mask 16 :: u32)" "0xff00 = (push_bit 8 (mask 8) :: u32)"
    "0xffff0000 = (push_bit 16 (mask 16) :: u32)"
    by (simp_all add: mask_eq_exp_minus_1 push_bit_eq_mult)

lemma do_swap2_bit: "bit (do_swap2 x) n \<longleftrightarrow> (n < 8 \<and> bit x (n + 8) \<or> 8 \<le> n \<and> n < 16 \<and> bit x (n - 8))"
  unfolding do_swap2_def swap_masks
  by (auto simp: bit_simps add.commute)

lemma not_bit_32: "32 \<le> n \<Longrightarrow> \<not> bit (x::u32) n"
  by (auto dest: bit_imp_le_length)

lemma do_swap4_bit:
  "bit (do_swap4 x) n \<longleftrightarrow> (16 \<le> n \<and> n < 32 \<and> bit (do_swap2 (take_bit 16 x)) (n - 16) \<or> bit (do_swap2 (drop_bit 16 x)) n)"
proof -
  have "drop_bit 16 (x AND push_bit 16 (mask 16)) = drop_bit 16 x"
    by (rule bit_word_eqI) (auto simp: bit_and_iff bit_push_bit_iff bit_mask_iff bit_drop_bit_eq dest: bit_imp_le_length)
  moreover have "x AND mask 16 = take_bit 16 x" by (simp add: take_bit_eq_mask)
  ultimately show ?thesis unfolding do_swap4_def swap_masks
    by (simp add: bit_or_iff bit_push_bit_iff)
qed

lemma hton32_bit:
  "bit (hton32 x) n \<longleftrightarrow>
     (n < 8 \<and> bit x (n + 24) \<or> 8 \<le> n \<and> n < 16 \<and> bit x (n + 8) \<or>
      16 \<le> n \<and> n < 24 \<and> bit x (n - 8) \<or> 24 \<le> n \<and> n < 32 \<and> bit x (n - 24))"
  by (cases n rule: byte_cases)
    (simp_all add: hton32_def do_swap4_bit do_swap2_bit bit_take_bit_iff bit_drop_bit_eq add.commute)

lemma hton32_hton32 [simp]: "hton32 (hton32 x) = x"
  by (rule bit_word_eqI, rename_tac n, case_tac n rule: byte_cases) (simp_all add: hton32_bit add.commute)

lemma length_st32 [simp]: "length (st32 w) = 4"
  by (simp add: st32_def)

lemma rd32_st32 [simp]: "rd32 (st32 w @ xs) 0 = Some w"
proof -
  have "bit (ucast (ucast w :: byte) OR push_bit 8 (ucast (ucast (drop_bit 8 w) :: byte)) OR
    push_bit 16 (ucast (ucast (drop_bit 16 w) :: byte)) OR push_bit 24 (ucast (ucast (drop_bit 24 w) :: byte)) :: u32) n = bit w n" for n
    by (cases n rule: byte_cases) (simp_all add: bit_simps not_bit_32 add.commute)
  then show ?thesis by (simp add: rd32_def st32_def rd8_def bit_eq_iff)
qed

lemma rd32_append: "rd32 (xs @ ys) (length xs + i) = rd32 ys i"
  by (simp add: rd32_def rd8_def nth_append add.assoc)

lemma rd32_drop: "k \<le> length xs \<Longrightarrow> rd32 (drop k xs) i = rd32 xs (k + i)"
  using rd32_append [of "take k xs" "drop k xs" i] by (simp add: min_absorb2)

lemma length_bytes_of [simp]: "length (bytes_of s) = length s"
  by (simp add: bytes_of_def)

lemma length_cstr [simp]: "length (cstr s) = Suc (length s)"
  by (simp add: cstr_def)

lemma of_char_byte: "unat (of_char c :: byte) = of_char c"
proof -
  have "(of_char c :: byte) = of_nat (of_char c)" by (simp only: of_nat_of_char)
  then have "unat (of_char c :: byte) = of_char c mod 256" by (simp only: unat_of_nat) simp
  then show ?thesis by simp
qed

lemma string_of_bytes_of [simp]: "string_of (bytes_of s) = s"
  by (simp add: string_of_def bytes_of_def of_char_byte comp_def)

lemma bytes_of_nz:
  assumes "no_nul s" "w \<in> set (bytes_of s)"
  shows "w \<noteq> 0"
proof
  assume "w = 0"
  with assms(2) obtain c where c: "c \<in> set s" "(of_char c :: byte) = 0"
    by (auto simp: bytes_of_def)
  then have "of_char c = (0::nat)" using of_char_byte [of c] by simp
  then have "c = char_of (0::nat)" by (metis char_of_char)
  with c(1) assms(1) show False by (simp add: no_nul_def char_of_def)
qed

lemma str_at_cstr [simp]: "no_nul s \<Longrightarrow> str_at (cstr s @ xs) = s"
  using bytes_of_nz [of s] by (simp add: str_at_def cstr_def takeWhile_append2)

end
