(* ===== verification/Dict.thy ===== *)
theory Dict
  imports Byteorder "HOL-Library.AList"
begin

text \<open>
  The dictionary \<open>dict_t\<close> of \<open>libglusterfs/src/dict.c\<close>, the carrier of every
  extended attribute and every IPC payload of the program.

  A pair structure is reached both from its hash chain (\<open>members[h]\<close> linked by
  \<open>hash_next\<close>) and from \<open>members_list\<close> (linked by \<open>prev\<close>/\<open>next\<close>), and replacing a
  value writes the structure in place.  The model therefore keeps the pair
  structures in a store indexed by address; the two lists hold addresses.
  Address 0 is the embedded \<open>free_pair\<close>.  \<open>members\<close> is indexed by an integer
  because \<open>_dict_set\<close> computes a signed index.  Locks are taken around each
  operation, so an operation is one atomic step; allocation does not fail and
  the reference counts of values are left out.

  The last part gives the abstract contract of a dictionary as a locale and
  discharges it for the operations.
\<close>

subsection \<open>Data\<close>

record data_t =
  is_static :: bool
  is_stdalloc :: bool
  data_len :: int
  data_data :: "byte list option"

record data_pair_t =
  pair_key :: string
  pair_value :: data_t

record dict_t =
  hash_size :: int
  dict_count :: int
  dict_refcount :: int
  members :: "int \<Rightarrow> nat list"
  members_list :: "nat list"
  pairs :: "nat \<Rightarrow> data_pair_t"
  free_pair_in_use :: bool

abbreviation (input) free_pair :: nat where "free_pair \<equiv> 0"

definition get_new_data :: data_t where
  "get_new_data = \<lparr>is_static = False, is_stdalloc = False, data_len = 0, data_data = None\<rparr>"

definition get_new_dict_full :: "int \<Rightarrow> dict_t" where
  "get_new_dict_full size_hint = \<lparr>hash_size = size_hint, dict_count = 0, dict_refcount = 0,
     members = (\<lambda>_. []), members_list = [], pairs = (\<lambda>_. \<lparr>pair_key = [], pair_value = get_new_data\<rparr>),
     free_pair_in_use = False\<rparr>"

definition get_new_dict :: dict_t where
  "get_new_dict = get_new_dict_full 1"

definition dict_ref :: "dict_t option \<Rightarrow> dict_t option" where
  "dict_ref this = map_option (\<lambda>d. d\<lparr>dict_refcount := dict_refcount d + 1\<rparr>) this"

definition dict_new :: dict_t where
  "dict_new = (case dict_ref (Some (get_new_dict_full 1)) of Some d \<Rightarrow> d | None \<Rightarrow> get_new_dict_full 1)"

subsection \<open>Comparing values\<close>

text \<open>The comparison of the two \<open>data_t\<close> and of the two buffer addresses only
  short-cuts the comparison of the contents.\<close>

definition is_data_equal :: "data_t option \<Rightarrow> data_t option \<Rightarrow> int" where
  "is_data_equal one two = (case (one, two) of
     (Some a, Some b) \<Rightarrow>
       (case (data_data a, data_data b) of
          (Some x, Some y) \<Rightarrow>
            if data_len a \<noteq> data_len b then 0
            else if take (nat (data_len a)) x = take (nat (data_len a)) y then 1 else 0
        | _ \<Rightarrow> -1)
   | _ \<Rightarrow> -1)"

definition data_copy :: "data_t option \<Rightarrow> data_t option" where
  "data_copy old = (case old of
     None \<Rightarrow> None
   | Some d \<Rightarrow> Some (get_new_data\<lparr>data_len := data_len d,
       data_data := map_option (take (nat (data_len d))) (data_data d)\<rparr>))"

subsection \<open>Lookup\<close>

definition hash_of :: "string \<Rightarrow> u32" where
  "hash_of key = (case SuperFastHash (Some (bytes_of key)) (length key) of Some h \<Rightarrow> h | None \<Rightarrow> 0)"

text \<open>The unsigned hash modulo the size, as \<open>_dict_lookup\<close> and \<open>dict_del\<close> compute it.\<close>

definition lookup_hashval :: "dict_t \<Rightarrow> string \<Rightarrow> int" where
  "lookup_hashval this key =
     (if hash_size this \<noteq> 1 then uint (hash_of key mod word_of_int (hash_size this)) else 0)"

text \<open>The same in \<open>_dict_set\<close>, which first stores the hash in an \<open>int\<close>: C's \<open>%\<close>
  on a negative dividend is negative.\<close>

definition set_hashval :: "dict_t \<Rightarrow> string \<Rightarrow> int" where
  "set_hashval this key =
     (if hash_size this \<noteq> 1
      then let tmp = sint (hash_of key) in sgn tmp * (\<bar>tmp\<bar> mod \<bar>hash_size this\<bar>)
      else 0)"

definition u_dict_lookup :: "dict_t \<Rightarrow> string \<Rightarrow> nat option" where
  "u_dict_lookup this key =
     List.find (\<lambda>p. pair_key (pairs this p) = key) (members this (lookup_hashval this key))"

definition dict_lookup :: "dict_t option \<Rightarrow> string option \<Rightarrow> int \<times> data_t option" where
  "dict_lookup this key = (case (this, key) of
     (Some d, Some k) \<Rightarrow>
       (case u_dict_lookup d k of
          None \<Rightarrow> (-1, None)
        | Some p \<Rightarrow> (0, Some (pair_value (pairs d p))))
   | _ \<Rightarrow> (-1, None))"

definition dict_get :: "dict_t option \<Rightarrow> string option \<Rightarrow> data_t option" where
  "dict_get this key = (case (this, key) of
     (Some d, Some k) \<Rightarrow>
       (case u_dict_lookup d k of Some p \<Rightarrow> Some (pair_value (pairs d p)) | None \<Rightarrow> None)
   | _ \<Rightarrow> None)"

definition dict_get_with_ref :: "dict_t option \<Rightarrow> string option \<Rightarrow> int \<times> data_t option" where
  "dict_get_with_ref this key = (case (this, key) of
     (Some d, Some k) \<Rightarrow>
       (case u_dict_lookup d k of
          Some p \<Rightarrow> (0, Some (pair_value (pairs d p)))
        | None \<Rightarrow> (- ENOENT, None))
   | _ \<Rightarrow> (- EINVAL, None))"

subsection \<open>Update\<close>

text \<open>\<open>mem_get0\<close> hands out an address no pair of the dictionary has.\<close>

definition fresh_pair :: "dict_t \<Rightarrow> nat" where
  "fresh_pair d = Suc (fold max (members_list d) 0)"

definition u_dict_set :: "dict_t \<Rightarrow> string \<Rightarrow> data_t \<Rightarrow> bool \<Rightarrow> dict_t" where
  "u_dict_set this key value replace =
     (let hashval = set_hashval this key;
          old = (if replace then u_dict_lookup this key else None)
      in case old of
           Some p \<Rightarrow> this\<lparr>pairs := (pairs this)(p := (pairs this p)\<lparr>pair_value := value\<rparr>)\<rparr>
         | None \<Rightarrow>
             let pair = (if free_pair_in_use this then fresh_pair this else free_pair) in
             this\<lparr>free_pair_in_use := True,
                  pairs := (pairs this)(pair := \<lparr>pair_key = key, pair_value = value\<rparr>),
                  members := (members this)(hashval := pair # members this hashval),
                  members_list := pair # members_list this,
                  dict_count := dict_count this + 1\<rparr>)"

definition dict_set :: "dict_t option \<Rightarrow> string \<Rightarrow> data_t option \<Rightarrow> int \<times> dict_t option" where
  "dict_set this key value = (case (this, value) of
     (Some d, Some v) \<Rightarrow> (0, Some (u_dict_set d key v True))
   | _ \<Rightarrow> (-1, this))"

definition dict_add :: "dict_t option \<Rightarrow> string \<Rightarrow> data_t option \<Rightarrow> int \<times> dict_t option" where
  "dict_add this key value = (case (this, value) of
     (Some d, Some v) \<Rightarrow> (0, Some (u_dict_set d key v False))
   | _ \<Rightarrow> (-1, this))"

text \<open>\<open>dict_del\<close> walks the hash chain and unlinks the first pair with the key from
  both lists.\<close>

definition u_dict_del :: "dict_t \<Rightarrow> string \<Rightarrow> dict_t" where
  "u_dict_del this key =
     (let hashval = lookup_hashval this key in
      case List.find (\<lambda>p. pair_key (pairs this p) = key) (members this hashval) of
        None \<Rightarrow> this
      | Some p \<Rightarrow>
          this\<lparr>members := (members this)(hashval := remove1 p (members this hashval)),
               members_list := remove1 p (members_list this),
               free_pair_in_use := (if p = free_pair then False else free_pair_in_use this),
               dict_count := dict_count this - 1\<rparr>)"

definition dict_del :: "dict_t option \<Rightarrow> string option \<Rightarrow> dict_t option" where
  "dict_del this key = (case (this, key) of
     (Some d, Some k) \<Rightarrow> Some (u_dict_del d k)
   | _ \<Rightarrow> this)"

subsection \<open>Iteration\<close>

definition dict_alist :: "dict_t \<Rightarrow> (string \<times> data_t) list" where
  "dict_alist d = map (\<lambda>p. (pair_key (pairs d p), pair_value (pairs d p))) (members_list d)"

text \<open>The loop of \<open>dict_foreach_match\<close>: the action threads its own state, a negative
  result stops the walk.  \<open>next\<close> is read before the action runs, so an action
  may delete the pair it is called on.\<close>

fun foreach_loop ::
  "(string \<Rightarrow> data_t \<Rightarrow> bool) \<Rightarrow> (string \<Rightarrow> data_t \<Rightarrow> 's \<Rightarrow> int \<times> 's) \<Rightarrow>
   (string \<times> data_t) list \<Rightarrow> int \<Rightarrow> 's \<Rightarrow> int \<times> 's" where
  "foreach_loop match action [] count s = (count, s)"
| "foreach_loop match action ((k, v) # ps) count s =
     (if match k v then
        (case action k v s of (ret, s') \<Rightarrow>
           if ret < 0 then (ret, s') else foreach_loop match action ps (count + 1) s')
      else foreach_loop match action ps count s)"

definition dict_foreach_match ::
  "dict_t option \<Rightarrow> (string \<Rightarrow> data_t \<Rightarrow> bool) \<Rightarrow> (string \<Rightarrow> data_t \<Rightarrow> 's \<Rightarrow> int \<times> 's) \<Rightarrow> 's \<Rightarrow> int \<times> 's" where
  "dict_foreach_match dict match action s = (case dict of
     None \<Rightarrow> (-1, s)
   | Some d \<Rightarrow> foreach_loop match action (dict_alist d) 0 s)"

definition dict_match_everything :: "string \<Rightarrow> data_t \<Rightarrow> bool" where
  "dict_match_everything k v = True"

definition dict_null_foreach_fn :: "string \<Rightarrow> data_t \<Rightarrow> 's \<Rightarrow> int \<times> 's" where
  "dict_null_foreach_fn k v s = (0, s)"

definition dict_remove_foreach_fn :: "string \<Rightarrow> data_t \<Rightarrow> dict_t \<Rightarrow> int \<times> dict_t" where
  "dict_remove_foreach_fn k v d = (0, u_dict_del d k)"

definition dict_foreach ::
  "dict_t option \<Rightarrow> (string \<Rightarrow> data_t \<Rightarrow> 's \<Rightarrow> int \<times> 's) \<Rightarrow> 's \<Rightarrow> int \<times> 's" where
  "dict_foreach dict fn s = (case dict_foreach_match dict dict_match_everything fn s of (ret, s') \<Rightarrow>
     (if ret > 0 then 0 else ret, s'))"

definition copy_fn :: "string \<Rightarrow> data_t \<Rightarrow> dict_t option \<Rightarrow> int \<times> dict_t option" where
  "copy_fn key value newdict = dict_set newdict key (Some value)"

definition dict_copy :: "dict_t option \<Rightarrow> dict_t option \<Rightarrow> dict_t option" where
  "dict_copy dict new = (case dict of
     None \<Rightarrow> None
   | Some d \<Rightarrow>
       let new = (case new of None \<Rightarrow> Some (get_new_dict_full (hash_size d)) | Some n \<Rightarrow> Some n)
       in snd (dict_foreach dict copy_fn new))"

definition dict_copy_with_ref :: "dict_t option \<Rightarrow> dict_t option \<Rightarrow> dict_t option" where
  "dict_copy_with_ref dict new = (case dict of
     None \<Rightarrow> new
   | Some d \<Rightarrow>
       let new = (case new of None \<Rightarrow> Some dict_new | Some n \<Rightarrow> Some n)
       in snd (dict_foreach dict copy_fn new))"

definition dict_reset :: "dict_t option \<Rightarrow> int \<times> dict_t option" where
  "dict_reset dict = (case dict of
     None \<Rightarrow> (-1, None)
   | Some d \<Rightarrow> (0, Some (snd (dict_foreach dict dict_remove_foreach_fn d))))"

definition key_value_cmp ::
  "dict_t option \<Rightarrow> (string \<Rightarrow> bool) option \<Rightarrow> string \<Rightarrow> data_t \<Rightarrow> unit \<Rightarrow> int \<times> unit" where
  "key_value_cmp two value_ignore key1 value1 u =
     (case dict_get two (Some key1) of
        None \<Rightarrow> (-1, u)
      | Some value2 \<Rightarrow>
          if (case value_ignore of Some f \<Rightarrow> f key1 | None \<Rightarrow> False) then (0, u)
          else if is_data_equal (Some value1) (Some value2) = 1 then (0, u)
          else (-1, u))"

text \<open>The test \<open>one == two\<close> on the addresses is the argument \<open>same\<close>.\<close>

definition are_dicts_equal ::
  "bool \<Rightarrow> dict_t option \<Rightarrow> dict_t option \<Rightarrow> (string \<Rightarrow> data_t \<Rightarrow> bool) option \<Rightarrow>
   (string \<Rightarrow> bool) option \<Rightarrow> bool" where
  "are_dicts_equal same one two match value_ignore =
     (if same then True
      else let match = (case match of None \<Rightarrow> dict_match_everything | Some m \<Rightarrow> m) in
      case two of
        None \<Rightarrow> fst (dict_foreach_match one match dict_null_foreach_fn ()) = 0
      | Some b \<Rightarrow>
          let num_matches1 = fst (dict_foreach_match one match (key_value_cmp two value_ignore) ()) in
          if num_matches1 = -1 then False
          else if num_matches1 = (case one of Some a \<Rightarrow> dict_count a | None \<Rightarrow> 0) \<and>
                  (case one of Some a \<Rightarrow> dict_count a | None \<Rightarrow> 0) = dict_count b then True
          else num_matches1 = fst (dict_foreach_match two match dict_null_foreach_fn ()))"

text \<open>\<open>dict_keys_join\<close>: the length all selected keys take with their NULs, and what
  is packed into a buffer of \<open>size\<close> bytes (\<open>strncpy\<close> pads the rest with NULs).\<close>

definition strncpy_at :: "byte list \<Rightarrow> nat \<Rightarrow> string \<Rightarrow> byte list" where
  "strncpy_at value off key =
     take off value @ take (length value - off) (bytes_of key @ replicate (length value) 0)"

definition dict_keys_join :: "byte list option \<Rightarrow> dict_t \<Rightarrow> (string \<Rightarrow> bool) option \<Rightarrow> nat \<times> byte list option" where
  "dict_keys_join value dict filter_fn =
     fold (\<lambda>(k, v) (len, buf).
        if (case filter_fn of Some f \<Rightarrow> f k | None \<Rightarrow> False) then (len, buf)
        else (len + length k + 1,
              case buf of
                Some b \<Rightarrow> if length b > len then Some (strncpy_at b len k) else Some b
              | None \<Rightarrow> None))
       (dict_alist dict) (0, value)"

subsection \<open>Representation invariant\<close>

definition dict_ok :: "dict_t \<Rightarrow> bool" where
  "dict_ok d \<longleftrightarrow> hash_size d = 1 \<and> members d 0 = members_list d \<and> distinct (members_list d) \<and>
     dict_count d = int (length (members_list d)) \<and>
     (free_pair_in_use d \<longleftrightarrow> free_pair \<in> set (members_list d))"

definition alist_set :: "string \<Rightarrow> data_t \<Rightarrow> (string \<times> data_t) list \<Rightarrow> (string \<times> data_t) list" where
  "alist_set k v xs = (if k \<in> fst ` set xs then AList.update k v xs else (k, v) # xs)"

fun alist_del :: "string \<Rightarrow> (string \<times> data_t) list \<Rightarrow> (string \<times> data_t) list" where
  "alist_del k [] = []"
| "alist_del k (x # xs) = (if fst x = k then xs else x # alist_del k xs)"

definition dict_keys :: "dict_t \<Rightarrow> string list" where
  "dict_keys d = map fst (dict_alist d)"

text \<open>No key occurs twice: what \<open>dict_set\<close> keeps and \<open>dict_add\<close> may break.\<close>

definition dict_functional :: "dict_t \<Rightarrow> bool" where
  "dict_functional d \<longleftrightarrow> dict_ok d \<and> distinct (dict_keys d)"

definition dict_map :: "dict_t \<Rightarrow> string \<rightharpoonup> data_t" where
  "dict_map d = map_of (dict_alist d)"

lemma fold_max_ge: "y \<le> fold max xs (y::nat)"
proof (induction xs arbitrary: y)
  case (Cons x xs)
  from Cons.IH [of "max x y"] show ?case by simp
qed simp

lemma fold_max_mem: "x \<in> set xs \<Longrightarrow> x \<le> fold max xs (y::nat)"
proof (induction xs arbitrary: y)
  case (Cons z xs)
  from Cons.prems Cons.IH [of "max z y"] fold_max_ge [of "max z y" xs] show ?case by auto
qed simp

lemma fresh_pair_notin: "fresh_pair d \<notin> set (members_list d)"
  using fold_max_mem [of "fresh_pair d" "members_list d" 0] by (auto simp: fresh_pair_def)

lemma hashval_one: "dict_ok d \<Longrightarrow> lookup_hashval d k = 0 \<and> set_hashval d k = 0"
  by (simp add: dict_ok_def lookup_hashval_def set_hashval_def)

lemma u_dict_lookup_ok:
  "dict_ok d \<Longrightarrow> u_dict_lookup d k = List.find (\<lambda>p. pair_key (pairs d p) = k) (members_list d)"
  by (simp add: u_dict_lookup_def hashval_one) (simp add: dict_ok_def)

lemma find_pair_map_of:
  "map_of (map (\<lambda>p. (f p, g p)) ps) k = map_option g (List.find (\<lambda>p. f p = k) ps)"
  by (induction ps) auto

lemma find_pair_None: "List.find (\<lambda>p. f p = k) ps = None \<longleftrightarrow> k \<notin> f ` set ps"
  by (auto simp: find_None_iff)

lemma find_pair_update:
  "List.find (\<lambda>p. pair_key (m p) = k) ps = Some p \<Longrightarrow> distinct ps \<Longrightarrow>
   map (\<lambda>q. (pair_key ((m(p := (m p)\<lparr>pair_value := v\<rparr>)) q), pair_value ((m(p := (m p)\<lparr>pair_value := v\<rparr>)) q))) ps =
   AList.update k v (map (\<lambda>q. (pair_key (m q), pair_value (m q))) ps)"
proof (induction ps)
  case (Cons q ps)
  show ?case
  proof (cases "pair_key (m q) = k")
    case True
    with Cons.prems have "p = q" "p \<notin> set ps" by auto
    with True show ?thesis by simp
  next
    case False
    with Cons.prems have "q \<noteq> p" by (auto simp: find_Some_iff)
    with False Cons show ?thesis by simp
  qed
qed simp

lemma find_pair_del:
  "List.find (\<lambda>p. f p = k) ps = Some p \<Longrightarrow>
   map (\<lambda>q. (f q, g q)) (remove1 p ps) = alist_del k (map (\<lambda>q. (f q, g q)) ps)"
  by (induction ps) (auto simp: find_Some_iff split: if_splits)

lemma dict_map_lookup:
  "dict_ok d \<Longrightarrow> dict_map d k = map_option (\<lambda>p. pair_value (pairs d p)) (u_dict_lookup d k)"
  by (simp add: dict_map_def dict_alist_def find_pair_map_of u_dict_lookup_ok)

lemma dict_ok_new [simp]: "dict_ok dict_new" "dict_ok get_new_dict"
  by (simp_all add: dict_ok_def dict_new_def dict_ref_def get_new_dict_def get_new_dict_full_def)

lemma dict_alist_new [simp]: "dict_alist dict_new = []"
  by (simp add: dict_alist_def dict_new_def dict_ref_def get_new_dict_full_def)

lemma dict_ok_set:
  assumes "dict_ok d"
  shows "dict_ok (u_dict_set d k v r)"
proof -
  have "fresh_pair d \<noteq> 0" by (simp add: fresh_pair_def)
  with assms fresh_pair_notin [of d] show ?thesis
    by (auto simp: u_dict_set_def dict_ok_def Let_def set_hashval_def split: option.splits)
qed

lemma alist_insert_new:
  assumes "dict_ok d" "p = (if free_pair_in_use d then fresh_pair d else free_pair)"
  shows "map (\<lambda>q. (pair_key (((pairs d)(p := x)) q), pair_value (((pairs d)(p := x)) q))) (members_list d) = dict_alist d"
proof -
  have "p \<notin> set (members_list d)"
    using assms fresh_pair_notin [of d] by (auto simp: dict_ok_def)
  then show ?thesis by (auto simp: dict_alist_def)
qed

lemma dict_alist_set:
  assumes ok: "dict_ok d"
  shows "dict_alist (u_dict_set d k v True) = alist_set k v (dict_alist d)"
proof (cases "u_dict_lookup d k")
  case None
  then have "k \<notin> fst ` set (dict_alist d)"
    using ok by (auto simp: u_dict_lookup_ok find_None_iff dict_alist_def image_image)
  moreover have "dict_alist (u_dict_set d k v True) = (k, v) # dict_alist d"
    using None alist_insert_new [OF ok refl, of "\<lparr>pair_key = k, pair_value = v\<rparr>"]
    by (simp add: u_dict_set_def Let_def dict_alist_def)
  ultimately show ?thesis by (simp add: alist_set_def)
next
  case (Some p)
  then have f: "List.find (\<lambda>p. pair_key (pairs d p) = k) (members_list d) = Some p"
    using ok by (simp add: u_dict_lookup_ok)
  then have "k \<in> fst ` set (dict_alist d)"
    by (force simp: find_Some_iff dict_alist_def in_set_conv_nth)
  moreover have "dict_alist (u_dict_set d k v True) = AList.update k v (dict_alist d)"
    using Some find_pair_update [OF f, of v] ok
    by (simp add: u_dict_set_def Let_def dict_alist_def dict_ok_def)
  ultimately show ?thesis by (simp add: alist_set_def)
qed

lemma dict_alist_add:
  "dict_ok d \<Longrightarrow> dict_alist (u_dict_set d k v False) = (k, v) # dict_alist d"
  using alist_insert_new [of d, OF _ refl, of "\<lparr>pair_key = k, pair_value = v\<rparr>"]
  by (simp add: u_dict_set_def Let_def dict_alist_def)

lemma dict_ok_del:
  assumes ok: "dict_ok d"
  shows "dict_ok (u_dict_del d k)"
proof (cases "List.find (\<lambda>p. pair_key (pairs d p) = k) (members_list d)")
  case None
  with ok show ?thesis by (simp add: u_dict_del_def hashval_one Let_def dict_ok_def)
next
  case (Some p)
  then have "p \<in> set (members_list d)" by (force simp: find_Some_iff)
  then have "int (length (members_list d) - 1) = int (length (members_list d)) - 1"
    by (cases "members_list d") auto
  with ok Some \<open>p \<in> set (members_list d)\<close> show ?thesis
    by (auto simp: u_dict_del_def hashval_one Let_def) (auto simp: dict_ok_def length_remove1)
qed

lemma dict_alist_del:
  assumes ok: "dict_ok d"
  shows "dict_alist (u_dict_del d k) = alist_del k (dict_alist d)"
proof (cases "List.find (\<lambda>p. pair_key (pairs d p) = k) (members_list d)")
  case None
  have "alist_del k xs = xs" if "k \<notin> fst ` set xs" for xs using that by (induction xs) auto
  moreover have "k \<notin> fst ` set (dict_alist d)"
    using None by (auto simp: find_None_iff dict_alist_def image_image)
  ultimately show ?thesis using None ok
    by (simp add: u_dict_del_def hashval_one Let_def) (simp add: dict_ok_def)
next
  case (Some p)
  then show ?thesis using ok find_pair_del [OF Some, of "\<lambda>q. pair_value (pairs d q)"]
    by (simp add: u_dict_del_def hashval_one Let_def) (simp add: dict_ok_def dict_alist_def)
qed
subsection \<open>The contract of a dictionary\<close>

locale kv_store =
  fixes inv :: "'d \<Rightarrow> bool"
    and empty :: 'd
    and lookup :: "'d \<Rightarrow> 'k \<Rightarrow> 'v option"
    and update :: "'d \<Rightarrow> 'k \<Rightarrow> 'v \<Rightarrow> 'd"
    and delete :: "'d \<Rightarrow> 'k \<Rightarrow> 'd"
  assumes inv_empty: "inv empty"
    and lookup_empty: "lookup empty k = None"
    and inv_update: "inv d \<Longrightarrow> inv (update d k v)"
    and lookup_update: "inv d \<Longrightarrow> lookup (update d k v) j = (if j = k then Some v else lookup d j)"
    and inv_delete: "inv d \<Longrightarrow> inv (delete d k)"
    and lookup_delete: "inv d \<Longrightarrow> lookup (delete d k) j = (if j = k then None else lookup d j)"
begin

lemma inv_update_all: "inv d \<Longrightarrow> inv (fold (\<lambda>(k, v) d. update d k v) ps d)"
  by (induction ps arbitrary: d) (auto simp: inv_update)

lemma lookup_update_all:
  "inv d \<Longrightarrow> lookup (fold (\<lambda>(k, v) d. update d k v) ps d) = lookup d ++ map_of (rev ps)"
proof (induction ps arbitrary: d)
  case (Cons p ps)
  obtain k v where p: "p = (k, v)" by (cases p)
  with Cons show ?case
    by (auto simp: fun_eq_iff map_add_def inv_update lookup_update split: option.splits)
qed simp

lemma inv_delete_all: "inv d \<Longrightarrow> inv (fold (\<lambda>k d. delete d k) ks d)"
  by (induction ks arbitrary: d) (auto simp: inv_delete)

lemma lookup_delete_all:
  "inv d \<Longrightarrow> lookup (fold (\<lambda>k d. delete d k) ks d) j = (if j \<in> set ks then None else lookup d j)"
  by (induction ks arbitrary: d) (auto simp: inv_delete lookup_delete)

end

lemma map_of_alist_set: "map_of (alist_set k v xs) = (map_of xs)(k \<mapsto> v)"
  by (auto simp: alist_set_def update_conv')

lemma keys_alist_set:
  "distinct (map fst xs) \<Longrightarrow> distinct (map fst (alist_set k v xs))"
  by (auto simp: alist_set_def distinct_update)

lemma set_alist_del: "set (alist_del k xs) \<subseteq> set xs"
  by (induction xs) auto

lemma keys_alist_del: "distinct (map fst xs) \<Longrightarrow> distinct (map fst (alist_del k xs))"
  by (induction xs) (use set_alist_del in fastforce)+

lemma map_of_alist_del:
  "distinct (map fst xs) \<Longrightarrow> map_of (alist_del k xs) = (map_of xs)(k := None)"
proof (induction xs)
  case (Cons x xs)
  show ?case
  proof (cases "fst x = k")
    case True
    with Cons.prems have "map_of xs k = None" by (auto simp: map_of_eq_None_iff)
    with True show ?thesis by (cases x) (auto simp: fun_upd_idem)
  next
    case False
    with Cons show ?thesis by (cases x) (auto simp: fun_upd_twist)
  qed
qed simp

lemma dict_get_map: "dict_ok d \<Longrightarrow> dict_get (Some d) (Some k) = dict_map d k"
  by (simp add: dict_get_def dict_map_lookup split: option.splits)

lemma dict_get_with_ref_map:
  "dict_ok d \<Longrightarrow> dict_get_with_ref (Some d) (Some k) =
     (case dict_map d k of Some v \<Rightarrow> (0, Some v) | None \<Rightarrow> (- ENOENT, None))"
  by (simp add: dict_get_with_ref_def dict_map_lookup split: option.splits)

lemma dict_map_set: "dict_ok d \<Longrightarrow> dict_map (u_dict_set d k v True) = (dict_map d)(k \<mapsto> v)"
  by (simp add: dict_map_def dict_alist_set map_of_alist_set)

lemma dict_map_add: "dict_ok d \<Longrightarrow> dict_map (u_dict_set d k v False) = (dict_map d)(k \<mapsto> v)"
  by (simp add: dict_map_def dict_alist_add)

lemma dict_functional_set: "dict_functional d \<Longrightarrow> dict_functional (u_dict_set d k v True)"
  by (simp add: dict_functional_def dict_keys_def dict_ok_set dict_alist_set keys_alist_set)

lemma dict_functional_del: "dict_functional d \<Longrightarrow> dict_functional (u_dict_del d k)"
  by (simp add: dict_functional_def dict_keys_def dict_ok_del dict_alist_del keys_alist_del)

lemma dict_map_del:
  "dict_functional d \<Longrightarrow> dict_map (u_dict_del d k) = (dict_map d)(k := None)"
  by (simp add: dict_functional_def dict_keys_def dict_map_def dict_alist_del map_of_alist_del)

lemma dict_functional_new [simp]: "dict_functional dict_new"
  by (simp add: dict_functional_def dict_keys_def)

lemma dict_map_new [simp]: "dict_map dict_new = Map.empty"
  by (simp add: dict_map_def)

lemma dict_functional_ok: "dict_functional d \<Longrightarrow> dict_ok d"
  by (simp add: dict_functional_def)

interpretation dkv: kv_store dict_functional dict_new "\<lambda>d k. dict_get (Some d) (Some k)"
  "\<lambda>d k v. u_dict_set d k v True" u_dict_del
  by unfold_locales
    (simp_all add: dict_functional_set dict_functional_del dict_get_map dict_functional_ok
      dict_map_set dict_map_del)

subsection \<open>Walks over a dictionary\<close>

lemma foreach_loop_total:
  assumes "\<And>k v s. 0 \<le> fst (action k v s)"
  shows "foreach_loop match action ps c s =
    (c + int (length (filter (\<lambda>(k, v). match k v) ps)),
     fold (\<lambda>(k, v) s. snd (action k v s)) (filter (\<lambda>(k, v). match k v) ps) s)"
  using assms
  by (induction ps arbitrary: c s) (auto split: prod.splits simp: not_less[symmetric] dest: leD, (metis fst_conv leD)+)

lemma dict_reset_alist:
  "dict_ok d \<Longrightarrow> \<exists>d'. dict_reset (Some d) = (0, Some d') \<and> dict_ok d' \<and> dict_alist d' = []"
proof -
  assume ok: "dict_ok d"
  have "dict_ok (fold (\<lambda>(k, v) d. u_dict_del d k) ps d) \<and> dict_alist (fold (\<lambda>(k, v) d. u_dict_del d k) ps d) = []"
    if "dict_ok d" "dict_alist d = ps" for ps d
    using that
  proof (induction ps arbitrary: d)
    case (Cons p ps)
    have "dict_alist (u_dict_del d (fst p)) = ps"
      using Cons.prems by (simp add: dict_alist_del)
    with Cons.IH [of "u_dict_del d (fst p)"] Cons.prems show ?case
      by (simp add: dict_ok_del case_prod_beta)
  qed simp
  from this [OF ok refl] show ?thesis
    by (simp add: dict_reset_def dict_foreach_def dict_foreach_match_def foreach_loop_total
        dict_remove_foreach_fn_def dict_match_everything_def case_prod_beta)
qed

lemma dict_copy_fold:
  "snd (dict_foreach (Some d) copy_fn (Some n)) = Some (fold (\<lambda>(k, v) n. u_dict_set n k v True) (dict_alist d) n)"
proof -
  have "snd (foreach_loop dict_match_everything copy_fn ps c (Some n)) =
      Some (fold (\<lambda>(k, v) n. u_dict_set n k v True) ps n)" for ps c
    by (induction ps arbitrary: c n) (auto simp: dict_match_everything_def copy_fn_def dict_set_def)
  then show ?thesis by (simp add: dict_foreach_def dict_foreach_match_def case_prod_beta)
qed
text \<open>C20. \<open>dict_copy\<close> into an existing dictionary is the union of the two maps in
  which the copied dictionary wins.\<close>

theorem dict_copy_union:
  assumes d: "dict_functional d" and n: "dict_functional n"
  shows "\<exists>n'. dict_copy (Some d) (Some n) = Some n' \<and> dict_functional n' \<and> dict_map n' = dict_map n ++ dict_map d"
proof -
  let ?n = "fold (\<lambda>(k, v) n. u_dict_set n k v True) (dict_alist d) n"
  have f: "dict_functional ?n" by (rule dkv.inv_update_all [OF n])
  have "distinct (map fst (dict_alist d))" using d by (simp add: dict_functional_def dict_keys_def)
  then have "map_of (rev (dict_alist d)) = dict_map d" by (simp add: dict_map_def map_of_inject_set rev_map [symmetric])
  then have "dict_map ?n = dict_map n ++ dict_map d"
    using dkv.lookup_update_all [OF n, of "dict_alist d"] f n by (simp add: dict_get_map dict_functional_ok)
  with f show ?thesis by (simp add: dict_copy_def dict_copy_fold)
qed

definition data_ok :: "data_t \<Rightarrow> bool" where
  "data_ok v \<longleftrightarrow> (case data_data v of Some b \<Rightarrow> data_len v = int (length b) | None \<Rightarrow> False)"

definition data_bytes :: "data_t \<Rightarrow> byte list" where
  "data_bytes v = (case data_data v of Some b \<Rightarrow> b | None \<Rightarrow> [])"

definition dict_data_ok :: "dict_t \<Rightarrow> bool" where
  "dict_data_ok d \<longleftrightarrow> list_all (\<lambda>(k, v). data_ok v) (dict_alist d)"

lemma is_data_equal_bytes:
  "data_ok a \<Longrightarrow> data_ok b \<Longrightarrow> is_data_equal (Some a) (Some b) = 1 \<longleftrightarrow> data_bytes a = data_bytes b"
  by (auto simp: is_data_equal_def data_ok_def data_bytes_def split: option.splits)

lemma key_value_cmp_loop:
  "0 \<le> c \<Longrightarrow>
   fst (foreach_loop dict_match_everything (key_value_cmp two None) ps c ()) =
   (if list_all (\<lambda>(k, v). \<exists>w. dict_get two (Some k) = Some w \<and> is_data_equal (Some v) (Some w) = 1) ps
    then c + int (length ps) else -1)"
  by (induction ps arbitrary: c)
    (auto simp: dict_match_everything_def key_value_cmp_def split: option.splits)

lemma map_of_distinct_card:
  assumes "distinct (map fst xs)" "distinct (map fst ys)" "length xs = length ys"
    and sub: "\<And>k v. (k, v) \<in> set xs \<Longrightarrow> \<exists>w. map_of ys k = Some w \<and> f v = f w"
  shows "map_option f \<circ> map_of xs = map_option f \<circ> map_of ys"
proof
  fix k
  have "fst ` set xs \<subseteq> fst ` set ys"
    using sub by (force dest: map_of_SomeD)
  moreover have "card (fst ` set xs) = card (fst ` set ys)"
    using assms(1-3) by (metis distinct_card length_map list.set_map)
  ultimately have dom: "fst ` set xs = fst ` set ys" by (simp add: card_subset_eq)
  show "(map_option f \<circ> map_of xs) k = (map_option f \<circ> map_of ys) k"
  proof (cases "map_of xs k")
    case None
    with dom have "map_of ys k = None" by (simp add: map_of_eq_None_iff)
    with None show ?thesis by simp
  next
    case (Some v)
    with sub [OF map_of_SomeD [OF Some]] show ?thesis by auto
  qed
qed

lemma dict_count_alist: "dict_ok d \<Longrightarrow> dict_count d = int (length (dict_alist d))"
  by (simp add: dict_ok_def dict_alist_def)

lemma dict_map_mem: "dict_functional d \<Longrightarrow> dict_map d k = Some v \<longleftrightarrow> (k, v) \<in> set (dict_alist d)"
  by (simp add: dict_map_def dict_functional_def dict_keys_def map_of_eq_Some_iff)

text \<open>C19. \<open>are_dicts_equal\<close> with no filter decides equality of the two dictionaries
  as maps from keys to byte strings.\<close>

theorem are_dicts_equal_iff:
  assumes a: "dict_functional a" "dict_data_ok a" and b: "dict_functional b" "dict_data_ok b"
  shows "are_dicts_equal False (Some a) (Some b) None None \<longleftrightarrow>
    map_option data_bytes \<circ> dict_map a = map_option data_bytes \<circ> dict_map b"
proof -
  let ?ok = "list_all (\<lambda>(k, v). \<exists>w. dict_get (Some b) (Some k) = Some w \<and> is_data_equal (Some v) (Some w) = 1) (dict_alist a)"
  let ?na = "length (dict_alist a)" and ?nb = "length (dict_alist b)"
  have cnt: "fst (dict_foreach_match (Some b) dict_match_everything dict_null_foreach_fn ()) = int ?nb"
    by (simp add: dict_foreach_match_def dict_match_everything_def foreach_loop_total dict_null_foreach_fn_def)
  have eq: "are_dicts_equal False (Some a) (Some b) None None \<longleftrightarrow> ?ok \<and> ?na = ?nb"
    using a b cnt key_value_cmp_loop [of 0 "Some b" "dict_alist a"]
    by (auto simp: are_dicts_equal_def dict_foreach_match_def Let_def dict_count_alist dict_functional_ok)
  have ok: "?ok \<longleftrightarrow> (\<forall>(k, v) \<in> set (dict_alist a). \<exists>w. dict_map b k = Some w \<and> data_bytes v = data_bytes w)"
  proof -
    have "is_data_equal (Some v) (Some w) = 1 \<longleftrightarrow> data_bytes v = data_bytes w"
      if "(k, v) \<in> set (dict_alist a)" "dict_map b k = Some w" for k v w
      using that a b by (auto intro!: is_data_equal_bytes simp: dict_data_ok_def list_all_iff dict_map_mem)
    then show ?thesis using b by (fastforce simp: list_all_iff dict_get_map dict_functional_ok)
  qed
  show ?thesis
  proof
    assume "are_dicts_equal False (Some a) (Some b) None None"
    with eq ok have "\<And>k v. (k, v) \<in> set (dict_alist a) \<Longrightarrow> \<exists>w. dict_map b k = Some w \<and> data_bytes v = data_bytes w"
      "?na = ?nb" by auto
    with a b show "map_option data_bytes \<circ> dict_map a = map_option data_bytes \<circ> dict_map b"
      unfolding dict_map_def by (intro map_of_distinct_card) (auto simp: dict_functional_def dict_keys_def)
  next
    assume r: "map_option data_bytes \<circ> dict_map a = map_option data_bytes \<circ> dict_map b"
    then have r': "map_option data_bytes (dict_map a k) = map_option data_bytes (dict_map b k)" for k
      by (metis comp_apply)
    have "dom (dict_map a) = dom (dict_map b)" using r' by (auto simp: dom_def) (metis option.map_disc_iff not_None_eq)+
    then have "fst ` set (dict_alist a) = fst ` set (dict_alist b)"
      by (simp add: dict_map_def dom_map_of_conv_image_fst)
    then have "?na = ?nb"
      using a b by (metis dict_functional_def dict_keys_def distinct_card length_map list.set_map)
    moreover have "\<exists>w. dict_map b k = Some w \<and> data_bytes v = data_bytes w" if "(k, v) \<in> set (dict_alist a)" for k v
      using r' [of k] that a by (cases "dict_map b k") (auto simp: dict_map_mem [symmetric])
    ultimately show "are_dicts_equal False (Some a) (Some b) None None" using eq ok by auto
  qed
qed

definition one_key_dict :: "string \<Rightarrow> data_t \<Rightarrow> dict_t" where
  "one_key_dict k v = u_dict_set dict_new k v True"

definition sample_data :: data_t where
  "sample_data = get_new_data\<lparr>data_len := 1, data_data := Some [7]\<rparr>"

lemma one_key_dict_ok: "dict_functional (one_key_dict k v)" "dict_map (one_key_dict k v) = [k \<mapsto> v]"
  "dict_alist (one_key_dict k v) = [(k, v)]"
  by (simp_all add: one_key_dict_def dict_functional_set dict_map_set dict_alist_set alist_set_def)

theorem are_dicts_equal_iff_witness:
  "\<not> are_dicts_equal False (Some (one_key_dict ''a'' sample_data)) (Some dict_new) None None"
  using are_dicts_equal_iff [of "one_key_dict ''a'' sample_data" dict_new]
  by (simp add: one_key_dict_ok dict_data_ok_def data_ok_def sample_data_def fun_eq_iff)

theorem dict_copy_union_witness:
  "\<exists>n'. dict_copy (Some (one_key_dict ''a'' sample_data)) (Some (one_key_dict ''a'' get_new_data)) = Some n' \<and>
    dict_functional n' \<and> dict_map n' = [''a'' \<mapsto> get_new_data, ''a'' \<mapsto> sample_data]"
  using dict_copy_union [of "one_key_dict ''a'' sample_data" "one_key_dict ''a'' get_new_data"]
  by (simp add: one_key_dict_ok)

subsection \<open>The map refinement\<close>

text \<open>C8. The hash table implements a finite map: on a dictionary without duplicate
  keys \<open>dict_set\<close> succeeds and updates exactly its key, \<open>dict_del\<close> removes exactly
  its key, both keep the representation invariant, and \<open>dict_get\<close> reads the map.\<close>

theorem dict_implements_map:
  assumes "dict_functional d"
  shows "(\<exists>s. dict_set (Some d) k (Some v) = (0, Some s) \<and> dict_functional s \<and>
       dict_map s = (dict_map d)(k \<mapsto> v)) \<and>
    (\<exists>r. dict_del (Some d) (Some k) = Some r \<and> dict_functional r \<and>
       dict_map r = (dict_map d)(k := None)) \<and>
    dict_get (Some d) (Some j) = dict_map d j"
  using assms
  by (simp add: dict_set_def dict_del_def dict_functional_set dict_functional_del dict_functional_ok
      dict_map_set dict_map_del dict_get_map)

theorem dict_implements_map_witness:
  "(\<exists>s. dict_set (Some (one_key_dict ''a'' sample_data)) ''b'' (Some get_new_data) = (0, Some s) \<and>
       dict_functional s \<and> dict_map s = [''a'' \<mapsto> sample_data, ''b'' \<mapsto> get_new_data]) \<and>
    dict_get (Some (one_key_dict ''a'' sample_data)) (Some ''a'') = Some sample_data"
  using dict_implements_map [of "one_key_dict ''a'' sample_data" "''b''" get_new_data "''a''"]
  by (simp add: one_key_dict_ok)

text \<open>\<open>dict_reset\<close> leaves no pair behind, also when \<open>dict_add\<close> has put a key in
  twice.\<close>

theorem dict_reset_empties:
  assumes "dict_ok d"
  shows "\<exists>d'. dict_reset (Some d) = (0, Some d') \<and> dict_ok d' \<and> dict_alist d' = [] \<and>
    dict_count d' = 0"
  using dict_reset_alist [OF assms] dict_count_alist by fastforce

theorem dict_reset_empties_witness:
  "\<exists>d'. dict_reset (Some (u_dict_set (one_key_dict ''a'' sample_data) ''a'' get_new_data False)) = (0, Some d') \<and>
    dict_ok d' \<and> dict_alist d' = [] \<and> dict_count d' = 0"
  by (rule dict_reset_empties) (simp add: dict_ok_set one_key_dict_ok dict_functional_ok)

end
