(* ===== verification/Dict_Codec.thy ===== *)
theory Dict_Codec
  imports Dict
begin

text \<open>
  Typed access to a dictionary and its wire format (second half of
  \<open>libglusterfs/src/dict.c\<close>).  Integers are stored as decimal text with their NUL
  and read back with the \<open>strtol\<close> family in base 0; a serialized dictionary is
  the count, then per pair the two lengths, the key with its NUL and the bytes
  of the value, all words in network order.

  Integers are \<open>int\<close>; a store into a narrower C type is written out as
  \<open>signed_take_bit\<close> or \<open>take_bit\<close>.  \<open>long\<close> has 64 bits.
\<close>

subsection \<open>Decimal text\<close>

abbreviation (input) ERANGE :: int where "ERANGE \<equiv> 34"

definition digit_char :: "nat \<Rightarrow> char" where
  "digit_char n = char_of (48 + n)"

fun dec_str :: "nat \<Rightarrow> string" where
  "dec_str n = (if n < 10 then [digit_char n] else dec_str (n div 10) @ [digit_char (n mod 10)])"

declare dec_str.simps [simp del]

text \<open>\<open>printf\<close> with \<open>%d\<close> or \<open>%u\<close> of any width.\<close>

definition fmt_d :: "int \<Rightarrow> string" where
  "fmt_d i = (if i < 0 then CHR ''-'' # dec_str (nat (- i)) else dec_str (nat i))"

definition c_isspace :: "char \<Rightarrow> bool" where
  "c_isspace c \<longleftrightarrow> c = CHR '' '' \<or> (9 \<le> (of_char c :: nat) \<and> (of_char c :: nat) \<le> 13)"

definition digit_val :: "nat \<Rightarrow> char \<Rightarrow> nat option" where
  "digit_val base c =
     (let n = (of_char c :: nat);
          d = (if 48 \<le> n \<and> n \<le> 57 then n - 48
               else if 97 \<le> n \<and> n \<le> 102 then n - 87
               else if 65 \<le> n \<and> n \<le> 70 then n - 55 else base)
      in if d < base then Some d else None)"

fun strto_digits :: "nat \<Rightarrow> string \<Rightarrow> nat \<Rightarrow> nat" where
  "strto_digits base [] acc = acc"
| "strto_digits base (c # cs) acc =
     (case digit_val base c of Some d \<Rightarrow> strto_digits base cs (acc * base + d) | None \<Rightarrow> acc)"

text \<open>Magnitude of an unsigned number in base 0: \<open>0x\<close> hexadecimal, \<open>0\<close> octal.\<close>

definition strto_mag :: "string \<Rightarrow> nat" where
  "strto_mag s = (case s of
     c0 # c1 # c2 # cs \<Rightarrow>
       if c0 = CHR ''0'' \<and> (c1 = CHR ''x'' \<or> c1 = CHR ''X'') \<and> digit_val 16 c2 \<noteq> None
       then strto_digits 16 (c2 # cs) 0
       else strto_digits (if c0 = CHR ''0'' then 8 else 10) s 0
   | c0 # cs \<Rightarrow> strto_digits (if c0 = CHR ''0'' then 8 else 10) s 0
   | [] \<Rightarrow> 0)"

definition strto :: "string \<Rightarrow> bool \<times> nat" where
  "strto s = (case dropWhile c_isspace s of
     [] \<Rightarrow> (False, 0)
   | c # cs \<Rightarrow>
       if c = CHR ''-'' then (True, strto_mag cs)
       else if c = CHR ''+'' then (False, strto_mag cs)
       else (False, strto_mag (c # cs)))"

text \<open>Both return the value and \<open>errno\<close>; out of range they saturate.\<close>

definition strtoll :: "string \<Rightarrow> int \<times> int" where
  "strtoll s = (case strto s of (neg, m) \<Rightarrow>
     let v = (if neg then - int m else int m) in
     if v > 2 ^ 63 - 1 then (2 ^ 63 - 1, ERANGE)
     else if v < - (2 ^ 63) then (- (2 ^ 63), ERANGE) else (v, 0))"

definition strtoull :: "string \<Rightarrow> int \<times> int" where
  "strtoull s = (case strto s of (neg, m) \<Rightarrow>
     if int m > 2 ^ 64 - 1 then (2 ^ 64 - 1, ERANGE)
     else (take_bit 64 (if neg then - int m else int m), 0))"

abbreviation strtol :: "string \<Rightarrow> int \<times> int" where "strtol \<equiv> strtoll"
abbreviation strtoul :: "string \<Rightarrow> int \<times> int" where "strtoul \<equiv> strtoull"

subsection \<open>Making values\<close>

definition text_data :: "string \<Rightarrow> data_t" where
  "text_data s = get_new_data\<lparr>data_len := int (length s) + 1, data_data := Some (cstr s)\<rparr>"

definition int_to_data :: "int \<Rightarrow> data_t" where
  "int_to_data value = text_data (fmt_d value)"

definition data_from_int64 :: "int \<Rightarrow> data_t" where
  "data_from_int64 value = text_data (fmt_d value)"

definition data_from_int32 :: "int \<Rightarrow> data_t" where
  "data_from_int32 value = text_data (fmt_d value)"

definition data_from_int16 :: "int \<Rightarrow> data_t" where
  "data_from_int16 value = text_data (fmt_d value)"

definition data_from_int8 :: "int \<Rightarrow> data_t" where
  "data_from_int8 value = text_data (fmt_d value)"

definition data_from_uint64 :: "int \<Rightarrow> data_t" where
  "data_from_uint64 value = text_data (fmt_d value)"

definition data_from_uint32 :: "int \<Rightarrow> data_t" where
  "data_from_uint32 value = text_data (fmt_d value)"

definition data_from_uint16 :: "int \<Rightarrow> data_t" where
  "data_from_uint16 value = text_data (fmt_d value)"

text \<open>A pointer argument is the buffer it points to; the string makers take a
  buffer that holds a NUL.\<close>

definition data_from_ptr :: "byte list option \<Rightarrow> data_t option" where
  "data_from_ptr value = (case value of
     None \<Rightarrow> None | Some b \<Rightarrow> Some (get_new_data\<lparr>data_data := Some b\<rparr>))"

definition data_from_static_ptr :: "byte list option \<Rightarrow> data_t option" where
  "data_from_static_ptr value = Some (get_new_data\<lparr>is_static := True, data_data := value\<rparr>)"

definition str_to_data :: "string option \<Rightarrow> data_t option" where
  "str_to_data value = (case value of
     None \<Rightarrow> None | Some s \<Rightarrow> Some ((text_data s)\<lparr>is_static := True\<rparr>))"

definition data_from_dynstr :: "string option \<Rightarrow> data_t option" where
  "data_from_dynstr value = (case value of None \<Rightarrow> None | Some s \<Rightarrow> Some (text_data s))"

definition data_from_dynmstr :: "string option \<Rightarrow> data_t option" where
  "data_from_dynmstr value = (case value of
     None \<Rightarrow> None | Some s \<Rightarrow> Some ((text_data s)\<lparr>is_stdalloc := True\<rparr>))"

definition data_from_dynptr :: "byte list option \<Rightarrow> int \<Rightarrow> data_t option" where
  "data_from_dynptr value len = Some (get_new_data\<lparr>data_len := len, data_data := value\<rparr>)"

definition bin_to_data :: "byte list option \<Rightarrow> int \<Rightarrow> data_t option" where
  "bin_to_data value len = (case value of
     None \<Rightarrow> None
   | Some b \<Rightarrow> Some (get_new_data\<lparr>is_static := True, data_len := len, data_data := Some b\<rparr>))"

subsection \<open>Reading values\<close>

text \<open>The text the readers copy to the stack and terminate.\<close>

definition data_text :: "data_t \<Rightarrow> string" where
  "data_text d = str_at (take (nat (data_len d)) (data_bytes d) @ [0])"

definition data_to_int64 :: "data_t option \<Rightarrow> int" where
  "data_to_int64 data = (case data of
     None \<Rightarrow> -1 | Some d \<Rightarrow> signed_take_bit 63 (fst (strtoull (data_text d))))"

definition data_to_int32 :: "data_t option \<Rightarrow> int" where
  "data_to_int32 data = (case data of
     None \<Rightarrow> -1 | Some d \<Rightarrow> signed_take_bit 31 (fst (strtoul (data_text d))))"

definition data_to_uint64 :: "data_t option \<Rightarrow> int" where
  "data_to_uint64 data = (case data of
     None \<Rightarrow> take_bit 64 (-1) | Some d \<Rightarrow> take_bit 64 (fst (strtoll (data_text d))))"

definition data_to_uint32 :: "data_t option \<Rightarrow> int" where
  "data_to_uint32 data = (case data of
     None \<Rightarrow> take_bit 32 (-1) | Some d \<Rightarrow> take_bit 32 (fst (strtol (data_text d))))"

text \<open>The readers behind \<open>dict_get_*\<close>: return code, and the value stored through
  the pointer.\<close>

definition errno_ret :: "int \<times> int \<Rightarrow> int" where
  "errno_ret r = (if snd r \<noteq> 0 then - snd r else 0)"

definition u_data_to_int8 :: "data_t option \<Rightarrow> int \<times> int option" where
  "u_data_to_int8 data = (case data of None \<Rightarrow> (- EINVAL, None)
   | Some d \<Rightarrow> let r = strtol (data_text d) in (errno_ret r, Some (signed_take_bit 7 (fst r))))"

definition u_data_to_int16 :: "data_t option \<Rightarrow> int \<times> int option" where
  "u_data_to_int16 data = (case data of None \<Rightarrow> (- EINVAL, None)
   | Some d \<Rightarrow> let r = strtol (data_text d) in (errno_ret r, Some (signed_take_bit 15 (fst r))))"

definition u_data_to_int32 :: "data_t option \<Rightarrow> int \<times> int option" where
  "u_data_to_int32 data = (case data of None \<Rightarrow> (- EINVAL, None)
   | Some d \<Rightarrow> let r = strtol (data_text d) in (errno_ret r, Some (signed_take_bit 31 (fst r))))"

definition u_data_to_int64 :: "data_t option \<Rightarrow> int \<times> int option" where
  "u_data_to_int64 data = (case data of None \<Rightarrow> (- EINVAL, None)
   | Some d \<Rightarrow> let r = strtoll (data_text d) in (errno_ret r, Some (signed_take_bit 63 (fst r))))"

definition u_data_to_uint16 :: "data_t option \<Rightarrow> int \<times> int option" where
  "u_data_to_uint16 data = (case data of None \<Rightarrow> (- EINVAL, None)
   | Some d \<Rightarrow> let r = strtoul (data_text d) in (errno_ret r, Some (take_bit 16 (fst r))))"

definition u_data_to_uint32 :: "data_t option \<Rightarrow> int \<times> int option" where
  "u_data_to_uint32 data = (case data of None \<Rightarrow> (- EINVAL, None)
   | Some d \<Rightarrow> let r = strtoul (data_text d) in (errno_ret r, Some (take_bit 32 (fst r))))"

definition u_data_to_uint64 :: "data_t option \<Rightarrow> int \<times> int option" where
  "u_data_to_uint64 data = (case data of None \<Rightarrow> (- EINVAL, None)
   | Some d \<Rightarrow> let r = strtoull (data_text d) in (errno_ret r, Some (take_bit 64 (fst r))))"

definition u_data_to_ptr :: "data_t option \<Rightarrow> int \<times> byte list option" where
  "u_data_to_ptr data = (case data of None \<Rightarrow> (- EINVAL, None) | Some d \<Rightarrow> (0, data_data d))"

subsection \<open>Typed access\<close>

text \<open>The common body of the \<open>dict_get_<type>\<close> and \<open>dict_set_<type>\<close> families.\<close>

definition dict_get_via ::
  "(data_t option \<Rightarrow> int \<times> 'a option) \<Rightarrow> dict_t option \<Rightarrow> string option \<Rightarrow> int \<times> 'a option" where
  "dict_get_via conv this key =
     (if this = None \<or> key = None then (- EINVAL, None)
      else case dict_get_with_ref this key of (ret, data) \<Rightarrow>
             if ret \<noteq> 0 then (ret, None) else conv data)"

definition dict_set_via :: "data_t option \<Rightarrow> dict_t option \<Rightarrow> string \<Rightarrow> int \<times> dict_t option" where
  "dict_set_via data this key =
     (case data of None \<Rightarrow> (- EINVAL, this) | Some v \<Rightarrow> dict_set this key (Some v))"

definition dict_get_int8 where "dict_get_int8 = dict_get_via u_data_to_int8"
definition dict_get_int16 where "dict_get_int16 = dict_get_via u_data_to_int16"
definition dict_get_int32 where "dict_get_int32 = dict_get_via u_data_to_int32"
definition dict_get_int64 where "dict_get_int64 = dict_get_via u_data_to_int64"
definition dict_get_uint16 where "dict_get_uint16 = dict_get_via u_data_to_uint16"
definition dict_get_uint32 where "dict_get_uint32 = dict_get_via u_data_to_uint32"
definition dict_get_uint64 where "dict_get_uint64 = dict_get_via u_data_to_uint64"
definition dict_get_ptr where "dict_get_ptr = dict_get_via u_data_to_ptr"

definition dict_set_int8 where "dict_set_int8 this key val = dict_set_via (Some (data_from_int8 val)) this key"
definition dict_set_int16 where "dict_set_int16 this key val = dict_set_via (Some (data_from_int16 val)) this key"
definition dict_set_int32 where "dict_set_int32 this key val = dict_set_via (Some (data_from_int32 val)) this key"
definition dict_set_int64 where "dict_set_int64 this key val = dict_set_via (Some (data_from_int64 val)) this key"
definition dict_set_uint16 where "dict_set_uint16 this key val = dict_set_via (Some (data_from_uint16 val)) this key"
definition dict_set_uint32 where "dict_set_uint32 this key val = dict_set_via (Some (data_from_uint32 val)) this key"
definition dict_set_uint64 where "dict_set_uint64 this key val = dict_set_via (Some (data_from_uint64 val)) this key"
definition dict_set_str where "dict_set_str this key str = dict_set_via (str_to_data str) this key"
definition dict_set_dynstr where "dict_set_dynstr this key str = dict_set_via (data_from_dynstr str) this key"
definition dict_set_dynstr_with_alloc where
  "dict_set_dynstr_with_alloc this key str = (case str of
     None \<Rightarrow> (-1, this) | Some s \<Rightarrow> dict_set_dynstr this key (Some s))"
definition dict_set_dynmstr where "dict_set_dynmstr this key str = dict_set_via (data_from_dynmstr str) this key"
definition dict_set_ptr where "dict_set_ptr this key ptr = dict_set_via (data_from_ptr ptr) this key"
definition dict_set_static_ptr where
  "dict_set_static_ptr this key ptr = dict_set_via (data_from_static_ptr ptr) this key"
definition dict_set_dynptr where
  "dict_set_dynptr this key ptr len = dict_set_via (data_from_dynptr ptr len) this key"

definition dict_set_bin :: "dict_t option \<Rightarrow> string \<Rightarrow> byte list option \<Rightarrow> int \<Rightarrow> int \<times> dict_t option" where
  "dict_set_bin this key ptr sz = (case ptr of
     None \<Rightarrow> (- EINVAL, this)
   | Some b \<Rightarrow> dict_set_via (map_option (\<lambda>d. d\<lparr>data_data := ptr, data_len := sz, is_static := False\<rparr>)
                  (bin_to_data ptr sz)) this key)"

definition dict_set_static_bin :: "dict_t option \<Rightarrow> string \<Rightarrow> byte list option \<Rightarrow> int \<Rightarrow> int \<times> dict_t option" where
  "dict_set_static_bin this key ptr sz = (case ptr of
     None \<Rightarrow> (- EINVAL, this)
   | Some b \<Rightarrow> dict_set_via (map_option (\<lambda>d. d\<lparr>data_data := ptr, data_len := sz, is_static := True\<rparr>)
                  (bin_to_data ptr sz)) this key)"

definition dict_get_ptr_and_len ::
  "dict_t option \<Rightarrow> string option \<Rightarrow> int \<times> byte list option \<times> int option" where
  "dict_get_ptr_and_len this key =
     (if this = None \<or> key = None then (- EINVAL, None, None)
      else case dict_get_with_ref this key of (ret, data) \<Rightarrow>
             if ret \<noteq> 0 then (ret, None, None)
             else case u_data_to_ptr data of (ret, ptr) \<Rightarrow> (ret, ptr, map_option data_len data))"

text \<open>\<open>dict_get_str\<close> and \<open>dict_get_bin\<close> return 0 without storing the pointer when
  the value has no buffer.\<close>

definition dict_get_str :: "dict_t option \<Rightarrow> string option \<Rightarrow> int \<times> string option" where
  "dict_get_str this key =
     (if this = None \<or> key = None then (- EINVAL, None)
      else case dict_get_with_ref this key of (ret, data) \<Rightarrow>
             if ret < 0 then (ret, None)
             else (ret, Option.bind data (\<lambda>d. map_option str_at (data_data d))))"

definition dict_get_bin :: "dict_t option \<Rightarrow> string option \<Rightarrow> int \<times> byte list option" where
  "dict_get_bin this key =
     (if this = None \<or> key = None then (- EINVAL, None)
      else case dict_get_with_ref this key of (ret, data) \<Rightarrow>
             if ret < 0 then (ret, None) else (ret, Option.bind data data_data))"

definition to_lower :: "string \<Rightarrow> string" where
  "to_lower s = map (\<lambda>c. let n = (of_char c :: nat) in if 65 \<le> n \<and> n \<le> 90 then char_of (n + 32) else c) s"

definition gf_string2boolean :: "string option \<Rightarrow> int \<times> bool option" where
  "gf_string2boolean str = (case str of
     None \<Rightarrow> (-1, None)
   | Some s \<Rightarrow>
       if to_lower s \<in> {''1'', ''on'', ''yes'', ''true'', ''enable''} then (0, Some True)
       else if to_lower s \<in> {''0'', ''off'', ''no'', ''false'', ''disable''} then (0, Some False)
       else (-1, None))"

definition dict_get_str_boolean :: "dict_t option \<Rightarrow> string option \<Rightarrow> int \<Rightarrow> int" where
  "dict_get_str_boolean this key default_val =
     (case dict_get_with_ref this key of (ret, data) \<Rightarrow>
        if ret < 0 then (if ret = - ENOENT then default_val else -1)
        else case Option.bind data data_data of
               None \<Rightarrow> -1
             | Some b \<Rightarrow> (case gf_string2boolean (Some (str_at b)) of
                 (_, None) \<Rightarrow> -1 | (_, Some boo) \<Rightarrow> if boo then 1 else 0))"

subsection \<open>Decimal round trip\<close>

lemma of_char_digit: "d < 10 \<Longrightarrow> of_char (digit_char d) = (48 + d :: nat)"
  by (simp add: digit_char_def)

lemma digit_val_digit: "d < 10 \<Longrightarrow> digit_val 10 (digit_char d) = Some d"
  by (simp add: digit_val_def of_char_digit)

lemma strto_digits_append:
  "list_all (\<lambda>c. digit_val base c \<noteq> None) xs \<Longrightarrow>
   strto_digits base (xs @ ys) acc = strto_digits base ys (strto_digits base xs acc)"
  by (induction xs arbitrary: acc) auto

lemma dec_str_digits: "list_all (\<lambda>c. digit_val 10 c \<noteq> None) (dec_str n)"
  by (induction n rule: dec_str.induct) (subst dec_str.simps, auto simp: digit_val_digit)

lemma strto_digits_dec_str: "strto_digits 10 (dec_str n) 0 = n"
proof (induction n rule: dec_str.induct)
  case (1 n)
  show ?case
  proof (cases "n < 10")
    case True
    then show ?thesis by (subst dec_str.simps) (simp add: digit_val_digit)
  next
    case False
    then have "strto_digits 10 (dec_str n) 0 = strto_digits 10 [digit_char (n mod 10)] (strto_digits 10 (dec_str (n div 10)) 0)"
      by (subst dec_str.simps) (simp only: if_False strto_digits_append [OF dec_str_digits])
    with 1 [OF False] show ?thesis by (simp add: digit_val_digit)
  qed
qed

lemma dec_str_hd: "\<exists>d cs. dec_str n = digit_char d # cs \<and> d < 10 \<and> (0 < n \<longrightarrow> 0 < d)"
proof (induction n rule: dec_str.induct)
  case (1 n)
  show ?case
  proof (cases "n < 10")
    case True
    then show ?thesis by (subst dec_str.simps) auto
  next
    case False
    from 1 [OF this] obtain d cs where "dec_str (n div 10) = digit_char d # cs" "d < 10" "0 < n div 10 \<longrightarrow> 0 < d"
      by (elim exE conjE) (rule that)
    with False show ?thesis by (subst dec_str.simps) (auto simp: div_greater_zero_iff)
  qed
qed

lemma digit_char_ne:
  assumes "d < 10"
  shows "digit_char d \<noteq> CHR ''-''" "digit_char d \<noteq> CHR ''+''" "\<not> c_isspace (digit_char d)"
    "digit_char d = CHR ''0'' \<longleftrightarrow> d = 0"
  using assms
  by (simp_all add: of_char_eq_iff [symmetric, where 'a = nat] c_isspace_def of_char_digit)

lemma strto_mag_dec_str: "strto_mag (dec_str n) = n"
proof (cases "n = 0")
  case True
  have "dec_str 0 = ''0''" by (subst dec_str.simps) (simp add: of_char_eq_iff [symmetric, where 'a = nat] of_char_digit)
  with True show ?thesis by (simp add: strto_mag_def digit_val_def)
next
  case False
  then obtain d cs where d: "dec_str n = digit_char d # cs" "d < 10" "0 < d" using dec_str_hd [of n] by auto
  then have "digit_char d \<noteq> CHR ''0''" by (simp add: digit_char_ne)
  with d strto_digits_dec_str [of n] show ?thesis
    by (auto simp: strto_mag_def split: list.splits)
qed

lemma strto_fmt_d: "strto (fmt_d i) = (i < 0, nat \<bar>i\<bar>)"
proof (cases "i < 0")
  case True
  then show ?thesis by (simp add: strto_def fmt_d_def c_isspace_def strto_mag_dec_str)
next
  case False
  obtain d cs where d: "dec_str (nat i) = digit_char d # cs" "d < 10" using dec_str_hd [of "nat i"] by auto
  with False strto_mag_dec_str [of "nat i"] show ?thesis
    by (simp add: strto_def fmt_d_def digit_char_ne)
qed

lemma strtoll_fmt_d: "- (2 ^ 63) \<le> i \<Longrightarrow> i < 2 ^ 63 \<Longrightarrow> strtoll (fmt_d i) = (i, 0)"
  by (simp add: strtoll_def strto_fmt_d)

lemma strtoull_fmt_d: "0 \<le> i \<Longrightarrow> i < 2 ^ 64 \<Longrightarrow> strtoull (fmt_d i) = (i, 0)"
  by (simp add: strtoull_def strto_fmt_d take_bit_int_eq_self)

lemma no_nul_fmt_d: "no_nul (fmt_d i)"
proof -
  have "CHR 0x00 \<notin> set (dec_str n)" for n
    using dec_str_digits [of n] by (auto simp: list_all_iff digit_val_def)
  then show ?thesis by (simp add: no_nul_def fmt_d_def)
qed

lemma data_text_text_data [simp]: "no_nul s \<Longrightarrow> data_text (text_data s) = s"
  using str_at_cstr [of s "[0]"]
  by (simp add: data_text_def text_data_def data_bytes_def nat_add_distrib)

subsection \<open>Typed round trips\<close>

locale dict_codec =
  fixes enc :: "'v \<Rightarrow> data_t" and dec :: "data_t option \<Rightarrow> int \<times> 'v option" and rng :: "'v \<Rightarrow> bool"
  assumes dec_enc: "rng v \<Longrightarrow> dec (Some (enc v)) = (0, Some v)"
begin

lemma get_set:
  assumes "dict_ok d" "rng v"
  shows "\<exists>d'. dict_set_via (Some (enc v)) (Some d) k = (0, Some d') \<and> dict_ok d' \<and>
    dict_get_via dec (Some d') (Some k) = (0, Some v) \<and>
    (\<forall>j. j \<noteq> k \<longrightarrow> dict_get_via dec (Some d') (Some j) = dict_get_via dec (Some d) (Some j))"
proof -
  let ?d = "u_dict_set d k (enc v) True"
  have "dict_ok ?d" "dict_map ?d = (dict_map d)(k \<mapsto> enc v)"
    using assms by (simp_all add: dict_ok_set dict_map_set)
  then show ?thesis
    using assms by (simp add: dict_set_via_def dict_set_def dict_get_via_def dict_get_with_ref_map dec_enc)
qed

lemma get_absent:
  "dict_ok d \<Longrightarrow> dict_map d k = None \<Longrightarrow> dict_get_via dec (Some d) (Some k) = (- ENOENT, None)"
  by (simp add: dict_get_via_def dict_get_with_ref_map)

end

definition int_range :: "nat \<Rightarrow> int \<Rightarrow> bool" where
  "int_range w i \<longleftrightarrow> - (2 ^ (w - 1)) \<le> i \<and> i < 2 ^ (w - 1)"

definition uint_range :: "nat \<Rightarrow> int \<Rightarrow> bool" where
  "uint_range w i \<longleftrightarrow> 0 \<le> i \<and> i < 2 ^ w"

lemmas codec_simps = no_nul_fmt_d strtoll_fmt_d strtoull_fmt_d errno_ret_def Let_def
  int_range_def uint_range_def signed_take_bit_int_eq_self take_bit_int_eq_self

interpretation int8_codec: dict_codec data_from_int8 u_data_to_int8 "int_range 8"
  by unfold_locales (simp add: u_data_to_int8_def data_from_int8_def codec_simps)

interpretation int16_codec: dict_codec data_from_int16 u_data_to_int16 "int_range 16"
  by unfold_locales (simp add: u_data_to_int16_def data_from_int16_def codec_simps)

interpretation int32_codec: dict_codec data_from_int32 u_data_to_int32 "int_range 32"
  by unfold_locales (simp add: u_data_to_int32_def data_from_int32_def codec_simps)

interpretation int64_codec: dict_codec data_from_int64 u_data_to_int64 "int_range 64"
  by unfold_locales (simp add: u_data_to_int64_def data_from_int64_def codec_simps)

interpretation uint16_codec: dict_codec data_from_uint16 u_data_to_uint16 "uint_range 16"
  by unfold_locales (simp add: u_data_to_uint16_def data_from_uint16_def codec_simps)

interpretation uint32_codec: dict_codec data_from_uint32 u_data_to_uint32 "uint_range 32"
  by unfold_locales (simp add: u_data_to_uint32_def data_from_uint32_def codec_simps)

interpretation uint64_codec: dict_codec data_from_uint64 u_data_to_uint64 "uint_range 64"
  by unfold_locales (simp add: u_data_to_uint64_def data_from_uint64_def codec_simps)


subsection \<open>Properties\<close>

text \<open>C18. A 32-bit signed integer set in a dictionary is read back as the same
  number; the other keys read as before.\<close>

theorem dict_int32_roundtrip:
  assumes "dict_ok d" "int_range 32 v"
  shows "\<exists>d'. dict_set_int32 (Some d) k v = (0, Some d') \<and> dict_ok d' \<and>
    dict_get_int32 (Some d') (Some k) = (0, Some v) \<and>
    (\<forall>j. j \<noteq> k \<longrightarrow> dict_get_int32 (Some d') (Some j) = dict_get_int32 (Some d) (Some j))"
  using int32_codec.get_set [OF assms] by (simp add: dict_set_int32_def dict_get_int32_def)

theorem dict_int32_roundtrip_witness:
  "\<exists>d'. dict_set_int32 (Some dict_new) ''count'' (-7) = (0, Some d') \<and> dict_ok d' \<and>
    dict_get_int32 (Some d') (Some ''count'') = (0, Some (-7)) \<and>
    (\<forall>j. j \<noteq> ''count'' \<longrightarrow> dict_get_int32 (Some d') (Some j) = dict_get_int32 (Some dict_new) (Some j))"
  by (rule dict_int32_roundtrip) (simp_all add: int_range_def)

text \<open>The same for 64-bit unsigned integers over their whole range, which the
  decimal text and \<open>strtoull\<close> carry without loss.\<close>

theorem dict_uint64_roundtrip:
  assumes "dict_ok d" "uint_range 64 v"
  shows "\<exists>d'. dict_set_uint64 (Some d) k v = (0, Some d') \<and> dict_ok d' \<and>
    dict_get_uint64 (Some d') (Some k) = (0, Some v) \<and>
    (\<forall>j. j \<noteq> k \<longrightarrow> dict_get_uint64 (Some d') (Some j) = dict_get_uint64 (Some d) (Some j))"
  using uint64_codec.get_set [OF assms] by (simp add: dict_set_uint64_def dict_get_uint64_def)

theorem dict_uint64_roundtrip_witness:
  "\<exists>d'. dict_set_uint64 (Some dict_new) ''runtime'' (2 ^ 64 - 1) = (0, Some d') \<and> dict_ok d' \<and>
    dict_get_uint64 (Some d') (Some ''runtime'') = (0, Some (2 ^ 64 - 1)) \<and>
    (\<forall>j. j \<noteq> ''runtime'' \<longrightarrow>
       dict_get_uint64 (Some d') (Some j) = dict_get_uint64 (Some dict_new) (Some j))"
  by (rule dict_uint64_roundtrip) (simp_all add: uint_range_def)

end
