(* ===== verification/Dict_Serialize.thy ===== *)
theory Dict_Serialize
  imports Dict_Codec
begin

text \<open>
  The wire format of a dictionary (\<open>_dict_serialized_length\<close>, \<open>_dict_serialize\<close>,
  \<open>dict_unserialize\<close>, \<open>dict_allocate_and_serialize\<close> of
  \<open>libglusterfs/src/dict.c\<close>).  The reader walks a buffer with integer positions, as the
  C code compares pointers: a read that leaves the buffer makes the result
  \<open>None\<close>.  \<open>memdup\<close> of a negative length asks for nearly \<open>2^64\<close> bytes and returns
  NULL.
\<close>

subsection \<open>Writing\<close>

abbreviation (input) DICT_HDR_LEN :: int where "DICT_HDR_LEN \<equiv> 4"
abbreviation (input) DICT_DATA_HDR_KEY_LEN :: int where "DICT_DATA_HDR_KEY_LEN \<equiv> 4"
abbreviation (input) DICT_DATA_HDR_VAL_LEN :: int where "DICT_DATA_HDR_VAL_LEN \<equiv> 4"

fun serialized_length_loop :: "nat \<Rightarrow> (string \<times> data_t) list \<Rightarrow> int \<Rightarrow> int" where
  "serialized_length_loop 0 ps len = len"
| "serialized_length_loop (Suc n) [] len = - EINVAL"
| "serialized_length_loop (Suc n) ((k, v) # ps) len =
     (let len = signed_take_bit 31 (len + DICT_DATA_HDR_KEY_LEN + DICT_DATA_HDR_VAL_LEN);
          len = signed_take_bit 31 (len + int (length k) + 1)
      in if data_len v < 0 then - EINVAL
         else serialized_length_loop n ps (signed_take_bit 31 (len + data_len v)))"

definition u_dict_serialized_length :: "dict_t \<Rightarrow> int" where
  "u_dict_serialized_length this =
     (if dict_count this < 0 then - EINVAL
      else serialized_length_loop (nat (dict_count this)) (dict_alist this) DICT_HDR_LEN)"

definition dict_serialized_length :: "dict_t option \<Rightarrow> int" where
  "dict_serialized_length this = (case this of None \<Rightarrow> - EINVAL | Some d \<Rightarrow> u_dict_serialized_length d)"

definition serialize_pair :: "string \<Rightarrow> data_t \<Rightarrow> byte list" where
  "serialize_pair k v =
     st32 (hton32 (of_nat (length k))) @ st32 (hton32 (word_of_int (data_len v))) @
     bytes_of k @ [0] @ (case data_data v of Some b \<Rightarrow> take (nat (data_len v)) b | None \<Rightarrow> [])"

fun serialize_loop :: "nat \<Rightarrow> (string \<times> data_t) list \<Rightarrow> byte list \<Rightarrow> int \<times> byte list" where
  "serialize_loop 0 ps buf = (0, buf)"
| "serialize_loop (Suc n) [] buf = (-1, buf)"
| "serialize_loop (Suc n) ((k, v) # ps) buf = serialize_loop n ps (buf @ serialize_pair k v)"

text \<open>Return code, and the bytes written from the start of the buffer.\<close>

definition u_dict_serialize :: "dict_t \<Rightarrow> int \<times> byte list" where
  "u_dict_serialize this =
     (if dict_count this < 0 then (-1, [])
      else serialize_loop (nat (dict_count this)) (dict_alist this)
             (st32 (hton32 (word_of_int (dict_count this)))))"

definition dict_serialize :: "dict_t option \<Rightarrow> int \<times> byte list" where
  "dict_serialize this = (case this of None \<Rightarrow> (-1, []) | Some d \<Rightarrow> u_dict_serialize d)"

text \<open>Return code, the allocated buffer (zeroed by \<open>calloc\<close> before it is written) and
  the length stored through \<open>length\<close>.\<close>

definition dict_allocate_and_serialize :: "dict_t option \<Rightarrow> int \<times> byte list option \<times> int option" where
  "dict_allocate_and_serialize this = (case this of
     None \<Rightarrow> (- EINVAL, None, None)
   | Some d \<Rightarrow>
       let len = u_dict_serialized_length d in
       if len < 0 then (len, None, None)
       else case u_dict_serialize d of (ret, written) \<Rightarrow>
              if ret < 0 then (ret, None, None)
              else (ret, Some (written @ replicate (nat len - length written) 0), Some len))"

subsection \<open>Reading\<close>

definition rd_net32 :: "byte list \<Rightarrow> int \<Rightarrow> int option" where
  "rd_net32 buf pos =
     (if pos < 0 then None else map_option (\<lambda>w. sint (ntoh32 w)) (rd32 buf (nat pos)))"

text \<open>The C string at a position: its NUL must lie inside the memory.\<close>

definition rd_cstr :: "byte list \<Rightarrow> int \<Rightarrow> string option" where
  "rd_cstr buf pos =
     (if pos < 0 \<or> 0 \<notin> set (drop (nat pos) buf) then None else Some (str_at (drop (nat pos) buf)))"

definition memdup_at :: "byte list \<Rightarrow> int \<Rightarrow> int \<Rightarrow> byte list option option" where
  "memdup_at buf pos n =
     (if n < 0 then Some None
      else if pos < 0 \<or> pos + n > int (length buf) then None
      else Some (Some (take (nat n) (drop (nat pos) buf))))"

fun unserialize_loop ::
  "nat \<Rightarrow> byte list \<Rightarrow> int \<Rightarrow> int \<Rightarrow> dict_t option \<Rightarrow> (int \<times> dict_t option) option" where
  "unserialize_loop 0 mem sz pos fill = Some (0, fill)"
| "unserialize_loop (Suc n) mem sz pos fill =
     (if pos + DICT_DATA_HDR_KEY_LEN > sz then Some (-1, fill)
      else do {
        keylen \<leftarrow> rd_net32 mem pos;
        let pos = pos + DICT_DATA_HDR_KEY_LEN;
        if pos + DICT_DATA_HDR_VAL_LEN > sz then Some (-1, fill)
        else do {
          vallen \<leftarrow> rd_net32 mem pos;
          let pos = pos + DICT_DATA_HDR_VAL_LEN;
          if pos + keylen > sz then Some (-1, fill)
          else do {
            let key = pos;
            let pos = pos + keylen + 1;
            if pos + vallen > sz then Some (-1, fill)
            else do {
              dat \<leftarrow> memdup_at mem pos vallen;
              let value = get_new_data\<lparr>data_len := vallen, data_data := dat\<rparr>;
              k \<leftarrow> rd_cstr mem key;
              unserialize_loop n mem sz (pos + vallen) (snd (dict_add fill k (Some value))) } } } })"

definition dict_unserialize ::
  "byte list option \<Rightarrow> int \<Rightarrow> dict_t option \<Rightarrow> (int \<times> dict_t option) option" where
  "dict_unserialize orig_buf sz fill = (case orig_buf of
     None \<Rightarrow> Some (-1, fill)
   | Some mem \<Rightarrow>
       if sz = 0 then Some (-1, fill)
       else (case fill of
         None \<Rightarrow> Some (-1, fill)
       | Some f \<Rightarrow>
           if DICT_HDR_LEN > sz then Some (-1, fill)
           else do {
             count \<leftarrow> rd_net32 mem 0;
             if count < 0 then Some (-1, fill)
             else unserialize_loop (nat count) mem sz DICT_HDR_LEN (Some (f\<lparr>dict_count := 0\<rparr>)) }))"

subsection \<open>The written length\<close>

definition pair_size :: "string \<times> data_t \<Rightarrow> int" where
  "pair_size p = 9 + int (length (fst p)) + data_len (snd p)"

definition wire_size :: "(string \<times> data_t) list \<Rightarrow> int" where
  "wire_size ps = (\<Sum>p\<leftarrow>ps. pair_size p)"

definition wire_bytes :: "(string \<times> data_t) list \<Rightarrow> byte list" where
  "wire_bytes ps = concat (map (\<lambda>(k, v). serialize_pair k v) ps)"

lemma data_ok_len: "data_ok v \<Longrightarrow> data_len v = int (length (data_bytes v)) \<and> data_data v = Some (data_bytes v)"
  by (auto simp: data_ok_def data_bytes_def split: option.splits)

lemma wire_size_nonneg: "list_all (\<lambda>(k, v). data_ok v) ps \<Longrightarrow> 0 \<le> wire_size ps"
  by (induction ps) (auto simp: wire_size_def pair_size_def dest!: data_ok_len)

lemma length_serialize_pair: "data_ok v \<Longrightarrow> int (length (serialize_pair k v)) = pair_size (k, v)"
  by (auto simp: serialize_pair_def pair_size_def dest!: data_ok_len)

lemma length_wire_bytes:
  "list_all (\<lambda>(k, v). data_ok v) ps \<Longrightarrow> int (length (wire_bytes ps)) = wire_size ps"
  by (induction ps) (auto simp: wire_bytes_def wire_size_def length_serialize_pair)

lemma serialized_length_loop_ok:
  "list_all (\<lambda>(k, v). data_ok v) ps \<Longrightarrow> 0 \<le> len \<Longrightarrow> len + wire_size ps < 2 ^ 31 \<Longrightarrow>
   serialized_length_loop (length ps) ps len = len + wire_size ps"
proof (induction ps arbitrary: len)
  case (Cons p ps)
  obtain k v where p: "p = (k, v)" by (cases p)
  have nn: "0 \<le> data_len v" "0 \<le> wire_size ps"
    using Cons.prems p wire_size_nonneg [of ps] by (auto dest!: data_ok_len)
  have w: "wire_size (p # ps) = 9 + int (length k) + data_len v + wire_size ps"
    by (simp add: wire_size_def pair_size_def p)
  have "serialized_length_loop (length (p # ps)) (p # ps) len =
      serialized_length_loop (length ps) ps (len + 9 + int (length k) + data_len v)"
    using Cons.prems nn p w by (simp add: signed_take_bit_int_eq_self Let_def ac_simps)
  also have "\<dots> = len + 9 + int (length k) + data_len v + wire_size ps"
    using Cons.prems nn w p by (intro Cons.IH) auto
  finally show ?case using w by simp
qed (simp add: wire_size_def)

lemma serialize_loop_ok: "serialize_loop (length ps) ps buf = (0, buf @ wire_bytes ps)"
  by (induction ps arbitrary: buf) (auto simp: wire_bytes_def)

subsection \<open>The reader on what the writer wrote\<close>

lemma rd_net32_here:
  assumes "- (2 ^ 31) \<le> i" "i < 2 ^ 31" "int (length pre) = pos"
  shows "rd_net32 (pre @ st32 (hton32 (word_of_int i)) @ post) pos = Some i"
proof -
  have "rd32 (pre @ st32 (hton32 (word_of_int i)) @ post) (length pre + 0) = Some (hton32 (word_of_int i))"
    by (simp only: rd32_append rd32_st32)
  moreover have "sint (word_of_int i :: u32) = i"
    using assms by (simp add: signed_of_int signed_take_bit_int_eq_self)
  moreover have "nat pos = length pre" "\<not> pos < 0" using assms(3) by auto
  ultimately show ?thesis by (simp add: rd_net32_def)
qed

lemma rd_cstr_here:
  assumes "no_nul k" "int (length pre) = pos"
  shows "rd_cstr (pre @ bytes_of k @ [0] @ post) pos = Some k"
proof -
  have "nat pos = length pre" "\<not> pos < 0" using assms(2) by auto
  moreover have "str_at (bytes_of k @ 0 # post) = k" using str_at_cstr [OF assms(1), of post] by (simp add: cstr_def)
  ultimately show ?thesis by (simp add: rd_cstr_def)
qed

lemma memdup_here:
  assumes "int (length pre) = pos" "n = int (length b)"
  shows "memdup_at (pre @ b @ post) pos n = Some (Some b)"
proof -
  have "nat pos = length pre" "\<not> pos < 0" using assms(1) by auto
  with assms show ?thesis by (simp add: memdup_at_def)
qed

definition wire_value :: "data_t \<Rightarrow> data_t" where
  "wire_value v = get_new_data\<lparr>data_len := data_len v, data_data := data_data v\<rparr>"

lemma unserialize_step:
  assumes v: "data_ok v" and k: "no_nul k"
    and sz: "int (length pre) + pair_size (k, v) \<le> sz" "sz < 2 ^ 31"
  shows "unserialize_loop (Suc n) (pre @ serialize_pair k v @ post) sz (int (length pre)) fill =
    unserialize_loop n (pre @ serialize_pair k v @ post) sz (int (length pre) + pair_size (k, v))
      (snd (dict_add fill k (Some (wire_value v))))"
proof -
  define p where "p = int (length pre)"
  define K where "K = st32 (hton32 (word_of_int (int (length k))))"
  define V where "V = st32 (hton32 (word_of_int (data_len v)))"
  define mem where "mem = pre @ serialize_pair k v @ post"
  have vb: "data_len v = int (length (data_bytes v))" "data_data v = Some (data_bytes v)"
    using data_ok_len [OF v] by auto
  have mem: "mem = pre @ K @ V @ bytes_of k @ [0] @ data_bytes v @ post"
    by (simp add: mem_def serialize_pair_def K_def V_def vb)
  have sz': "p + 9 + int (length k) + data_len v \<le> sz" "0 \<le> data_len v" "0 \<le> p"
    using sz vb by (auto simp: pair_size_def p_def)
  have 1: "rd_net32 mem p = Some (int (length k))"
    unfolding mem K_def by (rule rd_net32_here) (use sz' sz in \<open>auto simp: p_def\<close>)
  have 2: "rd_net32 mem (p + 4) = Some (data_len v)"
    using rd_net32_here [of "data_len v" "pre @ K" "p + 4" "bytes_of k @ [0] @ data_bytes v @ post"] sz' sz
    by (simp add: mem V_def p_def K_def)
  have 3: "rd_cstr mem (p + 8) = Some k"
    using rd_cstr_here [OF k, of "pre @ K @ V" "p + 8" "data_bytes v @ post"]
    by (simp add: mem p_def K_def V_def)
  have 4: "memdup_at mem (p + 9 + int (length k)) (data_len v) = Some (Some (data_bytes v))"
    using memdup_here [of "pre @ K @ V @ bytes_of k @ [0]" "p + 9 + int (length k)" "data_len v" "data_bytes v" post] vb
    by (simp add: mem p_def K_def V_def)
  have "p + 4 + 4 + int (length k) + 1 = p + 9 + int (length k)" "p + 4 + 4 = p + 8" by auto
  with 1 2 3 4 sz' show ?thesis
    unfolding p_def [symmetric] mem_def [symmetric]
    by (simp add: wire_value_def vb pair_size_def Let_def add.assoc)
qed

lemma dict_add_add:
  "dict_ok f \<Longrightarrow> dict_add (Some f) k (Some v) = (0, Some (u_dict_set f k v False))"
  by (simp add: dict_add_def)

lemma unserialize_loop_wire:
  assumes "list_all (\<lambda>(k, v). data_ok v \<and> no_nul k) ps" "dict_ok f"
    "int (length pre) + wire_size ps \<le> sz" "sz < 2 ^ 31"
  shows "\<exists>f'. unserialize_loop (length ps) (pre @ wire_bytes ps @ post) sz (int (length pre)) (Some f) = Some (0, Some f') \<and>
    dict_ok f' \<and> dict_alist f' = rev (map (\<lambda>(k, v). (k, wire_value v)) ps) @ dict_alist f"
  using assms
proof (induction ps arbitrary: pre f)
  case (Cons p ps)
  obtain k v where p: "p = (k, v)" by (cases p)
  let ?f = "u_dict_set f k (wire_value v) False"
  let ?pre = "pre @ serialize_pair k v"
  have v: "data_ok v" "no_nul k" and ps: "list_all (\<lambda>(k, v). data_ok v \<and> no_nul k) ps"
    using Cons.prems p by auto
  have len: "int (length ?pre) = int (length pre) + pair_size (k, v)"
    using v by (simp add: length_serialize_pair)
  have nn: "0 \<le> wire_size ps" using ps by (intro wire_size_nonneg) (auto simp: list_all_iff)
  have w: "wire_size (p # ps) = pair_size (k, v) + wire_size ps" by (simp add: wire_size_def p)
  have f: "dict_ok ?f" "dict_alist ?f = (k, wire_value v) # dict_alist f"
    using Cons.prems by (simp_all add: dict_ok_set dict_alist_add)
  have "unserialize_loop (length (p # ps)) (pre @ wire_bytes (p # ps) @ post) sz (int (length pre)) (Some f) =
      unserialize_loop (length ps) (?pre @ wire_bytes ps @ post) sz (int (length ?pre)) (Some ?f)"
    using unserialize_step [of v k pre sz "length ps" "wire_bytes ps @ post" "Some f"] v Cons.prems nn w len
    by (simp add: p wire_bytes_def dict_add_def)
  with Cons.IH [OF ps f(1), of ?pre] Cons.prems w len f(2) p show ?case by auto
qed simp
lemma data_bytes_wire_value [simp]: "data_bytes (wire_value v) = data_bytes v"
  by (simp add: wire_value_def data_bytes_def)

lemma serialize_whole:
  assumes "dict_ok d" "dict_data_ok d" "4 + wire_size (dict_alist d) < 2 ^ 31"
  shows "dict_allocate_and_serialize (Some d) =
    (0, Some (st32 (hton32 (word_of_int (dict_count d))) @ wire_bytes (dict_alist d)),
     Some (4 + wire_size (dict_alist d)))"
proof -
  have c: "dict_count d = int (length (dict_alist d))" using assms by (simp add: dict_count_alist)
  have "u_dict_serialized_length d = 4 + wire_size (dict_alist d)"
    using assms serialized_length_loop_ok [of "dict_alist d" 4]
    by (simp add: u_dict_serialized_length_def c dict_data_ok_def)
  moreover have "0 \<le> wire_size (dict_alist d)" using assms by (intro wire_size_nonneg) (simp add: dict_data_ok_def)
  moreover have "int (length (wire_bytes (dict_alist d))) = wire_size (dict_alist d)"
    using assms by (simp add: dict_data_ok_def length_wire_bytes)
  ultimately show ?thesis
    by (simp add: dict_allocate_and_serialize_def u_dict_serialize_def c serialize_loop_ok Let_def)
qed

lemma wire_count_bound:
  "list_all (\<lambda>(k, v). data_ok v) ps \<Longrightarrow> int (length ps) \<le> wire_size ps"
  by (induction ps) (auto simp: wire_size_def pair_size_def dest!: data_ok_len)

lemma serialize_roundtrip:
  assumes ok: "dict_ok d" "dict_data_ok d" and keys: "list_all no_nul (dict_keys d)"
    and sz: "4 + wire_size (dict_alist d) < 2 ^ 31"
  shows "\<exists>buf len d'. dict_allocate_and_serialize (Some d) = (0, Some buf, Some len) \<and>
    len = int (length buf) \<and> dict_unserialize (Some buf) len (Some dict_new) = Some (0, Some d') \<and>
    dict_ok d' \<and> dict_alist d' = rev (map (\<lambda>(k, v). (k, wire_value v)) (dict_alist d))"
proof -
  let ?ps = "dict_alist d" and ?hd = "st32 (hton32 (word_of_int (dict_count d)))"
  have c: "dict_count d = int (length ?ps)" using ok by (simp add: dict_count_alist)
  have okps: "list_all (\<lambda>(k, v). data_ok v \<and> no_nul k) ?ps" "list_all (\<lambda>(k, v). data_ok v) ?ps"
    using ok keys by (auto simp: dict_data_ok_def dict_keys_def list_all_iff)
  have b: "int (length ?ps) \<le> wire_size ?ps" "0 \<le> wire_size ?ps" "int (length (wire_bytes ?ps)) = wire_size ?ps"
    using okps by (simp_all add: wire_count_bound wire_size_nonneg length_wire_bytes)
  have cnt: "rd_net32 (?hd @ wire_bytes ?ps) 0 = Some (dict_count d)"
    using rd_net32_here [of "dict_count d" "[]" 0 "wire_bytes ?ps"] b sz c by simp
  have new: "dict_new\<lparr>dict_count := 0\<rparr> = dict_new"
    by (simp add: dict_new_def dict_ref_def get_new_dict_full_def)
  obtain f' where "unserialize_loop (length ?ps) (?hd @ wire_bytes ?ps @ []) (4 + wire_size ?ps) (int (length ?hd)) (Some dict_new) = Some (0, Some f')"
    "dict_ok f'" "dict_alist f' = rev (map (\<lambda>(k, v). (k, wire_value v)) ?ps) @ dict_alist dict_new"
    using unserialize_loop_wire [OF okps(1), of dict_new ?hd "4 + wire_size ?ps" "[]"] sz by auto
  then show ?thesis
    using serialize_whole [OF ok sz] cnt b c
    by (auto simp: dict_unserialize_def new)
qed

subsection \<open>Properties\<close>

text \<open>C14. Serializing a dictionary without duplicate keys whose values own their
  buffers and whose size fits an \<open>int\<close> succeeds, fills exactly the allocated
  buffer, and unserializing that buffer into a new dictionary succeeds, reads
  nothing outside it, and yields a dictionary with the same keys and values.\<close>

theorem dict_wire_roundtrip:
  assumes "dict_functional d" "dict_data_ok d" "list_all no_nul (dict_keys d)"
    "4 + wire_size (dict_alist d) < 2 ^ 31"
  shows "\<exists>buf len d'. dict_allocate_and_serialize (Some d) = (0, Some buf, Some len) \<and>
    len = int (length buf) \<and> dict_unserialize (Some buf) len (Some dict_new) = Some (0, Some d') \<and>
    dict_functional d' \<and> map_option data_bytes \<circ> dict_map d' = map_option data_bytes \<circ> dict_map d"
proof -
  obtain buf len d' where r: "dict_allocate_and_serialize (Some d) = (0, Some buf, Some len)"
    "len = int (length buf)" "dict_unserialize (Some buf) len (Some dict_new) = Some (0, Some d')"
    and d': "dict_ok d'" "dict_alist d' = rev (map (\<lambda>(k, v). (k, wire_value v)) (dict_alist d))"
    using serialize_roundtrip [of d] assms dict_functional_ok by blast
  have fst: "map fst (dict_alist d') = rev (dict_keys d)"
    by (simp add: d'(2) dict_keys_def rev_map comp_def case_prod_beta)
  then have f: "dict_functional d'"
    using assms(1) d'(1) by (simp add: dict_functional_def dict_keys_def [of d'])
  have "dict_map d' = map_of (map (\<lambda>(k, v). (k, wire_value v)) (dict_alist d))"
    unfolding dict_map_def d'(2) using assms(1)
    by (subst map_of_inject_set)
      (auto simp: dict_functional_def dict_keys_def comp_def case_prod_beta rev_map [symmetric])
  also have "\<dots> = map_option wire_value \<circ> dict_map d"
    by (simp add: dict_map_def map_of_map)
  finally have "map_option data_bytes \<circ> dict_map d' = map_option data_bytes \<circ> dict_map d"
    by (simp add: fun_eq_iff option.map_comp comp_def)
  with r f show ?thesis by blast
qed

theorem dict_wire_roundtrip_witness:
  "\<exists>buf len d'. dict_allocate_and_serialize (Some (u_dict_set dict_new ''k'' (text_data ''v'') True)) =
      (0, Some buf, Some len) \<and> len = int (length buf) \<and>
    dict_unserialize (Some buf) len (Some dict_new) = Some (0, Some d') \<and> dict_functional d' \<and>
    map_option data_bytes \<circ> dict_map d' =
      map_option data_bytes \<circ> dict_map (u_dict_set dict_new ''k'' (text_data ''v'') True)"
  by (rule dict_wire_roundtrip)
    (simp_all add: dict_functional_set dict_data_ok_def dict_keys_def dict_alist_set alist_set_def
      data_ok_def text_data_def no_nul_def wire_size_def pair_size_def)

end
