(* ===== verification/Exchange_Sort.thy ===== *)
theory Exchange_Sort
  imports Prelude "HOL-Library.Multiset"
begin

text \<open>
  The double loop with which the distribute translator sorts a layout, once by
  range and once by volume name: position \<open>i\<close> is compared with every later
  position and exchanged when it is greater.  The locale states what the
  comparison must satisfy, possibly only on valid elements, for the loop to
  sort.
\<close>

definition exchange_pass :: "('a \<Rightarrow> 'a \<Rightarrow> bool) \<Rightarrow> nat \<Rightarrow> nat \<Rightarrow> 'a list \<Rightarrow> 'a list" where
  "exchange_pass gt n i xs =
     fold (\<lambda>j xs. if gt (xs ! i) (xs ! j) then swap_nth i j xs else xs) [i + 1..<n] xs"

definition exchange_sort :: "('a \<Rightarrow> 'a \<Rightarrow> bool) \<Rightarrow> nat \<Rightarrow> 'a list \<Rightarrow> 'a list" where
  "exchange_sort gt n xs = fold (exchange_pass gt n) [0..<n - 1] xs"

definition ordered_by :: "('a \<Rightarrow> 'a \<Rightarrow> bool) \<Rightarrow> 'a list \<Rightarrow> bool" where
  "ordered_by gt xs \<longleftrightarrow> (\<forall>a b. a < b \<longrightarrow> b < length xs \<longrightarrow> \<not> gt (xs ! a) (xs ! b))"

lemma mset_swap_nth:
  assumes "i < length xs" "j < length xs"
  shows "mset (swap_nth i j xs) = mset xs"
  using mset_swap [OF assms(2,1)] by (simp add: swap_nth_def list_update_swap)
 
lemma swap_nth_take: "k \<le> i \<Longrightarrow> k \<le> j \<Longrightarrow> take k (swap_nth i j xs) = take k xs"
  by (simp add: swap_nth_def)

locale exchange_order =
  fixes gt :: "'a \<Rightarrow> 'a \<Rightarrow> bool" and ok :: "'a \<Rightarrow> bool"
  assumes gt_asym: "ok x \<Longrightarrow> ok y \<Longrightarrow> gt x y \<Longrightarrow> \<not> gt y x"
    and le_trans: "ok x \<Longrightarrow> ok y \<Longrightarrow> ok z \<Longrightarrow> \<not> gt x y \<Longrightarrow> \<not> gt y z \<Longrightarrow> \<not> gt x z"
begin

lemma gt_irrefl: "ok x \<Longrightarrow> \<not> gt x x"
  using gt_asym by blast

text \<open>One pass: a rearrangement that keeps the prefix and leaves a least element of the
  rest at \<open>i\<close>.\<close>

lemma exchange_pass_inv:
  assumes "i < length xs" "\<forall>x\<in>set xs. ok x"
  shows "i + 1 \<le> m \<Longrightarrow> m \<le> length xs \<Longrightarrow>
    (let ys = exchange_pass gt m i xs in
     mset ys = mset xs \<and> take i ys = take i xs \<and> (\<forall>k. i \<le> k \<longrightarrow> k < m \<longrightarrow> \<not> gt (ys ! i) (ys ! k)))"
proof (induction m rule: dec_induct)
  case base
  then show ?case using assms by (auto simp: exchange_pass_def less_Suc_eq gt_irrefl)
next
  case (step m)
  define ys where "ys = exchange_pass gt m i xs"
  have ys: "mset ys = mset xs" "take i ys = take i xs"
    "\<And>k. i \<le> k \<Longrightarrow> k < m \<Longrightarrow> \<not> gt (ys ! i) (ys ! k)"
    using step by (auto simp: Let_def ys_def)
  have len: "length ys = length xs" and set: "set ys = set xs"
    using ys(1) by (metis mset_eq_length, metis mset_eq_setD)
  have ok: "ok (ys ! k)" if "k < length xs" for k
    using that assms(2) len set by (metis nth_mem)
  have eq: "exchange_pass gt (Suc m) i xs = (if gt (ys ! i) (ys ! m) then swap_nth i m ys else ys)"
    using step.hyps by (simp add: exchange_pass_def ys_def)
  show ?case
  proof (cases "gt (ys ! i) (ys ! m)")
    case True
    have sw: "swap_nth i m ys ! k = (if k = m then ys ! i else if k = i then ys ! m else ys ! k)"
      if "k < length xs" for k
      using that step assms(1) len by (simp add: nth_swap_nth)
    have "\<not> gt (ys ! m) (ys ! k)" if "i \<le> k" "k < m" for k
      using le_trans [of "ys ! m" "ys ! i" "ys ! k"] gt_asym [of "ys ! i" "ys ! m"] ys(3) [OF that] True
        ok assms(1) step.prems that by auto
    then have least: "\<not> gt (ys ! m) (swap_nth i m ys ! k)" if "i \<le> k" "k < Suc m" for k
      using that sw [of k] step.prems gt_asym [of "ys ! i" "ys ! m"] True ok [of m] ok [of i] assms(1)
        gt_irrefl [of "ys ! m"]
      by (cases "k = m"; cases "k = i") (auto simp: less_Suc_eq)
    moreover have "swap_nth i m ys ! i = ys ! m" using sw [of i] assms(1) step.hyps by simp
    ultimately have "\<not> gt (swap_nth i m ys ! i) (swap_nth i m ys ! k)" if "i \<le> k" "k < Suc m" for k
      using that by simp
    then show ?thesis
      using eq True ys step assms(1) len by (simp add: mset_swap_nth swap_nth_take)
  next
    case False
    then show ?thesis using eq ys by (auto simp: less_Suc_eq)
  qed
qed

lemma exchange_sort_inv:
  assumes "\<forall>x\<in>set xs. ok x"
  shows "m < length xs \<Longrightarrow>
    (let ys = fold (exchange_pass gt (length xs)) [0..<m] xs in
     mset ys = mset xs \<and> (\<forall>a b. a < m \<longrightarrow> a < b \<longrightarrow> b < length xs \<longrightarrow> \<not> gt (ys ! a) (ys ! b)))"
proof (induction m)
  case (Suc m)
  define ys where "ys = fold (exchange_pass gt (length xs)) [0..<m] xs"
  define zs where "zs = exchange_pass gt (length xs) m ys"
  have ys: "mset ys = mset xs" "\<And>a b. a < m \<Longrightarrow> a < b \<Longrightarrow> b < length xs \<Longrightarrow> \<not> gt (ys ! a) (ys ! b)"
    using Suc by (auto simp: Let_def ys_def)
  have len: "length ys = length xs" and okys: "\<forall>x\<in>set ys. ok x"
    using ys(1) assms by (metis mset_eq_length, metis mset_eq_setD)
  have zs: "mset zs = mset ys" "take m zs = take m ys"
    "\<And>k. m \<le> k \<Longrightarrow> k < length xs \<Longrightarrow> \<not> gt (zs ! m) (zs ! k)"
    using exchange_pass_inv [of m ys "length xs"] Suc.prems len okys by (auto simp: Let_def zs_def)
  have "mset (drop m zs) = mset (drop m ys)"
    using zs(1,2) by (metis append_take_drop_id mset_append add_left_cancel)
  then have dr: "set (drop m zs) = set (drop m ys)" by (metis mset_eq_setD)
  have lz: "length zs = length xs" using zs(1) len by (metis mset_eq_length)
  have "\<not> gt (zs ! a) (zs ! b)" if ab: "a < m" "a < b" "b < length xs" for a b
  proof (cases "b < m")
    case True
    then have "zs ! a = ys ! a" "zs ! b = ys ! b" using zs(2) ab by (metis nth_take)+
    then show ?thesis using ab ys(2) [of a b] by simp
  next
    case False
    then have "zs ! b \<in> set (drop m zs)" using ab lz
      by (auto simp: in_set_conv_nth intro!: exI [of _ "b - m"])
    then have "zs ! b \<in> set (drop m ys)" using dr by simp
    then obtain d where d: "d < length ys - m" "zs ! b = ys ! (m + d)"
      by (auto simp: in_set_conv_nth)
    then have "\<not> gt (ys ! a) (ys ! (m + d))" using ys(2) [of a "m + d"] ab len by simp
    moreover have "zs ! a = ys ! a" using zs(2) ab by (metis nth_take)
    ultimately show ?thesis using d by simp
  qed
  moreover have "\<not> gt (zs ! m) (zs ! b)" if "m < b" "b < length xs" for b using zs(3) that by simp
  ultimately show ?case
    using ys(1) zs(1) by (auto simp: Let_def ys_def [symmetric] zs_def [symmetric] less_Suc_eq)
qed simp

lemma exchange_sort_mset: "\<forall>x\<in>set xs. ok x \<Longrightarrow> mset (exchange_sort gt (length xs) xs) = mset xs"
  using exchange_sort_inv [of xs "length xs - 1"]
  by (cases xs) (auto simp: exchange_sort_def Let_def)

lemma exchange_sort_ordered: "\<forall>x\<in>set xs. ok x \<Longrightarrow> ordered_by gt (exchange_sort gt (length xs) xs)"
proof -
  assume ok: "\<forall>x\<in>set xs. ok x"
  have len: "length (exchange_sort gt (length xs) xs) = length xs"
    using exchange_sort_mset [OF ok] by (rule mset_eq_length)
  show ?thesis
  proof (cases "xs = []")
    case False
    then have "length xs - 1 < length xs" by simp
    with exchange_sort_inv [OF ok, of "length xs - 1"]
    have "\<not> gt (exchange_sort gt (length xs) xs ! a) (exchange_sort gt (length xs) xs ! b)"
      if "a < length xs - 1" "a < b" "b < length xs" for a b
      using that by (simp add: exchange_sort_def Let_def)
    then show ?thesis unfolding ordered_by_def len by simp
  qed (simp add: ordered_by_def exchange_sort_def)
qed

end

end
