(* ===== verification/Dht_Layout.thy ===== *)
theory Dht_Layout
  imports Dict_Serialize Exchange_Sort
begin

text \<open>
  Directory layouts of the distribute translator (\<open>cluster/dht/src/dht-layout.c\<close>,
  \<open>dht-hashfn.c\<close>): which subvolume a name hashes to, how the layout of a directory is
  assembled from what the subvolumes store on disk, sorted, checked for holes
  and overlaps, and compared with the disk again.

  A pointer to a translator is a record with its address; \<open>==\<close> on pointers compares
  addresses.  Layouts that are only read or updated in place are passed and
  returned as values; the reference-counted ones live in the heap of
  \<open>Dht_Layout_Ref\<close>.  A layout has \<open>cnt\<close> entries in \<open>list\<close> (the invariant
  \<open>layout_ok\<close>).  \<open>regexec\<close> is a function of the configuration.
\<close>

subsection \<open>Types\<close>

record xlator_t =
  xl_addr :: nat
  xl_name :: string

definition same_xl :: "xlator_t option \<Rightarrow> xlator_t option \<Rightarrow> bool" where
  "same_xl a b \<longleftrightarrow> map_option xl_addr a = map_option xl_addr b"

record layout_entry =
  le_err :: int
  le_start :: u32
  le_stop :: u32
  le_commit_hash :: u32
  le_xlator :: "xlator_t option"

record dht_layout =
  spread_cnt :: int
  lay_cnt :: nat
  preset :: bool
  lay_commit_hash :: u32
  lay_gen :: int
  lay_type :: int
  lay_ref :: int
  search_unhashed :: bool
  lay_list :: "layout_entry list"

definition zero_entry :: layout_entry where
  "zero_entry = \<lparr>le_err = 0, le_start = 0, le_stop = 0, le_commit_hash = 0, le_xlator = None\<rparr>"

text \<open>\<open>dht_hashfn_type_t\<close> and the invalid commit hash.\<close>

abbreviation (input) DHT_HASH_TYPE_DM :: int where "DHT_HASH_TYPE_DM \<equiv> 0"
abbreviation (input) DHT_HASH_TYPE_DM_USER :: int where "DHT_HASH_TYPE_DM_USER \<equiv> 1"
abbreviation (input) DHT_LAYOUT_HASH_INVALID :: u32 where "DHT_LAYOUT_HASH_INVALID \<equiv> 1"

text \<open>\<open>regexec\<close> on a compiled expression: no match, or the offsets of the first group
  (start \<open>-1\<close> when the group did not take part).\<close>

type_synonym regex_t = "string \<Rightarrow> (int \<times> int) option"

text \<open>The fields of \<open>dht_conf_t\<close> the layout code reads.  \<open>subvolumes\<close> are the children of
  the translator in order; \<open>du_chunks\<close> is the \<open>chunks\<close> field of \<open>du_stats\<close>.\<close>

record dht_conf =
  subvolumes :: "xlator_t list"
  dir_spread_cnt :: int
  conf_gen :: int
  xattr_name :: string
  extra_regex_valid :: bool
  extra_regex :: regex_t
  rsync_regex_valid :: bool
  rsync_regex :: regex_t
  randomize_by_gfid :: bool
  do_weighting :: bool
  du_chunks :: "u32 list option"
  decommissioned_bricks :: "xlator_t option list"
  decommission_subvols_cnt :: int

definition layout_ok :: "dht_layout \<Rightarrow> bool" where
  "layout_ok l \<longleftrightarrow> lay_cnt l = length (lay_list l)"

subsection \<open>Hashing a name\<close>

text \<open>\<open>None\<close> is the return code \<open>-1\<close>, which leaves the hash unset.\<close>

definition dht_hash_compute_internal :: "int \<Rightarrow> string \<Rightarrow> u32 option" where
  "dht_hash_compute_internal type name =
     (if type = DHT_HASH_TYPE_DM \<or> type = DHT_HASH_TYPE_DM_USER
      then gf_dm_hashfn (bytes_of name) (length name) else None)"

text \<open>Whether the name was shortened, and the name to hash.  \<open>len\<close> is the size of the
  destination, one more than the length of the name.\<close>

definition dht_munge_name :: "string \<Rightarrow> nat \<Rightarrow> regex_t \<Rightarrow> bool \<times> string" where
  "dht_munge_name original len re = (case re original of
     Some (so, eo) \<Rightarrow>
       if so \<noteq> -1 \<and> nat (eo - so) < len
       then (True, take (nat (eo - so)) (drop (nat so) original))
       else (False, original)
   | None \<Rightarrow> (False, original))"

definition dht_hash_compute :: "dht_conf \<Rightarrow> int \<Rightarrow> string \<Rightarrow> u32 option" where
  "dht_hash_compute priv type name =
     (let len = length name + 1;
          (munged, rname) = (if extra_regex_valid priv then dht_munge_name name len (extra_regex priv)
                             else (False, name));
          (munged, rname) = (if \<not> munged \<and> rsync_regex_valid priv
                             then dht_munge_name name len (rsync_regex priv) else (munged, rname));
          rname = (if \<not> munged then name else rname)
      in dht_hash_compute_internal type rname)"

subsection \<open>Construction and search\<close>

definition dht_layout_new :: "dht_conf option \<Rightarrow> nat \<Rightarrow> dht_layout" where
  "dht_layout_new conf cnt =
     (let layout = \<lparr>spread_cnt = 0, lay_cnt = 0, preset = False, lay_commit_hash = 0, lay_gen = 0,
            lay_type = 0, lay_ref = 0, search_unhashed = False, lay_list = replicate cnt zero_entry\<rparr>;
          layout = layout\<lparr>lay_type := DHT_HASH_TYPE_DM, lay_cnt := cnt\<rparr>;
          layout = (case conf of
            Some c \<Rightarrow> layout\<lparr>spread_cnt := dir_spread_cnt c, lay_gen := conf_gen c\<rparr>
          | None \<Rightarrow> layout)
      in layout\<lparr>lay_ref := 1\<rparr>)"

definition in_range :: "u32 \<Rightarrow> layout_entry \<Rightarrow> bool" where
  "in_range hash e \<longleftrightarrow> le_start e \<le> hash \<and> hash \<le> le_stop e"

definition dht_layout_search :: "dht_conf \<Rightarrow> dht_layout \<Rightarrow> string \<Rightarrow> xlator_t option" where
  "dht_layout_search this layout name = (case dht_hash_compute this (lay_type layout) name of
     None \<Rightarrow> None
   | Some hash \<Rightarrow>
       (case List.find (in_range hash) (take (lay_cnt layout) (lay_list layout)) of
          Some e \<Rightarrow> le_xlator e
        | None \<Rightarrow> None))"

definition dht_layout_index_for_subvol :: "dht_layout \<Rightarrow> xlator_t option \<Rightarrow> int" where
  "dht_layout_index_for_subvol layout subvol =
     (case List.find (\<lambda>i. same_xl (le_xlator (lay_list layout ! i)) subvol) [0..<lay_cnt layout] of
        Some i \<Rightarrow> int i | None \<Rightarrow> -1)"

text \<open>The per-subvolume layouts of files: one entry, marked preset.\<close>

definition file_layout :: "dht_conf \<Rightarrow> xlator_t \<Rightarrow> dht_layout" where
  "file_layout conf sv =
     (let layout = (dht_layout_new (Some conf) 1)\<lparr>preset := True\<rparr>
      in layout\<lparr>lay_list := (lay_list layout)[0 := (lay_list layout ! 0)\<lparr>le_xlator := Some sv\<rparr>]\<rparr>)"

definition dht_layouts_init :: "dht_conf \<Rightarrow> dht_layout list" where
  "dht_layouts_init conf = map (file_layout conf) (subvolumes conf)"

definition dht_layout_for_subvol ::
  "dht_conf option \<Rightarrow> 'a list \<Rightarrow> xlator_t option \<Rightarrow> 'a option" where
  "dht_layout_for_subvol conf file_layouts subvol = (case conf of
     None \<Rightarrow> None
   | Some c \<Rightarrow>
       (case List.find (\<lambda>i. same_xl (Some (subvolumes c ! i)) subvol) [0..<length (subvolumes c)] of
          Some i \<Rightarrow> Some (file_layouts ! i) | None \<Rightarrow> None))"

subsection \<open>Disk format\<close>

text \<open>The buffer of five \<open>int\<close>s \<open>calloc\<close> returns, of which four are written.\<close>

definition dht_disk_layout_extract :: "dht_layout \<Rightarrow> nat \<Rightarrow> byte list" where
  "dht_disk_layout_extract layout pos =
     (let e = lay_list layout ! pos in
      st32 (hton32 (le_commit_hash e)) @ st32 (hton32 (word_of_int (lay_type layout))) @
      st32 (hton32 (le_start e)) @ st32 (hton32 (le_stop e)) @ st32 0)"

text \<open>\<open>GF_ASSERT\<close> only logs, and \<open>memcpy\<close> copies \<open>disk_layout_len\<close> bytes into 16: any
  other length leaves the array overrun or partly unset, which is \<open>None\<close>.\<close>

definition dht_disk_layout_merge ::
  "dht_layout \<Rightarrow> nat \<Rightarrow> byte list option \<Rightarrow> int \<Rightarrow> (int \<times> dht_layout) option" where
  "dht_disk_layout_merge layout pos disk_layout_raw disk_layout_len = (case disk_layout_raw of
     None \<Rightarrow> Some (-1, layout)
   | Some raw \<Rightarrow> if disk_layout_len \<noteq> 16 then None else do {
       d0 \<leftarrow> rd32 raw 0; d1 \<leftarrow> rd32 raw 4; d2 \<leftarrow> rd32 raw 8; d3 \<leftarrow> rd32 raw 12;
       let type = sint (ntoh32 d1);
       if type \<noteq> DHT_HASH_TYPE_DM_USER \<and> type \<noteq> DHT_HASH_TYPE_DM then Some (-1, layout)
       else do {
         let layout = (if type = DHT_HASH_TYPE_DM_USER then layout\<lparr>lay_type := type\<rparr> else layout);
         let e = lay_list layout ! pos;
         Some (0, layout\<lparr>lay_list := (lay_list layout)
           [pos := e\<lparr>le_commit_hash := ntoh32 d0, le_start := ntoh32 d2, le_stop := ntoh32 d3\<rparr>]\<rparr>) } })"

definition upd_entry :: "nat \<Rightarrow> (layout_entry \<Rightarrow> layout_entry) \<Rightarrow> dht_layout \<Rightarrow> dht_layout" where
  "upd_entry i f l = l\<lparr>lay_list := (lay_list l)[i := f (lay_list l ! i)]\<rparr>"

definition free_slot :: "dht_layout \<Rightarrow> nat option" where
  "free_slot layout = List.find (\<lambda>i. le_xlator (lay_list layout ! i) = None) [0..<lay_cnt layout]"

text \<open>\<open>None\<close> when every entry is taken and the reply is a success: the code then
  writes \<open>list[cnt]\<close>.\<close>

definition dht_layout_merge ::
  "dht_conf \<Rightarrow> dht_layout \<Rightarrow> xlator_t \<Rightarrow> int \<Rightarrow> int \<Rightarrow> dict_t option \<Rightarrow> (int \<times> dht_layout) option" where
  "dht_layout_merge conf layout subvol op_ret op_errno xattr =
     (let err = (if op_ret \<noteq> 0 then op_errno else -1);
          slot = free_slot layout;
          layout = (case slot of
            Some i \<Rightarrow> upd_entry i (\<lambda>e. e\<lparr>le_err := err, le_xlator := Some subvol\<rparr>) layout
          | None \<Rightarrow> layout)
      in if op_ret \<noteq> 0 then Some (0, layout)
      else (case slot of
        None \<Rightarrow> None
      | Some i \<Rightarrow>
          (let (ret, raw, len) = (case xattr of
                 None \<Rightarrow> (-1, None, 0)
               | Some x \<Rightarrow> (case dict_get_ptr_and_len xattr (Some (xattr_name conf)) of
                   (r, p, n) \<Rightarrow> (r, p, case n of Some n \<Rightarrow> n | None \<Rightarrow> 0)))
           in if ret \<noteq> 0 then Some (0, upd_entry i (\<lambda>e. e\<lparr>le_err := 0\<rparr>) layout)
              else do {
                (ret, layout) \<leftarrow> dht_disk_layout_merge layout i raw len;
                if ret \<noteq> 0 then Some (ret, layout)
                else do {
                  let h = le_commit_hash (lay_list layout ! i);
                  let layout = (if lay_commit_hash layout = 0 then layout\<lparr>lay_commit_hash := h\<rparr>
                                else if lay_commit_hash layout \<noteq> h
                                then layout\<lparr>lay_commit_hash := DHT_LAYOUT_HASH_INVALID\<rparr>
                                else layout);
                  Some (0, upd_entry i (\<lambda>e. e\<lparr>le_err := 0\<rparr>) layout) } })))"

subsection \<open>Sorting\<close>

definition dht_layout_entry_swap :: "dht_layout \<Rightarrow> nat \<Rightarrow> nat \<Rightarrow> dht_layout" where
  "dht_layout_entry_swap layout i j = layout\<lparr>lay_list := swap_nth i j (lay_list layout)\<rparr>"

definition set_range :: "u32 \<Rightarrow> u32 \<Rightarrow> layout_entry \<Rightarrow> layout_entry" where
  "set_range a b e = e\<lparr>le_start := a, le_stop := b\<rparr>"

definition dht_layout_range_swap :: "dht_layout \<Rightarrow> nat \<Rightarrow> nat \<Rightarrow> dht_layout" where
  "dht_layout_range_swap layout i j =
     (let a = lay_list layout ! i; b = lay_list layout ! j
      in upd_entry j (set_range (le_start a) (le_stop a))
           (upd_entry i (set_range (le_start b) (le_stop b)) layout))"

definition le_name :: "layout_entry \<Rightarrow> string" where
  "le_name e = (case le_xlator e of Some x \<Rightarrow> xl_name x | None \<Rightarrow> [])"

text \<open>\<open>strcmp\<close> compares bytes as \<open>unsigned char\<close>.\<close>

fun strcmp :: "string \<Rightarrow> string \<Rightarrow> int" where
  "strcmp [] [] = 0"
| "strcmp [] (c # cs) = - of_char c"
| "strcmp (c # cs) [] = of_char c"
| "strcmp (c # cs) (d # ds) = (if c = d then strcmp cs ds else of_char c - of_char d)"

definition dht_layout_entry_cmp_volname :: "dht_layout \<Rightarrow> nat \<Rightarrow> nat \<Rightarrow> int" where
  "dht_layout_entry_cmp_volname layout i j =
     strcmp (le_name (lay_list layout ! i)) (le_name (lay_list layout ! j))"

definition dht_is_subvol_in_layout :: "dht_layout \<Rightarrow> xlator_t \<Rightarrow> bool" where
  "dht_is_subvol_in_layout layout xl =
     (case List.find (\<lambda>e. le_name e = xl_name xl) (take (lay_cnt layout) (lay_list layout)) of
        Some e \<Rightarrow> le_start e \<noteq> le_stop e | None \<Rightarrow> False)"

definition dht_layout_entry_cmp :: "dht_layout \<Rightarrow> nat \<Rightarrow> nat \<Rightarrow> int" where
  "dht_layout_entry_cmp layout i j =
     (let a = lay_list layout ! i; b = lay_list layout ! j in
      if le_start b = 0 \<and> le_stop b = 0 then uint (le_stop a) - uint (le_stop b)
      else uint (le_start a) - uint (le_start b))"

definition dht_layout_sort :: "dht_layout \<Rightarrow> dht_layout" where
  "dht_layout_sort layout =
     fold (\<lambda>i layout.
       fold (\<lambda>j layout. if dht_layout_entry_cmp layout i j > 0
                        then dht_layout_entry_swap layout i j else layout)
         [i + 1..<lay_cnt layout] layout)
       [0..<lay_cnt layout - 1] layout"

definition dht_layout_sort_volname :: "dht_layout \<Rightarrow> dht_layout" where
  "dht_layout_sort_volname layout =
     fold (\<lambda>i layout.
       fold (\<lambda>j layout. if dht_layout_entry_cmp_volname layout i j > 0
                        then dht_layout_entry_swap layout i j else layout)
         [i + 1..<lay_cnt layout] layout)
       [0..<lay_cnt layout - 1] layout"

subsection \<open>Anomalies\<close>

record anomalies =
  holes :: u32
  overlaps :: u32
  missing :: u32
  down :: u32
  misc :: u32
  no_space :: u32
  prev_stop :: u32
  is_virgin :: bool

definition anomaly_step :: "layout_entry \<Rightarrow> anomalies \<Rightarrow> anomalies" where
  "anomaly_step e s =
     (if le_err e = -1 \<or> le_err e = ENOENT \<or> le_err e = ESTALE then s\<lparr>missing := missing s + 1\<rparr>
      else if le_err e = ENOTCONN then s\<lparr>down := down s + 1\<rparr>
      else if le_err e = ENOSPC then s\<lparr>no_space := no_space s + 1\<rparr>
      else if le_err e \<noteq> 0 then s\<lparr>misc := misc s + 1\<rparr>
      else if le_start e = le_stop e then s
      else
        (let s = s\<lparr>is_virgin := False\<rparr>;
             s = (if prev_stop s + 1 < le_start e then s\<lparr>holes := holes s + 1\<rparr> else s);
             s = (if prev_stop s + 1 > le_start e then s\<lparr>overlaps := overlaps s + 1\<rparr> else s)
         in s\<lparr>prev_stop := le_stop e\<rparr>))"

text \<open>Callers pass at least one entry; the loop starts just below the first.\<close>

definition last_stop :: "dht_layout \<Rightarrow> u32" where
  "last_stop layout = (case lay_list layout of e # _ \<Rightarrow> le_start e - 1 | [] \<Rightarrow> 0)"

definition dht_layout_anomalies :: "dht_layout \<Rightarrow> anomalies" where
  "dht_layout_anomalies layout =
     (let s = fold anomaly_step (take (lay_cnt layout) (lay_list layout))
                \<lparr>holes = 0, overlaps = 0, missing = 0, down = 0, misc = 0, no_space = 0,
                 prev_stop = last_stop layout, is_virgin = True\<rparr>
      in if last_stop layout - prev_stop s \<noteq> 0 \<or> is_virgin s then s\<lparr>holes := holes s + 1\<rparr> else s)"

definition missing_dir :: "layout_entry \<Rightarrow> bool" where
  "missing_dir e \<longleftrightarrow> le_err e = ENOENT \<or> le_err e = -1 \<and> le_start e = 0 \<and> le_stop e = 0"

definition dht_layout_missing_dirs :: "dht_layout option \<Rightarrow> int" where
  "dht_layout_missing_dirs layout = (case layout of
     None \<Rightarrow> 0
   | Some l \<Rightarrow> int (length (filter missing_dir (take (lay_cnt l) (lay_list l)))))"

definition dht_layout_normalize :: "dht_layout \<Rightarrow> int \<times> dht_layout" where
  "dht_layout_normalize layout =
     (let layout = dht_layout_sort layout;
          a = dht_layout_anomalies layout
      in if holes a \<noteq> 0 \<or> overlaps a \<noteq> 0 then (-1, layout)
         else (dht_layout_missing_dirs (Some layout), layout))"

definition dht_dir_has_layout :: "dict_t option \<Rightarrow> string \<Rightarrow> int" where
  "dht_dir_has_layout xattr name = fst (dict_get_ptr xattr (Some name))"

text \<open>\<open>None\<close> when the stored value is shorter than the 16 bytes copied.\<close>

definition dht_layout_dir_mismatch ::
  "dht_conf \<Rightarrow> dht_layout \<Rightarrow> xlator_t option \<Rightarrow> dict_t option \<Rightarrow> int option" where
  "dht_layout_dir_mismatch conf layout subvol xattr =
     (case List.find (\<lambda>i. same_xl (le_xlator (lay_list layout ! i)) subvol) [0..<lay_cnt layout] of
        None \<Rightarrow> Some 1
      | Some pos \<Rightarrow>
          let e = lay_list layout ! pos in
          (case xattr of
             None \<Rightarrow> Some (if le_err e = 0 then -1 else 0)
           | Some x \<Rightarrow>
               (case dict_get_ptr xattr (Some (xattr_name conf)) of (dict_ret, raw) \<Rightarrow>
                  if dict_ret < 0 then Some (if le_err e = 0 \<and> le_stop e \<noteq> 0 then -1 else 0)
                  else do {
                    raw \<leftarrow> raw;
                    d0 \<leftarrow> rd32 raw 0; d2 \<leftarrow> rd32 raw 8; d3 \<leftarrow> rd32 raw 12;
                    Some (if le_start e \<noteq> ntoh32 d2 \<or> le_stop e \<noteq> ntoh32 d3 \<or>
                             le_commit_hash e \<noteq> ntoh32 d0 then 1 else 0) })))"

subsection \<open>The two sorts\<close>

definition entry_gt :: "layout_entry \<Rightarrow> layout_entry \<Rightarrow> bool" where
  "entry_gt a b \<longleftrightarrow> (if le_start b = 0 \<and> le_stop b = 0 then le_stop a > le_stop b else le_start a > le_start b)"

definition name_gt :: "layout_entry \<Rightarrow> layout_entry \<Rightarrow> bool" where
  "name_gt a b \<longleftrightarrow> strcmp (le_name a) (le_name b) > 0"

definition range_ok :: "layout_entry \<Rightarrow> bool" where
  "range_ok e \<longleftrightarrow> le_start e \<le> le_stop e"

lemma sort_loop_list:
  assumes "\<And>l i j. (cmp l i j > (0::int)) = gt (lay_list l ! i) (lay_list l ! j)"
  shows "fold (\<lambda>i l. fold (\<lambda>j l. if cmp l i j > 0 then dht_layout_entry_swap l i j else l)
      [i + 1..<lay_cnt l] l) is l = l\<lparr>lay_list := fold (exchange_pass gt (lay_cnt l)) is (lay_list l)\<rparr>"
proof -
  have inner: "fold (\<lambda>j l. if cmp l i j > 0 then dht_layout_entry_swap l i j else l) js l =
      l\<lparr>lay_list := fold (\<lambda>j xs. if gt (xs ! i) (xs ! j) then swap_nth i j xs else xs) js (lay_list l)\<rparr>" for i js l
    by (induction js arbitrary: l) (simp_all add: assms dht_layout_entry_swap_def)
  show ?thesis
    by (induction "is" arbitrary: l) (simp_all add: inner exchange_pass_def)
qed

lemma dht_layout_sort_list:
  "dht_layout_sort l = l\<lparr>lay_list := exchange_sort entry_gt (lay_cnt l) (lay_list l)\<rparr>"
  unfolding dht_layout_sort_def exchange_sort_def
  by (rule sort_loop_list) (auto simp: dht_layout_entry_cmp_def entry_gt_def Let_def word_less_def)

lemma dht_layout_sort_volname_list:
  "dht_layout_sort_volname l = l\<lparr>lay_list := exchange_sort name_gt (lay_cnt l) (lay_list l)\<rparr>"
  unfolding dht_layout_sort_volname_def exchange_sort_def
  by (rule sort_loop_list) (simp add: dht_layout_entry_cmp_volname_def name_gt_def)

interpretation range_sort: exchange_order entry_gt range_ok
proof
  show "range_ok x \<Longrightarrow> range_ok y \<Longrightarrow> entry_gt x y \<Longrightarrow> \<not> entry_gt y x" for x y
    by (auto simp: entry_gt_def range_ok_def split: if_splits)
  show "range_ok x \<Longrightarrow> range_ok y \<Longrightarrow> range_ok z \<Longrightarrow> \<not> entry_gt x y \<Longrightarrow> \<not> entry_gt y z \<Longrightarrow> \<not> entry_gt x z" for x y z
    by (auto simp: entry_gt_def range_ok_def word_le_nat_alt word_less_nat_alt word_unat_eq_iff split: if_splits)
qed

lemma strcmp_antisym: "strcmp a b = - strcmp b a"
  by (induction a b rule: strcmp.induct) auto

lemma of_char_int_nonneg: "0 \<le> (of_char c :: int)"
proof -
  have "0 \<le> int (of_char c)" by simp
  then show ?thesis by (simp only: of_nat_of_char)
qed

lemma of_char_int_pos: "c \<noteq> CHR 0x00 \<Longrightarrow> 0 < (of_char c :: int)"
proof -
  assume "c \<noteq> CHR 0x00"
  then have "(of_char c :: nat) \<noteq> 0" using of_char_eq_iff [of c "CHR 0x00", where 'a = nat] by simp
  then have "0 < int (of_char c)" by simp
  then show ?thesis by (simp only: of_nat_of_char)
qed

lemma strcmp_le_trans:
  "no_nul a \<Longrightarrow> no_nul b \<Longrightarrow> no_nul c \<Longrightarrow> strcmp a b \<le> 0 \<Longrightarrow> strcmp b c \<le> 0 \<Longrightarrow> strcmp a c \<le> 0"
proof (induction a b arbitrary: c rule: strcmp.induct)
  case (4 x xs y ys)
  then show ?case
  proof (cases c)
    case Nil
    with 4 of_char_int_pos [of y] show ?thesis by (auto simp: no_nul_def)
  next
    case (Cons z zs)
    with 4 show ?thesis by (auto simp: no_nul_def split: if_splits)
  qed
next
  case (3 x xs)
  then show ?case using of_char_int_pos [of x] by (auto simp: no_nul_def)
next
  case (2 y ys)
  then show ?case by (cases c) (simp_all add: of_char_int_nonneg)
qed simp

lemma strcmp_0: "no_nul a \<Longrightarrow> no_nul b \<Longrightarrow> strcmp a b = 0 \<longleftrightarrow> a = b"
proof (induction a b rule: strcmp.induct)
  case (4 x xs y ys)
  have "(of_char x :: int) = of_char y \<longleftrightarrow> x = y" by simp
  with 4 show ?case by (auto simp: no_nul_def)
next
  case (2 c cs)
  then show ?case using of_char_int_pos [of c] by (auto simp: no_nul_def)
next
  case (3 c cs)
  then show ?case using of_char_int_pos [of c] by (auto simp: no_nul_def)
qed simp

interpretation name_sort: exchange_order name_gt "\<lambda>e. no_nul (le_name e)"
proof
  show "\<not> name_gt y x" if "name_gt x y" for x y
    using that strcmp_antisym [of "le_name x" "le_name y"] by (simp add: name_gt_def)
  show "\<not> name_gt x z" if "no_nul (le_name x)" "no_nul (le_name y)" "no_nul (le_name z)"
    "\<not> name_gt x y" "\<not> name_gt y z" for x y z
    using strcmp_le_trans [of "le_name x" "le_name y" "le_name z"] that by (simp add: name_gt_def)
qed

subsection \<open>What the anomaly scan decides\<close>

definition participates :: "layout_entry \<Rightarrow> bool" where
  "participates e \<longleftrightarrow> le_err e = 0 \<and> le_start e \<noteq> le_stop e"

definition participants :: "dht_layout \<Rightarrow> layout_entry list" where
  "participants l = filter participates (lay_list l)"

text \<open>Each range starts right after the previous one, around the ring.\<close>

fun tiles :: "u32 \<Rightarrow> layout_entry list \<Rightarrow> bool" where
  "tiles p [] \<longleftrightarrow> True"
| "tiles p (e # es) \<longleftrightarrow> p + 1 = le_start e \<and> tiles (le_stop e) es"

fun final_stop :: "u32 \<Rightarrow> layout_entry list \<Rightarrow> u32" where
  "final_stop p [] = p"
| "final_stop p (e # es) = final_stop (le_stop e) es"

text \<open>The numbers of holes and overlaps between neighbours.\<close>

fun gaps :: "u32 \<Rightarrow> layout_entry list \<Rightarrow> nat" where
  "gaps p [] = 0"
| "gaps p (e # es) = (if p + 1 < le_start e then 1 else 0) + gaps (le_stop e) es"

fun clashes :: "u32 \<Rightarrow> layout_entry list \<Rightarrow> nat" where
  "clashes p [] = 0"
| "clashes p (e # es) = (if p + 1 > le_start e then 1 else 0) + clashes (le_stop e) es"

lemma anomaly_scan:
  "holes (fold anomaly_step es s) = holes s + of_nat (gaps (prev_stop s) (filter participates es)) \<and>
   overlaps (fold anomaly_step es s) = overlaps s + of_nat (clashes (prev_stop s) (filter participates es)) \<and>
   prev_stop (fold anomaly_step es s) = final_stop (prev_stop s) (filter participates es) \<and>
   is_virgin (fold anomaly_step es s) = (is_virgin s \<and> filter participates es = [])"
proof (induction es arbitrary: s)
  case (Cons e es)
  then show ?case
    by (simp add: Cons anomaly_step_def participates_def Let_def)
qed simp

lemma gaps_clashes_0: "gaps p es = 0 \<and> clashes p es = 0 \<longleftrightarrow> tiles p es"
  by (induction es arbitrary: p) (auto simp: not_less)

lemma gaps_le: "gaps p es \<le> length es" "clashes p es \<le> length es"
  by (induction es arbitrary: p) (auto simp: le_SucI)

lemma of_nat_u32_0: "n < 2 ^ 32 \<Longrightarrow> (of_nat n :: u32) = 0 \<longleftrightarrow> n = 0"
  using nat_dvd_not_less [of n "2 ^ 32"] by (auto simp: word_of_nat_eq_0_iff)

lemma anomalies_0_iff:
  assumes "layout_ok l" "length (lay_list l) < 2 ^ 32 - 1"
  shows "holes (dht_layout_anomalies l) = 0 \<and> overlaps (dht_layout_anomalies l) = 0 \<longleftrightarrow>
    participants l \<noteq> [] \<and> tiles (last_stop l) (participants l) \<and> final_stop (last_stop l) (participants l) = last_stop l"
proof -
  let ?p = "last_stop l" and ?ps = "participants l"
  define s where "s = fold anomaly_step (lay_list l)
     \<lparr>holes = 0, overlaps = 0, missing = 0, down = 0, misc = 0, no_space = 0, prev_stop = ?p, is_virgin = True\<rparr>"
  have s: "holes s = of_nat (gaps ?p ?ps)" "overlaps s = of_nat (clashes ?p ?ps)"
    "prev_stop s = final_stop ?p ?ps" "is_virgin s \<longleftrightarrow> ?ps = []"
    using anomaly_scan [of "lay_list l" "\<lparr>holes = 0, overlaps = 0, missing = 0, down = 0, misc = 0, no_space = 0, prev_stop = ?p, is_virgin = True\<rparr>"]
    by (auto simp: s_def participants_def)
  have "length ?ps \<le> length (lay_list l)" by (simp add: participants_def)
  then have b: "Suc (gaps ?p ?ps) < 2 ^ 32" "clashes ?p ?ps < 2 ^ 32"
    using gaps_le [of ?p ?ps] assms(2) by linarith+
  have an: "dht_layout_anomalies l = (if ?p - prev_stop s \<noteq> 0 \<or> is_virgin s then s\<lparr>holes := holes s + 1\<rparr> else s)"
    using assms(1) by (simp add: dht_layout_anomalies_def layout_ok_def s_def Let_def)
  have h: "holes (dht_layout_anomalies l) = (if ?p \<noteq> final_stop ?p ?ps \<or> ?ps = [] then of_nat (Suc (gaps ?p ?ps)) else of_nat (gaps ?p ?ps))"
    "overlaps (dht_layout_anomalies l) = of_nat (clashes ?p ?ps)"
    by (auto simp: an s)
  have "holes (dht_layout_anomalies l) = 0 \<longleftrightarrow> (?p = final_stop ?p ?ps \<and> ?ps \<noteq> [] \<and> gaps ?p ?ps = 0)"
    unfolding h(1) using b of_nat_u32_0 [of "Suc (gaps ?p ?ps)"] of_nat_u32_0 [of "gaps ?p ?ps"] by simp
  moreover have "overlaps (dht_layout_anomalies l) = 0 \<longleftrightarrow> clashes ?p ?ps = 0"
    unfolding h(2) using b by (intro of_nat_u32_0) 
  ultimately show ?thesis using gaps_clashes_0 [of ?p ?ps] by auto
qed

definition starts_sorted :: "layout_entry list \<Rightarrow> bool" where
  "starts_sorted es \<longleftrightarrow> sorted_wrt (\<lambda>a b. le_start a \<le> le_start b) es"

lemma tiles_cover:
  "tiles p es \<Longrightarrow> es \<noteq> [] \<Longrightarrow> p + 1 \<le> h \<Longrightarrow> h \<le> final_stop p es \<Longrightarrow> \<exists>e\<in>set es. in_range h e"
proof (induction es arbitrary: p)
  case (Cons e es)
  show ?case
  proof (cases "h \<le> le_stop e")
    case True
    with Cons.prems show ?thesis by (auto simp: in_range_def)
  next
    case False
    then have lt: "le_stop e < h" by simp
    have "es \<noteq> []" using Cons.prems False by auto
    moreover have "le_stop e + 1 \<le> h" using lt by (rule inc_le)
    ultimately show ?thesis using Cons by auto
  qed
qed simp

lemma final_stop_last: "es \<noteq> [] \<Longrightarrow> final_stop p es = le_stop (last es)"
  by (induction es arbitrary: p) auto

lemma tiles_unique:
  assumes "tiles p es" "starts_sorted es" "\<forall>e\<in>set es. range_ok e \<and> \<not> (le_start e = 0 \<and> le_stop e = - 1)"
  shows "length (filter (in_range h) es) \<le> 1"
  using assms
proof (induction es arbitrary: p)
  case (Cons e es)
  have "filter (in_range h) es = []" if h: "in_range h e"
  proof (cases es)
    case (Cons f fs)
    have st: "le_stop e + 1 = le_start f" using Cons.prems Cons by simp
    have "le_start e \<le> le_start f" using Cons.prems Cons by (simp add: starts_sorted_def)
    have "le_stop e \<noteq> - 1"
    proof
      assume "le_stop e = - 1"
      with st have "le_start f = 0" by simp
      with \<open>le_start e \<le> le_start f\<close> have "le_start e = 0" by simp
      with \<open>le_stop e = - 1\<close> Cons.prems(3) show False by simp
    qed
    then have "le_stop e < le_start f" by (simp add: st [symmetric] word_less_succ)
    then have "le_stop e < le_start g" if "g \<in> set es" for g
      using Cons.prems(2) that Cons by (auto simp: starts_sorted_def)
    with h show ?thesis by (fastforce simp: filter_empty_conv in_range_def)
  qed simp
  moreover have "length (filter (in_range h) es) \<le> 1"
    using Cons by (auto simp: starts_sorted_def)
  ultimately show ?case by auto
qed simp

lemma ordered_participants:
  assumes "ordered_by entry_gt es" "\<forall>e\<in>set es. range_ok e"
  shows "starts_sorted (filter participates es)"
proof -
  have "sorted_wrt (\<lambda>a b. \<not> entry_gt a b) es"
    using assms(1) by (simp add: sorted_wrt_iff_nth_less ordered_by_def)
  then have "sorted_wrt (\<lambda>a b. \<not> entry_gt a b) (filter participates es)" by (rule sorted_wrt_filter)
  then show ?thesis unfolding starts_sorted_def
  proof (rule sorted_wrt_mono_rel [rotated])
    fix a b
    assume "a \<in> set (filter participates es)" "b \<in> set (filter participates es)" "\<not> entry_gt a b"
    then show "le_start a \<le> le_start b"
      by (auto simp: entry_gt_def participates_def not_less split: if_splits)
  qed
qed

lemma dht_layout_sort_props:
  assumes "layout_ok l" "\<forall>e\<in>set (lay_list l). range_ok e"
  shows "mset (lay_list (dht_layout_sort l)) = mset (lay_list l)"
    "ordered_by entry_gt (lay_list (dht_layout_sort l))" "layout_ok (dht_layout_sort l)"
    "lay_type (dht_layout_sort l) = lay_type l"
proof -
  show m: "mset (lay_list (dht_layout_sort l)) = mset (lay_list l)"
    using range_sort.exchange_sort_mset [OF assms(2)] assms(1) by (simp add: dht_layout_sort_list layout_ok_def)
  show "ordered_by entry_gt (lay_list (dht_layout_sort l))"
    using range_sort.exchange_sort_ordered [OF assms(2)] assms(1) by (simp add: dht_layout_sort_list layout_ok_def)
  show "layout_ok (dht_layout_sort l)"
    using mset_eq_length [OF m] assms(1) by (simp add: dht_layout_sort_list layout_ok_def)
  show "lay_type (dht_layout_sort l) = lay_type l" by (simp add: dht_layout_sort_list)
qed

text \<open>In a sorted layout whose scan finds nothing, the first range starts at 0.\<close>

lemma ring_closed:
  assumes "ordered_by entry_gt es" "\<forall>e\<in>set es. range_ok e" "es = e0 # es'"
    and ps: "ps = filter participates es" "ps \<noteq> []" "tiles (le_start e0 - 1) ps"
      "final_stop (le_start e0 - 1) ps = le_start e0 - 1"
  shows "le_start e0 = 0"
proof (rule ccontr)
  assume "le_start e0 \<noteq> 0"
  then have lt: "le_start e0 - 1 < le_start e0" by (metis diff_add_cancel word_less_succ diff_0 word_succ_nonzero add.left_neutral)
  have "le_start (hd ps) = le_start e0" using ps(2,3) by (cases ps) auto
  have st: "starts_sorted ps" using ordered_participants [OF assms(1,2)] ps by simp
  have "le_start (hd ps) \<le> le_start (last ps)"
    using st ps(2) by (cases ps) (auto simp: starts_sorted_def)
  moreover have "last ps \<in> set es" using ps by (metis filter_is_subset last_in_set subset_code(1))
  then have "le_start (last ps) \<le> le_stop (last ps)" using assms(2) by (auto simp: range_ok_def)
  moreover have "le_stop (last ps) = le_start e0 - 1" using ps final_stop_last by metis
  ultimately show False using lt \<open>le_start (hd ps) = le_start e0\<close> by (metis leD order_trans)
qed

lemma sorted_scan_clean:
  assumes ok: "layout_ok l" "\<forall>e\<in>set (lay_list l). range_ok e" "lay_list l \<noteq> []" "length (lay_list l) < 2 ^ 32 - 1"
    and ord: "ordered_by entry_gt (lay_list l)"
    and clean: "holes (dht_layout_anomalies l) = 0" "overlaps (dht_layout_anomalies l) = 0"
  shows "\<exists>e\<in>set (participants l). in_range h e"
    and "(\<forall>e\<in>set (participants l). \<not> (le_start e = 0 \<and> le_stop e = - 1)) \<Longrightarrow>
      length (filter (in_range h) (participants l)) = 1"
proof -
  let ?ps = "participants l"
  obtain e0 es' where es: "lay_list l = e0 # es'" using ok(3) by (cases "lay_list l") auto
  have p: "last_stop l = le_start e0 - 1" by (simp add: last_stop_def es)
  have t: "?ps \<noteq> []" "tiles (last_stop l) ?ps" "final_stop (last_stop l) ?ps = last_stop l"
    using anomalies_0_iff [OF ok(1,4)] clean by auto
  have 0: "le_start e0 = 0"
    using ring_closed [OF ord ok(2) es] t p by (simp add: participants_def)
  then show c: "\<exists>e\<in>set ?ps. in_range h e"
    using tiles_cover [OF t(2,1), of h] t(3) p by simp
  assume "\<forall>e\<in>set ?ps. \<not> (le_start e = 0 \<and> le_stop e = - 1)"
  then have "length (filter (in_range h) ?ps) \<le> 1"
    using tiles_unique [OF t(2)] ordered_participants [OF ord ok(2)] ok(2) by (auto simp: participants_def)
  moreover have "filter (in_range h) ?ps \<noteq> []" using c by (auto simp: filter_empty_conv)
  ultimately show "length (filter (in_range h) ?ps) = 1" by (cases "filter (in_range h) ?ps") auto
qed

lemma participants_sub: "set (participants l) \<subseteq> set (lay_list l)"
  by (auto simp: participants_def)

lemma gf_dm_hashfn_name: "\<exists>h. dht_hash_compute_internal t name = Some h" if "t = 0 \<or> t = 1"
  using gf_dm_hashfn_Some [of "length name" "bytes_of name"] that by (auto simp: dht_hash_compute_internal_def)

lemma dht_hash_compute_total:
  assumes "t = 0 \<or> t = 1"
  shows "\<exists>h. dht_hash_compute conf t name = Some h"
  unfolding dht_hash_compute_def Let_def using gf_dm_hashfn_name [OF assms] by (simp split: prod.splits)

lemma dht_layout_search_finds:
  assumes "layout_ok l" "dht_hash_compute conf (lay_type l) name = Some h"
    "\<exists>e\<in>set (lay_list l). in_range h e" "\<forall>e\<in>set (lay_list l). le_xlator e \<noteq> None"
  shows "\<exists>x. dht_layout_search conf l name = Some x"
proof -
  obtain e where e: "List.find (in_range h) (lay_list l) = Some e"
    using assms(3) by (cases "List.find (in_range h) (lay_list l)") (auto simp: find_None_iff)
  then have "e \<in> set (lay_list l)" by (force simp: find_Some_iff)
  with e assms show ?thesis by (auto simp: dht_layout_search_def layout_ok_def)
qed

subsection \<open>Properties of normalization\<close>



definition sample_xl :: "nat \<Rightarrow> xlator_t" where
  "sample_xl n = \<lparr>xl_addr = n, xl_name = ''brick''\<rparr>"

definition sample_entry :: "nat \<Rightarrow> u32 \<Rightarrow> u32 \<Rightarrow> layout_entry" where
  "sample_entry n a b = \<lparr>le_err = 0, le_start = a, le_stop = b, le_commit_hash = 5, le_xlator = Some (sample_xl n)\<rparr>"

definition sample_layout :: "layout_entry list \<Rightarrow> dht_layout" where
  "sample_layout es = (dht_layout_new None (length es))\<lparr>lay_list := es\<rparr>"

definition half_layout :: dht_layout where
  "half_layout = sample_layout [sample_entry 1 0x80000000 0xffffffff, sample_entry 2 0 0x7fffffff]"

lemmas sample_simps = half_layout_def sample_layout_def sample_entry_def sample_xl_def dht_layout_new_def
  layout_ok_def range_ok_def

lemma half_layout_normalize: "dht_layout_normalize half_layout =
    (0, sample_layout [sample_entry 2 0 0x7fffffff, sample_entry 1 0x80000000 0xffffffff])"
  by (simp add: sample_simps dht_layout_normalize_def dht_layout_sort_def dht_layout_entry_cmp_def
      dht_layout_entry_swap_def swap_nth_def dht_layout_anomalies_def anomaly_step_def last_stop_def
      dht_layout_missing_dirs_def missing_dir_def Let_def)


subsection \<open>Disk format\<close>

lemma rd32_skip:
  "rd32 (st32 a @ xs) 4 = rd32 xs 0" "rd32 (st32 a @ st32 b @ xs) 8 = rd32 xs 0"
  "rd32 (st32 a @ st32 b @ st32 c @ xs) 12 = rd32 xs 0"
  using rd32_append [of "st32 a" xs 0] rd32_append [of "st32 a @ st32 b" xs 0]
    rd32_append [of "st32 a @ st32 b @ st32 c" xs 0] by simp_all

lemma rd32_extract:
  "rd32 (dht_disk_layout_extract l p) 0 = Some (hton32 (le_commit_hash (lay_list l ! p)))"
  "rd32 (dht_disk_layout_extract l p) 4 = Some (hton32 (word_of_int (lay_type l)))"
  "rd32 (dht_disk_layout_extract l p) 8 = Some (hton32 (le_start (lay_list l ! p)))"
  "rd32 (dht_disk_layout_extract l p) 12 = Some (hton32 (le_stop (lay_list l ! p)))"
  by (simp_all add: dht_disk_layout_extract_def Let_def rd32_skip)

lemma dht_disk_layout_merge_words:
  assumes "rd32 raw 0 = Some (hton32 c)" "rd32 raw 4 = Some (hton32 (word_of_int t))"
    "rd32 raw 8 = Some (hton32 a)" "rd32 raw 12 = Some (hton32 b)" "t = 0 \<or> t = 1"
  shows "dht_disk_layout_merge l pos (Some raw) 16 =
    Some (0, upd_entry pos (\<lambda>e. e\<lparr>le_commit_hash := c, le_start := a, le_stop := b\<rparr>)
      (if t = 1 then l\<lparr>lay_type := 1\<rparr> else l))"
  using assms by (auto simp: dht_disk_layout_merge_def Let_def upd_entry_def)

text \<open>C22. What \<open>dht_disk_layout_extract\<close> writes for an entry, \<open>dht_disk_layout_merge\<close>
  reads back: the range and commit hash of that entry arrive at the target
  position, every other entry is untouched, and a user-set type is adopted.\<close>

theorem disk_layout_roundtrip:
  assumes "lay_type l = DHT_HASH_TYPE_DM \<or> lay_type l = DHT_HASH_TYPE_DM_USER" "j < length (lay_list l')"
  shows "\<exists>m. dht_disk_layout_merge l' j (Some (dht_disk_layout_extract l i)) 16 = Some (0, m) \<and>
    le_start (lay_list m ! j) = le_start (lay_list l ! i) \<and> le_stop (lay_list m ! j) = le_stop (lay_list l ! i) \<and>
    le_commit_hash (lay_list m ! j) = le_commit_hash (lay_list l ! i) \<and>
    le_xlator (lay_list m ! j) = le_xlator (lay_list l' ! j) \<and>
    (\<forall>k. k \<noteq> j \<longrightarrow> lay_list m ! k = lay_list l' ! k) \<and>
    lay_type m = (if lay_type l = DHT_HASH_TYPE_DM_USER then DHT_HASH_TYPE_DM_USER else lay_type l')"
  using dht_disk_layout_merge_words [OF rd32_extract assms(1)] assms(2) by (simp add: upd_entry_def)

theorem disk_layout_roundtrip_witness:
  "\<exists>m. dht_disk_layout_merge (dht_layout_new None 2) 1 (Some (dht_disk_layout_extract half_layout 0)) 16 = Some (0, m) \<and>
    le_start (lay_list m ! 1) = 0x80000000 \<and> le_stop (lay_list m ! 1) = 0xffffffff \<and> lay_list m ! 0 = zero_entry"
  using disk_layout_roundtrip [of half_layout 1 "dht_layout_new None 2" 0]
  by (auto simp: sample_simps)

lemma dict_get_ptr_map:
  "dict_ok d \<Longrightarrow> dict_map d k = Some v \<Longrightarrow> dict_get_ptr (Some d) (Some k) = (0, data_data v)"
  by (simp add: dict_get_ptr_def dict_get_via_def dict_get_with_ref_map u_data_to_ptr_def)

text \<open>C24. Comparing the in-memory entry of a subvolume with the attribute a brick
  stored reports a mismatch exactly when range or commit hash differ.\<close>

theorem dir_mismatch_iff:
  assumes "dict_ok d" "dict_set_bin (Some d) (xattr_name conf) (Some (dht_disk_layout_extract l i)) 16 = (0, Some x)"
    and "List.find (\<lambda>k. same_xl (le_xlator (lay_list m ! k)) sv) [0..<lay_cnt m] = Some j"
  shows "dht_layout_dir_mismatch conf m sv (Some x) =
    Some (if le_start (lay_list m ! j) = le_start (lay_list l ! i) \<and> le_stop (lay_list m ! j) = le_stop (lay_list l ! i) \<and>
             le_commit_hash (lay_list m ! j) = le_commit_hash (lay_list l ! i) then 0 else 1)"
proof -
  have x: "dict_ok x" "\<exists>v. dict_map x (xattr_name conf) = Some v \<and> data_data v = Some (dht_disk_layout_extract l i)"
    using assms(1,2) by (auto simp: dict_set_bin_def dict_set_via_def bin_to_data_def dict_set_def dict_ok_set dict_map_set)
  then have "dict_get_ptr (Some x) (Some (xattr_name conf)) = (0, Some (dht_disk_layout_extract l i))"
    using dict_get_ptr_map by fastforce
  then show ?thesis
    using assms(3) by (simp add: dht_layout_dir_mismatch_def rd32_extract Let_def)
qed

definition sample_conf :: dht_conf where
  "sample_conf = \<lparr>subvolumes = [sample_xl 1, sample_xl 2], dir_spread_cnt = 0, conf_gen = 0,
     xattr_name = ''trusted.glusterfs.dht'', extra_regex_valid = False, extra_regex = (\<lambda>_. None),
     rsync_regex_valid = False, rsync_regex = (\<lambda>_. None), randomize_by_gfid = False,
     do_weighting = False, du_chunks = None, decommissioned_bricks = [None, None],
     decommission_subvols_cnt = 0\<rparr>"

theorem dir_mismatch_iff_witness:
  "dht_layout_dir_mismatch sample_conf half_layout (Some (sample_xl 2))
     (snd (dict_set_bin (Some dict_new) (xattr_name sample_conf) (Some (dht_disk_layout_extract half_layout 1)) 16)) = Some 0"
proof -
  obtain x where x: "dict_set_bin (Some dict_new) (xattr_name sample_conf) (Some (dht_disk_layout_extract half_layout 1)) 16 = (0, Some x)"
    by (simp add: dict_set_bin_def dict_set_via_def bin_to_data_def dict_set_def)
  show ?thesis
    using dir_mismatch_iff [OF _ x, of half_layout "Some (sample_xl 2)" 1] x
    by (simp add: same_xl_def) (simp add: sample_simps)
qed

text \<open>The scan does not see that two subvolumes both claim the whole space: the
  successor of \<open>0xffffffff\<close> wraps to 0.\<close>

lemma duplicate_full_ranges_unseen:
  "holes (dht_layout_anomalies (sample_layout [sample_entry 1 0 0xffffffff, sample_entry 2 0 0xffffffff])) = 0 \<and>
   overlaps (dht_layout_anomalies (sample_layout [sample_entry 1 0 0xffffffff, sample_entry 2 0 0xffffffff])) = 0"
  by (simp add: sample_simps dht_layout_anomalies_def anomaly_step_def last_stop_def Let_def)

subsection \<open>Assembling a layout from the replies\<close>

text \<open>A reply to a lookup of a directory: the subvolume, \<open>op_ret\<close>, \<open>op_errno\<close> and the attributes.\<close>

type_synonym dht_reply = "xlator_t \<times> int \<times> int \<times> dict_t option"

text \<open>The callbacks of the lookup merge each reply, failed or not, under the lock of the frame; a result
  other than 0 is only logged.\<close>

fun merge_replies :: "dht_conf \<Rightarrow> dht_reply list \<Rightarrow> dht_layout \<Rightarrow> dht_layout option" where
  "merge_replies conf [] l = Some l"
| "merge_replies conf ((sv, op_ret, op_errno, x) # rs) l = do {
     (ret, l) \<leftarrow> dht_layout_merge conf l sv op_ret op_errno x;
     merge_replies conf rs l }"

text \<open>What a reply says: an error, no stored layout, or 16 bytes with the commit hash, the type and the range in network byte
  order.\<close>

datatype reply_kind = Failed int | No_layout | Disk u32 u32 u32 u32

definition reply_is :: "dht_conf \<Rightarrow> dht_reply \<Rightarrow> reply_kind \<Rightarrow> bool" where
  "reply_is conf r k \<longleftrightarrow> (case r of (sv, op_ret, op_errno, x) \<Rightarrow> (case k of
     Failed e \<Rightarrow> op_ret \<noteq> 0 \<and> e = op_errno
   | No_layout \<Rightarrow> op_ret = 0 \<and> (x = None \<or> fst (dict_get_ptr_and_len x (Some (xattr_name conf))) \<noteq> 0)
   | Disk c t a b \<Rightarrow> op_ret = 0 \<and> x \<noteq> None \<and> (\<exists>raw. dict_get_ptr_and_len x (Some (xattr_name conf)) = (0, Some raw, Some 16) \<and>
       rd32 raw 0 = Some (hton32 c) \<and> rd32 raw 4 = Some (hton32 t) \<and> rd32 raw 8 = Some (hton32 a) \<and> rd32 raw 12 = Some (hton32 b))))"

definition known_type :: "u32 \<Rightarrow> bool" where
  "known_type t \<longleftrightarrow> t = 0 \<or> t = 1"

definition filled :: "xlator_t \<Rightarrow> int \<Rightarrow> u32 \<Rightarrow> u32 \<Rightarrow> u32 \<Rightarrow> layout_entry" where
  "filled sv err c a b = \<lparr>le_err = err, le_start = a, le_stop = b, le_commit_hash = c, le_xlator = Some sv\<rparr>"

text \<open>The entry of a reply: the error of a failed one, an empty range where nothing is stored, what is
  stored, and $-1$ with an empty range for a type the code does not know.\<close>

definition reply_entry :: "xlator_t \<Rightarrow> reply_kind \<Rightarrow> layout_entry" where
  "reply_entry sv k = (case k of
     Failed e \<Rightarrow> filled sv e 0 0 0
   | No_layout \<Rightarrow> filled sv 0 0 0 0
   | Disk c t a b \<Rightarrow> if known_type t then filled sv 0 c a b else filled sv (-1) 0 0 0)"

definition stored_hashes :: "reply_kind list \<Rightarrow> u32 list" where
  "stored_hashes ks = concat (map (\<lambda>k. case k of Disk c t a b \<Rightarrow> if known_type t then [c] else [] | _ \<Rightarrow> []) ks)"

definition user_set :: "reply_kind \<Rightarrow> bool" where
  "user_set k \<longleftrightarrow> (\<exists>c a b. k = Disk c 1 a b)"

definition combine_hash :: "u32 \<Rightarrow> u32 \<Rightarrow> u32" where
  "combine_hash h c = (if h = 0 then c else if h \<noteq> c then DHT_LAYOUT_HASH_INVALID else h)"

lemma free_slot_append:
  assumes "layout_ok l" "lay_list l = pre @ replicate (Suc m) zero_entry" "\<forall>e\<in>set pre. le_xlator e \<noteq> None"
  shows "free_slot l = Some (length pre)"
proof -
  have "lay_cnt l = length pre + Suc m" using assms by (simp add: layout_ok_def)
  then show ?thesis
    using assms(2,3) by (auto simp: free_slot_def find_Some_iff nth_append zero_entry_def all_set_conv_all_nth
        intro!: exI [of _ "length pre"])
qed

lemma dht_disk_layout_merge_unknown:
  assumes "rd32 raw 0 = Some (hton32 c)" "rd32 raw 4 = Some (hton32 t)" "rd32 raw 8 = Some (hton32 a)" "rd32 raw 12 = Some (hton32 b)"
    "\<not> known_type t"
  shows "dht_disk_layout_merge l pos (Some raw) 16 = Some (-1, l)"
proof -
  have "sint t \<noteq> sint (0 :: u32)" "sint t \<noteq> sint (1 :: u32)"
    using assms(5) signed_word_eqI unfolding known_type_def by blast+
  then show ?thesis using assms(1-4) by (simp add: dht_disk_layout_merge_def Let_def)
qed

lemma dht_layout_merge_step:
  assumes ok: "layout_ok l" "lay_list l = pre @ replicate (Suc m) zero_entry" "\<forall>e\<in>set pre. le_xlator e \<noteq> None"
    and r: "reply_is conf (sv, op_ret, op_errno, x) k"
  shows "\<exists>ret. dht_layout_merge conf l sv op_ret op_errno x =
    Some (ret, l\<lparr>lay_list := (pre @ [reply_entry sv k]) @ replicate m zero_entry,
      lay_type := (if user_set k then DHT_HASH_TYPE_DM_USER else lay_type l),
      lay_commit_hash := fold (\<lambda>c h. combine_hash h c) (stored_hashes [k]) (lay_commit_hash l)\<rparr>)"
proof (cases k)
  case (Failed e)
  then show ?thesis
    using r ok(2) unfolding dht_layout_merge_def free_slot_append [OF ok] Let_def
    by (simp add: reply_is_def upd_entry_def filled_def reply_entry_def user_set_def stored_hashes_def zero_entry_def nth_append list_update_append)
next
  case No_layout
  then show ?thesis
    using r ok(2) unfolding dht_layout_merge_def free_slot_append [OF ok] Let_def
    by (auto simp: reply_is_def upd_entry_def filled_def reply_entry_def user_set_def stored_hashes_def zero_entry_def nth_append
        list_update_append split_beta split: option.splits)
next
  case (Disk c t a b)
  then obtain raw y where raw: "op_ret = 0" "x = Some y" "dict_get_ptr_and_len (Some y) (Some (xattr_name conf)) = (0, Some raw, Some 16)"
    and w: "rd32 raw 0 = Some (hton32 c)" "rd32 raw 4 = Some (hton32 t)" "rd32 raw 8 = Some (hton32 a)" "rd32 raw 12 = Some (hton32 b)"
    using r by (auto simp: reply_is_def)
  show ?thesis
  proof (cases "known_type t")
    case True
    then consider "t = 0" | "t = 1" by (auto simp: known_type_def)
    then show ?thesis
      unfolding dht_layout_merge_def free_slot_append [OF ok] Let_def
      using ok(2) True dht_disk_layout_merge_words [of raw c 0 a b] dht_disk_layout_merge_words [of raw c 1 a b] w
      by cases (simp_all add: raw Disk upd_entry_def filled_def reply_entry_def user_set_def stored_hashes_def combine_hash_def
          zero_entry_def nth_append list_update_append)
  next
    case False
    then show ?thesis
      unfolding dht_layout_merge_def free_slot_append [OF ok] Let_def
      using ok(2) dht_disk_layout_merge_unknown [OF w False]
      by (auto simp: raw Disk upd_entry_def filled_def reply_entry_def user_set_def stored_hashes_def known_type_def zero_entry_def
          nth_append list_update_append)
  qed
qed

lemma stored_hashes_Cons: "stored_hashes (k # ks) = stored_hashes [k] @ stored_hashes ks"
  by (simp add: stored_hashes_def)

lemma merge_replies_gen:
  assumes "list_all2 (reply_is conf) rs ks"
    "layout_ok l" "lay_list l = pre @ replicate (length rs) zero_entry" "\<forall>e\<in>set pre. le_xlator e \<noteq> None"
  shows "merge_replies conf rs l = Some (l\<lparr>lay_list := pre @ map2 (\<lambda>r k. reply_entry (fst r) k) rs ks,
     lay_type := (if \<exists>k\<in>set ks. user_set k then DHT_HASH_TYPE_DM_USER else lay_type l),
     lay_commit_hash := fold (\<lambda>c h. combine_hash h c) (stored_hashes ks) (lay_commit_hash l)\<rparr>)"
  using assms
proof (induction rs ks arbitrary: l pre rule: list_all2_induct)
  case Nil
  then show ?case by (simp add: stored_hashes_def)
next
  case (Cons r rs k ks)
  obtain sv op_ret op_errno x where r: "r = (sv, op_ret, op_errno, x)" by (cases r) auto
  let ?l = "l\<lparr>lay_list := (pre @ [reply_entry sv k]) @ replicate (length rs) zero_entry,
      lay_type := (if user_set k then DHT_HASH_TYPE_DM_USER else lay_type l),
      lay_commit_hash := fold (\<lambda>c h. combine_hash h c) (stored_hashes [k]) (lay_commit_hash l)\<rparr>"
  obtain ret where "dht_layout_merge conf l sv op_ret op_errno x = Some (ret, ?l)"
    using dht_layout_merge_step [of l pre "length rs" conf sv op_ret op_errno x k] Cons.prems Cons.hyps r by auto
  moreover have "layout_ok ?l" using Cons.prems by (simp add: layout_ok_def)
  moreover have "le_xlator (reply_entry sv k) \<noteq> None" by (simp add: reply_entry_def filled_def split: reply_kind.splits)
  ultimately show ?case
    using Cons.IH [of ?l "pre @ [reply_entry sv k]"] Cons.prems r by (auto simp: stored_hashes_Cons [of k ks])
qed

lemma combine_hash_fold:
  "h \<noteq> 0 \<Longrightarrow> fold (\<lambda>c h. combine_hash h c) cs h = (if \<forall>c\<in>set cs. c = h then h else DHT_LAYOUT_HASH_INVALID)"
proof (induction cs arbitrary: h)
  case (Cons c cs)
  then show ?case
    by (cases "c = h") (auto simp: combine_hash_def)
qed simp

text \<open>The first stored hash that is not 0 decides.\<close>

definition common_hash :: "u32 list \<Rightarrow> u32" where
  "common_hash hs = (case dropWhile (\<lambda>c. c = 0) hs of
     [] \<Rightarrow> 0 | h # hs \<Rightarrow> if \<forall>c\<in>set hs. c = h then h else DHT_LAYOUT_HASH_INVALID)"

lemma combine_hash_common: "fold (\<lambda>c h. combine_hash h c) hs 0 = common_hash hs"
proof (induction hs)
  case (Cons c hs)
  show ?case
  proof (cases "c = 0")
    case True
    then show ?thesis using Cons.IH by (simp add: combine_hash_def common_hash_def)
  next
    case False
    then show ?thesis using combine_hash_fold [OF False, of hs] by (simp add: combine_hash_def [of 0] common_hash_def)
  qed
qed (simp add: common_hash_def)

text \<open>C23. Merging one reply per entry of a new layout, in any order and whether the replies are failures,
  successes without a stored layout, or successes with one, fills every entry in the order of the replies and
  within the array: with the error, an empty range, or the stored range and commit hash; a stored type the code does not know gives the
  error $-1$.  The layout is user-set when a stored one is, and its commit hash is the common one of
  the stored layouts of a known type, from the first that is not 0 on, or the invalid hash when two of them differ.  A
  stored layout has 16 bytes.\<close>

theorem merge_replies_fills:
  assumes "list_all2 (reply_is conf) rs ks"
  shows "\<exists>m. merge_replies conf rs (dht_layout_new (Some conf) (length rs)) = Some m \<and>
    lay_list m = map2 (\<lambda>r k. reply_entry (fst r) k) rs ks \<and>
    lay_type m = (if \<exists>k\<in>set ks. user_set k then DHT_HASH_TYPE_DM_USER else DHT_HASH_TYPE_DM) \<and>
    lay_commit_hash m = common_hash (stored_hashes ks)"
proof -
  let ?l = "dht_layout_new (Some conf) (length rs)"
  have l: "layout_ok ?l" "lay_list ?l = [] @ replicate (length rs) zero_entry" "lay_commit_hash ?l = 0" "lay_type ?l = 0"
    by (simp_all add: dht_layout_new_def layout_ok_def)
  show ?thesis
    using merge_replies_gen [OF assms l(1,2)] l(3,4) by (simp add: combine_hash_common)
qed

definition brick_xattr :: "dht_conf \<Rightarrow> dht_layout \<Rightarrow> nat \<Rightarrow> dict_t" where
  "brick_xattr conf l i = u_dict_set dict_new (xattr_name conf)
     (get_new_data\<lparr>data_len := 16, data_data := Some (dht_disk_layout_extract l i)\<rparr>) True"

lemma reply_is_brick:
  "lay_type l = DHT_HASH_TYPE_DM \<Longrightarrow>
   reply_is conf (sv, 0, e, Some (brick_xattr conf l i))
     (Disk (le_commit_hash (lay_list l ! i)) 0 (le_start (lay_list l ! i)) (le_stop (lay_list l ! i)))"
  by (simp add: reply_is_def brick_xattr_def dict_get_ptr_and_len_def dict_get_with_ref_map dict_ok_set
      dict_map_set u_data_to_ptr_def rd32_extract)

text \<open>Two bricks with a layout, one that is down and one that has no directory yet.\<close>

theorem merge_replies_fills_witness:
  "\<exists>m. merge_replies sample_conf [(sample_xl 1, 0, 0, Some (brick_xattr sample_conf half_layout 0)), (sample_xl 3, -1, 107, None),
       (sample_xl 2, 0, 0, Some (brick_xattr sample_conf half_layout 1)), (sample_xl 4, 0, 0, None)]
      (dht_layout_new (Some sample_conf) 4) = Some m \<and>
    lay_list m = [filled (sample_xl 1) 0 5 0x80000000 0xffffffff, filled (sample_xl 3) 107 0 0 0,
      filled (sample_xl 2) 0 5 0 0x7fffffff, filled (sample_xl 4) 0 0 0 0] \<and> lay_commit_hash m = 5"
proof -
  have e: "lay_list half_layout ! 0 = sample_entry 1 0x80000000 0xffffffff"
    "lay_list half_layout ! 1 = sample_entry 2 0 0x7fffffff" "lay_type half_layout = 0"
    by (simp_all add: half_layout_def sample_layout_def dht_layout_new_def)
  let ?rs = "[(sample_xl 1, 0, 0, Some (brick_xattr sample_conf half_layout 0)), (sample_xl 3, -1, 107, None),
       (sample_xl 2, 0, 0, Some (brick_xattr sample_conf half_layout 1)), (sample_xl 4, 0, 0, None)] :: dht_reply list"
  have "list_all2 (reply_is sample_conf) ?rs [Disk 5 0 0x80000000 0xffffffff, Failed 107, Disk 5 0 0 0x7fffffff, No_layout]"
    using reply_is_brick [OF e(3), of sample_conf "sample_xl 1" 0 0] reply_is_brick [OF e(3), of sample_conf "sample_xl 2" 0 1]
    unfolding e(1,2) by (simp add: sample_entry_def) (simp add: reply_is_def)
  note fills = merge_replies_fills [OF this]
  have "length ?rs = 4" by simp
  with fills obtain m where "merge_replies sample_conf ?rs (dht_layout_new (Some sample_conf) 4) = Some m"
    "lay_list m = map2 (\<lambda>r k. reply_entry (fst r) k) ?rs [Disk 5 0 0x80000000 0xffffffff, Failed 107, Disk 5 0 0 0x7fffffff, No_layout]"
    "lay_commit_hash m = common_hash (stored_hashes [Disk 5 0 0x80000000 0xffffffff, Failed 107, Disk 5 0 0 0x7fffffff, No_layout])"
    by metis
  then show ?thesis
    by (intro exI [of _ m]) (simp del: merge_replies.simps add: reply_entry_def known_type_def stored_hashes_def common_hash_def)
qed

end
