(* ===== verification/Dht_Layout_Ref.thy ===== *)
theory Dht_Layout_Ref
  imports Dht_Layout
begin

text \<open>
  Reference-counted layouts (\<open>dht_layout_get\<close>, \<open>dht_layout_set\<close>, \<open>dht_layout_ref\<close>,
  \<open>dht_layout_unref\<close>, \<open>dht_layout_preset\<close> of \<open>cluster/dht/src/dht-layout.c\<close> and the
  inode context accessors of \<open>dht-helper.c\<close> and \<open>dht-common.c\<close>).  The heap maps the address of a
  layout to its contents and a freed address to nothing; touching a freed
  layout makes an operation \<open>None\<close>.  The sections under \<open>layout_lock\<close> are atomic
  steps; what \<open>dht_layout_set\<close> and \<open>dht_layout_unref\<close> do after the unlock are steps of their own.
  Counts are integers: they are exact, so \<open>int\<close> overflows only with $2^{31}$ references.

  The step relation lets any number of callers get, set, reference and release
  layouts in any order, each releasing only references it holds; the invariant
  shows that every count is the number of references there are, and that no such interleaving
  touches freed memory.
\<close>

record dht_mem =
  lay_heap :: "nat \<rightharpoonup> dht_layout"
  ictx_layout :: "nat \<rightharpoonup> nat option"
  file_layouts :: "nat list"

text \<open>\<open>ictx_layout\<close> is the layout field of an inode's context, when it has one.\<close>

definition dht_inode_ctx_layout_get :: "dht_mem \<Rightarrow> nat \<Rightarrow> int \<times> nat option" where
  "dht_inode_ctx_layout_get m inode = (case ictx_layout m inode of
     None \<Rightarrow> (-1, None)
   | Some None \<Rightarrow> (-1, None)
   | Some (Some a) \<Rightarrow> (0, Some a))"

definition dht_inode_ctx_layout_set :: "dht_mem \<Rightarrow> nat \<Rightarrow> nat option \<Rightarrow> dht_mem" where
  "dht_inode_ctx_layout_set m inode layout_int =
     m\<lparr>ictx_layout := (ictx_layout m)(inode \<mapsto> layout_int)\<rparr>"

definition upd_ref :: "(int \<Rightarrow> int) \<Rightarrow> nat \<Rightarrow> dht_mem \<Rightarrow> dht_mem option" where
  "upd_ref f a m = (case lay_heap m a of
     None \<Rightarrow> None
   | Some l \<Rightarrow> Some (m\<lparr>lay_heap := (lay_heap m)(a \<mapsto> l\<lparr>lay_ref := f (lay_ref l)\<rparr>)\<rparr>))"

text \<open>The argument \<open>priv\<close> says that \<open>this->private\<close> is set.\<close>

definition dht_layout_get :: "bool \<Rightarrow> dht_mem \<Rightarrow> nat \<Rightarrow> (nat option \<times> dht_mem) option" where
  "dht_layout_get priv m inode =
     (if \<not> priv then Some (None, m)
      else case dht_inode_ctx_layout_get m inode of (ret, layout) \<Rightarrow>
        (case layout of
           Some a \<Rightarrow> if ret = 0 then do { m \<leftarrow> upd_ref (\<lambda>r. r + 1) a m; Some (Some a, m) } else Some (layout, m)
         | None \<Rightarrow> Some (None, m)))"

text \<open>The section of \<open>dht_layout_unref\<close> under the lock, and \<open>GF_FREE\<close>, which must not meet a freed layout.\<close>

definition dht_layout_unref_locked :: "dht_mem \<Rightarrow> nat \<Rightarrow> (int \<times> dht_mem) option" where
  "dht_layout_unref_locked m a = do {
     l \<leftarrow> lay_heap m a;
     m \<leftarrow> upd_ref (\<lambda>r. r - 1) a m;
     Some (lay_ref l - 1, m) }"

definition dht_layout_free :: "dht_mem \<Rightarrow> nat \<Rightarrow> dht_mem option" where
  "dht_layout_free m a = (case lay_heap m a of None \<Rightarrow> None | Some _ \<Rightarrow> Some (m\<lparr>lay_heap := (lay_heap m)(a := None)\<rparr>))"

definition dht_layout_unref :: "bool \<Rightarrow> dht_mem \<Rightarrow> nat option \<Rightarrow> dht_mem option" where
  "dht_layout_unref priv m layout = (case layout of
     None \<Rightarrow> Some m
   | Some a \<Rightarrow> do {
       l \<leftarrow> lay_heap m a;
       if preset l \<or> \<not> priv then Some m
       else do {
         (ref, m) \<leftarrow> dht_layout_unref_locked m a;
         if ref = 0 then dht_layout_free m a else Some m } })"

definition dht_layout_ref :: "bool \<Rightarrow> dht_mem \<Rightarrow> nat \<Rightarrow> dht_mem option" where
  "dht_layout_ref priv m a = do {
     l \<leftarrow> lay_heap m a;
     if preset l \<or> \<not> priv then Some m else upd_ref (\<lambda>r. r + 1) a m }"

text \<open>The section of \<open>dht_layout_set\<close> under the lock: the result for the old layout, the old layout, the memory.\<close>

definition dht_layout_set_locked :: "dht_mem \<Rightarrow> nat \<Rightarrow> nat \<Rightarrow> (int \<times> nat option \<times> dht_mem) option" where
  "dht_layout_set_locked m inode a = (case dht_inode_ctx_layout_get m inode of (oldret, old_layout) \<Rightarrow> do {
     m \<leftarrow> upd_ref (\<lambda>r. r + 1) a m;
     Some (oldret, old_layout, dht_inode_ctx_layout_set m inode (Some a)) })"

definition dht_layout_set :: "bool \<Rightarrow> dht_mem \<Rightarrow> nat \<Rightarrow> nat option \<Rightarrow> dht_mem option" where
  "dht_layout_set priv m inode layout = (case layout of
     None \<Rightarrow> Some m
   | Some a \<Rightarrow>
       if \<not> priv then Some m
       else do {
         (oldret, old_layout, m) \<leftarrow> dht_layout_set_locked m inode a;
         if oldret = 0 then dht_layout_unref priv m old_layout else Some m })"

definition dht_layout_preset :: "dht_conf option \<Rightarrow> dht_mem \<Rightarrow> xlator_t option \<Rightarrow> nat \<Rightarrow> int \<times> dht_mem" where
  "dht_layout_preset conf m subvol inode = (case conf of
     None \<Rightarrow> (-1, m)
   | Some c \<Rightarrow>
       (case dht_layout_for_subvol conf (file_layouts m) subvol of
          None \<Rightarrow> (-1, m)
        | Some a \<Rightarrow> (0, dht_inode_ctx_layout_set m inode (Some a))))"

subsection \<open>Interleavings\<close>

text \<open>The state is the memory, the references callers hold per layout, the layouts whose last
  reference is gone and whose \<open>GF_FREE\<close> is still to come, and, as a ghost that no step reads, the references
  that \<open>dht_layout_preset\<close> lost by overwriting the layout of an inode.  A caller
  between the two sections of \<open>dht_layout_set\<close> holds the reference of the inode to the old layout.\<close>

record lay_state =
  ls_mem :: dht_mem
  ls_held :: "nat \<Rightarrow> nat"
  ls_freeing :: "nat set"
  ls_lost :: "nat \<Rightarrow> nat"

definition bump :: "nat option \<Rightarrow> (nat \<Rightarrow> nat) \<Rightarrow> nat \<Rightarrow> nat" where
  "bump x f = (case x of None \<Rightarrow> f | Some a \<Rightarrow> f(a := f a + 1))"

inductive lay_step :: "dht_conf \<Rightarrow> lay_state \<Rightarrow> lay_state \<Rightarrow> bool" for conf where
  step_new: "lay_heap (ls_mem s) a = None \<Longrightarrow>
    lay_step conf s (s\<lparr>ls_mem := (ls_mem s)\<lparr>lay_heap := (lay_heap (ls_mem s))(a \<mapsto> dht_layout_new (Some conf) cnt)\<rparr>,
      ls_held := bump (Some a) (ls_held s)\<rparr>)"
| step_get: "dht_layout_get True (ls_mem s) i = Some (r, m) \<Longrightarrow>
    lay_step conf s (s\<lparr>ls_mem := m, ls_held := bump r (ls_held s)\<rparr>)"
| step_ref: "0 < ls_held s a \<Longrightarrow> dht_layout_ref True (ls_mem s) a = Some m \<Longrightarrow>
    lay_step conf s (s\<lparr>ls_mem := m, ls_held := bump (Some a) (ls_held s)\<rparr>)"
| step_unref_preset: "0 < ls_held s a \<Longrightarrow> lay_heap (ls_mem s) a = Some l \<Longrightarrow> preset l \<Longrightarrow>
    lay_step conf s (s\<lparr>ls_held := (ls_held s)(a := ls_held s a - 1)\<rparr>)"
| step_unref: "0 < ls_held s a \<Longrightarrow> lay_heap (ls_mem s) a = Some l \<Longrightarrow> \<not> preset l \<Longrightarrow>
    dht_layout_unref_locked (ls_mem s) a = Some (ref, m) \<Longrightarrow>
    lay_step conf s (s\<lparr>ls_mem := m, ls_held := (ls_held s)(a := ls_held s a - 1),
      ls_freeing := (if ref = 0 then insert a (ls_freeing s) else ls_freeing s)\<rparr>)"
| step_free: "a \<in> ls_freeing s \<Longrightarrow> dht_layout_free (ls_mem s) a = Some m \<Longrightarrow>
    lay_step conf s (s\<lparr>ls_mem := m, ls_freeing := ls_freeing s - {a}\<rparr>)"
| step_set: "0 < ls_held s a \<Longrightarrow> dht_layout_set_locked (ls_mem s) i a = Some (oldret, old, m) \<Longrightarrow>
    lay_step conf s (s\<lparr>ls_mem := m, ls_held := bump (if oldret = 0 then old else None) (ls_held s)\<rparr>)"
| step_preset: "dht_layout_preset (Some conf) (ls_mem s) sv i = (0, m) \<Longrightarrow>
    lay_step conf s (s\<lparr>ls_mem := m, ls_lost := bump (snd (dht_inode_ctx_layout_get (ls_mem s) i)) (ls_lost s)\<rparr>)"

definition lay_init :: "dht_conf \<Rightarrow> lay_state" where
  "lay_init conf =
     (let fl = dht_layouts_init conf in
      \<lparr>ls_mem = \<lparr>lay_heap = (\<lambda>a. if a < length fl then Some (fl ! a) else None), ictx_layout = Map.empty,
        file_layouts = [0..<length fl]\<rparr>, ls_held = (\<lambda>_. 0), ls_freeing = {}, ls_lost = (\<lambda>_. 0)\<rparr>)"

inductive lay_reach :: "dht_conf \<Rightarrow> lay_state \<Rightarrow> bool" for conf where
  reach_init: "lay_reach conf (lay_init conf)"
| reach_step: "lay_reach conf s \<Longrightarrow> lay_step conf s s' \<Longrightarrow> lay_reach conf s'"

subsection \<open>The reference count invariant\<close>

definition inode_refs :: "dht_mem \<Rightarrow> nat \<Rightarrow> nat set" where
  "inode_refs m a = {i. ictx_layout m i = Some (Some a)}"

text \<open>All references to a layout there are, or were before they were lost.\<close>

definition ref_total :: "lay_state \<Rightarrow> nat \<Rightarrow> nat" where
  "ref_total s a = card (inode_refs (ls_mem s) a) + ls_held s a + ls_lost s a"

text \<open>What holds of one address, given the number of references to it and whether it is being freed.\<close>

definition slot_ok :: "dht_layout option \<Rightarrow> nat \<Rightarrow> bool \<Rightarrow> bool" where
  "slot_ok x n fr \<longleftrightarrow> (case x of
     None \<Rightarrow> n = 0 \<and> \<not> fr
   | Some l \<Rightarrow> if preset l then \<not> fr else lay_ref l = int n \<and> (fr \<longleftrightarrow> n = 0))"

definition lay_inv :: "dht_conf \<Rightarrow> lay_state \<Rightarrow> bool" where
  "lay_inv conf s \<longleftrightarrow>
     finite (dom (ictx_layout (ls_mem s))) \<and> length (file_layouts (ls_mem s)) = length (subvolumes conf) \<and>
     (\<forall>a. slot_ok (lay_heap (ls_mem s) a) (ref_total s a) (a \<in> ls_freeing s)) \<and>
     (\<forall>a\<in>set (file_layouts (ls_mem s)). \<exists>l. lay_heap (ls_mem s) a = Some l \<and> preset l)"

lemma finite_inode_refs: "finite (dom (ictx_layout m)) \<Longrightarrow> finite (inode_refs m a)"
  by (rule finite_subset [rotated]) (auto simp: inode_refs_def)

lemma upd_ref_Some:
  "upd_ref f a m = Some m' \<longleftrightarrow> (\<exists>l. lay_heap m a = Some l \<and>
     m' = m\<lparr>lay_heap := (lay_heap m)(a \<mapsto> l\<lparr>lay_ref := f (lay_ref l)\<rparr>)\<rparr>)"
  by (auto simp: upd_ref_def split: option.splits)

lemma inode_refs_heap [simp]: "inode_refs (m\<lparr>lay_heap := x\<rparr>) a = inode_refs m a"
  by (simp add: inode_refs_def)

lemma ctx_set_sel [simp]:
  "lay_heap (dht_inode_ctx_layout_set m i x) = lay_heap m" "file_layouts (dht_inode_ctx_layout_set m i x) = file_layouts m"
  "ictx_layout (dht_inode_ctx_layout_set m i x) = (ictx_layout m)(i \<mapsto> x)"
  by (simp_all add: dht_inode_ctx_layout_set_def)

lemma bump_apply: "bump x f c = f c + (if x = Some c then 1 else 0)"
  by (auto simp: bump_def split: option.splits)

lemma ctx_get_snd: "snd (dht_inode_ctx_layout_get m i) = Some a \<longleftrightarrow> i \<in> inode_refs m a"
  by (auto simp: dht_inode_ctx_layout_get_def inode_refs_def split: option.splits)

lemma ctx_get_ret: "fst (dht_inode_ctx_layout_get m i) = 0 \<longleftrightarrow> snd (dht_inode_ctx_layout_get m i) \<noteq> None"
  by (auto simp: dht_inode_ctx_layout_get_def split: option.splits)

text \<open>Storing a layout in an inode adds one reference to it and takes one from the layout that was there.\<close>

lemma inode_refs_ctx_set:
  assumes "finite (dom (ictx_layout m))"
  shows "card (inode_refs (dht_inode_ctx_layout_set m i (Some a)) c) + (if snd (dht_inode_ctx_layout_get m i) = Some c then 1 else 0) =
    card (inode_refs m c) + (if c = a then 1 else 0)"
proof -
  have "inode_refs (dht_inode_ctx_layout_set m i (Some a)) c = (if c = a then insert i (inode_refs m c) else inode_refs m c - {i})"
    by (auto simp: inode_refs_def)
  moreover have "i \<in> inode_refs m c \<Longrightarrow> 0 < card (inode_refs m c)"
    using finite_inode_refs [OF assms, of c] by (auto simp: card_gt_0_iff)
  ultimately show ?thesis
    using finite_inode_refs [OF assms, of c] by (auto simp: ctx_get_snd card_insert_if)
qed

lemma lay_inv_slot: "lay_inv conf s \<Longrightarrow> slot_ok (lay_heap (ls_mem s) a) (ref_total s a) (a \<in> ls_freeing s)"
  by (simp add: lay_inv_def)

lemma lay_inv_live:
  assumes "lay_inv conf s" "0 < ls_held s a \<or> i \<in> inode_refs (ls_mem s) a"
  shows "\<exists>l. lay_heap (ls_mem s) a = Some l" "a \<notin> ls_freeing s" "0 < ref_total s a"
proof -
  have "finite (inode_refs (ls_mem s) a)" using assms(1) by (simp add: lay_inv_def finite_inode_refs)
  then show "0 < ref_total s a" using assms(2) by (auto simp: ref_total_def card_gt_0_iff)
  then show "\<exists>l. lay_heap (ls_mem s) a = Some l" "a \<notin> ls_freeing s"
    using lay_inv_slot [OF assms(1), of a] by (auto simp: slot_ok_def split: option.splits if_splits)
qed

text \<open>A step that leaves the contexts alone and changes the slot of one layout only.\<close>

lemma lay_inv_slot_change:
  assumes "lay_inv conf s" "ictx_layout (ls_mem s') = ictx_layout (ls_mem s)" "file_layouts (ls_mem s') = file_layouts (ls_mem s)"
    and "\<And>c. c \<noteq> a \<Longrightarrow> lay_heap (ls_mem s') c = lay_heap (ls_mem s) c \<and> ref_total s' c = ref_total s c \<and> (c \<in> ls_freeing s' \<longleftrightarrow> c \<in> ls_freeing s)"
    and "slot_ok (lay_heap (ls_mem s') a) (ref_total s' a) (a \<in> ls_freeing s')"
    and "a \<in> set (file_layouts (ls_mem s)) \<Longrightarrow> \<exists>l. lay_heap (ls_mem s') a = Some l \<and> preset l"
  shows "lay_inv conf s'"
proof -
  have "slot_ok (lay_heap (ls_mem s') c) (ref_total s' c) (c \<in> ls_freeing s')" for c
    using assms(4) [of c] assms(5) lay_inv_slot [OF assms(1), of c] by (cases "c = a") auto
  moreover have "\<exists>l. lay_heap (ls_mem s') c = Some l \<and> preset l" if "c \<in> set (file_layouts (ls_mem s))" for c
    using assms(1,6) assms(4) [of c] that by (cases "c = a") (auto simp: lay_inv_def)
  ultimately show ?thesis using assms(1-3) by (simp add: lay_inv_def)
qed

lemma file_slot: "lay_inv conf s \<Longrightarrow> lay_heap (ls_mem s) a = Some l \<Longrightarrow> a \<in> set (file_layouts (ls_mem s)) \<Longrightarrow> preset l"
  by (auto simp: lay_inv_def)

lemma lay_inv_new:
  assumes "lay_inv conf s" "lay_heap (ls_mem s) a = None"
  shows "lay_inv conf (s\<lparr>ls_mem := (ls_mem s)\<lparr>lay_heap := (lay_heap (ls_mem s))(a \<mapsto> dht_layout_new (Some conf) cnt)\<rparr>,
    ls_held := bump (Some a) (ls_held s)\<rparr>)"
proof (rule lay_inv_slot_change [OF assms(1), where a = a])
  have "slot_ok None (ref_total s a) (a \<in> ls_freeing s)" using lay_inv_slot [OF assms(1), of a] assms(2) by simp
  then show "slot_ok (lay_heap (ls_mem (s\<lparr>ls_mem := (ls_mem s)\<lparr>lay_heap := (lay_heap (ls_mem s))(a \<mapsto> dht_layout_new (Some conf) cnt)\<rparr>,
      ls_held := bump (Some a) (ls_held s)\<rparr>)) a)
    (ref_total (s\<lparr>ls_mem := (ls_mem s)\<lparr>lay_heap := (lay_heap (ls_mem s))(a \<mapsto> dht_layout_new (Some conf) cnt)\<rparr>,
      ls_held := bump (Some a) (ls_held s)\<rparr>) a) (a \<in> ls_freeing (s\<lparr>ls_mem := (ls_mem s)\<lparr>lay_heap := (lay_heap (ls_mem s))(a \<mapsto> dht_layout_new (Some conf) cnt)\<rparr>,
      ls_held := bump (Some a) (ls_held s)\<rparr>))"
    by (simp add: slot_ok_def ref_total_def bump_apply dht_layout_new_def)
qed (use assms in \<open>auto simp: ref_total_def bump_apply lay_inv_def\<close>)

text \<open>One more reference, counted unless the layout is preset.\<close>

lemma lay_inv_inc:
  assumes "lay_inv conf s" "lay_heap (ls_mem s) a = Some l" "preset l \<or> 0 < ref_total s a"
    and "l' = l\<lparr>lay_ref := lay_ref l + 1\<rparr> \<or> preset l \<and> l' = l"
  shows "lay_inv conf (s\<lparr>ls_mem := (ls_mem s)\<lparr>lay_heap := (lay_heap (ls_mem s))(a \<mapsto> l')\<rparr>, ls_held := bump (Some a) (ls_held s)\<rparr>)"
  by (rule lay_inv_slot_change [OF assms(1), where a = a])
    (use assms(2-4) lay_inv_slot [OF assms(1), of a] file_slot [OF assms(1,2)] in
      \<open>auto simp: ref_total_def bump_apply slot_ok_def\<close>)

lemma lay_inv_get:
  assumes "lay_inv conf s"
  shows "\<exists>r m. dht_layout_get True (ls_mem s) i = Some (r, m) \<and> lay_inv conf (s\<lparr>ls_mem := m, ls_held := bump r (ls_held s)\<rparr>)"
proof (cases "snd (dht_inode_ctx_layout_get (ls_mem s) i)")
  case None
  then show ?thesis using assms by (simp add: dht_layout_get_def bump_def split_beta)
next
  case (Some a)
  then have i: "i \<in> inode_refs (ls_mem s) a" by (simp add: ctx_get_snd)
  obtain l where l: "lay_heap (ls_mem s) a = Some l" using lay_inv_live(1) [OF assms] i by blast
  have "fst (dht_inode_ctx_layout_get (ls_mem s) i) = 0" using Some by (simp add: ctx_get_ret)
  then show ?thesis
    using lay_inv_inc [OF assms l _ disjI1 [OF refl]] lay_inv_live(3) [OF assms, of a i] i Some l
    by (simp add: dht_layout_get_def split_beta upd_ref_def)
qed

lemma lay_inv_ref:
  assumes "lay_inv conf s" "0 < ls_held s a"
  shows "\<exists>m. dht_layout_ref True (ls_mem s) a = Some m \<and> lay_inv conf (s\<lparr>ls_mem := m, ls_held := bump (Some a) (ls_held s)\<rparr>)"
proof -
  obtain l where l: "lay_heap (ls_mem s) a = Some l" using lay_inv_live(1) [OF assms(1)] assms(2) by blast
  have pos: "0 < ref_total s a" using lay_inv_live(3) [OF assms(1)] assms(2) by blast
  have "(ls_mem s)\<lparr>lay_heap := (lay_heap (ls_mem s))(a \<mapsto> l)\<rparr> = ls_mem s" using l by (simp add: fun_upd_idem)
  then show ?thesis
    using lay_inv_inc [OF assms(1) l, of l] lay_inv_inc [OF assms(1) l, of "l\<lparr>lay_ref := lay_ref l + 1\<rparr>"] pos l
    by (cases "preset l") (simp_all add: dht_layout_ref_def upd_ref_def)
qed

lemma lay_inv_unref:
  assumes "lay_inv conf s" "0 < ls_held s a"
  shows "\<exists>ref m. dht_layout_unref_locked (ls_mem s) a = Some (ref, m) \<and>
    (\<forall>l. lay_heap (ls_mem s) a = Some l \<and> \<not> preset l \<longrightarrow>
       lay_inv conf (s\<lparr>ls_mem := m, ls_held := (ls_held s)(a := ls_held s a - 1),
         ls_freeing := (if ref = 0 then insert a (ls_freeing s) else ls_freeing s)\<rparr>))"
proof -
  obtain l where l: "lay_heap (ls_mem s) a = Some l" using lay_inv_live(1) [OF assms(1)] assms(2) by blast
  let ?m = "(ls_mem s)\<lparr>lay_heap := (lay_heap (ls_mem s))(a \<mapsto> l\<lparr>lay_ref := lay_ref l - 1\<rparr>)\<rparr>"
  have "dht_layout_unref_locked (ls_mem s) a = Some (lay_ref l - 1, ?m)"
    using l by (simp add: dht_layout_unref_locked_def upd_ref_def)
  moreover have "lay_inv conf (s\<lparr>ls_mem := ?m, ls_held := (ls_held s)(a := ls_held s a - 1),
      ls_freeing := (if lay_ref l - 1 = 0 then insert a (ls_freeing s) else ls_freeing s)\<rparr>)" if "\<not> preset l"
  proof (rule lay_inv_slot_change [OF assms(1), where a = a])
    have "lay_ref l = int (ref_total s a)" "a \<notin> ls_freeing s"
      using that lay_inv_slot [OF assms(1), of a] lay_inv_live(2) [OF assms(1), of a] assms(2) l by (simp_all add: slot_ok_def)
    then show "slot_ok (lay_heap (ls_mem (s\<lparr>ls_mem := ?m, ls_held := (ls_held s)(a := ls_held s a - 1),
        ls_freeing := (if lay_ref l - 1 = 0 then insert a (ls_freeing s) else ls_freeing s)\<rparr>)) a)
      (ref_total (s\<lparr>ls_mem := ?m, ls_held := (ls_held s)(a := ls_held s a - 1),
        ls_freeing := (if lay_ref l - 1 = 0 then insert a (ls_freeing s) else ls_freeing s)\<rparr>) a)
      (a \<in> ls_freeing (s\<lparr>ls_mem := ?m, ls_held := (ls_held s)(a := ls_held s a - 1),
        ls_freeing := (if lay_ref l - 1 = 0 then insert a (ls_freeing s) else ls_freeing s)\<rparr>))"
      using that assms(2) by (auto simp: slot_ok_def ref_total_def of_nat_diff)
  qed (use l that file_slot [OF assms(1) l] in \<open>auto simp: ref_total_def\<close>)
  ultimately show ?thesis using l by auto
qed

lemma lay_inv_unref_preset:
  assumes "lay_inv conf s" "lay_heap (ls_mem s) a = Some l" "preset l"
  shows "lay_inv conf (s\<lparr>ls_held := (ls_held s)(a := ls_held s a - 1)\<rparr>)"
  by (rule lay_inv_slot_change [OF assms(1), where a = a])
    (use assms(2,3) lay_inv_slot [OF assms(1), of a] in \<open>auto simp: ref_total_def slot_ok_def\<close>)

lemma lay_inv_free:
  assumes "lay_inv conf s" "a \<in> ls_freeing s"
  shows "\<exists>m. dht_layout_free (ls_mem s) a = Some m \<and> lay_inv conf (s\<lparr>ls_mem := m, ls_freeing := ls_freeing s - {a}\<rparr>)"
proof -
  obtain l where l: "lay_heap (ls_mem s) a = Some l" "\<not> preset l" "ref_total s a = 0"
    using lay_inv_slot [OF assms(1), of a] assms(2) by (auto simp: slot_ok_def split: option.splits if_splits)
  have "lay_inv conf (s\<lparr>ls_mem := (ls_mem s)\<lparr>lay_heap := (lay_heap (ls_mem s))(a := None)\<rparr>, ls_freeing := ls_freeing s - {a}\<rparr>)"
    by (rule lay_inv_slot_change [OF assms(1), where a = a])
      (use l file_slot [OF assms(1) l(1)] in \<open>auto simp: ref_total_def slot_ok_def\<close>)
  then show ?thesis using l(1) by (simp add: dht_layout_free_def)
qed

text \<open>Storing a layout: every other layout keeps its number of references, because the one the inode had is
  handed to the caller, or lost.\<close>

lemma lay_inv_ctx:
  assumes "lay_inv conf s" "lay_heap (ls_mem s) a = Some l" "preset l \<or> 0 < ref_total s a"
    and "l' = l\<lparr>lay_ref := lay_ref l + 1\<rparr> \<or> preset l \<and> l' = l"
    and m: "m = dht_inode_ctx_layout_set ((ls_mem s)\<lparr>lay_heap := (lay_heap (ls_mem s))(a \<mapsto> l')\<rparr>) i (Some a)"
    and s': "ls_mem s' = m" "ls_freeing s' = ls_freeing s"
    and h: "\<And>c. ls_held s' c + ls_lost s' c =
      ls_held s c + ls_lost s c + (if snd (dht_inode_ctx_layout_get (ls_mem s) i) = Some c then 1 else 0)"
  shows "lay_inv conf s'"
proof -
  have fin: "finite (dom (ictx_layout (ls_mem s)))" using assms(1) by (simp add: lay_inv_def)
  have refs: "inode_refs m c = inode_refs (dht_inode_ctx_layout_set (ls_mem s) i (Some a)) c" for c
    by (simp add: m inode_refs_def)
  have tot: "ref_total s' c = ref_total s c + (if c = a then 1 else 0)" for c
    using inode_refs_ctx_set [OF fin, of i a c] h [of c] by (auto simp: ref_total_def s' refs split: if_splits)
  have "slot_ok (lay_heap m c) (ref_total s' c) (c \<in> ls_freeing s')" for c
  proof (cases "c = a")
    case True
    then show ?thesis using lay_inv_slot [OF assms(1), of a] assms(2-4) by (auto simp: m tot s' slot_ok_def)
  qed (use lay_inv_slot [OF assms(1), of c] in \<open>simp add: m tot s'\<close>)
  moreover have "\<exists>k. lay_heap m c = Some k \<and> preset k" if "c \<in> set (file_layouts (ls_mem s))" for c
    using that assms(1,2,4) by (auto simp: m lay_inv_def)
  ultimately show ?thesis using assms(1) fin by (simp add: lay_inv_def s' m)
qed

lemma lay_inv_set:
  assumes "lay_inv conf s" "0 < ls_held s a"
  shows "\<exists>oldret old m. dht_layout_set_locked (ls_mem s) i a = Some (oldret, old, m) \<and>
    lay_inv conf (s\<lparr>ls_mem := m, ls_held := bump (if oldret = 0 then old else None) (ls_held s)\<rparr>)"
proof -
  obtain l where l: "lay_heap (ls_mem s) a = Some l" using lay_inv_live(1) [OF assms(1)] assms(2) by blast
  have pos: "0 < ref_total s a" using lay_inv_live(3) [OF assms(1)] assms(2) by blast
  obtain oldret old where g: "dht_inode_ctx_layout_get (ls_mem s) i = (oldret, old)" by fastforce
  have "old = (if oldret = 0 then old else None)" using ctx_get_ret [of "ls_mem s" i] g by simp
  then have "lay_inv conf (s\<lparr>ls_mem := dht_inode_ctx_layout_set ((ls_mem s)\<lparr>lay_heap := (lay_heap (ls_mem s))(a \<mapsto> l\<lparr>lay_ref := lay_ref l + 1\<rparr>)\<rparr>) i (Some a),
      ls_held := bump (if oldret = 0 then old else None) (ls_held s)\<rparr>)"
    by (intro lay_inv_ctx [OF assms(1) l disjI2 [OF pos] disjI1 [OF refl] refl]) (auto simp: g bump_apply)
  then show ?thesis using l g by (simp add: dht_layout_set_locked_def upd_ref_def)
qed

lemma for_subvol_mem:
  "dht_layout_for_subvol conf fl sv = Some a \<Longrightarrow> (case conf of Some c \<Rightarrow> length (subvolumes c) \<le> length fl | None \<Rightarrow> True) \<Longrightarrow> a \<in> set fl"
  by (auto simp: dht_layout_for_subvol_def find_Some_iff split: option.splits)

lemma lay_inv_preset:
  assumes "lay_inv conf s" "dht_layout_preset (Some conf) (ls_mem s) sv i = (0, m)"
  shows "lay_inv conf (s\<lparr>ls_mem := m, ls_lost := bump (snd (dht_inode_ctx_layout_get (ls_mem s) i)) (ls_lost s)\<rparr>)"
proof -
  obtain a where a: "dht_layout_for_subvol (Some conf) (file_layouts (ls_mem s)) sv = Some a"
    and m: "m = dht_inode_ctx_layout_set (ls_mem s) i (Some a)"
    using assms(2) by (auto simp: dht_layout_preset_def split: option.splits)
  have "a \<in> set (file_layouts (ls_mem s))" using for_subvol_mem [OF a] assms(1) by (simp add: lay_inv_def)
  then obtain l where l: "lay_heap (ls_mem s) a = Some l" "preset l" using assms(1) by (auto simp: lay_inv_def)
  have same: "(ls_mem s)\<lparr>lay_heap := (lay_heap (ls_mem s))(a \<mapsto> l)\<rparr> = ls_mem s" using l(1) by (simp add: fun_upd_idem)
  show ?thesis
    by (rule lay_inv_ctx [OF assms(1) l(1) disjI1 [OF l(2)], of l m i]) (use l(2) in \<open>auto simp: m same bump_apply\<close>)
qed

lemma lay_step_inv:
  assumes "lay_step conf s s'" "lay_inv conf s"
  shows "lay_inv conf s'"
  using assms(1)
proof cases
  case (step_new a cnt)
  then show ?thesis using lay_inv_new [OF assms(2)] by simp
next
  case (step_get i r m)
  then show ?thesis using lay_inv_get [OF assms(2), of i] by simp
next
  case (step_ref a m)
  then show ?thesis using lay_inv_ref [OF assms(2), of a] by simp
next
  case (step_unref_preset a l)
  then show ?thesis using lay_inv_unref_preset [OF assms(2)] by simp
next
  case (step_unref a l ref m)
  then show ?thesis using lay_inv_unref [OF assms(2), of a] by auto
next
  case (step_free a m)
  then show ?thesis using lay_inv_free [OF assms(2), of a] by simp
next
  case (step_set a i oldret old m)
  then show ?thesis using lay_inv_set [OF assms(2), of a i] by simp
next
  case (step_preset sv i m)
  then show ?thesis using lay_inv_preset [OF assms(2)] by simp
qed

lemma lay_reach_inv: "lay_reach conf s \<Longrightarrow> lay_inv conf s"
proof (induction rule: lay_reach.induct)
  case reach_init
  show ?case
    by (auto simp: lay_init_def lay_inv_def Let_def inode_refs_def dht_layouts_init_def file_layout_def ref_total_def slot_ok_def)
qed (rule lay_step_inv)

text \<open>A call that nobody interrupts.\<close>

lemma unref_alive: "lay_heap m a = Some l \<Longrightarrow> dht_layout_unref True m (Some a) \<noteq> None"
  by (simp add: dht_layout_unref_def dht_layout_unref_locked_def dht_layout_free_def upd_ref_def)

lemma set_alive:
  assumes "lay_inv conf s" "0 < ls_held s a"
  shows "dht_layout_set True (ls_mem s) i (Some a) \<noteq> None"
proof -
  obtain oldret old m where r: "dht_layout_set_locked (ls_mem s) i a = Some (oldret, old, m)"
    and inv: "lay_inv conf (s\<lparr>ls_mem := m, ls_held := bump (if oldret = 0 then old else None) (ls_held s)\<rparr>)"
    using lay_inv_set [OF assms] by blast
  have "dht_layout_unref True m old \<noteq> None" if "oldret = 0"
  proof (cases old)
    case (Some b)
    then have "\<exists>l. lay_heap m b = Some l" using lay_inv_live(1) [OF inv, of b] that by (simp add: bump_apply)
    then show ?thesis using unref_alive Some by auto
  qed (simp add: dht_layout_unref_def)
  then show ?thesis by (simp add: dht_layout_set_def r)
qed

subsection \<open>Property\<close>


definition one_layout :: lay_state where
  "one_layout = (let s = lay_init sample_conf in
     s\<lparr>ls_mem := (ls_mem s)\<lparr>lay_heap := (lay_heap (ls_mem s))(2 \<mapsto> dht_layout_new (Some sample_conf) 2)\<rparr>,
       ls_held := bump (Some 2) (ls_held s)\<rparr>)"

lemma one_layout_reach: "lay_reach sample_conf one_layout"
proof -
  have "lay_heap (ls_mem (lay_init sample_conf)) 2 = None"
    by (simp add: lay_init_def Let_def dht_layouts_init_def sample_conf_def)
  from lay_reach.reach_step [OF lay_reach.reach_init lay_step.step_new [OF this, of sample_conf 2]] show ?thesis
    by (simp add: one_layout_def Let_def)
qed


end
