(* ===== verification/Dht_Selfheal.thy ===== *)
theory Dht_Selfheal
  imports Dht_Layout_Ref
begin

text \<open>
  Computing a layout (\<open>cluster/dht/src/dht-selfheal.c\<close>): the decisions whether a
  layout has to be healed, the division of the 32-bit hash space among the
  usable subvolumes of a new directory, and the re-assignment that keeps as
  much as possible of an old layout.  The locking, the setxattr calls and
  their callbacks are not part of it.

  \<open>OV_ENTRY\<close> addresses one flat array by \<open>x * new->cnt + y\<close>; the model keeps the flat array.
\<close>

record loc_t =
  loc_path :: string
  loc_gfid_str :: string

text \<open>\<open>loc_gfid_str\<close> is the text \<open>uuid_utoa_r\<close> makes of the gfid.\<close>

subsection \<open>Deciding\<close>

definition dht_overlap_calc :: "dht_layout \<Rightarrow> nat \<Rightarrow> dht_layout \<Rightarrow> nat \<Rightarrow> u32" where
  "dht_overlap_calc old ob new n =
     (if ob \<ge> lay_cnt old \<or> n \<ge> lay_cnt new then 0
      else let a = lay_list old ! ob; b = lay_list new ! n in
      if le_err a > 0 \<or> le_err b > 0 then 0
      else if le_start a = le_stop a then 0
      else if le_start b = le_stop b then 0
      else if le_start a > le_stop b \<or> le_stop a < le_start b then 0
      else min (le_stop a) (le_stop b) - max (le_start a) (le_start b) + 1)"

text \<open>Result, counts left in \<open>local->selfheal\<close>, and the two layouts, exchanged when a
  well-formed disk layout only misses directories.\<close>

definition dht_should_heal_layout ::
  "int \<Rightarrow> dht_layout option \<Rightarrow> dht_layout option \<Rightarrow> bool \<times> dht_layout option \<times> dht_layout option" where
  "dht_should_heal_layout force_mkdir heal ondisk = (case (heal, ondisk) of
     (Some hl, Some dl) \<Rightarrow>
       let a = dht_layout_anomalies dl;
           heal_missing_dirs = (if force_mkdir \<noteq> 0 then force_mkdir else dht_layout_missing_dirs heal);
           swapped = (holes a = 0 \<and> overlaps a = 0 \<and> heal_missing_dirs \<noteq> 0);
           fixit = (holes a \<noteq> 0 \<or> overlaps a \<noteq> 0 \<or> heal_missing_dirs \<noteq> 0)
       in if swapped then (fixit, ondisk, heal) else (fixit, heal, ondisk)
   | _ \<Rightarrow> (True, heal, ondisk))"

definition dht_layout_span :: "dht_layout \<Rightarrow> int" where
  "dht_layout_span layout =
     int (length (filter (\<lambda>e. le_err e = 0 \<and> le_start e \<noteq> le_stop e) (take (lay_cnt layout) (lay_list layout))))"

definition is_decommissioned :: "dht_conf \<Rightarrow> layout_entry \<Rightarrow> xlator_t option \<Rightarrow> bool" where
  "is_decommissioned conf e brick \<longleftrightarrow> brick \<noteq> None \<and> same_xl brick (le_xlator e)"

definition dht_decommissioned_bricks_in_layout :: "dht_conf \<Rightarrow> dht_layout option \<Rightarrow> int" where
  "dht_decommissioned_bricks_in_layout conf layout = (case layout of
     None \<Rightarrow> 0
   | Some l \<Rightarrow>
       (\<Sum>e\<leftarrow>take (lay_cnt l) (lay_list l).
          int (length (filter (is_decommissioned conf e) (take (length (subvolumes conf)) (decommissioned_bricks conf))))))"

datatype dht_distribution_type_t = GF_DHT_EQUAL_DISTRIBUTION | GF_DHT_WEIGHTED_DISTRIBUTION

fun distribution_loop :: "nat \<Rightarrow> layout_entry list \<Rightarrow> u32 \<Rightarrow> dht_distribution_type_t" where
  "distribution_loop cnt [] start_range = GF_DHT_EQUAL_DISTRIBUTION"
| "distribution_loop cnt (e # es) start_range =
     (if start_range = 0 then distribution_loop cnt es (le_stop e - le_start e)
      else let range = le_stop e - le_start e;
               diff = (word_of_int \<bar>sint (range - start_range)\<bar> :: u32)
           in if range \<noteq> 0 \<and> diff > of_nat cnt then GF_DHT_WEIGHTED_DISTRIBUTION
              else distribution_loop cnt es start_range)"

definition dht_distribution_type :: "dht_layout option \<Rightarrow> dht_distribution_type_t" where
  "dht_distribution_type layout = (case layout of
     None \<Rightarrow> GF_DHT_EQUAL_DISTRIBUTION
   | Some l \<Rightarrow> if lay_cnt l < 1 then GF_DHT_EQUAL_DISTRIBUTION
              else distribution_loop (lay_cnt l) (take (lay_cnt l) (lay_list l)) 0)"

definition dht_should_fix_layout :: "dht_conf \<Rightarrow> dht_layout option \<Rightarrow> dht_layout option \<Rightarrow> bool" where
  "dht_should_fix_layout conf inmem ondisk = (case (inmem, ondisk) of
     (Some im, Some dl) \<Rightarrow>
       let a = dht_layout_anomalies dl in
       if down a \<noteq> 0 \<or> misc a \<noteq> 0 then False
       else if holes a \<noteq> 0 \<or> overlaps a \<noteq> 0 then True
       else if lay_commit_hash im \<noteq> lay_commit_hash dl then True
       else \<not> (dht_decommissioned_bricks_in_layout conf ondisk = 0 \<and>
               dht_layout_span dl = int (length (subvolumes conf)) - decommission_subvols_cnt conf \<and>
               dht_distribution_type inmem = dht_distribution_type ondisk)
   | _ \<Rightarrow> True)"

definition dht_is_subvol_part_of_layout :: "dht_layout \<Rightarrow> xlator_t \<Rightarrow> bool" where
  "dht_is_subvol_part_of_layout layout xl =
     (\<exists>e\<in>set (take (lay_cnt layout) (lay_list layout)). le_name e = xl_name xl)"

definition dht_layout_index_from_conf :: "dht_layout \<Rightarrow> xlator_t \<Rightarrow> int" where
  "dht_layout_index_from_conf layout xl =
     (case List.find (\<lambda>j. le_name (lay_list layout ! j) = xl_name xl) [0..<lay_cnt layout] of
        Some j \<Rightarrow> int j | None \<Rightarrow> -1)"

subsection \<open>Dividing the hash space\<close>

definition dht_selfheal_layout_alloc_start :: "dht_conf \<Rightarrow> loc_t \<Rightarrow> dht_layout \<Rightarrow> nat" where
  "dht_selfheal_layout_alloc_start conf loc layout =
     (let str = (if randomize_by_gfid conf then loc_gfid_str loc else loc_path loc)
      in case dht_hash_compute conf (lay_type layout) str of
           Some hashval \<Rightarrow> unat (hashval mod of_nat (lay_cnt layout))
         | None \<Rightarrow> 0)"

definition map_err :: "(layout_entry \<Rightarrow> int) \<Rightarrow> dht_layout \<Rightarrow> dht_layout" where
  "map_err f l = l\<lparr>lay_list := map (\<lambda>e. e\<lparr>le_err := f e\<rparr>) (lay_list l)\<rparr>"

definition usable_err :: "int \<Rightarrow> bool" where
  "usable_err err \<longleftrightarrow> err = -1 \<or> err = 0 \<or> err = ENOENT"

text \<open>The three loops each rewrite the \<open>err\<close> of all entries; returned with the count.\<close>

definition dht_get_layout_count :: "dht_conf \<Rightarrow> dht_layout \<Rightarrow> bool \<Rightarrow> int \<times> dht_layout" where
  "dht_get_layout_count conf layout new_layout =
     (let layout = map_err (\<lambda>e.
            if \<exists>b\<in>set (take (length (subvolumes conf)) (decommissioned_bricks conf)). is_decommissioned conf e b
            then EINVAL else le_err e) layout;
          count = int (length (filter (\<lambda>e. usable_err (le_err e)) (lay_list layout)));
          layout = map_err (\<lambda>e. if usable_err (le_err e) \<and> le_err e = 0 then -1 else le_err e) layout;
          (count, layout) = (if count = 0 \<or> \<not> new_layout
             then (count + int (length (filter (\<lambda>e. le_err e = ENOSPC) (lay_list layout))),
                   map_err (\<lambda>e. if le_err e = ENOSPC then -1 else le_err e) layout)
             else (count, layout));
          count = (if spread_cnt layout \<noteq> 0 \<and> spread_cnt layout \<le> count then spread_cnt layout
                   else if count \<noteq> 0 then count else 1)
      in (count, layout))"

definition dht_get_chunks_from_xl :: "dht_conf \<Rightarrow> xlator_t option \<Rightarrow> u32" where
  "dht_get_chunks_from_xl priv child = (case du_chunks priv of
     None \<Rightarrow> 0
   | Some cs \<Rightarrow>
       (case List.find (\<lambda>i. same_xl (Some (subvolumes priv ! i)) child) [0..<length (subvolumes priv)] of
          Some i \<Rightarrow> cs ! i | None \<Rightarrow> 0))"

definition wants_range :: "layout_entry \<Rightarrow> bool" where
  "wants_range e \<longleftrightarrow> le_err e = -1 \<or> le_err e = ENOENT"

text \<open>The first loop: total weight of the bricks to use, and whether to weight at all.\<close>

fun weight_loop :: "dht_conf \<Rightarrow> int \<Rightarrow> layout_entry list \<Rightarrow> int \<Rightarrow> u32 \<Rightarrow> bool \<Rightarrow> u32 \<times> bool" where
  "weight_loop conf bricks_to_use [] bricks_used total_size w = (total_size, w)"
| "weight_loop conf bricks_to_use (e # es) bricks_used total_size w =
     (if \<not> wants_range e then weight_loop conf bricks_to_use es bricks_used total_size w
      else let curr_size = dht_get_chunks_from_xl conf (le_xlator e) in
      if curr_size = 0 then (total_size, False)
      else if bricks_used + 1 \<ge> bricks_to_use then (total_size + curr_size, w)
      else weight_loop conf bricks_to_use es (bricks_used + 1) (total_size + curr_size) w)"

definition DHT_SET_LAYOUT_RANGE :: "nat \<Rightarrow> u32 \<Rightarrow> u32 \<Rightarrow> dht_layout \<Rightarrow> dht_layout" where
  "DHT_SET_LAYOUT_RANGE i srt chunk layout =
     upd_entry i (\<lambda>e. e\<lparr>le_start := srt, le_stop := srt + chunk - 1, le_commit_hash := lay_commit_hash layout\<rparr>) layout"

definition DHT_RESET_LAYOUT_RANGE :: "dht_layout \<Rightarrow> dht_layout" where
  "DHT_RESET_LAYOUT_RANGE layout =
     layout\<lparr>lay_list := map (\<lambda>e. e\<lparr>le_start := 0, le_stop := 0\<rparr>) (lay_list layout)\<rparr>"

text \<open>The second loop, over the positions in the order \<open>(real_i + start_subvol) % cnt\<close>.\<close>

fun assign_loop :: "dht_conf \<Rightarrow> bool \<Rightarrow> u32 \<Rightarrow> int \<Rightarrow> nat list \<Rightarrow> int \<Rightarrow> u32 \<Rightarrow> dht_layout \<Rightarrow> dht_layout" where
  "assign_loop conf weight chunk bricks_to_use [] bricks_used start layout = layout"
| "assign_loop conf weight chunk bricks_to_use (i # order) bricks_used start layout =
     (let e = lay_list layout ! i;
          curr_size = (if weight then dht_get_chunks_from_xl conf (le_xlator e) else 1) in
      if \<not> wants_range e \<or> weight \<and> curr_size = 0
      then assign_loop conf weight chunk bricks_to_use order bricks_used start layout
      else let layout = DHT_SET_LAYOUT_RANGE i start (chunk * curr_size) layout in
      if bricks_used + 1 \<ge> bricks_to_use
      then upd_entry i (\<lambda>e. e\<lparr>le_stop := 0xffffffff\<rparr>) layout
      else assign_loop conf weight chunk bricks_to_use order (bricks_used + 1) (start + chunk * curr_size) layout)"

definition rotation :: "nat \<Rightarrow> nat \<Rightarrow> nat list" where
  "rotation start_subvol cnt = map (\<lambda>real_i. (real_i + start_subvol) mod cnt) [0..<cnt]"

definition dht_selfheal_layout_new_directory :: "dht_conf \<Rightarrow> loc_t \<Rightarrow> dht_layout \<Rightarrow> dht_layout" where
  "dht_selfheal_layout_new_directory priv loc layout =
     (let (bricks_to_use, layout) = dht_get_layout_count priv layout True;
          (total_size, weight_by_size) =
             weight_loop priv bricks_to_use (take (lay_cnt layout) (lay_list layout)) 0 0 (do_weighting priv);
          (weight_by_size, chunk) =
             (if weight_by_size \<and> total_size \<noteq> 0 then (True, 0xffffffff div total_size)
              else (False, word_of_int (0xffffffff div bricks_to_use)));
          start_subvol = dht_selfheal_layout_alloc_start priv loc layout;
          layout = DHT_RESET_LAYOUT_RANGE layout
      in assign_loop priv weight_by_size chunk bricks_to_use (rotation start_subvol (lay_cnt layout)) 0 0 layout)"

text \<open>Return code and layout; \<open>holes\<close> and \<open>overlaps\<close> come from \<open>local->selfheal\<close>.\<close>

definition dht_selfheal_dir_getafix :: "dht_conf \<Rightarrow> loc_t \<Rightarrow> u32 \<Rightarrow> u32 \<Rightarrow> dht_layout \<Rightarrow> int \<times> dht_layout" where
  "dht_selfheal_dir_getafix conf loc hole_cnt overlaps_cnt layout =
     (let (ret, layout) = (if hole_cnt \<noteq> 0 \<or> overlaps_cnt \<noteq> 0
            then (0, dht_selfheal_layout_new_directory conf loc (layout\<lparr>lay_commit_hash := DHT_LAYOUT_HASH_INVALID\<rparr>))
            else (-1, layout))
      in (if \<exists>e\<in>set (take (lay_cnt layout) (lay_list layout)). le_err e = ENOENT then 0 else ret, layout))"

subsection \<open>Keeping an old layout\<close>

type_synonym ov_table = "nat \<Rightarrow> u32"

definition ov_entry :: "nat \<Rightarrow> ov_table \<Rightarrow> nat \<Rightarrow> nat \<Rightarrow> u32" where
  "ov_entry cnt table x y = table (x * cnt + y)"

definition ov_set :: "nat \<Rightarrow> nat \<Rightarrow> nat \<Rightarrow> u32 \<Rightarrow> ov_table \<Rightarrow> ov_table" where
  "ov_set cnt x y v table = table(x * cnt + y := v)"

definition build_table :: "dht_layout \<Rightarrow> dht_layout \<Rightarrow> ov_table" where
  "build_table new old =
     fold (\<lambda>i t. fold (\<lambda>j t. ov_set (lay_cnt new) i j (dht_overlap_calc old j new i) t) [0..<lay_cnt old] t)
       [0..<lay_cnt new] (\<lambda>_. 0)"

text \<open>The inner search for the best partner of position \<open>i\<close>: gain and index.\<close>

definition best_partner :: "dht_layout \<Rightarrow> ov_table \<Rightarrow> nat \<Rightarrow> u32 \<times> nat" where
  "best_partner new table i =
     fold (\<lambda>j (max_overlap, max_overlap_idx).
        if le_err (lay_list new ! j) > 0 then (max_overlap, max_overlap_idx)
        else let ov = ov_entry (lay_cnt new) table;
                 curr_overlap = ov i i + ov j j;
                 overlap = ov i j + ov j i
             in if overlap > curr_overlap \<and> overlap - curr_overlap > max_overlap
                then (overlap - curr_overlap, j) else (max_overlap, max_overlap_idx))
       [i + 1..<lay_cnt new] (0, i)"

definition swap_rows :: "nat \<Rightarrow> nat \<Rightarrow> nat \<Rightarrow> nat \<Rightarrow> ov_table \<Rightarrow> ov_table" where
  "swap_rows new_cnt old_cnt i k table =
     fold (\<lambda>j t. let overlap = ov_entry new_cnt t i j
                 in ov_set new_cnt k j overlap (ov_set new_cnt i j (ov_entry new_cnt t k j) t))
       [0..<old_cnt] table"

definition overlap_step :: "nat \<Rightarrow> nat \<Rightarrow> dht_layout \<times> ov_table \<Rightarrow> dht_layout \<times> ov_table" where
  "overlap_step old_cnt i s = (case s of (new, table) \<Rightarrow>
     if le_err (lay_list new ! i) > 0 then (new, table)
     else let k = snd (best_partner new table i) in
     if k \<noteq> i then (dht_layout_range_swap new i k, swap_rows (lay_cnt new) old_cnt i k table)
     else (new, table))"

text \<open>Both layouts are changed: \<open>old\<close> is sorted by name.\<close>

definition dht_selfheal_layout_maximize_overlap :: "dht_layout \<Rightarrow> dht_layout \<Rightarrow> dht_layout \<times> dht_layout" where
  "dht_selfheal_layout_maximize_overlap new old =
     (let old = dht_layout_sort_volname old;
          table = build_table new old
      in (fst (fold (overlap_step (lay_cnt old)) [0..<lay_cnt new] (new, table)), old))"

text \<open>The new layout for a directory; \<open>None\<close> when a subvolume is down.  A user-set
  layout is left alone.  The hand-over of the result to the inode is
  \<open>dht_layout_set\<close> and \<open>dht_layout_unref\<close> of \<open>Dht_Layout_Ref\<close>.\<close>

definition dht_fix_layout_of_directory :: "dht_conf \<Rightarrow> loc_t \<Rightarrow> dht_layout \<Rightarrow> dht_layout option" where
  "dht_fix_layout_of_directory priv loc layout =
     (if lay_type layout = DHT_HASH_TYPE_DM_USER then Some layout
      else let new_layout = dht_layout_new (Some priv) (length (subvolumes priv)) in
      if down (dht_layout_anomalies layout) \<noteq> 0 then None
      else let new_layout = fold (\<lambda>i l. upd_entry i (\<lambda>e.
                 e\<lparr>le_err := (if le_err (lay_list layout ! i) \<noteq> ENOSPC then le_err (lay_list layout ! i) else -1),
                   le_xlator := le_xlator (lay_list layout ! i)\<rparr>) l) [0..<lay_cnt new_layout] new_layout;
               new_layout = new_layout\<lparr>lay_commit_hash := lay_commit_hash layout\<rparr>;
               new_layout = dht_layout_sort_volname new_layout;
               new_layout = dht_selfheal_layout_new_directory priv loc new_layout
           in Some (fst (dht_selfheal_layout_maximize_overlap new_layout layout)))"

subsection \<open>The ranges of a new directory\<close>

text \<open>What the assignment loop does to the positions it gives a range to, in order.\<close>

fun assign_ranges :: "(nat \<times> u32) list \<Rightarrow> u32 \<Rightarrow> dht_layout \<Rightarrow> dht_layout" where
  "assign_ranges [] start l = l"
| "assign_ranges [(i, s)] start l = upd_entry i (\<lambda>e. e\<lparr>le_stop := 0xffffffff\<rparr>) (DHT_SET_LAYOUT_RANGE i start s l)"
| "assign_ranges ((i, s) # p # ps) start l = assign_ranges (p # ps) (start + s) (DHT_SET_LAYOUT_RANGE i start s l)"

lemma upd_entry_simps [simp]:
  "lay_cnt (upd_entry i f l) = lay_cnt l" "length (lay_list (upd_entry i f l)) = length (lay_list l)"
  "lay_commit_hash (upd_entry i f l) = lay_commit_hash l" "spread_cnt (upd_entry i f l) = spread_cnt l"
  "lay_type (upd_entry i f l) = lay_type l"
  "k < length (lay_list l) \<Longrightarrow> lay_list (upd_entry i f l) ! k = (if k = i then f (lay_list l ! k) else lay_list l ! k)"
  by (auto simp: upd_entry_def)

lemma upd_entry_list: "lay_list (upd_entry i f l) = (lay_list l)[i := f (lay_list l ! i)]"
  by (simp add: upd_entry_def)

lemma set_range_simps [simp]:
  "lay_cnt (DHT_SET_LAYOUT_RANGE i s c l) = lay_cnt l"
  "length (lay_list (DHT_SET_LAYOUT_RANGE i s c l)) = length (lay_list l)"
  "k < length (lay_list l) \<Longrightarrow> lay_list (DHT_SET_LAYOUT_RANGE i s c l) ! k =
     (if k = i then (lay_list l ! k)\<lparr>le_start := s, le_stop := s + c - 1, le_commit_hash := lay_commit_hash l\<rparr>
      else lay_list l ! k)"
  by (simp_all add: DHT_SET_LAYOUT_RANGE_def)

lemma assign_ranges_frame:
  "length (lay_list (assign_ranges ps st l)) = length (lay_list l)"
  "lay_cnt (assign_ranges ps st l) = lay_cnt l"
  "k < length (lay_list l) \<Longrightarrow> le_err (lay_list (assign_ranges ps st l) ! k) = le_err (lay_list l ! k)"
  "k < length (lay_list l) \<Longrightarrow> le_xlator (lay_list (assign_ranges ps st l) ! k) = le_xlator (lay_list l ! k)"
  "k < length (lay_list l) \<Longrightarrow> k \<notin> fst ` set ps \<Longrightarrow> lay_list (assign_ranges ps st l) ! k = lay_list l ! k"
  by (induction ps st l rule: assign_ranges.induct) auto

lemma assign_loop_ranges:
  assumes "0 \<le> used" "used < b" "nat (b - used) \<le> length (filter (\<lambda>i. el (lay_list l ! i)) order)"
    "\<forall>i\<in>set order. i < length (lay_list l)"
    and el: "el = (\<lambda>e. wants_range e \<and> (w \<longrightarrow> dht_get_chunks_from_xl conf (le_xlator e) \<noteq> 0))"
    and sz: "sz = (\<lambda>e. chunk * (if w then dht_get_chunks_from_xl conf (le_xlator e) else 1))"
  shows "assign_loop conf w chunk b order used start l =
    assign_ranges (take (nat (b - used)) (map (\<lambda>i. (i, sz (lay_list l ! i))) (filter (\<lambda>i. el (lay_list l ! i)) order))) start l"
  using assms(1-4)
proof (induction order arbitrary: used start l)
  case (Cons i order)
  let ?e = "lay_list l ! i"
  show ?case
  proof (cases "el ?e")
    case False
    then show ?thesis using Cons by (auto simp: el Let_def)
  next
    case True
    let ?l = "DHT_SET_LAYOUT_RANGE i start (sz ?e) l"
    have same: "el (lay_list ?l ! k) = el (lay_list l ! k)" "sz (lay_list ?l ! k) = sz (lay_list l ! k)" if "k < length (lay_list l)" for k
      using that by (auto simp: el sz wants_range_def)
    have f: "filter (\<lambda>k. el (lay_list ?l ! k)) order = filter (\<lambda>k. el (lay_list l ! k)) order"
      using Cons.prems(4) same by (intro filter_cong) auto
    have step: "assign_loop conf w chunk b (i # order) used start l =
       (if used + 1 \<ge> b then upd_entry i (\<lambda>e. e\<lparr>le_stop := 0xffffffff\<rparr>) ?l
        else assign_loop conf w chunk b order (used + 1) (start + sz ?e) ?l)"
      using True by (auto simp: el sz Let_def)
    show ?thesis
    proof (cases "used + 1 \<ge> b")
      case True
      then have "nat (b - used) = 1" using Cons.prems by auto
      then show ?thesis using step True \<open>el ?e\<close> by simp
    next
      case False
      then have n: "nat (b - used) = Suc (nat (b - (used + 1)))" "0 < nat (b - (used + 1))" using Cons.prems by auto
      have "nat (b - (used + 1)) \<le> length (filter (\<lambda>k. el (lay_list ?l ! k)) order)"
        using Cons.prems(3) \<open>el ?e\<close> n(1) by (simp add: f)
      then have ih: "assign_loop conf w chunk b order (used + 1) (start + sz ?e) ?l = assign_ranges
          (take (nat (b - (used + 1))) (map (\<lambda>k. (k, sz (lay_list ?l ! k))) (filter (\<lambda>k. el (lay_list ?l ! k)) order))) (start + sz ?e) ?l"
        using Cons.prems False by (intro Cons.IH) auto
      have m: "map (\<lambda>k. (k, sz (lay_list ?l ! k))) (filter (\<lambda>k. el (lay_list l ! k)) order) =
          map (\<lambda>k. (k, sz (lay_list l ! k))) (filter (\<lambda>k. el (lay_list l ! k)) order)"
        using Cons.prems(4) same by (intro map_cong) auto
      define ps where "ps = map (\<lambda>k. (k, sz (lay_list l ! k))) (filter (\<lambda>k. el (lay_list l ! k)) order)"
      have "take (nat (b - (used + 1))) ps \<noteq> []"
        using n Cons.prems(3) \<open>el ?e\<close> by (auto simp: ps_def)
      then obtain p qs where pq: "take (nat (b - (used + 1))) ps = p # qs" by (cases "take (nat (b - (used + 1))) ps") auto
      show ?thesis
        using step False ih m f \<open>el ?e\<close> n(1) pq by (simp add: ps_def)
    qed
  qed
qed simp

lemma u32_max: "(0xffffffff :: u32) = - 1"
  by simp

lemma assign_ranges_hash:
  assumes "ps \<noteq> []" "distinct (map fst ps)" "\<forall>p\<in>set ps. fst p < length (lay_list l) \<and> 2 \<le> unat (snd p)"
    "unat st + (\<Sum>p\<leftarrow>ps. unat (snd p)) < 2 ^ 32"
  shows "(\<forall>p\<in>set ps. le_start (lay_list (assign_ranges ps st l) ! fst p) < le_stop (lay_list (assign_ranges ps st l) ! fst p)) \<and>
    length (filter (\<lambda>p. in_range h (lay_list (assign_ranges ps st l) ! fst p)) ps) = (if st \<le> h then 1 else 0)"
  using assms
proof (induction ps st l rule: assign_ranges.induct)
  case (2 i s st l)
  let ?e = "lay_list (assign_ranges [(i, s)] st l) ! i"
  have e: "le_start ?e = st" "le_stop ?e = - 1" using 2 by (simp_all add: u32_max)
  have "st < - 1" using 2 by (simp add: word_less_nat_alt unsigned_minus_1_eq_mask mask_eq_exp_minus_1)
  with e show ?case by (simp add: in_range_def)
next
  case (3 i s p ps st l)
  let ?l = "DHT_SET_LAYOUT_RANGE i st s l" and ?r = "assign_ranges ((i, s) # p # ps) st l"
  have s2: "2 \<le> unat s" and i: "i < length (lay_list l)" using 3 by auto
  have sum: "unat st + unat s + (\<Sum>p\<leftarrow>p # ps. unat (snd p)) < 2 ^ 32" using "3.prems"(4) by simp
  then have "unat st + unat s < 2 ^ 32" by linarith
  then have us: "unat (st + s) = unat st + unat s" using unat_add_lem [of st s] by simp
  have ih: "(\<forall>q\<in>set (p # ps). le_start (lay_list ?r ! fst q) < le_stop (lay_list ?r ! fst q)) \<and>
    length (filter (\<lambda>q. in_range h (lay_list ?r ! fst q)) (p # ps)) = (if st + s \<le> h then 1 else 0)"
    unfolding assign_ranges.simps(3) by (rule "3.IH") (use "3.prems"(2,3) us sum in auto)
  have "lay_list ?r ! i = lay_list ?l ! i"
    using "3.prems"(2) i by (simp only: assign_ranges.simps) (subst assign_ranges_frame(5), auto)
  then have e: "le_start (lay_list ?r ! i) = st" "le_stop (lay_list ?r ! i) = st + s - 1" using i by simp_all
  have "st + s \<noteq> 0" using us s2 by (auto simp: word_unat_eq_iff)
  then have ust: "unat (st + s - 1) = unat st + unat s - 1"
    using us by (simp add: unat_minus_one)
  have lt: "st < st + s - 1" using ust s2 by (simp add: word_less_nat_alt)
  have r: "in_range h (lay_list ?r ! i) \<longleftrightarrow> st \<le> h \<and> \<not> st + s \<le> h"
    unfolding in_range_def e word_le_nat_alt ust us using s2 by linarith
  have le: "st \<le> h" if "st + s \<le> h" using that us by (simp add: word_le_nat_alt)
  have "length (filter (\<lambda>q. in_range h (lay_list ?r ! fst q)) ((i, s) # p # ps)) =
      (if in_range h (lay_list ?r ! i) then 1 else 0) + length (filter (\<lambda>q. in_range h (lay_list ?r ! fst q)) (p # ps))"
    by simp
  with ih r le have "length (filter (\<lambda>q. in_range h (lay_list ?r ! fst q)) ((i, s) # p # ps)) = (if st \<le> h then 1 else 0)"
    by (simp split: if_splits)
  moreover have "\<forall>q\<in>set ((i, s) # p # ps). le_start (lay_list ?r ! fst q) < le_stop (lay_list ?r ! fst q)"
    using ih lt e by simp
  ultimately show ?case by blast
qed simp

lemma rotation_perm:
  assumes "0 < n"
  shows "set (rotation s n) = {0..<n}" "distinct (rotation s n)"
proof -
  have inj: "inj_on (\<lambda>r. (r + s) mod n) {0..<n}"
  proof
    fix x y
    assume xy: "x \<in> {0..<n}" "y \<in> {0..<n}" and "(x + s) mod n = (y + s) mod n"
    then have "int x mod int n = int y mod int n"
      by (metis add_diff_cancel_right' mod_diff_left_eq of_nat_add of_nat_mod)
    then show "x = y" using xy by simp
  qed
  then show "distinct (rotation s n)" by (simp add: rotation_def distinct_map)
  have "(\<lambda>r. (r + s) mod n) ` {0..<n} \<subseteq> {0..<n}" using assms by auto
  then have "(\<lambda>r. (r + s) mod n) ` {0..<n} = {0..<n}" using inj by (intro card_subset_eq) (auto simp: card_image)
  then show "set (rotation s n) = {0..<n}" by (simp add: rotation_def)
qed

lemma filter_rotation_length:
  assumes "0 < length xs"
  shows "length (filter (\<lambda>i. P (xs ! i)) (rotation s (length xs))) = length (filter P xs)"
proof -
  have "length (filter (\<lambda>i. P (xs ! i)) (rotation s (length xs))) = card {i. i < length xs \<and> P (xs ! i)}"
  proof -
    have "distinct (filter (\<lambda>i. P (xs ! i)) (rotation s (length xs)))" using rotation_perm(2) [OF assms] by simp
    then have "length (filter (\<lambda>i. P (xs ! i)) (rotation s (length xs))) = card (set (filter (\<lambda>i. P (xs ! i)) (rotation s (length xs))))"
      by (rule distinct_card [symmetric])
    also have "set (filter (\<lambda>i. P (xs ! i)) (rotation s (length xs))) = {i. i < length xs \<and> P (xs ! i)}"
      using rotation_perm(1) [OF assms, of s] by auto
    finally show ?thesis .
  qed
  then show ?thesis by (simp add: length_filter_conv_card)
qed

definition has_range :: "layout_entry \<Rightarrow> bool" where
  "has_range e \<longleftrightarrow> le_start e \<noteq> le_stop e"

lemma filter_one_unique:
  assumes "length (filter (\<lambda>x. Q (f x)) xs) = 1"
  shows "\<exists>!i. i \<in> f ` set xs \<and> Q i"
proof -
  obtain x where x: "filter (\<lambda>x. Q (f x)) xs = [x]"
    using assms by (cases "filter (\<lambda>x. Q (f x)) xs") auto
  have *: "y \<in> set xs \<and> Q (f y) \<longleftrightarrow> y = x" for y
    using arg_cong [OF x, of set] by auto
  show ?thesis
  proof (rule ex1I [of _ "f x"])
    show "f x \<in> f ` set xs \<and> Q (f x)" using * [of x] by simp
    fix i
    assume "i \<in> f ` set xs \<and> Q i"
    then obtain y where "y \<in> set xs" "i = f y" "Q (f y)" by auto
    then show "i = f x" using * [of y] by simp
  qed
qed

lemma assign_loop_covers:
  assumes n: "0 < length (lay_list l)" "\<forall>e\<in>set (lay_list l). le_start e = le_stop e"
    and b: "0 < b" "nat b \<le> length (filter el (lay_list l))"
    and el: "el = (\<lambda>e. wants_range e \<and> (w \<longrightarrow> dht_get_chunks_from_xl conf (le_xlator e) \<noteq> 0))"
    and sz: "sz = (\<lambda>e. chunk * (if w then dht_get_chunks_from_xl conf (le_xlator e) else 1))"
    and ps: "ps = take (nat b) (map (\<lambda>i. (i, sz (lay_list l ! i))) (filter (\<lambda>i. el (lay_list l ! i)) (rotation s (length (lay_list l)))))"
    and sizes: "\<forall>p\<in>set ps. 2 \<le> unat (snd p)" "(\<Sum>p\<leftarrow>ps. unat (snd p)) < 2 ^ 32"
    and r: "r = assign_loop conf w chunk b (rotation s (length (lay_list l))) 0 0 l"
  shows "\<exists>!i. i < length (lay_list r) \<and> has_range (lay_list r ! i) \<and> in_range h (lay_list r ! i)"
proof -
  have rot: "set (rotation s (length (lay_list l))) = {0..<length (lay_list l)}" "distinct (rotation s (length (lay_list l)))"
    using rotation_perm [OF n(1)] by auto
  have len: "nat b \<le> length (filter (\<lambda>i. el (lay_list l ! i)) (rotation s (length (lay_list l))))"
    using b(2) filter_rotation_length [OF n(1)] by simp
  have ra: "r = assign_ranges ps 0 l"
    unfolding r ps using assign_loop_ranges [OF _ _ _ _ el sz, of 0 b l "rotation s (length (lay_list l))" 0] b len rot by simp
  have fst: "map fst ps = take (nat b) (filter (\<lambda>i. el (lay_list l ! i)) (rotation s (length (lay_list l))))"
    by (simp add: ps take_map comp_def)
  have dist: "distinct (map fst ps)" unfolding fst using rot(2) by (simp add: distinct_take)
  have ne: "ps \<noteq> []" using b len by (auto simp: ps)
  have pos: "fst p < length (lay_list l)" if "p \<in> set ps" for p
  proof -
    have "fst p \<in> set (map fst ps)" using that by simp
    then show ?thesis unfolding fst using rot(1) by (auto dest!: in_set_takeD)
  qed
  have core: "\<forall>p\<in>set ps. le_start (lay_list r ! fst p) < le_stop (lay_list r ! fst p)"
    "length (filter (\<lambda>p. in_range h (lay_list r ! fst p)) ps) = 1"
    using assign_ranges_hash [OF ne dist, of l 0 h] pos sizes ra by auto
  have outside: "\<not> has_range (lay_list r ! i)" if "i < length (lay_list l)" "i \<notin> fst ` set ps" for i
    using that n(2) assign_ranges_frame(5) [of i l ps 0] ra by (simp add: has_range_def)
  have lenr: "length (lay_list r) = length (lay_list l)" by (simp add: ra assign_ranges_frame)
  have "\<exists>!i. i \<in> fst ` set ps \<and> in_range h (lay_list r ! i)"
    using filter_one_unique [where f = fst and Q = "\<lambda>i. in_range h (lay_list r ! i)" and xs = ps] core(2) by simp
  moreover have "i < length (lay_list r) \<and> has_range (lay_list r ! i) \<and> in_range h (lay_list r ! i) \<longleftrightarrow>
      i \<in> fst ` set ps \<and> in_range h (lay_list r ! i)" for i
    using outside [of i] lenr pos core(1) by (auto simp: has_range_def)
  ultimately show ?thesis by simp
qed

lemma layout_count:
  assumes g: "dht_get_layout_count conf l True = (b, m)" and sp: "0 \<le> spread_cnt l"
    and c: "0 < length (filter wants_range (lay_list m))"
  shows "0 < b" "nat b \<le> length (filter wants_range (lay_list m))"
    "spread_cnt l = 0 \<or> int (length (lay_list l)) \<le> spread_cnt l \<Longrightarrow> nat b = length (filter wants_range (lay_list m))"
    "length (lay_list m) = length (lay_list l)" "lay_cnt m = lay_cnt l"
    "map le_xlator (lay_list m) = map le_xlator (lay_list l)"
proof -
  define l0 where "l0 = map_err (\<lambda>e.
      if \<exists>b\<in>set (take (length (subvolumes conf)) (decommissioned_bricks conf)). is_decommissioned conf e b
      then EINVAL else le_err e) l"
  define k where "k = int (length (filter (\<lambda>e. usable_err (le_err e)) (lay_list l0)))"
  define l1 where "l1 = map_err (\<lambda>e. if usable_err (le_err e) \<and> le_err e = 0 then -1 else le_err e) l0"
  define z where "z = int (length (filter (\<lambda>e. le_err e = ENOSPC) (lay_list l1)))"
  define l2 where "l2 = map_err (\<lambda>e. if le_err e = ENOSPC then -1 else le_err e) l1"
  have sp': "spread_cnt l1 = spread_cnt l" "spread_cnt l2 = spread_cnt l" by (simp_all add: l0_def l1_def l2_def map_err_def)
  define cnt where "cnt = (if k = 0 then z else k)"
  have m: "m = (if k = 0 then l2 else l1)"
    and bb: "b = (if spread_cnt l \<noteq> 0 \<and> spread_cnt l \<le> cnt then spread_cnt l else if cnt \<noteq> 0 then cnt else 1)"
    using g sp' unfolding dht_get_layout_count_def Let_def l0_def [symmetric] k_def [symmetric] l1_def [symmetric]
      z_def [symmetric] l2_def [symmetric] cnt_def by (auto split: if_splits)
  have w1: "int (length (filter wants_range (lay_list l1))) = k"
    unfolding l1_def k_def map_err_def
    by (simp add: filter_map comp_def) (rule arg_cong [of _ _ length], rule filter_cong, auto simp: usable_err_def wants_range_def)
  have w2: "int (length (filter wants_range (lay_list l2))) = z" if "k = 0"
  proof -
    have "\<forall>e\<in>set (lay_list l1). \<not> wants_range e" using w1 that by (auto simp: filter_empty_conv)
    then show ?thesis unfolding l2_def z_def map_err_def
      by (simp add: filter_map comp_def) (rule arg_cong [of _ _ length], rule filter_cong, auto simp: wants_range_def)
  qed
  have cc: "cnt = int (length (filter wants_range (lay_list m)))" using w1 w2 m by (simp add: cnt_def)
  show len: "length (lay_list m) = length (lay_list l)" "lay_cnt m = lay_cnt l"
    "map le_xlator (lay_list m) = map le_xlator (lay_list l)"
    by (simp_all add: m l0_def l1_def l2_def map_err_def)
  show "0 < b" "nat b \<le> length (filter wants_range (lay_list m))" using bb cc c sp by auto
  show "nat b = length (filter wants_range (lay_list m))"
    if "spread_cnt l = 0 \<or> int (length (lay_list l)) \<le> spread_cnt l"
  proof -
    have "cnt \<le> int (length (lay_list l))" using cc len(1) length_filter_le [of wants_range "lay_list m"] by linarith
    then show ?thesis using that bb cc c by auto
  qed
qed

text \<open>The conditions under which the division is exact: fewer than $2^{31}$ entries, a
  spread count that is not negative, and, when bricks are weighted by size,
  no spread count below the number of bricks and a total weight below $2^{31}$.\<close>

definition heal_conf_ok :: "dht_conf \<Rightarrow> dht_layout \<Rightarrow> bool" where
  "heal_conf_ok conf l \<longleftrightarrow> layout_ok l \<and> length (lay_list l) < 2 ^ 31 \<and> 0 \<le> spread_cnt l \<and>
     (do_weighting conf \<longrightarrow> (spread_cnt l = 0 \<or> int (length (lay_list l)) \<le> spread_cnt l) \<and>
        (\<Sum>e\<leftarrow>lay_list l. unat (dht_get_chunks_from_xl conf (le_xlator e))) < 2 ^ 31)"

lemma weight_loop_total:
  assumes "0 \<le> used" "int (length (filter wants_range es)) = b - used"
    "unat tot + (\<Sum>e\<leftarrow>filter wants_range es. unat (dht_get_chunks_from_xl conf (le_xlator e))) < 2 ^ 32"
    "weight_loop conf b es used tot w = (t, True)"
  shows "w \<and> unat t = unat tot + (\<Sum>e\<leftarrow>filter wants_range es. unat (dht_get_chunks_from_xl conf (le_xlator e))) \<and>
    (\<forall>e\<in>set es. wants_range e \<longrightarrow> dht_get_chunks_from_xl conf (le_xlator e) \<noteq> 0)"
  using assms
proof (induction es arbitrary: used tot)
  case (Cons e es)
  show ?case
  proof (cases "wants_range e")
    case False
    then show ?thesis using Cons by auto
  next
    case True
    let ?c = "dht_get_chunks_from_xl conf (le_xlator e)"
    have nz: "?c \<noteq> 0" using Cons.prems(4) True by (auto simp: Let_def)
    have sum: "unat tot + unat ?c + (\<Sum>e\<leftarrow>filter wants_range es. unat (dht_get_chunks_from_xl conf (le_xlator e))) < 2 ^ 32"
      using Cons.prems(3) True by simp
    then have "unat tot + unat ?c < 2 ^ 32" by linarith
    then have ua: "unat (tot + ?c) = unat tot + unat ?c" using unat_add_lem [of tot ?c] by simp
    show ?thesis
    proof (cases "used + 1 \<ge> b")
      case T: True
      have "int (length (filter wants_range (e # es))) = 1 + int (length (filter wants_range es))"
        using True by simp
      then have "length (filter wants_range es) = 0" using Cons.prems(2) T by linarith
      then have "filter wants_range es = []" by simp
      then have "\<forall>e\<in>set es. \<not> wants_range e" by (simp add: filter_empty_conv)
      then show ?thesis using Cons.prems(4) True T nz ua \<open>filter wants_range es = []\<close> by (auto simp: Let_def)
    next
      case F: False
      have "weight_loop conf b es (used + 1) (tot + ?c) w = (t, True)"
        using Cons.prems(4) True F nz by (simp add: Let_def)
      then have "w \<and> unat t = unat (tot + ?c) + (\<Sum>e\<leftarrow>filter wants_range es. unat (dht_get_chunks_from_xl conf (le_xlator e))) \<and>
          (\<forall>e\<in>set es. wants_range e \<longrightarrow> dht_get_chunks_from_xl conf (le_xlator e) \<noteq> 0)"
        using Cons.prems(1,2) True sum ua by (intro Cons.IH) auto
      then show ?thesis using True nz ua by auto
    qed
  qed
qed simp

lemma weight_loop_flag: "weight_loop conf b es used tot w = (t, True) \<Longrightarrow> w"
  by (induction es arbitrary: used tot) (auto simp: Let_def split: if_splits)

lemma sum_filter_rotation:
  assumes "0 < length xs"
  shows "(\<Sum>i\<leftarrow>filter (\<lambda>i. P (xs ! i)) (rotation s (length xs)). f (xs ! i)) = (\<Sum>x\<leftarrow>filter P xs. f x :: nat)"
proof -
  have "(\<Sum>i\<leftarrow>filter (\<lambda>i. P (xs ! i)) (rotation s (length xs)). f (xs ! i)) = (\<Sum>i | i < length xs \<and> P (xs ! i). f (xs ! i))"
    using rotation_perm [OF assms, of s]
    by (subst sum_list_distinct_conv_sum_set) (auto intro: sum.cong)
  also have "\<dots> = (\<Sum>i\<leftarrow>filter (\<lambda>i. P (xs ! i)) [0..<length xs]. f (xs ! i))"
    by (subst sum_list_distinct_conv_sum_set) (auto intro: sum.cong)
  also have "\<dots> = (\<Sum>x\<leftarrow>filter P (map ((!) xs) [0..<length xs]). f x)"
    by (simp add: filter_map comp_def)
  finally show ?thesis by (simp add: map_nth)
qed

lemma sum_list_filter_le: "(\<Sum>x\<leftarrow>filter P xs. f x) \<le> (\<Sum>x\<leftarrow>xs. f x :: nat)"
  by (induction xs) auto

lemma sum_list_take_le: "(\<Sum>x\<leftarrow>take n xs. f x) \<le> (\<Sum>x\<leftarrow>xs. f x :: nat)"
  by (metis append_take_drop_id le_add1 map_append sum_list_append)

lemma chunk_bounds:
  assumes "0 < n" "n < 2 ^ 31"
  shows "2 \<le> (0xffffffff :: nat) div n" "n * (0xffffffff div n) < 2 ^ 32"
proof -
  have "2 * n \<le> 0xffffffff" using assms(2) by simp
  then show "2 \<le> (0xffffffff :: nat) div n" using assms(1) by (simp add: less_eq_div_iff_mult_less_eq)
  have "n * (0xffffffff div n) \<le> 0xffffffff" by (rule times_div_less_eq_dividend)
  then show "n * (0xffffffff div n) < 2 ^ 32" by (rule order.strict_trans1) simp
qed

lemma unat_chunk_int:
  assumes "0 < b" "nat b < 2 ^ 31"
  shows "unat (word_of_int (0xffffffff div b) :: u32) = 0xffffffff div nat b"
proof -
  have "0xffffffff div b = int (0xffffffff div nat b)" using assms by (simp add: zdiv_int)
  moreover have "(0xffffffff :: nat) div nat b < 2 ^ 32"
    by (rule le_less_trans [OF div_le_dividend]) simp
  ultimately show ?thesis by (simp add: unat_of_nat)
qed

lemma unat_mult_no_overflow:
  "unat x * unat y < 2 ^ 32 \<Longrightarrow> unat (x * y :: u32) = unat x * unat y"
  using unat_mult_lem [of x y] by simp

lemma wants_range_reset [simp]: "wants_range (e\<lparr>le_start := a, le_stop := b\<rparr>) = wants_range e"
  by (simp add: wants_range_def)

text \<open>The sizes handed out fit the space, without and with weights.\<close>

lemma sizes_plain:
  assumes "0 < b" "nat b < 2 ^ 31" and ch: "chunk = (word_of_int (0xffffffff div b) :: u32)"
  shows "\<forall>p\<in>set (take (nat b) (map (\<lambda>i. (i, chunk)) qs)). 2 \<le> unat (snd p)"
    "(\<Sum>p\<leftarrow>take (nat b) (map (\<lambda>i. (i, chunk)) qs). unat (snd p)) < 2 ^ 32"
proof -
  have bd: "2 \<le> unat chunk" "nat b * unat chunk < 2 ^ 32"
    using chunk_bounds [of "nat b"] assms by (auto simp: unat_chunk_int)
  have "(\<Sum>p\<leftarrow>take (nat b) (map (\<lambda>i. (i, chunk)) qs). unat (snd p)) = length (take (nat b) qs) * unat chunk"
    by (simp add: take_map comp_def sum_list_triv)
  also have "\<dots> \<le> nat b * unat chunk" by simp
  finally show "(\<Sum>p\<leftarrow>take (nat b) (map (\<lambda>i. (i, chunk)) qs). unat (snd p)) < 2 ^ 32" using bd(2) by linarith
  show "\<forall>p\<in>set (take (nat b) (map (\<lambda>i. (i, chunk)) qs)). 2 \<le> unat (snd p)"
    using bd(1) by (auto dest!: in_set_takeD)
qed

lemma sizes_weighted:
  fixes c :: "nat \<Rightarrow> u32"
  assumes S: "(\<Sum>i\<leftarrow>qs. unat (c i)) = unat t" "0 < unat t" "unat t < 2 ^ 31" and nz: "\<forall>i\<in>set qs. c i \<noteq> 0"
    and ch: "chunk = 0xffffffff div t"
  shows "\<forall>p\<in>set (take n (map (\<lambda>i. (i, chunk * c i)) qs)). 2 \<le> unat (snd p)"
    "(\<Sum>p\<leftarrow>take n (map (\<lambda>i. (i, chunk * c i)) qs). unat (snd p)) < 2 ^ 32"
proof -
  have bd: "2 \<le> unat chunk" "unat chunk * unat t < 2 ^ 32"
    using chunk_bounds [OF S(2,3)] by (simp_all add: ch unat_div mult.commute)
  have one: "unat (chunk * c i) = unat chunk * unat (c i) \<and> 2 \<le> unat (chunk * c i)" if i: "i \<in> set qs" for i
  proof -
    have "unat (c i) \<le> unat t" unfolding S(1) [symmetric] using i by (intro member_le_sum_list) auto
    then have "unat chunk * unat (c i) < 2 ^ 32" using bd(2) by (meson le_less_trans mult_le_mono2)
    then have u: "unat (chunk * c i) = unat chunk * unat (c i)" by (rule unat_mult_no_overflow)
    have "0 < unat (c i)" using nz i by (auto simp: unat_gt_0)
    then have "2 * 1 \<le> unat chunk * unat (c i)" using bd(1) by (intro mult_le_mono) auto
    with u show ?thesis by simp
  qed
  have "(\<Sum>p\<leftarrow>take n (map (\<lambda>i. (i, chunk * c i)) qs). unat (snd p)) \<le> (\<Sum>i\<leftarrow>qs. unat (chunk * c i))"
    using sum_list_take_le [of "\<lambda>p. unat (snd p)" n "map (\<lambda>i. (i, chunk * c i)) qs"] by (simp add: comp_def)
  also have "\<dots> = (\<Sum>i\<leftarrow>qs. unat chunk * unat (c i))" using one by (intro arg_cong [of _ _ sum_list] map_cong) auto
  also have "\<dots> = unat chunk * unat t" by (simp add: sum_list_const_mult S(1))
  finally show "(\<Sum>p\<leftarrow>take n (map (\<lambda>i. (i, chunk * c i)) qs). unat (snd p)) < 2 ^ 32" using bd(2) by linarith
  show "\<forall>p\<in>set (take n (map (\<lambda>i. (i, chunk * c i)) qs)). 2 \<le> unat (snd p)"
  proof
    fix p
    assume "p \<in> set (take n (map (\<lambda>i. (i, chunk * c i)) qs))"
    then obtain i where "i \<in> set qs" "p = (i, chunk * c i)" by (auto dest!: in_set_takeD)
    with one [of i] show "2 \<le> unat (snd p)" by simp
  qed
qed

text \<open>The weights of the usable bricks, and what the first loop makes of them.\<close>

lemma weighted_total:
  assumes ok: "heal_conf_ok conf l" and g: "dht_get_layout_count conf l True = (b, m)"
    and c: "0 < length (filter wants_range (lay_list m))"
    and wl: "weight_loop conf b (lay_list m) 0 0 (do_weighting conf) = (t, True)"
  shows "nat b = length (filter wants_range (lay_list m))"
    "unat t = (\<Sum>e\<leftarrow>filter wants_range (lay_list m). unat (dht_get_chunks_from_xl conf (le_xlator e)))"
    "unat t < 2 ^ 31" "\<forall>e\<in>set (lay_list m). wants_range e \<longrightarrow> dht_get_chunks_from_xl conf (le_xlator e) \<noteq> 0"
proof -
  let ?c = "\<lambda>e. unat (dht_get_chunks_from_xl conf (le_xlator e))"
  let ?S = "\<Sum>e\<leftarrow>filter wants_range (lay_list m). ?c e"
  have w: "do_weighting conf" using weight_loop_flag [OF wl] .
  have sp: "0 \<le> spread_cnt l" using ok by (simp add: heal_conf_ok_def)
  note lc = layout_count [OF g sp c]
  show bk: "nat b = length (filter wants_range (lay_list m))" using lc(3) ok w by (auto simp: heal_conf_ok_def)
  have "(\<Sum>e\<leftarrow>lay_list m. ?c e) = (\<Sum>x\<leftarrow>map le_xlator (lay_list m). unat (dht_get_chunks_from_xl conf x))"
    by (simp add: comp_def)
  also have "\<dots> = (\<Sum>e\<leftarrow>lay_list l. ?c e)" using lc(6) by (simp add: comp_def)
  finally have S31: "?S < 2 ^ 31"
    using ok w sum_list_filter_le [of ?c wants_range "lay_list m"] by (auto simp: heal_conf_ok_def)
  have "int (length (filter wants_range (lay_list m))) = b - 0" using bk lc(1) by simp
  from weight_loop_total [OF _ this, of 0 conf "do_weighting conf" t] wl S31
  show "unat t = ?S" "\<forall>e\<in>set (lay_list m). wants_range e \<longrightarrow> dht_get_chunks_from_xl conf (le_xlator e) \<noteq> 0"
    by auto
  then show "unat t < 2 ^ 31" using S31 by simp
qed

lemma reset_list:
  "lay_list (DHT_RESET_LAYOUT_RANGE m) = map (\<lambda>e. e\<lparr>le_start := 0, le_stop := 0\<rparr>) (lay_list m)"
  "lay_cnt (DHT_RESET_LAYOUT_RANGE m) = lay_cnt m"
  by (simp_all add: DHT_RESET_LAYOUT_RANGE_def)

lemma new_directory_unfold:
  assumes "dht_get_layout_count conf l True = (b, m)" "lay_cnt m = length (lay_list m)"
    "weight_loop conf b (lay_list m) 0 0 (do_weighting conf) = (t, w)"
  shows "dht_selfheal_layout_new_directory conf loc l =
    assign_loop conf (w \<and> t \<noteq> 0) (if w \<and> t \<noteq> 0 then 0xffffffff div t else word_of_int (0xffffffff div b)) b
      (rotation (dht_selfheal_layout_alloc_start conf loc m) (length (lay_list m))) 0 0 (DHT_RESET_LAYOUT_RANGE m)"
  using assms by (cases "w \<and> t \<noteq> 0") (auto simp: dht_selfheal_layout_new_directory_def reset_list)

text \<open>C10. Laying out a new directory gives every hash value to exactly one subvolume:
  after \<open>dht_selfheal_layout_new_directory\<close>, whatever rotation the directory's
  name selects, each 32-bit hash lies in the non-empty range of exactly one
  entry, provided some subvolume is usable.  The layout has fewer than $2^{31}$ entries and a spread count that is not
  negative; when bricks are weighted, the spread count is 0 or at least the number of bricks, and the weights
  sum to less than $2^{31}$.\<close>

theorem new_directory_partitions:
  assumes ok: "heal_conf_ok conf l" and use: "\<exists>e\<in>set (lay_list (snd (dht_get_layout_count conf l True))). wants_range e"
    and r: "r = dht_selfheal_layout_new_directory conf loc l"
  shows "\<exists>!i. i < length (lay_list r) \<and> has_range (lay_list r ! i) \<and> in_range h (lay_list r ! i)"
proof -
  obtain b m where g: "dht_get_layout_count conf l True = (b, m)" by fastforce
  obtain t w where wl: "weight_loop conf b (lay_list m) 0 0 (do_weighting conf) = (t, w)" by fastforce
  define ww where "ww = (w \<and> t \<noteq> 0)"
  let ?z = "DHT_RESET_LAYOUT_RANGE m"
  let ?zs = "lay_list ?z" and ?wt = "\<lambda>e. dht_get_chunks_from_xl conf (le_xlator e)"
  have c: "0 < length (filter wants_range (lay_list m))" using use g by (auto simp: filter_empty_conv)
  have sp: "0 \<le> spread_cnt l" "length (lay_list l) < 2 ^ 31" "layout_ok l" using ok by (auto simp: heal_conf_ok_def)
  note lc = layout_count [OF g sp(1) c]
  have n: "lay_cnt m = length (lay_list m)" "length ?zs = length (lay_list m)" using lc sp by (auto simp: layout_ok_def reset_list)
  have pos: "0 < length ?zs" using c n(2) length_filter_le [of wants_range "lay_list m"] by linarith
  have zero: "\<forall>e\<in>set ?zs. le_start e = le_stop e" by (auto simp: reset_list)
  define s where "s = dht_selfheal_layout_alloc_start conf loc m"
  define chunk where "chunk = (if ww then 0xffffffff div t else word_of_int (0xffffffff div b))"
  have r': "r = assign_loop conf ww chunk b (rotation s (length ?zs)) 0 0 ?z"
    unfolding r new_directory_unfold [OF g n(1) wl] n(2) s_def chunk_def ww_def ..
  note cover = assign_loop_covers [OF pos zero lc(1) _ refl refl refl _ _ r']
  let ?el = "\<lambda>e. wants_range e \<and> (ww \<longrightarrow> ?wt e \<noteq> 0)"
  show ?thesis
  proof (cases ww)
    case False
    then have ch: "chunk = word_of_int (0xffffffff div b)" by (simp add: chunk_def)
    have "nat b < 2 ^ 31" using lc(2,4) sp(2) length_filter_le [of wants_range "lay_list m"] by linarith
    note sz = sizes_plain [OF lc(1) this ch]
    have "length (filter ?el ?zs) = length (filter wants_range (lay_list m))"
      using False by (simp add: reset_list filter_map comp_def)
    then show ?thesis by (intro cover) (use False sz lc(2) in simp_all)
  next
    case True
    then have wl': "weight_loop conf b (lay_list m) 0 0 (do_weighting conf) = (t, True)" "0 < unat t"
      using wl by (auto simp: unat_gt_0 ww_def)
    note wt = weighted_total [OF ok g c wl'(1)]
    have el: "filter ?el ?zs = map (\<lambda>e. e\<lparr>le_start := 0, le_stop := 0\<rparr>) (filter wants_range (lay_list m))"
    proof -
      have "filter ?el (lay_list m) = filter wants_range (lay_list m)" using wt(4) by (intro filter_cong) auto
      then show ?thesis by (simp add: reset_list filter_map comp_def)
    qed
    let ?qs = "filter (\<lambda>i. ?el (?zs ! i)) (rotation s (length ?zs))"
    have sum: "(\<Sum>i\<leftarrow>?qs. unat (?wt (?zs ! i))) = unat t"
      using sum_filter_rotation [OF pos, where P = ?el and s = s and f = "\<lambda>e. unat (?wt e)"] unfolding el wt(2)
      by (simp add: comp_def)
    have nz: "\<forall>i\<in>set ?qs. ?wt (?zs ! i) \<noteq> 0" using True by auto
    have ch: "chunk = 0xffffffff div t" using True by (simp add: chunk_def)
    note sz = sizes_weighted [OF sum wl'(2) wt(3) nz ch]
    have "nat b \<le> length (filter ?el ?zs)" unfolding el wt(1) by simp
    then show ?thesis by (intro cover) (use True sz in simp_all)
  qed
qed

definition fresh_dir :: dht_layout where
  "fresh_dir = sample_layout [(sample_entry 1 0 0)\<lparr>le_err := -1\<rparr>, (sample_entry 2 0 0)\<lparr>le_err := ENOENT\<rparr>]"

definition sample_loc :: loc_t where
  "sample_loc = \<lparr>loc_path = ''/a'', loc_gfid_str = ''0''\<rparr>"

theorem new_directory_partitions_witness:
  "\<exists>!i. i < length (lay_list (dht_selfheal_layout_new_directory sample_conf sample_loc fresh_dir)) \<and>
     has_range (lay_list (dht_selfheal_layout_new_directory sample_conf sample_loc fresh_dir) ! i) \<and>
     in_range 7 (lay_list (dht_selfheal_layout_new_directory sample_conf sample_loc fresh_dir) ! i)"
  by (rule new_directory_partitions [OF _ _ refl])
    (simp_all add: heal_conf_ok_def fresh_dir_def sample_simps sample_conf_def dht_get_layout_count_def map_err_def
      is_decommissioned_def usable_err_def wants_range_def Let_def)

subsection \<open>What keeping an old layout preserves\<close>

definition le_range :: "layout_entry \<Rightarrow> u32 \<times> u32" where
  "le_range e = (le_start e, le_stop e)"

definition le_rest :: "layout_entry \<Rightarrow> int \<times> xlator_t option" where
  "le_rest e = (le_err e, le_xlator e)"

lemma ex1_filter: "(\<exists>!i. i < length xs \<and> P (xs ! i)) \<longleftrightarrow> length (filter P xs) = 1"
  by (auto simp: length_filter_conv_card card_1_singleton_iff Ex1_def set_eq_iff)

lemma filter_ranges:
  assumes "mset (map le_range xs) = mset (map le_range ys)"
  shows "length (filter (\<lambda>e. has_range e \<and> in_range h e) xs) = length (filter (\<lambda>e. has_range e \<and> in_range h e) ys)"
proof -
  have "length (filter (\<lambda>e. has_range e \<and> in_range h e) zs) =
      size (filter_mset (\<lambda>(a, b). a \<noteq> b \<and> a \<le> h \<and> h \<le> b) (mset (map le_range zs)))" for zs
    by (induction zs) (auto simp: le_range_def has_range_def in_range_def)
  with assms show ?thesis by simp
qed

lemma range_swap_nth:
  assumes "i < length (lay_list l)" "j < length (lay_list l)" "k < length (lay_list l)"
  shows "lay_list (dht_layout_range_swap l i j) ! k =
    set_range (fst (le_range (lay_list l ! (if k = i then j else if k = j then i else k))))
      (snd (le_range (lay_list l ! (if k = i then j else if k = j then i else k)))) (lay_list l ! k)"
  using assms by (auto simp: dht_layout_range_swap_def Let_def set_range_def le_range_def)

lemma range_swap_simps [simp]:
  "lay_cnt (dht_layout_range_swap l i j) = lay_cnt l"
  "length (lay_list (dht_layout_range_swap l i j)) = length (lay_list l)"
  by (simp_all add: dht_layout_range_swap_def Let_def)

lemma range_swap_ranges:
  assumes "i < length (lay_list l)" "j < length (lay_list l)"
  shows "map le_range (lay_list (dht_layout_range_swap l i j)) = swap_nth i j (map le_range (lay_list l))"
    "map le_rest (lay_list (dht_layout_range_swap l i j)) = map le_rest (lay_list l)"
  using assms
  by (auto intro!: nth_equalityI simp: nth_swap_nth range_swap_nth le_range_def le_rest_def set_range_def)

lemma best_partner_ok:
  assumes "best_partner new t i = (mx, k)" "i < lay_cnt new"
  shows "k = i \<or> i < k \<and> k < lay_cnt new \<and> \<not> 0 < le_err (lay_list new ! k) \<and>
    ov_entry (lay_cnt new) t i k + ov_entry (lay_cnt new) t k i > ov_entry (lay_cnt new) t i i + ov_entry (lay_cnt new) t k k"
proof -
  let ?P = "\<lambda>s. case s of (mx, k) \<Rightarrow> k = i \<or> i < k \<and> k < lay_cnt new \<and> \<not> 0 < le_err (lay_list new ! k) \<and>
    ov_entry (lay_cnt new) t i k + ov_entry (lay_cnt new) t k i > ov_entry (lay_cnt new) t i i + ov_entry (lay_cnt new) t k k"
  have "?P (best_partner new t i)"
    unfolding best_partner_def by (rule fold_invariant [of ?P]) (auto simp: Let_def split: if_splits)
  with assms show ?thesis by simp
qed

lemma overlap_step_ranges:
  assumes "layout_ok new" "i < lay_cnt new" "overlap_step oc i (new, t) = (new', t')"
  shows "layout_ok new'" "lay_cnt new' = lay_cnt new"
    "mset (map le_range (lay_list new')) = mset (map le_range (lay_list new))"
    "map le_rest (lay_list new') = map le_rest (lay_list new)"
proof -
  obtain mx k where b: "best_partner new t i = (mx, k)" by fastforce
  have len: "length (lay_list new) = lay_cnt new" using assms(1) by (simp add: layout_ok_def)
  have "k < lay_cnt new" using best_partner_ok [OF b assms(2)] assms(2) by auto
  then have sw: "map le_range (lay_list (dht_layout_range_swap new i k)) = swap_nth i k (map le_range (lay_list new))"
    "map le_rest (lay_list (dht_layout_range_swap new i k)) = map le_rest (lay_list new)"
    using range_swap_ranges [of i new k] assms(2) len by auto
  have n: "new' = new \<or> new' = dht_layout_range_swap new i k"
    using assms(3) b by (auto simp: overlap_step_def Let_def split: if_splits)
  have "mset (swap_nth i k (map le_range (lay_list new))) = mset (map le_range (lay_list new))"
    using assms(2) len \<open>k < lay_cnt new\<close> by (intro mset_swap_nth) auto
  with n sw show "mset (map le_range (lay_list new')) = mset (map le_range (lay_list new))"
    "map le_rest (lay_list new') = map le_rest (lay_list new)" by (auto simp del: mset_map)
  show "layout_ok new'" "lay_cnt new' = lay_cnt new" using n assms(1) by (auto simp: layout_ok_def)
qed

lemma overlap_fold_ranges:
  assumes "layout_ok new" "\<forall>i\<in>set is. i < lay_cnt new" "fold (overlap_step oc) is (new, t) = (new', t')"
  shows "layout_ok new' \<and> lay_cnt new' = lay_cnt new \<and>
    mset (map le_range (lay_list new')) = mset (map le_range (lay_list new)) \<and>
    map le_rest (lay_list new') = map le_rest (lay_list new)"
  using assms
proof (induction "is" arbitrary: new t)
  case (Cons i "is")
  obtain m u where s: "overlap_step oc i (new, t) = (m, u)" by fastforce
  note o = overlap_step_ranges [OF Cons.prems(1) _ s]
  show ?case using Cons.IH [of m u] Cons.prems o s by auto
qed simp

lemma maximize_overlap_ranges:
  assumes "layout_ok new"
  shows "layout_ok (fst (dht_selfheal_layout_maximize_overlap new old))"
    "mset (map le_range (lay_list (fst (dht_selfheal_layout_maximize_overlap new old)))) = mset (map le_range (lay_list new))"
    "map le_rest (lay_list (fst (dht_selfheal_layout_maximize_overlap new old))) = map le_rest (lay_list new)"
proof -
  let ?o = "dht_layout_sort_volname old"
  obtain r t where f: "fold (overlap_step (lay_cnt ?o)) [0..<lay_cnt new] (new, build_table new ?o) = (r, t)" by fastforce
  have "fst (dht_selfheal_layout_maximize_overlap new old) = r"
    using f by (simp add: dht_selfheal_layout_maximize_overlap_def Let_def)
  with overlap_fold_ranges [OF assms _ f]
  show "layout_ok (fst (dht_selfheal_layout_maximize_overlap new old))"
    "mset (map le_range (lay_list (fst (dht_selfheal_layout_maximize_overlap new old)))) = mset (map le_range (lay_list new))"
    "map le_rest (lay_list (fst (dht_selfheal_layout_maximize_overlap new old))) = map le_rest (lay_list new)"
    by simp_all
qed

text \<open>The table agrees with the overlaps of the current ranges throughout.\<close>

definition table_ok :: "dht_layout \<Rightarrow> dht_layout \<Rightarrow> ov_table \<Rightarrow> bool" where
  "table_ok new old t \<longleftrightarrow> (\<forall>x<lay_cnt new. \<forall>y<lay_cnt old. ov_entry (lay_cnt new) t x y = dht_overlap_calc old y new x)"

lemma ov_inj: "y < n \<Longrightarrow> y' < n \<Longrightarrow> x * n + y = x' * n + y' \<longleftrightarrow> x = x' \<and> y = (y' :: nat)"
  by (metis add.commute div_mult_self3 div_less mod_less mod_mult_self3 less_zeroE add_0)

lemma ov_entry_set:
  "y < n \<Longrightarrow> y' < n \<Longrightarrow> ov_entry n (ov_set n x y v t) x' y' = (if x' = x \<and> y' = y then v else ov_entry n t x' y')"
  using ov_inj [of y' n y x' x] by (auto simp: ov_entry_def ov_set_def)

lemma build_table_ok:
  assumes "lay_cnt old = lay_cnt new"
  shows "table_ok new old (build_table new old)"
proof -
  let ?n = "lay_cnt new" and ?v = "\<lambda>i j. dht_overlap_calc old j new i"
  let ?P = "\<lambda>a s. \<forall>x<a. \<forall>y<?n. ov_entry ?n s x y = ?v x y"
  have inner: "(\<forall>y<b. ov_entry ?n (fold (\<lambda>j t. ov_set ?n i j (?v i j) t) [0..<b] t) i y = ?v i y) \<and>
     (\<forall>x y. x \<noteq> i \<longrightarrow> y < ?n \<longrightarrow> ov_entry ?n (fold (\<lambda>j t. ov_set ?n i j (?v i j) t) [0..<b] t) x y = ov_entry ?n t x y)"
    if "b \<le> ?n" for b i t
    using that by (induction b) (auto simp: ov_entry_set less_Suc_eq)
  have "?P ?n (build_table new old)"
    unfolding build_table_def assms
    by (rule fold_upt_invariant [of ?P 0]) (use inner [of ?n] in \<open>auto simp: less_Suc_eq\<close>)
  then show ?thesis by (simp add: table_ok_def assms)
qed

lemma swap_rows_entry:
  assumes "i \<noteq> k"
  shows "b \<le> n \<Longrightarrow> y < n \<Longrightarrow> ov_entry n (swap_rows n b i k t) x y =
    (if y < b then (if x = i then ov_entry n t k y else if x = k then ov_entry n t i y else ov_entry n t x y) else ov_entry n t x y)"
proof (induction b arbitrary: x y)
  case (Suc b)
  let ?t = "swap_rows n b i k t"
  have eq: "swap_rows n (Suc b) i k t = ov_set n k b (ov_entry n ?t i b) (ov_set n i b (ov_entry n ?t k b) ?t)"
    by (simp add: swap_rows_def Let_def)
  show ?case
    unfolding eq using Suc.IH [of y x] Suc.IH [of b i] Suc.IH [of b k] Suc.prems assms
    by (auto simp: ov_entry_set less_Suc_eq)
qed (simp add: swap_rows_def)

text \<open>The hash values a subvolume owns, and how many stay on their subvolume, counted as sets.\<close>

definition owned :: "layout_entry \<Rightarrow> u32 set" where
  "owned e = {h. le_err e \<le> 0 \<and> le_start e \<noteq> le_stop e \<and> le_start e \<le> h \<and> h \<le> le_stop e}"

definition total_overlap :: "dht_layout \<Rightarrow> dht_layout \<Rightarrow> nat" where
  "total_overlap old new = (\<Sum>i<lay_cnt new. card (owned (lay_list old ! i) \<inter> owned (lay_list new ! i)))"

definition single_owner :: "dht_layout \<Rightarrow> bool" where
  "single_owner l \<longleftrightarrow> (\<forall>h. length (filter (\<lambda>e. h \<in> owned e) (lay_list l)) \<le> 1)"

definition disjoint_ranges :: "dht_layout \<Rightarrow> bool" where
  "disjoint_ranges l \<longleftrightarrow> (\<forall>i<lay_cnt l. \<forall>j<lay_cnt l. i \<noteq> j \<longrightarrow> owned (lay_list l ! i) \<inter> owned (lay_list l ! j) = {})"

lemma single_owner_disjoint:
  assumes "layout_ok l" "single_owner l"
  shows "disjoint_ranges l"
  unfolding disjoint_ranges_def
proof (intro allI impI)
  fix i j
  assume ij: "i < lay_cnt l" "j < lay_cnt l" "i \<noteq> j"
  have "i = j" if "h \<in> owned (lay_list l ! i)" "h \<in> owned (lay_list l ! j)" for h
  proof -
    have "card {k. k < length (lay_list l) \<and> h \<in> owned (lay_list l ! k)} \<le> Suc 0"
      using assms(2) by (simp add: single_owner_def length_filter_conv_card)
    then show ?thesis using that ij assms(1) by (auto simp: card_le_Suc0_iff_eq layout_ok_def)
  qed
  then show "owned (lay_list l ! i) \<inter> owned (lay_list l ! j) = {}" using ij(3) by blast
qed

lemma card_range: "a \<le> b \<Longrightarrow> card {a..b :: u32} = unat b - unat a + 1"
proof -
  assume ab: "a \<le> b"
  have "unat ` {a..b} = {unat a..unat b}"
  proof
    show "{unat a..unat b} \<subseteq> unat ` {a..b}"
    proof
      fix n
      assume n: "n \<in> {unat a..unat b}"
      then have "n < 2 ^ 32" using unsigned_less [of b, where 'a = nat] by simp
      then have "unat (of_nat n :: u32) = n" by (simp add: unat_of_nat)
      then show "n \<in> unat ` {a..b}" using n by (intro image_eqI [of _ _ "of_nat n"]) (auto simp: word_le_nat_alt)
    qed
  qed (auto simp: word_le_nat_alt)
  then have "card {a..b} = card {unat a..unat b}" by (metis card_image inj_on_def unsigned_word_eqI)
  then show ?thesis using ab by (simp add: word_le_nat_alt)
qed

text \<open>The 32-bit overlap of the code is the size of the intersection, modulo $2^{32}$.\<close>

lemma overlap_calc_card:
  assumes "x < lay_cnt new" "y < lay_cnt old" "range_ok (lay_list new ! x)" "range_ok (lay_list old ! y)"
  shows "unat (dht_overlap_calc old y new x) = card (owned (lay_list old ! y) \<inter> owned (lay_list new ! x)) mod 2 ^ 32"
proof -
  let ?a = "lay_list old ! y" and ?b = "lay_list new ! x"
  let ?p = "min (le_stop ?a) (le_stop ?b)" and ?q = "max (le_start ?a) (le_start ?b)"
  show ?thesis
  proof (cases "le_err ?a > 0 \<or> le_err ?b > 0 \<or> le_start ?a = le_stop ?a \<or> le_start ?b = le_stop ?b \<or>
      le_start ?a > le_stop ?b \<or> le_stop ?a < le_start ?b")
    case True
    then have "owned ?a \<inter> owned ?b = {}" by (auto simp: owned_def)
    then show ?thesis using True assms(1,2) by (auto simp: dht_overlap_calc_def Let_def)
  next
    case False
    have le: "?q \<le> ?p" using False assms(3,4) by (auto simp: range_ok_def)
    have "owned ?a \<inter> owned ?b = {?q..?p}" using False by (auto simp: owned_def)
    then have c: "card (owned ?a \<inter> owned ?b) = unat ?p - unat ?q + 1" by (simp add: card_range [OF le])
    have "dht_overlap_calc old y new x = ?p - ?q + 1" using False assms(1,2) by (simp add: dht_overlap_calc_def Let_def)
    then show ?thesis unfolding c by (simp add: unat_word_ariths unat_sub [OF le])
  qed
qed

lemma card_four:
  fixes A B C D :: "u32 set"
  assumes "A \<inter> B = {}" "C \<inter> D = {}"
  shows "card (C \<inter> A) + card (D \<inter> B) + (card (D \<inter> A) + card (C \<inter> B)) \<le> 2 ^ 32"
proof -
  have fin: "finite S" for S :: "u32 set" by simp
  have "card (C \<inter> A) + card (D \<inter> B) + (card (D \<inter> A) + card (C \<inter> B)) = card (((C \<inter> A) \<union> (D \<inter> B)) \<union> ((D \<inter> A) \<union> (C \<inter> B)))"
    using assms by (subst card_Un_disjoint [OF fin fin], blast)+ simp
  also have "\<dots> \<le> CARD(32 word)" by (rule card_mono) simp_all
  finally show ?thesis by (simp add: card_word)
qed

text \<open>A gain in the arithmetic of the code is one in the number of values, although the sums may wrap.\<close>

lemma gain_mod:
  fixes c p :: nat
  assumes "c mod 2 ^ 32 < p mod 2 ^ 32" "c + p \<le> 2 ^ 32"
  shows "c \<le> p"
proof (cases "c = 2 ^ 32")
  case True
  then show ?thesis using assms by simp
next
  case False
  then have "c mod 2 ^ 32 = c" using assms(2) by simp
  moreover have "p mod 2 ^ 32 \<le> p" by simp
  ultimately show ?thesis using assms(1) by linarith
qed

lemma owned_swap:
  assumes ok: "layout_ok new" "i < lay_cnt new" "k < lay_cnt new" "x < lay_cnt new"
    and e: "\<not> 0 < le_err (lay_list new ! i)" "\<not> 0 < le_err (lay_list new ! k)"
  shows "owned (lay_list (dht_layout_range_swap new i k) ! x) = owned (lay_list new ! (if x = i then k else if x = k then i else x))"
  using assms by (auto simp: owned_def layout_ok_def range_swap_nth set_range_def le_range_def)

lemma overlap_calc_swap:
  assumes ok: "layout_ok new" "i < lay_cnt new" "k < lay_cnt new" "x < lay_cnt new"
    and e: "\<not> 0 < le_err (lay_list new ! i)" "\<not> 0 < le_err (lay_list new ! k)"
  shows "dht_overlap_calc old y (dht_layout_range_swap new i k) x =
    dht_overlap_calc old y new (if x = i then k else if x = k then i else x)"
  using assms by (auto simp: dht_overlap_calc_def layout_ok_def range_swap_nth set_range_def le_range_def Let_def)

lemma ranges_swap:
  assumes "layout_ok new" "i < lay_cnt new" "k < lay_cnt new" "\<forall>e\<in>set (lay_list new). range_ok e"
  shows "\<forall>e\<in>set (lay_list (dht_layout_range_swap new i k)). range_ok e"
  using assms by (auto simp: all_set_conv_all_nth layout_ok_def range_swap_nth set_range_def le_range_def range_ok_def)

lemma disjoint_swap:
  assumes "layout_ok new" "i < lay_cnt new" "k < lay_cnt new" "disjoint_ranges new"
    and "\<not> 0 < le_err (lay_list new ! i)" "\<not> 0 < le_err (lay_list new ! k)"
  shows "disjoint_ranges (dht_layout_range_swap new i k)"
  unfolding disjoint_ranges_def range_swap_simps
proof (intro allI impI)
  fix x y
  let ?s = "\<lambda>x. if x = i then k else if x = k then i else x"
  assume xy: "x < lay_cnt new" "y < lay_cnt new" "x \<noteq> y"
  have "?s x \<noteq> ?s y" "?s x < lay_cnt new" "?s y < lay_cnt new" using xy assms(2,3) by auto
  then have "owned (lay_list new ! ?s x) \<inter> owned (lay_list new ! ?s y) = {}"
    using assms(4) unfolding disjoint_ranges_def by blast
  then show "owned (lay_list (dht_layout_range_swap new i k) ! x) \<inter> owned (lay_list (dht_layout_range_swap new i k) ! y) = {}"
    using owned_swap [OF assms(1-3) xy(1) assms(5,6)] owned_swap [OF assms(1-3) xy(2) assms(5,6)] by (simp only:)
qed

lemma sum_exchange:
  fixes f g :: "nat \<Rightarrow> nat"
  assumes "i < n" "k < n" "i \<noteq> k" "\<And>x. x < n \<Longrightarrow> x \<noteq> i \<Longrightarrow> x \<noteq> k \<Longrightarrow> g x = f x" "f i + f k \<le> g i + g k"
  shows "(\<Sum>x<n. f x) \<le> (\<Sum>x<n. g x)"
proof -
  have s: "(\<Sum>x<n. h x) = h i + h k + (\<Sum>x\<in>{..<n} - {i, k}. h x)" for h :: "nat \<Rightarrow> nat"
  proof -
    have "{..<n} - {i, k} = {..<n} - {i} - {k}" by auto
    then show ?thesis
      using assms(1-3) sum.remove [of "{..<n}" i h] sum.remove [of "{..<n} - {i}" k h] by simp
  qed
  have "(\<Sum>x\<in>{..<n} - {i, k}. f x) = (\<Sum>x\<in>{..<n} - {i, k}. g x)" using assms(4) by (intro sum.cong) auto
  then show ?thesis using s [of f] s [of g] assms(5) by simp
qed

definition gain_pre :: "dht_layout \<Rightarrow> dht_layout \<Rightarrow> bool" where
  "gain_pre old new \<longleftrightarrow> layout_ok new \<and> layout_ok old \<and> lay_cnt old = lay_cnt new \<and> disjoint_ranges new \<and> disjoint_ranges old \<and>
     (\<forall>e\<in>set (lay_list new). range_ok e) \<and> (\<forall>e\<in>set (lay_list old). range_ok e)"

lemma gain_card:
  assumes pre: "gain_pre old new" and ik: "i < lay_cnt new" "k < lay_cnt new" "i \<noteq> k"
    and gain: "dht_overlap_calc old i new i + dht_overlap_calc old k new k < dht_overlap_calc old k new i + dht_overlap_calc old i new k"
  shows "card (owned (lay_list old ! i) \<inter> owned (lay_list new ! i)) + card (owned (lay_list old ! k) \<inter> owned (lay_list new ! k)) \<le>
    card (owned (lay_list old ! k) \<inter> owned (lay_list new ! i)) + card (owned (lay_list old ! i) \<inter> owned (lay_list new ! k))"
proof -
  let ?ov = "\<lambda>x y. card (owned (lay_list old ! y) \<inter> owned (lay_list new ! x))"
  have c: "unat (dht_overlap_calc old y new x) = ?ov x y mod 2 ^ 32" if "x \<in> {i, k}" "y \<in> {i, k}" for x y
    by (rule overlap_calc_card) (use that pre ik in \<open>auto simp: gain_pre_def layout_ok_def\<close>)
  have "(?ov i i + ?ov k k) mod 2 ^ 32 < (?ov i k + ?ov k i) mod 2 ^ 32"
    using gain c by (simp add: word_less_nat_alt unat_word_ariths mod_add_eq)
  moreover have "?ov i i + ?ov k k + (?ov i k + ?ov k i) \<le> 2 ^ 32"
    by (rule card_four) (use pre ik in \<open>auto simp: gain_pre_def disjoint_ranges_def\<close>)
  ultimately show ?thesis by (rule gain_mod)
qed

lemma overlap_step_gain:
  assumes pre: "gain_pre old new" and i: "i < lay_cnt new" and t: "table_ok new old t"
    and s: "overlap_step (lay_cnt old) i (new, t) = (new', t')"
  shows "table_ok new' old t' \<and> gain_pre old new' \<and> lay_cnt new' = lay_cnt new \<and> total_overlap old new \<le> total_overlap old new'"
proof -
  let ?n = "lay_cnt new" and ?ov = "\<lambda>x y. dht_overlap_calc old y new x"
  have ok: "layout_ok new" "lay_cnt old = lay_cnt new" "\<forall>e\<in>set (lay_list new). range_ok e" "disjoint_ranges new"
    using pre by (simp_all add: gain_pre_def)
  obtain mx k where b: "best_partner new t i = (mx, k)" by fastforce
  show ?thesis
  proof (cases "0 < le_err (lay_list new ! i) \<or> k = i")
    case True
    then have "new' = new" "t' = t" using s b by (auto simp: overlap_step_def Let_def split: if_splits)
    then show ?thesis using t pre by simp
  next
    case False
    then have n: "new' = dht_layout_range_swap new i k" "t' = swap_rows ?n ?n i k t"
      using s b ok(2) by (auto simp: overlap_step_def Let_def split: if_splits)
    have k: "i < k" "k < ?n" "\<not> 0 < le_err (lay_list new ! k)" and gain: "?ov i k + ?ov k i > ?ov i i + ?ov k k"
      using best_partner_ok [OF b i] False t ok(2) i by (auto simp: table_ok_def)
    note sw = overlap_calc_swap [OF ok(1) i k(2) _ _ k(3)]
    have tab: "table_ok new' old t'"
      unfolding table_ok_def n
      using t swap_rows_entry [of i k ?n ?n] k ok(2) i False by (auto simp: table_ok_def sw)
    have "total_overlap old new \<le> total_overlap old new'"
      unfolding total_overlap_def n range_swap_simps
      by (intro sum_exchange [OF i k(2)])
        (use gain_card [OF pre i k(2) _ gain] owned_swap [OF ok(1) i k(2) _ _ k(3)] k i False in \<open>auto simp: add.commute\<close>)
    moreover have "gain_pre old new'"
      using pre ranges_swap [OF ok(1) i k(2) ok(3)] disjoint_swap [OF ok(1) i k(2) ok(4) _ k(3)] False n
      by (auto simp: gain_pre_def layout_ok_def)
    ultimately show ?thesis using tab n by simp
  qed
qed

lemma overlap_fold_gain:
  assumes "gain_pre old new" "\<forall>i\<in>set is. i < lay_cnt new" "table_ok new old t"
    "fold (overlap_step (lay_cnt old)) is (new, t) = (new', t')"
  shows "total_overlap old new \<le> total_overlap old new'"
  using assms
proof (induction "is" arbitrary: new t)
  case (Cons i "is")
  obtain m u where s: "overlap_step (lay_cnt old) i (new, t) = (m, u)" by fastforce
  have i: "i < lay_cnt new" using Cons.prems(2) by simp
  note g = overlap_step_gain [OF Cons.prems(1) i Cons.prems(3) s]
  have "total_overlap old m \<le> total_overlap old new'"
    by (rule Cons.IH [of m u]) (use Cons.prems g s in auto)
  then show ?case using g by simp
qed simp

lemma dht_layout_sort_volname_props:
  assumes "layout_ok l" "\<forall>e\<in>set (lay_list l). no_nul (le_name e)"
  shows "mset (lay_list (dht_layout_sort_volname l)) = mset (lay_list l)"
    "ordered_by name_gt (lay_list (dht_layout_sort_volname l))" "layout_ok (dht_layout_sort_volname l)"
    "lay_cnt (dht_layout_sort_volname l) = lay_cnt l" "spread_cnt (dht_layout_sort_volname l) = spread_cnt l"
proof -
  show m: "mset (lay_list (dht_layout_sort_volname l)) = mset (lay_list l)"
    using name_sort.exchange_sort_mset [OF assms(2)] assms(1) by (simp add: dht_layout_sort_volname_list layout_ok_def)
  show "ordered_by name_gt (lay_list (dht_layout_sort_volname l))"
    using name_sort.exchange_sort_ordered [OF assms(2)] assms(1) by (simp add: dht_layout_sort_volname_list layout_ok_def)
  show "lay_cnt (dht_layout_sort_volname l) = lay_cnt l" "spread_cnt (dht_layout_sort_volname l) = spread_cnt l"
    by (simp_all add: dht_layout_sort_volname_list)
  then show "layout_ok (dht_layout_sort_volname l)"
    using mset_eq_length [OF m] assms(1) by (simp add: layout_ok_def)
qed

text \<open>C25. Re-assigning ranges to keep more of the old layout only permutes the ranges:
  no range is lost, duplicated or changed, and which subvolumes the entries
  belong to, and their errors, stay as they are.\<close>

theorem maximize_overlap_permutes:
  assumes "layout_ok new"
  shows "mset (map le_range (lay_list (fst (dht_selfheal_layout_maximize_overlap new old)))) = mset (map le_range (lay_list new)) \<and>
    map le_rest (lay_list (fst (dht_selfheal_layout_maximize_overlap new old))) = map le_rest (lay_list new)"
  using maximize_overlap_ranges(2,3) [OF assms] by blast

text \<open>C26. And it never loses overlap: the number of hash values that stay on their
  subvolume, counted as the sizes of the intersections of the old and the new range of each
  entry, does not go down.  The entries are compared with those of the old layout in the order of the
  names of their subvolumes, both layouts have the same number of entries, no range ends before it starts, and in each
  layout no hash value has two owners; the 32-bit sums of the code may wrap.\<close>

theorem maximize_overlap_improves:
  assumes "layout_ok new" "layout_ok old" "lay_cnt old = lay_cnt new" "single_owner new" "single_owner old"
    "\<forall>e\<in>set (lay_list new). range_ok e" "\<forall>e\<in>set (lay_list old). range_ok e \<and> no_nul (le_name e)"
  shows "total_overlap (dht_layout_sort_volname old) new \<le>
    total_overlap (dht_layout_sort_volname old) (fst (dht_selfheal_layout_maximize_overlap new old))"
proof -
  let ?o = "dht_layout_sort_volname old"
  have "\<forall>e\<in>set (lay_list old). no_nul (le_name e)" using assms(7) by blast
  note o = dht_layout_sort_volname_props [OF assms(2) this]
  have ro: "\<forall>e\<in>set (lay_list ?o). range_ok e" using assms(7) o(1) by (metis mset_eq_setD)
  have c: "lay_cnt ?o = lay_cnt new" using o(4) assms(3) by simp
  have "single_owner ?o"
    unfolding single_owner_def
  proof
    fix h
    have "mset (filter (\<lambda>e. h \<in> owned e) (lay_list ?o)) = mset (filter (\<lambda>e. h \<in> owned e) (lay_list old))" by (simp add: o(1))
    then show "length (filter (\<lambda>e. h \<in> owned e) (lay_list ?o)) \<le> 1" using assms(5) by (metis single_owner_def size_mset)
  qed
  then have pre: "gain_pre ?o new"
    using assms(1,4,6) o(3) c ro single_owner_disjoint by (simp add: gain_pre_def)
  obtain r t where f: "fold (overlap_step (lay_cnt ?o)) [0..<lay_cnt new] (new, build_table new ?o) = (r, t)" by fastforce
  have "fst (dht_selfheal_layout_maximize_overlap new old) = r"
    using f by (simp add: dht_selfheal_layout_maximize_overlap_def Let_def)
  then show ?thesis
    using overlap_fold_gain [OF pre _ build_table_ok [OF c] f] by simp
qed

definition named_entry :: "nat \<Rightarrow> string \<Rightarrow> u32 \<Rightarrow> u32 \<Rightarrow> layout_entry" where
  "named_entry n nm a b = (sample_entry n a b)\<lparr>le_xlator := Some \<lparr>xl_addr = n, xl_name = nm\<rparr>\<rparr>"

definition old_three :: dht_layout where
  "old_three = sample_layout [named_entry 3 ''c'' 0 0x54ffffff, named_entry 1 ''a'' 0x55000000 0xa9ffffff, named_entry 2 ''b'' 0xaa000000 0xffffffff]"

definition new_three :: dht_layout where
  "new_three = sample_layout [named_entry 1 ''a'' 0 0x54ffffff, named_entry 2 ''b'' 0x55000000 0xa9ffffff, named_entry 3 ''c'' 0xaa000000 0xffffffff]"

lemma three_ok: "layout_ok new_three" "layout_ok old_three" "lay_cnt old_three = lay_cnt new_three"
  by (simp_all add: old_three_def new_three_def sample_simps named_entry_def)

theorem maximize_overlap_permutes_witness:
  "mset (map le_range (lay_list (fst (dht_selfheal_layout_maximize_overlap new_three old_three)))) = mset (map le_range (lay_list new_three)) \<and>
   map le_rest (lay_list (fst (dht_selfheal_layout_maximize_overlap new_three old_three))) = map le_rest (lay_list new_three)"
  by (rule maximize_overlap_permutes) (rule three_ok)

lemma three_owner: "single_owner new_three" "single_owner old_three"
  by (auto simp: single_owner_def owned_def old_three_def new_three_def sample_simps named_entry_def word_le_nat_alt word_less_nat_alt)

theorem maximize_overlap_improves_witness:
  "total_overlap (dht_layout_sort_volname old_three) new_three \<le>
    total_overlap (dht_layout_sort_volname old_three) (fst (dht_selfheal_layout_maximize_overlap new_three old_three))"
  by (rule maximize_overlap_improves [OF three_ok three_owner])
    (simp_all add: range_ok_def old_three_def new_three_def sample_simps named_entry_def le_name_def no_nul_def)

text \<open>With two subvolumes the sums of overlaps can reach $2^{32}$ and wrap: a directory
  whose two halves only have to be exchanged back is left as it is.\<close>

definition two_new :: dht_layout where
  "two_new = sample_layout [named_entry 1 ''a'' 0 0x7fffffff, named_entry 2 ''b'' 0x80000000 0xffffffff]"

definition two_old :: dht_layout where
  "two_old = sample_layout [named_entry 1 ''a'' 0x80000000 0xffffffff, named_entry 2 ''b'' 0 0x7fffffff]"

lemma two_subvolumes_wrap:
  "fst (dht_selfheal_layout_maximize_overlap two_new two_old) = two_new \<and>
   dht_overlap_calc two_old 0 two_new 0 = 0 \<and> dht_overlap_calc two_old 1 two_new 1 = 0 \<and>
   dht_overlap_calc two_old 0 two_new 1 = 0x80000000"
  by (simp add: dht_selfheal_layout_maximize_overlap_def two_new_def two_old_def sample_simps named_entry_def
      dht_layout_sort_volname_def dht_layout_entry_cmp_volname_def le_name_def build_table_def overlap_step_def
      best_partner_def ov_entry_def ov_set_def dht_overlap_calc_def Let_def upt_rec min_def max_def)
end
