(* ===== verification/Xdb_Schema.thy ===== *)
theory Xdb_Schema
  imports Byteorder
begin

text \<open>
  The index database of a brick: the four tables of
  \<open>imess-server-xdb-schema.sql\<close> and the SQL statements \<open>xdb_sqls\<close> of
  \<open>imess-server-xdb.c\<close>, each as a function on the tables.

  A table is the list of its rows in insertion order.  A statement takes its
  parameters (an unbound or NULL text parameter is \<open>None\<close>) and the database and
  gives the result code of \<open>sqlite3_step\<close>, the first result row and the new
  database.  A statement that violates a NOT NULL or UNIQUE constraint changes
  nothing.  A missing \<open>integer primary key\<close> is one more than the largest one in
  the table; a table with a key of \<open>2^63 - 1\<close> is outside the model.  Foreign keys
  are not enforced, which is SQLite's default.

  The second half is the invariant the constraints of the schema give, that
  every statement keeps it.
\<close>

subsection \<open>Values and result codes\<close>

text \<open>A C \<open>double\<close> is the word of its bits; no arithmetic is done on it.\<close>

type_synonym dbl = u64

datatype sqlval = SNull | SInt int | SReal dbl | SText string

abbreviation (input) SQLITE_OK :: int where "SQLITE_OK \<equiv> 0"
abbreviation (input) SQLITE_ERROR :: int where "SQLITE_ERROR \<equiv> 1"
abbreviation (input) SQLITE_ABORT :: int where "SQLITE_ABORT \<equiv> 4"
abbreviation (input) SQLITE_BUSY :: int where "SQLITE_BUSY \<equiv> 5"
abbreviation (input) SQLITE_NOMEM :: int where "SQLITE_NOMEM \<equiv> 7"
abbreviation (input) SQLITE_FULL :: int where "SQLITE_FULL \<equiv> 13"
abbreviation (input) SQLITE_TOOBIG :: int where "SQLITE_TOOBIG \<equiv> 18"
abbreviation (input) SQLITE_CONSTRAINT :: int where "SQLITE_CONSTRAINT \<equiv> 19"
abbreviation (input) SQLITE_MISUSE :: int where "SQLITE_MISUSE \<equiv> 21"
abbreviation (input) SQLITE_RANGE :: int where "SQLITE_RANGE \<equiv> 25"
abbreviation (input) SQLITE_ROW :: int where "SQLITE_ROW \<equiv> 100"
abbreviation (input) SQLITE_DONE :: int where "SQLITE_DONE \<equiv> 101"

subsection \<open>Tables\<close>

record xgfid_row =
  g_gid :: int
  g_gfid :: string

record xfile_row =
  f_fid :: int
  f_gid :: int
  f_path :: string
  f_name :: string

record xname_row =
  n_nid :: int
  n_name :: string

record xdata_row =
  x_xid :: int
  x_gid :: int
  x_nid :: int
  x_ival :: sqlval
  x_rval :: sqlval
  x_sval :: sqlval

record xdb_db =
  xdb_xgfid :: "xgfid_row list"
  xdb_xfile :: "xfile_row list"
  xdb_xname :: "xname_row list"
  xdb_xdata :: "xdata_row list"

definition stat_names :: "string list" where
  "stat_names = [''st_dev'', ''st_ino'', ''st_mode'', ''st_nlink'', ''st_uid'', ''st_gid'', ''st_rdev'',
     ''st_size'', ''st_blksize'', ''st_blocks'', ''st_atime'', ''st_mtime'', ''st_ctime'']"

definition next_rowid :: "int list \<Rightarrow> int" where
  "next_rowid ids = fold max ids 0 + 1"

type_synonym sql_result = "int \<times> sqlval list \<times> xdb_db"

subsection \<open>Statements\<close>

text \<open>The row changes the statements are made of.\<close>

definition add_xname :: "string \<Rightarrow> xdb_db \<Rightarrow> xdb_db" where
  "add_xname n d = d\<lparr>xdb_xname := xdb_xname d @
     [\<lparr>n_nid = next_rowid (map n_nid (xdb_xname d)), n_name = n\<rparr>]\<rparr>"

definition add_gfid :: "string \<Rightarrow> xdb_db \<Rightarrow> xdb_db" where
  "add_gfid g d = d\<lparr>xdb_xgfid := xdb_xgfid d @
     [\<lparr>g_gid = next_rowid (map g_gid (xdb_xgfid d)), g_gfid = g\<rparr>]\<rparr>"

definition add_file :: "int \<Rightarrow> string \<Rightarrow> string \<Rightarrow> xdb_db \<Rightarrow> xdb_db" where
  "add_file gid path name d = d\<lparr>xdb_xfile := xdb_xfile d @
     [\<lparr>f_fid = next_rowid (map f_fid (xdb_xfile d)), f_gid = gid, f_path = path, f_name = name\<rparr>]\<rparr>"

definition drop_path :: "string option \<Rightarrow> xdb_db \<Rightarrow> xdb_db" where
  "drop_path path d = d\<lparr>xdb_xfile := filter (\<lambda>r. Some (f_path r) \<noteq> path) (xdb_xfile d)\<rparr>"

definition move_file :: "string option \<Rightarrow> string \<Rightarrow> string \<Rightarrow> xdb_db \<Rightarrow> xdb_db" where
  "move_file old path name d = d\<lparr>xdb_xfile := map (\<lambda>r.
     if Some (f_path r) = old then r\<lparr>f_path := path, f_name := name\<rparr> else r) (xdb_xfile d)\<rparr>"

definition set_ival :: "sqlval \<Rightarrow> int option \<Rightarrow> int option \<Rightarrow> xdb_db \<Rightarrow> xdb_db" where
  "set_ival v gid nid d = d\<lparr>xdb_xdata := map (\<lambda>r.
     if Some (x_gid r) = gid \<and> Some (x_nid r) = nid then r\<lparr>x_ival := v\<rparr> else r) (xdb_xdata d)\<rparr>"

definition xdata_key :: "xdata_row \<Rightarrow> int \<times> int" where
  "xdata_key r = (x_gid r, x_nid r)"

definition new_xdata :: "int \<Rightarrow> int \<Rightarrow> sqlval \<Rightarrow> sqlval \<Rightarrow> sqlval \<Rightarrow> xdb_db \<Rightarrow> xdata_row" where
  "new_xdata gid nid ival rval sval d =
     \<lparr>x_xid = next_rowid (map x_xid (xdb_xdata d)), x_gid = gid, x_nid = nid,
      x_ival = ival, x_rval = rval, x_sval = sval\<rparr>"

text \<open>\<open>or replace\<close> removes the rows with the same key; the new \<open>xid\<close> is chosen
  before they go.\<close>

definition put_xdata :: "int \<Rightarrow> int \<Rightarrow> sqlval \<Rightarrow> sqlval \<Rightarrow> sqlval \<Rightarrow> xdb_db \<Rightarrow> xdb_db" where
  "put_xdata gid nid ival rval sval d = d\<lparr>xdb_xdata :=
     filter (\<lambda>r. xdata_key r \<noteq> (gid, nid)) (xdb_xdata d) @ [new_xdata gid nid ival rval sval d]\<rparr>"

text \<open>\<open>insert or ignore into xdb_xname (name) values (?)\<close>\<close>

definition sql_insert_xname :: "string option \<Rightarrow> xdb_db \<Rightarrow> sql_result" where
  "sql_insert_xname name d = (case name of
     None \<Rightarrow> (SQLITE_DONE, [], d)
   | Some n \<Rightarrow> (SQLITE_DONE, [], if n \<in> set (map n_name (xdb_xname d)) then d else add_xname n d))"

text \<open>The database the schema script leaves behind.\<close>

definition xdb_schema :: xdb_db where
  "xdb_schema = fold (\<lambda>n d. snd (snd (sql_insert_xname (Some n) d))) stat_names
     \<lparr>xdb_xgfid = [], xdb_xfile = [], xdb_xname = [], xdb_xdata = []\<rparr>"

text \<open>\<open>select gid from xdb_xgfid where gfid=?\<close>\<close>

definition gid_of :: "xdb_db \<Rightarrow> string option \<Rightarrow> int option" where
  "gid_of d gfid = (case gfid of
     None \<Rightarrow> None
   | Some g \<Rightarrow> map_option g_gid (List.find (\<lambda>r. g_gfid r = g) (xdb_xgfid d)))"

definition sql_get_gid :: "string option \<Rightarrow> xdb_db \<Rightarrow> sql_result" where
  "sql_get_gid gfid d = (case gid_of d gfid of
     Some i \<Rightarrow> (SQLITE_ROW, [SInt i], d)
   | None \<Rightarrow> (SQLITE_DONE, [], d))"

text \<open>\<open>insert into xdb_xgfid (gfid) values (?)\<close>\<close>

definition sql_insert_gfid :: "string option \<Rightarrow> xdb_db \<Rightarrow> sql_result" where
  "sql_insert_gfid gfid d = (case gfid of
     None \<Rightarrow> (SQLITE_CONSTRAINT, [], d)
   | Some g \<Rightarrow>
       if g \<in> set (map g_gfid (xdb_xgfid d)) then (SQLITE_CONSTRAINT, [], d)
       else (SQLITE_DONE, [], add_gfid g d))"

text \<open>\<open>substr(X,Y)\<close> on text counts UTF-8 characters from 1.\<close>

fun utf8_skip :: "string \<Rightarrow> string" where
  "utf8_skip [] = []"
| "utf8_skip (c # cs) =
     (if 192 \<le> (of_char c :: nat)
      then dropWhile (\<lambda>b. (of_char b :: nat) div 64 = 2) cs else cs)"

definition sql_substr :: "string option \<Rightarrow> int option \<Rightarrow> string option" where
  "sql_substr s pos = (case (s, pos) of
     (Some x, Some y) \<Rightarrow> Some ((utf8_skip ^^ nat (y - 1)) x)
   | _ \<Rightarrow> None)"

text \<open>\<open>insert into xdb_xfile (gid, path, name) values
  ((select gid from xdb_xgfid where gfid=?),?,substr(?,?))\<close>, the text of both
  \<open>INSERT_FILE\<close> and \<open>LINK_FILE\<close>.\<close>

definition sql_insert_file ::
  "string option \<Rightarrow> string option \<Rightarrow> string option \<Rightarrow> int option \<Rightarrow> xdb_db \<Rightarrow> sql_result" where
  "sql_insert_file gfid path path2 pos d =
     (case (gid_of d gfid, path, sql_substr path2 pos) of
        (Some g, Some p, Some n) \<Rightarrow>
          if p \<in> set (map f_path (xdb_xfile d)) then (SQLITE_CONSTRAINT, [], d)
          else (SQLITE_DONE, [], add_file g p n d)
      | _ \<Rightarrow> (SQLITE_CONSTRAINT, [], d))"

text \<open>The statement \<open>INSERT_STAT\<close>: thirteen rows, numbered from 1.  The first row
  that meets an existing \<open>(gid, nid)\<close> undoes the whole statement.\<close>

fun insert_stat_rows :: "int \<Rightarrow> (int option \<times> sqlval) list \<Rightarrow> xdb_db \<Rightarrow> xdb_db option" where
  "insert_stat_rows nid [] d = Some d"
| "insert_stat_rows nid ((gid, ival) # rows) d = (case gid of
     None \<Rightarrow> None
   | Some g \<Rightarrow>
       if (g, nid) \<in> set (map xdata_key (xdb_xdata d)) then None
       else insert_stat_rows (nid + 1) rows (put_xdata g nid ival SNull SNull d))"

definition sql_insert_stat :: "(int option \<times> sqlval) list \<Rightarrow> xdb_db \<Rightarrow> sql_result" where
  "sql_insert_stat rows d = (case insert_stat_rows 1 rows d of
     Some d' \<Rightarrow> (SQLITE_DONE, [], d')
   | None \<Rightarrow> (SQLITE_CONSTRAINT, [], d))"

text \<open>\<open>update xdb_xdata set ival=? where gid=? and nid=?\<close>\<close>

definition sql_update_stat :: "sqlval \<Rightarrow> int option \<Rightarrow> int option \<Rightarrow> xdb_db \<Rightarrow> sql_result" where
  "sql_update_stat ival gid nid d = (SQLITE_DONE, [], set_ival ival gid nid d)"

text \<open>\<open>delete from xdb_xgfid where gfid=?\<close>\<close>

definition sql_remove_file :: "string option \<Rightarrow> xdb_db \<Rightarrow> sql_result" where
  "sql_remove_file gfid d =
     (SQLITE_DONE, [], d\<lparr>xdb_xgfid := filter (\<lambda>r. Some (g_gfid r) \<noteq> gfid) (xdb_xgfid d)\<rparr>)"

text \<open>\<open>delete from xdb_xfile where path=?\<close>\<close>

definition sql_unlink_file :: "string option \<Rightarrow> xdb_db \<Rightarrow> sql_result" where
  "sql_unlink_file path d = (SQLITE_DONE, [], drop_path path d)"

text \<open>\<open>update xdb_xfile set path=?,name=substr(?,?) where path=?\<close>\<close>

definition sql_rename ::
  "string option \<Rightarrow> string option \<Rightarrow> int option \<Rightarrow> string option \<Rightarrow> xdb_db \<Rightarrow> sql_result" where
  "sql_rename newpath newpath2 pos oldpath d =
     (if \<not> (\<exists>r \<in> set (xdb_xfile d). Some (f_path r) = oldpath) then (SQLITE_DONE, [], d)
      else case (newpath, sql_substr newpath2 pos) of
        (Some p, Some n) \<Rightarrow>
          if \<exists>r \<in> set (xdb_xfile d). Some (f_path r) \<noteq> oldpath \<and> f_path r = p
          then (SQLITE_CONSTRAINT, [], d)
          else (SQLITE_DONE, [], move_file oldpath p n d)
      | _ \<Rightarrow> (SQLITE_CONSTRAINT, [], d))"

text \<open>\<open>insert or replace into xdb_xdata (gid, nid, ival, rval, sval) values
  ((select gid \<dots>),(select nid \<dots>),?,?,?)\<close>\<close>

definition nid_of :: "xdb_db \<Rightarrow> string option \<Rightarrow> int option" where
  "nid_of d name = (case name of
     None \<Rightarrow> None
   | Some n \<Rightarrow> map_option n_nid (List.find (\<lambda>r. n_name r = n) (xdb_xname d)))"

definition sql_insert_xdata ::
  "string option \<Rightarrow> string option \<Rightarrow> sqlval \<Rightarrow> sqlval \<Rightarrow> sqlval \<Rightarrow> xdb_db \<Rightarrow> sql_result" where
  "sql_insert_xdata gfid name ival rval sval d =
     (case (gid_of d gfid, nid_of d name) of
        (Some g, Some n) \<Rightarrow> (SQLITE_DONE, [], put_xdata g n ival rval sval d)
      | _ \<Rightarrow> (SQLITE_CONSTRAINT, [], d))"

subsection \<open>Lookup by a unique key\<close>

lemma find_Some_unique:
  assumes "distinct (map k xs)"
  shows "List.find (\<lambda>r. k r = v) xs = Some r \<longleftrightarrow> r \<in> set xs \<and> k r = v"
  using assms
proof (induction xs)
  case (Cons x xs)
  then show ?case by (auto simp: image_iff) 
qed simp

lemma find_None_key: "List.find (\<lambda>r. k r = v) xs = None \<longleftrightarrow> v \<notin> k ` set xs"
  by (auto simp: find_None_iff)

lemma find_append_key:
  "List.find P (xs @ ys) = (case List.find P xs of None \<Rightarrow> List.find P ys | Some r \<Rightarrow> Some r)"
  by (induction xs) auto

lemma fold_max_int_ge:
  fixes b :: int
  shows "b \<le> fold max xs b \<and> (\<forall>x \<in> set xs. x \<le> fold max xs b)"
proof (induction xs arbitrary: b)
  case (Cons a xs)
  show ?case using Cons [of "max a b"] by auto
qed simp

lemma next_rowid_fresh [simp]: "next_rowid ids \<notin> set ids"
  using fold_max_int_ge [of 0 ids] by (auto simp: next_rowid_def)

lemma next_rowid_fresh_map [simp]: "next_rowid (map k xs) \<notin> k ` set xs"
  using next_rowid_fresh [of "map k xs"] by simp

lemma next_rowid_pos: "0 < next_rowid ids"
  using fold_max_int_ge [of 0 ids] by (simp add: next_rowid_def)

lemma next_rowid_neq [simp]: "r \<in> set xs \<Longrightarrow> next_rowid (map k xs) \<noteq> k r"
  using next_rowid_fresh_map [of k xs] by (metis imageI)

subsection \<open>The invariant of the schema\<close>

definition db_inv :: "xdb_db \<Rightarrow> bool" where
  "db_inv d \<longleftrightarrow>
     distinct (map g_gid (xdb_xgfid d)) \<and> distinct (map g_gfid (xdb_xgfid d)) \<and>
     distinct (map f_fid (xdb_xfile d)) \<and> distinct (map f_path (xdb_xfile d)) \<and>
     distinct (map n_nid (xdb_xname d)) \<and> distinct (map n_name (xdb_xname d)) \<and>
     distinct (map x_xid (xdb_xdata d)) \<and> distinct (map xdata_key (xdb_xdata d)) \<and>
     take 13 (xdb_xname d) = xdb_xname xdb_schema \<and> (\<forall>r \<in> set (xdb_xgfid d). 0 < g_gid r)"

text \<open>Every row refers to a \<open>gfid\<close> and to a name.\<close>

definition db_refs :: "xdb_db \<Rightarrow> bool" where
  "db_refs d \<longleftrightarrow>
     f_gid ` set (xdb_xfile d) \<subseteq> g_gid ` set (xdb_xgfid d) \<and>
     x_gid ` set (xdb_xdata d) \<subseteq> g_gid ` set (xdb_xgfid d) \<and>
     x_nid ` set (xdb_xdata d) \<subseteq> n_nid ` set (xdb_xname d)"

lemma xdb_schema_names:
  "xdb_xname xdb_schema = map (\<lambda>(i, n). \<lparr>n_nid = i, n_name = n\<rparr>) (zip [1..13] stat_names)"
  by (simp add: xdb_schema_def stat_names_def sql_insert_xname_def add_xname_def next_rowid_def upto.simps)

lemma xdb_schema_empty [simp]:
  "xdb_xgfid xdb_schema = []" "xdb_xfile xdb_schema = []" "xdb_xdata xdb_schema = []"
  by (simp_all add: xdb_schema_def stat_names_def sql_insert_xname_def add_xname_def)

lemma schema_inv: "db_inv xdb_schema \<and> db_refs xdb_schema"
  by (simp add: db_inv_def db_refs_def xdb_schema_names stat_names_def upto.simps)

lemma inv_names_length: "db_inv d \<Longrightarrow> 13 \<le> length (xdb_xname d)"
proof -
  assume "db_inv d"
  then have "length (take 13 (xdb_xname d)) = length (xdb_xname xdb_schema)" by (simp add: db_inv_def)
  then show ?thesis by (simp add: xdb_schema_names stat_names_def upto.simps)
qed

lemma inv_add_xname: "db_inv d \<Longrightarrow> n \<notin> n_name ` set (xdb_xname d) \<Longrightarrow> db_inv (add_xname n d)"
  using inv_names_length [of d] by (simp add: add_xname_def db_inv_def)

lemma inv_add_gfid: "db_inv d \<Longrightarrow> g \<notin> g_gfid ` set (xdb_xgfid d) \<Longrightarrow> db_inv (add_gfid g d)"
  using next_rowid_pos by (auto simp: add_gfid_def db_inv_def)

lemma inv_add_file: "db_inv d \<Longrightarrow> p \<notin> f_path ` set (xdb_xfile d) \<Longrightarrow> db_inv (add_file g p n d)"
  by (simp add: add_file_def db_inv_def)

lemma inv_drop_path: "db_inv d \<Longrightarrow> db_inv (drop_path p d)"
  by (simp add: drop_path_def db_inv_def distinct_map_filter)

lemma inv_put_xdata: "db_inv d \<Longrightarrow> db_inv (put_xdata g n i r s d)"
  by (auto simp: put_xdata_def new_xdata_def db_inv_def distinct_map_filter xdata_key_def)

lemma inv_set_ival: "db_inv d \<Longrightarrow> db_inv (set_ival v g n d)"
proof -
  let ?f = "\<lambda>r. if Some (x_gid r) = g \<and> Some (x_nid r) = n then r\<lparr>x_ival := v\<rparr> else r"
  have "map x_xid (map ?f (xdb_xdata d)) = map x_xid (xdb_xdata d)"
    and "map xdata_key (map ?f (xdb_xdata d)) = map xdata_key (xdb_xdata d)"
    by (auto simp: xdata_key_def)
  then show "db_inv d \<Longrightarrow> ?thesis"
    by (simp add: set_ival_def db_inv_def del: map_map)
qed

lemma distinct_rename:
  assumes "distinct (map f_path xs)"
    and "\<forall>r \<in> set xs. Some (f_path r) \<noteq> old \<longrightarrow> f_path r \<noteq> p"
  shows "distinct (map f_path (map (\<lambda>r. if Some (f_path r) = old then r\<lparr>f_path := p, f_name := n\<rparr> else r) xs))"
proof -
  let ?s = "\<lambda>v. if Some v = old then p else v"
  have "map f_path (map (\<lambda>r. if Some (f_path r) = old then r\<lparr>f_path := p, f_name := n\<rparr> else r) xs) =
      map ?s (map f_path xs)" by auto
  moreover have "inj_on ?s (set (map f_path xs))"
    using assms(2) by (force simp: inj_on_def)
  ultimately show ?thesis using assms(1) by (simp only: distinct_map simp_thms)
qed

lemma inv_move_file:
  assumes "db_inv d" and "\<forall>r \<in> set (xdb_xfile d). Some (f_path r) \<noteq> old \<longrightarrow> f_path r \<noteq> p"
  shows "db_inv (move_file old p n d)"
proof -
  let ?f = "\<lambda>r. if Some (f_path r) = old then r\<lparr>f_path := p, f_name := n\<rparr> else r"
  have "map f_fid (map ?f (xdb_xfile d)) = map f_fid (xdb_xfile d)" by auto
  then show ?thesis
    using assms distinct_rename [of "xdb_xfile d" old p n]
    by (simp add: move_file_def db_inv_def del: map_map)
qed

lemma inv_insert_xname: "db_inv d \<Longrightarrow> db_inv (snd (snd (sql_insert_xname n d)))"
  by (cases n) (auto simp: sql_insert_xname_def inv_add_xname)

lemma inv_insert_gfid: "db_inv d \<Longrightarrow> db_inv (snd (snd (sql_insert_gfid g d)))"
  by (cases g) (auto simp: sql_insert_gfid_def inv_add_gfid)

lemma inv_insert_file: "db_inv d \<Longrightarrow> db_inv (snd (snd (sql_insert_file g p q k d)))"
  by (auto simp: sql_insert_file_def inv_add_file split: option.splits)

lemma inv_insert_stat_rows: "insert_stat_rows k rows d = Some d' \<Longrightarrow> db_inv d \<Longrightarrow> db_inv d'"
  by (induction k rows d rule: insert_stat_rows.induct)
    (auto simp: inv_put_xdata split: option.splits if_splits)

lemma inv_insert_stat: "db_inv d \<Longrightarrow> db_inv (snd (snd (sql_insert_stat rows d)))"
  by (auto simp: sql_insert_stat_def inv_insert_stat_rows split: option.splits)

lemma inv_update_stat: "db_inv d \<Longrightarrow> db_inv (snd (snd (sql_update_stat v g n d)))"
  by (simp add: sql_update_stat_def inv_set_ival)

lemma inv_remove_file: "db_inv d \<Longrightarrow> db_inv (snd (snd (sql_remove_file g d)))"
  by (simp add: sql_remove_file_def db_inv_def distinct_map_filter)

lemma inv_unlink_file: "db_inv d \<Longrightarrow> db_inv (snd (snd (sql_unlink_file p d)))"
  by (simp add: sql_unlink_file_def inv_drop_path)

lemma inv_rename: "db_inv d \<Longrightarrow> db_inv (snd (snd (sql_rename p q k old d)))"
proof -
  assume inv: "db_inv d"
  have "db_inv (move_file old new n d)"
    if "\<not> (\<exists>r \<in> set (xdb_xfile d). Some (f_path r) \<noteq> old \<and> f_path r = new)" for new n
    using that by (intro inv_move_file [OF inv]) blast
  then show ?thesis using inv by (simp add: sql_rename_def split: option.split)
qed

lemma inv_insert_xdata: "db_inv d \<Longrightarrow> db_inv (snd (snd (sql_insert_xdata g n i r s d)))"
  by (auto simp: sql_insert_xdata_def inv_put_xdata split: option.splits)

lemmas sql_inv = inv_insert_xname inv_insert_gfid inv_insert_file inv_insert_stat inv_update_stat
  inv_remove_file inv_unlink_file inv_rename inv_insert_xdata

end
