(* ===== verification/Sqlite.thy ===== *)
theory Sqlite
  imports Xdb_Schema
begin

text \<open>
  The part of the SQLite C interface \<open>imess-server-xdb.c\<close> calls.  SQLite itself is
  not modelled: it is a record of functions on a connection state, which every
  definition that uses the database takes as an argument.  A prepared statement
  is its text and the values bound so far.  The locale \<open>sqlite_engine\<close> states
  what the proofs use of the engine: what a finished step of one of the
  statements does to the contents of the database, that a failing step changes
  nothing or rolls the transaction back, and the transaction commands.

  The contents are those the connection sees, and nothing else writes the
  database between its calls.  The last part is a reference engine with a script
  of faults to inject; it satisfies the contract.
\<close>

subsection \<open>Statements by name\<close>

datatype xdb_sql =
    TABLE_EXISTS | PRAGMA_ASYNC | PRAGMA_SYNC | GET_GID | INSERT_GFID | INSERT_FILE | INSERT_STAT
  | UPDATE_STAT | REMOVE_FILE | LINK_FILE | UNLINK_FILE | RENAME | INSERT_XNAME | INSERT_XDATA
  | REMOVE_XDATA

definition nl :: string where "nl = [CHR 0x0A]"

fun xdb_sqls :: "xdb_sql \<Rightarrow> string" where
  "xdb_sqls TABLE_EXISTS = ''select count(type) from sqlite_master where type='' @ [CHR 0x27] @ ''table'' @ [CHR 0x27] @ nl @
     ''and (name='' @ [CHR 0x27] @ ''xdb_xgfid'' @ [CHR 0x27] @ '' or name='' @ [CHR 0x27] @ ''xdb_xfile'' @ [CHR 0x27] @ nl @
     ''or name='' @ [CHR 0x27] @ ''xdb_xname'' @ [CHR 0x27] @ '' or name='' @ [CHR 0x27] @ ''xdb_xdata'' @ [CHR 0x27] @ '')'' @ nl"
| "xdb_sqls PRAGMA_ASYNC = ''pragma mmap_size=1610612736;'' @ nl @ ''pragma journal_mode=wal;'' @ nl @
     ''pragma synchronous=0;'' @ nl @ ''pragma temp_store=2;'' @ nl"
| "xdb_sqls PRAGMA_SYNC = ''pragma mmap_size=1610612736;'' @ nl @ ''pragma journal_mode=memory;'' @ nl @
     ''pragma synchronous=0;'' @ nl @ ''pragma temp_store=2;'' @ nl"
| "xdb_sqls GET_GID = ''select gid from xdb_xgfid where gfid=?''"
| "xdb_sqls INSERT_GFID = ''insert into xdb_xgfid (gfid) values (?)'' @ nl"
| "xdb_sqls INSERT_FILE = ''insert into xdb_xfile (gid, path, name) values ('' @ nl @
     ''(select gid from xdb_xgfid where gfid=?),'' @ nl @ ''?,substr(?,?))'' @ nl"
| "xdb_sqls INSERT_STAT = ''insert into xdb_xdata (gid, nid, ival, rval, sval)'' @ nl @
     ''select ? as gid, 1 as nid, ? as ival,'' @ nl @ ''null as rval, null as sval'' @ nl @
     ''union select ?,2,?,null,null'' @ nl @ ''union select ?,3,?,null,null'' @ nl @
     ''union select ?,4,?,null,null'' @ nl @ ''union select ?,5,?,null,null'' @ nl @
     ''union select ?,6,?,null,null'' @ nl @ ''union select ?,7,?,null,null'' @ nl @
     ''union select ?,8,?,null,null'' @ nl @ ''union select ?,9,?,null,null'' @ nl @
     ''union select ?,10,?,null,null'' @ nl @ ''union select ?,11,?,null,null'' @ nl @
     ''union select ?,12,?,null,null'' @ nl @ ''union select ?,13,?,null,null'' @ nl"
| "xdb_sqls UPDATE_STAT = ''update xdb_xdata set ival=? where gid=? and nid=?''"
| "xdb_sqls REMOVE_FILE = ''delete from xdb_xgfid where gfid=?'' @ nl"
| "xdb_sqls LINK_FILE = ''insert into xdb_xfile (gid, path, name) values ('' @ nl @
     ''(select gid from xdb_xgfid where gfid=?),?,substr(?,?))'' @ nl"
| "xdb_sqls UNLINK_FILE = ''delete from xdb_xfile where path=?'' @ nl"
| "xdb_sqls RENAME = ''update xdb_xfile set path=?,name=substr(?,?) where path=?'' @ nl"
| "xdb_sqls INSERT_XNAME = ''insert or ignore into xdb_xname (name) values (?)'' @ nl"
| "xdb_sqls INSERT_XDATA = ''insert or replace into xdb_xdata (gid, nid, ival, rval, sval)'' @ nl @
     ''values'' @ nl @ ''((select gid from xdb_xgfid where gfid=?),'' @ nl @
     ''(select nid from xdb_xname where name=?),?,?,?)'' @ nl"
| "xdb_sqls REMOVE_XDATA = ''delete from xdb_xdata where'' @ nl @
     ''fid=(select fid from xdb_xfile where gfid=?) and'' @ nl @
     ''nid=(select nid from xdb_xname where name=?)'' @ nl"

subsection \<open>The interface\<close>

record sqlite3_stmt =
  stmt_sql :: string
  stmt_args :: "nat \<Rightarrow> sqlval"

text \<open>\<open>sq_exec\<close> gives the rows the callback would see, \<open>sq_step\<close> the columns of
  the current row, and both the result code.\<close>

record 'c sqlite3 =
  sq_open :: "string \<Rightarrow> int \<times> 'c"
  sq_exec :: "'c \<Rightarrow> string \<Rightarrow> string option list list \<times> int \<times> 'c"
  sq_prepare :: "'c \<Rightarrow> string \<Rightarrow> int \<times> 'c"
  sq_bind :: "'c \<Rightarrow> sqlite3_stmt \<Rightarrow> nat \<Rightarrow> sqlval \<Rightarrow> int"
  sq_step :: "'c \<Rightarrow> sqlite3_stmt \<Rightarrow> int \<times> sqlval list \<times> 'c"

definition new_stmt :: "xdb_sql \<Rightarrow> sqlite3_stmt" where
  "new_stmt q = \<lparr>stmt_sql = xdb_sqls q, stmt_args = (\<lambda>_. SNull)\<rparr>"

definition bind_param ::
  "'c sqlite3 \<Rightarrow> 'c \<Rightarrow> sqlite3_stmt \<Rightarrow> nat \<Rightarrow> sqlval \<Rightarrow> int \<times> sqlite3_stmt" where
  "bind_param E c st i v = (let rc = sq_bind E c st i v in
     (rc, if rc = SQLITE_OK then st\<lparr>stmt_args := (stmt_args st)(i := v)\<rparr> else st))"

text \<open>A row of calls \<open>db_ret |= sqlite3_bind_\<dots>\<close>.\<close>

fun bind_params ::
  "'c sqlite3 \<Rightarrow> 'c \<Rightarrow> (nat \<times> sqlval) list \<Rightarrow> sqlite3_stmt \<Rightarrow> int \<times> sqlite3_stmt" where
  "bind_params E c [] st = (0, st)"
| "bind_params E c ((i, v) # ps) st =
     (case bind_param E c st i v of (r1, st1) \<Rightarrow>
      case bind_params E c ps st1 of (r2, st2) \<Rightarrow> (or r1 r2, st2))"

text \<open>The loop \<open>do { db_ret = sqlite3_step (stmt); } while (db_ret == SQLITE_BUSY)\<close>;
  it may run for ever.\<close>

partial_function (option) step_busy ::
  "'c sqlite3 \<Rightarrow> 'c \<Rightarrow> sqlite3_stmt \<Rightarrow> (int \<times> sqlval list \<times> 'c) option" where
  "step_busy E c st = (case sq_step E c st of (rc, row, c') \<Rightarrow>
     if rc = SQLITE_BUSY then step_busy E c' st else Some (rc, row, c'))"

subsection \<open>What the statements do\<close>

fun sql_text :: "sqlval \<Rightarrow> string option" where
  "sql_text (SText s) = Some s"
| "sql_text _ = None"

fun sql_int :: "sqlval \<Rightarrow> int option" where
  "sql_int (SInt i) = Some i"
| "sql_int _ = None"

text \<open>The statements on the tables, from the bound parameters.\<close>

fun run_stmt :: "xdb_sql \<Rightarrow> (nat \<Rightarrow> sqlval) \<Rightarrow> xdb_db \<Rightarrow> sql_result option" where
  "run_stmt GET_GID a d = Some (sql_get_gid (sql_text (a 1)) d)"
| "run_stmt INSERT_GFID a d = Some (sql_insert_gfid (sql_text (a 1)) d)"
| "run_stmt INSERT_FILE a d =
     Some (sql_insert_file (sql_text (a 1)) (sql_text (a 2)) (sql_text (a 3)) (sql_int (a 4)) d)"
| "run_stmt INSERT_STAT a d =
     Some (sql_insert_stat (map (\<lambda>k. (sql_int (a (2 * k + 1)), a (2 * k + 2))) [0..<13]) d)"
| "run_stmt UPDATE_STAT a d = Some (sql_update_stat (a 1) (sql_int (a 2)) (sql_int (a 3)) d)"
| "run_stmt REMOVE_FILE a d = Some (sql_remove_file (sql_text (a 1)) d)"
| "run_stmt LINK_FILE a d =
     Some (sql_insert_file (sql_text (a 1)) (sql_text (a 2)) (sql_text (a 3)) (sql_int (a 4)) d)"
| "run_stmt UNLINK_FILE a d = Some (sql_unlink_file (sql_text (a 1)) d)"
| "run_stmt RENAME a d =
     Some (sql_rename (sql_text (a 1)) (sql_text (a 2)) (sql_int (a 3)) (sql_text (a 4)) d)"
| "run_stmt INSERT_XNAME a d = Some (sql_insert_xname (sql_text (a 1)) d)"
| "run_stmt INSERT_XDATA a d =
     Some (sql_insert_xdata (sql_text (a 1)) (sql_text (a 2)) (a 3) (a 4) (a 5) d)"
| "run_stmt _ a d = None"

definition begin_sql :: string where "begin_sql = ''BEGIN TRANSACTION''"
definition commit_sql :: string where "commit_sql = ''END TRANSACTION''"
definition rollback_sql :: string where "rollback_sql = ''ROLLBACK''"

declare xdb_sqls.simps [simp del]

lemma step_busy_rule:
  assumes "step_busy E c st = Some (rc, row, c')" and "I c"
    and "\<And>c rc row c'. I c \<Longrightarrow> sq_step E c st = (rc, row, c') \<Longrightarrow> rc = SQLITE_BUSY \<Longrightarrow> I c'"
  shows "rc \<noteq> SQLITE_BUSY" and "\<exists>c0. I c0 \<and> sq_step E c0 st = (rc, row, c')"
proof -
  have "E' = E \<Longrightarrow> st' = st \<Longrightarrow> I c \<Longrightarrow> fst y \<noteq> SQLITE_BUSY \<and> (\<exists>c0. I c0 \<and> sq_step E c0 st = y)"
    if "step_busy E' c st' = Some y" for E' c st' y
    using that
  proof (induction E' c st' y rule: step_busy.raw_induct [rotated, consumes 1, case_names step])
    case (step f E' c st' y)
    obtain r1 row1 c1 where s: "sq_step E c st = (r1, row1, c1)" by (metis prod_cases3)
    show ?case
    proof (cases "r1 = SQLITE_BUSY")
      case True
      then have "I c1" using assms(3) s step.prems by blast
      moreover have "f E c1 st = Some y" using step.hyps step.prems s True by simp
      ultimately show ?thesis using step.IH step.prems by blast
    next
      case False
      then have "y = (r1, row1, c1)" using step.hyps step.prems s by simp
      then show ?thesis using False s step.prems by auto
    qed
  qed
  from this [OF assms(1) refl refl assms(2)] show "rc \<noteq> SQLITE_BUSY"
    and "\<exists>c0. I c0 \<and> sq_step E c0 st = (rc, row, c')" by auto
qed

subsection \<open>The contract\<close>

text \<open>\<open>db\<close> is the contents the connection sees, \<open>tx\<close> the contents at the start of
  the open transaction, if there is one.  The laws are those of SQLite's documentation on result codes and transactions: a
  statement or a \<open>COMMIT\<close> that fails may leave the transaction open or, after \<open>SQLITE_FULL\<close>,
  \<open>SQLITE_IOERR\<close>, \<open>SQLITE_NOMEM\<close> and others, roll it back on its own; \<open>BEGIN\<close>, \<open>COMMIT\<close> and \<open>ROLLBACK\<close> may all fail.\<close>

locale sqlite_engine =
  fixes E :: "'c sqlite3" and db :: "'c \<Rightarrow> xdb_db" and tx :: "'c \<Rightarrow> xdb_db option"
  assumes prepare_keeps: "sq_prepare E c sql = (rc, c') \<Longrightarrow> db c' = db c \<and> tx c' = tx c"
    and bind_codes: "sq_bind E c st i v \<in> {SQLITE_OK, SQLITE_NOMEM, SQLITE_TOOBIG, SQLITE_MISUSE, SQLITE_RANGE}"
    and step_law: "stmt_sql st = xdb_sqls q \<Longrightarrow> run_stmt q (stmt_args st) (db c) = Some (rc0, row0, d0) \<Longrightarrow>
      sq_step E c st = (rc, row, c') \<Longrightarrow>
        rc = rc0 \<and> row = row0 \<and> db c' = d0 \<and> tx c' = tx c \<or>
        rc \<notin> {SQLITE_ROW, SQLITE_DONE} \<and> db c' = db c \<and> tx c' = tx c \<or>
        rc \<notin> {SQLITE_ROW, SQLITE_DONE, SQLITE_BUSY} \<and> tx c = Some (db c') \<and> tx c' = None"
    and begin_law: "sq_exec E c begin_sql = (rows, rc, c') \<Longrightarrow>
      db c' = db c \<and> (rc = SQLITE_OK \<and> tx c = None \<and> tx c' = Some (db c) \<or> rc \<noteq> SQLITE_OK \<and> tx c' = tx c)"
    and commit_law: "sq_exec E c commit_sql = (rows, rc, c') \<Longrightarrow>
        rc = SQLITE_OK \<and> tx c \<noteq> None \<and> db c' = db c \<and> tx c' = None \<or>
        rc \<noteq> SQLITE_OK \<and> db c' = db c \<and> tx c' = tx c \<or>
        rc \<noteq> SQLITE_OK \<and> tx c = Some (db c') \<and> tx c' = None"
    and rollback_law: "sq_exec E c rollback_sql = (rows, rc, c') \<Longrightarrow>
        tx c = Some (db c') \<and> tx c' = None \<or> rc \<noteq> SQLITE_OK \<and> db c' = db c \<and> tx c' = tx c"
begin

text \<open>Waiting while the database is busy keeps the contents, so the whole loop
  acts like its last step.\<close>

lemma step_busy_law:
  assumes "step_busy E c st = Some (rc, row, c')"
    and "stmt_sql st = xdb_sqls q" "run_stmt q (stmt_args st) (db c) = Some (rc0, row0, d0)"
    and "rc0 \<noteq> SQLITE_BUSY"
  shows "rc \<noteq> SQLITE_BUSY \<and>
       (rc = rc0 \<and> row = row0 \<and> db c' = d0 \<and> tx c' = tx c \<or>
        rc \<notin> {SQLITE_ROW, SQLITE_DONE} \<and> db c' = db c \<and> tx c' = tx c \<or>
        rc \<notin> {SQLITE_ROW, SQLITE_DONE} \<and> tx c = Some (db c') \<and> tx c' = None)"
proof -
  let ?I = "\<lambda>c0. db c0 = db c \<and> tx c0 = tx c"
  have keep: "?I c2" if "?I c1" "sq_step E c1 st = (r, w, c2)" "r = SQLITE_BUSY" for c1 r w c2
    using step_law [OF assms(2), of c1 rc0 row0 d0 r w c2] that assms(3,4) by auto
  have "rc \<noteq> SQLITE_BUSY" by (rule step_busy_rule(1) [OF assms(1), of ?I, OF _ keep]) simp_all
  have "\<exists>c0. ?I c0 \<and> sq_step E c0 st = (rc, row, c')"
    by (rule step_busy_rule(2) [OF assms(1), of ?I, OF _ keep]) simp_all
  then obtain c0 where "db c0 = db c" "tx c0 = tx c" "sq_step E c0 st = (rc, row, c')" by blast
  then show ?thesis using step_law [OF assms(2), of c0 rc0 row0 d0 rc row c'] assms(3) \<open>rc \<noteq> SQLITE_BUSY\<close> by auto
qed

end

text \<open>What is durable, and what a restart or another connection sees: the contents without the open transaction.\<close>

definition committed :: "('c \<Rightarrow> xdb_db) \<Rightarrow> ('c \<Rightarrow> xdb_db option) \<Rightarrow> 'c \<Rightarrow> xdb_db" where
  "committed db tx c = (case tx c of Some d \<Rightarrow> d | None \<Rightarrow> db c)"

text \<open>Engines on which \<open>BEGIN\<close> succeeds when no transaction is open, and \<open>COMMIT\<close> and \<open>ROLLBACK\<close> when one is.\<close>

definition begins :: "'c sqlite3 \<Rightarrow> ('c \<Rightarrow> xdb_db option) \<Rightarrow> bool" where
  "begins E tx \<longleftrightarrow> (\<forall>c. tx c = None \<longrightarrow> fst (snd (sq_exec E c begin_sql)) = SQLITE_OK)"

definition commits :: "'c sqlite3 \<Rightarrow> ('c \<Rightarrow> xdb_db option) \<Rightarrow> bool" where
  "commits E tx \<longleftrightarrow> (\<forall>c. tx c \<noteq> None \<longrightarrow> fst (snd (sq_exec E c commit_sql)) = SQLITE_OK)"

definition rolls_back :: "'c sqlite3 \<Rightarrow> ('c \<Rightarrow> xdb_db option) \<Rightarrow> bool" where
  "rolls_back E tx \<longleftrightarrow> (\<forall>c. tx c \<noteq> None \<longrightarrow> fst (snd (sq_exec E c rollback_sql)) = SQLITE_OK)"

text \<open>The loop ends when one of the next attempts is not answered by \<open>SQLITE_BUSY\<close>.\<close>

fun answers_within :: "'c sqlite3 \<Rightarrow> 'c \<Rightarrow> sqlite3_stmt \<Rightarrow> nat \<Rightarrow> bool" where
  "answers_within E c st 0 = False"
| "answers_within E c st (Suc n) = (case sq_step E c st of (rc, row, c') \<Rightarrow>
     rc \<noteq> SQLITE_BUSY \<or> answers_within E c' st n)"

lemma step_busy_returns: "answers_within E c st n \<Longrightarrow> \<exists>r. step_busy E c st = Some r"
proof (induction n arbitrary: c)
  case (Suc n)
  obtain rc row c' where s: "sq_step E c st = (rc, row, c')" by (metis prod_cases3)
  show ?case
  proof (cases "rc = SQLITE_BUSY")
    case True
    then show ?thesis using Suc s by (subst step_busy.simps) simp
  next
    case False
    then show ?thesis using s by (subst step_busy.simps) simp
  qed
qed simp

subsection \<open>A reference engine\<close>

text \<open>The tables, the start of the open transaction, the codes of the faults to
  inject into the next steps, commits and rollbacks (0 for none) and the answers to other queries.\<close>

record ref_conn =
  rc_db :: xdb_db
  rc_tx :: "xdb_db option"
  rc_script :: "int list"
  rc_answers :: "string \<Rightarrow> string option list list"

definition all_sqls :: "xdb_sql list" where
  "all_sqls = [TABLE_EXISTS, PRAGMA_ASYNC, PRAGMA_SYNC, GET_GID, INSERT_GFID, INSERT_FILE, INSERT_STAT,
     UPDATE_STAT, REMOVE_FILE, LINK_FILE, UNLINK_FILE, RENAME, INSERT_XNAME, INSERT_XDATA, REMOVE_XDATA]"

definition ref_run :: "ref_conn \<Rightarrow> sqlite3_stmt \<Rightarrow> int \<times> sqlval list \<times> ref_conn" where
  "ref_run c st = (case List.find (\<lambda>q. xdb_sqls q = stmt_sql st) all_sqls of
     None \<Rightarrow> (SQLITE_ERROR, [], c)
   | Some q \<Rightarrow> (case run_stmt q (stmt_args st) (rc_db c) of
       None \<Rightarrow> (SQLITE_ERROR, [], c)
     | Some (rc, row, d) \<Rightarrow> (rc, row, c\<lparr>rc_db := d\<rparr>)))"

definition ref_step :: "ref_conn \<Rightarrow> sqlite3_stmt \<Rightarrow> int \<times> sqlval list \<times> ref_conn" where
  "ref_step c st = (case rc_script c of
     [] \<Rightarrow> ref_run c st
   | f # fs \<Rightarrow>
       if f \<in> {0, SQLITE_ROW, SQLITE_DONE} then ref_run (c\<lparr>rc_script := fs\<rparr>) st
       else (f, [], c\<lparr>rc_script := fs\<rparr>))"

definition plain_exec :: "ref_conn \<Rightarrow> string \<Rightarrow> string option list list \<times> int \<times> ref_conn" where
  "plain_exec c sql =
     (if sql = begin_sql then
        (if rc_tx c = None then ([], SQLITE_OK, c\<lparr>rc_tx := Some (rc_db c)\<rparr>) else ([], SQLITE_ERROR, c))
      else if sql = commit_sql then
        (if rc_tx c = None then ([], SQLITE_ERROR, c) else ([], SQLITE_OK, c\<lparr>rc_tx := None\<rparr>))
      else if sql = rollback_sql then
        (case rc_tx c of None \<Rightarrow> ([], SQLITE_ERROR, c)
         | Some d \<Rightarrow> ([], SQLITE_OK, c\<lparr>rc_db := d, rc_tx := None\<rparr>))
      else (rc_answers c sql, SQLITE_OK, c))"

text \<open>A full disk rolls the transaction back; other faults leave it open.\<close>

definition ref_fault :: "int \<Rightarrow> ref_conn \<Rightarrow> string option list list \<times> int \<times> ref_conn" where
  "ref_fault f c = (case rc_tx c of
     Some d \<Rightarrow> if f = SQLITE_FULL then ([], f, c\<lparr>rc_db := d, rc_tx := None\<rparr>) else ([], f, c)
   | None \<Rightarrow> ([], f, c))"

definition ref_exec :: "ref_conn \<Rightarrow> string \<Rightarrow> string option list list \<times> int \<times> ref_conn" where
  "ref_exec c sql =
     (if sql = commit_sql \<or> sql = rollback_sql then
        (case rc_script c of
           [] \<Rightarrow> plain_exec c sql
         | f # fs \<Rightarrow> if f \<in> {0, SQLITE_ROW, SQLITE_DONE} then plain_exec (c\<lparr>rc_script := fs\<rparr>) sql
                     else ref_fault f (c\<lparr>rc_script := fs\<rparr>))
      else plain_exec c sql)"

definition ref_engine :: "ref_conn sqlite3" where
  "ref_engine = \<lparr>sq_open = (\<lambda>_. (SQLITE_OK, \<lparr>rc_db = xdb_schema, rc_tx = None, rc_script = [], rc_answers = (\<lambda>_. [])\<rparr>)),
     sq_exec = ref_exec, sq_prepare = (\<lambda>c sql. (SQLITE_OK, c)), sq_bind = (\<lambda>c st i v. SQLITE_OK), sq_step = ref_step\<rparr>"

lemma xdb_sqls_distinct: "distinct (map xdb_sqls all_sqls)"
  by code_simp

lemma all_sqls_all: "q \<in> set all_sqls"
  by (cases q) (simp_all add: all_sqls_def)

lemma xdb_sqls_inj: "xdb_sqls q = xdb_sqls r \<longleftrightarrow> q = r"
  using xdb_sqls_distinct all_sqls_all by (auto simp: distinct_map inj_on_def)

lemma find_sql [simp]: "List.find (\<lambda>r. xdb_sqls r = xdb_sqls q) all_sqls = Some q"
  using xdb_sqls_distinct all_sqls_all [of q] find_Some_unique [of xdb_sqls all_sqls "xdb_sqls q" q] by simp

lemma ref_run_named:
  "stmt_sql st = xdb_sqls q \<Longrightarrow> run_stmt q (stmt_args st) (rc_db c) = Some (rc, row, d) \<Longrightarrow>
   ref_run c st = (rc, row, c\<lparr>rc_db := d\<rparr>)"
  by (simp add: ref_run_def)

lemma tx_sqls_distinct:
  "begin_sql \<noteq> commit_sql" "begin_sql \<noteq> rollback_sql" "commit_sql \<noteq> rollback_sql"
  by (simp_all add: begin_sql_def commit_sql_def rollback_sql_def)

interpretation ref_sqlite: sqlite_engine ref_engine rc_db rc_tx
proof
  fix c :: ref_conn and st q rc0 row0 d0 rc row c'
  assume "stmt_sql st = xdb_sqls q" "run_stmt q (stmt_args st) (rc_db c) = Some (rc0, row0, d0)"
    "sq_step ref_engine c st = (rc, row, c')"
  then show "rc = rc0 \<and> row = row0 \<and> rc_db c' = d0 \<and> rc_tx c' = rc_tx c \<or>
      rc \<notin> {SQLITE_ROW, SQLITE_DONE} \<and> rc_db c' = rc_db c \<and> rc_tx c' = rc_tx c \<or>
      rc \<notin> {SQLITE_ROW, SQLITE_DONE, SQLITE_BUSY} \<and> rc_tx c = Some (rc_db c') \<and> rc_tx c' = None"
    by (auto simp: ref_engine_def ref_step_def ref_run_named split: list.splits if_splits)
next
  fix c c' :: ref_conn and rows rc
  assume "sq_exec ref_engine c commit_sql = (rows, rc, c')"
  then show "rc = SQLITE_OK \<and> rc_tx c \<noteq> None \<and> rc_db c' = rc_db c \<and> rc_tx c' = None \<or>
      rc \<noteq> SQLITE_OK \<and> rc_db c' = rc_db c \<and> rc_tx c' = rc_tx c \<or> rc \<noteq> SQLITE_OK \<and> rc_tx c = Some (rc_db c') \<and> rc_tx c' = None"
    using tx_sqls_distinct
    by (auto simp: ref_engine_def ref_exec_def plain_exec_def ref_fault_def split: if_splits option.splits list.splits)
next
  fix c c' :: ref_conn and rows rc
  assume "sq_exec ref_engine c rollback_sql = (rows, rc, c')"
  then show "rc_tx c = Some (rc_db c') \<and> rc_tx c' = None \<or> rc \<noteq> SQLITE_OK \<and> rc_db c' = rc_db c \<and> rc_tx c' = rc_tx c"
    using tx_sqls_distinct
    by (auto simp: ref_engine_def ref_exec_def plain_exec_def ref_fault_def split: if_splits option.splits list.splits)
qed (use tx_sqls_distinct in \<open>auto simp: ref_engine_def ref_exec_def plain_exec_def split: if_splits option.splits\<close>)

lemma ref_begins: "begins ref_engine rc_tx"
  using tx_sqls_distinct by (simp add: begins_def ref_engine_def ref_exec_def plain_exec_def)

end
