(* ===== verification/Xdb_Index.thy ===== *)
theory Xdb_Index
  imports Xdb_Schema
begin

text \<open>
  The index a database represents: a map from paths to files and a map from
  files and attribute names to values, and how each row change of
  \<open>Xdb_Schema\<close> acts on the two maps.  The reference invariant (every row refers
  to an existing \<open>gfid\<close> and name) makes new keys free of stale rows.
\<close>

subsection \<open>The index the tables represent\<close>

text \<open>Which file a path names, by \<open>gfid\<close> and base name, and the attributes of a
  \<open>gfid\<close> by name.\<close>

definition file_row :: "xdb_db \<Rightarrow> string \<Rightarrow> xfile_row option" where
  "file_row d path = List.find (\<lambda>r. f_path r = path) (xdb_xfile d)"

definition gfid_of :: "xdb_db \<Rightarrow> int \<Rightarrow> string option" where
  "gfid_of d gid = map_option g_gfid (List.find (\<lambda>r. g_gid r = gid) (xdb_xgfid d))"

definition idx_path :: "xdb_db \<Rightarrow> string \<Rightarrow> (string \<times> string) option" where
  "idx_path d path = (case file_row d path of
     None \<Rightarrow> None
   | Some r \<Rightarrow> map_option (\<lambda>g. (g, f_name r)) (gfid_of d (f_gid r)))"

definition data_row :: "xdb_db \<Rightarrow> int \<Rightarrow> int \<Rightarrow> (sqlval \<times> sqlval \<times> sqlval) option" where
  "data_row d gid nid = map_option (\<lambda>r. (x_ival r, x_rval r, x_sval r))
     (List.find (\<lambda>r. xdata_key r = (gid, nid)) (xdb_xdata d))"

definition idx_attr :: "xdb_db \<Rightarrow> string \<Rightarrow> string \<Rightarrow> (sqlval \<times> sqlval \<times> sqlval) option" where
  "idx_attr d gfid name = (case (gid_of d (Some gfid), nid_of d (Some name)) of
     (Some g, Some n) \<Rightarrow> data_row d g n
   | _ \<Rightarrow> None)"

definition idx_gfids :: "xdb_db \<Rightarrow> string set" where
  "idx_gfids d = g_gfid ` set (xdb_xgfid d)"

lemma gid_of_iff:
  "db_inv d \<Longrightarrow> gid_of d (Some g) = Some i \<longleftrightarrow> (\<exists>r \<in> set (xdb_xgfid d). g_gfid r = g \<and> g_gid r = i)"
  by (auto simp: gid_of_def db_inv_def find_Some_unique)

lemma gfid_of_iff:
  "db_inv d \<Longrightarrow> gfid_of d i = Some g \<longleftrightarrow> (\<exists>r \<in> set (xdb_xgfid d). g_gfid r = g \<and> g_gid r = i)"
  by (auto simp: gfid_of_def db_inv_def find_Some_unique)

lemma gfid_gid: "db_inv d \<Longrightarrow> gfid_of d i = Some g \<longleftrightarrow> gid_of d (Some g) = Some i"
  by (simp add: gid_of_iff gfid_of_iff)

lemma gid_of_None: "gid_of d (Some g) = None \<longleftrightarrow> g \<notin> idx_gfids d"
  by (auto simp: gid_of_def find_None_key idx_gfids_def)

lemma file_row_iff:
  "db_inv d \<Longrightarrow> file_row d p = Some r \<longleftrightarrow> r \<in> set (xdb_xfile d) \<and> f_path r = p"
  by (auto simp: file_row_def db_inv_def find_Some_unique)

lemma file_row_None: "file_row d p = None \<longleftrightarrow> p \<notin> f_path ` set (xdb_xfile d)"
  by (simp add: file_row_def find_None_key)

lemma refs_gfid: "db_refs d \<Longrightarrow> r \<in> set (xdb_xfile d) \<Longrightarrow> gfid_of d (f_gid r) \<noteq> None"
  by (auto simp: gfid_of_def find_None_key db_refs_def)

lemma idx_path_None: "db_refs d \<Longrightarrow> idx_path d p = None \<longleftrightarrow> p \<notin> f_path ` set (xdb_xfile d)"
proof (cases "file_row d p")
  case None
  then show ?thesis by (simp add: idx_path_def file_row_None [symmetric])
next
  case (Some r)
  assume "db_refs d"
  have r: "r \<in> set (xdb_xfile d)" "f_path r = p"
    using Some by (auto simp: file_row_def find_Some_iff)
  then have "gfid_of d (f_gid r) \<noteq> None" using \<open>db_refs d\<close> by (rule_tac refs_gfid)
  then show ?thesis using Some r by (auto simp: idx_path_def)
qed

subsection \<open>What the row changes do to the index\<close>

lemma refs_add_gfid: "db_refs d \<Longrightarrow> db_refs (add_gfid g d)"
  by (auto simp: add_gfid_def db_refs_def)

lemma gfids_add_gfid [xdb_simps]: "idx_gfids (add_gfid x d) = insert x (idx_gfids d)"
  by (auto simp: add_gfid_def idx_gfids_def)

lemma gid_of_add_gfid [xdb_simps]:
  "x \<notin> idx_gfids d \<Longrightarrow> gid_of (add_gfid x d) (Some g) =
     (if g = x then Some (next_rowid (map g_gid (xdb_xgfid d))) else gid_of d (Some g))"
  by (auto simp: gid_of_def add_gfid_def find_append_key find_None_key idx_gfids_def split: option.splits)
    (auto simp: find_Some_iff)

lemma find_Some_key: "List.find (\<lambda>r. k r = v) xs = Some r \<Longrightarrow> r \<in> set xs \<and> k r = v"
  by (auto simp: find_Some_iff)

lemma next_rowid_not_found: "List.find (\<lambda>r. k r = next_rowid (map k xs)) xs = None"
  by (simp add: find_None_key)

lemma gfid_of_add_gfid [xdb_simps]:
  "gfid_of (add_gfid x d) k = (if k = next_rowid (map g_gid (xdb_xgfid d)) then Some x else gfid_of d k)"
  by (auto simp: gfid_of_def add_gfid_def find_append_key next_rowid_not_found split: option.splits)

lemma refs_fresh_gid:
  assumes "db_refs d"
  shows "r \<in> set (xdb_xfile d) \<Longrightarrow> next_rowid (map g_gid (xdb_xgfid d)) \<noteq> f_gid r"
    and "q \<in> set (xdb_xdata d) \<Longrightarrow> next_rowid (map g_gid (xdb_xgfid d)) \<noteq> x_gid q"
  using assms next_rowid_fresh_map [of g_gid "xdb_xgfid d"] by (force simp: db_refs_def)+

lemma add_gfid_simps [simp]:
  "xdb_xfile (add_gfid x d) = xdb_xfile d" "xdb_xname (add_gfid x d) = xdb_xname d"
  "xdb_xdata (add_gfid x d) = xdb_xdata d" "file_row (add_gfid x d) = file_row d"
  "nid_of (add_gfid x d) = nid_of d" "data_row (add_gfid x d) = data_row d"
  by (simp_all add: add_gfid_def file_row_def nid_of_def data_row_def fun_eq_iff split: option.split)

lemma path_add_gfid [xdb_simps]:
  assumes "db_refs d" shows "idx_path (add_gfid x d) p = idx_path d p"
proof (cases "file_row d p")
  case (Some r)
  then have "r \<in> set (xdb_xfile d)" by (auto simp: file_row_def dest!: find_Some_key)
  then have "f_gid r \<noteq> next_rowid (map g_gid (xdb_xgfid d))" using refs_fresh_gid(1) [OF assms] by metis
  then show ?thesis using Some by (simp add: idx_path_def gfid_of_add_gfid)
qed (simp add: idx_path_def)

lemma data_row_fresh:
  assumes "db_refs d" shows "data_row d (next_rowid (map g_gid (xdb_xgfid d))) m = None"
  using refs_fresh_gid(2) [OF assms] by (fastforce simp: data_row_def find_None_iff xdata_key_def)

lemma attr_add_gfid [xdb_simps]:
  assumes "db_refs d" "x \<notin> idx_gfids d"
  shows "idx_attr (add_gfid x d) g n = idx_attr d g n"
proof -
  have "gid_of d (Some x) = None" using assms(2) by (simp add: gid_of_None)
  then show ?thesis
    by (auto simp: idx_attr_def gid_of_add_gfid assms data_row_fresh split: option.splits)
qed

lemma add_file_simps [simp]:
  "xdb_xgfid (add_file g q n d) = xdb_xgfid d" "xdb_xname (add_file g q n d) = xdb_xname d"
  "xdb_xdata (add_file g q n d) = xdb_xdata d"
  "gid_of (add_file g q n d) = gid_of d" "gfid_of (add_file g q n d) = gfid_of d"
  "idx_attr (add_file g q n d) = idx_attr d" "idx_gfids (add_file g q n d) = idx_gfids d"
  by (simp_all add: add_file_def gid_of_def gfid_of_def idx_gfids_def idx_attr_def nid_of_def data_row_def
      fun_eq_iff split: option.split)

lemma refs_add_file: "db_refs d \<Longrightarrow> gid_of d (Some g) = Some i \<Longrightarrow> db_refs (add_file i p n d)"
  by (auto simp: db_refs_def add_file_def gid_of_def dest!: find_Some_key)

lemma path_add_file [xdb_simps]:
  assumes "db_inv d" "gid_of d (Some g) = Some i" "q \<notin> f_path ` set (xdb_xfile d)"
  shows "idx_path (add_file i q n d) p = (if p = q then Some (g, n) else idx_path d p)"
proof -
  have "gfid_of d i = Some g" using assms by (simp add: gfid_gid)
  moreover have "file_row (add_file i q n d) p = (if p = q
      then Some \<lparr>f_fid = next_rowid (map f_fid (xdb_xfile d)), f_gid = i, f_path = q, f_name = n\<rparr>
      else file_row d p)"
    using assms(3) by (cases "List.find (\<lambda>r. f_path r = p) (xdb_xfile d)")
      (auto simp: file_row_def add_file_def find_append_key dest!: find_Some_key)
  ultimately show ?thesis by (simp add: idx_path_def split: option.split)
qed

lemma drop_path_simps [simp]:
  "xdb_xgfid (drop_path p d) = xdb_xgfid d" "xdb_xname (drop_path p d) = xdb_xname d"
  "xdb_xdata (drop_path p d) = xdb_xdata d"
  "gid_of (drop_path p d) = gid_of d" "gfid_of (drop_path p d) = gfid_of d"
  "idx_attr (drop_path p d) = idx_attr d" "idx_gfids (drop_path p d) = idx_gfids d"
  by (simp_all add: drop_path_def gid_of_def gfid_of_def idx_gfids_def idx_attr_def nid_of_def data_row_def
      fun_eq_iff split: option.split)

lemma refs_drop_path: "db_refs d \<Longrightarrow> db_refs (drop_path p d)"
  by (auto simp: db_refs_def drop_path_def)

lemma find_filter: "List.find P (filter Q xs) = List.find (\<lambda>x. Q x \<and> P x) xs"
  by (induction xs) auto

lemma path_drop_path [xdb_simps]:
  "idx_path (drop_path (Some q) d) p = (if p = q then None else idx_path d p)"
proof -
  have "file_row (drop_path (Some q) d) p = (if p = q then None else file_row d p)"
    by (auto simp: file_row_def drop_path_def find_filter find_None_iff intro: find_cong)
  then show ?thesis by (simp add: idx_path_def split: option.split)
qed

lemma move_file_simps [simp]:
  "xdb_xgfid (move_file o' p n d) = xdb_xgfid d" "xdb_xname (move_file o' p n d) = xdb_xname d"
  "xdb_xdata (move_file o' p n d) = xdb_xdata d"
  "gid_of (move_file o' p n d) = gid_of d" "gfid_of (move_file o' p n d) = gfid_of d"
  "idx_attr (move_file o' p n d) = idx_attr d" "idx_gfids (move_file o' p n d) = idx_gfids d"
  by (simp_all add: move_file_def gid_of_def gfid_of_def idx_gfids_def idx_attr_def nid_of_def data_row_def
      fun_eq_iff split: option.split)

lemma refs_move_file: "db_refs d \<Longrightarrow> db_refs (move_file o' p n d)"
  by (auto simp: db_refs_def move_file_def)

lemma find_map: "List.find P (map f xs) = map_option f (List.find (\<lambda>x. P (f x)) xs)"
  by (induction xs) auto

lemma file_row_move_file:
  assumes row: "file_row d old = Some r"
    and free: "\<forall>r \<in> set (xdb_xfile d). f_path r \<noteq> old \<longrightarrow> f_path r \<noteq> new"
  shows "file_row (move_file (Some old) new n d) p =
    (if p = new then Some (r\<lparr>f_path := new, f_name := n\<rparr>) else if p = old then None else file_row d p)"
proof -
  let ?f = "\<lambda>r. if f_path r = old then r\<lparr>f_path := new, f_name := n\<rparr> else r"
  have mv: "file_row (move_file (Some old) new n d) p =
      map_option ?f (List.find (\<lambda>r. f_path (?f r) = p) (xdb_xfile d))"
    by (simp add: file_row_def move_file_def find_map)
  have r: "f_path r = old" using row by (auto simp: file_row_def dest!: find_Some_key)
  consider "p = new" | "p \<noteq> new" "p = old" | "p \<noteq> new" "p \<noteq> old" by blast
  then show ?thesis
  proof cases
    case 1
    have "List.find (\<lambda>r. f_path (?f r) = p) (xdb_xfile d) = file_row d old"
      unfolding file_row_def using free 1 by (intro find_cong) auto
    then show ?thesis using mv row r 1 by simp
  next
    case 2
    then have "List.find (\<lambda>r. f_path (?f r) = p) (xdb_xfile d) = None"
      by (auto simp: find_None_iff)
    then show ?thesis using mv 2 by simp
  next
    case 3
    have "List.find (\<lambda>r. f_path (?f r) = p) (xdb_xfile d) = file_row d p"
      unfolding file_row_def using 3 by (intro find_cong) auto
    moreover have "x \<noteq> r \<and> f_path x \<noteq> old" if "file_row d p = Some x" for x
      using that 3 r by (auto simp: file_row_def dest!: find_Some_key)
    ultimately show ?thesis using mv 3 by (cases "file_row d p") auto
  qed
qed

lemma path_move_file [xdb_simps]:
  assumes "idx_path d old = Some (g, m)"
    and "\<forall>r \<in> set (xdb_xfile d). f_path r \<noteq> old \<longrightarrow> f_path r \<noteq> new"
  shows "idx_path (move_file (Some old) new n d) p =
    (if p = new then Some (g, n) else if p = old then None else idx_path d p)"
proof -
  obtain r where r: "file_row d old = Some r" "gfid_of d (f_gid r) = Some g"
    using assms(1) by (auto simp: idx_path_def split: option.splits)
  from file_row_move_file [OF r(1) assms(2)] show ?thesis
    using r by (simp add: idx_path_def split: option.split)
qed

lemma put_xdata_simps [simp]:
  "xdb_xgfid (put_xdata g k i r s d) = xdb_xgfid d" "xdb_xname (put_xdata g k i r s d) = xdb_xname d"
  "xdb_xfile (put_xdata g k i r s d) = xdb_xfile d"
  "gid_of (put_xdata g k i r s d) = gid_of d" "nid_of (put_xdata g k i r s d) = nid_of d"
  "idx_path (put_xdata g k i r s d) = idx_path d" "idx_gfids (put_xdata g k i r s d) = idx_gfids d"
  by (simp_all add: put_xdata_def gid_of_def gfid_of_def idx_gfids_def idx_path_def file_row_def nid_of_def
      fun_eq_iff split: option.split)

lemma refs_put_xdata:
  "db_refs d \<Longrightarrow> gid_of d (Some g) = Some i \<Longrightarrow> nid_of d (Some n) = Some k \<Longrightarrow> db_refs (put_xdata i k v r s d)"
  by (auto simp: db_refs_def put_xdata_def new_xdata_def gid_of_def nid_of_def dest!: find_Some_key)

lemma data_row_put_xdata [xdb_simps]:
  "data_row (put_xdata g k i r s d) g' k' = (if (g', k') = (g, k) then Some (i, r, s) else data_row d g' k')"
proof -
  have "List.find (\<lambda>x. xdata_key x \<noteq> (g, k) \<and> xdata_key x = (g', k')) (xdb_xdata d) =
      (if (g', k') = (g, k) then None else List.find (\<lambda>x. xdata_key x = (g', k')) (xdb_xdata d))"
    by (auto simp: find_None_iff intro: find_cong)
  then show ?thesis
    by (auto simp: data_row_def put_xdata_def find_append_key find_filter new_xdata_def xdata_key_def
        split: option.splits)
qed

lemma gid_of_inj:
  "db_inv d \<Longrightarrow> gid_of d (Some g) = Some i \<Longrightarrow> gid_of d (Some g') = Some i \<Longrightarrow> g = g'"
  by (metis gfid_gid option.inject)

lemma nid_of_iff:
  "db_inv d \<Longrightarrow> nid_of d (Some n) = Some k \<longleftrightarrow> (\<exists>r \<in> set (xdb_xname d). n_name r = n \<and> n_nid r = k)"
  by (auto simp: nid_of_def db_inv_def find_Some_unique)

lemma nid_of_inj:
  assumes "db_inv d" "nid_of d (Some n) = Some k" "nid_of d (Some n') = Some k"
  shows "n = n'"
proof -
  obtain r r' where "r \<in> set (xdb_xname d)" "n_name r = n" "n_nid r = k"
    "r' \<in> set (xdb_xname d)" "n_name r' = n'" "n_nid r' = k"
    using assms by (auto simp: nid_of_iff)
  moreover have "inj_on n_nid (set (xdb_xname d))" using assms(1) by (simp add: db_inv_def distinct_map)
  ultimately show ?thesis by (metis inj_onD)
qed

lemma attr_put_xdata [xdb_simps]:
  assumes "db_inv d" "gid_of d (Some g) = Some i" "nid_of d (Some n) = Some k"
  shows "idx_attr (put_xdata i k v r s d) g' n' = (if g' = g \<and> n' = n then Some (v, r, s) else idx_attr d g' n')"
  using assms gid_of_inj [OF assms(1), of _ i] nid_of_inj [OF assms(1), of _ k]
  by (auto simp: idx_attr_def data_row_put_xdata split: option.splits)

lemma set_ival_simps [simp]:
  "xdb_xgfid (set_ival v i k d) = xdb_xgfid d" "xdb_xname (set_ival v i k d) = xdb_xname d"
  "xdb_xfile (set_ival v i k d) = xdb_xfile d"
  "gid_of (set_ival v i k d) = gid_of d" "nid_of (set_ival v i k d) = nid_of d"
  "idx_path (set_ival v i k d) = idx_path d" "idx_gfids (set_ival v i k d) = idx_gfids d"
  by (simp_all add: set_ival_def gid_of_def gfid_of_def idx_gfids_def idx_path_def file_row_def nid_of_def
      fun_eq_iff split: option.split)

lemma refs_set_ival: "db_refs d \<Longrightarrow> db_refs (set_ival v i k d)"
  by (auto simp: db_refs_def set_ival_def)

lemma data_row_set_ival [xdb_simps]:
  "data_row (set_ival v (Some i) (Some k) d) g n =
     (if (g, n) = (i, k) then map_option (\<lambda>(_, r, s). (v, r, s)) (data_row d g n) else data_row d g n)"
proof -
  let ?f = "\<lambda>r. if x_gid r = i \<and> x_nid r = k then r\<lparr>x_ival := v\<rparr> else r"
  have "List.find (\<lambda>r. xdata_key (?f r) = (g, n)) (xdb_xdata d) =
      List.find (\<lambda>r. xdata_key r = (g, n)) (xdb_xdata d)"
    by (intro find_cong) (auto simp: xdata_key_def)
  then have eq: "data_row (set_ival v (Some i) (Some k) d) g n = map_option (\<lambda>r. (x_ival (?f r), x_rval (?f r), x_sval (?f r)))
      (List.find (\<lambda>r. xdata_key r = (g, n)) (xdb_xdata d))"
    by (simp add: data_row_def set_ival_def find_map option.map_comp comp_def)
  show ?thesis
  proof (cases "List.find (\<lambda>r. xdata_key r = (g, n)) (xdb_xdata d)")
    case (Some a)
    then have "xdata_key a = (g, n)" using find_Some_key by metis
    then have "x_gid a = g" "x_nid a = n" by (simp_all add: xdata_key_def)
    moreover have "data_row d g n = Some (x_ival a, x_rval a, x_sval a)" by (simp add: data_row_def Some)
    ultimately show ?thesis unfolding eq Some by auto
  next
    case None
    then have "data_row d g n = None" by (simp add: data_row_def)
    then show ?thesis unfolding eq None by auto
  qed
qed

lemma attr_set_ival [xdb_simps]:
  assumes "db_inv d" "gid_of d (Some g) = Some i" "nid_of d (Some n) = Some k"
  shows "idx_attr (set_ival v (Some i) (Some k) d) g' n' =
    (if g' = g \<and> n' = n then map_option (\<lambda>(_, r, s). (v, r, s)) (idx_attr d g n) else idx_attr d g' n')"
  using assms gid_of_inj [OF assms(1), of _ i] nid_of_inj [OF assms(1), of _ k]
  by (auto simp: idx_attr_def data_row_set_ival split: option.splits)

lemma add_xname_simps [simp]:
  "xdb_xgfid (add_xname n d) = xdb_xgfid d" "xdb_xfile (add_xname n d) = xdb_xfile d"
  "xdb_xdata (add_xname n d) = xdb_xdata d"
  "gid_of (add_xname n d) = gid_of d" "data_row (add_xname n d) = data_row d"
  "idx_path (add_xname n d) = idx_path d" "idx_gfids (add_xname n d) = idx_gfids d"
  by (simp_all add: add_xname_def gid_of_def gfid_of_def idx_gfids_def idx_path_def file_row_def data_row_def
      fun_eq_iff split: option.split)

lemma refs_add_xname: "db_refs d \<Longrightarrow> db_refs (add_xname n d)"
  by (auto simp: db_refs_def add_xname_def)

lemma nid_of_add_xname [xdb_simps]:
  "n \<notin> n_name ` set (xdb_xname d) \<Longrightarrow> nid_of (add_xname n d) (Some m) =
     (if m = n then Some (next_rowid (map n_nid (xdb_xname d))) else nid_of d (Some m))"
  by (cases "List.find (\<lambda>r. n_name r = m) (xdb_xname d)")
    (auto simp: nid_of_def add_xname_def find_append_key dest!: find_Some_key)

lemma nid_of_None: "nid_of d (Some n) = None \<longleftrightarrow> n \<notin> n_name ` set (xdb_xname d)"
  by (simp add: nid_of_def find_None_key)

lemma refs_fresh_nid:
  assumes "db_refs d" "q \<in> set (xdb_xdata d)"
  shows "next_rowid (map n_nid (xdb_xname d)) \<noteq> x_nid q"
proof -
  have "x_nid q \<in> n_nid ` set (xdb_xname d)" using assms by (auto simp: db_refs_def)
  then show ?thesis using next_rowid_fresh_map [of n_nid "xdb_xname d"] by metis
qed

lemma attr_add_xname [xdb_simps]:
  assumes "db_refs d" "n \<notin> n_name ` set (xdb_xname d)"
  shows "idx_attr (add_xname n d) g m = idx_attr d g m"
proof -
  have "data_row d i (next_rowid (map n_nid (xdb_xname d))) = None" for i
    using refs_fresh_nid [OF assms(1)] by (fastforce simp: data_row_def find_None_iff xdata_key_def)
  moreover have "nid_of d (Some n) = None" using assms(2) by (simp add: nid_of_None)
  ultimately show ?thesis
    by (auto simp: idx_attr_def nid_of_add_xname assms split: option.splits)
qed

lemma insert_stat_rows_same:
  assumes "\<forall>j < length vs. (i, nid + int j) \<notin> xdata_key ` set (xdb_xdata d)"
  shows "\<exists>d'. insert_stat_rows nid (map (\<lambda>v. (Some i, v)) vs) d = Some d' \<and>
    xdb_xgfid d' = xdb_xgfid d \<and> xdb_xname d' = xdb_xname d \<and> xdb_xfile d' = xdb_xfile d \<and>
    (\<forall>g n. data_row d' g n = (if g = i \<and> nid \<le> n \<and> n < nid + int (length vs)
       then Some (vs ! nat (n - nid), SNull, SNull) else data_row d g n)) \<and>
    xdata_key ` set (xdb_xdata d') = xdata_key ` set (xdb_xdata d) \<union>
      (\<lambda>j. (i, nid + int j)) ` {..< length vs}"
  using assms
proof (induction vs arbitrary: nid d)
  case (Cons v vs)
  let ?d = "put_xdata i nid v SNull SNull d"
  have here: "(i, nid) \<notin> xdata_key ` set (xdb_xdata d)" using Cons.prems [rule_format, of 0] by simp
  have keys: "xdata_key ` set (xdb_xdata ?d) = insert (i, nid) (xdata_key ` set (xdb_xdata d))"
    using here by (auto simp: put_xdata_def new_xdata_def xdata_key_def image_iff)
  have "\<forall>j < length vs. (i, nid + 1 + int j) \<notin> xdata_key ` set (xdb_xdata ?d)"
  proof (intro allI impI)
    fix j assume "j < length vs"
    then have "(i, nid + int (Suc j)) \<notin> xdata_key ` set (xdb_xdata d)"
      using Cons.prems [rule_format, of "Suc j"] by simp
    then show "(i, nid + 1 + int j) \<notin> xdata_key ` set (xdb_xdata ?d)" by (simp add: keys add.assoc)
  qed
  from Cons.IH [OF this] obtain d' where d':
    "insert_stat_rows (nid + 1) (map (\<lambda>v. (Some i, v)) vs) ?d = Some d'"
    "xdb_xgfid d' = xdb_xgfid d" "xdb_xname d' = xdb_xname d" "xdb_xfile d' = xdb_xfile d"
    "\<forall>g n. data_row d' g n = (if g = i \<and> nid + 1 \<le> n \<and> n < nid + 1 + int (length vs)
       then Some (vs ! nat (n - (nid + 1)), SNull, SNull) else data_row ?d g n)"
    "xdata_key ` set (xdb_xdata d') = xdata_key ` set (xdb_xdata ?d) \<union>
      (\<lambda>j. (i, nid + 1 + int j)) ` {..< length vs}"
    by auto
  have "insert_stat_rows nid (map (\<lambda>v. (Some i, v)) (v # vs)) d = Some d'"
    using here d'(1) by simp
  moreover have "data_row d' g n = (if g = i \<and> nid \<le> n \<and> n < nid + int (length (v # vs))
       then Some ((v # vs) ! nat (n - nid), SNull, SNull) else data_row d g n)" for g n
  proof (cases "g = i \<and> nid + 1 \<le> n")
    case True
    then have "nat (n - nid) = Suc (nat (n - (nid + 1)))" by linarith
    then show ?thesis using True d'(5) by (auto simp: data_row_put_xdata)
  next
    case False
    then show ?thesis using d'(5) by (auto simp: data_row_put_xdata)
  qed
  moreover have "(\<lambda>j. (i, nid + int j)) ` {..< length (v # vs)} =
      insert (i, nid) ((\<lambda>j. (i, nid + 1 + int j)) ` {..< length vs})"
    by (simp add: lessThan_Suc_eq_insert_0 image_image add.assoc)
  ultimately show ?case using d'(2,3,4,6) keys by auto
qed auto

lemma refs_keys:
  "db_refs d \<longleftrightarrow> f_gid ` set (xdb_xfile d) \<subseteq> g_gid ` set (xdb_xgfid d) \<and>
     xdata_key ` set (xdb_xdata d) \<subseteq> g_gid ` set (xdb_xgfid d) \<times> n_nid ` set (xdb_xname d)"
  by (auto simp: db_refs_def xdata_key_def)

lemma stat_nid_of:
  assumes "db_inv d" "j < 13"
  shows "nid_of d (Some (stat_names ! j)) = Some (int j + 1)"
proof -
  have "take 13 (xdb_xname d) ! j = \<lparr>n_nid = int j + 1, n_name = stat_names ! j\<rparr>"
    using assms by (simp add: db_inv_def xdb_schema_names stat_names_def upto.simps numeral_eq_Suc less_Suc_eq)
      (elim disjE; simp)
  then have "xdb_xname d ! j = \<lparr>n_nid = int j + 1, n_name = stat_names ! j\<rparr>" using assms(2) by simp
  moreover have "j < length (xdb_xname d)" using inv_names_length [OF assms(1)] assms(2) by simp
  ultimately show ?thesis using nid_of_iff [OF assms(1)] nth_mem by fastforce
qed

end
