(* ===== verification/Xdb.thy ===== *)
theory Xdb
  imports Sqlite Xdb_Index Dict_Codec
begin

text \<open>
  The index database client of a brick, \<open>imess-server-xdb.c\<close> and the inline
  functions of \<open>imess-server-xdb.h\<close>, one definition per function.  The SQLite
  interface is the argument \<open>E\<close>.  An operation returns its C result and the
  updated \<open>ims_xdb_t\<close>; it is \<open>None\<close> when it never returns (the engine answers
  \<open>SQLITE_BUSY\<close> for ever), reads through a NULL pointer, writes past a stack
  buffer, or works with the position of a \<open>/\<close> that is not there.
\<close>

subsection \<open>Types\<close>

abbreviation (input) IMS_XDB_TYPE_NONE :: int where "IMS_XDB_TYPE_NONE \<equiv> 0"
abbreviation (input) IMS_XDB_TYPE_INTEGER :: int where "IMS_XDB_TYPE_INTEGER \<equiv> 1"
abbreviation (input) IMS_XDB_TYPE_REAL :: int where "IMS_XDB_TYPE_REAL \<equiv> 2"
abbreviation (input) IMS_XDB_TYPE_STRING :: int where "IMS_XDB_TYPE_STRING \<equiv> 3"

abbreviation (input) IMS_XDB_STAT_OP_ALL :: int where "IMS_XDB_STAT_OP_ALL \<equiv> 0"
abbreviation (input) IMS_XDB_STAT_OP_WRITE :: int where "IMS_XDB_STAT_OP_WRITE \<equiv> 1"
abbreviation (input) IMS_XDB_STAT_OP_OWNER :: int where "IMS_XDB_STAT_OP_OWNER \<equiv> 2"
abbreviation (input) N_IMS_XDB_STAT_OPS :: int where "N_IMS_XDB_STAT_OPS \<equiv> 3"

abbreviation (input) IMS_XDB_ST_DEV :: int where "IMS_XDB_ST_DEV \<equiv> 1"
abbreviation (input) IMS_XDB_ST_INO :: int where "IMS_XDB_ST_INO \<equiv> 2"
abbreviation (input) IMS_XDB_ST_MODE :: int where "IMS_XDB_ST_MODE \<equiv> 3"
abbreviation (input) IMS_XDB_ST_NLINK :: int where "IMS_XDB_ST_NLINK \<equiv> 4"
abbreviation (input) IMS_XDB_ST_UID :: int where "IMS_XDB_ST_UID \<equiv> 5"
abbreviation (input) IMS_XDB_ST_GID :: int where "IMS_XDB_ST_GID \<equiv> 6"
abbreviation (input) IMS_XDB_ST_RDEV :: int where "IMS_XDB_ST_RDEV \<equiv> 7"
abbreviation (input) IMS_XDB_ST_SIZE :: int where "IMS_XDB_ST_SIZE \<equiv> 8"
abbreviation (input) IMS_XDB_ST_BLKSIZE :: int where "IMS_XDB_ST_BLKSIZE \<equiv> 9"
abbreviation (input) IMS_XDB_ST_BLOCKS :: int where "IMS_XDB_ST_BLOCKS \<equiv> 10"
abbreviation (input) IMS_XDB_ST_ATIME :: int where "IMS_XDB_ST_ATIME \<equiv> 11"
abbreviation (input) IMS_XDB_ST_MTIME :: int where "IMS_XDB_ST_MTIME \<equiv> 12"
abbreviation (input) IMS_XDB_ST_CTIME :: int where "IMS_XDB_ST_CTIME \<equiv> 13"

abbreviation (input) XDB_MODE_SYNC :: int where "XDB_MODE_SYNC \<equiv> 0"
abbreviation (input) XDB_MODE_ASYNC :: int where "XDB_MODE_ASYNC \<equiv> 1"

record 'c ims_xdb =
  conn :: 'c
  db_ret :: int
  xdb_mode :: int
  qrset :: dict_t

record ims_xdb_file =
  xf_gfid :: "string option"
  xf_path :: "string option"
  xf_extra :: "string option"

record ims_xdb_attr =
  at_gfid :: "string option"
  at_type :: int
  at_name :: "string option"
  at_ival :: u64
  at_rval :: dbl
  at_sval :: "string option"

text \<open>\<open>struct stat\<close> on x86-64: the signed members as their bits.\<close>

record stat_t =
  st_dev :: u64
  st_ino :: u64
  st_mode :: u32
  st_nlink :: u64
  st_uid :: u32
  st_gid :: u32
  st_rdev :: u64
  st_size :: u64
  st_blksize :: u64
  st_blocks :: u64
  st_atime :: u64
  st_mtime :: u64
  st_ctime :: u64

subsection \<open>Helpers\<close>

definition text_param :: "string option \<Rightarrow> sqlval" where
  "text_param s = (case s of None \<Rightarrow> SNull | Some x \<Rightarrow> SText x)"

definition int64_param :: "u64 \<Rightarrow> sqlval" where
  "int64_param w = SInt (sint w)"

definition ims_xdb_exec_simple_sql ::
  "'c sqlite3 \<Rightarrow> 'c ims_xdb option \<Rightarrow> string option \<Rightarrow> int \<times> 'c ims_xdb option" where
  "ims_xdb_exec_simple_sql E xdb sql = (case (xdb, sql) of
     (Some x, Some s) \<Rightarrow>
       (case sq_exec E (conn x) s of (_, ret, c) \<Rightarrow>
          if ret = SQLITE_OK then (0, Some (x\<lparr>conn := c\<rparr>))
          else (-1, Some (x\<lparr>conn := c, db_ret := ret\<rparr>)))
   | _ \<Rightarrow> (-1, xdb))"

definition ims_xdb_tx_begin :: "'c sqlite3 \<Rightarrow> 'c ims_xdb option \<Rightarrow> int \<times> 'c ims_xdb option" where
  "ims_xdb_tx_begin E xdb = ims_xdb_exec_simple_sql E xdb (Some begin_sql)"

definition ims_xdb_tx_commit :: "'c sqlite3 \<Rightarrow> 'c ims_xdb option \<Rightarrow> int \<times> 'c ims_xdb option" where
  "ims_xdb_tx_commit E xdb = ims_xdb_exec_simple_sql E xdb (Some commit_sql)"

definition ims_xdb_tx_rollback :: "'c sqlite3 \<Rightarrow> 'c ims_xdb option \<Rightarrow> int \<times> 'c ims_xdb option" where
  "ims_xdb_tx_rollback E xdb = ims_xdb_exec_simple_sql E xdb (Some rollback_sql)"

text \<open>\<open>sqlite3_column_int\<close>: the low 32 bits of an integer column, 0 for NULL.\<close>

definition column_int :: "sqlval list \<Rightarrow> int" where
  "column_int row = (case row of SInt i # _ \<Rightarrow> signed_take_bit 31 i | _ \<Rightarrow> 0)"

definition xdb_n_tables :: int where "xdb_n_tables = 4"

text \<open>The schema script is the argument \<open>ims_xdb_schema_sqlstr\<close>.\<close>

definition db_initialize :: "'c sqlite3 \<Rightarrow> string \<Rightarrow> 'c ims_xdb \<Rightarrow> int \<times> 'c ims_xdb" where
  "db_initialize E ims_xdb_schema_sqlstr self =
     (let (r0, self0) =
        (if xdb_mode self = XDB_MODE_ASYNC
         then ims_xdb_exec_simple_sql E (Some self) (Some (xdb_sqls PRAGMA_SYNC))
         else (0, Some self))
      in case self0 of None \<Rightarrow> (-1, self) | Some s0 \<Rightarrow>
        if r0 \<noteq> 0 then (-1, s0\<lparr>db_ret := r0\<rparr>)
        else case sq_prepare E (conn s0) (xdb_sqls TABLE_EXISTS) of (r1, c1) \<Rightarrow>
          if r1 \<noteq> SQLITE_OK then (-1, s0\<lparr>conn := c1, db_ret := r1\<rparr>)
          else case sq_step E c1 (new_stmt TABLE_EXISTS) of (r2, row, c2) \<Rightarrow>
            let s2 = s0\<lparr>conn := c2\<rparr> in
            if r2 \<noteq> SQLITE_ROW then (-1, s2\<lparr>db_ret := r2\<rparr>)
            else if column_int row \<noteq> xdb_n_tables then
              (case ims_xdb_exec_simple_sql E (Some s2) (Some ims_xdb_schema_sqlstr) of
                 (r3, Some s3) \<Rightarrow> (if r3 \<noteq> 0 then -1 else 0, s3\<lparr>db_ret := r3\<rparr>)
               | (r3, None) \<Rightarrow> (-1, s2))
            else (0, s2\<lparr>db_ret := r2\<rparr>))"

text \<open>The index of the last occurrence.\<close>

definition rindex :: "string \<Rightarrow> char \<Rightarrow> nat option" where
  "rindex s c = (if c \<in> set s then Some (length s - 1 - length (takeWhile (\<lambda>x. x \<noteq> c) (rev s))) else None)"

definition name_substr_pos :: "string \<Rightarrow> int option" where
  "name_substr_pos path = map_option (\<lambda>pos. signed_take_bit 31 (int pos + 2)) (rindex path (CHR ''/''))"

definition name_substr :: "string \<Rightarrow> string option" where
  "name_substr path = map_option (\<lambda>pos. drop (pos + 1) path) (rindex path (CHR ''/''))"

text \<open>Prepare, bind, step until not busy: the body the operations share.  The
  result is \<open>ret\<close>, \<open>db_ret\<close> and the connection.\<close>

definition stmt_exec ::
  "'c sqlite3 \<Rightarrow> 'c \<Rightarrow> xdb_sql \<Rightarrow> ('c \<Rightarrow> sqlite3_stmt \<Rightarrow> (int \<times> sqlite3_stmt) option) \<Rightarrow>
   (int \<times> int \<times> 'c) option" where
  "stmt_exec E c q bnd = (case sq_prepare E c (xdb_sqls q) of (r1, c1) \<Rightarrow>
     if r1 \<noteq> SQLITE_OK then Some (-1, r1, c1)
     else do {
       (r2, st) \<leftarrow> bnd c1 (new_stmt q);
       if r2 \<noteq> SQLITE_OK then Some (-1, r2, c1)
       else do {
         (r3, row, c3) \<leftarrow> step_busy E c1 st;
         Some (if r3 = SQLITE_DONE then 0 else -1, r3, c3)
       }
     })"

text \<open>\<open>bind_all\<close> binds a row of parameters and keeps the disjunction of the results.\<close>

definition bind_all ::
  "'c sqlite3 \<Rightarrow> (nat \<times> sqlval) list \<Rightarrow> 'c \<Rightarrow> sqlite3_stmt \<Rightarrow> (int \<times> sqlite3_stmt) option" where
  "bind_all E ps c st = Some (bind_params E c ps st)"

definition get_gid :: "'c sqlite3 \<Rightarrow> 'c ims_xdb \<Rightarrow> ims_xdb_file \<Rightarrow> (int \<times> u64 option \<times> 'c ims_xdb) option" where
  "get_gid E self file = (case sq_prepare E (conn self) (xdb_sqls GET_GID) of (r1, c1) \<Rightarrow>
     if r1 \<noteq> SQLITE_OK then Some (-1, None, self\<lparr>conn := c1, db_ret := r1\<rparr>)
     else case bind_param E c1 (new_stmt GET_GID) 1 (text_param (xf_gfid file)) of (r2, st) \<Rightarrow>
       if r2 \<noteq> SQLITE_OK then Some (-1, None, self\<lparr>conn := c1, db_ret := r2\<rparr>)
       else do {
         (r3, row, c3) \<leftarrow> step_busy E c1 st;
         Some (if r3 = SQLITE_ROW then 0 else -1,
               if r3 = SQLITE_ROW then Some (word_of_int (column_int row)) else None,
               self\<lparr>conn := c3, db_ret := r3\<rparr>)
       })"

definition bind_sattr ::
  "'c sqlite3 \<Rightarrow> 'c \<Rightarrow> u64 \<Rightarrow> nat \<Rightarrow> u64 \<Rightarrow> sqlite3_stmt \<Rightarrow> int \<times> nat \<times> sqlite3_stmt" where
  "bind_sattr E c fid i ival st =
     (case bind_params E c [(i + 1, int64_param fid), (i + 2, int64_param ival)] st of (ret, st') \<Rightarrow>
        if ret = SQLITE_OK then (0, i + 2, st') else (- EINVAL, i, st'))"

fun bind_sattrs :: "'c sqlite3 \<Rightarrow> 'c \<Rightarrow> u64 \<Rightarrow> nat \<Rightarrow> u64 list \<Rightarrow> sqlite3_stmt \<Rightarrow> int \<times> sqlite3_stmt" where
  "bind_sattrs E c fid i [] st = (0, st)"
| "bind_sattrs E c fid i (v # vs) st = (case bind_sattr E c fid i v st of (ret, i', st') \<Rightarrow>
     if ret \<noteq> 0 then (ret, st') else bind_sattrs E c fid i' vs st')"

definition stat_fields :: "stat_t \<Rightarrow> u64 list" where
  "stat_fields sb = [st_dev sb, st_ino sb, ucast (st_mode sb), st_nlink sb, ucast (st_uid sb), ucast (st_gid sb),
     st_rdev sb, st_size sb, st_blksize sb, st_blocks sb, st_atime sb, st_mtime sb, st_ctime sb]"

definition bind_stat :: "'c sqlite3 \<Rightarrow> 'c \<Rightarrow> u64 \<Rightarrow> stat_t \<Rightarrow> sqlite3_stmt \<Rightarrow> int \<times> sqlite3_stmt" where
  "bind_stat E c fid sb st = bind_sattrs E c fid 0 (stat_fields sb) st"

subsection \<open>Initialization\<close>

text \<open>The handle stored through the pointer is \<open>None\<close> when nothing is stored.\<close>

definition ims_xdb_init ::
  "'c sqlite3 \<Rightarrow> string \<Rightarrow> string option \<Rightarrow> int \<Rightarrow> int \<times> 'c ims_xdb option" where
  "ims_xdb_init E ims_xdb_schema_sqlstr db_path mode = (case db_path of
     None \<Rightarrow> (-1, None)
   | Some p \<Rightarrow> (case sq_open E p of (ret, c) \<Rightarrow>
       if ret \<noteq> SQLITE_OK then (-1, None)
       else case db_initialize E ims_xdb_schema_sqlstr
                   \<lparr>conn = c, db_ret = 0, xdb_mode = mode, qrset = dict_new\<rparr> of (ret, self) \<Rightarrow>
         if ret \<noteq> 0 then (ret, None) else (0, Some self)))"

subsection \<open>Files\<close>

definition ims_xdb_insert_gfid ::
  "'c sqlite3 \<Rightarrow> 'c ims_xdb option \<Rightarrow> ims_xdb_file option \<Rightarrow> (int \<times> 'c ims_xdb) option" where
  "ims_xdb_insert_gfid E self file = (case self of None \<Rightarrow> None | Some x \<Rightarrow>
     (case file of None \<Rightarrow> Some (-1, x\<lparr>db_ret := -1\<rparr>) | Some f \<Rightarrow> do {
        (ret, _, c) \<leftarrow> stmt_exec E (conn x) INSERT_GFID
          (bind_all E [(1, text_param (xf_gfid f))]);
        Some (ret, x\<lparr>conn := c, db_ret := ret\<rparr>)
      }))"

text \<open>Only the result of the last \<open>bind\<close> is looked at.\<close>

definition bind_insert_file ::
  "'c sqlite3 \<Rightarrow> ims_xdb_file \<Rightarrow> 'c \<Rightarrow> sqlite3_stmt \<Rightarrow> (int \<times> sqlite3_stmt) option" where
  "bind_insert_file E f c st =
     (case bind_params E c [(1, text_param (xf_gfid f)), (2, text_param (xf_path f)), (3, text_param (xf_path f))] st of
        (_, st1) \<Rightarrow> do {
          path \<leftarrow> xf_path f;
          pos \<leftarrow> name_substr_pos path;
          Some (bind_param E c st1 4 (SInt pos))
        })"

definition ims_xdb_insert_file ::
  "'c sqlite3 \<Rightarrow> 'c ims_xdb option \<Rightarrow> ims_xdb_file option \<Rightarrow> (int \<times> 'c ims_xdb) option" where
  "ims_xdb_insert_file E self file = (case self of None \<Rightarrow> None | Some x \<Rightarrow>
     (case file of None \<Rightarrow> Some (-1, x\<lparr>db_ret := 0\<rparr>) | Some f \<Rightarrow> do {
        (ret, rc, c) \<leftarrow> stmt_exec E (conn x) INSERT_FILE (bind_insert_file E f);
        Some (ret, x\<lparr>conn := c, db_ret := rc\<rparr>)
      }))"

definition ims_xdb_remove_file ::
  "'c sqlite3 \<Rightarrow> 'c ims_xdb option \<Rightarrow> ims_xdb_file option \<Rightarrow> (int \<times> 'c ims_xdb) option" where
  "ims_xdb_remove_file E self file = (case self of None \<Rightarrow> None | Some x \<Rightarrow>
     (case Option.bind file xf_gfid of None \<Rightarrow> Some (-1, x\<lparr>db_ret := 0\<rparr>) | Some gfid \<Rightarrow> do {
        (ret, rc, c) \<leftarrow> stmt_exec E (conn x) REMOVE_FILE (bind_all E [(1, SText gfid)]);
        Some (ret, x\<lparr>conn := c, db_ret := rc\<rparr>)
      }))"

definition ims_xdb_link_file ::
  "'c sqlite3 \<Rightarrow> 'c ims_xdb option \<Rightarrow> ims_xdb_file option \<Rightarrow> (int \<times> 'c ims_xdb) option" where
  "ims_xdb_link_file E self file = (case self of None \<Rightarrow> None | Some x \<Rightarrow>
     (case (Option.bind file xf_path, Option.bind file xf_gfid) of
        (Some path, Some gfid) \<Rightarrow> do {
          (ret, rc, c) \<leftarrow> stmt_exec E (conn x) LINK_FILE (\<lambda>c st. do {
             pos \<leftarrow> name_substr_pos path;
             bind_all E [(1, SText gfid), (2, SText path), (3, SText path), (4, SInt pos)] c st
           });
          Some (ret, x\<lparr>conn := c, db_ret := rc\<rparr>)
        }
      | _ \<Rightarrow> Some (-1, x\<lparr>db_ret := 0\<rparr>)))"

definition ims_xdb_unlink_file ::
  "'c sqlite3 \<Rightarrow> 'c ims_xdb option \<Rightarrow> ims_xdb_file option \<Rightarrow> (int \<times> 'c ims_xdb) option" where
  "ims_xdb_unlink_file E self file = (case self of None \<Rightarrow> None | Some x \<Rightarrow>
     (case Option.bind file xf_path of None \<Rightarrow> Some (-1, x\<lparr>db_ret := 0\<rparr>) | Some path \<Rightarrow> do {
        (ret, rc, c) \<leftarrow> stmt_exec E (conn x) UNLINK_FILE (bind_all E [(1, SText path)]);
        Some (ret, x\<lparr>conn := c, db_ret := rc\<rparr>)
      }))"

definition ims_xdb_insert_stat ::
  "'c sqlite3 \<Rightarrow> 'c ims_xdb option \<Rightarrow> ims_xdb_file option \<Rightarrow> stat_t option \<Rightarrow> (int \<times> 'c ims_xdb) option" where
  "ims_xdb_insert_stat E self file sb = (case self of None \<Rightarrow> None | Some x \<Rightarrow>
     (case (file, sb) of
        (Some f, Some b) \<Rightarrow>
          (case sq_prepare E (conn x) (xdb_sqls INSERT_STAT) of (r1, c1) \<Rightarrow>
             if r1 \<noteq> SQLITE_OK then Some (-1, x\<lparr>conn := c1, db_ret := r1\<rparr>)
             else do {
               (ret, gid, x2) \<leftarrow> get_gid E (x\<lparr>conn := c1\<rparr>) f;
               if ret \<noteq> 0 then Some (ret, x2\<lparr>db_ret := r1\<rparr>)
               else case bind_stat E (conn x2) (the gid) b (new_stmt INSERT_STAT) of (ret3, st) \<Rightarrow>
                 if ret3 \<noteq> 0 then Some (ret3, x2\<lparr>db_ret := r1\<rparr>)
                 else do {
                   (r4, row, c4) \<leftarrow> step_busy E (conn x2) st;
                   Some (if r4 = SQLITE_DONE then 0 else -1, x2\<lparr>conn := c4, db_ret := r4\<rparr>)
                 }
             })
      | _ \<Rightarrow> Some (-1, x\<lparr>db_ret := 0\<rparr>)))"

text \<open>\<open>if (ret) rollback else commit\<close>; the results of both are dropped.\<close>

definition tx_end :: "'c sqlite3 \<Rightarrow> int \<Rightarrow> 'c ims_xdb option \<Rightarrow> 'c ims_xdb option" where
  "tx_end E ret x = snd (if ret \<noteq> 0 then ims_xdb_tx_rollback E x else ims_xdb_tx_commit E x)"

definition ims_xdb_insert_new_file ::
  "'c sqlite3 \<Rightarrow> 'c ims_xdb option \<Rightarrow> ims_xdb_file option \<Rightarrow> stat_t option \<Rightarrow> (int \<times> 'c ims_xdb option) option" where
  "ims_xdb_insert_new_file E xdb file sb =
     (if xdb = None \<or> file = None \<or> sb = None then Some (-1, tx_end E (-1) xdb)
      else do {
        (r1, x1) \<leftarrow> ims_xdb_insert_gfid E (snd (ims_xdb_tx_begin E xdb)) file;
        if r1 \<noteq> 0 then Some (r1, tx_end E r1 (Some x1))
        else do {
          (r2, x2) \<leftarrow> ims_xdb_insert_file E (Some x1) file;
          if r2 \<noteq> 0 then Some (r2, tx_end E r2 (Some x2))
          else do {
            (r3, x3) \<leftarrow> ims_xdb_insert_stat E (Some x2) file sb;
            Some (r3, tx_end E r3 (Some x3))
          }
        }
      })"

subsection \<open>Updating stat attributes\<close>

definition u_update_xdata ::
  "'c sqlite3 \<Rightarrow> 'c \<Rightarrow> sqlite3_stmt \<Rightarrow> int \<Rightarrow> int \<Rightarrow> u64 \<Rightarrow> (int \<times> sqlite3_stmt \<times> 'c) option" where
  "u_update_xdata E c st gid nid ival =
     (case bind_params E c [(1, int64_param ival), (2, SInt gid), (3, SInt nid)] st of (rc, st') \<Rightarrow>
        if rc \<noteq> 0 then Some (rc, st', c)
        else do {
          (rc, row, c') \<leftarrow> step_busy E c st';
          Some (rc, st', c')
        })"

text \<open>The calls of the macro \<open>update_xdata\<close> in a row; the first that fails ends
  them.  The argument \<open>gid\<close> is an \<open>int\<close>.\<close>

fun update_xdata :: "'c sqlite3 \<Rightarrow> 'c \<Rightarrow> sqlite3_stmt \<Rightarrow> int \<Rightarrow> (int \<times> u64) list \<Rightarrow> (int \<times> 'c) option" where
  "update_xdata E c st gid [] = Some (SQLITE_DONE, c)"
| "update_xdata E c st gid ((nid, ival) # us) = do {
     (rc, st', c') \<leftarrow> u_update_xdata E c st gid nid ival;
     if rc \<noteq> SQLITE_DONE then Some (rc, c') else update_xdata E c' st' gid us
   }"

definition stat_updates :: "int \<Rightarrow> stat_t \<Rightarrow> (int \<times> u64) list" where
  "stat_updates stat_op sb =
     (if stat_op = IMS_XDB_STAT_OP_ALL then
        [(IMS_XDB_ST_DEV, st_dev sb), (IMS_XDB_ST_INO, st_ino sb), (IMS_XDB_ST_MODE, ucast (st_mode sb)),
         (IMS_XDB_ST_NLINK, st_nlink sb), (IMS_XDB_ST_RDEV, st_rdev sb), (IMS_XDB_ST_BLKSIZE, st_blksize sb),
         (IMS_XDB_ST_CTIME, st_ctime sb)] else []) @
     (if stat_op = IMS_XDB_STAT_OP_ALL \<or> stat_op = IMS_XDB_STAT_OP_OWNER then
        [(IMS_XDB_ST_UID, ucast (st_uid sb)), (IMS_XDB_ST_GID, ucast (st_gid sb))] else []) @
     (if stat_op = IMS_XDB_STAT_OP_ALL \<or> stat_op = IMS_XDB_STAT_OP_WRITE then
        [(IMS_XDB_ST_SIZE, st_size sb), (IMS_XDB_ST_BLOCKS, st_blocks sb), (IMS_XDB_ST_ATIME, st_atime sb),
         (IMS_XDB_ST_MTIME, st_mtime sb)] else [])"

definition ims_xdb_update_stat ::
  "'c sqlite3 \<Rightarrow> 'c ims_xdb option \<Rightarrow> ims_xdb_file option \<Rightarrow> stat_t option \<Rightarrow> int \<Rightarrow> (int \<times> 'c ims_xdb) option" where
  "ims_xdb_update_stat E self file sb stat_op0 = (case self of None \<Rightarrow> None | Some x \<Rightarrow>
     (case (file, Option.bind file xf_gfid, sb) of
        (Some f, Some _, Some b) \<Rightarrow>
          (let stat_op = (if stat_op0 < 0 \<or> N_IMS_XDB_STAT_OPS \<le> stat_op0 then IMS_XDB_STAT_OP_ALL else stat_op0)
           in do {
             (ret, gid, x1) \<leftarrow> get_gid E x f;
             if ret \<noteq> 0 then Some (-1, x1)
             else case sq_prepare E (conn x1) (xdb_sqls UPDATE_STAT) of (r2, c2) \<Rightarrow>
               if r2 \<noteq> SQLITE_OK then Some (-1, x1\<lparr>conn := c2, db_ret := r2\<rparr>)
               else case snd (ims_xdb_tx_begin E (Some (x1\<lparr>conn := c2\<rparr>))) of None \<Rightarrow> None | Some x3 \<Rightarrow> do {
                 (r4, c4) \<leftarrow> update_xdata E (conn x3) (new_stmt UPDATE_STAT)
                    (signed_take_bit 31 (uint (the gid))) (stat_updates stat_op b);
                 let x4 = x3\<lparr>conn := c4, db_ret := r4\<rparr>;
                     failed = r4 \<noteq> SQLITE_DONE
                 in do {
                   x5 \<leftarrow> (if failed then snd (ims_xdb_tx_rollback E (Some x4)) else snd (ims_xdb_tx_commit E (Some x4)));
                   Some (if failed then -1 else 0, x5\<lparr>db_ret := r4\<rparr>)
                 }
               }
           })
      | _ \<Rightarrow> Some (-1, x\<lparr>db_ret := 0\<rparr>)))"

subsection \<open>Renaming and extended attributes\<close>

text \<open>\<open>xf_path\<close> is the old path, \<open>xf_extra\<close> the new one.\<close>

definition ims_xdb_rename ::
  "'c sqlite3 \<Rightarrow> 'c ims_xdb option \<Rightarrow> ims_xdb_file option \<Rightarrow> (int \<times> 'c ims_xdb) option" where
  "ims_xdb_rename E self file = (case self of None \<Rightarrow> None | Some x \<Rightarrow>
     (case (Option.bind file xf_path, Option.bind file xf_extra) of
        (Some old_path, Some new_path) \<Rightarrow> do {
          (ret, rc, c) \<leftarrow> stmt_exec E (conn x) RENAME (\<lambda>c st. do {
             pos \<leftarrow> name_substr_pos new_path;
             bind_all E [(1, SText new_path), (2, SText new_path), (3, SInt pos), (4, SText old_path)] c st
           });
          Some (ret, x\<lparr>conn := c, db_ret := rc\<rparr>)
        }
      | _ \<Rightarrow> Some (-1, x\<lparr>db_ret := 0\<rparr>)))"

definition ims_xdb_insert_xattr :: "'c ims_xdb option \<Rightarrow> int \<times> 'c ims_xdb option" where
  "ims_xdb_insert_xattr self = (0, self)"

definition ims_xdb_remove_xattr :: "'c ims_xdb option \<Rightarrow> int \<times> 'c ims_xdb option" where
  "ims_xdb_remove_xattr self = (0, self)"

definition attr_params :: "ims_xdb_attr \<Rightarrow> (nat \<times> sqlval) list" where
  "attr_params a =
     (if at_type a = IMS_XDB_TYPE_INTEGER then [(3, int64_param (at_ival a)), (4, SNull), (5, SNull)]
      else if at_type a = IMS_XDB_TYPE_REAL then [(3, SNull), (4, SReal (at_rval a)), (5, SNull)]
      else if at_type a = IMS_XDB_TYPE_STRING then [(3, SNull), (4, SNull), (5, text_param (at_sval a))]
      else [])"

definition ims_xdb_setxattr ::
  "'c sqlite3 \<Rightarrow> 'c ims_xdb option \<Rightarrow> ims_xdb_attr option \<Rightarrow> (int \<times> 'c ims_xdb) option" where
  "ims_xdb_setxattr E self xattr =
     (let abort = (\<lambda>x rc. do { y \<leftarrow> tx_end E (-1) x; Some (-1, y\<lparr>db_ret := rc\<rparr>) }) in
      case (self, xattr, Option.bind xattr at_gfid, Option.bind xattr at_name) of
        (Some x, Some a, Some gfid, Some name) \<Rightarrow>
          if at_type a \<noteq> IMS_XDB_TYPE_INTEGER \<and> at_type a \<noteq> IMS_XDB_TYPE_REAL \<and> at_type a \<noteq> IMS_XDB_TYPE_STRING
          then Some (-1, x)
          else case snd (ims_xdb_tx_begin E (Some x)) of None \<Rightarrow> None | Some x1 \<Rightarrow> do {
            (r2, rc2, c2) \<leftarrow> stmt_exec E (conn x1) INSERT_XNAME (bind_all E [(1, SText name)]);
            if r2 \<noteq> 0 then abort (Some (x1\<lparr>conn := c2\<rparr>)) rc2
            else do {
              (r3, rc3, c3) \<leftarrow> stmt_exec E c2 INSERT_XDATA
                (bind_all E ([(1, SText gfid), (2, SText name)] @ attr_params a));
              y \<leftarrow> tx_end E r3 (Some (x1\<lparr>conn := c3\<rparr>));
              Some (r3, y\<lparr>db_ret := rc3\<rparr>)
            }
          }
      | _ \<Rightarrow> abort self 0)"

subsection \<open>Direct queries\<close>

record callback_data =
  cd_xdata :: dict_t
  cd_rows :: u64

text \<open>\<open>sprintf (pos, "%s%c", \<dots>)\<close> into a buffer of 1024 bytes; the column NULL prints
  as \<open>(null)\<close>, and the final separator is the NUL that ends the text.\<close>

fun join_columns :: "string option list \<Rightarrow> string \<Rightarrow> string option" where
  "join_columns [] buf = Some buf"
| "join_columns (v # vs) buf =
     (let buf' = buf @ (case v of Some s \<Rightarrow> s | None \<Rightarrow> ''(null)'') in
      if 1024 < length buf' + 2 then None
      else join_columns vs (if vs = [] then buf' else buf' @ ''|''))"

definition direct_query_callback :: "callback_data \<Rightarrow> string option list \<Rightarrow> (int \<times> callback_data) option" where
  "direct_query_callback cd argv = do {
     keybuf \<leftarrow> (let k = fmt_d (uint (cd_rows cd)) in if length k < 10 then Some k else None);
     buf \<leftarrow> join_columns argv [];
     case dict_set_dynstr_with_alloc (Some (cd_xdata cd)) keybuf (Some buf) of
       (ret, Some xdata) \<Rightarrow>
         Some (if ret \<noteq> 0 then (ret, cd\<lparr>cd_xdata := xdata\<rparr>)
               else (0, cd\<lparr>cd_xdata := xdata, cd_rows := cd_rows cd + 1\<rparr>))
     | (ret, None) \<Rightarrow> None
   }"

text \<open>\<open>sqlite3_exec\<close> calls back once per row and stops with \<open>SQLITE_ABORT\<close> when the
  callback fails.\<close>

fun exec_rows :: "string option list list \<Rightarrow> callback_data \<Rightarrow> (bool \<times> callback_data) option" where
  "exec_rows [] cd = Some (True, cd)"
| "exec_rows (argv # rows) cd = do {
     (ret, cd') \<leftarrow> direct_query_callback cd argv;
     if ret \<noteq> 0 then Some (False, cd') else exec_rows rows cd'
   }"

definition ims_xdb_direct_query ::
  "'c sqlite3 \<Rightarrow> 'c ims_xdb option \<Rightarrow> string option \<Rightarrow> dict_t option \<Rightarrow> (int \<times> 'c ims_xdb \<times> dict_t option) option" where
  "ims_xdb_direct_query E self sql xdata = (case self of None \<Rightarrow> None | Some x \<Rightarrow>
     (case (sql, xdata) of
        (Some s, Some d) \<Rightarrow>
          (case sq_exec E (conn x) s of (rows, rc0, c) \<Rightarrow> do {
             (complete, cd) \<leftarrow> exec_rows rows \<lparr>cd_xdata = d, cd_rows = 0\<rparr>;
             let rc = (if complete then rc0 else SQLITE_ABORT);
                 x' = x\<lparr>conn := c, db_ret := rc\<rparr>
             in if rc \<noteq> 0 then Some (-1, x', Some (cd_xdata cd))
                else case dict_set_uint64 (Some (cd_xdata cd)) ''count'' (uint (cd_rows cd)) of (_, d1) \<Rightarrow>
                  (case dict_set_int32 d1 ''ret'' rc of (ret, d2) \<Rightarrow> Some (ret, x', d2))
           })
      | _ \<Rightarrow> Some (-1, x\<lparr>db_ret := 0\<rparr>, xdata)))"

subsection \<open>Registered results\<close>

text \<open>The dictionary of a query result is an object of the heap, named by its
  address; \<open>qrset\<close> holds the address as a static pointer.\<close>

definition ptr_data :: "nat \<Rightarrow> byte list" where
  "ptr_data a = map (\<lambda>i. word_of_nat (a div 256 ^ i)) [0..<8]"

definition ptr_addr :: "byte list \<Rightarrow> nat" where
  "ptr_addr bs = sum_list (map (\<lambda>(i, b). unat b * 256 ^ i) (zip [0..<8] bs))"

definition ims_xdb_register_result ::
  "'c ims_xdb option \<Rightarrow> string option \<Rightarrow> nat option \<Rightarrow> int \<times> 'c ims_xdb option" where
  "ims_xdb_register_result xdb key result = (case (xdb, key, result) of
     (Some x, Some k, Some r) \<Rightarrow>
       (case dict_set_static_ptr (Some (qrset x)) k (Some (ptr_data r)) of
          (ret, Some q) \<Rightarrow> (ret, Some (x\<lparr>qrset := q\<rparr>))
        | (ret, None) \<Rightarrow> (ret, xdb))
   | _ \<Rightarrow> (-1, xdb))"

definition ims_xdb_get_result :: "'c ims_xdb option \<Rightarrow> string option \<Rightarrow> nat option" where
  "ims_xdb_get_result xdb key = (case (xdb, key) of
     (Some x, Some k) \<Rightarrow>
       (case dict_get_ptr (Some (qrset x)) (Some k) of
          (ret, p) \<Rightarrow> if ret \<noteq> 0 then None else map_option ptr_addr p)
   | _ \<Rightarrow> None)"

end
