(* ===== verification/Xdb_Laws.thy ===== *)
theory Xdb_Laws
  imports Xdb
begin

text \<open>
  What each operation of \<open>Xdb\<close> does to the contents of the database, for every
  engine that satisfies the contract of \<open>Sqlite\<close>: it has its effect and returns
  0, or it has none and returns a negative value.  Operations that run several
  statements in a transaction are all or nothing.  Then what the effects mean
  for the index, and that the operations return when the engine does not answer
  \<open>SQLITE_BUSY\<close> for ever.
\<close>

subsection \<open>Parameters\<close>

lemma or_zero: "or (a::int) b = 0 \<longleftrightarrow> a = 0 \<and> b = 0"
  by (simp add: or_eq_0_iff)

lemma bind_param_ok:
  "bind_param E c st i v = (0, st') \<Longrightarrow> st' = st\<lparr>stmt_args := (stmt_args st)(i := v)\<rparr>"
  by (auto simp: bind_param_def Let_def split: if_splits)

lemma bind_param_sql: "bind_param E c st i v = (r, st') \<Longrightarrow> stmt_sql st' = stmt_sql st"
  by (auto simp: bind_param_def Let_def split: if_splits)

fun put_args :: "(nat \<times> sqlval) list \<Rightarrow> (nat \<Rightarrow> sqlval) \<Rightarrow> nat \<Rightarrow> sqlval" where
  "put_args [] a = a"
| "put_args ((i, v) # ps) a = put_args ps (a(i := v))"

lemma bind_params_ok:
  "bind_params E c ps st = (0, st') \<Longrightarrow>
   st' = st\<lparr>stmt_args := put_args ps (stmt_args st)\<rparr>"
proof (induction ps arbitrary: st)
  case (Cons p ps)
  obtain i v where p: "p = (i, v)" by (cases p)
  obtain r1 st1 where b: "bind_param E c st i v = (r1, st1)" by (cases "bind_param E c st i v")
  obtain r2 st2 where bs: "bind_params E c ps st1 = (r2, st2)" by (cases "bind_params E c ps st1")
  have "r1 = 0" "r2 = 0" "st' = st2" using Cons.prems by (auto simp: p b bs or_zero)
  then show ?case using Cons.IH [of st1] b bs by (auto simp: p dest!: bind_param_ok)
qed simp

lemma bind_params_sql: "bind_params E c ps st = (r, st') \<Longrightarrow> stmt_sql st' = stmt_sql st"
proof (induction ps arbitrary: st r st')
  case (Cons p ps)
  obtain i v where p: "p = (i, v)" by (cases p)
  obtain r1 st1 where b: "bind_param E c st i v = (r1, st1)" by (cases "bind_param E c st i v")
  obtain r2 st2 where bs: "bind_params E c ps st1 = (r2, st2)" by (cases "bind_params E c ps st1")
  have "st' = st2" using Cons.prems by (simp add: p b bs)
  then show ?case using Cons.IH [OF bs] bind_param_sql [OF b] by simp
qed simp

lemma bind_all_ok:
  assumes "bind_all E ps c (new_stmt q) = Some (0, st)"
  shows "stmt_sql st = xdb_sqls q" and "stmt_args st = put_args ps (\<lambda>_. SNull)"
  using assms bind_params_ok [of E c ps "new_stmt q" st] by (auto simp: bind_all_def new_stmt_def)

lemma text_of_param [simp]: "sql_text (text_param s) = s"
  by (cases s) (simp_all add: text_param_def)

subsection \<open>One statement\<close>

text \<open>A statement that does not finish leaves the contents or, in a transaction,
  rolls it back.\<close>

definition no_effect :: "xdb_db \<Rightarrow> xdb_db option \<Rightarrow> xdb_db \<Rightarrow> xdb_db option \<Rightarrow> bool" where
  "no_effect d t d' t' \<longleftrightarrow> d' = d \<and> t' = t \<or> t = Some d' \<and> t' = None"

lemma no_effect_refl [simp]: "no_effect d t d t"
  by (simp add: no_effect_def)

context sqlite_engine
begin

lemma stmt_exec_law:
  assumes run: "stmt_exec E c q bnd = Some (ret, rc, c')"
    and bnd: "\<And>c1 st. bnd c1 (new_stmt q) = Some (0, st) \<Longrightarrow>
      stmt_sql st = xdb_sqls q \<and> (\<exists>rc0 row0 d0. run_stmt q (stmt_args st) (db c) = Some (rc0, row0, d0) \<and> P rc0 d0)"
    and P: "\<And>rc0 d0. P rc0 d0 \<Longrightarrow> rc0 \<noteq> SQLITE_BUSY \<and> (rc0 \<noteq> SQLITE_DONE \<longrightarrow> d0 = db c)"
  shows "ret = 0 \<and> P SQLITE_DONE (db c') \<and> tx c' = tx c \<or>
    ret = -1 \<and> no_effect (db c) (tx c) (db c') (tx c')"
proof -
  obtain r1 c1 where pr: "sq_prepare E c (xdb_sqls q) = (r1, c1)" by (cases "sq_prepare E c (xdb_sqls q)")
  note keep = prepare_keeps [OF pr]
  show ?thesis
  proof (cases "r1 = 0")
    case True
    then obtain r2 st where b: "bnd c1 (new_stmt q) = Some (r2, st)"
      using run pr by (auto simp: stmt_exec_def split: Option.bind_splits prod.splits)
    show ?thesis
    proof (cases "r2 = 0")
      case True
      then obtain r3 row c3 where st: "step_busy E c1 st = Some (r3, row, c3)"
        and res: "ret = (if r3 = SQLITE_DONE then 0 else -1)" "rc = r3" "c' = c3"
        using run pr b \<open>r1 = 0\<close> by (auto simp: stmt_exec_def split: Option.bind_splits)
      obtain rc0 row0 d0 where rs: "stmt_sql st = xdb_sqls q" "run_stmt q (stmt_args st) (db c) = Some (rc0, row0, d0)"
        "P rc0 d0" using bnd [of c1 st] b True by auto
      have "run_stmt q (stmt_args st) (db c1) = Some (rc0, row0, d0)" using rs keep by simp
      from step_busy_law [OF st rs(1) this] P [OF rs(3)] rs(3) res keep show ?thesis
        by (auto simp: no_effect_def)
    next
      case False
      then show ?thesis using run pr b \<open>r1 = 0\<close> keep by (auto simp: stmt_exec_def)
    qed
  next
    case False
    then show ?thesis using run pr keep by (auto simp: stmt_exec_def)
  qed
qed

lemma stmt_exec_fun:
  assumes "stmt_exec E c q bnd = Some (ret, rc, c')"
    and "\<And>c1 st. bnd c1 (new_stmt q) = Some (0, st) \<Longrightarrow>
      stmt_sql st = xdb_sqls q \<and> run_stmt q (stmt_args st) (db c) = Some R"
    and "fst R \<noteq> SQLITE_BUSY" and "fst R \<noteq> SQLITE_DONE \<Longrightarrow> snd (snd R) = db c"
  shows "ret = 0 \<and> fst R = SQLITE_DONE \<and> db c' = snd (snd R) \<and> tx c' = tx c \<or>
    ret = -1 \<and> no_effect (db c) (tx c) (db c') (tx c')"
proof -
  let ?P = "\<lambda>rc d. rc = fst R \<and> d = snd (snd R)"
  have "ret = 0 \<and> ?P SQLITE_DONE (db c') \<and> tx c' = tx c \<or>
      ret = -1 \<and> no_effect (db c) (tx c) (db c') (tx c')"
    by (rule stmt_exec_law [OF assms(1), where P = ?P]) (use assms(2-4) in \<open>auto simp: prod_eq_iff\<close>)
  then show ?thesis by auto
qed

lemma stmt_exec_all:
  assumes "stmt_exec E c q (bind_all E ps) = Some (ret, rc, c')"
    and "run_stmt q (put_args ps (\<lambda>_. SNull)) (db c) = Some (rc0, row0, d0)"
    and "rc0 \<noteq> SQLITE_BUSY" and "rc0 \<noteq> SQLITE_DONE \<Longrightarrow> d0 = db c"
  shows "ret = 0 \<and> rc0 = SQLITE_DONE \<and> db c' = d0 \<and> tx c' = tx c \<or>
    ret = -1 \<and> no_effect (db c) (tx c) (db c') (tx c')"
proof -
  have "stmt_sql st = xdb_sqls q \<and> run_stmt q (stmt_args st) (db c) = Some (rc0, row0, d0)"
    if "bind_all E ps c1 (new_stmt q) = Some (0, st)" for c1 st
    using bind_all_ok [OF that] assms(2) by simp
  from stmt_exec_fun [OF assms(1) this] show ?thesis using assms(3,4) by simp
qed

end

definition base_name :: "string \<Rightarrow> string" where
  "base_name path = (case name_substr_pos path of Some pos \<Rightarrow> (utf8_skip ^^ nat (pos - 1)) path | None \<Rightarrow> [])"

lemma sql_insert_gfid_cases:
  "sql_insert_gfid g d = (rc, row, d') \<Longrightarrow>
   rc = SQLITE_CONSTRAINT \<and> d' = d \<or>
   rc = SQLITE_DONE \<and> (\<exists>x. g = Some x \<and> x \<notin> idx_gfids d \<and> d' = add_gfid x d)"
  by (auto simp: sql_insert_gfid_def idx_gfids_def split: option.splits if_splits)

lemma sql_insert_file_cases:
  "sql_insert_file g p q k d = (rc, row, d') \<Longrightarrow>
   rc = SQLITE_CONSTRAINT \<and> d' = d \<or>
   rc = SQLITE_DONE \<and> (\<exists>x i y z pos. g = Some x \<and> gid_of d (Some x) = Some i \<and> p = Some y \<and> q = Some z \<and> k = Some pos \<and>
     y \<notin> f_path ` set (xdb_xfile d) \<and> d' = add_file i y ((utf8_skip ^^ nat (pos - 1)) z) d)"
  by (cases g) (auto simp: sql_insert_file_def sql_substr_def gid_of_def split: option.splits if_splits)

lemma sql_rename_cases:
  "sql_rename p q k (Some old) d = (rc, row, d') \<Longrightarrow>
   rc = SQLITE_CONSTRAINT \<and> d' = d \<or>
   rc = SQLITE_DONE \<and> (old \<notin> f_path ` set (xdb_xfile d) \<and> d' = d \<or>
     (\<exists>new z pos. p = Some new \<and> q = Some z \<and> k = Some pos \<and> old \<in> f_path ` set (xdb_xfile d) \<and>
       (\<forall>r \<in> set (xdb_xfile d). f_path r \<noteq> old \<longrightarrow> f_path r \<noteq> new) \<and>
       d' = move_file (Some old) new ((utf8_skip ^^ nat (pos - 1)) z) d))"
  by (auto simp: sql_rename_def sql_substr_def split: option.splits if_splits) 

lemma sql_insert_stat_cases:
  "sql_insert_stat rows d = (rc, row, d') \<Longrightarrow>
   rc = SQLITE_CONSTRAINT \<and> d' = d \<or> rc = SQLITE_DONE \<and> insert_stat_rows 1 rows d = Some d'"
  by (auto simp: sql_insert_stat_def split: option.splits)

lemma sql_insert_xdata_cases:
  "sql_insert_xdata (Some g) (Some n) i r s d = (rc, row, d') \<Longrightarrow>
   rc = SQLITE_CONSTRAINT \<and> d' = d \<or>
   rc = SQLITE_DONE \<and> (\<exists>gi ni. gid_of d (Some g) = Some gi \<and> nid_of d (Some n) = Some ni \<and> d' = put_xdata gi ni i r s d)"
  by (auto simp: sql_insert_xdata_def split: option.splits)

context sqlite_engine
begin

abbreviation xdb_of :: "'c ims_xdb \<Rightarrow> xdb_db" where "xdb_of x \<equiv> db (conn x)"
abbreviation tx_of :: "'c ims_xdb \<Rightarrow> xdb_db option" where "tx_of x \<equiv> tx (conn x)"

lemma insert_gfid_law:
  assumes "ims_xdb_insert_gfid E (Some x) (Some f) = Some (ret, x')"
  shows "ret = 0 \<and> (\<exists>g. xf_gfid f = Some g \<and> g \<notin> idx_gfids (xdb_of x) \<and> xdb_of x' = add_gfid g (xdb_of x)) \<and> tx_of x' = tx_of x \<or>
    ret = -1 \<and> no_effect (xdb_of x) (tx_of x) (xdb_of x') (tx_of x')"
proof -
  obtain rc c where run: "stmt_exec E (conn x) INSERT_GFID (bind_all E [(1, text_param (xf_gfid f))]) = Some (ret, rc, c)"
    and x': "x' = x\<lparr>conn := c, db_ret := ret\<rparr>"
    using assms by (auto simp: ims_xdb_insert_gfid_def split: Option.bind_splits)
  obtain rc0 row0 d0 where R: "sql_insert_gfid (xf_gfid f) (xdb_of x) = (rc0, row0, d0)" by (metis prod_cases3)
  note cases = sql_insert_gfid_cases [OF R]
  have "ret = 0 \<and> rc0 = SQLITE_DONE \<and> db c = d0 \<and> tx c = tx_of x \<or>
      ret = -1 \<and> no_effect (xdb_of x) (tx_of x) (db c) (tx c)"
    by (rule stmt_exec_all [OF run, of rc0 row0 d0]) (use cases R in auto)
  then show ?thesis using cases by (auto simp: x')
qed

end

text \<open>A failed \<open>bind\<close> leaves NULL, which the NOT NULL columns refuse.\<close>

lemma bind_params_each:
  assumes "bind_params E c ps st = (r, st')"
  shows "stmt_args st' i = stmt_args st i \<or> (i, stmt_args st' i) \<in> set ps"
  using assms
proof (induction ps arbitrary: st r)
  case (Cons p ps)
  obtain k v where p: "p = (k, v)" by (cases p)
  obtain r1 st1 where b: "bind_param E c st k v = (r1, st1)" by (cases "bind_param E c st k v")
  obtain r2 st2 where bs: "bind_params E c ps st1 = (r2, st2)" by (cases "bind_params E c ps st1")
  have "st' = st2" using Cons.prems by (simp add: p b bs)
  have "stmt_args st2 i = stmt_args st1 i \<or> (i, stmt_args st2 i) \<in> set ps"
    using Cons.IH [of st1 r2] bs \<open>st' = st2\<close> by simp
  moreover have "stmt_args st1 i = stmt_args st i \<or> i = k \<and> stmt_args st1 i = v"
    using b by (auto simp: bind_param_def Let_def split: if_splits)
  ultimately show ?case using \<open>st' = st2\<close> by (auto simp: p)
qed simp

lemma bind_insert_file_args:
  assumes "bind_insert_file E f c1 (new_stmt INSERT_FILE) = Some (0, st)"
  obtains path pos where "xf_path f = Some path" "name_substr_pos path = Some pos"
    "stmt_sql st = xdb_sqls INSERT_FILE" "stmt_args st 4 = SInt pos"
    "sql_text (stmt_args st 1) \<in> {None, xf_gfid f}"
    "sql_text (stmt_args st 2) \<in> {None, Some path}" "sql_text (stmt_args st 3) \<in> {None, Some path}"
proof -
  let ?ps = "[(1, text_param (xf_gfid f)), (2, text_param (xf_path f)), (3, text_param (xf_path f))]"
  obtain r1 st1 where b: "bind_params E c1 ?ps (new_stmt INSERT_FILE) = (r1, st1)"
    by (cases "bind_params E c1 ?ps (new_stmt INSERT_FILE)")
  obtain path pos where p: "xf_path f = Some path" "name_substr_pos path = Some pos"
    "bind_param E c1 st1 4 (SInt pos) = (0, st)"
    using assms b by (auto simp: bind_insert_file_def split: Option.bind_splits)
  have st: "st = st1\<lparr>stmt_args := (stmt_args st1)(4 := SInt pos)\<rparr>" using bind_param_ok [OF p(3)] .
  have each: "stmt_args st1 i = SNull \<or> (i, stmt_args st1 i) \<in> set ?ps" for i
    using bind_params_each [OF b, of i] by (simp add: new_stmt_def)
  show ?thesis
    using that [OF p(1,2)] each [of 1] each [of 2] each [of 3] bind_params_sql [OF b] p(1)
    by (auto simp: st new_stmt_def)
qed

context sqlite_engine
begin

lemma insert_file_law:
  assumes "ims_xdb_insert_file E (Some x) (Some f) = Some (ret, x')"
  shows "ret = 0 \<and> (\<exists>g i p. xf_gfid f = Some g \<and> xf_path f = Some p \<and> gid_of (xdb_of x) (Some g) = Some i \<and>
        p \<notin> f_path ` set (xdb_xfile (xdb_of x)) \<and> xdb_of x' = add_file i p (base_name p) (xdb_of x)) \<and> tx_of x' = tx_of x \<or>
    ret = -1 \<and> no_effect (xdb_of x) (tx_of x) (xdb_of x') (tx_of x')"
proof -
  obtain rc c where run: "stmt_exec E (conn x) INSERT_FILE (bind_insert_file E f) = Some (ret, rc, c)"
    and x': "x' = x\<lparr>conn := c, db_ret := rc\<rparr>"
    using assms by (auto simp: ims_xdb_insert_file_def split: Option.bind_splits)
  let ?P = "\<lambda>rc d. rc = SQLITE_CONSTRAINT \<and> d = xdb_of x \<or> rc = SQLITE_DONE \<and>
      (\<exists>g i p. xf_gfid f = Some g \<and> xf_path f = Some p \<and> gid_of (xdb_of x) (Some g) = Some i \<and>
        p \<notin> f_path ` set (xdb_xfile (xdb_of x)) \<and> d = add_file i p (base_name p) (xdb_of x))"
  have bnd: "stmt_sql st = xdb_sqls INSERT_FILE \<and>
      (\<exists>rc0 row0 d0. run_stmt INSERT_FILE (stmt_args st) (xdb_of x) = Some (rc0, row0, d0) \<and> ?P rc0 d0)"
    if b: "bind_insert_file E f c1 (new_stmt INSERT_FILE) = Some (0, st)" for c1 st
  proof -
    obtain path pos where a: "xf_path f = Some path" "name_substr_pos path = Some pos"
      "stmt_sql st = xdb_sqls INSERT_FILE" "stmt_args st 4 = SInt pos"
      "sql_text (stmt_args st 1) \<in> {None, xf_gfid f}"
      "sql_text (stmt_args st 2) \<in> {None, Some path}" "sql_text (stmt_args st 3) \<in> {None, Some path}"
      using bind_insert_file_args [OF b] .
    obtain rc0 row0 d0 where R: "sql_insert_file (sql_text (stmt_args st 1)) (sql_text (stmt_args st 2))
        (sql_text (stmt_args st 3)) (Some pos) (xdb_of x) = (rc0, row0, d0)" by (metis prod_cases3)
    have "?P rc0 d0" using sql_insert_file_cases [OF R] a by (auto simp: base_name_def)
    then show ?thesis using R a(3,4) by simp
  qed
  have "ret = 0 \<and> ?P SQLITE_DONE (db c) \<and> tx c = tx_of x \<or> ret = -1 \<and> no_effect (xdb_of x) (tx_of x) (db c) (tx c)"
    by (rule stmt_exec_law [OF run bnd]) auto
  then show ?thesis by (auto simp: x')
qed

lemma link_file_law:
  assumes "ims_xdb_link_file E (Some x) (Some f) = Some (ret, x')"
  shows "ret = 0 \<and> (\<exists>g i p. xf_gfid f = Some g \<and> xf_path f = Some p \<and> gid_of (xdb_of x) (Some g) = Some i \<and>
        p \<notin> f_path ` set (xdb_xfile (xdb_of x)) \<and> xdb_of x' = add_file i p (base_name p) (xdb_of x)) \<and> tx_of x' = tx_of x \<or>
    ret = -1 \<and> no_effect (xdb_of x) (tx_of x) (xdb_of x') (tx_of x')"
proof (cases "\<exists>p g. xf_path f = Some p \<and> xf_gfid f = Some g")
  case True
  then obtain p g where f: "xf_path f = Some p" "xf_gfid f = Some g" by blast
  let ?b = "\<lambda>c st. do { pos \<leftarrow> name_substr_pos p;
      bind_all E [(1, SText g), (2, SText p), (3, SText p), (4, SInt pos)] c st }"
  obtain rc c where run: "stmt_exec E (conn x) LINK_FILE ?b = Some (ret, rc, c)"
    and x': "x' = x\<lparr>conn := c, db_ret := rc\<rparr>"
    using assms f by (auto simp: ims_xdb_link_file_def split: Option.bind_splits)
  show ?thesis
  proof (cases "name_substr_pos p")
    case None
    then show ?thesis
      using stmt_exec_law [OF run, of "\<lambda>_ _. False"] x' by auto
  next
    case (Some pos)
    obtain rc0 row0 d0 where R: "sql_insert_file (Some g) (Some p) (Some p) (Some pos) (xdb_of x) = (rc0, row0, d0)"
      by (metis prod_cases3)
    note cases = sql_insert_file_cases [OF R]
    have "?b = bind_all E [(1, SText g), (2, SText p), (3, SText p), (4, SInt pos)]" using Some by (simp add: fun_eq_iff)
    then have run': "stmt_exec E (conn x) LINK_FILE (bind_all E [(1, SText g), (2, SText p), (3, SText p), (4, SInt pos)]) = Some (ret, rc, c)"
      using run by simp
    have "ret = 0 \<and> rc0 = SQLITE_DONE \<and> db c = d0 \<and> tx c = tx_of x \<or>
        ret = -1 \<and> no_effect (xdb_of x) (tx_of x) (db c) (tx c)"
      by (rule stmt_exec_all [OF run', of rc0 row0 d0]) (use cases R in auto)
    then show ?thesis using cases f Some by (auto simp: x' base_name_def)
  qed
next
  case False
  then have "ret = -1 \<and> x' = x\<lparr>db_ret := 0\<rparr>"
    using assms by (cases "xf_path f"; cases "xf_gfid f") (auto simp: ims_xdb_link_file_def)
  then show ?thesis by simp
qed

lemma unlink_file_law:
  assumes "ims_xdb_unlink_file E (Some x) (Some f) = Some (ret, x')"
  shows "ret = 0 \<and> (\<exists>p. xf_path f = Some p \<and> xdb_of x' = drop_path (Some p) (xdb_of x)) \<and> tx_of x' = tx_of x \<or>
    ret = -1 \<and> no_effect (xdb_of x) (tx_of x) (xdb_of x') (tx_of x')"
proof (cases "xf_path f")
  case None
  then show ?thesis using assms by (auto simp: ims_xdb_unlink_file_def)
next
  case (Some p)
  then obtain rc c where run: "stmt_exec E (conn x) UNLINK_FILE (bind_all E [(1, SText p)]) = Some (ret, rc, c)"
    and x': "x' = x\<lparr>conn := c, db_ret := rc\<rparr>"
    using assms by (auto simp: ims_xdb_unlink_file_def split: Option.bind_splits)
  show ?thesis
    using stmt_exec_all [OF run, of SQLITE_DONE "[]" "drop_path (Some p) (xdb_of x)"] Some
    by (auto simp: x' sql_unlink_file_def)
qed

lemma remove_file_law:
  assumes "ims_xdb_remove_file E (Some x) (Some f) = Some (ret, x')"
  shows "ret = 0 \<and> xdb_of x' = snd (snd (sql_remove_file (xf_gfid f) (xdb_of x))) \<and> tx_of x' = tx_of x \<or>
    ret = -1 \<and> no_effect (xdb_of x) (tx_of x) (xdb_of x') (tx_of x')"
proof (cases "xf_gfid f")
  case None
  then show ?thesis using assms by (auto simp: ims_xdb_remove_file_def)
next
  case (Some p)
  then obtain rc c where run: "stmt_exec E (conn x) REMOVE_FILE (bind_all E [(1, SText p)]) = Some (ret, rc, c)"
    and x': "x' = x\<lparr>conn := c, db_ret := rc\<rparr>"
    using assms by (auto simp: ims_xdb_remove_file_def split: Option.bind_splits)
  show ?thesis
    using stmt_exec_all [OF run, of SQLITE_DONE "[]" "snd (snd (sql_remove_file (Some p) (xdb_of x)))"] Some
    by (auto simp: x' sql_remove_file_def)
qed

lemma rename_law:
  assumes "ims_xdb_rename E (Some x) (Some f) = Some (ret, x')"
  shows "ret = 0 \<and> (\<exists>old new. xf_path f = Some old \<and> xf_extra f = Some new \<and>
        (old \<notin> f_path ` set (xdb_xfile (xdb_of x)) \<and> xdb_of x' = xdb_of x \<or>
         old \<in> f_path ` set (xdb_xfile (xdb_of x)) \<and>
         (\<forall>r \<in> set (xdb_xfile (xdb_of x)). f_path r \<noteq> old \<longrightarrow> f_path r \<noteq> new) \<and>
         xdb_of x' = move_file (Some old) new (base_name new) (xdb_of x))) \<and> tx_of x' = tx_of x \<or>
    ret = -1 \<and> no_effect (xdb_of x) (tx_of x) (xdb_of x') (tx_of x')"
proof (cases "\<exists>p g. xf_path f = Some p \<and> xf_extra f = Some g")
  case True
  then obtain old new where f: "xf_path f = Some old" "xf_extra f = Some new" by blast
  let ?b = "\<lambda>c st. do { pos \<leftarrow> name_substr_pos new;
      bind_all E [(1, SText new), (2, SText new), (3, SInt pos), (4, SText old)] c st }"
  obtain rc c where run: "stmt_exec E (conn x) RENAME ?b = Some (ret, rc, c)"
    and x': "x' = x\<lparr>conn := c, db_ret := rc\<rparr>"
    using assms f by (auto simp: ims_xdb_rename_def split: Option.bind_splits)
  show ?thesis
  proof (cases "name_substr_pos new")
    case None
    then show ?thesis
      using stmt_exec_law [OF run, of "\<lambda>_ _. False"] x' by auto
  next
    case (Some pos)
    obtain rc0 row0 d0 where R: "sql_rename (Some new) (Some new) (Some pos) (Some old) (xdb_of x) = (rc0, row0, d0)"
      by (metis prod_cases3)
    note cases = sql_rename_cases [OF R]
    have "?b = bind_all E [(1, SText new), (2, SText new), (3, SInt pos), (4, SText old)]" using Some by (simp add: fun_eq_iff)
    then have run': "stmt_exec E (conn x) RENAME (bind_all E [(1, SText new), (2, SText new), (3, SInt pos), (4, SText old)]) = Some (ret, rc, c)"
      using run by simp
    have "ret = 0 \<and> rc0 = SQLITE_DONE \<and> db c = d0 \<and> tx c = tx_of x \<or>
        ret = -1 \<and> no_effect (xdb_of x) (tx_of x) (db c) (tx c)"
      by (rule stmt_exec_all [OF run', of rc0 row0 d0]) (use cases R in auto)
    then show ?thesis using cases f Some by (auto simp: x' base_name_def)
  qed
next
  case False
  then have "ret = -1 \<and> x' = x\<lparr>db_ret := 0\<rparr>"
    using assms by (cases "xf_path f"; cases "xf_extra f") (auto simp: ims_xdb_rename_def)
  then show ?thesis by simp
qed

end

lemma bind_sattrs_ok:
  assumes "bind_sattrs E c fid i vs st = (0, st')"
  shows "stmt_sql st' = stmt_sql st \<and> (\<forall>k < length vs.
      stmt_args st' (i + 2 * k + 1) = int64_param fid \<and> stmt_args st' (i + 2 * k + 2) = int64_param (vs ! k)) \<and>
    (\<forall>j \<le> i. stmt_args st' j = stmt_args st j)"
  using assms
proof (induction vs arbitrary: i st)
  case (Cons v vs)
  obtain ret i' st1 where b: "bind_sattr E c fid i v st = (ret, i', st1)" by (metis prod_cases3)
  obtain r2 st2 where bp: "bind_params E c [(i + 1, int64_param fid), (i + 2, int64_param v)] st = (r2, st2)"
    by (metis surj_pair)
  have ret: "ret = 0" using Cons.prems b by (auto split: if_splits)
  then have r2: "r2 = 0" "i' = i + 2" "st1 = st2" using b bp by (auto simp: bind_sattr_def split: if_splits)
  have st1: "st1 = st\<lparr>stmt_args := (stmt_args st)(i + 1 := int64_param fid, i + 2 := int64_param v)\<rparr>"
    using bind_params_ok [OF bp [unfolded r2(1)]] r2(3) by simp
  have "bind_sattrs E c fid (i + 2) vs st1 = (0, st')" using Cons.prems b ret r2 by simp
  note IH = Cons.IH [OF this]
  have "stmt_args st' (i + 2 * k + 1) = int64_param fid \<and> stmt_args st' (i + 2 * k + 2) = int64_param ((v # vs) ! k)"
    if "k < length (v # vs)" for k
  proof (cases k)
    case 0
    then show ?thesis using IH st1 by simp
  next
    case (Suc j)
    then show ?thesis using IH that by simp
  qed
  moreover have "stmt_args st' j = stmt_args st j" if "j \<le> i" for j
    using IH that by (simp add: st1)
  ultimately show ?case using IH by (simp add: st1)
qed simp

lemma bind_sattrs_neg: "bind_sattrs E c fid i vs st = (r, st') \<Longrightarrow> r \<noteq> 0 \<Longrightarrow> r < 0"
  by (induction vs arbitrary: i st) (auto simp: bind_sattr_def split: prod.splits if_splits)

lemma int64_int: "sql_int (int64_param (word_of_int i)) = Some (signed_take_bit 63 i)"
  by (simp add: int64_param_def signed_of_int)

lemma signed_take_bit_32_64: "signed_take_bit 63 (signed_take_bit 31 (i::int)) = signed_take_bit 31 i"
  by (simp add: signed_take_bit_signed_take_bit)

definition stat_rows :: "int \<Rightarrow> stat_t \<Rightarrow> (int option \<times> sqlval) list" where
  "stat_rows gid sb = map (\<lambda>v. (Some gid, int64_param v)) (stat_fields sb)"

lemma bind_stat_rows:
  assumes "bind_stat E c (word_of_int (signed_take_bit 31 i)) sb (new_stmt INSERT_STAT) = (0, st)"
  shows "stmt_sql st = xdb_sqls INSERT_STAT" and
    "map (\<lambda>k. (sql_int (stmt_args st (2 * k + 1)), stmt_args st (2 * k + 2))) [0..<13] = stat_rows (signed_take_bit 31 i) sb"
proof -
  have len: "length (stat_fields sb) = 13" by (simp add: stat_fields_def)
  note ok = bind_sattrs_ok [OF assms [unfolded bind_stat_def]]
  show "stmt_sql st = xdb_sqls INSERT_STAT" using ok by (simp add: new_stmt_def)
  show "map (\<lambda>k. (sql_int (stmt_args st (2 * k + 1)), stmt_args st (2 * k + 2))) [0..<13] = stat_rows (signed_take_bit 31 i) sb"
    by (rule nth_equalityI) (use ok len in \<open>simp_all add: stat_rows_def int64_int signed_take_bit_32_64\<close>)
qed

context sqlite_engine
begin

lemma get_gid_law:
  assumes "get_gid E x f = Some (ret, gid, x')"
  shows "ret = 0 \<and> (\<exists>g i. xf_gfid f = Some g \<and> gid_of (xdb_of x) (Some g) = Some i \<and>
        gid = Some (word_of_int (signed_take_bit 31 i)) \<and> xdb_of x' = xdb_of x) \<and> tx_of x' = tx_of x \<or>
    ret = -1 \<and> no_effect (xdb_of x) (tx_of x) (xdb_of x') (tx_of x')"
proof -
  obtain r1 c1 where pr: "sq_prepare E (conn x) (xdb_sqls GET_GID) = (r1, c1)" by (metis surj_pair)
  note keep = prepare_keeps [OF pr]
  obtain r2 st where b: "bind_param E c1 (new_stmt GET_GID) 1 (text_param (xf_gfid f)) = (r2, st)" by (metis surj_pair)
  consider "r1 \<noteq> 0" | "r1 = 0" "r2 \<noteq> 0" | "r1 = 0" "r2 = 0" by blast
  then show ?thesis
  proof cases
    case 3
    then obtain r3 row c3 where st: "step_busy E c1 st = Some (r3, row, c3)"
      and res: "ret = (if r3 = SQLITE_ROW then 0 else -1)"
        "gid = (if r3 = SQLITE_ROW then Some (word_of_int (column_int row)) else None)" "x' = x\<lparr>conn := c3, db_ret := r3\<rparr>"
      using assms pr b by (auto simp: get_gid_def split: Option.bind_splits)
    have args: "stmt_args st 1 = text_param (xf_gfid f)" "stmt_sql st = xdb_sqls GET_GID"
      using bind_param_ok [OF b [unfolded 3(2)]] by (simp_all add: new_stmt_def)
    obtain rc0 row0 d0 where R: "sql_get_gid (xf_gfid f) (db c1) = (rc0, row0, d0)" by (metis prod_cases3)
    then have run: "run_stmt GET_GID (stmt_args st) (db c1) = Some (rc0, row0, d0)" using args by simp
    have cases: "d0 = db c1 \<and> (rc0 = SQLITE_DONE \<or> rc0 = SQLITE_ROW \<and>
        (\<exists>g i. xf_gfid f = Some g \<and> gid_of (db c1) (Some g) = Some i \<and> row0 = [SInt i]))"
      using R by (cases "xf_gfid f") (auto simp: sql_get_gid_def gid_of_def split: option.splits)
    then have "rc0 \<noteq> SQLITE_BUSY" by auto
    from step_busy_law [OF st args(2) run this] cases res keep show ?thesis
      by (auto simp: no_effect_def column_int_def)
  qed (use assms pr b keep in \<open>auto simp: get_gid_def\<close>)
qed

lemma insert_stat_law:
  assumes "ims_xdb_insert_stat E (Some x) (Some f) (Some sb) = Some (ret, x')"
  shows "ret = 0 \<and> (\<exists>g i. xf_gfid f = Some g \<and> gid_of (xdb_of x) (Some g) = Some i \<and>
        insert_stat_rows 1 (stat_rows (signed_take_bit 31 i) sb) (xdb_of x) = Some (xdb_of x')) \<and> tx_of x' = tx_of x \<or>
    ret < 0 \<and> no_effect (xdb_of x) (tx_of x) (xdb_of x') (tx_of x')"
proof -
  obtain r1 c1 where pr: "sq_prepare E (conn x) (xdb_sqls INSERT_STAT) = (r1, c1)" by (metis surj_pair)
  note keep = prepare_keeps [OF pr]
  show ?thesis
  proof (cases "r1 = 0")
    case False
    then show ?thesis using assms pr keep by (auto simp: ims_xdb_insert_stat_def)
  next
    case True
    then obtain r2 gid x2 where g: "get_gid E (x\<lparr>conn := c1\<rparr>) f = Some (r2, gid, x2)"
      using assms pr by (auto simp: ims_xdb_insert_stat_def split: Option.bind_splits)
    note gl = get_gid_law [OF g]
    show ?thesis
    proof (cases "r2 = 0")
      case False
      then show ?thesis using assms pr True g gl keep by (auto simp: ims_xdb_insert_stat_def)
    next
      case r2: True
      then obtain gf i where gf: "xf_gfid f = Some gf" "gid_of (xdb_of x) (Some gf) = Some i"
        "gid = Some (word_of_int (signed_take_bit 31 i))" and d2: "xdb_of x2 = xdb_of x" "tx_of x2 = tx_of x"
        using gl keep by auto
      obtain r3 st where b: "bind_stat E (conn x2) (word_of_int (signed_take_bit 31 i)) sb (new_stmt INSERT_STAT) = (r3, st)"
        by (metis surj_pair)
      show ?thesis
      proof (cases "r3 = 0")
        case False
        have "r3 < 0" using False b by (auto simp: bind_stat_def dest!: bind_sattrs_neg)
        then show ?thesis using assms pr True g r2 gf b d2 False by (auto simp: ims_xdb_insert_stat_def)
      next
        case r3: True
        then obtain r4 row c4 where st: "step_busy E (conn x2) st = Some (r4, row, c4)"
          and res: "ret = (if r4 = SQLITE_DONE then 0 else -1)" "x' = x2\<lparr>conn := c4, db_ret := r4\<rparr>"
          using assms pr True g r2 gf b by (auto simp: ims_xdb_insert_stat_def split: Option.bind_splits)
        note rows = bind_stat_rows [OF b [unfolded r3]]
        obtain rc0 row0 d0 where R: "sql_insert_stat (stat_rows (signed_take_bit 31 i) sb) (xdb_of x2) = (rc0, row0, d0)"
          by (metis prod_cases3)
        note cases = sql_insert_stat_cases [OF R]
        have run: "run_stmt INSERT_STAT (stmt_args st) (xdb_of x2) = Some (rc0, row0, d0)"
          using rows(2) R by (simp only: run_stmt.simps)
        from step_busy_law [OF st rows(1) run] cases res gf d2 show ?thesis by (auto simp: no_effect_def)
      qed
    qed
  qed
qed

end

context sqlite_engine
begin

abbreviation com_of :: "'c ims_xdb \<Rightarrow> xdb_db" where "com_of x \<equiv> committed db tx (conn x)"

lemma tx_begin_law:
  assumes "begins E tx" "tx_of x = None"
  obtains x' where "snd (ims_xdb_tx_begin E (Some x)) = Some x'" "xdb_of x' = xdb_of x" "tx_of x' = Some (xdb_of x)"
proof -
  obtain rows rc c where ex: "sq_exec E (conn x) begin_sql = (rows, rc, c)" by (metis prod_cases3)
  have "fst (snd (sq_exec E (conn x) begin_sql)) = SQLITE_OK" using assms unfolding begins_def by blast
  then have "rc = SQLITE_OK" using ex by simp
  then show ?thesis
    using begin_law [OF ex] assms(2) that [of "x\<lparr>conn := c\<rparr>"]
    by (simp add: ims_xdb_tx_begin_def ims_xdb_exec_simple_sql_def ex)
qed

text \<open>The end of a transaction that succeeded so far: it is committed, or a refused \<open>COMMIT\<close> leaves the old contents the durable
  ones.  The result code is not looked at.\<close>

definition commit_end :: "xdb_db \<Rightarrow> xdb_db \<Rightarrow> 'c ims_xdb \<Rightarrow> bool" where
  "commit_end old new x \<longleftrightarrow> xdb_of x = new \<and> tx_of x = None \<or> \<not> commits E tx \<and> com_of x = old"

definition rollback_end :: "xdb_db \<Rightarrow> 'c ims_xdb \<Rightarrow> bool" where
  "rollback_end old x \<longleftrightarrow> com_of x = old \<and> (rolls_back E tx \<longrightarrow> tx_of x = None)"

lemma end_db_ret [simp]:
  "commit_end old new (x\<lparr>db_ret := r\<rparr>) = commit_end old new x" "rollback_end old (x\<lparr>db_ret := r\<rparr>) = rollback_end old x"
  by (simp_all add: commit_end_def rollback_end_def)

lemma tx_end_commit:
  assumes "tx_of x = Some d"
  obtains x' where "tx_end E 0 (Some x) = Some x'" "commit_end d (xdb_of x) x'"
proof -
  obtain rows rc c where ex: "sq_exec E (conn x) commit_sql = (rows, rc, c)" by (metis prod_cases3)
  have "rc \<noteq> SQLITE_OK \<Longrightarrow> \<not> commits E tx" unfolding commits_def using ex assms by (metis fst_conv option.simps(3) snd_conv)
  then have "commit_end d (xdb_of x) (x\<lparr>conn := c, db_ret := r\<rparr>)" for r
    using commit_law [OF ex] assms by (auto simp: commit_end_def committed_def)
  then have e: "commit_end d (xdb_of x) (x\<lparr>conn := c\<rparr>)" "commit_end d (xdb_of x) (x\<lparr>conn := c, db_ret := rc\<rparr>)" by simp_all
  show ?thesis
    using e that [of "x\<lparr>conn := c\<rparr>"] that [of "x\<lparr>conn := c, db_ret := rc\<rparr>"]
    by (cases "rc = 0") (simp_all add: tx_end_def ims_xdb_tx_commit_def ims_xdb_exec_simple_sql_def ex)
qed

text \<open>Rolling back after a statement without effect: the durable contents are those at the
  start of the transaction.\<close>

lemma tx_end_rollback:
  assumes "tx_of y = Some d \<or> tx_of y = None \<and> xdb_of y = d" "ret \<noteq> 0"
  obtains z where "tx_end E ret (Some y) = Some z" "rollback_end d z"
proof -
  obtain rows rc c where ex: "sq_exec E (conn y) rollback_sql = (rows, rc, c)" by (metis prod_cases3)
  have "tx_of y = None \<or> rc = SQLITE_OK" if "rolls_back E tx"
    using that ex unfolding rolls_back_def by (metis fst_conv snd_conv)
  then have "rollback_end d (y\<lparr>conn := c, db_ret := r\<rparr>)" for r
    using rollback_law [OF ex] assms(1) by (auto simp: rollback_end_def committed_def)
  then have e: "rollback_end d (y\<lparr>conn := c\<rparr>)" "rollback_end d (y\<lparr>conn := c, db_ret := rc\<rparr>)" by simp_all
  show ?thesis
    using e that [of "y\<lparr>conn := c\<rparr>"] that [of "y\<lparr>conn := c, db_ret := rc\<rparr>"] assms(2)
    by (cases "rc = 0") (simp_all add: tx_end_def ims_xdb_tx_rollback_def ims_xdb_exec_simple_sql_def ex)
qed

lemma no_effect_rollback:
  assumes "no_effect (xdb_of x) (tx_of x) (xdb_of y) (tx_of y)" "tx_of x = Some d" "ret \<noteq> 0"
  obtains z where "tx_end E ret (Some y) = Some z" "rollback_end d z"
  by (rule tx_end_rollback [of y d ret]) (use assms in \<open>auto simp: no_effect_def\<close>)

lemma insert_new_file_law:
  assumes "ims_xdb_insert_new_file E (Some x) (Some f) (Some sb) = Some (ret, Some x')" and "tx_of x = None" and "begins E tx"
  shows "ret = 0 \<and> (\<exists>g p i d2 d3. xf_gfid f = Some g \<and> xf_path f = Some p \<and> g \<notin> idx_gfids (xdb_of x) \<and>
        p \<notin> f_path ` set (xdb_xfile (xdb_of x)) \<and> gid_of (add_gfid g (xdb_of x)) (Some g) = Some i \<and>
        d2 = add_file i p (base_name p) (add_gfid g (xdb_of x)) \<and>
        insert_stat_rows 1 (stat_rows (signed_take_bit 31 i) sb) d2 = Some d3 \<and> commit_end (xdb_of x) d3 x') \<or>
    ret < 0 \<and> rollback_end (xdb_of x) x'"
proof -
  obtain x0 where x0: "snd (ims_xdb_tx_begin E (Some x)) = Some x0" "xdb_of x0 = xdb_of x" "tx_of x0 = Some (xdb_of x)"
    using tx_begin_law [OF assms(3,2)] .
  obtain r1 x1 where s1: "ims_xdb_insert_gfid E (Some x0) (Some f) = Some (r1, x1)"
    using assms(1) x0 by (auto simp: ims_xdb_insert_new_file_def split: Option.bind_splits)
  note l1 = insert_gfid_law [OF s1]
  show ?thesis
  proof (cases "r1 = 0")
    case False
    then obtain z where "tx_end E r1 (Some x1) = Some z" "rollback_end (xdb_of x) z"
      using no_effect_rollback [OF _ x0(3), of x1 r1] l1 by auto
    then show ?thesis using assms(1) x0 s1 False l1 by (auto simp: ims_xdb_insert_new_file_def)
  next
    case True
    then obtain g where g: "xf_gfid f = Some g" "g \<notin> idx_gfids (xdb_of x)" "xdb_of x1 = add_gfid g (xdb_of x)"
      "tx_of x1 = Some (xdb_of x)" using l1 x0 by auto
    obtain r2 x2 where s2: "ims_xdb_insert_file E (Some x1) (Some f) = Some (r2, x2)"
      using assms(1) x0 s1 True by (auto simp: ims_xdb_insert_new_file_def split: Option.bind_splits)
    note l2 = insert_file_law [OF s2]
    show ?thesis
    proof (cases "r2 = 0")
      case False
      then obtain z where "tx_end E r2 (Some x2) = Some z" "rollback_end (xdb_of x) z"
        using no_effect_rollback [OF _ g(4), of x2 r2] l2 by auto
      then show ?thesis using assms(1) x0 s1 s2 True False l2 by (auto simp: ims_xdb_insert_new_file_def)
    next
      case r2: True
      then obtain p i where p: "xf_path f = Some p" "gid_of (xdb_of x1) (Some g) = Some i"
        "p \<notin> f_path ` set (xdb_xfile (xdb_of x))" "xdb_of x2 = add_file i p (base_name p) (xdb_of x1)"
        "tx_of x2 = Some (xdb_of x)" using l2 g by auto
      obtain r3 x3 where s3: "ims_xdb_insert_stat E (Some x2) (Some f) (Some sb) = Some (r3, x3)"
        using assms(1) x0 s1 s2 True r2 by (auto simp: ims_xdb_insert_new_file_def split: Option.bind_splits)
      note l3 = insert_stat_law [OF s3]
      have res: "ret = r3" "tx_end E r3 (Some x3) = Some x'"
        using assms(1) x0 s1 s2 s3 True r2 by (auto simp: ims_xdb_insert_new_file_def)
      show ?thesis
      proof (cases "r3 = 0")
        case False
        then have "no_effect (xdb_of x2) (tx_of x2) (xdb_of x3) (tx_of x3)" "r3 < 0" using l3 by auto
        then obtain z where "tx_end E r3 (Some x3) = Some z" "rollback_end (xdb_of x) z"
          using no_effect_rollback [OF _ p(5), of x3 r3] False by auto
        then show ?thesis using res \<open>r3 < 0\<close> by simp
      next
        case r3: True
        then have "tx_of x3 = Some (xdb_of x)" using l3 p(5) by auto
        from tx_end_commit [OF this] have "commit_end (xdb_of x) (xdb_of x3) x'" using res r3 by (metis option.inject)
        then show ?thesis using res r3 l3 g p by auto
      qed
    qed
  qed
qed

end

text \<open>The rows of a new file in terms of the index.\<close>

lemma new_file_index:
  assumes inv: "db_inv d" "db_refs d" and new: "g \<notin> idx_gfids d" "p \<notin> f_path ` set (xdb_xfile d)"
    and i: "gid_of (add_gfid g d) (Some g) = Some i" and small: "i < 2 ^ 31"
    and d3: "insert_stat_rows 1 (stat_rows (signed_take_bit 31 i) sb) (add_file i p (base_name p) (add_gfid g d)) = Some d3"
  shows "db_inv d3 \<and> db_refs d3 \<and> idx_gfids d3 = insert g (idx_gfids d) \<and>
    idx_path d3 = (idx_path d)(p \<mapsto> (g, base_name p)) \<and>
    (\<forall>k < 13. idx_attr d3 g (stat_names ! k) = Some (int64_param (stat_fields sb ! k), SNull, SNull)) \<and>
    (\<forall>n. n \<notin> set stat_names \<longrightarrow> idx_attr d3 g n = None) \<and>
    (\<forall>g' n. g' \<noteq> g \<longrightarrow> idx_attr d3 g' n = idx_attr d g' n)"
proof -
  let ?d1 = "add_gfid g d" and ?d2 = "add_file i p (base_name p) (add_gfid g d)"
  have inv1: "db_inv ?d1" "db_refs ?d1" using inv new by (auto simp: inv_add_gfid refs_add_gfid idx_gfids_def)
  have inv2: "db_inv ?d2" "db_refs ?d2" using inv1 new i by (auto intro: inv_add_file refs_add_file)
  have i_eq: "i = next_rowid (map g_gid (xdb_xgfid d))" using i new by (simp add: gid_of_add_gfid)
  have "0 < i" using next_rowid_pos [of "map g_gid (xdb_xgfid d)"] by (simp add: i_eq)
  then have tr: "signed_take_bit 31 i = i" using small by (intro signed_take_bit_int_eq_self) auto
  have free: "(i, n) \<notin> xdata_key ` set (xdb_xdata ?d2)" for n
    using data_row_fresh [OF inv(2), of n] by (auto simp: i_eq data_row_def find_None_iff)
  let ?vs = "map int64_param (stat_fields sb)"
  have len: "length (stat_fields sb) = 13" by (simp add: stat_fields_def)
  obtain d' where d': "insert_stat_rows 1 (map (\<lambda>v. (Some i, v)) ?vs) ?d2 = Some d'"
    "xdb_xgfid d' = xdb_xgfid ?d2" "xdb_xname d' = xdb_xname ?d2" "xdb_xfile d' = xdb_xfile ?d2"
    "\<And>h n. data_row d' h n = (if h = i \<and> 1 \<le> n \<and> n < 1 + int (length ?vs)
       then Some (?vs ! nat (n - 1), SNull, SNull) else data_row ?d2 h n)"
    "xdata_key ` set (xdb_xdata d') = xdata_key ` set (xdb_xdata ?d2) \<union> (\<lambda>j. (i, 1 + int j)) ` {..< length ?vs}"
    using insert_stat_rows_same [of ?vs i 1 ?d2] free by auto
  have "d' = d3" using d3 d'(1) by (simp add: stat_rows_def tr comp_def)
  note d' = d' [unfolded this]
  have inv3: "db_inv d3" using inv_insert_stat_rows [OF d3 inv2(1)] .
  have gids: "gid_of d3 = gid_of ?d1" "nid_of d3 = nid_of ?d1" "idx_path d3 = idx_path ?d2" "idx_gfids d3 = idx_gfids ?d1"
    using d'(2-4) by (simp_all add: gid_of_def nid_of_def idx_path_def file_row_def gfid_of_def idx_gfids_def fun_eq_iff split: option.split)
  have "idx_attr d3 g (stat_names ! k) = Some (int64_param (stat_fields sb ! k), SNull, SNull)" if "k < 13" for k
    using stat_nid_of [OF inv1(1) that] that d'(5) i len by (simp add: idx_attr_def gids)
  moreover have "idx_attr d3 g n = None" if n: "n \<notin> set stat_names" for n
  proof (cases "nid_of ?d1 (Some n)")
    case (Some m)
    have "\<not> (1 \<le> m \<and> m < 14)"
    proof
      assume m: "1 \<le> m \<and> m < 14"
      then have "nat (m - 1) < 13" "int (nat (m - 1)) + 1 = m" by auto
      then have "nid_of ?d1 (Some (stat_names ! nat (m - 1))) = Some m" using stat_nid_of [OF inv1(1), of "nat (m - 1)"] by simp
      then have "stat_names ! nat (m - 1) = n" using nid_of_inj [OF inv1(1) _ Some] by blast
      moreover have "length stat_names = 13" by (simp add: stat_names_def)
      ultimately show False using n \<open>nat (m - 1) < 13\<close> nth_mem by metis
    qed
    moreover have "data_row ?d2 i m = None"
      using data_row_fresh [OF inv(2), of m] by (simp add: i_eq data_row_def)
    ultimately show ?thesis using Some d'(5) [of i m] i len by (auto simp: idx_attr_def gids)
  qed (simp add: idx_attr_def gids split: option.split)
  moreover have "idx_attr d3 g' n = idx_attr d g' n" if "g' \<noteq> g" for g' n
  proof -
    have "idx_attr d3 g' n = idx_attr ?d1 g' n"
      using gid_of_inj [OF inv1(1), of g i g'] i that d'(5)
      by (auto simp: idx_attr_def gids data_row_def split: option.splits)
    then show ?thesis using inv(2) new by (simp add: attr_add_gfid)
  qed
  moreover have "db_refs d3"
  proof -
    have "i \<in> g_gid ` set (xdb_xgfid ?d2)" using i by (auto simp: gid_of_def dest!: find_Some_key)
    moreover have "1 + int j \<in> n_nid ` set (xdb_xname ?d2)" if j: "j < 13" for j
    proof -
      obtain r where "r \<in> set (xdb_xname ?d2)" "n_nid r = int j + 1"
        using stat_nid_of [OF inv2(1) j] nid_of_iff [OF inv2(1)] by metis
      then show ?thesis by (metis add.commute imageI)
    qed
    ultimately show ?thesis using inv2(2) d' len by (auto simp: refs_keys)
  qed
  moreover have "idx_path ?d2 = (idx_path d)(p \<mapsto> (g, base_name p))"
    using path_add_file [OF inv1(1) i] new inv by (auto simp: fun_eq_iff path_add_gfid)
  ultimately show ?thesis using inv3 gids by (simp add: gfids_add_gfid)
qed

definition put_ivals :: "int \<Rightarrow> (int \<times> u64) list \<Rightarrow> xdb_db \<Rightarrow> xdb_db" where
  "put_ivals gid us d = fold (\<lambda>(nid, v). set_ival (int64_param v) (Some gid) (Some nid)) us d"

lemma put_ivals_simps [simp]:
  "put_ivals gid [] d = d"
  "put_ivals gid ((n, v) # us) d = put_ivals gid us (set_ival (int64_param v) (Some gid) (Some n) d)"
  by (simp_all add: put_ivals_def)

context sqlite_engine
begin

lemma bind_params_code: "bind_params E c ps st = (r, st') \<Longrightarrow> 0 \<le> r \<and> r < 32"
proof (induction ps arbitrary: st r)
  case (Cons p ps)
  obtain i v where p: "p = (i, v)" by (cases p)
  obtain r1 st1 where b: "bind_param E c st i v = (r1, st1)" by (cases "bind_param E c st i v")
  obtain r2 st2 where bs: "bind_params E c ps st1 = (r2, st2)" by (cases "bind_params E c ps st1")
  have r: "r = or r1 r2" "st' = st2" using Cons.prems by (auto simp: p b bs)
  have "0 \<le> r1 \<and> r1 < 32" using b bind_codes [of c st i v] by (auto simp: bind_param_def Let_def)
  moreover have "0 \<le> r2 \<and> r2 < 32" using Cons.IH [of st1 r2] bs r by simp
  ultimately show ?case using OR_upper [of r1 5 r2] r by simp
qed simp

lemma u_update_xdata_law:
  assumes "u_update_xdata E c st gid nid ival = Some (rc, st', c')" and "stmt_sql st = xdb_sqls UPDATE_STAT"
  shows "stmt_sql st' = xdb_sqls UPDATE_STAT \<and>
    (rc = SQLITE_DONE \<and> db c' = set_ival (int64_param ival) (Some gid) (Some nid) (db c) \<and> tx c' = tx c \<or>
     rc \<noteq> SQLITE_DONE \<and> no_effect (db c) (tx c) (db c') (tx c'))"
proof -
  obtain r s where b: "bind_params E c [(1, int64_param ival), (2, SInt gid), (3, SInt nid)] st = (r, s)"
    by (metis surj_pair)
  show ?thesis
  proof (cases "r = 0")
    case False
    then show ?thesis
      using assms b bind_params_sql [OF b] bind_params_code [OF b] by (auto simp: u_update_xdata_def)
  next
    case True
    then obtain row where st: "step_busy E c s = Some (rc, row, c')" "st' = s"
      using assms(1) b by (auto simp: u_update_xdata_def split: Option.bind_splits)
    have s: "s = st\<lparr>stmt_args := put_args [(1, int64_param ival), (2, SInt gid), (3, SInt nid)] (stmt_args st)\<rparr>"
      using bind_params_ok [OF b [unfolded True]] .
    have sql: "stmt_sql s = xdb_sqls UPDATE_STAT" using assms(2) s by simp
    have run: "run_stmt UPDATE_STAT (stmt_args s) (db c) =
        Some (SQLITE_DONE, [], set_ival (int64_param ival) (Some gid) (Some nid) (db c))"
      by (simp add: s sql_update_stat_def)
    show ?thesis using step_busy_law [OF st(1) sql run] sql st(2) by (auto simp: no_effect_def)
  qed
qed

text \<open>A row of updates inside the transaction that began with \<open>d\<close>.\<close>

lemma update_xdata_law:
  assumes "update_xdata E c st gid us = Some (rc, c')" and "stmt_sql st = xdb_sqls UPDATE_STAT" and "tx c = Some d"
  shows "rc = SQLITE_DONE \<and> db c' = put_ivals gid us (db c) \<and> tx c' = Some d \<or>
    rc \<noteq> SQLITE_DONE \<and> (tx c' = Some d \<or> tx c' = None \<and> db c' = d)"
  using assms
proof (induction us arbitrary: c st)
  case (Cons u us)
  obtain n v where u: "u = (n, v)" by (cases u)
  obtain r1 st1 c1 where s: "u_update_xdata E c st gid n v = Some (r1, st1, c1)"
    using Cons.prems(1) by (auto simp: u split: Option.bind_splits)
  note law = u_update_xdata_law [OF s Cons.prems(2)]
  show ?case
  proof (cases "r1 = SQLITE_DONE")
    case True
    then have "update_xdata E c1 st1 gid us = Some (rc, c')" using Cons.prems(1) s by (simp add: u)
    from Cons.IH [OF this] show ?thesis using law True Cons.prems(3) by (simp add: u)
  next
    case False
    then show ?thesis using Cons.prems s law by (auto simp: u no_effect_def)
  qed
qed simp

lemma update_stat_law:
  assumes "ims_xdb_update_stat E (Some x) (Some f) (Some sb) op = Some (ret, x')" and "tx_of x = None" and "begins E tx"
  shows "ret = 0 \<and> (\<exists>g i. xf_gfid f = Some g \<and> gid_of (xdb_of x) (Some g) = Some i \<and>
        commit_end (xdb_of x) (put_ivals (signed_take_bit 31 i)
          (stat_updates (if op < 0 \<or> N_IMS_XDB_STAT_OPS \<le> op then IMS_XDB_STAT_OP_ALL else op) sb) (xdb_of x)) x') \<or>
    ret = -1 \<and> rollback_end (xdb_of x) x'"
proof (cases "xf_gfid f")
  case None
  then show ?thesis using assms by (auto simp: ims_xdb_update_stat_def rollback_end_def committed_def)
next
  case (Some g)
  let ?op = "if op < 0 \<or> N_IMS_XDB_STAT_OPS \<le> op then IMS_XDB_STAT_OP_ALL else op"
  obtain r1 gid x1 where g: "get_gid E x f = Some (r1, gid, x1)"
    using assms Some by (auto simp: ims_xdb_update_stat_def Let_def split: Option.bind_splits)
  note gl = get_gid_law [OF g]
  show ?thesis
  proof (cases "r1 = 0")
    case False
    then show ?thesis using assms Some g gl by (auto simp: ims_xdb_update_stat_def Let_def no_effect_def rollback_end_def committed_def)
  next
    case r1: True
    then obtain i where i: "gid_of (xdb_of x) (Some g) = Some i" "gid = Some (word_of_int (signed_take_bit 31 i))"
      "xdb_of x1 = xdb_of x" "tx_of x1 = None" using gl Some assms(2) by auto
    obtain r2 c2 where pr: "sq_prepare E (conn x1) (xdb_sqls UPDATE_STAT) = (r2, c2)" by (metis surj_pair)
    note keep = prepare_keeps [OF pr]
    show ?thesis
    proof (cases "r2 = 0")
      case False
      then show ?thesis using assms Some g r1 i pr keep by (auto simp: ims_xdb_update_stat_def Let_def rollback_end_def committed_def)
    next
      case r2: True
      obtain x3 where x3: "snd (ims_xdb_tx_begin E (Some (x1\<lparr>conn := c2\<rparr>))) = Some x3"
        "xdb_of x3 = xdb_of x" "tx_of x3 = Some (xdb_of x)"
        using tx_begin_law [OF assms(3), of "x1\<lparr>conn := c2\<rparr>"] keep i by auto
      have gid: "signed_take_bit 31 (uint (the gid)) = signed_take_bit 31 i"
        by (simp add: i(2) unsigned_of_int signed_take_bit_take_bit signed_take_bit_signed_take_bit)
      obtain r4 c4 x5 where up: "update_xdata E (conn x3) (new_stmt UPDATE_STAT) (signed_take_bit 31 i) (stat_updates ?op sb) = Some (r4, c4)"
        and fin: "ret = (if r4 \<noteq> SQLITE_DONE then -1 else 0)"
          "tx_end E ret (Some (x3\<lparr>conn := c4, db_ret := r4\<rparr>)) = Some x5" "x' = x5\<lparr>db_ret := r4\<rparr>"
        using assms(1) Some g r1 i pr r2 x3 gid
        by (auto simp: ims_xdb_update_stat_def Let_def tx_end_def split: Option.bind_splits if_splits)
      have "stmt_sql (new_stmt UPDATE_STAT) = xdb_sqls UPDATE_STAT" by (simp add: new_stmt_def)
      note ul = update_xdata_law [OF up this x3(3)]
      show ?thesis
      proof (cases "r4 = SQLITE_DONE")
        case True
        then have "tx_of (x3\<lparr>conn := c4, db_ret := r4\<rparr>) = Some (xdb_of x)" using ul x3 by auto
        from tx_end_commit [OF this] have "commit_end (xdb_of x) (db c4) x5" using fin True by auto
        then show ?thesis using ul True fin Some i x3 by auto
      next
        case False
        then show ?thesis using fin ul tx_end_rollback [of "x3\<lparr>conn := c4, db_ret := r4\<rparr>" "xdb_of x" "-1"] by auto
      qed
    qed
  qed
qed

end

definition attr_vals :: "ims_xdb_attr \<Rightarrow> sqlval \<times> sqlval \<times> sqlval" where
  "attr_vals a =
     (if at_type a = IMS_XDB_TYPE_INTEGER then (int64_param (at_ival a), SNull, SNull)
      else if at_type a = IMS_XDB_TYPE_REAL then (SNull, SReal (at_rval a), SNull)
      else (SNull, SNull, text_param (at_sval a)))"

definition with_name :: "string \<Rightarrow> xdb_db \<Rightarrow> xdb_db" where
  "with_name n d = (if n \<in> n_name ` set (xdb_xname d) then d else add_xname n d)"

context sqlite_engine
begin

lemma setxattr_law:
  assumes "ims_xdb_setxattr E (Some x) (Some a) = Some (ret, x')" and "tx_of x = None" and "begins E tx"
  shows "ret = 0 \<and> (\<exists>g n i k v r s. at_gfid a = Some g \<and> at_name a = Some n \<and>
        gid_of (with_name n (xdb_of x)) (Some g) = Some i \<and> nid_of (with_name n (xdb_of x)) (Some n) = Some k \<and>
        (v, r, s) = attr_vals a \<and> commit_end (xdb_of x) (put_xdata i k v r s (with_name n (xdb_of x))) x') \<or>
    ret = -1 \<and> rollback_end (xdb_of x) x'"
proof (cases "at_gfid a = None \<or> at_name a = None \<or>
    at_type a \<notin> {IMS_XDB_TYPE_INTEGER, IMS_XDB_TYPE_REAL, IMS_XDB_TYPE_STRING}")
  case True
  obtain z where "tx_end E (-1) (Some x) = Some z" "rollback_end (xdb_of x) z"
    using tx_end_rollback [of x "xdb_of x" "-1"] assms(2) by auto
  moreover have "rollback_end (xdb_of x) x" using assms(2) by (simp add: rollback_end_def committed_def)
  ultimately show ?thesis
    using assms True by (cases "at_gfid a"; cases "at_name a") (auto simp: ims_xdb_setxattr_def Let_def)
next
  case False
  then obtain g n where gn: "at_gfid a = Some g" "at_name a = Some n"
    and ty: "at_type a \<in> {IMS_XDB_TYPE_INTEGER, IMS_XDB_TYPE_REAL, IMS_XDB_TYPE_STRING}" by auto
  obtain x1 where x1: "snd (ims_xdb_tx_begin E (Some x)) = Some x1" "xdb_of x1 = xdb_of x" "tx_of x1 = Some (xdb_of x)"
    using tx_begin_law [OF assms(3,2)] .
  note unf = ims_xdb_setxattr_def Let_def
  have go: "\<not> (at_type a \<noteq> IMS_XDB_TYPE_INTEGER \<and> at_type a \<noteq> IMS_XDB_TYPE_REAL \<and> at_type a \<noteq> IMS_XDB_TYPE_STRING)"
    using ty by auto
  obtain r2 rc2 c2 where s2: "stmt_exec E (conn x1) INSERT_XNAME (bind_all E [(1, SText n)]) = Some (r2, rc2, c2)"
    using assms(1) gn go x1 by (cases "stmt_exec E (conn x1) INSERT_XNAME (bind_all E [(1, SText n)])") (auto simp: unf)
  have "run_stmt INSERT_XNAME (put_args [(1, SText n)] (\<lambda>_. SNull)) (xdb_of x1) =
      Some (SQLITE_DONE, [], with_name n (xdb_of x))"
    using x1 by (simp add: sql_insert_xname_def with_name_def)
  from stmt_exec_all [OF s2 this]
  have l2: "r2 = 0 \<and> db c2 = with_name n (xdb_of x) \<and> tx c2 = Some (xdb_of x) \<or>
      r2 = -1 \<and> no_effect (xdb_of x1) (tx_of x1) (db c2) (tx c2)" using x1 by auto
  show ?thesis
  proof (cases "r2 = 0")
    case False
    then have "no_effect (xdb_of x1) (tx_of x1) (xdb_of (x1\<lparr>conn := c2\<rparr>)) (tx_of (x1\<lparr>conn := c2\<rparr>))" using l2 by simp
    then obtain z where "tx_end E (-1) (Some (x1\<lparr>conn := c2\<rparr>)) = Some z" "rollback_end (xdb_of x) z"
      using no_effect_rollback [OF _ x1(3), of "x1\<lparr>conn := c2\<rparr>" "-1"] by auto
    then show ?thesis using assms(1) gn go x1 s2 False by (auto simp: unf)
  next
    case r2: True
    let ?ps = "[(1, SText g), (2, SText n)] @ attr_params a"
    obtain r3 rc3 c3 y where s3: "stmt_exec E c2 INSERT_XDATA (bind_all E ?ps) = Some (r3, rc3, c3)"
      and fin: "ret = r3" "tx_end E r3 (Some (x1\<lparr>conn := c3\<rparr>)) = Some y" "x' = y\<lparr>db_ret := rc3\<rparr>"
      using assms(1) gn go x1 s2 r2 by (auto simp: unf split: Option.bind_splits)
    obtain v r s where vals: "attr_vals a = (v, r, s)" by (metis prod_cases3)
    obtain rc0 row0 d0 where R: "sql_insert_xdata (Some g) (Some n) v r s (db c2) = (rc0, row0, d0)" by (metis prod_cases3)
    note cases = sql_insert_xdata_cases [OF R]
    have run: "run_stmt INSERT_XDATA (put_args ?ps (\<lambda>_. SNull)) (db c2) = Some (rc0, row0, d0)"
      using R vals ty by (auto simp: attr_params_def attr_vals_def)
    have l3: "r3 = 0 \<and> rc0 = SQLITE_DONE \<and> db c3 = d0 \<and> tx c3 = tx c2 \<or> r3 = -1 \<and> no_effect (db c2) (tx c2) (db c3) (tx c3)"
      using stmt_exec_all [OF s3 run] cases by auto
    have c2: "db c2 = with_name n (xdb_of x)" "tx c2 = Some (xdb_of x)" using l2 r2 by auto
    show ?thesis
    proof (cases "r3 = 0")
      case True
      then have "tx_of (x1\<lparr>conn := c3\<rparr>) = Some (xdb_of x)" using l3 c2 by auto
      from tx_end_commit [OF this] have "commit_end (xdb_of x) (db c3) y" using fin True by auto
      then show ?thesis using True l3 cases c2 gn vals fin by auto
    next
      case False
      then have "tx c3 = Some (xdb_of x) \<or> tx c3 = None \<and> db c3 = xdb_of x" using l3 c2 by (auto simp: no_effect_def)
      then show ?thesis
        using False l3 fin tx_end_rollback [of "x1\<lparr>conn := c3\<rparr>" "xdb_of x" "-1"] by auto
    qed
  qed
qed

end

subsection \<open>Attributes in the index\<close>

lemma with_name_index:
  assumes "db_inv d" "db_refs d"
  shows "db_inv (with_name n d) \<and> db_refs (with_name n d) \<and> idx_attr (with_name n d) = idx_attr d \<and>
    idx_path (with_name n d) = idx_path d \<and> idx_gfids (with_name n d) = idx_gfids d"
  using assms by (auto simp: with_name_def inv_add_xname refs_add_xname attr_add_xname fun_eq_iff)

lemma setxattr_index:
  assumes "db_inv d" "db_refs d" "gid_of (with_name n d) (Some g) = Some i" "nid_of (with_name n d) (Some n) = Some k"
  shows "db_inv (put_xdata i k v r s (with_name n d)) \<and> db_refs (put_xdata i k v r s (with_name n d)) \<and>
    idx_path (put_xdata i k v r s (with_name n d)) = idx_path d \<and>
    idx_gfids (put_xdata i k v r s (with_name n d)) = idx_gfids d \<and>
    idx_attr (put_xdata i k v r s (with_name n d)) = (idx_attr d)(g := (idx_attr d g)(n \<mapsto> (v, r, s)))"
  using with_name_index [OF assms(1,2), of n] assms(3,4)
  by (auto simp: inv_put_xdata attr_put_xdata fun_eq_iff intro: refs_put_xdata)

lemma put_ivals_keeps:
  "db_inv d \<Longrightarrow> db_inv (put_ivals i us d)" "db_refs d \<Longrightarrow> db_refs (put_ivals i us d)"
  "gid_of (put_ivals i us d) = gid_of d" "nid_of (put_ivals i us d) = nid_of d"
  "idx_path (put_ivals i us d) = idx_path d" "idx_gfids (put_ivals i us d) = idx_gfids d"
  by (induction us arbitrary: d) (auto simp: inv_set_ival refs_set_ival)

lemma data_row_put_ivals:
  "distinct (map fst us) \<Longrightarrow> data_row (put_ivals i us d) h k =
     (case map_of us k of
        Some v \<Rightarrow> if h = i then map_option (\<lambda>(_, r, s). (int64_param v, r, s)) (data_row d h k) else data_row d h k
      | None \<Rightarrow> data_row d h k)"
proof (induction us arbitrary: d)
  case (Cons u us)
  obtain n v where u: "u = (n, v)" by (cases u)
  have "map_of us n = None" using Cons.prems by (simp add: u map_of_eq_None_iff)
  then show ?case using Cons by (auto simp: u data_row_set_ival split: option.splits)
qed simp

lemma attr_put_ivals:
  assumes "db_inv d" "gid_of d (Some g) = Some i" "distinct (map fst us)"
  shows "idx_attr (put_ivals i us d) g' n =
    (case nid_of d (Some n) of None \<Rightarrow> None | Some k \<Rightarrow>
      (case map_of us k of
         Some v \<Rightarrow> if g' = g then map_option (\<lambda>(_, r, s). (int64_param v, r, s)) (idx_attr d g n) else idx_attr d g' n
       | None \<Rightarrow> idx_attr d g' n))"
  using gid_of_inj [OF assms(1), of _ i] assms
  by (auto simp: idx_attr_def put_ivals_keeps data_row_put_ivals split: option.splits)

subsection \<open>Returning\<close>

definition responsive :: "'c sqlite3 \<Rightarrow> bool" where
  "responsive E \<longleftrightarrow> (\<forall>c st. \<exists>n. answers_within E c st n)"

lemma step_busy_ex: "responsive E \<Longrightarrow> \<exists>rc row c'. step_busy E c st = Some (rc, row, c')"
  using step_busy_returns by (metis responsive_def prod_cases3)

lemma stmt_exec_ex:
  assumes "responsive E" "\<And>c st. bnd c st \<noteq> None"
  shows "\<exists>ret rc c'. stmt_exec E c q bnd = Some (ret, rc, c')"
proof -
  obtain r1 c1 where pr: "sq_prepare E c (xdb_sqls q) = (r1, c1)" by (metis surj_pair)
  obtain r2 st where b: "bnd c1 (new_stmt q) = Some (r2, st)" using assms(2) [of c1 "new_stmt q"] by auto
  obtain r3 row c3 where "step_busy E c1 st = Some (r3, row, c3)" using step_busy_ex [OF assms(1)] by blast
  then show ?thesis by (cases "r1 = 0"; cases "r2 = 0") (simp_all add: stmt_exec_def pr b)
qed

lemma get_gid_ex:
  assumes "responsive E" shows "\<exists>ret gid x'. get_gid E x f = Some (ret, gid, x')"
proof -
  obtain r1 c1 where pr: "sq_prepare E (conn x) (xdb_sqls GET_GID) = (r1, c1)" by (metis surj_pair)
  obtain r2 st where b: "bind_param E c1 (new_stmt GET_GID) 1 (text_param (xf_gfid f)) = (r2, st)" by (metis surj_pair)
  obtain r3 row c3 where "step_busy E c1 st = Some (r3, row, c3)" using step_busy_ex [OF assms] by blast
  then show ?thesis using b by (cases "r1 = 0"; cases "r2 = 0") (simp_all add: get_gid_def pr)
qed

lemma bind_all_some [simp]: "bind_all E ps c st \<noteq> None" "\<exists>r st'. bind_all E ps c st = Some (r, st')"
  by (simp_all add: bind_all_def)

lemma insert_gfid_ex: "responsive E \<Longrightarrow> \<exists>ret x'. ims_xdb_insert_gfid E (Some x) (Some f) = Some (ret, x')"
  using stmt_exec_ex [of E "bind_all E [(1, text_param (xf_gfid f))]" "conn x" INSERT_GFID]
  by (auto simp: ims_xdb_insert_gfid_def)

lemma bind_insert_file_some:
  "xf_path f = Some p \<Longrightarrow> name_substr_pos p = Some pos \<Longrightarrow> bind_insert_file E f c st \<noteq> None"
  by (simp add: bind_insert_file_def split: prod.split)

lemma insert_file_ex:
  assumes "responsive E" "xf_path f = Some p" "name_substr_pos p \<noteq> None"
  shows "\<exists>ret x'. ims_xdb_insert_file E (Some x) (Some f) = Some (ret, x')"
proof -
  obtain pos where "name_substr_pos p = Some pos" using assms(3) by blast
  note some = bind_insert_file_some [OF assms(2) this]
  have "\<exists>ret rc c. stmt_exec E (conn x) INSERT_FILE (bind_insert_file E f) = Some (ret, rc, c)"
    by (rule stmt_exec_ex [OF assms(1)]) (rule some)
  then show ?thesis by (auto simp: ims_xdb_insert_file_def)
qed

lemma insert_stat_ex:
  assumes "responsive E" shows "\<exists>ret x'. ims_xdb_insert_stat E (Some x) (Some f) (Some sb) = Some (ret, x')"
proof -
  obtain r1 c1 where pr: "sq_prepare E (conn x) (xdb_sqls INSERT_STAT) = (r1, c1)" by (metis surj_pair)
  obtain r2 gid x2 where g: "get_gid E (x\<lparr>conn := c1\<rparr>) f = Some (r2, gid, x2)" using get_gid_ex [OF assms] by blast
  obtain r3 st where b: "bind_stat E (conn x2) (the gid) sb (new_stmt INSERT_STAT) = (r3, st)" by (metis surj_pair)
  obtain r4 row c4 where "step_busy E (conn x2) st = Some (r4, row, c4)" using step_busy_ex [OF assms] by blast
  then show ?thesis
    by (cases "r1 = 0"; cases "r2 = 0"; cases "r3 = 0") (simp_all add: ims_xdb_insert_stat_def pr g b)
qed

lemma tx_step_ex:
  "\<exists>x'. snd (ims_xdb_exec_simple_sql E (Some x) (Some s)) = Some x'"
  by (auto simp: ims_xdb_exec_simple_sql_def split: prod.splits)

lemma tx_begin_ex: "\<exists>x'. snd (ims_xdb_tx_begin E (Some x)) = Some x'"
  using tx_step_ex by (simp add: ims_xdb_tx_begin_def)

lemma tx_end_ex: "\<exists>x'. tx_end E ret (Some x) = Some x'"
  using tx_step_ex by (auto simp: tx_end_def ims_xdb_tx_rollback_def ims_xdb_tx_commit_def)

lemma insert_new_file_ex:
  assumes "responsive E" "xf_path f = Some p" "name_substr_pos p \<noteq> None"
  shows "\<exists>ret x'. ims_xdb_insert_new_file E (Some x) (Some f) (Some sb) = Some (ret, Some x')"
proof -
  obtain x0 where x0: "snd (ims_xdb_tx_begin E (Some x)) = Some x0" using tx_begin_ex by blast
  obtain r1 x1 where s1: "ims_xdb_insert_gfid E (Some x0) (Some f) = Some (r1, x1)" using insert_gfid_ex [OF assms(1)] by blast
  obtain r2 x2 where s2: "ims_xdb_insert_file E (Some x1) (Some f) = Some (r2, x2)" using insert_file_ex [OF assms] by blast
  obtain r3 x3 where s3: "ims_xdb_insert_stat E (Some x2) (Some f) (Some sb) = Some (r3, x3)" using insert_stat_ex [OF assms(1)] by blast
  show ?thesis
    using tx_end_ex [of E r1 x1] tx_end_ex [of E r2 x2] tx_end_ex [of E r3 x3]
    by (cases "r1 = 0"; cases "r2 = 0") (auto simp: ims_xdb_insert_new_file_def x0 s1 s2 s3)
qed

lemma unlink_file_ex: "responsive E \<Longrightarrow> \<exists>ret x'. ims_xdb_unlink_file E (Some x) (Some f) = Some (ret, x')"
  using stmt_exec_ex [of E "bind_all E [(1, SText (the (xf_path f)))]" "conn x" UNLINK_FILE]
  by (cases "xf_path f") (auto simp: ims_xdb_unlink_file_def)

lemma remove_file_ex: "responsive E \<Longrightarrow> \<exists>ret x'. ims_xdb_remove_file E (Some x) (Some f) = Some (ret, x')"
  using stmt_exec_ex [of E "bind_all E [(1, SText (the (xf_gfid f)))]" "conn x" REMOVE_FILE]
  by (cases "xf_gfid f") (auto simp: ims_xdb_remove_file_def)

lemma link_file_ex:
  assumes "responsive E" "\<And>p. xf_path f = Some p \<Longrightarrow> name_substr_pos p \<noteq> None"
  shows "\<exists>ret x'. ims_xdb_link_file E (Some x) (Some f) = Some (ret, x')"
proof (cases "xf_path f")
  case (Some p)
  then obtain pos where "name_substr_pos p = Some pos" using assms(2) by blast
  then show ?thesis
    using Some stmt_exec_ex [OF assms(1), of "bind_all E [(1, SText (the (xf_gfid f))), (2, SText p), (3, SText p), (4, SInt pos)]" "conn x" LINK_FILE]
    by (cases "xf_gfid f") (auto simp: ims_xdb_link_file_def)
qed (simp add: ims_xdb_link_file_def)

lemma rename_ex:
  assumes "responsive E" "\<And>p. xf_extra f = Some p \<Longrightarrow> name_substr_pos p \<noteq> None"
  shows "\<exists>ret x'. ims_xdb_rename E (Some x) (Some f) = Some (ret, x')"
proof (cases "xf_extra f")
  case (Some p)
  then obtain pos where "name_substr_pos p = Some pos" using assms(2) by blast
  then show ?thesis
    using Some stmt_exec_ex [OF assms(1), of "bind_all E [(1, SText p), (2, SText p), (3, SInt pos), (4, SText (the (xf_path f)))]" "conn x" RENAME]
    by (cases "xf_path f") (auto simp: ims_xdb_rename_def)
qed (auto simp: ims_xdb_rename_def split: option.splits)

lemma update_xdata_ex: "responsive E \<Longrightarrow> \<exists>rc c'. update_xdata E c st gid us = Some (rc, c')"
proof (induction us arbitrary: c st)
  case (Cons u us)
  obtain n v where u: "u = (n, v)" by (cases u)
  obtain r s where b: "bind_params E c [(1, int64_param v), (2, SInt gid), (3, SInt n)] st = (r, s)" by (metis surj_pair)
  obtain r3 row c3 where "step_busy E c s = Some (r3, row, c3)" using step_busy_ex [OF Cons.prems] by blast
  then obtain r1 st1 c1 where "u_update_xdata E c st gid n v = Some (r1, st1, c1)"
    using b by (cases "r = 0") (simp_all add: u_update_xdata_def)
  then show ?case using Cons by (auto simp: u)
qed simp

lemma update_stat_ex:
  assumes "responsive E" shows "\<exists>ret x'. ims_xdb_update_stat E (Some x) (Some f) (Some sb) op = Some (ret, x')"
proof (cases "xf_gfid f")
  case (Some g)
  obtain r1 gid x1 where g: "get_gid E x f = Some (r1, gid, x1)" using get_gid_ex [OF assms] by blast
  obtain r2 c2 where pr: "sq_prepare E (conn x1) (xdb_sqls UPDATE_STAT) = (r2, c2)" by (metis surj_pair)
  obtain x3 where x3: "snd (ims_xdb_tx_begin E (Some (x1\<lparr>conn := c2\<rparr>))) = Some x3" using tx_begin_ex by blast
  let ?op = "if op < 0 \<or> N_IMS_XDB_STAT_OPS \<le> op then IMS_XDB_STAT_OP_ALL else op"
  obtain r4 c4 where up: "update_xdata E (conn x3) (new_stmt UPDATE_STAT) (signed_take_bit 31 (uint (the gid)))
      (stat_updates ?op sb) = Some (r4, c4)" using update_xdata_ex [OF assms] by blast
  obtain y where "tx_end E (if r4 \<noteq> SQLITE_DONE then -1 else 0) (Some (x3\<lparr>conn := c4, db_ret := r4\<rparr>)) = Some y"
    using tx_end_ex by blast
  then show ?thesis using up
    by (cases "r1 = 0"; cases "r2 = 0"; cases "r4 = SQLITE_DONE")
      (simp_all add: ims_xdb_update_stat_def Let_def Some g pr x3 tx_end_def)
qed (simp add: ims_xdb_update_stat_def)

lemma setxattr_ex:
  assumes "responsive E" shows "\<exists>ret x'. ims_xdb_setxattr E (Some x) (Some a) = Some (ret, x')"
proof (cases "at_gfid a = None \<or> at_name a = None")
  case True
  then show ?thesis using tx_end_ex [of E "-1" x]
    by (cases "at_gfid a"; cases "at_name a") (auto simp: ims_xdb_setxattr_def Let_def)
next
  case False
  then obtain g n where gn: "at_gfid a = Some g" "at_name a = Some n" by auto
  obtain x1 where x1: "snd (ims_xdb_tx_begin E (Some x)) = Some x1" using tx_begin_ex by blast
  obtain r2 rc2 c2 where s2: "stmt_exec E (conn x1) INSERT_XNAME (bind_all E [(1, SText n)]) = Some (r2, rc2, c2)"
    using stmt_exec_ex [OF assms] by (metis bind_all_some(1))
  obtain r3 rc3 c3 where s3: "stmt_exec E c2 INSERT_XDATA (bind_all E ([(1, SText g), (2, SText n)] @ attr_params a)) = Some (r3, rc3, c3)"
    using stmt_exec_ex [OF assms] by (metis bind_all_some(1))
  show ?thesis
    using tx_end_ex [of E "-1" "x1\<lparr>conn := c2\<rparr>"] tx_end_ex [of E r3 "x1\<lparr>conn := c3\<rparr>"] s2 s3
    by (cases "r2 = 0") (auto simp: ims_xdb_setxattr_def Let_def gn x1)
qed

lemma run_stmt_code: "run_stmt q a d = Some (rc, row, d') \<Longrightarrow> rc \<in> {SQLITE_ROW, SQLITE_DONE, SQLITE_CONSTRAINT}"
  by (cases q) (auto simp: sql_get_gid_def sql_insert_gfid_def sql_insert_file_def sql_insert_stat_def
      sql_update_stat_def sql_remove_file_def sql_unlink_file_def sql_rename_def sql_insert_xname_def
      sql_insert_xdata_def split: option.splits if_splits)

lemma ref_run_code: "ref_run c st = (rc, row, c') \<Longrightarrow> rc \<noteq> SQLITE_BUSY"
  using run_stmt_code by (fastforce simp: ref_run_def split: option.splits)

lemma ref_step_answers: "answers_within ref_engine c st (Suc (length (rc_script c)))"
proof (induction "rc_script c" arbitrary: c)
  case Nil
  then show ?case
    using ref_run_code [of c st] by (auto simp: ref_engine_def ref_step_def split: prod.splits)
next
  case (Cons f fs)
  have "answers_within ref_engine (c\<lparr>rc_script := fs\<rparr>) st (length (rc_script c))"
    using Cons(1) [of "c\<lparr>rc_script := fs\<rparr>"] Cons(2) [symmetric] by simp
  then show ?case
    using ref_run_code [of "c\<lparr>rc_script := fs\<rparr>" st] Cons(2) [symmetric]
    by (auto simp: ref_engine_def ref_step_def simp del: answers_within.simps(2) split: prod.splits)
      (simp_all add: ref_step_def ref_engine_def split: prod.splits)
qed

lemma ref_responsive: "responsive ref_engine"
  unfolding responsive_def using ref_step_answers by blast

end
