(* ===== verification/Xdb_Refine.thy ===== *)
theory Xdb_Refine
  imports Xdb_Laws
begin

text \<open>
  The contract of the index database: an abstract index (known \<open>gfid\<close>s, paths,
  attributes) and what each operation promises on it.  For every engine an
  operation either refines its promise or returns a negative value and leaves
  the database; for an engine without faults it always refines it.
\<close>

subsection \<open>The abstract index\<close>

type_synonym attr_val = "sqlval \<times> sqlval \<times> sqlval"

record index =
  ix_gfids :: "string set"
  ix_paths :: "string \<Rightarrow> (string \<times> string) option"
  ix_attrs :: "string \<Rightarrow> string \<Rightarrow> attr_val option"

definition abs_index :: "xdb_db \<Rightarrow> index" where
  "abs_index d = \<lparr>ix_gfids = idx_gfids d, ix_paths = idx_path d, ix_attrs = idx_attr d\<rparr>"

text \<open>What the operations promise: a result and the new index.\<close>

definition stat_attrs :: "stat_t \<Rightarrow> string \<Rightarrow> attr_val option" where
  "stat_attrs sb = map_of (zip stat_names (map (\<lambda>v. (int64_param v, SNull, SNull)) (stat_fields sb)))"

definition ix_new_file :: "string \<Rightarrow> string \<Rightarrow> stat_t \<Rightarrow> index \<Rightarrow> int \<times> index" where
  "ix_new_file g p sb ix =
     (if g \<in> ix_gfids ix \<or> ix_paths ix p \<noteq> None then (-1, ix)
      else (0, \<lparr>ix_gfids = insert g (ix_gfids ix), ix_paths = (ix_paths ix)(p \<mapsto> (g, base_name p)),
                ix_attrs = (ix_attrs ix)(g := stat_attrs sb)\<rparr>))"

definition ix_link :: "string \<Rightarrow> string \<Rightarrow> index \<Rightarrow> int \<times> index" where
  "ix_link g p ix =
     (if g \<notin> ix_gfids ix \<or> ix_paths ix p \<noteq> None then (-1, ix)
      else (0, ix\<lparr>ix_paths := (ix_paths ix)(p \<mapsto> (g, base_name p))\<rparr>))"

definition ix_unlink :: "string \<Rightarrow> index \<Rightarrow> int \<times> index" where
  "ix_unlink p ix = (0, ix\<lparr>ix_paths := (ix_paths ix)(p := None)\<rparr>)"

definition ix_rename :: "string \<Rightarrow> string \<Rightarrow> index \<Rightarrow> int \<times> index" where
  "ix_rename old new ix = (case ix_paths ix old of
     None \<Rightarrow> (0, ix)
   | Some (g, _) \<Rightarrow>
       if new \<noteq> old \<and> ix_paths ix new \<noteq> None then (-1, ix)
       else (0, ix\<lparr>ix_paths := (ix_paths ix)(old := None, new \<mapsto> (g, base_name new))\<rparr>))"

definition ix_setxattr :: "string \<Rightarrow> string \<Rightarrow> attr_val \<Rightarrow> index \<Rightarrow> int \<times> index" where
  "ix_setxattr g n v ix =
     (if g \<notin> ix_gfids ix then (-1, ix)
      else (0, ix\<lparr>ix_attrs := (ix_attrs ix)(g := (ix_attrs ix g)(n \<mapsto> v))\<rparr>))"

text \<open>The attributes the three kinds of update refresh.\<close>

definition stat_group :: "int \<Rightarrow> string set" where
  "stat_group op =
     (if op = IMS_XDB_STAT_OP_WRITE then {''st_size'', ''st_blocks'', ''st_atime'', ''st_mtime''}
      else if op = IMS_XDB_STAT_OP_OWNER then {''st_uid'', ''st_gid''} else set stat_names)"

definition ix_update_stat :: "string \<Rightarrow> stat_t \<Rightarrow> int \<Rightarrow> index \<Rightarrow> int \<times> index" where
  "ix_update_stat g sb op ix =
     (if g \<notin> ix_gfids ix then (-1, ix)
      else (0, ix\<lparr>ix_attrs := (ix_attrs ix)(g := (\<lambda>n.
             if n \<in> stat_group op
             then map_option (\<lambda>(_, r, s). (fst (the (stat_attrs sb n)), r, s)) (ix_attrs ix g n)
             else ix_attrs ix g n))\<rparr>))"

subsection \<open>Effects as index operations\<close>

definition gids_below :: "int \<Rightarrow> xdb_db \<Rightarrow> bool" where
  "gids_below b d \<longleftrightarrow> (\<forall>r \<in> set (xdb_xgfid d). g_gid r < b)"

definition db_ok :: "xdb_db \<Rightarrow> bool" where
  "db_ok d \<longleftrightarrow> db_inv d \<and> db_refs d"

lemma gid_in_range:
  assumes "db_inv d" "gids_below (2 ^ 31) d" "gid_of d (Some g) = Some i"
  shows "signed_take_bit 31 i = i"
proof -
  obtain r where "r \<in> set (xdb_xgfid d)" "g_gid r = i" using assms by (auto simp: gid_of_iff)
  moreover have "0 < g_gid r" using assms(1) \<open>r \<in> set (xdb_xgfid d)\<close> by (simp add: db_inv_def)
  moreover have "g_gid r < 2 ^ 31" using assms(2) \<open>r \<in> set (xdb_xgfid d)\<close> unfolding gids_below_def by blast
  ultimately have "0 < i" "i < 2 ^ 31" by simp_all
  then show ?thesis by (intro signed_take_bit_int_eq_self) simp_all
qed

lemma stat_attrs_nth: "k < 13 \<Longrightarrow> stat_attrs sb (stat_names ! k) = Some (int64_param (stat_fields sb ! k), SNull, SNull)"
proof -
  have "distinct stat_names" by (simp add: stat_names_def)
  moreover have "length stat_names = 13" "length (stat_fields sb) = 13" by (simp_all add: stat_names_def stat_fields_def)
  ultimately show "k < 13 \<Longrightarrow> ?thesis" unfolding stat_attrs_def by (subst map_of_zip_nth) auto
qed

lemma stat_attrs_None: "n \<notin> set stat_names \<Longrightarrow> stat_attrs sb n = None"
  by (auto simp: stat_attrs_def map_of_eq_None_iff dest: set_zip_leftD)

lemma stat_names_nth: "n \<in> set stat_names \<longleftrightarrow> (\<exists>k < 13. n = stat_names ! k)"
proof -
  have "length stat_names = 13" by (simp add: stat_names_def)
  then show ?thesis by (metis in_set_conv_nth)
qed

text \<open>A file that is new to the index has no attributes.\<close>

lemma attr_absent: "g \<notin> idx_gfids d \<Longrightarrow> idx_attr d g n = None"
  by (simp add: idx_attr_def gid_of_None [symmetric])

lemma fold_max_less: "(\<forall>x \<in> set xs. x < b) \<Longrightarrow> a < b \<Longrightarrow> fold max xs a < (b::int)"
  by (induction xs arbitrary: a) auto

lemma next_rowid_le: "\<forall>x \<in> set ids. x < b \<Longrightarrow> 1 \<le> b \<Longrightarrow> next_rowid ids \<le> b"
  using fold_max_less [of ids b 0] by (simp add: next_rowid_def)

lemma gids_below_add: "gids_below b d \<Longrightarrow> 1 \<le> b \<Longrightarrow> gids_below (b + 1) (add_gfid g d)"
  using next_rowid_le [of "map g_gid (xdb_xgfid d)" b] by (auto simp: gids_below_def add_gfid_def)

lemma path_free: "db_refs d \<Longrightarrow> p \<notin> f_path ` set (xdb_xfile d) \<longleftrightarrow> idx_path d p = None"
  by (simp add: idx_path_None)

lemma new_file_abs:
  assumes "db_ok d" "g \<notin> idx_gfids d" "p \<notin> f_path ` set (xdb_xfile d)"
    and "gid_of (add_gfid g d) (Some g) = Some i" and "gids_below (2 ^ 31 - 1) d"
    and "insert_stat_rows 1 (stat_rows (signed_take_bit 31 i) sb) (add_file i p (base_name p) (add_gfid g d)) = Some d3"
  shows "(0, abs_index d3) = ix_new_file g p sb (abs_index d) \<and> db_ok d3"
proof -
  have inv: "db_inv d" "db_refs d" using assms(1) by (simp_all add: db_ok_def)
  have "i = next_rowid (map g_gid (xdb_xgfid d))" using assms(2,4) by (simp add: gid_of_add_gfid)
  moreover have "next_rowid (map g_gid (xdb_xgfid d)) \<le> 2 ^ 31 - 1"
    using assms(5) by (intro next_rowid_le) (auto simp: gids_below_def)
  ultimately have "i < 2 ^ 31" by simp
  note ix = new_file_index [OF inv assms(2,3,4) this assms(6)]
  have "idx_attr d3 = (idx_attr d)(g := stat_attrs sb)"
  proof (intro ext)
    fix h n
    show "idx_attr d3 h n = ((idx_attr d)(g := stat_attrs sb)) h n"
    proof (cases "h = g")
      case True
      then show ?thesis
        using ix stat_names_nth [of n] by (cases "n \<in> set stat_names") (auto simp: stat_attrs_nth stat_attrs_None)
    qed (use ix in simp)
  qed
  then show ?thesis using ix assms(2,3) inv
    by (simp add: ix_new_file_def abs_index_def db_ok_def path_free)
qed

lemma link_abs:
  assumes "db_ok d" "gid_of d (Some g) = Some i" "p \<notin> f_path ` set (xdb_xfile d)"
  shows "(0, abs_index (add_file i p (base_name p) d)) = ix_link g p (abs_index d) \<and> db_ok (add_file i p (base_name p) d)"
proof -
  have inv: "db_inv d" "db_refs d" using assms(1) by (simp_all add: db_ok_def)
  have "g \<in> idx_gfids d" using assms(2) gid_of_None [of d g] by auto
  moreover have "idx_path (add_file i p (base_name p) d) = (idx_path d)(p \<mapsto> (g, base_name p))"
    using path_add_file [OF inv(1) assms(2,3)] by (auto simp: fun_eq_iff)
  ultimately show ?thesis using assms inv
    by (simp add: ix_link_def abs_index_def db_ok_def path_free inv_add_file refs_add_file)
qed

lemma unlink_abs:
  "db_ok d \<Longrightarrow> (0, abs_index (drop_path (Some p) d)) = ix_unlink p (abs_index d) \<and> db_ok (drop_path (Some p) d)"
  by (auto simp: db_ok_def ix_unlink_def abs_index_def inv_drop_path refs_drop_path path_drop_path fun_eq_iff)

lemma rename_abs:
  assumes "db_ok d" "old \<in> f_path ` set (xdb_xfile d)"
    and free: "\<forall>r \<in> set (xdb_xfile d). f_path r \<noteq> old \<longrightarrow> f_path r \<noteq> new"
  shows "(0, abs_index (move_file (Some old) new (base_name new) d)) = ix_rename old new (abs_index d) \<and>
    db_ok (move_file (Some old) new (base_name new) d)"
proof -
  have inv: "db_inv d" "db_refs d" using assms(1) by (simp_all add: db_ok_def)
  obtain g m where g: "idx_path d old = Some (g, m)" using idx_path_None [OF inv(2), of old] assms(2) by fastforce
  have "new \<noteq> old \<Longrightarrow> idx_path d new = None" using idx_path_None [OF inv(2), of new] free by auto
  moreover have "db_inv (move_file (Some old) new (base_name new) d)" using inv free by (intro inv_move_file) auto
  moreover have "idx_path (move_file (Some old) new (base_name new) d) = (idx_path d)(old := None, new \<mapsto> (g, base_name new))"
    using path_move_file [OF g free] by (auto simp: fun_eq_iff)
  ultimately show ?thesis using g inv by (auto simp: ix_rename_def abs_index_def db_ok_def refs_move_file)
qed

lemma setxattr_abs:
  assumes "db_ok d" "gid_of (with_name n d) (Some g) = Some i" "nid_of (with_name n d) (Some n) = Some k"
  shows "(0, abs_index (put_xdata i k v r s (with_name n d))) = ix_setxattr g n (v, r, s) (abs_index d) \<and>
    db_ok (put_xdata i k v r s (with_name n d))"
proof -
  have inv: "db_inv d" "db_refs d" using assms(1) by (simp_all add: db_ok_def)
  have "g \<in> idx_gfids (with_name n d)" using assms(2) gid_of_None [of "with_name n d" g] by auto
  then have "g \<in> idx_gfids d" using with_name_index [OF inv] by simp
  then show ?thesis using setxattr_index [OF inv assms(2,3), of v r s]
    by (simp add: ix_setxattr_def abs_index_def db_ok_def)
qed

text \<open>The updates of a group, by name.\<close>

lemma stat_updates_keys: "distinct (map fst (stat_updates op sb))"
proof -
  consider "op = IMS_XDB_STAT_OP_ALL" | "op = IMS_XDB_STAT_OP_WRITE" | "op = IMS_XDB_STAT_OP_OWNER"
    | "op \<notin> {IMS_XDB_STAT_OP_ALL, IMS_XDB_STAT_OP_WRITE, IMS_XDB_STAT_OP_OWNER}" by blast
  then show ?thesis by cases (auto simp: stat_updates_def)
qed

lemma stat_updates_group:
  assumes "op \<in> {IMS_XDB_STAT_OP_ALL, IMS_XDB_STAT_OP_WRITE, IMS_XDB_STAT_OP_OWNER}" "k < 13"
  shows "map_of (stat_updates op sb) (int k + 1) =
    (if stat_names ! k \<in> stat_group op then Some (stat_fields sb ! k) else None)"
proof -
  have "k = 0 \<or> k = 1 \<or> k = 2 \<or> k = 3 \<or> k = 4 \<or> k = 5 \<or> k = 6 \<or> k = 7 \<or> k = 8 \<or> k = 9 \<or> k = 10 \<or>
      k = 11 \<or> k = 12" using assms(2) by presburger
  then show ?thesis using assms(1)
    by (elim insertE emptyE disjE; hypsubst) (simp_all add: stat_updates_def stat_group_def stat_names_def stat_fields_def)
qed

lemma stat_group_names: "stat_group op \<subseteq> set stat_names"
  by (auto simp: stat_group_def stat_names_def)

lemma update_stat_abs:
  assumes "db_ok d" "gids_below (2 ^ 31) d" "gid_of d (Some g) = Some i"
    and op: "op \<in> {IMS_XDB_STAT_OP_ALL, IMS_XDB_STAT_OP_WRITE, IMS_XDB_STAT_OP_OWNER}"
  shows "(0, abs_index (put_ivals (signed_take_bit 31 i) (stat_updates op sb) d)) = ix_update_stat g sb op (abs_index d) \<and>
    db_ok (put_ivals (signed_take_bit 31 i) (stat_updates op sb) d)"
proof -
  have inv: "db_inv d" "db_refs d" using assms(1) by (simp_all add: db_ok_def)
  have i: "signed_take_bit 31 i = i" using gid_in_range [OF inv(1) assms(2,3)] .
  have "g \<in> idx_gfids d" using assms(3) gid_of_None [of d g] by auto
  have keys: "fst ` set (stat_updates op sb) \<subseteq> (\<lambda>k. int k + 1) ` {..<13}"
    using op by (auto simp: stat_updates_def image_iff Bex_def)
  have "idx_attr (put_ivals i (stat_updates op sb) d) h n = (if h = g \<and> n \<in> stat_group op
      then map_option (\<lambda>(_, r, s). (fst (the (stat_attrs sb n)), r, s)) (idx_attr d g n) else idx_attr d h n)" for h n
  proof (cases "n \<in> set stat_names")
    case True
    then obtain k where k: "k < 13" "n = stat_names ! k" using stat_names_nth by auto
    then show ?thesis
      using stat_nid_of [OF inv(1) k(1)] stat_updates_group [OF op k(1), of sb]
      by (auto simp: attr_put_ivals [OF inv(1) assms(3) stat_updates_keys] stat_attrs_nth)
  next
    case False
    then have "n \<notin> stat_group op" using stat_group_names by auto
    moreover have "map_of (stat_updates op sb) m = None" if "nid_of d (Some n) = Some m" for m
    proof (rule ccontr)
      assume "map_of (stat_updates op sb) m \<noteq> None"
      then have "m \<in> fst ` set (stat_updates op sb)" by (metis map_of_eq_None_iff)
      then obtain k where "k < 13" "m = int k + 1" using keys by auto
      then have "n = stat_names ! k" using stat_nid_of [OF inv(1)] nid_of_inj [OF inv(1) that] by blast
      then show False using False \<open>k < 13\<close> stat_names_nth by blast
    qed
    moreover have "idx_attr d h n = None" if "nid_of d (Some n) = None"
      using that by (simp add: idx_attr_def split: option.split)
    ultimately show ?thesis
      by (cases "nid_of d (Some n)") (simp_all add: attr_put_ivals [OF inv(1) assms(3) stat_updates_keys])
  qed
  then show ?thesis
    using \<open>g \<in> idx_gfids d\<close> inv
    by (auto simp: i ix_update_stat_def abs_index_def db_ok_def put_ivals_keeps fun_eq_iff)
qed

subsection \<open>Atomic operations\<close>

text \<open>The outcome of an operation on a database in which no transaction is open:
  the promised index, or a negative result and the old database.\<close>

definition atomic_outcome :: "(index \<Rightarrow> int \<times> index) \<Rightarrow> xdb_db \<Rightarrow> int \<Rightarrow> xdb_db \<Rightarrow> bool" where
  "atomic_outcome spec d ret d' \<longleftrightarrow>
     ret = 0 \<and> (0, abs_index d') = spec (abs_index d) \<and> db_ok d' \<or> ret < 0 \<and> d' = d"

text \<open>The outcome of an operation that opens a transaction: the durable contents are the old ones or, with the result 0,
  the promised ones; a result of 0 with the old ones needs a \<open>COMMIT\<close> that was refused, whose result the code
  does not look at.  When the engine refuses neither \<open>COMMIT\<close> nor \<open>ROLLBACK\<close>, no transaction stays open, so
  that the durable contents are what the connection sees.\<close>

definition durable_outcome ::
  "'c sqlite3 \<Rightarrow> ('c \<Rightarrow> xdb_db) \<Rightarrow> ('c \<Rightarrow> xdb_db option) \<Rightarrow> (index \<Rightarrow> int \<times> index) \<Rightarrow> xdb_db \<Rightarrow> int \<Rightarrow> 'c \<Rightarrow> bool" where
  "durable_outcome E db tx spec d ret c' \<longleftrightarrow>
     (atomic_outcome spec d ret (committed db tx c') \<or> \<not> commits E tx \<and> ret = 0 \<and> committed db tx c' = d) \<and>
     (commits E tx \<and> rolls_back E tx \<longrightarrow> tx c' = None)"

lemma no_effect_none: "no_effect d None d' t' \<longleftrightarrow> d' = d \<and> t' = None"
  by (auto simp: no_effect_def)

context sqlite_engine
begin

text \<open>The two ends of a transaction.\<close>

lemma durable_commit:
  assumes "commit_end d d' x" "(0, abs_index d') = spec (abs_index d)" "db_ok d'"
  shows "durable_outcome E db tx spec d 0 (conn x)"
  using assms by (auto simp: durable_outcome_def atomic_outcome_def commit_end_def committed_def)

lemma durable_rollback: "rollback_end d x \<Longrightarrow> ret < 0 \<Longrightarrow> durable_outcome E db tx spec d ret (conn x)"
  by (auto simp: durable_outcome_def atomic_outcome_def rollback_end_def)

lemma new_file_outcome:
  assumes "begins E tx" "db_ok (xdb_of x)" "gids_below (2 ^ 31 - 1) (xdb_of x)" "tx_of x = None"
    and "xf_gfid f = Some g" "xf_path f = Some p"
    and "ims_xdb_insert_new_file E (Some x) (Some f) (Some sb) = Some (ret, Some x')"
  shows "durable_outcome E db tx (ix_new_file g p sb) (xdb_of x) ret (conn x')"
  using insert_new_file_law [OF assms(7,4,1)]
proof (elim disjE conjE exE)
  fix g' p' i d2 d3
  assume "ret = 0" "xf_gfid f = Some g'" "xf_path f = Some p'" "g' \<notin> idx_gfids (xdb_of x)" "p' \<notin> f_path ` set (xdb_xfile (xdb_of x))"
    "gid_of (add_gfid g' (xdb_of x)) (Some g') = Some i" "d2 = add_file i p' (base_name p') (add_gfid g' (xdb_of x))"
    "insert_stat_rows 1 (stat_rows (signed_take_bit 31 i) sb) d2 = Some d3" "commit_end (xdb_of x) d3 x'"
  then show ?thesis
    using new_file_abs [OF assms(2), of g p i sb d3] assms(3,5,6) durable_commit [of "xdb_of x" d3 x'] by auto
qed (rule durable_rollback)

lemma link_outcome:
  assumes "db_ok (xdb_of x)" "tx_of x = None" "xf_gfid f = Some g" "xf_path f = Some p"
    and "ims_xdb_link_file E (Some x) (Some f) = Some (ret, x')"
  shows "atomic_outcome (ix_link g p) (xdb_of x) ret (xdb_of x') \<and> tx_of x' = None"
  using link_file_law [OF assms(5)] link_abs [OF assms(1)] assms(2-4)
  by (auto simp: atomic_outcome_def no_effect_none)

lemma unlink_outcome:
  assumes "db_ok (xdb_of x)" "tx_of x = None" "xf_path f = Some p"
    and "ims_xdb_unlink_file E (Some x) (Some f) = Some (ret, x')"
  shows "atomic_outcome (ix_unlink p) (xdb_of x) ret (xdb_of x') \<and> tx_of x' = None"
  using unlink_file_law [OF assms(4)] unlink_abs [OF assms(1)] assms(2,3)
  by (auto simp: atomic_outcome_def no_effect_none)

lemma rename_outcome:
  assumes "db_ok (xdb_of x)" "tx_of x = None" "xf_path f = Some old" "xf_extra f = Some new"
    and "ims_xdb_rename E (Some x) (Some f) = Some (ret, x')"
  shows "atomic_outcome (ix_rename old new) (xdb_of x) ret (xdb_of x') \<and> tx_of x' = None"
proof -
  have "db_refs (xdb_of x)" using assms(1) by (simp add: db_ok_def)
  then have "old \<notin> f_path ` set (xdb_xfile (xdb_of x)) \<Longrightarrow> (0, abs_index (xdb_of x)) = ix_rename old new (abs_index (xdb_of x))"
    by (simp add: ix_rename_def abs_index_def path_free)
  then show ?thesis
    using rename_law [OF assms(5)] rename_abs [OF assms(1)] assms(1-4)
    by (auto simp: atomic_outcome_def no_effect_none)
qed

lemma setxattr_outcome:
  assumes "begins E tx" "db_ok (xdb_of x)" "tx_of x = None" "at_gfid a = Some g" "at_name a = Some n"
    and "ims_xdb_setxattr E (Some x) (Some a) = Some (ret, x')"
  shows "durable_outcome E db tx (ix_setxattr g n (attr_vals a)) (xdb_of x) ret (conn x')"
  using setxattr_law [OF assms(6,3,1)] setxattr_abs [OF assms(2)] assms(4,5) durable_rollback [of "xdb_of x" x' ret]
    durable_commit [of "xdb_of x" _ x']
  by auto

lemma update_stat_outcome:
  assumes "begins E tx" "db_ok (xdb_of x)" "gids_below (2 ^ 31) (xdb_of x)" "tx_of x = None" "xf_gfid f = Some g"
    and "ims_xdb_update_stat E (Some x) (Some f) (Some sb) op = Some (ret, x')"
  shows "durable_outcome E db tx (ix_update_stat g sb op) (xdb_of x) ret (conn x')"
proof -
  let ?op = "if op < 0 \<or> N_IMS_XDB_STAT_OPS \<le> op then IMS_XDB_STAT_OP_ALL else op"
  have op: "?op \<in> {IMS_XDB_STAT_OP_ALL, IMS_XDB_STAT_OP_WRITE, IMS_XDB_STAT_OP_OWNER}" by auto
  have same: "ix_update_stat g sb ?op = ix_update_stat g sb op" by (auto simp: fun_eq_iff ix_update_stat_def stat_group_def)
  show ?thesis
    using update_stat_law [OF assms(6,4,1)] update_stat_abs [OF assms(2,3) _ op, of g _ sb, unfolded same] assms(5)
      durable_rollback [of "xdb_of x" x' ret] durable_commit [of "xdb_of x" _ x']
    by auto
qed

end

subsection \<open>An engine without faults\<close>

locale reliable_engine = sqlite_engine +
  assumes prepare_ok: "fst (sq_prepare E c sql) = SQLITE_OK"
    and bind_ok: "sq_bind E c st i v = SQLITE_OK"
    and step_ok: "stmt_sql st = xdb_sqls q \<Longrightarrow> run_stmt q (stmt_args st) (db c) = Some (rc, row, d) \<Longrightarrow>
      \<exists>c'. sq_step E c st = (rc, row, c') \<and> db c' = d \<and> tx c' = tx c"
    and begin_ok: "begins E tx" and commit_ok: "commits E tx" and rollback_ok: "rolls_back E tx"
begin

lemma bind_params_reliable: "\<exists>st'. bind_params E c ps st = (0, st')"
proof (induction ps arbitrary: st)
  case (Cons p ps)
  obtain i v where p: "p = (i, v)" by (cases p)
  obtain st1 where "bind_param E c st i v = (0, st1)" by (simp add: bind_param_def bind_ok Let_def)
  moreover obtain st2 where "bind_params E c ps st1 = (0, st2)" using Cons by blast
  ultimately show ?case by (simp add: p)
qed simp

lemma step_busy_reliable:
  assumes "stmt_sql st = xdb_sqls q" "run_stmt q (stmt_args st) (db c) = Some (rc, row, d)"
  obtains c' where "step_busy E c st = Some (rc, row, c')" "db c' = d" "tx c' = tx c"
proof -
  obtain c' where c': "sq_step E c st = (rc, row, c')" "db c' = d" "tx c' = tx c" using step_ok [OF assms] by blast
  have "rc \<noteq> SQLITE_BUSY" using run_stmt_code [OF assms(2)] by auto
  then have "step_busy E c st = Some (rc, row, c')" using c' by (subst step_busy.simps) simp
  then show ?thesis using that c' by blast
qed

lemma prepare_reliable: obtains c' where "sq_prepare E c sql = (0, c')" "db c' = db c" "tx c' = tx c"
  using prepare_ok [of c sql] prepare_keeps [of c sql] by (cases "sq_prepare E c sql") auto

lemma stmt_exec_reliable:
  assumes "\<And>c1. \<exists>st. bnd c1 (new_stmt q) = Some (0, st) \<and> stmt_sql st = xdb_sqls q \<and> run_stmt q (stmt_args st) (db c) = Some (rc, row, d)"
  obtains c' where "stmt_exec E c q bnd = Some (if rc = SQLITE_DONE then 0 else -1, rc, c')" "db c' = d" "tx c' = tx c"
proof -
  obtain c1 where c1: "sq_prepare E c (xdb_sqls q) = (0, c1)" "db c1 = db c" "tx c1 = tx c" using prepare_reliable .
  obtain st where st: "bnd c1 (new_stmt q) = Some (0, st)" "stmt_sql st = xdb_sqls q"
    "run_stmt q (stmt_args st) (db c1) = Some (rc, row, d)" using assms [of c1] c1 by auto
  obtain c' where "step_busy E c1 st = Some (rc, row, c')" "db c' = d" "tx c' = tx c1" using step_busy_reliable [OF st(2,3)] .
  then show ?thesis using that [of c'] c1 st by (simp add: stmt_exec_def)
qed

lemma bind_all_reliable: "\<exists>st. bind_all E ps c1 (new_stmt q) = Some (0, st) \<and> stmt_sql st = xdb_sqls q \<and>
    stmt_args st = put_args ps (\<lambda>_. SNull)"
  using bind_params_reliable [of c1 ps "new_stmt q"] bind_all_ok [of E ps c1 q] by (auto simp: bind_all_def)

lemma stmt_exec_all_reliable:
  assumes "run_stmt q (put_args ps (\<lambda>_. SNull)) (db c) = Some (rc, row, d)"
  obtains c' where "stmt_exec E c q (bind_all E ps) = Some (if rc = SQLITE_DONE then 0 else -1, rc, c')" "db c' = d" "tx c' = tx c"
  by (rule stmt_exec_reliable [of "bind_all E ps" q c rc row d]) (use bind_all_reliable assms in metis)+

lemma commit_reliable:
  assumes "tx_of x \<noteq> None"
  obtains x' where "tx_end E 0 (Some x) = Some x'" "xdb_of x' = xdb_of x" "tx_of x' = None"
proof -
  obtain d where d: "tx_of x = Some d" using assms by blast
  obtain x' where "tx_end E 0 (Some x) = Some x'" "commit_end d (xdb_of x) x'" using tx_end_commit [OF d] .
  then show ?thesis using that [of x'] commit_ok by (simp add: commit_end_def)
qed

lemma rollback_reliable:
  assumes "tx_of y = Some d \<or> tx_of y = None \<and> xdb_of y = d" "ret \<noteq> 0"
  obtains z where "tx_end E ret (Some y) = Some z" "xdb_of z = d" "tx_of z = None"
proof -
  obtain z where "tx_end E ret (Some y) = Some z" "rollback_end d z" using tx_end_rollback [OF assms] .
  moreover from this(2) have z: "com_of z = d" "tx_of z = None" using rollback_ok by (auto simp: rollback_end_def)
  moreover have "xdb_of z = d" using z by (simp add: committed_def)
  ultimately show ?thesis using that by blast
qed

lemma ends_reliable:
  "commit_end old new x \<longleftrightarrow> xdb_of x = new \<and> tx_of x = None"
  "rollback_end old x \<longleftrightarrow> xdb_of x = old \<and> tx_of x = None"
  using commit_ok rollback_ok by (auto simp: commit_end_def rollback_end_def committed_def)

lemmas begin_reliable = tx_begin_law [OF begin_ok]

text \<open>On such an engine the operations that open a transaction have the outcome of the others.\<close>

lemma durable_reliable:
  "durable_outcome E db tx spec d ret c' \<Longrightarrow> atomic_outcome spec d ret (db c') \<and> tx c' = None"
  using commit_ok rollback_ok by (auto simp: durable_outcome_def committed_def)

end

text \<open>The result codes the statements give, in terms of the index.\<close>

lemma sql_insert_gfid_spec:
  "sql_insert_gfid (Some g) d = (if g \<in> idx_gfids d then (SQLITE_CONSTRAINT, [], d) else (SQLITE_DONE, [], add_gfid g d))"
  by (simp add: sql_insert_gfid_def idx_gfids_def)

lemma gid_of_Some: "g \<in> idx_gfids d \<longleftrightarrow> (\<exists>i. gid_of d (Some g) = Some i)"
  using gid_of_None [of d g] by auto

lemma sql_insert_file_spec:
  assumes "db_refs d" "name_substr_pos p = Some pos"
  shows "sql_insert_file (Some g) (Some p) (Some p) (Some pos) d =
    (case gid_of d (Some g) of
       Some i \<Rightarrow> if idx_path d p = None then (SQLITE_DONE, [], add_file i p (base_name p) d) else (SQLITE_CONSTRAINT, [], d)
     | None \<Rightarrow> (SQLITE_CONSTRAINT, [], d))"
  using assms by (auto simp: sql_insert_file_def sql_substr_def base_name_def path_free [symmetric] split: option.splits)

lemma sql_rename_spec:
  assumes "db_refs d" "name_substr_pos new = Some pos"
  shows "sql_rename (Some new) (Some new) (Some pos) (Some old) d =
    (if idx_path d old = None then (SQLITE_DONE, [], d)
     else if new \<noteq> old \<and> idx_path d new \<noteq> None then (SQLITE_CONSTRAINT, [], d)
     else (SQLITE_DONE, [], move_file (Some old) new (base_name new) d))"
  using assms path_free [OF assms(1), of old] path_free [OF assms(1), of new]
  by (auto simp: sql_rename_def sql_substr_def base_name_def image_iff)

lemma sql_insert_xdata_spec:
  "sql_insert_xdata (Some g) (Some n) v r s (with_name n d) =
    (case gid_of (with_name n d) (Some g) of
       Some i \<Rightarrow> (SQLITE_DONE, [], put_xdata i (the (nid_of (with_name n d) (Some n))) v r s (with_name n d))
     | None \<Rightarrow> (SQLITE_CONSTRAINT, [], with_name n d))"
proof -
  have "nid_of (with_name n d) (Some n) \<noteq> None" by (auto simp: with_name_def nid_of_None add_xname_def)
  then show ?thesis by (auto simp: sql_insert_xdata_def split: option.splits)
qed

definition refined :: "(index \<Rightarrow> int \<times> index) \<Rightarrow> xdb_db \<Rightarrow> int \<Rightarrow> xdb_db \<Rightarrow> bool" where
  "refined spec d ret d' \<longleftrightarrow> (ret, abs_index d') = spec (abs_index d) \<and> db_ok d'"

context reliable_engine
begin

lemma unlink_refined:
  assumes "db_ok (xdb_of x)" "xf_path f = Some p" "tx_of x = None"
  obtains ret x' where "ims_xdb_unlink_file E (Some x) (Some f) = Some (ret, x')"
    "refined (ix_unlink p) (xdb_of x) ret (xdb_of x')" "tx_of x' = None"
proof -
  have "run_stmt UNLINK_FILE (put_args [(1, SText p)] (\<lambda>_. SNull)) (xdb_of x) = Some (SQLITE_DONE, [], drop_path (Some p) (xdb_of x))"
    by (simp add: sql_unlink_file_def)
  then obtain c where "stmt_exec E (conn x) UNLINK_FILE (bind_all E [(1, SText p)]) = Some (0, SQLITE_DONE, c)"
    "db c = drop_path (Some p) (xdb_of x)" "tx c = tx_of x"
    using stmt_exec_all_reliable [of UNLINK_FILE "[(1, SText p)]" "conn x"] by auto
  then show ?thesis using that [of 0 "x\<lparr>conn := c, db_ret := SQLITE_DONE\<rparr>"] assms unlink_abs [OF assms(1), of p]
    by (simp add: ims_xdb_unlink_file_def refined_def)
qed

lemma link_refined:
  assumes "db_ok (xdb_of x)" "xf_gfid f = Some g" "xf_path f = Some p" "name_substr_pos p = Some pos" "tx_of x = None"
  obtains ret x' where "ims_xdb_link_file E (Some x) (Some f) = Some (ret, x')"
    "refined (ix_link g p) (xdb_of x) ret (xdb_of x')" "tx_of x' = None"
proof -
  let ?ps = "[(1, SText g), (2, SText p), (3, SText p), (4, SInt pos)]"
  have refs: "db_refs (xdb_of x)" using assms(1) by (simp add: db_ok_def)
  obtain rc row d where R: "sql_insert_file (Some g) (Some p) (Some p) (Some pos) (xdb_of x) = (rc, row, d)" by (metis prod_cases3)
  then have "run_stmt LINK_FILE (put_args ?ps (\<lambda>_. SNull)) (xdb_of x) = Some (rc, row, d)" by simp
  then obtain c where c: "stmt_exec E (conn x) LINK_FILE (bind_all E ?ps) = Some (if rc = SQLITE_DONE then 0 else -1, rc, c)"
    "db c = d" "tx c = tx_of x" by (rule stmt_exec_all_reliable)
  have fold: "(\<lambda>c st. do { pos \<leftarrow> name_substr_pos p; bind_all E [(1, SText g), (2, SText p), (3, SText p), (4, SInt pos)] c st }) = bind_all E ?ps"
    using assms(4) by (simp add: fun_eq_iff)
  have "refined (ix_link g p) (xdb_of x) (if rc = SQLITE_DONE then 0 else -1) d"
  proof (cases "gid_of (xdb_of x) (Some g)")
    case None
    then show ?thesis using R sql_insert_file_spec [OF refs assms(4)] assms(1) gid_of_None [of "xdb_of x" g]
      by (auto simp: refined_def ix_link_def abs_index_def)
  next
    case (Some i)
    then show ?thesis
      using R sql_insert_file_spec [OF refs assms(4)] assms(1) gid_of_Some [of g "xdb_of x"] link_abs [OF assms(1) Some, of p] path_free [OF refs, of p]
      by (auto simp: refined_def ix_link_def abs_index_def split: if_splits)
  qed
  then show ?thesis
    using that [of "if rc = SQLITE_DONE then 0 else -1" "x\<lparr>conn := c, db_ret := rc\<rparr>"] assms c
    by (simp add: ims_xdb_link_file_def fold)
qed

lemma rename_refined:
  assumes "db_ok (xdb_of x)" "xf_path f = Some old" "xf_extra f = Some new" "name_substr_pos new = Some pos" "tx_of x = None"
  obtains ret x' where "ims_xdb_rename E (Some x) (Some f) = Some (ret, x')"
    "refined (ix_rename old new) (xdb_of x) ret (xdb_of x')" "tx_of x' = None"
proof -
  let ?ps = "[(1, SText new), (2, SText new), (3, SInt pos), (4, SText old)]"
  have refs: "db_refs (xdb_of x)" using assms(1) by (simp add: db_ok_def)
  obtain rc row d where R: "sql_rename (Some new) (Some new) (Some pos) (Some old) (xdb_of x) = (rc, row, d)" by (metis prod_cases3)
  then have "run_stmt RENAME (put_args ?ps (\<lambda>_. SNull)) (xdb_of x) = Some (rc, row, d)" by simp
  then obtain c where c: "stmt_exec E (conn x) RENAME (bind_all E ?ps) = Some (if rc = SQLITE_DONE then 0 else -1, rc, c)"
    "db c = d" "tx c = tx_of x" by (rule stmt_exec_all_reliable)
  have fold: "(\<lambda>c st. do { pos \<leftarrow> name_substr_pos new; bind_all E [(1, SText new), (2, SText new), (3, SInt pos), (4, SText old)] c st }) = bind_all E ?ps"
    using assms(4) by (simp add: fun_eq_iff)
  have "refined (ix_rename old new) (xdb_of x) (if rc = SQLITE_DONE then 0 else -1) d"
  proof (cases "idx_path (xdb_of x) old")
    case None
    then show ?thesis using R sql_rename_spec [OF refs assms(4)] assms(1)
      by (auto simp: refined_def ix_rename_def abs_index_def)
  next
    case (Some gm)
    have "old \<in> f_path ` set (xdb_xfile (xdb_of x))" using Some path_free [OF refs, of old] by auto
    moreover have "\<forall>r \<in> set (xdb_xfile (xdb_of x)). f_path r \<noteq> old \<longrightarrow> f_path r \<noteq> new"
      if "\<not> (new \<noteq> old \<and> idx_path (xdb_of x) new \<noteq> None)" using that path_free [OF refs, of new] by auto
    ultimately show ?thesis
      using R sql_rename_spec [OF refs assms(4), of old] assms(1) Some rename_abs [OF assms(1), of old new]
      by (cases gm) (auto simp: refined_def ix_rename_def abs_index_def split: if_splits)
  qed
  then show ?thesis
    using that [of "if rc = SQLITE_DONE then 0 else -1" "x\<lparr>conn := c, db_ret := rc\<rparr>"] assms c
    by (simp add: ims_xdb_rename_def fold)
qed

end

context reliable_engine
begin

lemma setxattr_refined:
  assumes "db_ok (xdb_of x)" "at_gfid a = Some g" "at_name a = Some n" "tx_of x = None"
    and ty: "at_type a \<in> {IMS_XDB_TYPE_INTEGER, IMS_XDB_TYPE_REAL, IMS_XDB_TYPE_STRING}"
  obtains ret x' where "ims_xdb_setxattr E (Some x) (Some a) = Some (ret, x')"
    "refined (ix_setxattr g n (attr_vals a)) (xdb_of x) ret (xdb_of x')" "tx_of x' = None"
proof -
  obtain x1 where x1: "snd (ims_xdb_tx_begin E (Some x)) = Some x1" "xdb_of x1 = xdb_of x" "tx_of x1 = Some (xdb_of x)"
    using begin_reliable [OF assms(4)] .
  have "run_stmt INSERT_XNAME (put_args [(1, SText n)] (\<lambda>_. SNull)) (xdb_of x1) = Some (SQLITE_DONE, [], with_name n (xdb_of x))"
    using x1 by (simp add: sql_insert_xname_def with_name_def)
  then obtain c2 where s2: "stmt_exec E (conn x1) INSERT_XNAME (bind_all E [(1, SText n)]) = Some (0, SQLITE_DONE, c2)"
    "db c2 = with_name n (xdb_of x)" "tx c2 = Some (xdb_of x)"
    using stmt_exec_all_reliable [of INSERT_XNAME "[(1, SText n)]" "conn x1"] x1 by auto
  let ?ps = "[(1, SText g), (2, SText n)] @ attr_params a"
  obtain v r s where vals: "attr_vals a = (v, r, s)" by (metis prod_cases3)
  obtain rc row d where R: "sql_insert_xdata (Some g) (Some n) v r s (db c2) = (rc, row, d)" by (metis prod_cases3)
  then have "run_stmt INSERT_XDATA (put_args ?ps (\<lambda>_. SNull)) (db c2) = Some (rc, row, d)"
    using vals ty by (auto simp: attr_params_def attr_vals_def)
  then obtain c3 where s3: "stmt_exec E c2 INSERT_XDATA (bind_all E ?ps) = Some (if rc = SQLITE_DONE then 0 else -1, rc, c3)"
    "db c3 = d" "tx c3 = tx c2" by (rule stmt_exec_all_reliable)
  have go: "\<not> (at_type a \<noteq> IMS_XDB_TYPE_INTEGER \<and> at_type a \<noteq> IMS_XDB_TYPE_REAL \<and> at_type a \<noteq> IMS_XDB_TYPE_STRING)"
    using ty by auto
  have inv: "db_inv (xdb_of x)" "db_refs (xdb_of x)" using assms(1) by (simp_all add: db_ok_def)
  note spec = sql_insert_xdata_spec [of g n v r s "xdb_of x", folded s2(2)]
  show ?thesis
  proof (cases "gid_of (db c2) (Some g)")
    case None
    then have "rc = SQLITE_CONSTRAINT" using R spec by simp
    moreover obtain z where "tx_end E (-1) (Some (x1\<lparr>conn := c3\<rparr>)) = Some z" "xdb_of z = xdb_of x" "tx_of z = None"
      using rollback_reliable [of "x1\<lparr>conn := c3\<rparr>" "xdb_of x" "-1"] s2 s3 by auto
    moreover have "g \<notin> idx_gfids (xdb_of x)"
      using None gid_of_None [of "db c2" g] with_name_index [OF inv, of n] s2(2) by simp
    ultimately show ?thesis
      using that [of "-1" "z\<lparr>db_ret := rc\<rparr>"] assms go x1 s2 s3
      by (simp add: ims_xdb_setxattr_def Let_def refined_def ix_setxattr_def abs_index_def)
  next
    case (Some i)
    then have rc: "rc = SQLITE_DONE" and d: "d = put_xdata i (the (nid_of (db c2) (Some n))) v r s (with_name n (xdb_of x))"
      using R spec by (auto simp: s2)
    obtain z where z: "tx_end E 0 (Some (x1\<lparr>conn := c3\<rparr>)) = Some z" "xdb_of z = d" "tx_of z = None"
      using commit_reliable [of "x1\<lparr>conn := c3\<rparr>"] s2 s3 by auto
    have "nid_of (with_name n (xdb_of x)) (Some n) = Some (the (nid_of (db c2) (Some n)))"
      by (simp add: s2(2)) (auto simp: with_name_def nid_of_None add_xname_def simp flip: not_None_eq)
    from setxattr_abs [OF assms(1) Some [unfolded s2(2)] this, of v r s] show ?thesis
      using that [of 0 "z\<lparr>db_ret := rc\<rparr>"] assms go x1 s2(1) s3(1) z rc d vals
      by (simp add: ims_xdb_setxattr_def Let_def refined_def)
  qed
qed

lemma get_gid_reliable:
  assumes "xf_gfid f = Some g"
  obtains x' where "get_gid E x f = (case gid_of (xdb_of x) (Some g) of
      Some i \<Rightarrow> Some (0, Some (word_of_int (signed_take_bit 31 i)), x') | None \<Rightarrow> Some (-1, None, x'))"
    "xdb_of x' = xdb_of x" "tx_of x' = tx_of x"
proof -
  obtain c1 where c1: "sq_prepare E (conn x) (xdb_sqls GET_GID) = (0, c1)" "db c1 = xdb_of x" "tx c1 = tx_of x"
    using prepare_reliable .
  obtain st where b: "bind_param E c1 (new_stmt GET_GID) 1 (text_param (xf_gfid f)) = (0, st)"
    by (simp add: bind_param_def bind_ok Let_def)
  have st: "stmt_sql st = xdb_sqls GET_GID" "stmt_args st 1 = SText g"
    using bind_param_ok [OF b] assms by (simp_all add: new_stmt_def text_param_def)
  obtain rc row d where R: "sql_get_gid (Some g) (xdb_of x) = (rc, row, d)" by (metis prod_cases3)
  then have "run_stmt GET_GID (stmt_args st) (db c1) = Some (rc, row, d)" using st c1 by simp
  then obtain c3 where c3: "step_busy E c1 st = Some (rc, row, c3)" "db c3 = d" "tx c3 = tx c1"
    using step_busy_reliable [OF st(1)] by blast
  have "d = xdb_of x" using R by (auto simp: sql_get_gid_def split: option.splits)
  then show ?thesis
    using that [of "x\<lparr>conn := c3, db_ret := rc\<rparr>"] R c1 c3 b
    by (auto simp: get_gid_def sql_get_gid_def column_int_def split: option.splits)
qed

lemma update_xdata_reliable:
  assumes "stmt_sql st = xdb_sqls UPDATE_STAT"
  shows "\<exists>c'. update_xdata E c st gid us = Some (SQLITE_DONE, c') \<and> db c' = put_ivals gid us (db c) \<and> tx c' = tx c"
  using assms
proof (induction us arbitrary: c st)
  case (Cons u us)
  obtain n v where u: "u = (n, v)" by (cases u)
  let ?ps = "[(1, int64_param v), (2, SInt gid), (3, SInt n)]"
  obtain s where b: "bind_params E c ?ps st = (0, s)" using bind_params_reliable by blast
  have s: "stmt_sql s = xdb_sqls UPDATE_STAT" "stmt_args s = put_args ?ps (stmt_args st)"
    using bind_params_ok [OF b] Cons.prems by simp_all
  have "run_stmt UPDATE_STAT (stmt_args s) (db c) = Some (SQLITE_DONE, [], set_ival (int64_param v) (Some gid) (Some n) (db c))"
    by (simp add: s sql_update_stat_def)
  then obtain c1 where c1: "step_busy E c s = Some (SQLITE_DONE, [], c1)"
    "db c1 = set_ival (int64_param v) (Some gid) (Some n) (db c)" "tx c1 = tx c"
    using step_busy_reliable [OF s(1)] by blast
  then have "u_update_xdata E c st gid n v = Some (SQLITE_DONE, s, c1)" using b by (simp add: u_update_xdata_def)
  then show ?case using Cons.IH [OF s(1), of c1] c1 by (auto simp: u)
qed simp

lemma update_stat_refined:
  assumes "db_ok (xdb_of x)" "gids_below (2 ^ 31) (xdb_of x)" "xf_gfid f = Some g" "tx_of x = None"
    and op: "op \<in> {IMS_XDB_STAT_OP_ALL, IMS_XDB_STAT_OP_WRITE, IMS_XDB_STAT_OP_OWNER}"
  obtains ret x' where "ims_xdb_update_stat E (Some x) (Some f) (Some sb) op = Some (ret, x')"
    "refined (ix_update_stat g sb op) (xdb_of x) ret (xdb_of x')" "tx_of x' = None"
proof -
  obtain x1 where x1: "get_gid E x f = (case gid_of (xdb_of x) (Some g) of
      Some i \<Rightarrow> Some (0, Some (word_of_int (signed_take_bit 31 i)), x1) | None \<Rightarrow> Some (-1, None, x1))"
    "xdb_of x1 = xdb_of x" "tx_of x1 = tx_of x" using get_gid_reliable [OF assms(3)] .
  have op': "(if op < 0 \<or> N_IMS_XDB_STAT_OPS \<le> op then IMS_XDB_STAT_OP_ALL else op) = op" using op by auto
  show ?thesis
  proof (cases "gid_of (xdb_of x) (Some g)")
    case None
    then show ?thesis
      using that [of "-1" x1] x1 assms gid_of_None [of "xdb_of x" g]
      by (simp add: ims_xdb_update_stat_def Let_def refined_def ix_update_stat_def abs_index_def)
  next
    case (Some i)
    obtain c2 where c2: "sq_prepare E (conn x1) (xdb_sqls UPDATE_STAT) = (0, c2)" "db c2 = xdb_of x" "tx c2 = None"
      using prepare_reliable [of "conn x1"] x1 assms(4) by metis
    obtain x3 where x3: "snd (ims_xdb_tx_begin E (Some (x1\<lparr>conn := c2\<rparr>))) = Some x3"
      "xdb_of x3 = xdb_of x" "tx_of x3 = Some (xdb_of x)" using begin_reliable [of "x1\<lparr>conn := c2\<rparr>"] c2 by auto
    have gid: "signed_take_bit 31 (uint (word_of_int (signed_take_bit 31 i) :: u64)) = signed_take_bit 31 i"
      by (simp add: unsigned_of_int signed_take_bit_take_bit signed_take_bit_signed_take_bit)
    have "stmt_sql (new_stmt UPDATE_STAT) = xdb_sqls UPDATE_STAT" by (simp add: new_stmt_def)
    then obtain c4 where c4: "update_xdata E (conn x3) (new_stmt UPDATE_STAT) (signed_take_bit 31 i) (stat_updates op sb) = Some (SQLITE_DONE, c4)"
      "db c4 = put_ivals (signed_take_bit 31 i) (stat_updates op sb) (xdb_of x)" "tx c4 = Some (xdb_of x)"
      using update_xdata_reliable [of "new_stmt UPDATE_STAT" "conn x3" "signed_take_bit 31 i" "stat_updates op sb"] x3 by auto
    obtain z where z: "tx_end E 0 (Some (x3\<lparr>conn := c4, db_ret := SQLITE_DONE\<rparr>)) = Some z" "xdb_of z = db c4" "tx_of z = None"
      using commit_reliable [of "x3\<lparr>conn := c4, db_ret := SQLITE_DONE\<rparr>"] c4 by auto
    have run: "ims_xdb_update_stat E (Some x) (Some f) (Some sb) op = Some (0, z\<lparr>db_ret := SQLITE_DONE\<rparr>)"
      using x1(1) Some assms(3) c2(1) x3(1) c4(1) z(1) gid
      by (simp add: ims_xdb_update_stat_def Let_def op' tx_end_def del: if_split)
    show ?thesis
      using that [OF run] update_stat_abs [OF assms(1,2) Some op, of sb] z c4 by (simp add: refined_def)
  qed
qed

end

lemma new_rows_insertable:
  assumes "db_refs d" "i = next_rowid (map g_gid (xdb_xgfid d))"
  shows "\<exists>d3. insert_stat_rows 1 (stat_rows i sb) (add_file i p n (add_gfid g d)) = Some d3"
proof -
  have free: "(i, m) \<notin> xdata_key ` set (xdb_xdata (add_file i p n (add_gfid g d)))" for m
    using data_row_fresh [OF assms(1), of m] by (auto simp: assms(2) data_row_def find_None_iff)
  then have "\<forall>j < length (map int64_param (stat_fields sb)).
      (i, 1 + int j) \<notin> xdata_key ` set (xdb_xdata (add_file i p n (add_gfid g d)))" by blast
  from insert_stat_rows_same [OF this] show ?thesis by (auto simp: stat_rows_def comp_def)
qed

context reliable_engine
begin

lemma insert_gfid_reliable:
  assumes "xf_gfid f = Some g"
  obtains x' where "ims_xdb_insert_gfid E (Some x) (Some f) = Some (if g \<in> idx_gfids (xdb_of x) then -1 else 0, x')"
    "xdb_of x' = (if g \<in> idx_gfids (xdb_of x) then xdb_of x else add_gfid g (xdb_of x))" "tx_of x' = tx_of x"
proof -
  obtain rc row d where R: "sql_insert_gfid (Some g) (xdb_of x) = (rc, row, d)" by (metis prod_cases3)
  then have "run_stmt INSERT_GFID (put_args [(1, SText g)] (\<lambda>_. SNull)) (xdb_of x) = Some (rc, row, d)" by simp
  then obtain c where c: "stmt_exec E (conn x) INSERT_GFID (bind_all E [(1, SText g)]) = Some (if rc = SQLITE_DONE then 0 else -1, rc, c)"
    "db c = d" "tx c = tx_of x" by (rule stmt_exec_all_reliable)
  let ?r = "if rc = SQLITE_DONE then 0 else -1"
  show ?thesis
    using that [of "x\<lparr>conn := c, db_ret := ?r\<rparr>"] R c assms
    by (auto simp: ims_xdb_insert_gfid_def text_param_def sql_insert_gfid_spec split: if_splits)
qed

lemma bind_insert_file_reliable:
  assumes "xf_gfid f = Some g" "xf_path f = Some p" "name_substr_pos p = Some pos"
  shows "\<exists>st. bind_insert_file E f c1 (new_stmt INSERT_FILE) = Some (0, st) \<and> stmt_sql st = xdb_sqls INSERT_FILE \<and>
    stmt_args st = put_args [(1, SText g), (2, SText p), (3, SText p), (4, SInt pos)] (\<lambda>_. SNull)"
proof -
  let ?ps = "[(1, SText g), (2, SText p), (3, SText p)]"
  obtain st1 where b: "bind_params E c1 ?ps (new_stmt INSERT_FILE) = (0, st1)" using bind_params_reliable by blast
  have st1: "st1 = (new_stmt INSERT_FILE)\<lparr>stmt_args := put_args ?ps (\<lambda>_. SNull)\<rparr>"
    using bind_params_ok [OF b] by (simp add: new_stmt_def)
  show ?thesis using b st1 assms
    by (simp add: bind_insert_file_def text_param_def del: bind_params.simps)
      (simp add: bind_param_def bind_ok Let_def new_stmt_def)
qed

lemma insert_file_reliable:
  assumes "db_refs (xdb_of x)" "xf_gfid f = Some g" "xf_path f = Some p" "name_substr_pos p = Some pos"
    and "gid_of (xdb_of x) (Some g) = Some i"
  obtains x' where "ims_xdb_insert_file E (Some x) (Some f) = Some (if idx_path (xdb_of x) p = None then 0 else -1, x')"
    "xdb_of x' = (if idx_path (xdb_of x) p = None then add_file i p (base_name p) (xdb_of x) else xdb_of x)" "tx_of x' = tx_of x"
proof -
  obtain rc row d where R: "sql_insert_file (Some g) (Some p) (Some p) (Some pos) (xdb_of x) = (rc, row, d)" by (metis prod_cases3)
  have "\<exists>st. bind_insert_file E f c1 (new_stmt INSERT_FILE) = Some (0, st) \<and> stmt_sql st = xdb_sqls INSERT_FILE \<and>
      run_stmt INSERT_FILE (stmt_args st) (xdb_of x) = Some (rc, row, d)" for c1
    using bind_insert_file_reliable [OF assms(2-4), of c1] R by auto
  then obtain c where c: "stmt_exec E (conn x) INSERT_FILE (bind_insert_file E f) = Some (if rc = SQLITE_DONE then 0 else -1, rc, c)"
    "db c = d" "tx c = tx_of x" by (rule stmt_exec_reliable)
  show ?thesis
    using that [of "x\<lparr>conn := c, db_ret := rc\<rparr>"] R c assms
    by (auto simp: ims_xdb_insert_file_def sql_insert_file_spec split: if_splits)
qed

lemma bind_sattrs_reliable: "\<exists>st'. bind_sattrs E c fid i vs st = (0, st')"
proof (induction vs arbitrary: i st)
  case (Cons v vs)
  obtain st1 where "bind_params E c [(i + 1, int64_param fid), (i + 2, int64_param v)] st = (0, st1)"
    using bind_params_reliable by blast
  then have "bind_sattr E c fid i v st = (0, i + 2, st1)" by (simp add: bind_sattr_def)
  then show ?case using Cons by simp
qed simp

lemma insert_stat_reliable:
  assumes "xf_gfid f = Some g" "gid_of (xdb_of x) (Some g) = Some i"
    and "insert_stat_rows 1 (stat_rows (signed_take_bit 31 i) sb) (xdb_of x) = Some d3"
  obtains x' where "ims_xdb_insert_stat E (Some x) (Some f) (Some sb) = Some (0, x')" "xdb_of x' = d3" "tx_of x' = tx_of x"
proof -
  obtain c1 where c1: "sq_prepare E (conn x) (xdb_sqls INSERT_STAT) = (0, c1)" "db c1 = xdb_of x" "tx c1 = tx_of x"
    using prepare_reliable .
  obtain x2 where x2: "get_gid E (x\<lparr>conn := c1\<rparr>) f = Some (0, Some (word_of_int (signed_take_bit 31 i)), x2)"
    "xdb_of x2 = xdb_of x" "tx_of x2 = tx_of x"
    using get_gid_reliable [OF assms(1), of "x\<lparr>conn := c1\<rparr>"] c1 assms(2) by auto
  obtain st where b: "bind_stat E (conn x2) (word_of_int (signed_take_bit 31 i)) sb (new_stmt INSERT_STAT) = (0, st)"
    unfolding bind_stat_def using bind_sattrs_reliable by blast
  note rows = bind_stat_rows [OF b]
  have "sql_insert_stat (stat_rows (signed_take_bit 31 i) sb) (xdb_of x2) = (SQLITE_DONE, [], d3)"
    using assms(3) x2 by (simp add: sql_insert_stat_def)
  then have "run_stmt INSERT_STAT (stmt_args st) (xdb_of x2) = Some (SQLITE_DONE, [], d3)"
    using rows(2) by (simp only: run_stmt.simps)
  then obtain c4 where "step_busy E (conn x2) st = Some (SQLITE_DONE, [], c4)" "db c4 = d3" "tx c4 = tx_of x2"
    using step_busy_reliable [OF rows(1)] by blast
  then show ?thesis
    using that [of "x2\<lparr>conn := c4, db_ret := SQLITE_DONE\<rparr>"] c1 x2 b by (simp add: ims_xdb_insert_stat_def)
qed

lemma new_file_refined:
  assumes "db_ok (xdb_of x)" "gids_below (2 ^ 31 - 1) (xdb_of x)" "xf_gfid f = Some g" "xf_path f = Some p"
    and "name_substr_pos p = Some pos" "tx_of x = None"
  obtains ret x' where "ims_xdb_insert_new_file E (Some x) (Some f) (Some sb) = Some (ret, Some x')"
    "refined (ix_new_file g p sb) (xdb_of x) ret (xdb_of x')" "tx_of x' = None"
proof -
  let ?d = "xdb_of x"
  obtain x0 where x0: "snd (ims_xdb_tx_begin E (Some x)) = Some x0" "xdb_of x0 = ?d" "tx_of x0 = Some ?d"
    using begin_reliable [OF assms(6)] .
  obtain x1 where x1: "ims_xdb_insert_gfid E (Some x0) (Some f) = Some (if g \<in> idx_gfids ?d then -1 else 0, x1)"
    "xdb_of x1 = (if g \<in> idx_gfids ?d then ?d else add_gfid g ?d)" "tx_of x1 = Some ?d"
    using insert_gfid_reliable [OF assms(3), of x0] x0 by metis
  show ?thesis
  proof (cases "g \<in> idx_gfids ?d")
    case True
    obtain z where "tx_end E (-1) (Some x1) = Some z" "xdb_of z = ?d" "tx_of z = None"
      using rollback_reliable [of x1 ?d "-1"] x1 by auto
    then show ?thesis using that [of "-1" z] assms(1) x0 x1 True
      by (simp add: ims_xdb_insert_new_file_def refined_def ix_new_file_def abs_index_def)
  next
    case False
    have inv: "db_inv ?d" "db_refs ?d" using assms(1) by (simp_all add: db_ok_def)
    let ?i = "next_rowid (map g_gid (xdb_xgfid ?d))"
    have gid: "gid_of (add_gfid g ?d) (Some g) = Some ?i" using False by (simp add: gid_of_add_gfid)
    have d1: "xdb_of x1 = add_gfid g ?d" using x1(2) False by simp
    have path: "idx_path (add_gfid g ?d) p = idx_path ?d p" by (rule path_add_gfid [OF inv(2)])
    have "db_refs (xdb_of x1)" "gid_of (xdb_of x1) (Some g) = Some ?i" using refs_add_gfid [OF inv(2)] gid by (simp_all add: d1)
    then obtain x2 where x2:
      "ims_xdb_insert_file E (Some x1) (Some f) = Some (if idx_path (xdb_of x1) p = None then 0 else -1, x2)"
      "xdb_of x2 = (if idx_path (xdb_of x1) p = None then add_file ?i p (base_name p) (xdb_of x1) else xdb_of x1)" "tx_of x2 = tx_of x1"
      using insert_file_reliable [OF _ assms(3,4,5)] by blast
    note x2 = x2 [unfolded d1 path x1(3)]
    show ?thesis
    proof (cases "idx_path ?d p = None")
      case free: False
      obtain z where "tx_end E (-1) (Some x2) = Some z" "xdb_of z = ?d" "tx_of z = None"
        using rollback_reliable [of x2 ?d "-1"] x2 by auto
      then show ?thesis using that [of "-1" z] assms(1) x0 x1 x2 False free
        by (auto simp: ims_xdb_insert_new_file_def refined_def ix_new_file_def abs_index_def)
    next
      case free: True
      have below: "gids_below (2 ^ 31) (add_gfid g ?d)" using gids_below_add [OF assms(2), of g] by simp
      have "db_inv (add_gfid g ?d)" using inv False by (intro inv_add_gfid) (auto simp: idx_gfids_def)
      from gid_in_range [OF this below gid] have tr: "signed_take_bit 31 ?i = ?i" .
      obtain d3 where d3: "insert_stat_rows 1 (stat_rows ?i sb) (xdb_of x2) = Some d3"
        using new_rows_insertable [OF inv(2) refl, of sb p "base_name p" g] x2 free by auto
      have "gid_of (xdb_of x2) (Some g) = Some ?i" using x2 free gid by simp
      then obtain x3 where x3: "ims_xdb_insert_stat E (Some x2) (Some f) (Some sb) = Some (0, x3)" "xdb_of x3 = d3" "tx_of x3 = Some ?d"
        using insert_stat_reliable [OF assms(3), of x2 ?i sb d3] d3 x2 by (auto simp: tr)
      obtain z where z: "tx_end E 0 (Some x3) = Some z" "xdb_of z = d3" "tx_of z = None"
        using commit_reliable [of x3] x3 by auto
      have run: "ims_xdb_insert_new_file E (Some x) (Some f) (Some sb) = Some (0, Some z)"
        using x0 x1 x2 x3 z False free by (simp add: ims_xdb_insert_new_file_def)
      have "p \<notin> f_path ` set (xdb_xfile ?d)" using free path_free [OF inv(2)] by simp
      from new_file_abs [OF assms(1) False this gid assms(2), of sb d3] show ?thesis
        using that [OF run] z d3 x2 free by (simp add: refined_def tr)
    qed
  qed
qed

end

text \<open>The reference engine with its fault script switched off.\<close>

definition plain_engine :: "ref_conn sqlite3" where
  "plain_engine = ref_engine\<lparr>sq_exec := plain_exec, sq_step := ref_run\<rparr>"

lemma plain_engine_simps [simp]:
  "sq_exec plain_engine = plain_exec" "sq_prepare plain_engine c sql = (SQLITE_OK, c)"
  "sq_bind plain_engine c st i v = SQLITE_OK" "sq_step plain_engine = ref_run"
  by (simp_all add: plain_engine_def ref_engine_def)

interpretation plain_sqlite: reliable_engine plain_engine rc_db rc_tx
proof
  fix c :: ref_conn and st :: sqlite3_stmt and q rc0 row0 d0
  assume st: "stmt_sql st = xdb_sqls q" "run_stmt q (stmt_args st) (rc_db c) = Some (rc0, row0, d0)"
  show "\<exists>c'. sq_step plain_engine c st = (rc0, row0, c') \<and> rc_db c' = d0 \<and> rc_tx c' = rc_tx c"
    using ref_run_named [OF st] by simp
  fix rc row c'
  assume "sq_step plain_engine c st = (rc, row, c')"
  then show "rc = rc0 \<and> row = row0 \<and> rc_db c' = d0 \<and> rc_tx c' = rc_tx c \<or>
      rc \<notin> {SQLITE_ROW, SQLITE_DONE} \<and> rc_db c' = rc_db c \<and> rc_tx c' = rc_tx c \<or>
      rc \<notin> {SQLITE_ROW, SQLITE_DONE, SQLITE_BUSY} \<and> rc_tx c = Some (rc_db c') \<and> rc_tx c' = None"
    using ref_run_named [OF st] by auto
qed (use tx_sqls_distinct in \<open>auto simp: plain_exec_def begins_def commits_def rolls_back_def split: if_splits option.splits\<close>)

end
