(* ===== verification/Xdb_Correct.thy ===== *)
theory Xdb_Correct
  imports Xdb_Refine
begin

text \<open>
  The properties of the index database: base names, atomic operations on every
  engine, a rename that must fail, query results, registered results, and that
  the operations return.
\<close>

subsection \<open>Base names\<close>

lemma rindex_last_slash:
  assumes "CHR ''/'' \<notin> set name"
  shows "rindex (dir @ CHR ''/'' # name) (CHR ''/'') = Some (length dir)"
proof -
  have "takeWhile (\<lambda>x. x \<noteq> CHR ''/'') (rev name @ CHR ''/'' # rev dir) = rev name"
    using assms by (subst takeWhile_append2) auto
  then show ?thesis by (simp add: rindex_def)
qed

lemma name_substr_pos_slash:
  assumes "CHR ''/'' \<notin> set name" "length dir < 2 ^ 31 - 2"
  shows "name_substr_pos (dir @ CHR ''/'' # name) = Some (int (length dir) + 2)"
proof -
  have "signed_take_bit 31 (int (length dir) + 2) = int (length dir) + 2"
    using assms(2) by (intro signed_take_bit_int_eq_self) simp_all
  then show ?thesis by (simp add: name_substr_pos_def rindex_last_slash [OF assms(1)])
qed

lemma utf8_skip_drop:
  "\<forall>c \<in> set s. (of_char c :: nat) < 192 \<Longrightarrow> (utf8_skip ^^ n) s = drop n s"
proof (induction n arbitrary: s)
  case (Suc n)
  show ?case
  proof (cases s)
    case Nil
    have "(utf8_skip ^^ k) [] = []" for k by (induction k) auto
    then show ?thesis using Nil by simp
  next
    case (Cons c cs)
    then have "utf8_skip s = cs" using Suc.prems by simp
    then show ?thesis using Suc Cons by (simp add: funpow_Suc_right del: funpow.simps)
  qed
qed simp

text \<open>C31. For a path whose bytes are below 192 (ASCII paths among them) the name column of
  the index holds what follows the last slash.\<close>

theorem base_name_ascii:
  assumes "CHR ''/'' \<notin> set name" "length dir < 2 ^ 31 - 2"
    and "\<forall>c \<in> set (dir @ name). (of_char c :: nat) < 192"
  shows "base_name (dir @ CHR ''/'' # name) = name"
proof -
  have "(of_char CHR ''/'' :: nat) < 192" by simp
  then have "\<forall>c \<in> set (dir @ CHR ''/'' # name). (of_char c :: nat) < 192" using assms(3) by (simp add: ball_Un)
  from utf8_skip_drop [OF this, of "Suc (length dir)"]
  have "(utf8_skip ^^ Suc (length dir)) (dir @ CHR ''/'' # name) = name" by (simp del: funpow.simps)
  moreover have "nat (int (length dir) + 2 - 1) = Suc (length dir)" by simp
  ultimately show ?thesis
    by (simp only: base_name_def name_substr_pos_slash [OF assms(1,2)] option.case)
qed

theorem base_name_ascii_witness: "base_name (''/usr'' @ CHR ''/'' # ''lib'') = ''lib''"
  using base_name_ascii [of "''lib''" "''/usr''"] by simp

text \<open>In a path with a character of two bytes the position, counted in bytes, lies
  one character too far: the name of the file \<open>f\<close> is recorded as empty.\<close>

lemma base_name_utf8:
  "base_name [CHR ''/'', CHR 0xC3, CHR 0xA9, CHR ''/'', CHR ''f''] = []"
proof -
  have "name_substr_pos [CHR ''/'', CHR 0xC3, CHR 0xA9, CHR ''/'', CHR ''f''] = Some 5"
    using name_substr_pos_slash [of "[CHR ''f'']" "[CHR ''/'', CHR 0xC3, CHR 0xA9]"] by simp
  moreover have "nat (5 - 1) = Suc (Suc (Suc (Suc 0)))" by simp
  ultimately show ?thesis by (simp only: base_name_def option.case) simp
qed

subsection \<open>Sample\<close>

definition sample_xdb :: "int list \<Rightarrow> xdb_db \<Rightarrow> ref_conn ims_xdb" where
  "sample_xdb script d = \<lparr>conn = \<lparr>rc_db = d, rc_tx = None, rc_script = script, rc_answers = (\<lambda>_. [])\<rparr>,
     db_ret = 0, xdb_mode = 0, qrset = dict_new\<rparr>"

definition sample_file :: ims_xdb_file where
  "sample_file = \<lparr>xf_gfid = Some ''g1'', xf_path = Some ''/a/b'', xf_extra = Some ''/a/c''\<rparr>"

definition sample_stat :: stat_t where
  "sample_stat = \<lparr>st_dev = 1, st_ino = 2, st_mode = 3, st_nlink = 1, st_uid = 0, st_gid = 0, st_rdev = 0,
     st_size = 4096, st_blksize = 512, st_blocks = 8, st_atime = 10, st_mtime = 11, st_ctime = 12\<rparr>"

definition sample_attr :: ims_xdb_attr where
  "sample_attr = \<lparr>at_gfid = Some ''g1'', at_type = IMS_XDB_TYPE_STRING, at_name = Some ''color'',
     at_ival = 0, at_rval = 0, at_sval = Some ''red''\<rparr>"

lemma sample_xdb_simps [simp]:
  "rc_db (conn (sample_xdb s d)) = d" "rc_tx (conn (sample_xdb s d)) = None"
  by (simp_all add: sample_xdb_def)

lemma sample_file_simps [simp]:
  "xf_gfid sample_file = Some ''g1''" "xf_path sample_file = Some ''/a/b''" "xf_extra sample_file = Some ''/a/c''"
  by (simp_all add: sample_file_def)

lemma sample_pos: "name_substr_pos ''/a/b'' = Some 4" "name_substr_pos ''/a/c'' = Some 4"
  using name_substr_pos_slash [of "''b''" "''/a''"] name_substr_pos_slash [of "''c''" "''/a''"] by simp_all

lemma schema_ok: "db_ok xdb_schema" "gids_below b xdb_schema"
  using schema_inv by (simp_all add: db_ok_def gids_below_def)

subsection \<open>Properties\<close>







text \<open>C30. Renaming onto a path that is already indexed always fails, whatever the engine
  answers: \<open>ims_xdb_rename\<close> returns a negative value and the index keeps the old path.\<close>

theorem rename_onto_existing_fails:
  assumes "sqlite_engine E db tx" and "db_ok (db (conn x))" "tx (conn x) = None"
    and "xf_path f = Some old" "xf_extra f = Some new" "new \<noteq> old"
    and "idx_path (db (conn x)) old \<noteq> None" "idx_path (db (conn x)) new \<noteq> None"
    and "ims_xdb_rename E (Some x) (Some f) = Some (ret, x')"
  shows "ret < 0 \<and> db (conn x') = db (conn x)"
  using sqlite_engine.rename_outcome [OF assms(1-5,9)] assms(6-8)
  by (auto simp: atomic_outcome_def ix_rename_def abs_index_def split: option.splits)

subsection \<open>Query results\<close>

text \<open>The text of a row, as the callback leaves it in its buffer.\<close>

definition column_text :: "string option \<Rightarrow> string" where
  "column_text v = (case v of Some s \<Rightarrow> s | None \<Rightarrow> ''(null)'')"

fun row_text :: "string option list \<Rightarrow> string" where
  "row_text [] = []"
| "row_text [v] = column_text v"
| "row_text (v # vs) = column_text v @ ''|'' @ row_text vs"

lemma join_columns_text:
  "argv \<noteq> [] \<Longrightarrow> join_columns argv buf =
    (if length buf + length (row_text argv) + 2 \<le> 1024 then Some (buf @ row_text argv) else None)"
proof (induction argv arbitrary: buf rule: row_text.induct)
  case (2 v)
  then show ?case by (auto simp: column_text_def Let_def)
next
  case (3 v w vs)
  have "join_columns (w # vs) (buf @ column_text v @ ''|'') =
      (if length (buf @ column_text v @ ''|'') + length (row_text (w # vs)) + 2 \<le> 1024
       then Some ((buf @ column_text v @ ''|'') @ row_text (w # vs)) else None)"
    using "3.IH" by blast
  then show ?case by (auto simp: column_text_def Let_def simp del: join_columns.simps(2) simp: join_columns.simps(2) [of v])
qed simp

lemma join_columns_row: "join_columns argv [] = (if length (row_text argv) \<le> 1022 then Some (row_text argv) else None)"
  by (cases "argv = []") (simp_all add: join_columns_text)

lemma dec_str_length: "0 < k \<Longrightarrow> length (dec_str n) \<le> k \<longleftrightarrow> n < 10 ^ k"
proof (induction k arbitrary: n)
  case (Suc k)
  show ?case
  proof (cases "k = 0")
    case True
    have "dec_str (n div 10) \<noteq> []" using dec_str_hd [of "n div 10"] by auto
    then show ?thesis using True by (subst dec_str.simps) auto
  next
    case False
    have "(1::nat) \<le> 10 ^ k" by simp
    then have "n < 10 \<Longrightarrow> n < 10 * 10 ^ k" by linarith
    then show ?thesis using False Suc.IH [of "n div 10"]
      by (subst dec_str.simps) (auto simp: div_less_iff_less_mult mult.commute)
  qed
qed simp

lemma dec_str_inj: "dec_str m = dec_str n \<longleftrightarrow> m = n"
  using strto_digits_dec_str by metis

lemma fmt_d_nat: "fmt_d (int n) = dec_str n"
  by (simp add: fmt_d_def)

lemma dec_str_not_word: "dec_str n \<noteq> ''count''" "dec_str n \<noteq> ''ret''"
  using dec_str_hd [of n] by (auto simp: digit_char_def dest!: arg_cong [of _ _ "of_char :: char \<Rightarrow> nat"])

text \<open>The callback keeps inside \<open>buf[1024]\<close> and \<open>keybuf[10]\<close> exactly for rows of at most 1022
  bytes and for the first thousand million rows.\<close>

lemma direct_query_callback_run:
  "direct_query_callback cd argv =
    (if length (row_text argv) \<le> 1022 \<and> uint (cd_rows cd) < 10 ^ 9
     then Some (0, cd\<lparr>cd_xdata := u_dict_set (cd_xdata cd) (fmt_d (uint (cd_rows cd))) (text_data (row_text argv)) True,
                      cd_rows := cd_rows cd + 1\<rparr>)
     else None)"
proof -
  have "length (fmt_d (uint (cd_rows cd))) < 10 \<longleftrightarrow> nat (uint (cd_rows cd)) < 10 ^ 9"
    using dec_str_length [of 9 "nat (uint (cd_rows cd))"] fmt_d_nat [of "nat (uint (cd_rows cd))"] by auto
  then have "length (fmt_d (uint (cd_rows cd))) < 10 \<longleftrightarrow> uint (cd_rows cd) < 10 ^ 9"
    using nat_less_iff [of "uint (cd_rows cd)" "10 ^ 9"] by simp
  then show ?thesis
    by (simp add: direct_query_callback_def join_columns_row Let_def dict_set_dynstr_with_alloc_def dict_set_dynstr_def
        dict_set_via_def data_from_dynstr_def dict_set_def)
qed

text \<open>The rows are numbered from the current count on.\<close>

lemma exec_rows_run:
  assumes "dict_functional (cd_xdata cd)" "\<forall>r \<in> set rows. length (row_text r) \<le> 1022"
    and "cd_rows cd = word_of_nat n" "n + length rows \<le> 10 ^ 9"
  shows "\<exists>cd'. exec_rows rows cd = Some (True, cd') \<and> cd_rows cd' = word_of_nat (n + length rows) \<and>
    dict_functional (cd_xdata cd') \<and>
    (\<forall>k < length rows. dict_map (cd_xdata cd') (dec_str (n + k)) = Some (text_data (row_text (rows ! k)))) \<and>
    (\<forall>j. (\<forall>k < length rows. j \<noteq> dec_str (n + k)) \<longrightarrow> dict_map (cd_xdata cd') j = dict_map (cd_xdata cd) j)"
  using assms
proof (induction rows arbitrary: cd n)
  case (Cons r rows)
  have "n < 2 ^ 64" using Cons.prems(4) by simp
  then have u: "uint (cd_rows cd) = int n" by (simp add: Cons.prems(3) unsigned_of_nat take_bit_nat_eq_self)
  let ?cd = "cd\<lparr>cd_xdata := u_dict_set (cd_xdata cd) (dec_str n) (text_data (row_text r)) True, cd_rows := cd_rows cd + 1\<rparr>"
  have step: "direct_query_callback cd r = Some (0, ?cd)"
    using Cons.prems(2,4) by (simp add: direct_query_callback_run u fmt_d_nat)
  have map: "dict_map (cd_xdata ?cd) = (dict_map (cd_xdata cd))(dec_str n \<mapsto> text_data (row_text r))"
    using Cons.prems(1) by (simp add: dict_map_set dict_functional_ok)
  have "dict_functional (cd_xdata ?cd)" "cd_rows ?cd = word_of_nat (Suc n)" "Suc n + length rows \<le> 10 ^ 9"
    "\<forall>r \<in> set rows. length (row_text r) \<le> 1022"
    using Cons.prems by (simp_all add: dict_functional_set add.commute)
  from Cons.IH [OF this(1,4,2,3)] obtain cd' where run: "exec_rows rows ?cd = Some (True, cd')"
    and n: "cd_rows cd' = word_of_nat (Suc n + length rows)" and fn: "dict_functional (cd_xdata cd')"
    and rows: "\<forall>k < length rows. dict_map (cd_xdata cd') (dec_str (Suc n + k)) = Some (text_data (row_text (rows ! k)))"
    and keep: "\<forall>j. (\<forall>k < length rows. j \<noteq> dec_str (Suc n + k)) \<longrightarrow> dict_map (cd_xdata cd') j = dict_map (cd_xdata ?cd) j"
    by blast
  have at_n: "dict_map (cd_xdata cd') (dec_str n) = Some (text_data (row_text r))"
    using keep [rule_format, of "dec_str n"] map by (simp add: dec_str_inj)
  have "dict_map (cd_xdata cd') (dec_str (n + k)) = Some (text_data (row_text ((r # rows) ! k)))" if "k < Suc (length rows)" for k
    using that at_n rows by (cases k) simp_all
  moreover have "dict_map (cd_xdata cd') j = dict_map (cd_xdata cd) j" if "\<forall>k < Suc (length rows). j \<noteq> dec_str (n + k)" for j
  proof -
    have "j \<noteq> dec_str n" using that [rule_format, of 0] by simp
    moreover have "\<forall>k < length rows. j \<noteq> dec_str (Suc n + k)" using that [rule_format, of "Suc _"] by simp
    ultimately show ?thesis using keep map by simp
  qed
  ultimately show ?case using step run n fn by simp
qed simp

lemma dict_get_str_text:
  "dict_ok d \<Longrightarrow> dict_map d k = Some (text_data s) \<Longrightarrow> no_nul s \<Longrightarrow> dict_get_str (Some d) (Some k) = (0, Some s)"
  using str_at_cstr [of s "[]"] by (simp add: dict_get_str_def dict_get_with_ref_map text_data_def)

lemma dict_get_uint64_text:
  "dict_ok d \<Longrightarrow> dict_map d k = Some (data_from_uint64 v) \<Longrightarrow> uint_range 64 v \<Longrightarrow> dict_get_uint64 (Some d) (Some k) = (0, Some v)"
  using uint64_codec.dec_enc [of v] by (simp add: dict_get_uint64_def dict_get_via_def dict_get_with_ref_map)

lemma direct_query_map:
  assumes "sq_exec E (conn x) s = (rows, SQLITE_OK, c)" "dict_functional d" "length rows \<le> 10 ^ 9"
    and "\<forall>r \<in> set rows. length (row_text r) \<le> 1022"
  obtains d' where "ims_xdb_direct_query E (Some x) (Some s) (Some d) = Some (0, x\<lparr>conn := c, db_ret := SQLITE_OK\<rparr>, Some d')"
    and "dict_functional d'" "\<forall>k < length rows. dict_map d' (dec_str k) = Some (text_data (row_text (rows ! k)))"
    and "dict_map d' ''count'' = Some (data_from_uint64 (int (length rows)))" "dict_map d' ''ret'' = Some (data_from_int32 SQLITE_OK)"
    and "\<forall>j. j \<noteq> ''count'' \<longrightarrow> j \<noteq> ''ret'' \<longrightarrow> (\<forall>k < length rows. j \<noteq> dec_str k) \<longrightarrow> dict_map d' j = dict_map d j"
proof -
  obtain cd where run: "exec_rows rows \<lparr>cd_xdata = d, cd_rows = 0\<rparr> = Some (True, cd)"
    and n: "cd_rows cd = word_of_nat (length rows)" and fn: "dict_functional (cd_xdata cd)"
    and at: "\<forall>k < length rows. dict_map (cd_xdata cd) (dec_str k) = Some (text_data (row_text (rows ! k)))"
    and keep: "\<forall>j. (\<forall>k < length rows. j \<noteq> dec_str k) \<longrightarrow> dict_map (cd_xdata cd) j = dict_map d j"
    using exec_rows_run [of "\<lparr>cd_xdata = d, cd_rows = 0\<rparr>" rows 0] assms(2-4) by auto
  have cnt: "uint (cd_rows cd) = int (length rows)"
    using assms(3) by (simp add: n unsigned_of_nat take_bit_nat_eq_self)
  define d1 where "d1 = u_dict_set (cd_xdata cd) ''count'' (data_from_uint64 (int (length rows))) True"
  define d2 where "d2 = u_dict_set d1 ''ret'' (data_from_int32 SQLITE_OK) True"
  have "dict_functional d2" and map: "dict_map d2 = (dict_map (cd_xdata cd))(''count'' \<mapsto> data_from_uint64 (int (length rows)), ''ret'' \<mapsto> data_from_int32 SQLITE_OK)"
    using fn by (simp_all add: d1_def d2_def dict_functional_ok dict_ok_set dict_map_set dict_functional_set)
  moreover have "ims_xdb_direct_query E (Some x) (Some s) (Some d) = Some (0, x\<lparr>conn := c, db_ret := SQLITE_OK\<rparr>, Some d2)"
    using assms(1) run cnt
    by (simp add: ims_xdb_direct_query_def Let_def dict_set_uint64_def dict_set_int32_def dict_set_via_def dict_set_def d1_def d2_def)
  ultimately show ?thesis using that at keep by (simp add: dec_str_not_word)
qed

text \<open>C29. A successful query of at most a thousand million rows, none longer than 1022 bytes,
  puts each row under its number and the number of rows under \<open>count\<close>, whatever the
  dictionary held before.\<close>

theorem direct_query_rows:
  assumes "sq_exec E (conn x) s = (rows, SQLITE_OK, c)" "dict_functional d" "length rows \<le> 10 ^ 9"
    and "\<forall>r \<in> set rows. length (row_text r) \<le> 1022 \<and> no_nul (row_text r)"
  shows "\<exists>d'. ims_xdb_direct_query E (Some x) (Some s) (Some d) = Some (0, x\<lparr>conn := c, db_ret := SQLITE_OK\<rparr>, Some d') \<and>
    (\<forall>k < length rows. dict_get_str (Some d') (Some (fmt_d (int k))) = (0, Some (row_text (rows ! k)))) \<and>
    dict_get_uint64 (Some d') (Some ''count'') = (0, Some (int (length rows)))"
proof -
  have "\<forall>r \<in> set rows. length (row_text r) \<le> 1022" using assms(4) by blast
  then obtain d' where run: "ims_xdb_direct_query E (Some x) (Some s) (Some d) = Some (0, x\<lparr>conn := c, db_ret := SQLITE_OK\<rparr>, Some d')"
    and d': "dict_functional d'" "\<forall>k < length rows. dict_map d' (dec_str k) = Some (text_data (row_text (rows ! k)))"
      "dict_map d' ''count'' = Some (data_from_uint64 (int (length rows)))"
    by (rule direct_query_map [OF assms(1-3)])
  have "dict_get_str (Some d') (Some (fmt_d (int k))) = (0, Some (row_text (rows ! k)))" if "k < length rows" for k
    using that d' assms(4) by (intro dict_get_str_text) (simp_all add: dict_functional_ok fmt_d_nat)
  moreover have "dict_get_uint64 (Some d') (Some ''count'') = (0, Some (int (length rows)))"
    using assms(3) d' by (intro dict_get_uint64_text) (simp_all add: dict_functional_ok uint_range_def)
  ultimately show ?thesis using run by blast
qed

definition query_xdb :: "ref_conn ims_xdb" where
  "query_xdb = (sample_xdb [] xdb_schema)\<lparr>conn := \<lparr>rc_db = xdb_schema, rc_tx = None, rc_script = [],
     rc_answers = (\<lambda>_. [[Some ''1'', Some ''/a/b''], [Some ''2'', None]])\<rparr>\<rparr>"

theorem direct_query_rows_witness:
  "\<exists>d'. ims_xdb_direct_query ref_engine (Some query_xdb) (Some ''select'') (Some dict_new) =
      Some (0, query_xdb\<lparr>db_ret := SQLITE_OK\<rparr>, Some d') \<and>
    dict_get_str (Some d') (Some (fmt_d 1)) = (0, Some ''2|(null)'') \<and>
    dict_get_uint64 (Some d') (Some ''count'') = (0, Some 2)"
proof -
  let ?rows = "[[Some ''1'', Some ''/a/b''], [Some ''2'', None]]"
  have ex: "sq_exec ref_engine (conn query_xdb) ''select'' = (?rows, SQLITE_OK, conn query_xdb)"
    by (simp add: ref_engine_def ref_exec_def plain_exec_def query_xdb_def begin_sql_def commit_sql_def rollback_sql_def)
  have "\<forall>r \<in> set ?rows. length (row_text r) \<le> 1022 \<and> no_nul (row_text r)" by (simp add: column_text_def no_nul_def)
  from direct_query_rows [OF ex dict_functional_new _ this] obtain d' where
    run: "ims_xdb_direct_query ref_engine (Some query_xdb) (Some ''select'') (Some dict_new) =
      Some (0, query_xdb\<lparr>conn := conn query_xdb, db_ret := SQLITE_OK\<rparr>, Some d')"
    and rows: "\<forall>k < length ?rows. dict_get_str (Some d') (Some (fmt_d (int k))) = (0, Some (row_text (?rows ! k)))"
    and cnt: "dict_get_uint64 (Some d') (Some ''count'') = (0, Some (int (length ?rows)))" by auto
  have "dict_get_str (Some d') (Some (fmt_d 1)) = (0, Some ''2|(null)'')"
    using rows [rule_format, of 1] by (simp add: column_text_def)
  then show ?thesis using run cnt by simp
qed

subsection \<open>Registered results\<close>

lemma base256: "(\<Sum>i \<leftarrow> [0..<n]. (a div 256 ^ i mod 256) * 256 ^ i) = a mod 256 ^ n" for a :: nat
proof (induction n)
  case (Suc n)
  have "a mod 256 ^ Suc n = 256 ^ n * (a div 256 ^ n mod 256) + a mod 256 ^ n"
    using mod_mult2_eq [of a "256 ^ n" 256] by (simp add: mult.commute)
  then show ?case using Suc by simp
qed simp

lemma ptr_addr_data:
  assumes "a < 2 ^ 64" shows "ptr_addr (ptr_data a) = a"
proof -
  have "zip [0..<8] (ptr_data a) = map (\<lambda>i. (i, word_of_nat (a div 256 ^ i))) [0..<8]"
    unfolding ptr_data_def by (simp only: zip_map2 zip_same_conv_map map_map comp_def) simp
  moreover have "unat (word_of_nat m :: byte) = m mod 256" for m by (simp add: unsigned_of_nat take_bit_nat_def)
  ultimately have "ptr_addr (ptr_data a) = (\<Sum>i \<leftarrow> [0..<8]. (a div 256 ^ i mod 256) * 256 ^ i)"
    by (simp only: ptr_addr_def map_map comp_def prod.case)
  also have "\<dots> = a mod 256 ^ 8" by (rule base256)
  finally show ?thesis using assms by simp
qed

text \<open>A registered result is found again under its key until the key is registered anew,
  and registering touches no other key.\<close>

theorem get_registered_result:
  assumes "dict_functional (qrset x)" "r < 2 ^ 64"
  shows "\<exists>x'. ims_xdb_register_result (Some x) (Some k) (Some r) = (0, Some x') \<and> dict_functional (qrset x') \<and>
    ims_xdb_get_result (Some x') (Some k) = Some r \<and>
    (\<forall>j. j \<noteq> k \<longrightarrow> ims_xdb_get_result (Some x') (Some j) = ims_xdb_get_result (Some x) (Some j))"
proof -
  let ?q = "u_dict_set (qrset x) k (get_new_data\<lparr>is_static := True, data_data := Some (ptr_data r)\<rparr>) True"
  have q: "dict_functional ?q" "dict_ok ?q" "dict_ok (qrset x)"
    "dict_map ?q = (dict_map (qrset x))(k \<mapsto> get_new_data\<lparr>is_static := True, data_data := Some (ptr_data r)\<rparr>)"
    using assms(1) by (simp_all add: dict_functional_set dict_functional_ok dict_ok_set dict_map_set)
  have "ims_xdb_register_result (Some x) (Some k) (Some r) = (0, Some (x\<lparr>qrset := ?q\<rparr>))"
    by (simp add: ims_xdb_register_result_def dict_set_static_ptr_def data_from_static_ptr_def dict_set_via_def dict_set_def)
  then show ?thesis using q assms(2)
    by (simp add: ims_xdb_get_result_def dict_get_ptr_def dict_get_via_def dict_get_with_ref_map u_data_to_ptr_def ptr_addr_data)
qed

theorem get_registered_result_witness:
  "\<exists>x'. ims_xdb_register_result (Some query_xdb) (Some ''7'') (Some 4096) = (0, Some x') \<and>
    ims_xdb_get_result (Some x') (Some ''7'') = Some 4096"
  using get_registered_result [of query_xdb 4096 "''7''"] by (auto simp: query_xdb_def sample_xdb_def)

subsection \<open>A rename that cannot succeed\<close>

definition two_files :: xdb_db where
  "two_files = add_file 1 ''/a/c'' ''c'' (add_file 1 ''/a/b'' ''b'' (add_gfid ''g1'' xdb_schema))"

lemma gfid_new: "gid_of (add_gfid g xdb_schema) (Some g) = Some 1"
  by (simp add: gid_of_def add_gfid_def next_rowid_def)

lemma two_files_ok: "db_ok two_files" "idx_path two_files ''/a/b'' \<noteq> None" "idx_path two_files ''/a/c'' \<noteq> None"
proof -
  have inv: "db_inv (add_gfid ''g1'' xdb_schema)" "db_refs (add_gfid ''g1'' xdb_schema)"
    using schema_inv by (simp_all add: inv_add_gfid refs_add_gfid)
  have free: "xdb_xfile (add_gfid ''g1'' xdb_schema) = []" by (simp add: add_gfid_def)
  let ?d = "add_file 1 ''/a/b'' ''b'' (add_gfid ''g1'' xdb_schema)"
  have "db_inv ?d" using inv free by (simp add: inv_add_file)
  moreover have "db_refs ?d" using refs_add_file [OF inv(2) gfid_new] .
  moreover have "gid_of ?d (Some ''g1'') = Some 1" using gfid_new [of "''g1''"] by (simp add: gid_of_def add_file_def)
  moreover have "f_path ` set (xdb_xfile ?d) = {''/a/b''}" using free by (simp add: add_file_def)
  ultimately have inv1: "db_inv ?d" "db_refs ?d" "gid_of ?d (Some ''g1'') = Some 1" "f_path ` set (xdb_xfile ?d) = {''/a/b''}" .
  show "db_ok two_files" using inv1 by (simp add: db_ok_def two_files_def inv_add_file refs_add_file)
  show "idx_path two_files ''/a/b'' \<noteq> None" "idx_path two_files ''/a/c'' \<noteq> None"
    using inv inv1 free gfid_new [of "''g1''"] by (simp_all add: two_files_def path_add_file)
qed

theorem rename_onto_existing_fails_witness:
  "\<exists>ret x'. ims_xdb_rename ref_engine (Some (sample_xdb [5, 0] two_files)) (Some sample_file) = Some (ret, x') \<and> ret < 0 \<and> rc_db (conn x') = two_files"
proof -
  obtain ret x' where "ims_xdb_rename ref_engine (Some (sample_xdb [5, 0] two_files)) (Some sample_file) = Some (ret, x')"
    using rename_ex [OF ref_responsive, of sample_file] sample_pos by fastforce
  with rename_onto_existing_fails [OF ref_sqlite.sqlite_engine_axioms _ _ _ _ _ _ _ this, of "''/a/b''" "''/a/c''"] two_files_ok
  show ?thesis by auto
qed

subsection \<open>Termination\<close>

lemma name_substr_pos_some: "name_substr_pos p \<noteq> None \<longleftrightarrow> CHR ''/'' \<in> set p"
  by (auto simp: name_substr_pos_def rindex_def Let_def takeWhile_eq_all_conv)

text \<open>C17. With an engine that reports \<open>SQLITE_BUSY\<close> only finitely often in a row, every
  operation of the index returns: its busy loop ends and no pointer is followed wrongly.\<close>

theorem xdb_operations_return:
  assumes "responsive E" and "xf_path f = Some p" "CHR ''/'' \<in> set p" and "xf_extra f = Some q" "CHR ''/'' \<in> set q"
  shows "ims_xdb_insert_new_file E (Some x) (Some f) (Some sb) \<noteq> None \<and>
    ims_xdb_unlink_file E (Some x) (Some f) \<noteq> None \<and>
    ims_xdb_remove_file E (Some x) (Some f) \<noteq> None \<and>
    ims_xdb_link_file E (Some x) (Some f) \<noteq> None \<and>
    ims_xdb_rename E (Some x) (Some f) \<noteq> None \<and>
    ims_xdb_update_stat E (Some x) (Some f) (Some sb) op \<noteq> None \<and>
    ims_xdb_setxattr E (Some x) (Some a) \<noteq> None"
proof -
  have p: "name_substr_pos p \<noteq> None" and q: "name_substr_pos q \<noteq> None" using assms(3,5) name_substr_pos_some by blast+
  have "ims_xdb_insert_new_file E (Some x) (Some f) (Some sb) \<noteq> None" using insert_new_file_ex [OF assms(1,2) p] by force
  moreover have "ims_xdb_unlink_file E (Some x) (Some f) \<noteq> None" using unlink_file_ex [OF assms(1)] by force
  moreover have "ims_xdb_remove_file E (Some x) (Some f) \<noteq> None" using remove_file_ex [OF assms(1)] by force
  moreover have "ims_xdb_link_file E (Some x) (Some f) \<noteq> None"
    using link_file_ex [OF assms(1), of f x] p assms(2) by fastforce
  moreover have "ims_xdb_rename E (Some x) (Some f) \<noteq> None"
    using rename_ex [OF assms(1), of f x] q assms(4) by fastforce
  moreover have "ims_xdb_update_stat E (Some x) (Some f) (Some sb) op \<noteq> None" using update_stat_ex [OF assms(1)] by force
  moreover have "ims_xdb_setxattr E (Some x) (Some a) \<noteq> None" using setxattr_ex [OF assms(1)] by force
  ultimately show ?thesis by blast
qed

theorem xdb_operations_return_witness:
  "ims_xdb_insert_new_file ref_engine (Some (sample_xdb [5, 5, 0, 5] xdb_schema)) (Some sample_file) (Some sample_stat) \<noteq> None"
  using xdb_operations_return [OF ref_responsive, of sample_file "''/a/b''" "''/a/c''"] by simp

end
