(* ===== verification/List_Head.thy ===== *)
theory List_Head
  imports Prelude
begin

text \<open>
  The intrusive doubly linked lists of \<open>libglusterfs/src/list.h\<close>.  A node is named by its
  address and a heap gives the two pointers of every node; \<open>is_list\<close> says that the
  nodes reached from a head form the ring of a given list, and every operation is
  shown to act on that list as it should.
\<close>

subsection \<open>Nodes\<close>

type_synonym addr = nat

record list_heap =
  l_next :: "addr \<Rightarrow> addr"
  l_prev :: "addr \<Rightarrow> addr"

definition set_next :: "addr \<Rightarrow> addr \<Rightarrow> list_heap \<Rightarrow> list_heap" where
  "set_next a b h = h\<lparr>l_next := (l_next h)(a := b)\<rparr>"

definition set_prev :: "addr \<Rightarrow> addr \<Rightarrow> list_heap \<Rightarrow> list_heap" where
  "set_prev a b h = h\<lparr>l_prev := (l_prev h)(a := b)\<rparr>"

subsection \<open>Operations\<close>

definition INIT_LIST_HEAD :: "addr \<Rightarrow> list_heap \<Rightarrow> list_heap" where
  "INIT_LIST_HEAD head h = set_next head head (set_prev head head h)"

definition list_add :: "addr \<Rightarrow> addr \<Rightarrow> list_heap \<Rightarrow> list_heap" where
  "list_add new head h0 =
     (let h1 = set_prev new head h0;
          h2 = set_next new (l_next h1 head) h1;
          h3 = set_next (l_prev h2 new) new h2
      in set_prev (l_next h3 new) new h3)"

definition list_add_tail :: "addr \<Rightarrow> addr \<Rightarrow> list_heap \<Rightarrow> list_heap" where
  "list_add_tail new head h0 =
     (let h1 = set_next new head h0;
          h2 = set_prev new (l_prev h1 head) h1;
          h3 = set_next (l_prev h2 new) new h2
      in set_prev (l_next h3 new) new h3)"

text \<open>The loop of \<open>list_add_order\<close> stops at the head or at the first node, from the back,
  that is not greater than the new one.\<close>

partial_function (option) order_pos ::
  "(addr \<Rightarrow> addr \<Rightarrow> int) \<Rightarrow> addr \<Rightarrow> addr \<Rightarrow> list_heap \<Rightarrow> addr \<Rightarrow> addr option" where
  "order_pos compare new head h pos =
     (if pos = head then Some pos
      else if 0 \<le> compare new pos then Some pos
      else order_pos compare new head h (l_prev h pos))"

definition list_add_order ::
  "(addr \<Rightarrow> addr \<Rightarrow> int) \<Rightarrow> addr \<Rightarrow> addr \<Rightarrow> list_heap \<Rightarrow> list_heap option" where
  "list_add_order compare new head h =
     map_option (\<lambda>pos. list_add new pos h) (order_pos compare new head h (l_prev h head))"

text \<open>The two comparisons the repository passes, of the events of the changelog by sequence number
  (\<open>gf-changelog-reborp.c\<close>) and of the signatures that wait in the bit-rot stub by version (\<open>bit-rot-stub.c\<close>).\<close>

definition orderfn :: "(addr \<Rightarrow> nat) \<Rightarrow> addr \<Rightarrow> addr \<Rightarrow> int" where
  "orderfn seq pos1 pos2 = (if seq pos1 > seq pos2 then 1 else -1)"

definition orderq :: "(addr \<Rightarrow> nat) \<Rightarrow> addr \<Rightarrow> addr \<Rightarrow> int" where
  "orderq v elem1 elem2 = (if v elem1 > v elem2 then 1 else 0)"

definition list_unlink :: "addr \<Rightarrow> list_heap \<Rightarrow> list_heap" where
  "list_unlink old h = (let h1 = set_next (l_prev h old) (l_next h old) h
                        in set_prev (l_next h1 old) (l_prev h1 old) h1)"

definition list_del :: "addr \<Rightarrow> list_heap \<Rightarrow> list_heap" where
  "list_del old h = set_prev old 0xcafecafe (set_next old 0xbabebabe (list_unlink old h))"

definition list_del_init :: "addr \<Rightarrow> list_heap \<Rightarrow> list_heap" where
  "list_del_init old h = set_prev old old (set_next old old (list_unlink old h))"

definition list_move :: "addr \<Rightarrow> addr \<Rightarrow> list_heap \<Rightarrow> list_heap" where
  "list_move node head h = list_add node head (list_del node h)"

definition list_move_tail :: "addr \<Rightarrow> addr \<Rightarrow> list_heap \<Rightarrow> list_heap" where
  "list_move_tail node head h = list_add_tail node head (list_del node h)"

definition list_empty :: "addr \<Rightarrow> list_heap \<Rightarrow> bool" where
  "list_empty head h \<longleftrightarrow> l_next h head = head"

definition u_list_splice :: "addr \<Rightarrow> addr \<Rightarrow> list_heap \<Rightarrow> list_heap" where
  "u_list_splice node head h0 =
     (let h1 = set_next (l_prev h0 node) (l_next h0 head) h0;
          h2 = set_prev (l_next h1 head) (l_prev h1 node) h1;
          h3 = set_next head (l_next h2 node) h2
      in set_prev (l_next h3 node) head h3)"

definition list_splice :: "addr \<Rightarrow> addr \<Rightarrow> list_heap \<Rightarrow> list_heap" where
  "list_splice node head h = (if list_empty node h then h else u_list_splice node head h)"

definition list_splice_init :: "addr \<Rightarrow> addr \<Rightarrow> list_heap \<Rightarrow> list_heap" where
  "list_splice_init node head h =
     (if list_empty node h then h else INIT_LIST_HEAD node (u_list_splice node head h))"

definition u_list_append :: "addr \<Rightarrow> addr \<Rightarrow> list_heap \<Rightarrow> list_heap" where
  "u_list_append node head h0 =
     (let h1 = set_next (l_prev h0 head) (l_next h0 node) h0;
          h2 = set_prev (l_next h1 node) (l_prev h1 head) h1;
          h3 = set_prev head (l_prev h2 node) h2
      in set_next (l_prev h3 node) head h3)"

definition list_append :: "addr \<Rightarrow> addr \<Rightarrow> list_heap \<Rightarrow> list_heap" where
  "list_append node head h = (if list_empty node h then h else u_list_append node head h)"

definition list_append_init :: "addr \<Rightarrow> addr \<Rightarrow> list_heap \<Rightarrow> list_heap" where
  "list_append_init node head h =
     (if list_empty node h then h else INIT_LIST_HEAD node (u_list_append node head h))"

definition list_is_last :: "addr \<Rightarrow> addr \<Rightarrow> list_heap \<Rightarrow> bool" where
  "list_is_last node head h \<longleftrightarrow> l_next h node = head"

definition list_is_singular :: "addr \<Rightarrow> list_heap \<Rightarrow> bool" where
  "list_is_singular head h \<longleftrightarrow> \<not> list_empty head h \<and> l_next h head = l_prev h head"

definition list_replace :: "addr \<Rightarrow> addr \<Rightarrow> list_heap \<Rightarrow> list_heap" where
  "list_replace old new h0 =
     (let h1 = set_next new (l_next h0 old) h0;
          h2 = set_prev (l_next h1 new) new h1;
          h3 = set_prev new (l_prev h2 old) h2
      in set_next (l_prev h3 new) new h3)"

definition list_replace_init :: "addr \<Rightarrow> addr \<Rightarrow> list_heap \<Rightarrow> list_heap" where
  "list_replace_init old new h = INIT_LIST_HEAD old (list_replace old new h)"

definition list_rotate_left :: "addr \<Rightarrow> list_heap \<Rightarrow> list_heap" where
  "list_rotate_left head h = (if \<not> list_empty head h then list_move_tail (l_next h head) head h else h)"

definition list_next :: "addr \<Rightarrow> addr \<Rightarrow> list_heap \<Rightarrow> addr option" where
  "list_next node head h = (if l_next h node = head then None else Some (l_next h node))"

definition list_prev :: "addr \<Rightarrow> addr \<Rightarrow> list_heap \<Rightarrow> addr option" where
  "list_prev node head h = (if l_prev h node = head then None else Some (l_prev h node))"

text \<open>The nodes a \<open>list_for_each\<close> loop visits, from a position on.\<close>

partial_function (option) list_walk :: "addr \<Rightarrow> list_heap \<Rightarrow> addr \<Rightarrow> addr list option" where
  "list_walk head h pos =
     (if pos = head then Some []
      else Option.bind (list_walk head h (l_next h pos)) (\<lambda>xs. Some (pos # xs)))"

definition list_for_each :: "addr \<Rightarrow> list_heap \<Rightarrow> addr list option" where
  "list_for_each head h = list_walk head h (l_next h head)"

subsection \<open>Rings\<close>

text \<open>\<open>seg h a xs b\<close>: from \<open>a\<close> the pointers lead through \<open>xs\<close> to \<open>b\<close>, and back.\<close>

fun seg :: "list_heap \<Rightarrow> addr \<Rightarrow> addr list \<Rightarrow> addr \<Rightarrow> bool" where
  "seg h a [] b \<longleftrightarrow> l_next h a = b \<and> l_prev h b = a"
| "seg h a (x # xs) b \<longleftrightarrow> l_next h a = x \<and> l_prev h x = a \<and> seg h x xs b"

definition is_list :: "list_heap \<Rightarrow> addr \<Rightarrow> addr list \<Rightarrow> bool" where
  "is_list h head xs \<longleftrightarrow> seg h head xs head \<and> distinct (head # xs)"

lemma heap_simps [simp]:
  "l_next (set_next a b h) = (l_next h)(a := b)" "l_prev (set_next a b h) = l_prev h"
  "l_prev (set_prev a b h) = (l_prev h)(a := b)" "l_next (set_prev a b h) = l_next h"
  by (simp_all add: set_next_def set_prev_def)

lemma seg_append: "seg h a (xs @ y # ys) b \<longleftrightarrow> seg h a xs y \<and> seg h y ys b"
  by (induction xs arbitrary: a) auto

lemma seg_frame:
  "\<forall>u \<in> set (a # xs). l_next h' u = l_next h u \<Longrightarrow> \<forall>v \<in> set (xs @ [b]). l_prev h' v = l_prev h v \<Longrightarrow>
   seg h' a xs b \<longleftrightarrow> seg h a xs b"
  by (induction xs arbitrary: a) auto

lemma seg_last: "seg h a xs b \<Longrightarrow> l_prev h b = last (a # xs)"
  by (induction xs arbitrary: a) auto

lemma seg_first: "seg h a xs b \<Longrightarrow> l_next h a = hd (xs @ [b])"
  by (cases xs) auto

text \<open>A segment survives a change of its end.\<close>

lemma seg_redirect:
  assumes "seg h a xs b" "distinct (a # xs)"
    and "\<forall>u \<in> set (butlast (a # xs)). l_next h' u = l_next h u" "\<forall>v \<in> set xs. l_prev h' v = l_prev h v"
    and "l_next h' (last (a # xs)) = c" "l_prev h' c = last (a # xs)"
  shows "seg h' a xs c"
  using assms by (induction xs arbitrary: a) auto

lemma is_list_rotate: "is_list h a (xs @ b # ys) \<longleftrightarrow> is_list h b (ys @ a # xs)"
  by (auto simp: is_list_def seg_append)

lemma is_list_empty: "is_list h head xs \<Longrightarrow> list_empty head h \<longleftrightarrow> xs = []"
  by (cases xs) (auto simp: is_list_def list_empty_def)

lemma is_list_init: "is_list (INIT_LIST_HEAD head h) head []"
  by (simp add: is_list_def INIT_LIST_HEAD_def)

lemma is_list_cong:
  "is_list h a xs \<Longrightarrow> \<forall>u \<in> set (a # xs). l_next h' u = l_next h u \<and> l_prev h' u = l_prev h u \<Longrightarrow> is_list h' a xs"
  unfolding is_list_def by (subst seg_frame [of _ _ _ h]) auto

lemma last_in: "last (a # xs) \<in> set (a # xs)" "last (a # xs) \<notin> set (butlast (a # xs)) \<or> \<not> distinct (a # xs)"
  by (rule last_in_set, simp) (induction xs arbitrary: a, auto)

lemma butlast_in: "u \<in> set (butlast (a # xs)) \<Longrightarrow> distinct (a # xs) \<Longrightarrow> u \<noteq> last (a # xs) \<and> u \<in> set (a # xs)"
  using last_in [of a xs] by (auto dest: in_set_butlastD)

subsection \<open>What the operations do to a list\<close>

lemma list_add_ring:
  assumes "is_list h a xs" "new \<notin> set (a # xs)"
  shows "is_list (list_add new a h) a (new # xs)"
proof (cases xs)
  case Nil
  then show ?thesis using assms by (auto simp: is_list_def list_add_def Let_def)
next
  case (Cons x xs')
  then have "seg (list_add new a h) x xs' a \<longleftrightarrow> seg h x xs' a"
    using assms by (intro seg_frame) (auto simp: is_list_def list_add_def Let_def)
  then show ?thesis using assms Cons by (auto simp: is_list_def list_add_def Let_def)
qed

lemma list_add_after:
  assumes "is_list h head (xs @ pos # ys)" "new \<notin> set (head # xs @ pos # ys)"
  shows "is_list (list_add new pos h) head (xs @ pos # new # ys)"
  using list_add_ring [of h pos "ys @ head # xs" new] assms by (simp add: is_list_rotate [of _ head])

lemma list_add_tail_list:
  assumes "is_list h head xs" "new \<notin> set (head # xs)"
  shows "is_list (list_add_tail new head h) head (xs @ [new])"
proof -
  let ?h = "list_add_tail new head h" and ?p = "last (head # xs)"
  have p: "l_prev h head = ?p" using assms(1) seg_last by (simp add: is_list_def)
  have "?p \<in> set (head # xs)" by (rule last_in)
  then have "?p \<noteq> new" using assms(2) by metis
  then have h: "l_next ?h = (l_next h)(new := head, ?p := new)" "l_prev ?h = (l_prev h)(new := ?p, head := new)"
    using assms(2) p by (simp_all add: list_add_tail_def Let_def)
  have "seg ?h head xs new"
  proof (rule seg_redirect)
    show "seg h head xs head" "distinct (head # xs)" using assms(1) by (simp_all add: is_list_def)
    then show "\<forall>u \<in> set (butlast (head # xs)). l_next ?h u = l_next h u"
      using assms(2) butlast_in unfolding h by (metis fun_upd_apply)
    show "\<forall>v \<in> set xs. l_prev ?h v = l_prev h v" using assms unfolding h by (auto simp: is_list_def)
    show "l_next ?h ?p = new" "l_prev ?h new = ?p" using assms(2) \<open>?p \<noteq> new\<close> unfolding h by auto
  qed
  moreover have "seg ?h new [] head" using \<open>?p \<noteq> new\<close> by (simp add: h)
  ultimately show ?thesis using assms by (simp add: is_list_def seg_append)
qed

lemma list_unlink_ring:
  assumes "is_list h x (z # zs)"
  shows "is_list (list_unlink x h) z zs"
proof -
  let ?h = "list_unlink x h" and ?p = "last (z # zs)"
  have s: "l_next h x = z" "seg h z zs x" and d: "distinct (x # z # zs)" using assms by (simp_all add: is_list_def)
  have p: "l_prev h x = ?p" using seg_last [OF s(2)] .
  have "x \<noteq> ?p" using last_in(1) [of z zs] d by (metis distinct.simps(2))
  then have h: "l_next ?h = (l_next h)(?p := z)" "l_prev ?h = (l_prev h)(z := ?p)"
    using d by (simp_all add: list_unlink_def Let_def p s)
  have "seg ?h z zs z"
  proof (rule seg_redirect [OF s(2)])
    show "distinct (z # zs)" using d by simp
    then show "\<forall>u \<in> set (butlast (z # zs)). l_next ?h u = l_next h u"
      using butlast_in unfolding h by (metis fun_upd_apply)
    show "\<forall>v \<in> set zs. l_prev ?h v = l_prev h v" using d unfolding h by auto
    show "l_next ?h ?p = z" "l_prev ?h z = ?p" unfolding h by auto
  qed
  then show ?thesis using d by (simp add: is_list_def)
qed

lemma list_unlink_list:
  assumes "is_list h head (xs @ x # ys)"
  shows "is_list (list_unlink x h) head (xs @ ys)"
proof -
  have r: "is_list h x (ys @ head # xs)" using assms by (simp add: is_list_rotate [of h head])
  show ?thesis
  proof (cases ys)
    case Nil
    then show ?thesis using list_unlink_ring [of h x head xs] r by simp
  next
    case (Cons y ys')
    then have "is_list (list_unlink x h) y (ys' @ head # xs)" using list_unlink_ring [of h x y] r by simp
    then show ?thesis using Cons by (simp add: is_list_rotate [of _ head])
  qed
qed

lemma list_del_list: "is_list h head (xs @ x # ys) \<Longrightarrow> is_list (list_del x h) head (xs @ ys)"
  by (rule is_list_cong [OF list_unlink_list]) (auto simp: list_del_def is_list_def)

lemma list_del_init_list:
  "is_list h head (xs @ x # ys) \<Longrightarrow> is_list (list_del_init x h) head (xs @ ys)" "is_list (list_del_init x h) x []"
  by (rule is_list_cong [OF list_unlink_list], assumption) (auto simp: list_del_init_def is_list_def)

lemma list_move_tail_list:
  "is_list h head (xs @ x # ys) \<Longrightarrow> is_list (list_move_tail x head h) head (xs @ ys @ [x])"
  using list_add_tail_list [OF list_del_list, of h head xs x ys x] by (simp add: list_move_tail_def is_list_def)

lemma list_move_list: "is_list h head (xs @ x # ys) \<Longrightarrow> is_list (list_move x head h) head (x # xs @ ys)"
  using list_add_ring [OF list_del_list, of h head xs x ys x] by (simp add: list_move_def is_list_def)

lemma list_rotate_left_list: "is_list h head xs \<Longrightarrow> is_list (list_rotate_left head h) head (rotate1 xs)"
  using list_move_tail_list [of h head "[]"] is_list_empty [of h head xs]
  by (cases xs) (auto simp: list_rotate_left_def is_list_def)

text \<open>Splicing a list into another one.\<close>

lemma u_list_splice_list:
  assumes "is_list h head xs" "is_list h node (y # ys)" "set (head # xs) \<inter> set (node # y # ys) = {}"
  shows "is_list (u_list_splice node head h) head (y # ys @ xs)"
proof -
  let ?h = "u_list_splice node head h" and ?q = "last (y # ys)" and ?f = "hd (xs @ [head])"
  have sx: "seg h head xs head" "distinct (head # xs)" and sy: "l_next h node = y" "seg h y ys node" "distinct (node # y # ys)"
    using assms(1,2) by (simp_all add: is_list_def)
  have q: "l_prev h node = ?q" using seg_last [OF sy(2)] .
  have f: "l_next h head = ?f" using seg_first [OF sx(1)] .
  have "?q \<in> set (y # ys)" by (rule last_in)
  then have qn: "?q \<noteq> node" "?q \<notin> set (head # xs)" using sy(3) assms(3) by auto
  have fin: "?f \<in> set (head # xs)" by (cases xs) auto
  then have fn: "?f \<notin> set (node # y # ys)" using assms(3) by blast
  have "head \<noteq> node" "head \<notin> set (y # ys)" using assms(3) by auto
  then have h: "l_next ?h = (l_next h)(?q := ?f, head := y)" "l_prev ?h = (l_prev h)(?f := ?q, y := head)"
    using qn fn by (simp_all add: u_list_splice_def Let_def q f sy(1))
  have "seg ?h y ys ?f"
  proof (rule seg_redirect [OF sy(2)])
    show "distinct (y # ys)" using sy(3) by simp
    then show "\<forall>u \<in> set (butlast (y # ys)). l_next ?h u = l_next h u"
      using butlast_in [of _ y ys] \<open>head \<notin> set (y # ys)\<close> unfolding h by (metis fun_upd_apply)
    show "\<forall>v \<in> set ys. l_prev ?h v = l_prev h v" using sy(3) fn unfolding h by auto
    show "l_next ?h ?q = ?f" "l_prev ?h ?f = ?q"
      using qn fn \<open>?q \<in> set (y # ys)\<close> \<open>head \<notin> set (y # ys)\<close> unfolding h by auto
  qed
  moreover have "xs = x # xs' \<Longrightarrow> seg ?h x xs' head" for x xs'
  proof -
    assume xs: "xs = x # xs'"
    have "\<forall>u \<in> set (x # xs'). l_next ?h u = l_next h u" "\<forall>v \<in> set (xs' @ [head]). l_prev ?h v = l_prev h v"
      using xs sx(2) assms(3) qn(2) unfolding h by auto
    from seg_frame [OF this] show ?thesis using sx(1) xs by simp
  qed
  ultimately have "seg ?h y (ys @ xs) head" by (cases xs) (simp_all add: seg_append)
  then show ?thesis using sx(2) sy(3) assms(3) h by (auto simp: is_list_def)
qed

lemma u_list_append_splice:
  assumes "l_prev h head = w" "l_next h w = head" "{l_prev h node, l_next h node, node} \<inter> {head, w} = {}"
    "l_next h node \<noteq> node" "l_prev h node \<noteq> node"
  shows "u_list_append node head h = u_list_splice node w h"
proof (rule list_heap.equality)
  show "l_next (u_list_append node head h) = l_next (u_list_splice node w h)"
    using assms by (auto simp: u_list_append_def u_list_splice_def Let_def fun_eq_iff)
  show "l_prev (u_list_append node head h) = l_prev (u_list_splice node w h)"
    using assms by (auto simp: u_list_append_def u_list_splice_def Let_def fun_eq_iff)
qed simp

lemma u_list_append_list:
  assumes "is_list h head xs" "is_list h node (y # ys)" "set (head # xs) \<inter> set (node # y # ys) = {}"
  shows "is_list (u_list_append node head h) head (xs @ y # ys)"
proof -
  let ?w = "last (head # xs)"
  have "seg h node (y # ys) node" using assms(2) by (simp add: is_list_def)
  from seg_last [OF this] have "l_prev h node = last (y # ys)" by simp
  then have prev: "l_prev h node \<in> set (y # ys)" using last_in(1) [of y ys] by simp
  have "{head, ?w} \<subseteq> set (head # xs)" using last_in(1) [of head xs] by simp
  moreover have nxt: "l_next h node \<in> set (y # ys)" "node \<notin> set (y # ys)" using assms(2) by (simp_all add: is_list_def)
  moreover have "{l_prev h node, l_next h node, node} \<subseteq> set (node # y # ys)" using prev nxt by simp
  ultimately have node: "{l_prev h node, l_next h node, node} \<inter> {head, ?w} = {}" "l_next h node \<noteq> node" "l_prev h node \<noteq> node"
    using assms(3) prev by (blast, metis, metis)
  show ?thesis
  proof (cases xs rule: rev_cases)
    case Nil
    then show ?thesis using u_list_splice_list [OF assms] u_list_append_splice [of h head head node] node assms(1)
      by (auto simp: is_list_def)
  next
    case (snoc ws w)
    have "is_list h w (head # ws)" using assms(1) snoc by (simp add: is_list_rotate [of h head])
    moreover have "u_list_append node head h = u_list_splice node w h"
      using assms(1) snoc node by (intro u_list_append_splice) (auto simp: is_list_def seg_append)
    ultimately have "is_list (u_list_append node head h) w (y # ys @ head # ws)"
      using u_list_splice_list [of h w "head # ws" node y ys] assms(2,3) snoc by auto
    then show ?thesis using snoc is_list_rotate [of _ head ws w "y # ys"] by simp
  qed
qed

lemma splice_keeps_node:
  "is_list h head xs \<Longrightarrow> node \<notin> set (head # xs) \<Longrightarrow> is_list (INIT_LIST_HEAD node h) head xs"
  by (rule is_list_cong) (auto simp: INIT_LIST_HEAD_def)

lemma list_append_init_list:
  assumes "is_list h head xs" "is_list h node ys" "set (head # xs) \<inter> set (node # ys) = {}"
  shows "is_list (list_append_init node head h) head (xs @ ys) \<and> is_list (list_append_init node head h) node []"
proof (cases ys)
  case Nil
  then show ?thesis using assms is_list_empty [OF assms(2)] by (simp add: list_append_init_def)
next
  case (Cons y ys')
  have "node \<notin> set (head # xs @ ys)" using assms(2,3) by (auto simp: is_list_def)
  then show ?thesis using Cons assms is_list_empty [OF assms(2)]
    by (simp add: list_append_init_def is_list_init splice_keeps_node [OF u_list_append_list])
qed

lemma list_splice_init_list:
  assumes "is_list h head xs" "is_list h node ys" "set (head # xs) \<inter> set (node # ys) = {}"
  shows "is_list (list_splice_init node head h) head (ys @ xs) \<and> is_list (list_splice_init node head h) node []"
proof (cases ys)
  case Nil
  then show ?thesis using assms is_list_empty [OF assms(2)] by (simp add: list_splice_init_def)
next
  case (Cons y ys')
  have "node \<notin> set (head # ys @ xs)" using assms(2,3) by (auto simp: is_list_def)
  then show ?thesis using Cons assms is_list_empty [OF assms(2)]
    by (simp add: list_splice_init_def is_list_init splice_keeps_node [OF u_list_splice_list])
qed

lemma list_replace_list:
  assumes "is_list h old xs" "new \<notin> set (old # xs)"
  shows "is_list (list_replace old new h) new xs"
proof (cases xs)
  case Nil
  then show ?thesis using assms by (simp add: is_list_def list_replace_def Let_def)
next
  case (Cons x xs')
  let ?h = "list_replace old new h" and ?p = "last (x # xs')"
  have s: "l_next h old = x" "seg h x xs' old" "distinct (old # x # xs')" using assms(1) Cons by (simp_all add: is_list_def)
  have p: "l_prev h old = ?p" using seg_last [OF s(2)] .
  have "?p \<in> set (x # xs')" by (rule last_in)
  then have "?p \<noteq> new" "?p \<noteq> old" using assms(2) s(3) Cons by auto
  then have h: "l_next ?h = (l_next h)(new := x, ?p := new)" "l_prev ?h = (l_prev h)(x := new, new := ?p)"
    using s assms(2) Cons by (simp_all add: list_replace_def Let_def p)
  have "seg ?h x xs' new"
  proof (rule seg_redirect [OF s(2)])
    show "distinct (x # xs')" using s(3) by simp
    then show "\<forall>u \<in> set (butlast (x # xs')). l_next ?h u = l_next h u"
      using butlast_in [of _ x xs'] assms(2) Cons unfolding h by (metis fun_upd_apply list.set_intros(2))
    show "\<forall>v \<in> set xs'. l_prev ?h v = l_prev h v" using s(3) assms(2) Cons unfolding h by auto
    show "l_next ?h ?p = new" "l_prev ?h new = ?p" unfolding h by auto
  qed
  then show ?thesis using Cons s(3) assms(2) \<open>?p \<noteq> new\<close> by (simp add: is_list_def h)
qed

subsection \<open>Walks\<close>

lemma list_walk_seg: "seg h a xs head \<Longrightarrow> head \<notin> set xs \<Longrightarrow> list_walk head h (l_next h a) = Some xs"
proof (induction xs arbitrary: a)
  case Nil
  then show ?case by (subst list_walk.simps) simp
next
  case (Cons x xs)
  then have "list_walk head h (l_next h x) = Some xs" by simp
  then show ?case using Cons.prems by (subst list_walk.simps) simp
qed

lemma list_for_each_list: "is_list h head xs \<Longrightarrow> list_for_each head h = Some xs"
  using list_walk_seg by (simp add: is_list_def list_for_each_def)

lemma order_pos_seg:
  assumes "seg h head (xs @ ys) b" "head \<notin> set (xs @ ys)" "\<forall>y \<in> set ys. compare new y < 0"
    and "xs \<noteq> [] \<Longrightarrow> 0 \<le> compare new (last xs)"
  shows "order_pos compare new head h (l_prev h b) = Some (last (head # xs))"
  using assms
proof (induction ys arbitrary: b rule: rev_induct)
  case Nil
  then have "l_prev h b = last (head # xs)" using seg_last by simp
  then show ?case using Nil.prems by (cases xs rule: rev_cases) (simp_all add: order_pos.simps)
next
  case (snoc y ys)
  have s: "l_prev h b = y" "seg h head (xs @ ys) y"
    using snoc.prems(1) seg_append [of h head "xs @ ys" y "[]" b] by simp_all
  have "order_pos compare new head h (l_prev h y) = Some (last (head # xs))"
    using snoc.prems s(2) by (intro snoc.IH) auto
  then show ?case using snoc.prems(2,3) s(1) by (subst order_pos.simps) simp
qed

lemma list_add_order_list:
  assumes "is_list h head (xs @ ys)" "new \<notin> set (head # xs @ ys)" "\<forall>y \<in> set ys. compare new y < 0"
    and "xs \<noteq> [] \<Longrightarrow> 0 \<le> compare new (last xs)"
  shows "\<exists>h'. list_add_order compare new head h = Some h' \<and> is_list h' head (xs @ new # ys)"
proof -
  have "order_pos compare new head h (l_prev h head) = Some (last (head # xs))"
    using assms by (intro order_pos_seg) (auto simp: is_list_def)
  moreover have "is_list (list_add new (last (head # xs)) h) head (xs @ new # ys)"
    using assms list_add_ring [of h head ys new] list_add_after [of h head "butlast xs" "last xs" ys new]
    by (cases xs rule: rev_cases) auto
  ultimately show ?thesis by (simp add: list_add_order_def)
qed

lemma list_splice_list:
  assumes "is_list h head xs" "is_list h node ys" "set (head # xs) \<inter> set (node # ys) = {}"
  shows "is_list (list_splice node head h) head (ys @ xs)" "is_list (list_append node head h) head (xs @ ys)"
  using assms u_list_splice_list [OF assms(1), of node] u_list_append_list [OF assms(1), of node] is_list_empty [OF assms(2)]
  by (cases ys; simp add: list_splice_def list_append_def)+

lemma list_replace_node:
  assumes "is_list h head (xs @ x # ys)" "new \<notin> set (head # xs @ x # ys)"
  shows "is_list (list_replace x new h) head (xs @ new # ys)"
proof -
  have "is_list h x (ys @ head # xs)" using assms(1) by (simp add: is_list_rotate [of h head])
  then have "is_list (list_replace x new h) new (ys @ head # xs)" using assms(2) by (intro list_replace_list) auto
  then show ?thesis by (simp add: is_list_rotate [of _ head])
qed

lemma list_neighbours:
  assumes "is_list h head (xs @ x # ys)"
  shows "l_next h x = hd (ys @ [head])" "l_prev h x = last (head # xs)"
    and "l_next h head = hd (xs @ [x])" "l_prev h head = last (x # ys)"
proof -
  have s: "seg h head xs x" "seg h x ys head" using assms by (simp_all add: is_list_def seg_append)
  show "l_next h x = hd (ys @ [head])" "l_prev h x = last (head # xs)" "l_next h head = hd (xs @ [x])" "l_prev h head = last (x # ys)"
    using seg_first [OF s(1)] seg_first [OF s(2)] seg_last [OF s(1)] seg_last [OF s(2)] by simp_all
qed

lemma list_queries:
  assumes "is_list h head (xs @ x # ys)"
  shows "list_is_last x head h \<longleftrightarrow> ys = []" "list_is_singular head h \<longleftrightarrow> xs = [] \<and> ys = []"
    and "list_next x head h = (if ys = [] then None else Some (hd ys))"
    and "list_prev x head h = (if xs = [] then None else Some (last xs))"
proof -
  note n = list_neighbours [OF assms]
  have d: "head \<notin> set xs" "head \<notin> set ys" "x \<noteq> head" "x \<notin> set xs" "x \<notin> set ys" "set xs \<inter> set ys = {}"
    using assms by (auto simp: is_list_def)
  have "hd ys \<in> set ys" if "ys \<noteq> []" using that by simp
  then show "list_is_last x head h \<longleftrightarrow> ys = []" "list_next x head h = (if ys = [] then None else Some (hd ys))"
    using d n(1) by (cases ys; auto simp: list_is_last_def list_next_def)+
  show "list_prev x head h = (if xs = [] then None else Some (last xs))"
    using d n(2) last_in_set [of xs] by (auto simp: list_prev_def)
  have "hd (xs @ [x]) = last (x # ys) \<longleftrightarrow> xs = [] \<and> ys = []"
    using d last_in_set [of ys] by (cases xs) auto
  moreover have "\<not> list_empty head h" using is_list_empty [OF assms] by simp
  ultimately show "list_is_singular head h \<longleftrightarrow> xs = [] \<and> ys = []" using n(3,4) by (simp add: list_is_singular_def)
qed


text \<open>The place of a node, for any comparison: after the last node that is not greater than it.\<close>

lemma list_add_order_split:
  assumes "is_list h head xs" "new \<notin> set (head # xs)"
  shows "\<exists>h' ys zs. list_add_order compare new head h = Some h' \<and> xs = ys @ zs \<and> is_list h' head (ys @ new # zs) \<and>
    (\<forall>z \<in> set zs. compare new z < 0) \<and> (ys \<noteq> [] \<longrightarrow> 0 \<le> compare new (last ys))"
proof -
  let ?zs = "rev (takeWhile (\<lambda>y. compare new y < 0) (rev xs))" and ?ys = "rev (dropWhile (\<lambda>y. compare new y < 0) (rev xs))"
  have xs: "xs = ?ys @ ?zs" by (metis rev_append rev_rev_ident takeWhile_dropWhile_id)
  have zs: "\<forall>z \<in> set ?zs. compare new z < 0" by (auto dest: set_takeWhileD)
  have ys: "0 \<le> compare new (last ?ys)" if "?ys \<noteq> []"
    using hd_dropWhile [of "\<lambda>y. compare new y < 0" "rev xs"] that by (simp add: last_rev)
  show ?thesis
    using list_add_order_list [of h head ?ys ?zs new compare] assms xs zs ys by metis
qed

text \<open>C32. \<open>list_add_order\<close> ends on every list, whatever the comparison returns: the new node is put behind the last node
  for which the comparison is not negative, and all nodes after it compare as greater.  When the list is in order of some key and the
  comparison of the new node with a node is negative only if its key is not greater, and not negative only if its key is not smaller,
  the list stays in order.\<close>

theorem list_add_order_sorted:
  fixes key :: "addr \<Rightarrow> 'k :: linorder"
  assumes "is_list h head xs" "new \<notin> set (head # xs)"
  shows "\<exists>h' ys zs. list_add_order compare new head h = Some h' \<and> xs = ys @ zs \<and> is_list h' head (ys @ new # zs) \<and>
    (\<forall>z \<in> set zs. compare new z < 0) \<and> (ys \<noteq> [] \<longrightarrow> 0 \<le> compare new (last ys)) \<and>
    (sorted (map key xs) \<and> (\<forall>x \<in> set xs. if compare new x < 0 then key new \<le> key x else key x \<le> key new) \<longrightarrow>
       sorted (map key (ys @ new # zs)))"
proof -
  obtain h' ys zs where r: "list_add_order compare new head h = Some h'" "xs = ys @ zs" "is_list h' head (ys @ new # zs)"
    "\<forall>z \<in> set zs. compare new z < 0" "ys \<noteq> [] \<longrightarrow> 0 \<le> compare new (last ys)"
    using list_add_order_split [OF assms] by metis
  have "sorted (map key (ys @ new # zs))"
    if s: "sorted (map key xs)" and c: "\<forall>x \<in> set xs. if compare new x < 0 then key new \<le> key x else key x \<le> key new"
  proof -
    have sy: "sorted (map key ys)" "sorted (map key zs)" using s r(2) by (simp_all add: sorted_append)
    have "key y \<le> key new" if y: "y \<in> set ys" for y
    proof -
      have "ys \<noteq> []" using y by auto
      then have l: "key (last ys) \<le> key new" using c r(2,5) by (auto simp: not_less dest!: bspec [of _ _ "last ys"])
      have "sorted (map key (butlast ys) @ [key (last ys)])"
        using sy(1) \<open>ys \<noteq> []\<close> by (metis append_butlast_last_id list.map(1,2) map_append)
      moreover have "y \<in> set (butlast ys) \<or> y = last ys" using y \<open>ys \<noteq> []\<close> by (metis append_butlast_last_id in_set_conv_decomp rotate1.simps(2) set_ConsD set_rotate1)
      ultimately show ?thesis using l by (auto simp: sorted_append)
    qed
    moreover have "key new \<le> key z" if "z \<in> set zs" for z using that c r(2,4) by auto
    ultimately show ?thesis using sy by (force simp: sorted_append)
  qed
  then show ?thesis using r by blast
qed

text \<open>The comparison of the changelog meets this condition.\<close>

lemma orderfn_contract: "if orderfn seq a b < 0 then seq a \<le> seq b else seq b \<le> seq a"
  by (simp add: orderfn_def)

text \<open>The one of the bit-rot stub is never negative: every signature is put at the end, whatever its version.\<close>

lemma orderq_appends:
  assumes "is_list h head xs" "new \<notin> set (head # xs)"
  shows "\<exists>h'. list_add_order (orderq v) new head h = Some h' \<and> is_list h' head (xs @ [new])"
proof -
  obtain h' ys zs where r: "list_add_order (orderq v) new head h = Some h'" "xs = ys @ zs" "is_list h' head (ys @ new # zs)"
    "\<forall>z \<in> set zs. orderq v new z < 0"
    using list_add_order_split [OF assms] by metis
  have "zs = []" using r(4) by (cases zs) (auto simp: orderq_def split: if_splits)
  then show ?thesis using r by simp
qed

text \<open>Two lists, with nodes 11, 12 and 21.\<close>

definition sample_heap :: list_heap where
  "sample_heap = list_add_tail 21 20 (list_add_tail 12 10 (list_add_tail 11 10
     (INIT_LIST_HEAD 20 (INIT_LIST_HEAD 10 \<lparr>l_next = (\<lambda>_. 0), l_prev = (\<lambda>_. 0)\<rparr>))))"

lemma sample_heap_lists: "is_list sample_heap 10 [11, 12]" "is_list sample_heap 20 [21]"
  by (simp_all add: is_list_def sample_heap_def list_add_tail_def INIT_LIST_HEAD_def Let_def)


theorem list_add_order_sorted_witness:
  "\<exists>h' ys zs. list_add_order (orderfn id) 9 10 sample_heap = Some h' \<and> [11, 12] = ys @ zs \<and>
    is_list h' 10 (ys @ 9 # zs) \<and> sorted (ys @ 9 # zs)"
proof -
  have "(9::nat) \<notin> set [10, 11, 12]" "sorted (map id [11, 12 :: nat])" by simp_all
  then show ?thesis
    using list_add_order_sorted [OF sample_heap_lists(1), of 9 "orderfn id" id] orderfn_contract [of id 9]
    by (metis list.map_id)
qed

end
