(* ===== verification/Async.thy ===== *)
theory Async
  imports Xdb_Correct List_Head
begin

text \<open>
  The asynchronous update of the index (\<open>imess-server-async.c\<close>): tasks, the queue under
  its spin lock, the worker thread, and the steps in which producers and worker
  interleave.
\<close>

subsection \<open>Tasks\<close>

abbreviation (input) IMS_TASK_INSERT_NEW_FILE :: int where "IMS_TASK_INSERT_NEW_FILE \<equiv> 0"
abbreviation (input) IMS_TASK_INSERT_STAT :: int where "IMS_TASK_INSERT_STAT \<equiv> 1"
abbreviation (input) IMS_TASK_UPDATE_STAT :: int where "IMS_TASK_UPDATE_STAT \<equiv> 2"
abbreviation (input) IMS_TASK_LINK_FILE :: int where "IMS_TASK_LINK_FILE \<equiv> 3"
abbreviation (input) IMS_TASK_UNLINK_FILE :: int where "IMS_TASK_UNLINK_FILE \<equiv> 4"
abbreviation (input) IMS_TASK_RENAME :: int where "IMS_TASK_RENAME \<equiv> 5"
abbreviation (input) IMS_TASK_INSERT_XATTR :: int where "IMS_TASK_INSERT_XATTR \<equiv> 6"
abbreviation (input) IMS_TASK_REMOVE_XATTR :: int where "IMS_TASK_REMOVE_XATTR \<equiv> 7"

record timeval =
  tv_sec :: int
  tv_usec :: int

record ims_task =
  t_op :: int
  t_file :: ims_xdb_file
  t_sb :: stat_t
  t_attr :: ims_xdb_attr
  t_enqueue :: timeval
  t_complete :: timeval

text \<open>\<open>gf_strdup\<close> returns NULL when memory is short, and so does \<open>GF_CALLOC\<close>; the outcome of
  the six copies and the address of the new task are arguments.\<close>

definition gf_strdup :: "bool \<Rightarrow> string option \<Rightarrow> string option" where
  "gf_strdup ok s = (if ok then s else None)"

definition task_dup :: "(nat \<Rightarrow> bool) \<Rightarrow> ims_task \<Rightarrow> ims_task" where
  "task_dup ok task = task\<lparr>
     t_file := \<lparr>xf_gfid = gf_strdup (ok 0) (xf_gfid (t_file task)),
                xf_path = gf_strdup (ok 1) (xf_path (t_file task)),
                xf_extra = gf_strdup (ok 2) (xf_extra (t_file task))\<rparr>,
     t_attr := (t_attr task)\<lparr>at_gfid := gf_strdup (ok 3) (at_gfid (t_attr task)),
                at_name := gf_strdup (ok 4) (at_name (t_attr task)),
                at_sval := gf_strdup (ok 5) (at_sval (t_attr task))\<rparr>\<rparr>"

subsection \<open>The queue\<close>

text \<open>The tasks live in a store by address; the \<open>list\<close> member is the first of the
  struct, so a task and its node have one address.  Each critical section runs under
  the spin lock and is one step.\<close>

record 'c ims_async =
  a_xdb :: "'c ims_xdb"
  a_links :: list_heap
  a_queue :: addr
  a_tasks :: "addr \<Rightarrow> ims_task option"
  a_latency_log :: bool

definition task_queue_append :: "'c ims_async \<Rightarrow> addr \<Rightarrow> 'c ims_async" where
  "task_queue_append self task = self\<lparr>a_links := list_add_tail task (a_queue self) (a_links self)\<rparr>"

definition task_queue_fetch :: "'c ims_async \<Rightarrow> addr option \<times> 'c ims_async" where
  "task_queue_fetch self =
     (if list_empty (a_queue self) (a_links self) then (None, self)
      else let task = l_next (a_links self) (a_queue self)
           in (Some task, self\<lparr>a_links := list_del task (a_links self)\<rparr>))"

definition task_destroy :: "addr \<Rightarrow> 'c ims_async \<Rightarrow> 'c ims_async" where
  "task_destroy task self = self\<lparr>a_tasks := (a_tasks self)(task := None)\<rparr>"

definition ims_async_put_task ::
  "(nat \<Rightarrow> bool) \<Rightarrow> addr option \<Rightarrow> timeval \<Rightarrow> 'c ims_async \<Rightarrow> ims_task \<Rightarrow> int \<times> 'c ims_async" where
  "ims_async_put_task ok new now self task = (case new of
     None \<Rightarrow> (-1, self)
   | Some a \<Rightarrow>
       (let cp = task_dup ok task;
            cp' = (if a_latency_log self then cp\<lparr>t_enqueue := now\<rparr> else cp)
        in (0, task_queue_append (self\<lparr>a_tasks := (a_tasks self)(a \<mapsto> cp')\<rparr>) a)))"

subsection \<open>The worker\<close>

definition worker_insert_new_file where
  "worker_insert_new_file E x task = do {
     (ret, y) \<leftarrow> ims_xdb_insert_new_file E (Some x) (Some (t_file task)) (Some (t_sb task));
     x' \<leftarrow> y;
     Some (ret, x')
   }"

definition worker_unlink_file where
  "worker_unlink_file E x task = ims_xdb_unlink_file E (Some x) (Some (t_file task))"

definition worker_update_stat where
  "worker_update_stat E x task =
     ims_xdb_update_stat E (Some x) (Some (t_file task)) (Some (t_sb task)) IMS_XDB_STAT_OP_ALL"

definition worker_link_file where
  "worker_link_file E x task = ims_xdb_link_file E (Some x) (Some (t_file task))"

definition worker_rename where
  "worker_rename E x task = ims_xdb_rename E (Some x) (Some (t_file task))"

definition worker_insert_xattr where
  "worker_insert_xattr E x task = ims_xdb_setxattr E (Some x) (Some (t_attr task))"

definition worker_remove_xattr :: "'c ims_xdb \<Rightarrow> (int \<times> 'c ims_xdb) option" where
  "worker_remove_xattr x = Some (0, x)"

definition opstrs :: "string list" where
  "opstrs = [''create_file'', ''unlink_file'', ''update_stat'', ''link_file'',
             ''rename'', ''insert_xattr'', ''remove_xattr'']"

datatype log_entry =
    Unknown_op int
  | Op_failed int int int "string option" "string option"
  | Queue_time string timeval timeval

text \<open>The local variables of the loop: \<open>ret\<close> keeps its value when the opcode is unknown.
  The log collects what \<open>gf_log\<close> is given.\<close>

record 'c worker =
  w_async :: "'c ims_async"
  w_task :: "addr option"
  w_ret :: int
  w_log :: "log_entry list"

definition dispatch :: "'c sqlite3 \<Rightarrow> ims_task \<Rightarrow> int \<Rightarrow> 'c ims_xdb \<Rightarrow> (int \<times> 'c ims_xdb) option" where
  "dispatch E task ret x =
     (if t_op task = IMS_TASK_INSERT_NEW_FILE then worker_insert_new_file E x task
      else if t_op task = IMS_TASK_UNLINK_FILE then worker_unlink_file E x task
      else if t_op task = IMS_TASK_UPDATE_STAT then worker_update_stat E x task
      else if t_op task = IMS_TASK_LINK_FILE then worker_link_file E x task
      else if t_op task = IMS_TASK_RENAME then worker_rename E x task
      else if t_op task = IMS_TASK_INSERT_XATTR then worker_insert_xattr E x task
      else if t_op task = IMS_TASK_REMOVE_XATTR then worker_remove_xattr x
      else Some (ret, x))"

definition unknown_op :: "int \<Rightarrow> bool" where
  "unknown_op i \<longleftrightarrow> i \<notin> {IMS_TASK_INSERT_NEW_FILE, IMS_TASK_UNLINK_FILE, IMS_TASK_UPDATE_STAT, IMS_TASK_LINK_FILE,
     IMS_TASK_RENAME, IMS_TASK_INSERT_XATTR, IMS_TASK_REMOVE_XATTR}"

definition queue_time_log :: "timeval \<Rightarrow> ims_task \<Rightarrow> log_entry option" where
  "queue_time_log now task =
     (if 0 \<le> t_op task \<and> t_op task < int (length opstrs)
      then Some (Queue_time (opstrs ! nat (t_op task)) (t_enqueue task) now) else None)"

text \<open>An iteration of the loop is two steps: fetching a task under the lock, and
  carrying it out.\<close>

definition work_fetch :: "'c worker \<Rightarrow> 'c worker" where
  "work_fetch w = (case task_queue_fetch (w_async w) of (task, self) \<Rightarrow> w\<lparr>w_async := self, w_task := task\<rparr>)"

definition work_task :: "'c sqlite3 \<Rightarrow> timeval \<Rightarrow> 'c worker \<Rightarrow> 'c worker option" where
  "work_task E now w = (case w_task w of
     None \<Rightarrow> None
   | Some a \<Rightarrow> do {
       task \<leftarrow> a_tasks (w_async w) a;
       (ret, x) \<leftarrow> dispatch E task (w_ret w) (a_xdb (w_async w));
       let failed = (if ret \<noteq> 0 then [Op_failed ret (db_ret x) (t_op task) (xf_path (t_file task)) (xf_gfid (t_file task))] else []);
       let unknown = (if unknown_op (t_op task) then [Unknown_op (t_op task)] else []);
       latency \<leftarrow> (if a_latency_log (w_async w) then map_option (\<lambda>l. [l]) (queue_time_log now task) else Some []);
       Some \<lparr>w_async = task_destroy a ((w_async w)\<lparr>a_xdb := x\<rparr>), w_task = None, w_ret = ret,
             w_log = w_log w @ unknown @ failed @ latency\<rparr>
     })"

text \<open>The context allocated at \<open>new\<close> is used without a test for NULL (the code tests the
  argument instead); \<open>created\<close> is the result of \<open>pthread_create\<close>.\<close>

definition ims_async_init ::
  "'c ims_xdb option \<Rightarrow> addr option \<Rightarrow> int \<Rightarrow> list_heap \<Rightarrow> (int \<times> 'c worker option) option" where
  "ims_async_init xdb new created h = (case xdb of
     None \<Rightarrow> Some (-1, None)
   | Some x \<Rightarrow> (case new of
       None \<Rightarrow> None
     | Some head \<Rightarrow>
         if created \<noteq> 0 then Some (created, None)
         else Some (0, Some \<lparr>w_async = \<lparr>a_xdb = x, a_links = INIT_LIST_HEAD head h, a_queue = head,
           a_tasks = (\<lambda>_. None), a_latency_log = False\<rparr>, w_task = None, w_ret = 0, w_log = []\<rparr>)))"

text \<open>Producers and the worker interleave in any order.\<close>

datatype async_event =
    Put "nat \<Rightarrow> bool" "addr option" timeval ims_task
  | Fetch
  | Work timeval

inductive async_step :: "'c sqlite3 \<Rightarrow> 'c worker \<Rightarrow> async_event \<Rightarrow> 'c worker \<Rightarrow> bool" for E where
  put: "(\<And>a. new = Some a \<Longrightarrow> a_tasks (w_async w) a = None \<and> a \<noteq> a_queue (w_async w)) \<Longrightarrow>
     ims_async_put_task ok new now (w_async w) task = (ret, self) \<Longrightarrow>
     async_step E w (Put ok new now task) (w\<lparr>w_async := self\<rparr>)"
| fetch: "w_task w = None \<Longrightarrow> async_step E w Fetch (work_fetch w)"
| work: "work_task E now w = Some w' \<Longrightarrow> async_step E w (Work now) w'"

inductive async_run :: "'c sqlite3 \<Rightarrow> 'c worker \<Rightarrow> async_event list \<Rightarrow> 'c worker \<Rightarrow> bool" for E where
  run_nil: "async_run E w [] w"
| run_snoc: "async_run E w evs w1 \<Longrightarrow> async_step E w1 ev w2 \<Longrightarrow> async_run E w (evs @ [ev]) w2"

inductive_cases async_stepE:
  "async_step E w (Put ok new now task) w'" "async_step E w Fetch w'" "async_step E w (Work now) w'"

end
