(* ===== verification/Async_Correct.thy ===== *)
theory Async_Correct
  imports Async
begin

text \<open>
  The queue is first in, first out, and with an engine without faults the index after
  any run is the one the tasks give in the order in which they were accepted.
\<close>

subsection \<open>First in, first out\<close>

locale fifo =
  fixes ok :: "'q \<Rightarrow> bool" and items :: "'q \<Rightarrow> 'a list" and room :: "'q \<Rightarrow> 'a \<Rightarrow> bool"
    and enq :: "'q \<Rightarrow> 'a \<Rightarrow> 'q" and deq :: "'q \<Rightarrow> 'a option \<times> 'q"
  assumes enq_ok: "ok q \<Longrightarrow> room q a \<Longrightarrow> ok (enq q a)"
    and enq_items: "ok q \<Longrightarrow> room q a \<Longrightarrow> items (enq q a) = items q @ [a]"
    and deq_nil: "ok q \<Longrightarrow> items q = [] \<Longrightarrow> deq q = (None, q)"
    and deq_cons: "ok q \<Longrightarrow> items q = a # as \<Longrightarrow> fst (deq q) = Some a \<and> ok (snd (deq q)) \<and> items (snd (deq q)) = as"
begin

lemma deq_items:
  assumes "ok q"
  shows "ok (snd (deq q)) \<and> items q = (case fst (deq q) of None \<Rightarrow> [] | Some a \<Rightarrow> [a]) @ items (snd (deq q))"
  using assms deq_nil deq_cons by (cases "items q") auto

lemma deq_none: "ok q \<Longrightarrow> fst (deq q) = None \<longleftrightarrow> items q = []"
  using deq_nil deq_cons by (cases "items q") auto

end

definition queue_ok :: "'c ims_async \<Rightarrow> bool" where
  "queue_ok self \<longleftrightarrow> (\<exists>xs. is_list (a_links self) (a_queue self) xs)"

definition queue_items :: "'c ims_async \<Rightarrow> addr list" where
  "queue_items self = the (list_for_each (a_queue self) (a_links self))"

lemma queue_items_list: "is_list (a_links self) (a_queue self) xs \<Longrightarrow> queue_items self = xs"
  by (simp add: queue_items_def list_for_each_list)

lemma queue_ok_list: "queue_ok self \<longleftrightarrow> is_list (a_links self) (a_queue self) (queue_items self)"
  using queue_items_list by (auto simp: queue_ok_def)

interpretation task_queue: fifo queue_ok queue_items
  "\<lambda>self a. a \<notin> set (a_queue self # queue_items self)" task_queue_append task_queue_fetch
proof
  fix self :: "'c ims_async" and a as
  assume ok: "queue_ok self"
  then have l: "is_list (a_links self) (a_queue self) (queue_items self)" by (simp add: queue_ok_list)
  {
    assume "a \<notin> set (a_queue self # queue_items self)"
    from list_add_tail_list [OF l this]
    have "is_list (a_links (task_queue_append self a)) (a_queue (task_queue_append self a)) (queue_items self @ [a])"
      by (simp add: task_queue_append_def)
    then show "queue_ok (task_queue_append self a)" "queue_items (task_queue_append self a) = queue_items self @ [a]"
      by (auto simp: queue_ok_def queue_items_list)
  }
  {
    assume "queue_items self = []"
    then show "task_queue_fetch self = (None, self)" using is_list_empty [OF l] by (simp add: task_queue_fetch_def)
  }
  {
    assume it: "queue_items self = a # as"
    then have "l_next (a_links self) (a_queue self) = a" using l by (simp add: is_list_def)
    moreover have "is_list (list_del a (a_links self)) (a_queue self) as" using list_del_list [of _ _ "[]"] l it by simp
    ultimately show "fst (task_queue_fetch self) = Some a \<and> queue_ok (snd (task_queue_fetch self)) \<and>
        queue_items (snd (task_queue_fetch self)) = as"
      using is_list_empty [OF l] it by (auto simp: task_queue_fetch_def Let_def queue_ok_def intro: queue_items_list)
  }
qed

text \<open>The tasks accepted and not yet carried out, oldest first.\<close>

definition pending_addrs :: "'c worker \<Rightarrow> addr list" where
  "pending_addrs w = (case w_task w of None \<Rightarrow> [] | Some a \<Rightarrow> [a]) @ queue_items (w_async w)"

definition pending :: "'c worker \<Rightarrow> ims_task list" where
  "pending w = map (\<lambda>a. the (a_tasks (w_async w) a)) (pending_addrs w)"

definition worker_inv :: "'c worker \<Rightarrow> bool" where
  "worker_inv w \<longleftrightarrow> queue_ok (w_async w) \<and> distinct (pending_addrs w) \<and>
     a_tasks (w_async w) (a_queue (w_async w)) = None \<and>
     (\<forall>a \<in> set (pending_addrs w). a_tasks (w_async w) a \<noteq> None)"

definition accept :: "bool \<Rightarrow> (nat \<Rightarrow> bool) \<Rightarrow> timeval \<Rightarrow> ims_task \<Rightarrow> ims_task" where
  "accept stamp ok now task = (if stamp then (task_dup ok task)\<lparr>t_enqueue := now\<rparr> else task_dup ok task)"

fun accepted :: "bool \<Rightarrow> async_event \<Rightarrow> ims_task list" where
  "accepted stamp (Put ok (Some a) now task) = [accept stamp ok now task]"
| "accepted stamp _ = []"

fun worked :: "async_event \<Rightarrow> nat" where
  "worked (Work now) = 1"
| "worked _ = 0"

lemma put_inv:
  assumes "worker_inv w" "a_tasks (w_async w) a = None" "a \<noteq> a_queue (w_async w)"
    and "ims_async_put_task ok (Some a) now (w_async w) task = (ret, self)"
  shows "worker_inv (w\<lparr>w_async := self\<rparr>) \<and> pending (w\<lparr>w_async := self\<rparr>) = pending w @ [accept (a_latency_log (w_async w)) ok now task]"
proof -
  let ?s = "(w_async w)\<lparr>a_tasks := (a_tasks (w_async w))(a \<mapsto> accept (a_latency_log (w_async w)) ok now task)\<rparr>"
  have fresh: "a \<notin> set (pending_addrs w)" using assms(1,2) by (auto simp: worker_inv_def)
  then have room: "a \<notin> set (a_queue ?s # queue_items ?s)"
    using assms(3) by (auto simp: pending_addrs_def queue_items_def)
  have ok: "queue_ok ?s" using assms(1) by (simp add: worker_inv_def queue_ok_def)
  have self: "self = task_queue_append ?s a" using assms(4) by (auto simp: ims_async_put_task_def accept_def Let_def)
  have keep: "a_tasks self = a_tasks ?s" "a_queue self = a_queue (w_async w)" by (simp_all add: self task_queue_append_def)
  have it: "queue_items self = queue_items (w_async w) @ [a]"
    using task_queue.enq_items [OF ok room] by (simp add: self queue_items_def)
  then have addrs: "pending_addrs (w\<lparr>w_async := self\<rparr>) = pending_addrs w @ [a]" by (simp add: pending_addrs_def)
  moreover have "queue_ok self" using task_queue.enq_ok [OF ok room] by (simp add: self)
  ultimately show ?thesis using assms fresh keep by (auto simp: worker_inv_def pending_def)
qed

lemma fetch_inv:
  assumes "worker_inv w" "w_task w = None"
  shows "worker_inv (work_fetch w) \<and> pending (work_fetch w) = pending w"
proof -
  obtain t self where f: "task_queue_fetch (w_async w) = (t, self)" by (metis surj_pair)
  have "queue_ok (w_async w)" using assms(1) by (simp add: worker_inv_def)
  from task_queue.deq_items [OF this] have d: "queue_ok self"
    "queue_items (w_async w) = (case t of None \<Rightarrow> [] | Some a \<Rightarrow> [a]) @ queue_items self" using f by simp_all
  have "a_tasks self = a_tasks (w_async w)" "a_queue self = a_queue (w_async w)"
    using f by (auto simp: task_queue_fetch_def Let_def split: if_splits)
  then show ?thesis using assms d f by (simp add: worker_inv_def pending_def pending_addrs_def work_fetch_def)
qed

lemma work_inv:
  assumes "worker_inv w" "work_task E now w = Some w'"
  shows "worker_inv w' \<and> (\<exists>task ret. pending w = task # pending w' \<and>
    dispatch E task (w_ret w) (a_xdb (w_async w)) = Some (ret, a_xdb (w_async w')) \<and> w_ret w' = ret) \<and>
    a_latency_log (w_async w') = a_latency_log (w_async w)"
proof -
  obtain a task ret x where a: "w_task w = Some a" "a_tasks (w_async w) a = Some task"
    and d: "dispatch E task (w_ret w) (a_xdb (w_async w)) = Some (ret, x)"
    and w': "w_async w' = task_destroy a ((w_async w)\<lparr>a_xdb := x\<rparr>)" "w_task w' = None" "w_ret w' = ret"
    using assms(2) by (auto simp: work_task_def Let_def split: option.splits Option.bind_splits)
  have q: "queue_items (w_async w') = queue_items (w_async w)" "queue_ok (w_async w') = queue_ok (w_async w)"
    by (simp_all add: w' task_destroy_def queue_items_def queue_ok_def)
  have "a \<notin> set (queue_items (w_async w))" using assms(1) a by (simp add: worker_inv_def pending_addrs_def)
  then show ?thesis using assms(1) a d w' q
    by (auto simp: worker_inv_def pending_def pending_addrs_def task_destroy_def)
qed

text \<open>What the tasks do when they are carried out one after the other, without a queue: each is
  dispatched on the index and the result the one before it left.\<close>

fun carry_out :: "'c sqlite3 \<Rightarrow> ims_task list \<Rightarrow> int \<times> 'c ims_xdb \<Rightarrow> (int \<times> 'c ims_xdb) option" where
  "carry_out E [] s = Some s"
| "carry_out E (t # ts) s = do { s' \<leftarrow> dispatch E t (fst s) (snd s); carry_out E ts s' }"

lemma carry_out_snoc: "carry_out E (ts @ [t]) s = do { s' \<leftarrow> carry_out E ts s; dispatch E t (fst s') (snd s') }"
  by (induction ts arbitrary: s) (auto split: Option.bind_split)

lemma run_fifo:
  assumes "async_run E w evs w'" "worker_inv w" "pending w = []"
  shows "worker_inv w' \<and> a_latency_log (w_async w') = a_latency_log (w_async w) \<and>
    (\<exists>ts. concat (map (accepted (a_latency_log (w_async w))) evs) = ts @ pending w' \<and> length ts = sum_list (map worked evs) \<and>
       carry_out E ts (w_ret w, a_xdb (w_async w)) = Some (w_ret w', a_xdb (w_async w')))"
  using assms
proof (induction rule: async_run.induct)
  case (run_nil w)
  then show ?case by simp
next
  case (run_snoc w evs w1 ev w2)
  then obtain ts where IH: "worker_inv w1" "a_latency_log (w_async w1) = a_latency_log (w_async w)"
    "concat (map (accepted (a_latency_log (w_async w))) evs) = ts @ pending w1" "length ts = sum_list (map worked evs)"
    "carry_out E ts (w_ret w, a_xdb (w_async w)) = Some (w_ret w1, a_xdb (w_async w1))" by blast
  show ?case
  proof (cases ev)
    case (Put ok new now task)
    with run_snoc.hyps(2) obtain ret self where
      fresh: "\<And>a. new = Some a \<Longrightarrow> a_tasks (w_async w1) a = None \<and> a \<noteq> a_queue (w_async w1)"
      and p: "ims_async_put_task ok new now (w_async w1) task = (ret, self)" and w2: "w2 = w1\<lparr>w_async := self\<rparr>"
      by (auto elim: async_stepE)
    show ?thesis
    proof (cases new)
      case None
      then have "w2 = w1" using p w2 by (cases w1) (simp add: ims_async_put_task_def)
      then show ?thesis using IH Put None by simp
    next
      case (Some a)
      have "a_latency_log self = a_latency_log (w_async w1)" "a_xdb self = a_xdb (w_async w1)"
        using p Some by (auto simp: ims_async_put_task_def task_queue_append_def Let_def)
      then show ?thesis using put_inv [OF IH(1), of a ok now task ret self] fresh p w2 IH Put Some by simp
    qed
  next
    case Fetch
    with run_snoc.hyps(2) have w2: "w_task w1 = None" "w2 = work_fetch w1" by (auto elim: async_stepE)
    have "a_latency_log (w_async w2) = a_latency_log (w_async w1)" "a_xdb (w_async w2) = a_xdb (w_async w1)" "w_ret w2 = w_ret w1"
      by (auto simp: w2 work_fetch_def task_queue_fetch_def Let_def)
    then show ?thesis using fetch_inv [OF IH(1) w2(1)] w2 IH Fetch by simp
  next
    case (Work now)
    with run_snoc.hyps(2) have w2: "work_task E now w1 = Some w2" by (auto elim: async_stepE)
    from work_inv [OF IH(1) w2] obtain task where
      "worker_inv w2" "a_latency_log (w_async w2) = a_latency_log (w_async w1)" and p: "pending w1 = task # pending w2"
      and d: "dispatch E task (w_ret w1) (a_xdb (w_async w1)) = Some (w_ret w2, a_xdb (w_async w2))"
      by (elim conjE exE) simp
    moreover have "carry_out E (ts @ [task]) (w_ret w, a_xdb (w_async w)) = Some (w_ret w2, a_xdb (w_async w2))"
      using IH(5) d by (simp add: carry_out_snoc)
    moreover have "concat (map (accepted (a_latency_log (w_async w))) (evs @ [ev])) = (ts @ [task]) @ pending w2"
      using IH(3) p Work by simp
    moreover have "length (ts @ [task]) = sum_list (map worked (evs @ [ev]))" using IH(4) Work by simp
    ultimately show ?thesis using IH(2) by metis
  qed
qed

subsection \<open>What a task does to the index\<close>

definition ix_task :: "ims_task \<Rightarrow> index \<Rightarrow> index" where
  "ix_task t ix =
     (let f = t_file t; g = the (xf_gfid f); p = the (xf_path f) in
      if t_op t = IMS_TASK_INSERT_NEW_FILE then snd (ix_new_file g p (t_sb t) ix)
      else if t_op t = IMS_TASK_UNLINK_FILE then snd (ix_unlink p ix)
      else if t_op t = IMS_TASK_UPDATE_STAT then snd (ix_update_stat g (t_sb t) IMS_XDB_STAT_OP_ALL ix)
      else if t_op t = IMS_TASK_LINK_FILE then snd (ix_link g p ix)
      else if t_op t = IMS_TASK_RENAME then snd (ix_rename p (the (xf_extra f)) ix)
      else if t_op t = IMS_TASK_INSERT_XATTR
        then snd (ix_setxattr (the (at_gfid (t_attr t))) (the (at_name (t_attr t))) (attr_vals (t_attr t)) ix)
      else ix)"

definition has_slash :: "string option \<Rightarrow> bool" where
  "has_slash p \<longleftrightarrow> (\<exists>q. p = Some q \<and> CHR ''/'' \<in> set q)"

text \<open>The fields the operation of a task needs.\<close>

definition task_ok :: "ims_task \<Rightarrow> bool" where
  "task_ok t \<longleftrightarrow>
     (t_op t = IMS_TASK_INSERT_NEW_FILE \<longrightarrow> xf_gfid (t_file t) \<noteq> None \<and> has_slash (xf_path (t_file t))) \<and>
     (t_op t = IMS_TASK_UNLINK_FILE \<longrightarrow> xf_path (t_file t) \<noteq> None) \<and>
     (t_op t = IMS_TASK_UPDATE_STAT \<longrightarrow> xf_gfid (t_file t) \<noteq> None) \<and>
     (t_op t = IMS_TASK_LINK_FILE \<longrightarrow> xf_gfid (t_file t) \<noteq> None \<and> has_slash (xf_path (t_file t))) \<and>
     (t_op t = IMS_TASK_RENAME \<longrightarrow> xf_path (t_file t) \<noteq> None \<and> has_slash (xf_extra (t_file t))) \<and>
     (t_op t = IMS_TASK_INSERT_XATTR \<longrightarrow> at_gfid (t_attr t) \<noteq> None \<and> at_name (t_attr t) \<noteq> None \<and>
        at_type (t_attr t) \<in> {IMS_XDB_TYPE_INTEGER, IMS_XDB_TYPE_REAL, IMS_XDB_TYPE_STRING})"

lemma name_pos_slash: "CHR ''/'' \<in> set p \<Longrightarrow> \<exists>pos. name_substr_pos p = Some pos"
  by (auto simp: name_substr_pos_def rindex_def Let_def takeWhile_eq_all_conv)

lemma has_slash_pos: "has_slash p \<Longrightarrow> \<exists>q pos. p = Some q \<and> name_substr_pos q = Some pos"
  using name_pos_slash by (auto simp: has_slash_def)

lemma gids_below_mono: "gids_below b d \<Longrightarrow> b \<le> b' \<Longrightarrow> gids_below b' d"
  by (fastforce simp: gids_below_def)

lemma gids_below_same: "xdb_xgfid d' = xdb_xgfid d \<Longrightarrow> gids_below b d \<Longrightarrow> gids_below (b + 1) d'"
  by (fastforce simp: gids_below_def)

lemma xgfid_insert_stat_rows: "insert_stat_rows k rs d = Some d' \<Longrightarrow> xdb_xgfid d' = xdb_xgfid d"
  by (induction k rs d rule: insert_stat_rows.induct) (auto simp: new_xdata_def split: if_splits option.splits)

lemma xgfid_put_ivals: "xdb_xgfid (put_ivals g us d) = xdb_xgfid d"
  by (induction us arbitrary: d) (auto simp: xdb_simps)

lemma xgfid_with_name: "xdb_xgfid (with_name n d) = xdb_xgfid d"
  by (simp add: with_name_def)


context reliable_engine
begin

lemma dispatch_gids:
  assumes "dispatch E t r x = Some (ret, x')" "tx_of x = None" "gids_below b (xdb_of x)" "1 \<le> b"
  shows "gids_below (b + 1) (xdb_of x')"
proof -
  have keep: "xdb_of x' = xdb_of x \<Longrightarrow> gids_below (b + 1) (xdb_of x')" using gids_below_same assms(3) by simp
  consider "t_op t = IMS_TASK_INSERT_NEW_FILE" | "t_op t = IMS_TASK_UNLINK_FILE" | "t_op t = IMS_TASK_UPDATE_STAT"
    | "t_op t = IMS_TASK_LINK_FILE" | "t_op t = IMS_TASK_RENAME" | "t_op t = IMS_TASK_INSERT_XATTR"
    | "t_op t \<notin> {IMS_TASK_INSERT_NEW_FILE, IMS_TASK_UNLINK_FILE, IMS_TASK_UPDATE_STAT, IMS_TASK_LINK_FILE,
         IMS_TASK_RENAME, IMS_TASK_INSERT_XATTR}" by blast
  then show ?thesis
  proof cases
    case 1
    then have "ims_xdb_insert_new_file E (Some x) (Some (t_file t)) (Some (t_sb t)) = Some (ret, Some x')"
      using assms(1) by (auto simp: dispatch_def worker_insert_new_file_def split: Option.bind_splits)
    from insert_new_file_law [OF this assms(2) begin_ok] keep gids_below_add [OF assms(3,4)] show ?thesis
      by (auto simp: ends_reliable gids_below_def xdb_simps dest!: xgfid_insert_stat_rows)
  next
    case 2
    then have "ims_xdb_unlink_file E (Some x) (Some (t_file t)) = Some (ret, x')"
      using assms(1) by (simp add: dispatch_def worker_unlink_file_def)
    from unlink_file_law [OF this] keep gids_below_same [OF _ assms(3)] show ?thesis
      by (auto simp: no_effect_none assms(2) xdb_simps)
  next
    case 3
    then have "ims_xdb_update_stat E (Some x) (Some (t_file t)) (Some (t_sb t)) IMS_XDB_STAT_OP_ALL = Some (ret, x')"
      using assms(1) by (simp add: dispatch_def worker_update_stat_def)
    from update_stat_law [OF this assms(2) begin_ok] keep gids_below_same [OF _ assms(3)] show ?thesis
      by (auto simp: ends_reliable xgfid_put_ivals)
  next
    case 4
    then have "ims_xdb_link_file E (Some x) (Some (t_file t)) = Some (ret, x')"
      using assms(1) by (simp add: dispatch_def worker_link_file_def)
    from link_file_law [OF this] keep gids_below_same [OF _ assms(3)] show ?thesis
      by (auto simp: no_effect_none assms(2) xdb_simps)
  next
    case 5
    then have "ims_xdb_rename E (Some x) (Some (t_file t)) = Some (ret, x')"
      using assms(1) by (simp add: dispatch_def worker_rename_def)
    from rename_law [OF this] keep gids_below_same [OF _ assms(3)] show ?thesis
      by (auto simp: no_effect_none assms(2) xdb_simps)
  next
    case 6
    then have "ims_xdb_setxattr E (Some x) (Some (t_attr t)) = Some (ret, x')"
      using assms(1) by (simp add: dispatch_def worker_insert_xattr_def)
    from setxattr_law [OF this assms(2) begin_ok] keep gids_below_same [OF _ assms(3)] show ?thesis
      by (auto simp: ends_reliable xgfid_with_name xdb_simps)
  next
    case 7
    then have "x' = x" using assms(1) by (auto simp: dispatch_def worker_remove_xattr_def split: if_splits)
    then show ?thesis using keep by simp
  qed
qed

end

definition task_refined :: "ims_task \<Rightarrow> xdb_db \<Rightarrow> xdb_db \<Rightarrow> bool" where
  "task_refined t d d' \<longleftrightarrow> abs_index d' = ix_task t (abs_index d) \<and> db_ok d'"

lemma refined_snd: "refined spec d ret d' \<Longrightarrow> abs_index d' = snd (spec (abs_index d)) \<and> db_ok d'"
  by (metis refined_def snd_conv)

context reliable_engine
begin

lemma dispatch_cases:
  assumes "db_ok (xdb_of x)" "gids_below b (xdb_of x)" "b \<le> 2 ^ 31 - 1" "tx_of x = None" "task_ok t"
  shows "\<exists>ret x'. dispatch E t r x = Some (ret, x') \<and> task_refined t (xdb_of x) (xdb_of x') \<and> tx_of x' = None"
proof -
  have below: "gids_below (2 ^ 31 - 1) (xdb_of x)" "gids_below (2 ^ 31) (xdb_of x)"
    using assms(2,3) by (auto intro: gids_below_mono)
  note defs = dispatch_def task_refined_def ix_task_def Let_def
  let ?f = "t_file t" and ?a = "t_attr t"
  consider "t_op t = IMS_TASK_INSERT_NEW_FILE" | "t_op t = IMS_TASK_UNLINK_FILE" | "t_op t = IMS_TASK_UPDATE_STAT"
    | "t_op t = IMS_TASK_LINK_FILE" | "t_op t = IMS_TASK_RENAME" | "t_op t = IMS_TASK_INSERT_XATTR"
    | "t_op t \<notin> {IMS_TASK_INSERT_NEW_FILE, IMS_TASK_UNLINK_FILE, IMS_TASK_UPDATE_STAT, IMS_TASK_LINK_FILE,
         IMS_TASK_RENAME, IMS_TASK_INSERT_XATTR}" by blast
  then show ?thesis
  proof cases
    case 1
    with assms(5) obtain g p pos where f: "xf_gfid ?f = Some g" "xf_path ?f = Some p" "name_substr_pos p = Some pos"
      by (auto simp: task_ok_def dest!: has_slash_pos)
    obtain ret x' where "ims_xdb_insert_new_file E (Some x) (Some ?f) (Some (t_sb t)) = Some (ret, Some x')"
      "refined (ix_new_file g p (t_sb t)) (xdb_of x) ret (xdb_of x')" "tx_of x' = None"
      using new_file_refined [OF assms(1) below(1) f assms(4)] .
    then show ?thesis using 1 f refined_snd by (simp add: defs worker_insert_new_file_def)
  next
    case 2
    with assms(5) obtain p where f: "xf_path ?f = Some p" by (auto simp: task_ok_def)
    obtain ret x' where "ims_xdb_unlink_file E (Some x) (Some ?f) = Some (ret, x')"
      "refined (ix_unlink p) (xdb_of x) ret (xdb_of x')" "tx_of x' = None"
      using unlink_refined [OF assms(1) f assms(4)] .
    then show ?thesis using 2 f refined_snd by (simp add: defs worker_unlink_file_def)
  next
    case 3
    with assms(5) obtain g where f: "xf_gfid ?f = Some g" by (auto simp: task_ok_def)
    obtain ret x' where "ims_xdb_update_stat E (Some x) (Some ?f) (Some (t_sb t)) IMS_XDB_STAT_OP_ALL = Some (ret, x')"
      "refined (ix_update_stat g (t_sb t) IMS_XDB_STAT_OP_ALL) (xdb_of x) ret (xdb_of x')" "tx_of x' = None"
      using update_stat_refined [OF assms(1) below(2) f assms(4)] by blast
    then show ?thesis using 3 f refined_snd by (simp add: defs worker_update_stat_def)
  next
    case 4
    with assms(5) obtain g p pos where f: "xf_gfid ?f = Some g" "xf_path ?f = Some p" "name_substr_pos p = Some pos"
      by (auto simp: task_ok_def dest!: has_slash_pos)
    obtain ret x' where "ims_xdb_link_file E (Some x) (Some ?f) = Some (ret, x')"
      "refined (ix_link g p) (xdb_of x) ret (xdb_of x')" "tx_of x' = None"
      using link_refined [OF assms(1) f assms(4)] .
    then show ?thesis using 4 f refined_snd by (simp add: defs worker_link_file_def)
  next
    case 5
    with assms(5) obtain p q pos where f: "xf_path ?f = Some p" "xf_extra ?f = Some q" "name_substr_pos q = Some pos"
      by (auto simp: task_ok_def dest!: has_slash_pos)
    obtain ret x' where "ims_xdb_rename E (Some x) (Some ?f) = Some (ret, x')"
      "refined (ix_rename p q) (xdb_of x) ret (xdb_of x')" "tx_of x' = None"
      using rename_refined [OF assms(1) f assms(4)] .
    then show ?thesis using 5 f refined_snd by (simp add: defs worker_rename_def)
  next
    case 6
    with assms(5) obtain g n where a: "at_gfid ?a = Some g" "at_name ?a = Some n"
      and ty: "at_type ?a \<in> {IMS_XDB_TYPE_INTEGER, IMS_XDB_TYPE_REAL, IMS_XDB_TYPE_STRING}" by (auto simp: task_ok_def)
    obtain ret x' where "ims_xdb_setxattr E (Some x) (Some ?a) = Some (ret, x')"
      "refined (ix_setxattr g n (attr_vals ?a)) (xdb_of x) ret (xdb_of x')" "tx_of x' = None"
      using setxattr_refined [OF assms(1) a assms(4) ty] .
    then show ?thesis using 6 a refined_snd by (simp add: defs worker_insert_xattr_def)
  next
    case 7
    then show ?thesis using assms(1,4) by (auto simp: defs worker_remove_xattr_def)
  qed
qed

lemma dispatch_refined:
  assumes "db_ok (xdb_of x)" "gids_below b (xdb_of x)" "1 \<le> b" "b \<le> 2 ^ 31 - 1" "tx_of x = None" "task_ok t"
  obtains ret x' where "dispatch E t r x = Some (ret, x')" "task_refined t (xdb_of x) (xdb_of x')" "tx_of x' = None"
    "gids_below (b + 1) (xdb_of x')"
  using dispatch_cases [OF assms(1,2,4-6)] dispatch_gids [OF _ assms(5,2,3)] by metis

lemma run_refines:
  assumes "async_run E w evs w'" "worker_inv w" "pending w = []"
    and "db_ok (xdb_of (a_xdb (w_async w)))" "tx_of (a_xdb (w_async w)) = None"
    and "gids_below b (xdb_of (a_xdb (w_async w)))" "1 \<le> b" "b + int (sum_list (map worked evs)) \<le> 2 ^ 31 - 1"
    and "\<forall>t \<in> set (concat (map (accepted (a_latency_log (w_async w))) evs)). task_ok t"
  shows "let x = a_xdb (w_async w); x' = a_xdb (w_async w'); n = sum_list (map worked evs) in
    db_ok (xdb_of x') \<and> tx_of x' = None \<and> gids_below (b + int n) (xdb_of x') \<and>
    abs_index (xdb_of x') = fold ix_task (take n (concat (map (accepted (a_latency_log (w_async w))) evs))) (abs_index (xdb_of x))"
  using assms
proof (induction rule: async_run.induct)
  case (run_nil w)
  then show ?case by simp
next
  case (run_snoc w evs w1 ev w2)
  let ?acc = "\<lambda>evs. concat (map (accepted (a_latency_log (w_async w))) evs)" and ?n = "sum_list (map worked evs)"
  have le: "?n \<le> sum_list (map worked (evs @ [ev]))" by simp
  have IH: "db_ok (xdb_of (a_xdb (w_async w1)))" "tx_of (a_xdb (w_async w1)) = None"
    "gids_below (b + int ?n) (xdb_of (a_xdb (w_async w1)))"
    "abs_index (xdb_of (a_xdb (w_async w1))) = fold ix_task (take ?n (?acc evs)) (abs_index (xdb_of (a_xdb (w_async w))))"
    using run_snoc.IH run_snoc.prems by (auto simp: Let_def)
  from run_fifo [OF run_snoc.hyps(1) run_snoc.prems(1,2)] obtain ts where
    inv: "worker_inv w1" and ts: "?acc evs = ts @ pending w1" "length ts = ?n" by blast
  show ?case
  proof (cases ev)
    case (Put ok new now task)
    with run_snoc.hyps(2) obtain ret self where
      p: "ims_async_put_task ok new now (w_async w1) task = (ret, self)" and w2: "w2 = w1\<lparr>w_async := self\<rparr>"
      by (auto elim: async_stepE)
    have "a_xdb self = a_xdb (w_async w1)"
      using p by (auto simp: ims_async_put_task_def task_queue_append_def Let_def split: option.splits)
    moreover have "?n - length (?acc evs) = 0" using ts by simp
    ultimately show ?thesis using IH Put w2 by (simp add: Let_def)
  next
    case Fetch
    with run_snoc.hyps(2) have "a_xdb (w_async w2) = a_xdb (w_async w1)"
      by (auto elim!: async_stepE simp: work_fetch_def task_queue_fetch_def Let_def)
    then show ?thesis using IH Fetch by (simp add: Let_def)
  next
    case (Work now)
    with run_snoc.hyps(2) have w2: "work_task E now w1 = Some w2" by (auto elim: async_stepE)
    from work_inv [OF inv this] obtain task ret where p: "pending w1 = task # pending w2"
      and d: "dispatch E task (w_ret w1) (a_xdb (w_async w1)) = Some (ret, a_xdb (w_async w2))" by (elim conjE exE)
    have "task_ok task" using run_snoc.prems(8) ts p by simp
    moreover have "1 \<le> b + int ?n" "b + int ?n \<le> 2 ^ 31 - 1" using run_snoc.prems(6,7) Work by simp_all
    ultimately have "task_refined task (xdb_of (a_xdb (w_async w1))) (xdb_of (a_xdb (w_async w2))) \<and>
        tx_of (a_xdb (w_async w2)) = None \<and> gids_below (b + int ?n + 1) (xdb_of (a_xdb (w_async w2)))"
      using dispatch_refined [OF IH(1,3) _ _ IH(2), of task "w_ret w1"] d by fastforce
    moreover have "take (Suc ?n) (?acc (evs @ [ev])) = take ?n (?acc evs) @ [task]"
      using ts p Work by simp
    ultimately show ?thesis using IH Work by (simp add: Let_def task_refined_def algebra_simps del: take_append)
  qed
qed

end

definition loggable :: "bool \<Rightarrow> ims_task \<Rightarrow> bool" where
  "loggable stamp t \<longleftrightarrow> (stamp \<longrightarrow> 0 \<le> t_op t \<and> t_op t < int (length opstrs))"

context reliable_engine
begin

lemma work_progress:
  assumes "worker_inv w" "pending w = t # ts" "db_ok (xdb_of (a_xdb (w_async w)))" "tx_of (a_xdb (w_async w)) = None"
    and "gids_below b (xdb_of (a_xdb (w_async w)))" "b \<le> 2 ^ 31 - 1" "task_ok t" "loggable (a_latency_log (w_async w)) t"
  obtains w' evs where "async_run E w evs w'" "concat (map (accepted l) evs) = []" "sum_list (map worked evs) = 1" "pending w' = ts"
    "\<forall>e \<in> set evs. e = Fetch \<or> (\<exists>now. e = Work now)"
proof -
  define v where "v = (if w_task w = None then work_fetch w else w)"
  define es where "es = (if w_task w = None then [Fetch] else [])"
  have v: "async_run E w es v" using run_snoc [OF run_nil fetch, of w E] by (cases "w_task w") (simp_all add: v_def es_def run_nil)
  have inv: "worker_inv v" "pending v = t # ts" using fetch_inv [OF assms(1)] assms(1,2) by (auto simp: v_def)
  have same: "a_xdb (w_async v) = a_xdb (w_async w)" "a_latency_log (w_async v) = a_latency_log (w_async w)"
    by (auto simp: v_def work_fetch_def task_queue_fetch_def Let_def)
  have "w_task v \<noteq> None"
  proof (cases "w_task w")
    case None
    then have "queue_items (w_async w) \<noteq> []" "queue_ok (w_async w)"
      using assms(1,2) by (auto simp: pending_def pending_addrs_def worker_inv_def)
    then show ?thesis using None task_queue.deq_none [of "w_async w"] by (auto simp: v_def work_fetch_def split: prod.splits)
  qed (simp add: v_def)
  then obtain a where a: "w_task v = Some a" by auto
  then have task: "a_tasks (w_async v) a = Some t" using inv by (auto simp: pending_def pending_addrs_def worker_inv_def)
  obtain ret x where d: "dispatch E t (w_ret v) (a_xdb (w_async w)) = Some (ret, x)"
    using dispatch_cases [OF assms(3,5,6,4,7)] by blast
  obtain w' where w': "work_task E \<lparr>tv_sec = 0, tv_usec = 0\<rparr> v = Some w'"
    using a task d same assms(8) by (auto simp: work_task_def Let_def loggable_def queue_time_log_def)
  then have "async_run E w (es @ [Work \<lparr>tv_sec = 0, tv_usec = 0\<rparr>]) w'" using v by (intro run_snoc work)
  moreover have "pending w' = ts" using work_inv [OF inv(1) w'] inv(2) by auto
  moreover have "concat (map (accepted l) es) = []" "sum_list (map worked es) = 0"
    "\<forall>e \<in> set es. e = Fetch \<or> (\<exists>now. e = Work now)" by (simp_all add: es_def)
  ultimately show ?thesis using that by simp
qed

end

lemma async_run_append: "async_run E w1 es2 w2 \<Longrightarrow> async_run E w es1 w1 \<Longrightarrow> async_run E w (es1 @ es2) w2"
  by (induction rule: async_run.induct) (auto simp flip: append_assoc intro: run_snoc)

text \<open>The worker as the server starts it.\<close>

definition fresh_worker :: "'c ims_xdb \<Rightarrow> addr \<Rightarrow> list_heap \<Rightarrow> bool \<Rightarrow> 'c worker" where
  "fresh_worker x head h stamp = (case the (ims_async_init (Some x) (Some head) 0 h) of (_, w) \<Rightarrow>
     (the w)\<lparr>w_async := (w_async (the w))\<lparr>a_latency_log := stamp\<rparr>\<rparr>)"

lemma fresh_worker_ret: "w_ret (fresh_worker x head h stamp) = 0"
  by (simp add: fresh_worker_def ims_async_init_def)

lemma fresh_worker_simps [simp]:
  "worker_inv (fresh_worker x head h stamp)" "pending (fresh_worker x head h stamp) = []"
  "a_xdb (w_async (fresh_worker x head h stamp)) = x" "a_latency_log (w_async (fresh_worker x head h stamp)) = stamp"
proof -
  have "is_list (INIT_LIST_HEAD head h) head []" by (rule is_list_init)
  then have "queue_items (w_async (fresh_worker x head h stamp)) = []" "queue_ok (w_async (fresh_worker x head h stamp))"
    by (auto simp: fresh_worker_def ims_async_init_def queue_items_def list_for_each_list queue_ok_def)
  then show "worker_inv (fresh_worker x head h stamp)" "pending (fresh_worker x head h stamp) = []"
    by (simp_all add: worker_inv_def pending_def pending_addrs_def)
      (simp_all add: fresh_worker_def ims_async_init_def)
qed (simp_all add: fresh_worker_def ims_async_init_def)

text \<open>The tasks that were accepted in a run, as copied to the queue.\<close>

definition all_accepted :: "bool \<Rightarrow> async_event list \<Rightarrow> ims_task list" where
  "all_accepted stamp evs = concat (map (accepted stamp) evs)"

definition all_worked :: "async_event list \<Rightarrow> nat" where
  "all_worked evs = sum_list (map worked evs)"

lemma drain:
  assumes "reliable_engine E db tx" "async_run E (fresh_worker x head h stamp) evs w"
    and "db_ok (db (conn x))" "tx (conn x) = None" "gids_below b (db (conn x))" "1 \<le> b"
    and "b + int (length (all_accepted stamp evs)) \<le> 2 ^ 31 - 1"
    and "\<forall>t \<in> set (all_accepted stamp evs). task_ok t \<and> loggable stamp t"
  shows "\<exists>evs' w'. async_run E (fresh_worker x head h stamp) (evs @ evs') w' \<and> all_accepted stamp evs' = [] \<and> pending w' = []"
  using assms(2,7,8)
proof (induction "pending w" arbitrary: evs w)
  case Nil
  then show ?case by (intro exI [of _ "[]"] exI [of _ w]) (simp add: all_accepted_def)
next
  case (Cons t ts)
  from run_fifo [OF Cons.prems(1)] obtain us where inv: "worker_inv w" "a_latency_log (w_async w) = stamp"
    and us: "all_accepted stamp evs = us @ pending w" "length us = all_worked evs"
    by (auto simp: all_accepted_def all_worked_def)
  then have n: "b + int (all_worked evs) \<le> 2 ^ 31 - 1" using Cons.prems(2) by simp
  from reliable_engine.run_refines [OF assms(1) Cons.prems(1), of b] assms(3-6) n Cons.prems(3)
  have s: "db_ok (db (conn (a_xdb (w_async w))))" "tx (conn (a_xdb (w_async w))) = None"
    "gids_below (b + int (all_worked evs)) (db (conn (a_xdb (w_async w))))"
    by (auto simp: Let_def all_accepted_def all_worked_def)
  have t: "task_ok t" "loggable (a_latency_log (w_async w)) t" using Cons.prems(3) us Cons.hyps(2) [symmetric] inv(2) by auto
  obtain es w1 where w1: "async_run E w es w1" "concat (map (accepted stamp) es) = []" "pending w1 = ts"
    using reliable_engine.work_progress [OF assms(1) inv(1) Cons.hyps(2) [symmetric] s n t, where l = stamp] by blast
  have "async_run E (fresh_worker x head h stamp) (evs @ es) w1" using async_run_append [OF w1(1) Cons.prems(1)] .
  moreover have "all_accepted stamp (evs @ es) = all_accepted stamp evs" using w1(2) by (simp add: all_accepted_def)
  ultimately obtain evs' w' where "async_run E (fresh_worker x head h stamp) ((evs @ es) @ evs') w'"
    "all_accepted stamp evs' = []" "pending w' = []"
    using Cons.hyps(1) [of w1 "evs @ es"] Cons.prems(2,3) w1(3) by auto
  then show ?case using w1(2) by (intro exI [of _ "es @ evs'"] exI [of _ w']) (simp add: all_accepted_def)
qed


text \<open>C5. Tasks are carried out in the order in which they were accepted, each exactly once,
  whatever the engine answers and however producers and worker interleave: the tasks
  accepted in a run are those already worked on followed by those still pending; the index (with
  its connection) and the result the worker holds are those of dispatching the tasks already
  worked on one after the other, in that order, on the index the run started from; and every
  pending task is still allocated.\<close>

theorem async_first_in_first_out:
  assumes "async_run E (fresh_worker x head h stamp) evs w"
  shows "\<exists>ts. all_accepted stamp evs = ts @ pending w \<and> length ts = all_worked evs \<and>
    carry_out E ts (0, x) = Some (w_ret w, a_xdb (w_async w)) \<and>
    (\<forall>a \<in> set (pending_addrs w). a_tasks (w_async w) a \<noteq> None)"
  using run_fifo [OF assms fresh_worker_simps(1,2)]
  by (simp add: all_accepted_def all_worked_def worker_inv_def fresh_worker_ret)

lemma run_index:
  assumes "reliable_engine E db tx" "async_run E (fresh_worker x head h stamp) evs w"
    and "db_ok (db (conn x))" "tx (conn x) = None" "gids_below b (db (conn x))" "1 \<le> b"
    and "b + int (all_worked evs) \<le> 2 ^ 31 - 1" "\<forall>t \<in> set (all_accepted stamp evs). task_ok t"
  shows "abs_index (db (conn (a_xdb (w_async w)))) =
      fold ix_task (take (all_worked evs) (all_accepted stamp evs)) (abs_index (db (conn x))) \<and>
    db_ok (db (conn (a_xdb (w_async w))))"
  using reliable_engine.run_refines [OF assms(1,2), of b] assms(3-8)
  by (simp add: Let_def all_accepted_def all_worked_def)

text \<open>C4. With an engine without faults the asynchronous index is the synchronous one, late:
  after any run the database is the one the accepted tasks give when they are applied
  in order up to the last one worked on, and its invariants hold.\<close>

theorem async_refines_index:
  assumes "reliable_engine E db tx" "async_run E (fresh_worker x head h stamp) evs w"
    and "db_ok (db (conn x))" "tx (conn x) = None" "gids_below b (db (conn x))" "1 \<le> b"
    and "b + int (all_worked evs) \<le> 2 ^ 31 - 1" "\<forall>t \<in> set (all_accepted stamp evs). task_ok t"
  shows "abs_index (db (conn (a_xdb (w_async w)))) =
      fold ix_task (take (all_worked evs) (all_accepted stamp evs)) (abs_index (db (conn x))) \<and>
    db_ok (db (conn (a_xdb (w_async w))))"
  by (rule run_index [OF assms])

text \<open>C16. On an engine without faults the worker never gets stuck and the queue can always be drained:
  from every state reached with accepted tasks that carry the fields their operation needs (and,
  where the latency log is on, an operation it has a name for), while the row numbers of the index stay below
  \<open>2^31\<close>, some steps of the worker alone empty the queue, and then the index holds the effect of
  all accepted tasks in order.\<close>

theorem async_drains:
  assumes "reliable_engine E db tx" "async_run E (fresh_worker x head h stamp) evs w"
    and "db_ok (db (conn x))" "tx (conn x) = None" "gids_below b (db (conn x))" "1 \<le> b"
    and "b + int (length (all_accepted stamp evs)) \<le> 2 ^ 31 - 1"
    and "\<forall>t \<in> set (all_accepted stamp evs). task_ok t \<and> loggable stamp t"
  shows "\<exists>evs' w'. async_run E (fresh_worker x head h stamp) (evs @ evs') w' \<and>
    all_accepted stamp evs' = [] \<and> pending w' = [] \<and>
    abs_index (db (conn (a_xdb (w_async w')))) = fold ix_task (all_accepted stamp evs) (abs_index (db (conn x)))"
proof -
  obtain evs' w' where run: "async_run E (fresh_worker x head h stamp) (evs @ evs') w'"
    and acc: "all_accepted stamp evs' = []" and p: "pending w' = []" using drain [OF assms] by blast
  have all: "all_accepted stamp (evs @ evs') = all_accepted stamp evs" using acc by (simp add: all_accepted_def)
  from run_fifo [OF run] p have n: "length (all_accepted stamp (evs @ evs')) = all_worked (evs @ evs')"
    by (auto simp: all_accepted_def all_worked_def)
  have "\<forall>t \<in> set (all_accepted stamp (evs @ evs')). task_ok t" "b + int (all_worked (evs @ evs')) \<le> 2 ^ 31 - 1"
    using assms(7,8) all n by auto
  from run_index [OF assms(1) run assms(3-6) this(2,1)]
  have "abs_index (db (conn (a_xdb (w_async w')))) = fold ix_task (all_accepted stamp evs) (abs_index (db (conn x)))"
    by (simp add: n [symmetric]) (simp add: all)
  then show ?thesis using run acc p by blast
qed


subsection \<open>Samples\<close>

definition sample_task :: ims_task where
  "sample_task = \<lparr>t_op = IMS_TASK_INSERT_NEW_FILE, t_file = sample_file, t_sb = sample_stat, t_attr = sample_attr,
     t_enqueue = \<lparr>tv_sec = 0, tv_usec = 0\<rparr>, t_complete = \<lparr>tv_sec = 0, tv_usec = 0\<rparr>\<rparr>"

definition sample_events :: "async_event list" where
  "sample_events = [Put (\<lambda>_. True) (Some 5) \<lparr>tv_sec = 1, tv_usec = 0\<rparr> sample_task]"

lemma sample_run: "\<exists>w. async_run E (fresh_worker x 3 h False) sample_events w"
proof -
  let ?w = "fresh_worker x 3 h False"
  obtain ret self where p: "ims_async_put_task (\<lambda>_. True) (Some 5) \<lparr>tv_sec = 1, tv_usec = 0\<rparr> (w_async ?w) sample_task = (ret, self)"
    by (metis surj_pair)
  have "async_step E ?w (Put (\<lambda>_. True) (Some 5) \<lparr>tv_sec = 1, tv_usec = 0\<rparr> sample_task) (?w\<lparr>w_async := self\<rparr>)"
    by (rule put [OF _ p]) (simp add: fresh_worker_def ims_async_init_def)
  from run_snoc [OF run_nil this] show ?thesis by (auto simp: sample_events_def)
qed

lemma sample_accepted: "all_accepted False sample_events = [sample_task]" "all_worked sample_events = 0"
  "task_ok sample_task"
  by (simp_all add: all_accepted_def all_worked_def sample_events_def accept_def task_dup_def gf_strdup_def task_ok_def
      has_slash_def sample_task_def sample_file_def sample_attr_def)

theorem async_first_in_first_out_witness:
  "\<exists>w. async_run ref_engine (fresh_worker (sample_xdb [] xdb_schema) 3 sample_heap False) sample_events w \<and>
    pending w = [sample_task]"
proof -
  obtain w where run: "async_run ref_engine (fresh_worker (sample_xdb [] xdb_schema) 3 sample_heap False) sample_events w"
    using sample_run by blast
  from async_first_in_first_out [OF run] show ?thesis using run sample_accepted by (intro exI [of _ w]) auto
qed

theorem async_refines_index_witness:
  "\<exists>w. async_run plain_engine (fresh_worker (sample_xdb [] xdb_schema) 3 sample_heap False) sample_events w \<and>
    abs_index (rc_db (conn (a_xdb (w_async w)))) = abs_index xdb_schema"
proof -
  obtain w where run: "async_run plain_engine (fresh_worker (sample_xdb [] xdb_schema) 3 sample_heap False) sample_events w"
    using sample_run by blast
  from async_refines_index [OF plain_sqlite.reliable_engine_axioms run, of 1] show ?thesis
    using run sample_accepted schema_ok by (intro exI [of _ w]) simp
qed

theorem async_drains_witness:
  "\<exists>evs' w'. async_run plain_engine (fresh_worker (sample_xdb [] xdb_schema) 3 sample_heap False) (sample_events @ evs') w' \<and>
    pending w' = [] \<and> abs_index (rc_db (conn (a_xdb (w_async w')))) = ix_task sample_task (abs_index xdb_schema)"
proof -
  obtain w where run: "async_run plain_engine (fresh_worker (sample_xdb [] xdb_schema) 3 sample_heap False) sample_events w"
    using sample_run by blast
  from async_drains [OF plain_sqlite.reliable_engine_axioms run, of 1] show ?thesis
    using sample_accepted schema_ok by (auto simp: loggable_def)
qed

end
