(* ===== verification/Uuid.thy ===== *)
theory Uuid
  imports Dict_Codec
begin

text \<open>
  UUIDs (\<open>contrib/uuid\<close>, \<open>uuid_utoa\<close>): packing, printing, parsing and comparing the sixteen
  bytes that name a file.
\<close>

unbundle bit_operations_syntax

subsection \<open>Packing\<close>

type_synonym u16 = "16 word"
type_synonym uuid_t = "byte list"

record uuid =
  time_low :: u32
  time_mid :: u16
  time_hi_and_version :: u16
  clock_seq :: u16
  node :: "byte list"

definition be16 :: "byte \<Rightarrow> byte \<Rightarrow> u16" where
  "be16 b0 b1 = (push_bit 8 (ucast b0)) OR ucast b1"

definition be32 :: "byte \<Rightarrow> byte \<Rightarrow> byte \<Rightarrow> byte \<Rightarrow> u32" where
  "be32 b0 b1 b2 b3 =
     (let tmp = ucast b0;
          tmp = push_bit 8 tmp OR ucast b1;
          tmp = push_bit 8 tmp OR ucast b2
      in push_bit 8 tmp OR ucast b3)"

definition uuid_unpack :: "uuid_t \<Rightarrow> uuid" where
  "uuid_unpack p =
     \<lparr>time_low = be32 (p ! 0) (p ! 1) (p ! 2) (p ! 3), time_mid = be16 (p ! 4) (p ! 5),
      time_hi_and_version = be16 (p ! 6) (p ! 7), clock_seq = be16 (p ! 8) (p ! 9), node = take 6 (drop 10 p)\<rparr>"

definition pack32 :: "u32 \<Rightarrow> byte list" where
  "pack32 tmp = [ucast (drop_bit 8 (drop_bit 8 (drop_bit 8 tmp))), ucast (drop_bit 8 (drop_bit 8 tmp)), ucast (drop_bit 8 tmp), ucast tmp]"

definition pack16 :: "u16 \<Rightarrow> byte list" where
  "pack16 tmp = [ucast (drop_bit 8 tmp), ucast tmp]"

definition uuid_pack :: "uuid \<Rightarrow> uuid_t" where
  "uuid_pack uu =
     pack32 (time_low uu) @ pack16 (time_mid uu) @ pack16 (time_hi_and_version uu) @ pack16 (clock_seq uu) @ take 6 (node uu)"

definition gf_uuid_is_null :: "uuid_t \<Rightarrow> bool" where
  "gf_uuid_is_null uu \<longleftrightarrow> (\<forall>c \<in> set (take 16 uu). c = 0)"

definition gf_uuid_copy :: "uuid_t \<Rightarrow> uuid_t \<Rightarrow> uuid_t" where
  "gf_uuid_copy dst src = take 16 src @ drop 16 dst"

definition gf_uuid_clear :: "uuid_t \<Rightarrow> uuid_t" where
  "gf_uuid_clear uu = replicate 16 0 @ drop 16 uu"

text \<open>\<open>memcmp\<close> of two arrays of the same length: the sign of the first difference.\<close>

fun memcmp_sign :: "byte list \<Rightarrow> byte list \<Rightarrow> int" where
  "memcmp_sign (x # xs) (y # ys) = (if x < y then -1 else if y < x then 1 else memcmp_sign xs ys)"
| "memcmp_sign _ _ = 0"

definition gf_uuid_compare :: "uuid_t \<Rightarrow> uuid_t \<Rightarrow> int" where
  "gf_uuid_compare uu1 uu2 =
     (let u1 = uuid_unpack uu1; u2 = uuid_unpack uu2 in
      if time_low u1 \<noteq> time_low u2 then (if time_low u1 < time_low u2 then -1 else 1)
      else if time_mid u1 \<noteq> time_mid u2 then (if time_mid u1 < time_mid u2 then -1 else 1)
      else if time_hi_and_version u1 \<noteq> time_hi_and_version u2
        then (if time_hi_and_version u1 < time_hi_and_version u2 then -1 else 1)
      else if clock_seq u1 \<noteq> clock_seq u2 then (if clock_seq u1 < clock_seq u2 then -1 else 1)
      else memcmp_sign (node u1) (node u2))"

subsection \<open>Printing and parsing\<close>

definition hex_char :: "bool \<Rightarrow> nat \<Rightarrow> char" where
  "hex_char upper d = (if d < 10 then char_of (48 + d) else char_of ((if upper then 55 else 87) + d))"

fun hex_str :: "bool \<Rightarrow> nat \<Rightarrow> string" where
  "hex_str upper n = (if n < 16 then [hex_char upper n] else hex_str upper (n div 16) @ [hex_char upper (n mod 16)])"

declare hex_str.simps [simp del]

text \<open>\<open>printf\<close> with \<open>%0<width>x\<close> or \<open>%0<width>X\<close>.\<close>

definition fmt_x :: "bool \<Rightarrow> nat \<Rightarrow> nat \<Rightarrow> string" where
  "fmt_x upper width n = (let s = hex_str upper n in replicate (width - length s) (CHR ''0'') @ s)"

definition gf_uuid_unparse_x :: "uuid_t \<Rightarrow> bool \<Rightarrow> string" where
  "gf_uuid_unparse_x uu upper =
     (let u = uuid_unpack uu in
      fmt_x upper 8 (unat (time_low u)) @ ''-'' @ fmt_x upper 4 (unat (time_mid u)) @ ''-'' @
      fmt_x upper 4 (unat (time_hi_and_version u)) @ ''-'' @
      fmt_x upper 2 (unat (drop_bit 8 (clock_seq u))) @ fmt_x upper 2 (unat (clock_seq u AND 0xFF)) @ ''-'' @
      concat (map (\<lambda>b. fmt_x upper 2 (unat b)) (take 6 (node u))))"

definition gf_uuid_unparse_lower :: "uuid_t \<Rightarrow> string" where
  "gf_uuid_unparse_lower uu = gf_uuid_unparse_x uu False"

definition gf_uuid_unparse_upper :: "uuid_t \<Rightarrow> string" where
  "gf_uuid_unparse_upper uu = gf_uuid_unparse_x uu True"

definition gf_uuid_unparse :: "uuid_t \<Rightarrow> string" where
  "gf_uuid_unparse uu = gf_uuid_unparse_x uu False"

definition uuid_utoa :: "uuid_t \<Rightarrow> string" where
  "uuid_utoa uuid = gf_uuid_unparse uuid"

text \<open>\<open>strtoul (s, NULL, 16)\<close>: white space, a sign and \<open>0x\<close> may precede the digits.\<close>

definition strip_0x :: "string \<Rightarrow> string" where
  "strip_0x s = (case s of
     c0 # c1 # c2 # cs \<Rightarrow>
       if c0 = CHR ''0'' \<and> (c1 = CHR ''x'' \<or> c1 = CHR ''X'') \<and> digit_val 16 c2 \<noteq> None then c2 # cs else s
   | _ \<Rightarrow> s)"

definition strtoul16 :: "string \<Rightarrow> nat" where
  "strtoul16 s =
     (let s1 = dropWhile c_isspace s;
          neg = (s1 \<noteq> [] \<and> hd s1 = CHR ''-'');
          s2 = (if s1 \<noteq> [] \<and> (hd s1 = CHR ''-'' \<or> hd s1 = CHR ''+'') then tl s1 else s1);
          m = strto_digits 16 (strip_0x s2) 0
      in if 2 ^ 64 \<le> m then 2 ^ 64 - 1 else if neg then (2 ^ 64 - m) mod 2 ^ 64 else m)"

definition isxdigit :: "char \<Rightarrow> bool" where
  "isxdigit c \<longleftrightarrow> digit_val 16 c \<noteq> None"

text \<open>The checks over the 36 characters.\<close>

fun parse_checks :: "nat \<Rightarrow> string \<Rightarrow> bool" where
  "parse_checks i [] = True"
| "parse_checks i (c # cs) =
     ((if i \<in> {8, 13, 18, 23} then c = CHR ''-'' else isxdigit c) \<and> parse_checks (i + 1) cs)"

definition gf_uuid_parse :: "string \<Rightarrow> int \<times> uuid_t option" where
  "gf_uuid_parse s =
     (if length s \<noteq> 36 then (-1, None)
      else if \<not> parse_checks 0 s then (-1, None)
      else let cp = drop 24 s in
        (0, Some (uuid_pack
          \<lparr>time_low = of_nat (strtoul16 s), time_mid = of_nat (strtoul16 (drop 9 s)),
           time_hi_and_version = of_nat (strtoul16 (drop 14 s)), clock_seq = of_nat (strtoul16 (drop 19 s)),
           node = map (\<lambda>i. of_nat (strtoul16 [cp ! (2 * i), cp ! (2 * i + 1)])) [0..<6]\<rparr>)))"

subsection \<open>Round trips\<close>

lemma unat_less: "unat (w :: 'a::len word) < 2 ^ LENGTH('a)"
  by (rule unsigned_less)

lemma unat_of_nat_id: "k < 2 ^ LENGTH('a) \<Longrightarrow> unat (of_nat k :: 'a::len word) = k"
  by (simp add: unsigned_of_nat take_bit_nat_eq_self)

lemma pack16_be16: "pack16 (be16 a b) = [a, b]"
  by (simp add: pack16_def be16_def) (intro conjI bit_word_eqI; auto simp: bit_simps dest: bit_imp_le_length)

lemma pack32_be32: "pack32 (be32 a b c d) = [a, b, c, d]"
  by (simp add: pack32_def be32_def Let_def) (intro conjI bit_word_eqI; auto simp: bit_simps dest: bit_imp_le_length)

lemma be16_pack16: "pack16 w = [a, b] \<Longrightarrow> be16 a b = w"
  by (auto simp: pack16_def be16_def intro!: bit_word_eqI) (auto simp: bit_simps dest: bit_imp_le_length)

lemma list_of_ten: "length xs = 10 \<Longrightarrow> \<exists>a0 a1 a2 a3 a4 a5 a6 a7 a8 a9. xs = [a0, a1, a2, a3, a4, a5, a6, a7, a8, a9]"
  by (auto simp: numeral_eq_Suc length_Suc_conv)

lemma pack_unpack:
  assumes "length p = 16" shows "uuid_pack (uuid_unpack p) = p"
proof -
  have "length (take 10 p) = 10" using assms by simp
  from list_of_ten [OF this] obtain a0 a1 a2 a3 a4 a5 a6 a7 a8 a9 where "take 10 p = [a0, a1, a2, a3, a4, a5, a6, a7, a8, a9]"
    by (elim exE)
  moreover define ns where "ns = drop 10 p"
  ultimately have p: "p = [a0, a1, a2, a3, a4, a5, a6, a7, a8, a9] @ ns" "length ns = 6"
    using append_take_drop_id [of 10 p] assms by simp_all
  show ?thesis by (simp add: uuid_pack_def uuid_unpack_def pack16_be16 pack32_be32 p)
qed

lemma digit_val_hex: "d < 16 \<Longrightarrow> digit_val 16 (hex_char upper d) = Some d"
  by (auto simp: hex_char_def digit_val_def Let_def)

lemma hex_str_digits: "list_all isxdigit (hex_str upper n)"
proof (induction upper n rule: hex_str.induct)
  case (1 upper n)
  have "isxdigit (hex_char upper d)" if "d < 16" for d using that by (simp add: isxdigit_def digit_val_hex)
  then show ?case using 1 by (subst hex_str.simps) simp
qed

lemma strto_hex_append:
  "list_all isxdigit xs \<Longrightarrow> strto_digits 16 (xs @ ys) acc = strto_digits 16 ys (strto_digits 16 xs acc)"
  using strto_digits_append [of 16 xs ys acc] by (simp add: isxdigit_def [abs_def])

lemma strto_hex_str: "strto_digits 16 (hex_str upper n) 0 = n"
proof (induction upper n rule: hex_str.induct)
  case (1 upper n)
  show ?case
  proof (cases "n < 16")
    case True
    then show ?thesis by (subst hex_str.simps) (simp add: digit_val_hex)
  next
    case False
    then have "strto_digits 16 (hex_str upper n) 0 = strto_digits 16 [hex_char upper (n mod 16)] (strto_digits 16 (hex_str upper (n div 16)) 0)"
      by (subst hex_str.simps) (simp only: if_False strto_hex_append [OF hex_str_digits])
    with 1 [OF False] show ?thesis by (simp add: digit_val_hex)
  qed
qed

lemma hex_str_length: "0 < k \<Longrightarrow> n < 16 ^ k \<Longrightarrow> length (hex_str upper n) \<le> k"
proof (induction k arbitrary: n)
  case (Suc k)
  show ?case
  proof (cases "n < 16")
    case True
    then show ?thesis by (subst hex_str.simps) simp
  next
    case False
    then have "0 < k" using Suc.prems(2) by (cases k) auto
    then show ?thesis using False Suc.IH [of "n div 16"] Suc.prems(2)
      by (subst hex_str.simps) (simp add: less_mult_imp_div_less mult.commute)
  qed
qed simp

text \<open>Numbers that fit are printed with exactly the width.\<close>

lemma fmt_x_fits:
  assumes "0 < k" "n < 16 ^ k"
  shows "length (fmt_x upper k n) = k" "list_all isxdigit (fmt_x upper k n)" "strto_digits 16 (fmt_x upper k n) 0 = n"
proof -
  have z: "isxdigit (CHR ''0'')" "digit_val 16 (CHR ''0'') = Some 0" by (simp_all add: isxdigit_def digit_val_def)
  then have zs: "list_all isxdigit (replicate j (CHR ''0''))" "strto_digits 16 (replicate j (CHR ''0'')) 0 = 0" for j
    by (induction j) simp_all
  show "length (fmt_x upper k n) = k" using hex_str_length [OF assms, of upper] by (simp add: fmt_x_def Let_def)
  show "list_all isxdigit (fmt_x upper k n)" using zs hex_str_digits by (simp add: fmt_x_def Let_def)
  show "strto_digits 16 (fmt_x upper k n) 0 = n"
    using zs by (simp add: fmt_x_def Let_def strto_hex_append strto_hex_str)
qed

lemma isxdigit_not:
  "isxdigit c \<Longrightarrow> \<not> c_isspace c \<and> c \<noteq> CHR ''-'' \<and> c \<noteq> CHR ''+'' \<and> c \<noteq> CHR ''x'' \<and> c \<noteq> CHR ''X''"
  by (auto simp: isxdigit_def digit_val_def c_isspace_def Let_def split: if_splits)

lemma strtoul16_digits:
  assumes "list_all isxdigit s" "2 \<le> length s" "strto_digits 16 s 0 < 2 ^ 64" "ys = [] \<or> \<not> isxdigit (hd ys)"
  shows "strtoul16 (s @ ys) = strto_digits 16 s 0"
proof -
  obtain a b cs where s: "s = a # b # cs" using assms(2) by (cases s; cases "tl s") auto
  then have d: "isxdigit a" "isxdigit b" using assms(1) by simp_all
  have "strto_digits 16 (s @ ys) 0 = strto_digits 16 s 0"
    using assms(1,4) by (cases ys) (auto simp: strto_hex_append isxdigit_def)
  moreover have "strip_0x (s @ ys) = s @ ys" using isxdigit_not [OF d(2)] by (simp add: s strip_0x_def split: list.split)
  moreover have "dropWhile c_isspace (s @ ys) = s @ ys" using isxdigit_not [OF d(1)] by (simp add: s)
  ultimately show ?thesis using assms(3) isxdigit_not [OF d(1)] by (simp add: strtoul16_def Let_def s)
qed

lemma parse_checks_append: "parse_checks i (xs @ ys) \<longleftrightarrow> parse_checks i xs \<and> parse_checks (i + length xs) ys"
  by (induction xs arbitrary: i) auto

lemma parse_checks_digits:
  "list_all isxdigit xs \<Longrightarrow> {i..<i + length xs} \<inter> {8, 13, 18, 23} = {} \<Longrightarrow> parse_checks i xs"
proof (induction xs arbitrary: i)
  case (Cons x xs)
  have "i \<in> {i..<i + length (x # xs)}" by simp
  then have "i \<notin> {8, 13, 18, 23}" using Cons.prems(2) by blast
  moreover have "{Suc i..<Suc i + length xs} \<subseteq> {i..<i + length (x # xs)}" by auto
  then have "{Suc i..<Suc i + length xs} \<inter> {8, 13, 18, 23} = {}" using Cons.prems(2) by blast
  then have "parse_checks (Suc i) xs" using Cons.IH [of "Suc i"] Cons.prems(1) by simp
  ultimately show ?case using Cons.prems(1) by simp
qed simp

abbreviation hexval :: "string \<Rightarrow> nat" where "hexval s \<equiv> strto_digits 16 s 0"

lemma strtoul16_field:
  "list_all isxdigit s \<Longrightarrow> 2 \<le> length s \<Longrightarrow> hexval s < 2 ^ 64 \<Longrightarrow> strtoul16 (s @ CHR ''-'' # ys) = hexval s"
  using strtoul16_digits [of s "CHR ''-'' # ys"] isxdigit_not [of "CHR ''-''"] by auto

lemma strtoul16_whole:
  "list_all isxdigit s \<Longrightarrow> 2 \<le> length s \<Longrightarrow> hexval s < 2 ^ 64 \<Longrightarrow> strtoul16 s = hexval s"
  using strtoul16_digits [of s "[]"] by simp

lemma strto_digits_acc:
  "list_all isxdigit ys \<Longrightarrow> strto_digits 16 ys acc = acc * 16 ^ length ys + hexval ys"
proof (induction ys arbitrary: acc)
  case (Cons y ys)
  then obtain d where d: "digit_val 16 y = Some d" by (auto simp: isxdigit_def)
  have "strto_digits 16 ys (acc * 16 + d) = (acc * 16 + d) * 16 ^ length ys + hexval ys" "strto_digits 16 ys d = d * 16 ^ length ys + hexval ys"
    using Cons.IH [of "acc * 16 + d"] Cons.IH [of d] Cons.prems by fastforce+
  then show ?case using d by (simp add: algebra_simps)
qed simp

lemma concat_pairs:
  assumes "\<forall>n \<in> set ns. length n = 2" "i < length ns"
  shows "[concat ns ! (2 * i), concat ns ! (2 * i + 1)] = ns ! i"
  using assms
proof (induction ns arbitrary: i)
  case (Cons n ns)
  then obtain a b where n: "n = [a, b]" by (auto simp: length_Suc_conv numeral_2_eq_2)
  then show ?case using Cons by (cases i) auto
qed simp

lemma length_concat_pairs: "\<forall>n \<in> set ns. length n = 2 \<Longrightarrow> length (concat ns) = 2 * length ns"
  by (induction ns) auto

lemma parse_fields:
  assumes len: "length A = 8" "length B = 4" "length C = 4" "length D = 4" "length ns = 6" "\<forall>n \<in> set ns. length n = 2"
    and dig: "list_all isxdigit A" "list_all isxdigit B" "list_all isxdigit C" "list_all isxdigit D" "list_all isxdigit (concat ns)"
    and val: "hexval A < 2 ^ 64" "hexval B < 2 ^ 64" "hexval C < 2 ^ 64" "hexval D < 2 ^ 64" "\<forall>n \<in> set ns. hexval n < 2 ^ 64"
  shows "gf_uuid_parse (A @ ''-'' @ B @ ''-'' @ C @ ''-'' @ D @ ''-'' @ concat ns) =
    (0, Some (uuid_pack \<lparr>time_low = of_nat (hexval A), time_mid = of_nat (hexval B),
      time_hi_and_version = of_nat (hexval C), clock_seq = of_nat (hexval D), node = map (\<lambda>n. of_nat (hexval n)) ns\<rparr>))"
proof -
  let ?s = "A @ ''-'' @ B @ ''-'' @ C @ ''-'' @ D @ ''-'' @ concat ns"
  have l: "length ?s = 36" using len length_concat_pairs [OF len(6)] by simp
  have "parse_checks 0 ?s"
    using len dig length_concat_pairs [OF len(6)] by (auto simp: parse_checks_append intro!: parse_checks_digits)
  moreover have d: "drop 9 ?s = B @ CHR ''-'' # C @ ''-'' @ D @ ''-'' @ concat ns" "drop 14 ?s = C @ CHR ''-'' # D @ ''-'' @ concat ns"
    "drop 19 ?s = D @ CHR ''-'' # concat ns" "drop 24 ?s = concat ns"
    using len by simp_all
  moreover have "map (\<lambda>i. of_nat (strtoul16 [concat ns ! (2 * i), concat ns ! (2 * i + 1)]) :: byte) [0..<6] = map (\<lambda>n. of_nat (hexval n)) ns"
  proof (rule nth_equalityI)
    fix i assume "i < length (map (\<lambda>i. of_nat (strtoul16 [concat ns ! (2 * i), concat ns ! (2 * i + 1)]) :: byte) [0..<6])"
    then have i: "i < length ns" using len by simp
    have "ns ! i \<in> set ns" using i by simp
    then have "list_all isxdigit (ns ! i)" "length (ns ! i) = 2" "hexval (ns ! i) < 2 ^ 64"
      using dig(5) len(6) val(5) by (auto simp: list_all_iff)
    then have "strtoul16 (ns ! i) = hexval (ns ! i)" by (intro strtoul16_whole) simp_all
    then show "map (\<lambda>i. of_nat (strtoul16 [concat ns ! (2 * i), concat ns ! (2 * i + 1)])) [0..<6] ! i = (map (\<lambda>n. of_nat (hexval n)) ns ! i :: byte)"
      using i concat_pairs [OF len(6) i] len(5) by simp
  qed (simp add: len)
  moreover have "strtoul16 ?s = hexval A" "strtoul16 (drop 9 ?s) = hexval B" "strtoul16 (drop 14 ?s) = hexval C" "strtoul16 (drop 19 ?s) = hexval D"
    unfolding d using len dig val by (simp_all add: strtoul16_field)
  ultimately show ?thesis using l by (simp only: gf_uuid_parse_def Let_def not_True_eq_False if_False simp_thms)
qed

text \<open>A 16-bit number printed as its two bytes.\<close>

lemma print_halves:
  fixes c :: u16 and upper :: bool
  defines "D \<equiv> fmt_x upper 2 (unat (drop_bit 8 c)) @ fmt_x upper 2 (unat (c AND 0xFF))"
  shows "length D = 4" "list_all isxdigit D" "hexval D = unat c"
proof -
  have hi: "unat (drop_bit 8 c) = unat c div 256"
    using drop_bit_eq_div [of 8 "unat c"] by (simp add: unat_drop_bit_eq)
  have "c AND 0xFF = take_bit 8 c" by (simp add: take_bit_eq_mask mask_eq_exp_minus_1)
  then have lo: "unat (c AND 0xFF) = unat c mod 256"
    using take_bit_eq_mod [of 8 "unat c"] by (simp add: unsigned_take_bit_eq)
  have a: "unat c div 256 < 16 ^ 2" "unat c mod 256 < 16 ^ 2"
    using unat_less [of c] by (simp_all add: less_mult_imp_div_less)
  have f: "length (fmt_x upper 2 (unat c div 256)) = 2" "list_all isxdigit (fmt_x upper 2 (unat c div 256))"
    "hexval (fmt_x upper 2 (unat c div 256)) = unat c div 256" using fmt_x_fits [OF _ a(1)] by simp_all
  have g: "length (fmt_x upper 2 (unat c mod 256)) = 2" "list_all isxdigit (fmt_x upper 2 (unat c mod 256))"
    "hexval (fmt_x upper 2 (unat c mod 256)) = unat c mod 256" using fmt_x_fits [OF _ a(2)] by simp_all
  show "length D = 4" "list_all isxdigit D" using f g by (simp_all add: D_def hi lo)
  have "hexval D = strto_digits 16 (fmt_x upper 2 (unat c mod 256)) (unat c div 256)"
    by (simp only: D_def hi lo strto_hex_append [OF f(2)] f(3))
  then show "hexval D = unat c" using strto_digits_acc [OF g(2), of "unat c div 256"] g by simp
qed

text \<open>C33. Parsing the text of a UUID, printed in lower or in upper case, gives the UUID back.\<close>

theorem uuid_parse_unparse:
  assumes "length uu = 16"
  shows "gf_uuid_parse (gf_uuid_unparse_x uu upper) = (0, Some uu)"
proof -
  let ?u = "uuid_unpack uu"
  define A B C where "A = fmt_x upper 8 (unat (time_low ?u))" and "B = fmt_x upper 4 (unat (time_mid ?u))"
    and "C = fmt_x upper 4 (unat (time_hi_and_version ?u))"
  define D where "D = fmt_x upper 2 (unat (drop_bit 8 (clock_seq ?u))) @ fmt_x upper 2 (unat (clock_seq ?u AND 0xFF))"
  define ns where "ns = map (\<lambda>b. fmt_x upper 2 (unat b)) (node ?u)"
  have n: "length (node ?u) = 6" using assms by (simp add: uuid_unpack_def)
  have A: "length A = 8" "list_all isxdigit A" "hexval A = unat (time_low ?u)" "hexval A < 2 ^ 64"
    using fmt_x_fits [of 8 "unat (time_low ?u)" upper] unat_less [of "time_low ?u"] by (simp_all add: A_def)
  have B: "length B = 4" "list_all isxdigit B" "hexval B = unat (time_mid ?u)" "hexval B < 2 ^ 64"
    using fmt_x_fits [of 4 "unat (time_mid ?u)" upper] unat_less [of "time_mid ?u"] by (simp_all add: B_def)
  have C: "length C = 4" "list_all isxdigit C" "hexval C = unat (time_hi_and_version ?u)" "hexval C < 2 ^ 64"
    using fmt_x_fits [of 4 "unat (time_hi_and_version ?u)" upper] unat_less [of "time_hi_and_version ?u"] by (simp_all add: C_def)
  have D: "length D = 4" "list_all isxdigit D" "hexval D = unat (clock_seq ?u)"
    using print_halves [of upper "clock_seq ?u"] by (simp_all add: D_def)
  then have D': "hexval D < 2 ^ 64" using unat_less [of "clock_seq ?u"] by simp
  have byte: "length (fmt_x upper 2 (unat b)) = 2" "list_all isxdigit (fmt_x upper 2 (unat b))" "hexval (fmt_x upper 2 (unat b)) = unat b"
    "unat b < 2 ^ 64" for b :: byte
    using fmt_x_fits [of 2 "unat b" upper] unat_less [of b] by simp_all
  have ns: "length ns = 6" "\<forall>n \<in> set ns. length n = 2" "list_all isxdigit (concat ns)" "\<forall>n \<in> set ns. hexval n < 2 ^ 64"
    using n byte by (auto simp: ns_def list_all_iff)
  have e: "\<lparr>time_low = time_low ?u, time_mid = time_mid ?u, time_hi_and_version = time_hi_and_version ?u,
      clock_seq = clock_seq ?u, node = node ?u\<rparr> = ?u" by simp
  have "map (\<lambda>n. of_nat (hexval n)) ns = node ?u" by (simp add: ns_def comp_def byte)
  moreover have "gf_uuid_unparse_x uu upper = A @ ''-'' @ B @ ''-'' @ C @ ''-'' @ D @ ''-'' @ concat ns"
    using n by (simp add: gf_uuid_unparse_x_def Let_def A_def B_def C_def D_def ns_def)
  ultimately show ?thesis
    using parse_fields [OF A(1) B(1) C(1) D(1) ns(1,2) A(2) B(2) C(2) D(2) ns(3) A(4) B(4) C(4) D' ns(4)] pack_unpack [OF assms]
    by (simp add: A(3) B(3) C(3) D(3) e)
qed

theorem uuid_parse_unparse_witness:
  "gf_uuid_parse (gf_uuid_unparse_x (replicate 16 0xAB) False) = (0, Some (replicate 16 0xAB))"
  by (rule uuid_parse_unparse) simp

subsection \<open>Comparison\<close>

lemma unat_be16: "unat (be16 a b) = unat a * 256 + unat b"
proof -
  have "be16 a b = push_bit 8 (ucast a) + ucast b"
    unfolding be16_def by (rule disjunctive_add [symmetric]) (auto simp: bit_simps dest: bit_imp_le_length)
  also have "\<dots> = of_nat (unat a * 256 + unat b)" by (simp add: push_bit_eq_mult unsigned_ucast_eq)
  finally have eq: "be16 a b = of_nat (unat a * 256 + unat b)" .
  have "unat a * 256 + unat b < 2 ^ LENGTH(16)" using unat_less [of a] unat_less [of b] by simp
  then show ?thesis unfolding eq by (rule unat_of_nat_id)
qed

lemma unat_be32: "unat (be32 a b c d) = unat (be16 a b) * 65536 + unat (be16 c d)"
proof -
  have "be32 a b c d = push_bit 16 (ucast (be16 a b)) OR ucast (be16 c d)"
    by (rule bit_word_eqI) (auto simp: be32_def be16_def Let_def bit_simps dest: bit_imp_le_length)
  also have "\<dots> = push_bit 16 (ucast (be16 a b)) + ucast (be16 c d)"
    by (rule disjunctive_add [symmetric]) (auto simp: bit_simps dest: bit_imp_le_length)
  also have "\<dots> = of_nat (unat (be16 a b) * 65536 + unat (be16 c d))" by (simp add: push_bit_eq_mult unsigned_ucast_eq)
  finally have eq: "be32 a b c d = of_nat (unat (be16 a b) * 65536 + unat (be16 c d))" .
  have "unat (be16 a b) * 65536 + unat (be16 c d) < 2 ^ LENGTH(32)"
    using unat_less [of "be16 a b"] unat_less [of "be16 c d"] by simp
  then show ?thesis unfolding eq by (rule unat_of_nat_id)
qed

lemma memcmp_append:
  "length xs = length ys \<Longrightarrow> memcmp_sign (xs @ xs') (ys @ ys') =
    (if memcmp_sign xs ys = 0 then memcmp_sign xs' ys' else memcmp_sign xs ys)"
  by (induction xs ys rule: memcmp_sign.induct) auto

lemma memcmp_eq: "length xs = length ys \<Longrightarrow> memcmp_sign xs ys = 0 \<longleftrightarrow> xs = ys"
  by (induction xs ys rule: memcmp_sign.induct) auto


definition word_sign :: "'a::len word \<Rightarrow> 'a word \<Rightarrow> int" where
  "word_sign x y = (if x \<noteq> y then (if x < y then -1 else 1) else 0)"

lemma memcmp_be16: "memcmp_sign [a, b] [c, d] = word_sign (be16 a b) (be16 c d)"
proof -
  have "be16 a b < be16 c d \<longleftrightarrow> unat a * 256 + unat b < unat c * 256 + unat d"
    "be16 a b = be16 c d \<longleftrightarrow> unat a * 256 + unat b = unat c * 256 + unat d"
    by (simp_all add: word_less_nat_alt word_unat_eq_iff unat_be16)
  then show ?thesis using unat_less [of b] unat_less [of d]
    by (auto simp: word_sign_def word_less_nat_alt word_unat_eq_iff)
qed

lemma memcmp_be32: "memcmp_sign [a, b, c, d] [a', b', c', d'] = word_sign (be32 a b c d) (be32 a' b' c' d')"
proof -
  have "memcmp_sign [a, b, c, d] [a', b', c', d'] =
      (if word_sign (be16 a b) (be16 a' b') = 0 then word_sign (be16 c d) (be16 c' d') else word_sign (be16 a b) (be16 a' b'))"
    using memcmp_append [of "[a, b]" "[a', b']" "[c, d]" "[c', d']"] by (simp only: append.simps memcmp_be16 list.size)
  moreover have "be32 a b c d < be32 a' b' c' d' \<longleftrightarrow>
      unat (be16 a b) * 65536 + unat (be16 c d) < unat (be16 a' b') * 65536 + unat (be16 c' d')"
    "be32 a b c d = be32 a' b' c' d' \<longleftrightarrow>
      unat (be16 a b) * 65536 + unat (be16 c d) = unat (be16 a' b') * 65536 + unat (be16 c' d')"
    by (simp_all add: word_less_nat_alt word_unat_eq_iff unat_be32)
  ultimately show ?thesis using unat_less [of "be16 c d"] unat_less [of "be16 c' d'"]
    by (auto simp: word_sign_def word_less_nat_alt word_unat_eq_iff)
qed

text \<open>C34. \<open>gf_uuid_compare\<close>, which compares field by field in host order, is the
  lexicographic order of the sixteen bytes; it is 0 exactly for equal UUIDs.\<close>

theorem uuid_compare_bytes:
  assumes "length u = 16" "length v = 16"
  shows "gf_uuid_compare u v = memcmp_sign u v \<and> (gf_uuid_compare u v = 0 \<longleftrightarrow> u = v)"
proof -
  have "length (take 10 u) = 10" using assms by simp
  from list_of_ten [OF this] obtain a0 a1 a2 a3 a4 a5 a6 a7 a8 a9 where
    "take 10 u = [a0, a1, a2, a3, a4, a5, a6, a7, a8, a9]" by (elim exE)
  then have u: "u = [a0, a1, a2, a3] @ [a4, a5] @ [a6, a7] @ [a8, a9] @ drop 10 u"
    using append_take_drop_id [of 10 u] by simp
  have "length (take 10 v) = 10" using assms by simp
  from list_of_ten [OF this] obtain b0 b1 b2 b3 b4 b5 b6 b7 b8 b9 where
    "take 10 v = [b0, b1, b2, b3, b4, b5, b6, b7, b8, b9]" by (elim exE)
  then have v: "v = [b0, b1, b2, b3] @ [b4, b5] @ [b6, b7] @ [b8, b9] @ drop 10 v"
    using append_take_drop_id [of 10 v] by simp
  let ?p = "drop 10 u" and ?q = "drop 10 v"
  have "memcmp_sign u v = memcmp_sign ([a0, a1, a2, a3] @ [a4, a5] @ [a6, a7] @ [a8, a9] @ ?p) ([b0, b1, b2, b3] @ [b4, b5] @ [b6, b7] @ [b8, b9] @ ?q)"
    using u v by simp
  also have "\<dots> = gf_uuid_compare ([a0, a1, a2, a3] @ [a4, a5] @ [a6, a7] @ [a8, a9] @ ?p) ([b0, b1, b2, b3] @ [b4, b5] @ [b6, b7] @ [b8, b9] @ ?q)"
    using assms by (subst memcmp_append, simp)+
      (simp only: memcmp_be16 memcmp_be32, simp add: gf_uuid_compare_def uuid_unpack_def word_sign_def Let_def)
  finally have "memcmp_sign u v = gf_uuid_compare u v" using u v by simp
  then show ?thesis using memcmp_eq [of u v] assms by simp
qed

theorem uuid_compare_bytes_witness:
  "gf_uuid_compare (replicate 16 1) (replicate 15 1 @ [2]) \<noteq> 0"
  using uuid_compare_bytes [of "replicate 16 1" "replicate 15 1 @ [2]"] by (simp add: numeral_eq_Suc)

end
