(* ===== verification/Iatt.thy ===== *)
theory Iatt
  imports Xdb Uuid
begin

text \<open>
  File attributes (\<open>libglusterfs/src/iatt.h\<close>) and their conversion to and from the
  \<open>struct stat\<close> the index stores.
\<close>

unbundle bit_operations_syntax

subsection \<open>Types and protections\<close>

datatype ia_type = IA_INVAL | IA_IFREG | IA_IFDIR | IA_IFLNK | IA_IFBLK | IA_IFCHR | IA_IFIFO | IA_IFSOCK

record ia_rwx =
  p_read :: bool
  p_write :: bool
  p_exec :: bool

record ia_prot =
  p_suid :: bool
  p_sgid :: bool
  p_sticky :: bool
  p_owner :: ia_rwx
  p_group :: ia_rwx
  p_other :: ia_rwx

record iatt =
  ia_ino :: u64
  ia_gfid :: uuid_t
  ia_dev :: u64
  ia_type_of :: ia_type
  ia_prot_of :: ia_prot
  ia_nlink :: u32
  ia_uid :: u32
  ia_gid :: u32
  ia_rdev :: u64
  ia_size :: u64
  ia_blksize :: u32
  ia_blocks :: u64
  ia_atime :: u32
  ia_atime_nsec :: u32
  ia_mtime :: u32
  ia_mtime_nsec :: u32
  ia_ctime :: u32
  ia_ctime_nsec :: u32

text \<open>The nanoseconds of the three times extend the fields the index stores.\<close>

record stat_ns = stat_t +
  st_atim_nsec :: u64
  st_mtim_nsec :: u64
  st_ctim_nsec :: u64

definition ia_major :: "u64 \<Rightarrow> u32" where
  "ia_major dev = ucast (drop_bit 32 dev)"

definition ia_minor :: "u64 \<Rightarrow> u32" where
  "ia_minor dev = ucast (dev AND 0xffffffff)"

definition ia_makedev :: "u32 \<Rightarrow> u32 \<Rightarrow> u64" where
  "ia_makedev maj minr = push_bit 32 (ucast maj) OR ucast minr"

text \<open>\<open>makedev\<close>, \<open>major\<close> and \<open>minor\<close> of the C library.\<close>

definition c_makedev :: "u32 \<Rightarrow> u32 \<Rightarrow> u64" where
  "c_makedev maj minr =
     push_bit 8 (ucast (take_bit 12 maj)) OR push_bit 44 (ucast (drop_bit 12 maj)) OR
     ucast (take_bit 8 minr) OR push_bit 20 (ucast (drop_bit 8 minr))"

definition c_major :: "u64 \<Rightarrow> u32" where
  "c_major dev = ucast (take_bit 12 (drop_bit 8 dev)) OR push_bit 12 (ucast (drop_bit 44 dev))"

definition c_minor :: "u64 \<Rightarrow> u32" where
  "c_minor dev = ucast (take_bit 8 dev) OR push_bit 8 (ucast (take_bit 24 (drop_bit 20 dev)))"

definition ia_prot_from_st_mode :: "u32 \<Rightarrow> ia_prot" where
  "ia_prot_from_st_mode mode =
     \<lparr>p_suid = (mode AND 0x800 \<noteq> 0), p_sgid = (mode AND 0x400 \<noteq> 0), p_sticky = (mode AND 0x200 \<noteq> 0),
      p_owner = \<lparr>p_read = (mode AND 0x100 \<noteq> 0), p_write = (mode AND 0x80 \<noteq> 0), p_exec = (mode AND 0x40 \<noteq> 0)\<rparr>,
      p_group = \<lparr>p_read = (mode AND 0x20 \<noteq> 0), p_write = (mode AND 0x10 \<noteq> 0), p_exec = (mode AND 0x8 \<noteq> 0)\<rparr>,
      p_other = \<lparr>p_read = (mode AND 0x4 \<noteq> 0), p_write = (mode AND 0x2 \<noteq> 0), p_exec = (mode AND 0x1 \<noteq> 0)\<rparr>\<rparr>"

definition S_IFMT :: u32 where "S_IFMT = 0xF000"

definition ia_type_from_st_mode :: "u32 \<Rightarrow> ia_type" where
  "ia_type_from_st_mode mode =
     (let fmt = mode AND S_IFMT in
      if fmt = 0xC000 then IA_IFSOCK
      else if fmt = 0x1000 then IA_IFIFO
      else if fmt = 0x2000 then IA_IFCHR
      else if fmt = 0x6000 then IA_IFBLK
      else if fmt = 0xA000 then IA_IFLNK
      else if fmt = 0x4000 then IA_IFDIR
      else if fmt = 0x8000 then IA_IFREG
      else IA_INVAL)"

fun type_bit :: "ia_type \<Rightarrow> u32" where
  "type_bit IA_IFREG = 0x8000"
| "type_bit IA_IFDIR = 0x4000"
| "type_bit IA_IFLNK = 0xA000"
| "type_bit IA_IFBLK = 0x6000"
| "type_bit IA_IFCHR = 0x2000"
| "type_bit IA_IFIFO = 0x1000"
| "type_bit IA_IFSOCK = 0xC000"
| "type_bit IA_INVAL = 0"

definition flag :: "bool \<Rightarrow> u32 \<Rightarrow> u32" where
  "flag b m = (if b then m else 0)"

definition prot_bit :: "ia_prot \<Rightarrow> u32" where
  "prot_bit prot =
     flag (p_suid prot) 0x800 OR flag (p_sgid prot) 0x400 OR flag (p_sticky prot) 0x200 OR
     flag (p_read (p_owner prot)) 0x100 OR flag (p_write (p_owner prot)) 0x80 OR flag (p_exec (p_owner prot)) 0x40 OR
     flag (p_read (p_group prot)) 0x20 OR flag (p_write (p_group prot)) 0x10 OR flag (p_exec (p_group prot)) 0x8 OR
     flag (p_read (p_other prot)) 0x4 OR flag (p_write (p_other prot)) 0x2 OR flag (p_exec (p_other prot)) 0x1"

definition st_mode_from_ia :: "ia_prot \<Rightarrow> ia_type \<Rightarrow> u32" where
  "st_mode_from_ia prot type = type_bit type OR prot_bit prot"

definition iatt_from_stat :: "iatt \<Rightarrow> stat_ns \<Rightarrow> iatt" where
  "iatt_from_stat ia stat =
     (let size = st_size stat;
          blocks = st_blocks stat;
          maxblocks = (size + 511) div 512
      in ia\<lparr>ia_dev := st_dev stat, ia_ino := st_ino stat,
            ia_type_of := ia_type_from_st_mode (st_mode stat),
            ia_prot_of := ia_prot_from_st_mode (st_mode stat),
            ia_nlink := ucast (st_nlink stat), ia_uid := st_uid stat, ia_gid := st_gid stat,
            ia_rdev := ia_makedev (c_major (st_rdev stat)) (c_minor (st_rdev stat)),
            ia_size := size, ia_blksize := ucast (st_blksize stat),
            ia_blocks := (if blocks > maxblocks then maxblocks else blocks),
            ia_atime := ucast (st_atime stat), ia_atime_nsec := ucast (st_atim_nsec stat),
            ia_mtime := ucast (st_mtime stat), ia_mtime_nsec := ucast (st_mtim_nsec stat),
            ia_ctime := ucast (st_ctime stat), ia_ctime_nsec := ucast (st_ctim_nsec stat)\<rparr>)"

definition iatt_to_stat :: "iatt \<Rightarrow> stat_ns" where
  "iatt_to_stat ia =
     \<lparr>st_dev = ia_dev ia, st_ino = ia_ino ia, st_mode = st_mode_from_ia (ia_prot_of ia) (ia_type_of ia),
      st_nlink = ucast (ia_nlink ia), st_uid = ia_uid ia, st_gid = ia_gid ia,
      st_rdev = c_makedev (ia_major (ia_rdev ia)) (ia_minor (ia_rdev ia)),
      st_size = ia_size ia, st_blksize = ucast (ia_blksize ia), st_blocks = ia_blocks ia,
      st_atime = ucast (ia_atime ia), st_mtime = ucast (ia_mtime ia), st_ctime = ucast (ia_ctime ia),
      st_atim_nsec = ucast (ia_atime_nsec ia), st_mtim_nsec = ucast (ia_mtime_nsec ia),
      st_ctim_nsec = ucast (ia_ctime_nsec ia)\<rparr>"

subsection \<open>Round trip\<close>

lemma dev_roundtrip: "c_major (c_makedev a b) = a" "c_minor (c_makedev a b) = b"
proof -
  show "c_major (c_makedev a b) = a"
    by (rule bit_word_eqI) (auto simp: c_major_def c_makedev_def bit_simps dest: bit_imp_le_length)
  show "c_minor (c_makedev a b) = b"
    by (rule bit_word_eqI) (auto simp: c_minor_def c_makedev_def bit_simps dest: bit_imp_le_length)
qed

lemma ia_dev_roundtrip: "ia_makedev (ia_major d) (ia_minor d) = d"
proof -
  have "d AND 0xffffffff = take_bit 32 d" by (simp add: take_bit_eq_mask mask_eq_exp_minus_1)
  then show ?thesis
    by (intro bit_word_eqI) (auto simp: ia_makedev_def ia_major_def ia_minor_def bit_simps dest: bit_imp_le_length)
qed

lemma flag_bit: "flag b m AND n = flag b (m AND n)"
  by (simp add: flag_def)

lemma prot_roundtrip: "ia_prot_from_st_mode (st_mode_from_ia prot ty) = prot"
proof -
  have t: "type_bit ty AND 0x800 = 0" "type_bit ty AND 0x400 = 0" "type_bit ty AND 0x200 = 0" "type_bit ty AND 0x100 = 0"
    "type_bit ty AND 0x80 = 0" "type_bit ty AND 0x40 = 0" "type_bit ty AND 0x20 = 0" "type_bit ty AND 0x10 = 0"
    "type_bit ty AND 8 = 0" "type_bit ty AND 4 = 0" "type_bit ty AND 2 = 0" "type_bit ty AND 1 = 0"
    by (cases ty; simp)+
  show ?thesis
    by (simp add: ia_prot_from_st_mode_def st_mode_from_ia_def prot_bit_def bit.conj_disj_distrib2 flag_bit t)
      (simp add: flag_def)
qed

lemma type_roundtrip: "ia_type_from_st_mode (st_mode_from_ia prot ty) = ty"
proof -
  have "prot_bit prot AND S_IFMT = 0" by (simp add: prot_bit_def S_IFMT_def bit.conj_disj_distrib2 flag_bit) (simp add: flag_def)
  then have "st_mode_from_ia prot ty AND S_IFMT = type_bit ty"
    by (cases ty) (simp_all add: st_mode_from_ia_def bit.conj_disj_distrib2 S_IFMT_def)
  then show ?thesis by (cases ty) (simp_all add: ia_type_from_st_mode_def Let_def)
qed

text \<open>C35. Converting the attributes of a file to \<open>struct stat\<close> and back gives all of them back but two:
  the \<open>gfid\<close>, which \<open>struct stat\<close> does not have, stays what it was in the target, and the block count is cut to
  what the size needs in blocks of 512 bytes (in 64 bits).\<close>

theorem iatt_stat_roundtrip:
  "iatt_from_stat ia0 (iatt_to_stat ia) = ia\<lparr>ia_gfid := ia_gfid ia0, ia_blocks := min (ia_blocks ia) ((ia_size ia + 511) div 512)\<rparr>"
proof -
  have c: "ucast (ucast w :: u64) = w" for w :: u32 by (rule bit_word_eqI) (auto simp: bit_simps)
  show ?thesis
    by (simp add: iatt_from_stat_def iatt_to_stat_def Let_def c prot_roundtrip type_roundtrip dev_roundtrip ia_dev_roundtrip min_def not_less)
qed

definition sample_iatt :: iatt where
  "sample_iatt = \<lparr>ia_ino = 7, ia_gfid = replicate 16 1, ia_dev = 2, ia_type_of = IA_IFREG,
     ia_prot_of = ia_prot_from_st_mode 0x1A4, ia_nlink = 1, ia_uid = 0, ia_gid = 0, ia_rdev = 0, ia_size = 4096,
     ia_blksize = 4096, ia_blocks = 8, ia_atime = 10, ia_atime_nsec = 1, ia_mtime = 11, ia_mtime_nsec = 2,
     ia_ctime = 12, ia_ctime_nsec = 3\<rparr>"

end
