(* ===== verification/Server.thy ===== *)
theory Server
  imports Async_Correct Iatt
begin

text \<open>
  The server translator (\<open>src/xlators/features/imess-server/src/imess-server.c\<close> and the
  inline helpers of \<open>imess-server.h\<close>): a request is passed down to the file system, and the
  callback of its reply updates the index, in place or by a task for the worker of
  \<open>Async\<close>.  A request half is modelled by the cookie it sets up for its callback
  (datatype \<open>fop\<close>), a callback by the reply it unwinds with and the new state of the
  translator; \<open>None\<close> is a crash.  Time stamps for the latency log are not modelled, and
  \<open>gf_strdup\<close> of an attribute's text succeeds.
\<close>

subsection \<open>Latency\<close>

definition timeval_latency :: "timeval \<Rightarrow> timeval \<Rightarrow> timeval" where
  "timeval_latency before after =
     (let sec = tv_sec after - tv_sec before in
      if tv_usec after < tv_usec before
      then \<lparr>tv_sec = sec - 1, tv_usec = 1000000 + tv_usec after - tv_usec before\<rparr>
      else \<lparr>tv_sec = sec, tv_usec = tv_usec after - tv_usec before\<rparr>)"

subsection \<open>The attribute in a setxattr request\<close>

definition GF_XATTR_IMESS_KEY :: string where "GF_XATTR_IMESS_KEY = ''user.imess''"

definition XATTR_IS_IMESSXDB :: "string \<Rightarrow> bool" where
  "XATTR_IS_IMESSXDB k \<longleftrightarrow> take (length GF_XATTR_IMESS_KEY) k = GF_XATTR_IMESS_KEY"

definition PATH_MAX :: nat where "PATH_MAX = 4096"

text \<open>\<open>sscanf (s, "%ld", \<dots>)\<close>: white space, a sign, decimal digits, saturating.\<close>

definition scan_ld :: "string \<Rightarrow> int option" where
  "scan_ld s =
     (let s1 = dropWhile c_isspace s;
          neg = (s1 \<noteq> [] \<and> hd s1 = CHR ''-'');
          s2 = (if s1 \<noteq> [] \<and> (hd s1 = CHR ''-'' \<or> hd s1 = CHR ''+'') then tl s1 else s1);
          m = int (strto_digits 10 s2 0)
      in if s2 = [] \<or> digit_val 10 (hd s2) = None then None
         else Some (if neg then max (- m) (- (2 ^ 63)) else min m (2 ^ 63 - 1)))"

record ims_xattr_filler =
  fl_count :: int
  fl_xattr :: ims_xdb_attr

text \<open>The buffer \<open>data_str\<close>: the value is copied without a bound and has to hold a NUL.\<close>

definition xattr_text :: "data_t \<Rightarrow> string option" where
  "xattr_text v =
     (let n = nat (data_len v); b = (case data_data v of Some b \<Rightarrow> b | None \<Rightarrow> []);
          data_str = take n b @ replicate (PATH_MAX - n) 0
      in if 0 \<le> data_len v \<and> n \<le> PATH_MAX \<and> n \<le> length b \<and> 0 \<in> set data_str then Some (str_at data_str) else None)"

text \<open>The conversion \<open>%lf\<close> is the argument \<open>scan_lf\<close>.\<close>

definition xattr_value :: "(string \<Rightarrow> dbl option) \<Rightarrow> string \<Rightarrow> string \<Rightarrow> ims_xdb_attr \<Rightarrow> ims_xdb_attr" where
  "xattr_value scan_lf k s a =
     (let a0 = a\<lparr>at_name := Some k, at_ival := 0, at_rval := 0, at_sval := None\<rparr>;
          real = (case scan_lf s of
                    Some r \<Rightarrow> a0\<lparr>at_type := IMS_XDB_TYPE_REAL, at_rval := r\<rparr>
                  | None \<Rightarrow> a0\<lparr>at_type := IMS_XDB_TYPE_STRING, at_sval := Some s\<rparr>)
      in if CHR ''.'' \<in> set s then real
         else case scan_ld s of
           Some i \<Rightarrow> a0\<lparr>at_type := IMS_XDB_TYPE_INTEGER, at_ival := word_of_int i\<rparr>
         | None \<Rightarrow> real)"

definition ims_find_setxattr_kv ::
  "(string \<Rightarrow> dbl option) \<Rightarrow> string \<Rightarrow> data_t \<Rightarrow> ims_xattr_filler option \<Rightarrow> int \<times> ims_xattr_filler option" where
  "ims_find_setxattr_kv scan_lf k v filler =
     (if \<not> XATTR_IS_IMESSXDB k then (0, filler)
      else (0, do {
        f \<leftarrow> filler;
        s \<leftarrow> xattr_text v;
        Some \<lparr>fl_count = fl_count f + 1, fl_xattr = xattr_value scan_lf k s (fl_xattr f)\<rparr>
      }))"

definition zero_attr :: ims_xdb_attr where
  "zero_attr = \<lparr>at_gfid = None, at_type = IMS_XDB_TYPE_NONE, at_name = None, at_ival = 0, at_rval = 0, at_sval = None\<rparr>"

text \<open>The cookie handed to the callback; the outer option is a crash.\<close>

definition ims_setxattr :: "(string \<Rightarrow> dbl option) \<Rightarrow> uuid_t \<Rightarrow> dict_t option \<Rightarrow> ims_xdb_attr option option" where
  "ims_setxattr scan_lf gfid dict =
     (case dict_foreach dict (ims_find_setxattr_kv scan_lf) (Some \<lparr>fl_count = 0, fl_xattr = zero_attr\<rparr>) of
        (ret, None) \<Rightarrow> None
      | (ret, Some f) \<Rightarrow>
          Some (if ret \<noteq> 0 then None
                else if fl_count f = 0 then None
                else Some ((fl_xattr f)\<lparr>at_gfid := Some (uuid_utoa gfid)\<rparr>)))"

subsection \<open>State of the server\<close>

record 'c ims_priv =
  pv_brick_path :: string
  pv_db_path :: string
  pv_xdb :: "'c ims_xdb"
  pv_lookup_cache :: bool
  pv_async_update :: bool
  pv_latency_log :: bool
  pv_dir_hash :: bool
  pv_async_ctx :: "'c worker option"

text \<open>What the environment supplies to an enqueue: the outcomes of the allocations and
  the time.\<close>

record mem_env =
  m_ok :: "nat \<Rightarrow> bool"
  m_new :: "addr option"
  m_now :: timeval

definition zero_file :: ims_xdb_file where
  "zero_file = \<lparr>xf_gfid = None, xf_path = None, xf_extra = None\<rparr>"

definition zero_stat :: stat_t where
  "zero_stat = \<lparr>st_dev = 0, st_ino = 0, st_mode = 0, st_nlink = 0, st_uid = 0, st_gid = 0, st_rdev = 0, st_size = 0,
     st_blksize = 0, st_blocks = 0, st_atime = 0, st_mtime = 0, st_ctime = 0\<rparr>"

definition zero_task :: ims_task where
  "zero_task = \<lparr>t_op = 0, t_file = zero_file, t_sb = zero_stat, t_attr = zero_attr,
     t_enqueue = \<lparr>tv_sec = 0, tv_usec = 0\<rparr>, t_complete = \<lparr>tv_sec = 0, tv_usec = 0\<rparr>\<rparr>"

definition put_task :: "mem_env \<Rightarrow> 'c ims_priv \<Rightarrow> ims_task \<Rightarrow> (int \<times> 'c ims_priv) option" where
  "put_task env priv task = (case pv_async_ctx priv of
     None \<Rightarrow> None
   | Some w \<Rightarrow> (case ims_async_put_task (m_ok env) (m_new env) (m_now env) (w_async w) task of
        (ret, self) \<Rightarrow> Some (ret, priv\<lparr>pv_async_ctx := Some (w\<lparr>w_async := self\<rparr>)\<rparr>)))"

definition on_xdb :: "('c ims_xdb \<Rightarrow> (int \<times> 'c ims_xdb) option) \<Rightarrow> 'c ims_priv \<Rightarrow> (int \<times> 'c ims_priv) option" where
  "on_xdb f priv = map_option (\<lambda>(ret, x). (ret, priv\<lparr>pv_xdb := x\<rparr>)) (f (pv_xdb priv))"

definition iatt_stat :: "iatt \<Rightarrow> stat_t" where
  "iatt_stat buf = stat_t.truncate (iatt_to_stat buf)"

subsection \<open>Helpers of the callbacks\<close>

definition insert_new_xdb_entry ::
  "'c sqlite3 \<Rightarrow> mem_env \<Rightarrow> 'c ims_priv \<Rightarrow> iatt \<Rightarrow> string \<Rightarrow> (int \<times> 'c ims_priv) option" where
  "insert_new_xdb_entry E env priv buf path =
     (let file = zero_file\<lparr>xf_gfid := Some (uuid_utoa (ia_gfid buf)), xf_path := Some path\<rparr>;
          sb = iatt_stat buf
      in if pv_async_update priv
         then put_task env priv (zero_task\<lparr>t_op := IMS_TASK_INSERT_NEW_FILE, t_file := file, t_sb := sb\<rparr>)
         else on_xdb (\<lambda>x. do {
             (ret, y) \<leftarrow> ims_xdb_insert_new_file E (Some x) (Some file) (Some sb);
             x' \<leftarrow> y;
             Some (ret, x')
           }) priv)"

definition unlink_from_xdb ::
  "'c sqlite3 \<Rightarrow> mem_env \<Rightarrow> 'c ims_priv \<Rightarrow> string \<Rightarrow> (int \<times> 'c ims_priv) option" where
  "unlink_from_xdb E env priv path =
     (let file = zero_file\<lparr>xf_path := Some path\<rparr>
      in if pv_async_update priv
         then put_task env priv (zero_task\<lparr>t_op := IMS_TASK_UNLINK_FILE, t_file := file\<rparr>)
         else on_xdb (\<lambda>x. ims_xdb_unlink_file E (Some x) (Some file)) priv)"

subsection \<open>Callbacks\<close>

text \<open>A callback updates the index and passes the reply of the lower layer on unchanged,
  whatever the update returned.  Three callbacks log \<open>xdb->db_ret\<close> of a pointer that is
  NULL in asynchronous mode: when enqueueing fails they crash.\<close>

type_synonym reply = "int \<times> int"

definition ims_mkdir :: "bool \<Rightarrow> string \<Rightarrow> dict_t option \<Rightarrow> string option \<times> dict_t option" where
  "ims_mkdir dir_hash path xdata =
     (if \<not> dir_hash then (Some path, xdata)
      else case dict_get_int8 xdata (Some ''imess-dht-hashed'') of (ret, hashed) \<Rightarrow>
        if ret \<noteq> 0 then (Some path, xdata)
        else (if hashed = Some 0 then None else Some path, dict_del xdata (Some ''imess-dht-hashed'')))"

definition ims_mkdir_cbk where
  "ims_mkdir_cbk E env priv cookie op_ret op_errno buf =
     (case cookie of
        None \<Rightarrow> Some ((op_ret, op_errno), priv)
      | Some path \<Rightarrow>
          if op_ret = -1 then Some ((op_ret, op_errno), priv)
          else map_option (\<lambda>(ret, p). ((op_ret, op_errno), p)) (insert_new_xdb_entry E env priv buf path))"

definition ims_create_cbk where
  "ims_create_cbk E env priv cookie op_ret op_errno buf =
     (if op_ret = -1 then Some ((op_ret, op_errno), priv)
      else map_option (\<lambda>(ret, p). ((op_ret, op_errno), p)) (insert_new_xdb_entry E env priv buf cookie))"

definition ims_symlink_cbk where
  "ims_symlink_cbk E env priv cookie op_ret op_errno buf =
     (if op_ret = -1 then Some ((op_ret, op_errno), priv)
      else map_option (\<lambda>(ret, p). ((op_ret, op_errno), p)) (insert_new_xdb_entry E env priv buf cookie))"

definition ims_unlink_cbk where
  "ims_unlink_cbk E env priv cookie op_ret op_errno =
     (if op_ret = -1 then Some ((op_ret, op_errno), priv)
      else map_option (\<lambda>(ret, p). ((op_ret, op_errno), p)) (unlink_from_xdb E env priv cookie))"

definition ims_rmdir_cbk where
  "ims_rmdir_cbk E env priv cookie op_ret op_errno =
     (if op_ret = -1 then Some ((op_ret, op_errno), priv)
      else map_option (\<lambda>(ret, p). ((op_ret, op_errno), p)) (unlink_from_xdb E env priv cookie))"

definition ims_setxattr_cbk where
  "ims_setxattr_cbk E env priv cookie op_ret op_errno =
     (case cookie of
        None \<Rightarrow> Some ((op_ret, op_errno), priv)
      | Some xattr \<Rightarrow>
          if op_ret = -1 then Some ((op_ret, op_errno), priv)
          else map_option (\<lambda>(ret, p). ((op_ret, op_errno), p))
            (if pv_async_update priv
             then put_task env priv (zero_task\<lparr>t_op := IMS_TASK_INSERT_XATTR, t_attr := xattr\<rparr>)
             else on_xdb (\<lambda>x. ims_xdb_setxattr E (Some x) (Some xattr)) priv))"

text \<open>Enqueueing with the crash at the log statement.\<close>

definition put_or_crash :: "mem_env \<Rightarrow> 'c ims_priv \<Rightarrow> ims_task \<Rightarrow> (int \<times> 'c ims_priv) option" where
  "put_or_crash env priv task = do { (ret, p) \<leftarrow> put_task env priv task; if ret \<noteq> 0 then None else Some (ret, p) }"

definition ims_setattr_cbk where
  "ims_setattr_cbk E env priv op_ret op_errno postop =
     (if op_ret = -1 \<or> gf_uuid_is_null (ia_gfid postop) then Some ((op_ret, op_errno), priv)
      else let file = zero_file\<lparr>xf_gfid := Some (uuid_utoa (ia_gfid postop))\<rparr>; sb = iatt_stat postop in
        map_option (\<lambda>(ret, p). ((op_ret, op_errno), p))
          (if pv_async_update priv
           then put_or_crash env priv (zero_task\<lparr>t_op := IMS_TASK_UPDATE_STAT, t_file := file, t_sb := sb\<rparr>)
           else on_xdb (\<lambda>x. ims_xdb_update_stat E (Some x) (Some file) (Some sb) IMS_XDB_STAT_OP_WRITE) priv))"

definition ims_link_cbk where
  "ims_link_cbk E env priv cookie op_ret op_errno buf =
     (if op_ret = -1 then Some ((op_ret, op_errno), priv)
      else let file = zero_file\<lparr>xf_path := Some cookie, xf_gfid := Some (uuid_utoa (ia_gfid buf))\<rparr> in
        map_option (\<lambda>(ret, p). ((op_ret, op_errno), p))
          (if pv_async_update priv
           then put_or_crash env priv (zero_task\<lparr>t_op := IMS_TASK_LINK_FILE, t_file := file\<rparr>)
           else on_xdb (\<lambda>x. ims_xdb_link_file E (Some x) (Some file)) priv))"

definition ims_rename_cbk where
  "ims_rename_cbk E env priv cookie op_ret op_errno =
     (case cookie of
        None \<Rightarrow> Some ((op_ret, op_errno), priv)
      | Some (old_path, new_path) \<Rightarrow>
          if op_ret = -1 then Some ((op_ret, op_errno), priv)
          else let file = zero_file\<lparr>xf_path := Some old_path, xf_extra := Some new_path\<rparr> in
            map_option (\<lambda>(ret, p). ((op_ret, op_errno), p))
              (if pv_async_update priv
               then put_or_crash env priv (zero_task\<lparr>t_op := IMS_TASK_RENAME, t_file := file\<rparr>)
               else on_xdb (\<lambda>x. ims_xdb_rename E (Some x) (Some file)) priv))"

text \<open>\<open>CALLOC\<close> of the cookie of a rename may fail; the request is sent down anyway.\<close>

definition ims_rename :: "bool \<Rightarrow> string \<Rightarrow> string \<Rightarrow> (string \<times> string) option" where
  "ims_rename allocated oldpath newpath = (if allocated then Some (oldpath, newpath) else None)"

subsection \<open>Starting\<close>

text \<open>The path of the brick is the path of the database with its last component
  replaced.\<close>

definition brick_path :: "string \<Rightarrow> string option" where
  "brick_path db_path = map_option (\<lambda>k. take (Suc k) db_path @ ''brick'') (rindex db_path (CHR ''/''))"

text \<open>In asynchronous mode the worker gets the first connection and the server a second
  one.\<close>

definition init ::
  "'c sqlite3 \<Rightarrow> string \<Rightarrow> string \<Rightarrow> bool \<Rightarrow> bool \<Rightarrow> bool \<Rightarrow> bool \<Rightarrow> addr option \<Rightarrow> int \<Rightarrow> list_heap \<Rightarrow>
   (int \<times> 'c ims_priv option) option" where
  "init E schema db_path lookup_cache async_update latency_log dir_hash new created h = do {
     brick \<leftarrow> brick_path db_path;
     let mode = (if async_update then XDB_MODE_ASYNC else XDB_MODE_SYNC);
     let priv = (\<lambda>x w. \<lparr>pv_brick_path = brick, pv_db_path = db_path, pv_xdb = x, pv_lookup_cache = lookup_cache,
        pv_async_update = async_update, pv_latency_log = latency_log, pv_dir_hash = dir_hash, pv_async_ctx = w\<rparr>);
     case ims_xdb_init E schema (Some db_path) mode of
       (ret, Some x) \<Rightarrow>
         if \<not> async_update then Some (0, Some (priv x None))
         else do {
           (ret, w) \<leftarrow> ims_async_init (Some x) new created h;
           case w of
             None \<Rightarrow> Some (ret, None)
           | Some w \<Rightarrow>
               (case ims_xdb_init E schema (Some db_path) mode of
                  (ret, Some y) \<Rightarrow> Some (0, Some (priv y (Some (w\<lparr>w_async := (w_async w)\<lparr>a_latency_log := latency_log\<rparr>\<rparr>))))
                | (ret, None) \<Rightarrow> Some (ret, None))
         }
     | (ret, None) \<Rightarrow> Some (ret, None)
   }"


subsection \<open>Requests\<close>

datatype fop =
    Mkdir "string option" iatt
  | Create string iatt
  | Symlink string iatt
  | Unlink string
  | Rmdir string
  | Link string iatt
  | Rename "(string \<times> string) option"
  | Setxattr "ims_xdb_attr option"
  | Setattr iatt

text \<open>The request halves that only pass the path on.  \<open>buf\<close> is the attributes the reply
  will carry.\<close>

definition ims_create :: "string \<Rightarrow> iatt \<Rightarrow> fop" where "ims_create path buf = Create path buf"

definition ims_symlink :: "string \<Rightarrow> iatt \<Rightarrow> fop" where "ims_symlink path buf = Symlink path buf"

definition ims_unlink :: "string \<Rightarrow> fop" where "ims_unlink path = Unlink path"

definition ims_rmdir :: "string \<Rightarrow> fop" where "ims_rmdir path = Rmdir path"

definition ims_link :: "string \<Rightarrow> string \<Rightarrow> iatt \<Rightarrow> fop" where "ims_link oldpath newpath buf = Link newpath buf"

text \<open>The callback of each operation, with the cookie its request set up; \<open>truncate\<close>,
  \<open>ftruncate\<close>, \<open>fsetattr\<close> and \<open>writev\<close> share the callback of \<open>setattr\<close>.\<close>

fun fop_cbk :: "'c sqlite3 \<Rightarrow> mem_env \<Rightarrow> 'c ims_priv \<Rightarrow> int \<Rightarrow> int \<Rightarrow> fop \<Rightarrow> (reply \<times> 'c ims_priv) option" where
  "fop_cbk E env priv r e (Mkdir c buf) = ims_mkdir_cbk E env priv c r e buf"
| "fop_cbk E env priv r e (Create c buf) = ims_create_cbk E env priv c r e buf"
| "fop_cbk E env priv r e (Symlink c buf) = ims_symlink_cbk E env priv c r e buf"
| "fop_cbk E env priv r e (Unlink c) = ims_unlink_cbk E env priv c r e"
| "fop_cbk E env priv r e (Rmdir c) = ims_rmdir_cbk E env priv c r e"
| "fop_cbk E env priv r e (Link c buf) = ims_link_cbk E env priv c r e buf"
| "fop_cbk E env priv r e (Rename c) = ims_rename_cbk E env priv c r e"
| "fop_cbk E env priv r e (Setxattr c) = ims_setxattr_cbk E env priv c r e"
| "fop_cbk E env priv r e (Setattr buf) = ims_setattr_cbk E env priv r e buf"

end
