(* ===== verification/Ims_Ipc.thy ===== *)
theory Ims_Ipc
  imports Server
begin

unbundle bit_operations_syntax

text \<open>
  Requests to the index over \<open>ipc\<close>
  (\<open>src/xlators/features/imess-server/src/imess-server-ipc.c\<close> and \<open>ims_ipc\<close> of
  \<open>imess-server.c\<close>): queries fetched page by page, programs run on the files of a query, and
  extractors that index what such a program prints.  The conversions of floating-point numbers and the
  operating system are parameters; elapsed times, addresses of new dictionaries and the name of the host
  come from an environment.  \<open>None\<close> is a crash or a buffer overflow.
\<close>

subsection \<open>Floating-point values in dictionaries\<close>

text \<open>The conversions of the C library between doubles and text.\<close>

record fp_lib =
  fmt_f :: "dbl \<Rightarrow> string"
  c_strtod :: "string \<Rightarrow> int \<times> dbl"
  scan_lf :: "string \<Rightarrow> dbl option"
  dbl_positive :: "dbl \<Rightarrow> bool"

definition data_from_double :: "fp_lib \<Rightarrow> dbl \<Rightarrow> data_t" where
  "data_from_double fp val = text_data (fmt_f fp val)"

definition u_data_to_double :: "fp_lib \<Rightarrow> data_t option \<Rightarrow> int \<times> dbl option" where
  "u_data_to_double fp data = (case data of
     None \<Rightarrow> (- EINVAL, None)
   | Some d \<Rightarrow> (case c_strtod fp (data_text d) of (errno, v) \<Rightarrow> (if errno \<noteq> 0 then - errno else 0, Some v)))"

definition dict_get_double where "dict_get_double fp = dict_get_via (u_data_to_double fp)"

definition dict_set_double where
  "dict_set_double fp this key val = dict_set_via (Some (data_from_double fp val)) this key"


subsection \<open>Pages of a query result\<close>

text \<open>\<open>sprintf (buf, "%llu", n)\<close> into a buffer of \<open>cap\<close> bytes; \<open>None\<close> is an overflow.\<close>

definition sprintf_llu :: "nat \<Rightarrow> nat \<Rightarrow> string option" where
  "sprintf_llu cap n = (let s = dec_str n in if length s < cap then Some s else None)"

text \<open>The loop over the rows of a page.  The first component tells whether storing a row failed
  (\<open>goto out\<close>), with \<open>ret\<close>, \<open>i\<close>, \<open>key\<close> and the dictionary as the loop leaves
  them.  A row goes into the reply without a copy and the reply frees it when the request is over,
  while the result still points to it: \<open>gone\<close> are the keys of the rows the result has lost in this way, and to
  read one of them again is a use of freed memory, \<open>None\<close> like an overflow of \<open>key[20]\<close>.\<close>

function fetch_rows ::
  "string list \<Rightarrow> dict_t option \<Rightarrow> u64 \<Rightarrow> u64 \<Rightarrow> u64 \<Rightarrow> int \<Rightarrow> string \<Rightarrow> dict_t option \<Rightarrow>
   (bool \<times> int \<times> u64 \<times> string \<times> dict_t option \<times> string list) option" where
  "fetch_rows gone qres offset count i ret key xdata =
     (if i < count then
        case sprintf_llu 20 (unat (offset + i)) of
          None \<Rightarrow> None
        | Some current \<Rightarrow>
            case dict_get_str qres (Some current) of (ret, row) \<Rightarrow>
            if ret \<noteq> 0 then Some (False, ret, i, current, xdata, gone)
            else if current \<in> set gone then None
            else case sprintf_llu 20 (unat i) of
                None \<Rightarrow> None
              | Some key \<Rightarrow>
                  case dict_set_dynstr xdata key row of (r, xdata') \<Rightarrow>
                  if ret OR r \<noteq> 0 then Some (True, ret OR r, i, key, xdata', current # gone)
                  else fetch_rows (current # gone) qres offset count (i + 1) (ret OR r) key xdata'
      else Some (False, ret, i, key, xdata, gone))"
  by pat_completeness auto
termination
  by (relation "measure (\<lambda>(_, _, _, count, i, _). unat count - unat i)")
    (auto simp: unat_succ_less dest: word_less_nat_alt [THEN iffD1])

declare fetch_rows.simps [simp del]

text \<open>\<open>qrset\<close> (\<open>qrs\<close>) is the set of registered results.  When all rows are fetched, the key that is
  removed from it is the one of the last row.\<close>

definition ims_ipc_process_query_result ::
  "fp_lib \<Rightarrow> dict_t \<Rightarrow> dict_t option \<Rightarrow> string list \<Rightarrow> dict_t option \<Rightarrow> u64 \<Rightarrow> u64 \<Rightarrow>
   (int \<times> dict_t \<times> dict_t option \<times> string list) option" where
  "ims_ipc_process_query_result fp qrs qres gone xdata offset count =
     (case dict_get_uint64 qres (Some ''count'') of (ret, n) \<Rightarrow>
      if ret \<noteq> 0 then Some (ret, qrs, xdata, gone)
      else
        case (if offset = 0 then
                (case dict_get_double fp qres (Some ''dbtime'') of (ret, dbtime) \<Rightarrow>
                 if ret \<noteq> 0 then (ret, xdata)
                 else dict_set_double fp xdata ''dbtime'' (the dbtime))
              else (0, xdata)) of (ret, xdata) \<Rightarrow>
        if ret \<noteq> 0 then Some (ret, qrs, xdata, gone)
        else do {
          (failed, ret, i, key, xdata, gone) \<leftarrow> fetch_rows gone qres offset count 0 ret [] xdata;
          if failed then Some (ret, qrs, xdata, gone)
          else
            let finished = (word_of_int (the n) \<le> offset + i);
                qrs' = (if finished then the (dict_del (Some qrs) (Some key)) else qrs);
                comeback = (if finished then 0 else 1)
            in case dict_set_uint64 xdata ''count'' (uint i) of (r1, xdata) \<Rightarrow>
               case dict_set_int32 xdata ''ret'' r1 of (r2, xdata) \<Rightarrow>
               case dict_set_int32 xdata ''comeback'' comeback of (r3, xdata) \<Rightarrow>
                 Some (r1 OR r2 OR r3, qrs', xdata, gone)
        })"


subsection \<open>Queries\<close>

text \<open>The dictionaries of query results are objects of the heap \<open>ip_dicts\<close>; \<open>dict_new\<close>
  takes an address from the environment, or fails.  \<open>ip_freed\<close> holds for each of them the keys of
  the rows that were freed with the replies they went into.\<close>

record 'c ipc_state =
  ip_priv :: "'c ims_priv"
  ip_dicts :: "nat \<rightharpoonup> dict_t"
  ip_freed :: "nat \<Rightarrow> string list"

definition new_result :: "nat \<Rightarrow> 'c ipc_state \<Rightarrow> 'c ipc_state" where
  "new_result r st = st\<lparr>ip_dicts := (ip_dicts st)(r \<mapsto> dict_new), ip_freed := (ip_freed st)(r := [])\<rparr>"

text \<open>What the environment supplies to a request: addresses for new dictionaries, the
  elapsed times, the name of the host.\<close>

record ipc_env =
  ie_new :: "nat option"
  ie_out :: bool
  ie_dbtime :: dbl
  ie_runtime :: dbl
  ie_host :: string

definition set_xdb :: "'c ims_xdb \<Rightarrow> 'c ipc_state \<Rightarrow> 'c ipc_state" where
  "set_xdb x st = st\<lparr>ip_priv := (ip_priv st)\<lparr>pv_xdb := x\<rparr>\<rparr>"

definition ims_ipc_query_stateless ::
  "fp_lib \<Rightarrow> 'c sqlite3 \<Rightarrow> ipc_env \<Rightarrow> dict_t option \<Rightarrow> dict_t option \<Rightarrow> 'c ipc_state \<Rightarrow>
   (int \<times> int \<times> dict_t option \<times> 'c ipc_state) option" where
  "ims_ipc_query_stateless fp E env xdata_in xdata_out st =
     (case dict_get_str xdata_in (Some ''sql'') of (op_ret, sql) \<Rightarrow>
      if op_ret \<noteq> 0 then Some (op_ret, EINVAL, xdata_out, st)
      else do {
        (op_ret, x, xdata_out) \<leftarrow> ims_xdb_direct_query E (Some (pv_xdb (ip_priv st))) sql xdata_out;
        let op_errno = (if op_ret \<noteq> 0 then EIO else 0);
            (op_ret, xdata_out) = dict_set_double fp xdata_out ''runtime'' (ie_runtime env)
        in Some (op_ret, op_errno, xdata_out, set_xdb x st)
      })"

text \<open>The new query runs on the dictionary at \<open>r\<close>.\<close>

definition ims_ipc_new_query ::
  "fp_lib \<Rightarrow> 'c sqlite3 \<Rightarrow> ipc_env \<Rightarrow> dict_t option \<Rightarrow> nat \<Rightarrow> 'c ipc_state \<Rightarrow> (int \<times> int \<times> 'c ipc_state) option" where
  "ims_ipc_new_query fp E env xdata_in r st =
     (case dict_get_str xdata_in (Some ''sql'') of (ret1, sql) \<Rightarrow>
      case dict_get_str xdata_in (Some ''session'') of (ret2, session) \<Rightarrow>
      if ret1 OR ret2 \<noteq> 0 then Some (ret1 OR ret2, EINVAL, st)
      else do {
        (ret, x, qres) \<leftarrow> ims_xdb_direct_query E (Some (pv_xdb (ip_priv st))) sql (ip_dicts st r);
        let st = (set_xdb x st)\<lparr>ip_dicts := (ip_dicts st)(r := qres)\<rparr>;
        if ret \<noteq> 0 then Some (ret, EIO, st)
        else
          case dict_set_double fp qres ''dbtime'' (ie_dbtime env) of (ret, qres) \<Rightarrow>
          let st = st\<lparr>ip_dicts := (ip_dicts st)(r := qres)\<rparr> in
          if ret \<noteq> 0 then Some (ret, EIO, st)
          else
            case ims_xdb_register_result (Some x) session (Some r) of (ret, x') \<Rightarrow>
            Some (ret, if ret \<noteq> 0 then EIO else 0, set_xdb (the x') st)
      })"

text \<open>The error number that \<open>ims_ipc_new_query\<close> stores is overwritten at \<open>out\<close>.\<close>

definition ims_ipc_query ::
  "fp_lib \<Rightarrow> 'c sqlite3 \<Rightarrow> ipc_env \<Rightarrow> dict_t option \<Rightarrow> dict_t option \<Rightarrow> 'c ipc_state \<Rightarrow>
   (int \<times> int \<times> dict_t option \<times> 'c ipc_state) option" where
  "ims_ipc_query fp E env xdata_in xdata_out st =
     (case dict_get_str xdata_in (Some ''session'') of (op_ret, session) \<Rightarrow>
      if op_ret \<noteq> 0 then Some (op_ret, EINVAL, xdata_out, st)
      else
        case dict_get_uint64 xdata_in (Some ''offset'') of (ret1, offset) \<Rightarrow>
        case dict_get_uint64 xdata_in (Some ''count'') of (ret2, count) \<Rightarrow>
        if ret1 OR ret2 \<noteq> 0 then Some (ret1 OR ret2, EINVAL, xdata_out, st)
        else do {
          (op_ret, r, st) \<leftarrow> (case ims_xdb_get_result (Some (pv_xdb (ip_priv st))) session of
             Some r \<Rightarrow> Some (0, Some r, st)
           | None \<Rightarrow> (case ie_new env of
                None \<Rightarrow> Some (0, None, st)
              | Some r \<Rightarrow> do {
                  (ret, _, st) \<leftarrow> ims_ipc_new_query fp E env xdata_in r (new_result r st);
                  Some (ret, Some r, st)
                }));
          case r of
            None \<Rightarrow> Some (op_ret, ENOMEM, xdata_out, st)
          | Some r \<Rightarrow>
              if op_ret \<noteq> 0 then Some (op_ret, 0, xdata_out, st)
              else do {
                let x = pv_xdb (ip_priv st);
                (op_ret, qrs, xdata_out, gone) \<leftarrow> ims_ipc_process_query_result fp (qrset x) (ip_dicts st r) (ip_freed st r)
                  xdata_out (word_of_int (the offset)) (word_of_int (the count));
                let st = (set_xdb (x\<lparr>qrset := qrs\<rparr>) st)\<lparr>ip_freed := (ip_freed st)(r := gone)\<rparr>;
                if op_ret \<noteq> 0 then Some (op_ret, 0, xdata_out, st)
                else
                  case dict_set_double fp xdata_out ''runtime'' (ie_runtime env) of (op_ret, xdata_out) \<Rightarrow>
                    Some (op_ret, 0, xdata_out, st)
              }
        })"

subsection \<open>Programs run on the files of a query\<close>

text \<open>The operating system: running a program gives its output and the result of waiting
  for it, or fails to start; \<open>lsetxattr\<close> returns its result and \<open>errno\<close>.\<close>

record 'o os =
  os_run :: "string \<Rightarrow> string \<Rightarrow> 'o \<Rightarrow> (string \<times> int) option \<times> 'o"
  os_lsetxattr :: "string \<Rightarrow> string \<Rightarrow> string \<Rightarrow> u64 \<Rightarrow> bool \<Rightarrow> 'o \<Rightarrow> (int \<times> int) \<times> 'o"
  os_lgetxattr :: "string \<Rightarrow> string \<Rightarrow> 'o \<Rightarrow> byte list"
  os_errno :: "'o \<Rightarrow> int"

text \<open>\<open>fgets\<close> with a buffer of \<open>n + 1\<close> bytes: a line with its newline, or as much of it as
  fits; what is read ends at a NUL for the string functions that use it.\<close>

fun fgets_one :: "nat \<Rightarrow> string \<Rightarrow> string \<times> string" where
  "fgets_one 0 s = ([], s)"
| "fgets_one n [] = ([], [])"
| "fgets_one (Suc n) (c # s) =
     (if c = CHR 0x0A then ([c], s) else case fgets_one n s of (l, r) \<Rightarrow> (c # l, r))"

lemma fgets_one_append: "fgets_one n s = (l, r) \<Longrightarrow> l @ r = s"
  by (induction n s arbitrary: l r rule: fgets_one.induct) (auto split: if_splits prod.splits)

lemma fgets_one_length: "fgets_one n s = (l, r) \<Longrightarrow> length l \<le> n"
  by (induction n s arbitrary: l r rule: fgets_one.induct) (auto split: if_splits prod.splits)

lemma fgets_one_nonempty: "0 < n \<Longrightarrow> s \<noteq> [] \<Longrightarrow> fst (fgets_one n s) \<noteq> []"
  by (induction n s rule: fgets_one.induct) (auto split: prod.splits)

lemma fgets_one_shrinks: "fgets_one n s = (l, r) \<Longrightarrow> 0 < n \<Longrightarrow> s \<noteq> [] \<Longrightarrow> length r < length s"
  using fgets_one_append [of n s l r] fgets_one_nonempty [of n s] by (auto simp flip: length_greater_0_conv)

definition c_trunc :: "string \<Rightarrow> string" where
  "c_trunc s = takeWhile (\<lambda>c. c \<noteq> CHR 0x00) s"

function fgets_lines :: "nat \<Rightarrow> string \<Rightarrow> string list" where
  "fgets_lines n s =
     (if n = 0 \<or> s = [] then []
      else case fgets_one n s of (l, r) \<Rightarrow> l # fgets_lines n r)"
  by pat_completeness auto
termination
  by (relation "measure (\<lambda>(n, s). length s)") (auto dest: fgets_one_shrinks [OF sym])

declare fgets_lines.simps [simp del]

definition fmt_s :: "string option \<Rightarrow> string" where
  "fmt_s s = (case s of Some t \<Rightarrow> t | None \<Rightarrow> ''(null)'')"

text \<open>The path on the brick; \<open>None\<close> when it overflows the buffer.\<close>

definition brick_file :: "string \<Rightarrow> string option \<Rightarrow> string option" where
  "brick_file brick file = (let p = brick @ fmt_s file in if length p < PATH_MAX then Some p else None)"

text \<open>The file of row \<open>i\<close>; a row that is missing leaves the variable as it is.  \<open>None\<close> when the
  number of the row overflows \<open>keybuf[12]\<close>.\<close>

definition row_file :: "dict_t option \<Rightarrow> nat \<Rightarrow> string option \<Rightarrow> string option option" where
  "row_file xfiles i file = do {
     keybuf \<leftarrow> sprintf_llu 12 i;
     case dict_get_str xfiles (Some keybuf) of (ret, f) \<Rightarrow> Some (if ret = 0 \<and> f \<noteq> None then f else file)
   }"

text \<open>The lines of one run into \<open>result\<close>, numbered from \<open>count\<close>; \<open>None\<close> when a number overflows
  \<open>rkeybuf[12]\<close>.\<close>

fun exec_lines :: "string list \<Rightarrow> u64 \<Rightarrow> dict_t option \<Rightarrow> (u64 \<times> dict_t option) option" where
  "exec_lines [] count result = Some (count, result)"
| "exec_lines (ptr # ls) count result = do {
     rkeybuf \<leftarrow> sprintf_llu 12 (unat count);
     case dict_set_dynstr_with_alloc result rkeybuf (Some (c_trunc ptr)) of (ret, result') \<Rightarrow>
       if ret \<noteq> 0 then Some (count, result') else exec_lines ls (count + 1) result'
   }"

text \<open>The loop over the files.\<close>

fun exec_loop ::
  "'o os \<Rightarrow> string \<Rightarrow> string \<Rightarrow> dict_t option \<Rightarrow> nat list \<Rightarrow> int \<Rightarrow> string option \<Rightarrow> u64 \<Rightarrow> dict_t option \<Rightarrow> 'o \<Rightarrow>
   (int \<times> u64 \<times> dict_t option \<times> 'o) option" where
  "exec_loop os brick operator xfiles [] op_ret file count result ost = Some (op_ret, count, result, ost)"
| "exec_loop os brick operator xfiles (i # is) op_ret file count result ost = do {
     file \<leftarrow> row_file xfiles i file;
     path \<leftarrow> brick_file brick file;
     (case os_run os operator path ost of
        (None, ost) \<Rightarrow> exec_loop os brick operator xfiles is (-1) file count result ost
      | (Some (out, end_ret), ost) \<Rightarrow> do {
          (count, result) \<leftarrow> exec_lines (fgets_lines (PATH_MAX - 1) out) count result;
          exec_loop os brick operator xfiles is end_ret file count result ost
        })
   }"

definition file_count :: "dict_t option \<Rightarrow> int \<times> nat" where
  "file_count xfiles = (case dict_get_uint64 xfiles (Some ''count'') of (ret, n) \<Rightarrow>
     (ret, nat (case n of Some n \<Rightarrow> n | None \<Rightarrow> 0)))"

text \<open>\<open>*err\<close> keeps its value when the result can be stored.\<close>

definition work_files_end :: "int \<Rightarrow> int \<Rightarrow> int \<Rightarrow> u64 \<Rightarrow> dict_t option \<Rightarrow> int \<times> int \<times> dict_t option" where
  "work_files_end err errno op_ret count result =
     (case dict_set_int32 result ''ret'' op_ret of (r1, result) \<Rightarrow>
      case dict_set_uint64 result ''count'' (uint count) of (r2, result) \<Rightarrow>
        (r1 OR r2, if r1 OR r2 \<noteq> 0 then errno else err, result))"

definition ipc_active_work_files_exec ::
  "'o os \<Rightarrow> string \<Rightarrow> string \<Rightarrow> dict_t option \<Rightarrow> dict_t option \<Rightarrow> int \<Rightarrow> 'o \<Rightarrow> (int \<times> int \<times> dict_t option \<times> 'o) option" where
  "ipc_active_work_files_exec os brick operator xfiles result err ost =
     (case file_count xfiles of (op_ret, n_files) \<Rightarrow> do {
        (op_ret, count, result, ost) \<leftarrow> exec_loop os brick operator xfiles [0..<n_files] op_ret None 0 result ost;
        case work_files_end err (os_errno os ost) op_ret count result of (op_ret, err, result) \<Rightarrow>
          Some (op_ret, err, result, ost)
      })"


subsection \<open>Extractors\<close>

definition parse_line_to_xattr ::
  "(string \<Rightarrow> dbl option) \<Rightarrow> string \<Rightarrow> ims_xdb_attr \<Rightarrow> int \<times> int \<times> ims_xdb_attr" where
  "parse_line_to_xattr scan line xattr =
     (if CHR ''='' \<notin> set line then (-1, EINVAL, xattr)
      else let key = takeWhile (\<lambda>c. c \<noteq> CHR ''='') line; val = tl (dropWhile (\<lambda>c. c \<noteq> CHR ''='') line)
           in (0, 0, xattr_value scan key val xattr))"

definition xattr_print :: "fp_lib \<Rightarrow> ims_xdb_attr \<Rightarrow> string option" where
  "xattr_print fp a =
     (if at_type a = IMS_XDB_TYPE_INTEGER then Some (fmt_d (sint (at_ival a)))
      else if at_type a = IMS_XDB_TYPE_REAL then Some (fmt_f fp (at_rval a))
      else if at_type a = IMS_XDB_TYPE_STRING then Some (fmt_s (at_sval a))
      else None)"

text \<open>A text loses its last byte, the newline of the line it was read from; \<open>size\<close> wraps
  when there is none.\<close>

definition ims_sys_setxattr ::
  "fp_lib \<Rightarrow> 'o os \<Rightarrow> string \<Rightarrow> ims_xdb_attr \<Rightarrow> 'o \<Rightarrow> int \<times> ims_xdb_attr \<times> 'o" where
  "ims_sys_setxattr fp os path xattr ost =
     (case xattr_print fp xattr of
        None \<Rightarrow> (-1, xattr, ost)
      | Some val \<Rightarrow>
          let len = word_of_nat (length val) :: u64;
              size = (if at_type xattr = IMS_XDB_TYPE_STRING then len - 1 else len);
              name = fmt_s (at_name xattr)
          in case os_lsetxattr os path name val size True ost of ((op_ret, errno), ost) \<Rightarrow>
             case (if op_ret = -1 \<and> errno = EEXIST
                   then (case os_lsetxattr os path name val size False ost of ((op_ret, _), ost) \<Rightarrow> (op_ret, op_ret \<noteq> 0, ost))
                   else (op_ret, False, ost)) of (op_ret, failed, ost) \<Rightarrow>
             if failed then (op_ret, xattr, ost)
             else
               let gfid = take 16 (os_lgetxattr os path ''trusted.gfid'' ost @ replicate 16 0)
               in (op_ret, xattr\<lparr>at_gfid := Some (uuid_utoa gfid)\<rparr>, ost))"

text \<open>The attribute always goes through the queue, which exists in asynchronous mode only.\<close>

definition extractor_setxattr ::
  "fp_lib \<Rightarrow> 'o os \<Rightarrow> mem_env \<Rightarrow> string \<Rightarrow> string \<Rightarrow> 'c ims_priv \<Rightarrow> 'o \<Rightarrow> (int \<times> int \<times> 'c ims_priv \<times> 'o) option" where
  "extractor_setxattr fp os env path line priv ost =
     (case parse_line_to_xattr (scan_lf fp) line zero_attr of (op_ret, op_errno, xattr) \<Rightarrow>
      if op_ret \<noteq> 0 then Some (op_ret, op_errno, priv, ost)
      else case ims_sys_setxattr fp os path xattr ost of (op_ret, xattr, ost) \<Rightarrow>
        if op_ret \<noteq> 0 then Some (op_ret, os_errno os ost, priv, ost)
        else do {
          (op_ret, priv) \<leftarrow> put_task env priv (zero_task\<lparr>t_op := IMS_TASK_INSERT_XATTR, t_attr := xattr\<rparr>);
          Some (op_ret, op_errno, priv, ost)
        })"

text \<open>\<open>envs\<close> supplies the allocations of one enqueue after the other; each line sets \<open>*err\<close>.\<close>

fun extract_lines ::
  "fp_lib \<Rightarrow> 'o os \<Rightarrow> string \<Rightarrow> string list \<Rightarrow> (nat \<Rightarrow> mem_env) \<Rightarrow> int \<Rightarrow> u64 \<Rightarrow> 'c ims_priv \<Rightarrow> 'o \<Rightarrow>
   (int \<times> u64 \<times> 'c ims_priv \<times> 'o) option" where
  "extract_lines fp os path [] envs err count priv ost = Some (err, count, priv, ost)"
| "extract_lines fp os path (ptr # ls) envs err count priv ost = do {
     (op_ret, err, priv, ost) \<leftarrow> extractor_setxattr fp os (envs (unat count)) path (c_trunc ptr) priv ost;
     if op_ret \<noteq> 0 then Some (err, count, priv, ost)
     else extract_lines fp os path ls envs err (count + 1) priv ost
   }"

fun extract_loop ::
  "fp_lib \<Rightarrow> 'o os \<Rightarrow> string \<Rightarrow> string \<Rightarrow> dict_t option \<Rightarrow> nat list \<Rightarrow> (nat \<Rightarrow> mem_env) \<Rightarrow> int \<Rightarrow> int \<Rightarrow> string option \<Rightarrow> u64 \<Rightarrow>
   'c ims_priv \<Rightarrow> 'o \<Rightarrow> (int \<times> int \<times> u64 \<times> 'c ims_priv \<times> 'o) option" where
  "extract_loop fp os brick operator xfiles [] envs err op_ret file count priv ost = Some (err, op_ret, count, priv, ost)"
| "extract_loop fp os brick operator xfiles (i # is) envs err op_ret file count priv ost = do {
     file \<leftarrow> row_file xfiles i file;
     path \<leftarrow> brick_file brick file;
     (case os_run os operator path ost of
        (None, ost) \<Rightarrow> extract_loop fp os brick operator xfiles is envs err (-1) file count priv ost
      | (Some (out, end_ret), ost) \<Rightarrow> do {
          (err, count, priv, ost) \<leftarrow> extract_lines fp os path (fgets_lines (PATH_MAX - 1) out) envs err count priv ost;
          extract_loop fp os brick operator xfiles is envs err end_ret file count priv ost
        })
   }"

definition ipc_active_work_files_extract ::
  "fp_lib \<Rightarrow> 'o os \<Rightarrow> (nat \<Rightarrow> mem_env) \<Rightarrow> string \<Rightarrow> dict_t option \<Rightarrow> dict_t option \<Rightarrow> int \<Rightarrow> 'c ims_priv \<Rightarrow> 'o \<Rightarrow>
   (int \<times> int \<times> dict_t option \<times> 'c ims_priv \<times> 'o) option" where
  "ipc_active_work_files_extract fp os envs operator xfiles result err priv ost =
     (case file_count xfiles of (op_ret, n_files) \<Rightarrow> do {
        (err, op_ret, count, priv, ost) \<leftarrow>
          extract_loop fp os (pv_brick_path priv) operator xfiles [0..<n_files] envs err op_ret None 0 priv ost;
        case work_files_end err (os_errno os ost) op_ret count result of (op_ret, err, result) \<Rightarrow>
          Some (op_ret, err, result, priv, ost)
      })"

subsection \<open>Dispatch of requests\<close>

abbreviation (input) IMS_IPC_TYPE_EXEC :: int where "IMS_IPC_TYPE_EXEC \<equiv> 1"
abbreviation (input) IMS_IPC_TYPE_FILTER :: int where "IMS_IPC_TYPE_FILTER \<equiv> 2"
abbreviation (input) IMS_IPC_TYPE_EXTRACTOR :: int where "IMS_IPC_TYPE_EXTRACTOR \<equiv> 3"

type_synonym ('c, 'o) ipc_result = "(int \<times> int \<times> dict_t option \<times> 'c ipc_state \<times> 'o) option"

text \<open>The work on the files of the query: its result is only logged, its error number is kept.  \<open>op_errno\<close>
  is 0 when it starts.\<close>

definition active_work ::
  "fp_lib \<Rightarrow> 'o os \<Rightarrow> (nat \<Rightarrow> mem_env) \<Rightarrow> int \<Rightarrow> string \<Rightarrow> dict_t option \<Rightarrow> dict_t option \<Rightarrow> 'c ipc_state \<Rightarrow> 'o \<Rightarrow>
   ('c, 'o) ipc_result" where
  "active_work fp os envs type operator xfiles xdata_out st ost =
     (if type = IMS_IPC_TYPE_EXEC then
        map_option (\<lambda>(ret, err, result, ost). (ret, err, result, st, ost))
          (ipc_active_work_files_exec os (pv_brick_path (ip_priv st)) operator xfiles xdata_out 0 ost)
      else if type = IMS_IPC_TYPE_EXTRACTOR then
        map_option (\<lambda>(ret, err, result, priv, ost). (ret, err, result, st\<lparr>ip_priv := priv\<rparr>, ost))
          (ipc_active_work_files_extract fp os envs operator xfiles xdata_out 0 (ip_priv st) ost)
      else Some (0, 0, xdata_out, st, ost))"

definition ims_ipc_active_exec ::
  "fp_lib \<Rightarrow> 'c sqlite3 \<Rightarrow> 'o os \<Rightarrow> ipc_env \<Rightarrow> (nat \<Rightarrow> mem_env) \<Rightarrow> dict_t option \<Rightarrow> dict_t option \<Rightarrow> int \<Rightarrow> 'c ipc_state \<Rightarrow> 'o \<Rightarrow>
   ('c, 'o) ipc_result" where
  "ims_ipc_active_exec fp E os env envs xdata_in xdata_out type st ost =
     (case dict_get_str xdata_in (Some ''sql'') of (ret, sql) \<Rightarrow>
      if ret \<noteq> 0 then Some (ret, EINVAL, xdata_out, st, ost)
      else case dict_get_str xdata_in (Some ''operator'') of (ret, operator) \<Rightarrow>
      if ret \<noteq> 0 then Some (ret, EINVAL, xdata_out, st, ost)
      else if ie_new env = None then Some (ret, ENOMEM, xdata_out, st, ost)
      else do {
        (ret, x, xfiles) \<leftarrow> ims_xdb_direct_query E (Some (pv_xdb (ip_priv st))) sql (Some dict_new);
        let st = set_xdb x st;
        if ret \<noteq> 0 then Some (ret, EIO, xdata_out, st, ost)
        else
          case dict_get_uint64 xfiles (Some ''count'') of (ret, count) \<Rightarrow>
          if ret \<noteq> 0 then Some (ret, EINVAL, xdata_out, st, ost)
          else if count = Some 0 then
            (case dict_set_int32 xdata_out ''ret'' 0 of (_, xdata_out) \<Rightarrow>
             case dict_set_uint64 xdata_out ''count'' 0 of (_, xdata_out) \<Rightarrow>
             case dict_set_double fp xdata_out ''runtime'' 0 of (ret, xdata_out) \<Rightarrow> Some (ret, 0, xdata_out, st, ost))
          else if type \<notin> {IMS_IPC_TYPE_EXEC, IMS_IPC_TYPE_EXTRACTOR, IMS_IPC_TYPE_FILTER} then
            Some (ret, EINVAL, xdata_out, st, ost)
          else do {
            (_, op_errno, xdata_out, st, ost) \<leftarrow> active_work fp os envs type (fmt_s operator) xfiles xdata_out st ost;
            case dict_set_double fp xdata_out ''runtime'' (ie_runtime env) of (ret, xdata_out) \<Rightarrow>
              Some (ret, op_errno, xdata_out, st, ost)
          }
      })"

definition has_prefix :: "string \<Rightarrow> string \<Rightarrow> bool" where
  "has_prefix p s \<longleftrightarrow> take (length p) s = p"

text \<open>The name under which a server answers; \<open>None\<close> when it overflows \<open>idbuf\<close>.\<close>

definition ipc_identity :: "string \<Rightarrow> string \<Rightarrow> string option" where
  "ipc_identity host db_path =
     (let s = take 64 host @ ''-'' @ db_path in if length s < PATH_MAX then Some s else None)"

text \<open>\<open>Inl\<close> is a request for another translator, passed on to the child.\<close>

abbreviation (input) IMESS_IPC_OP :: int where "IMESS_IPC_OP \<equiv> 0x1177E550"

definition ims_ipc ::
  "fp_lib \<Rightarrow> 'c sqlite3 \<Rightarrow> 'o os \<Rightarrow> ipc_env \<Rightarrow> (nat \<Rightarrow> mem_env) \<Rightarrow> int \<Rightarrow> dict_t option \<Rightarrow> 'c ipc_state \<Rightarrow> 'o \<Rightarrow>
   (int \<times> dict_t option) + ('c, 'o) ipc_result" where
  "ims_ipc fp E os env envs op xdata st ost =
     (if op \<noteq> IMESS_IPC_OP then Inl (op, xdata)
      else Inr (case dict_get_str xdata (Some ''type'') of (ret, type) \<Rightarrow>
        if ret \<noteq> 0 then Some (ret, EINVAL, None, st, ost)
        else if \<not> ie_out env then Some (ret, ENOMEM, None, st, ost)
        else do {
          from \<leftarrow> ipc_identity (ie_host env) (pv_db_path (ip_priv st));
          type \<leftarrow> type;
          case dict_set_str (Some dict_new) ''from'' (Some from) of (ret, xdout) \<Rightarrow>
          if ret \<noteq> 0 then Some (ret, 0, xdout, st, ost)
          else if has_prefix ''query'' type then
            map_option (\<lambda>(ret, err, out, st). (ret, err, out, st, ost)) (ims_ipc_query fp E env xdata xdout st)
          else if has_prefix ''exec'' type then
            ims_ipc_active_exec fp E os env envs xdata xdout IMS_IPC_TYPE_EXEC st ost
          else if has_prefix ''filter'' type then
            ims_ipc_active_exec fp E os env envs xdata xdout IMS_IPC_TYPE_FILTER st ost
          else if has_prefix ''extractor'' type then
            ims_ipc_active_exec fp E os env envs xdata xdout IMS_IPC_TYPE_EXTRACTOR st ost
          else Some (ret, EINVAL, xdout, st, ost)
        }))"

end
