(* ===== verification/Dht_Ipc.thy ===== *)
theory Dht_Ipc
  imports Ims_Ipc
begin

unbundle bit_operations_syntax

text \<open>
  The fan-out of a request over the subvolumes and the merging of the replies
  (\<open>dht_ipc\<close> and \<open>dht_ipc_cbk\<close> of \<open>src/xlators/cluster/dht/src/dht-common.c\<close>).
\<close>

subsection \<open>The fan-out of a request over the subvolumes\<close>

record dht_ipc_data =
  di_xdata :: "dict_t option"
  di_pos :: u64
  di_call_cnt :: int

definition dht_ipc_return :: "dht_ipc_data option \<Rightarrow> int \<times> dht_ipc_data option" where
  "dht_ipc_return data = (case data of
     None \<Rightarrow> (-1, None)
   | Some d \<Rightarrow> (di_call_cnt d - 1, Some (d\<lparr>di_call_cnt := di_call_cnt d - 1\<rparr>)))"

text \<open>The rows of a reply, renumbered from \<open>pos\<close>.\<close>

function copy_rows :: "dict_t option \<Rightarrow> u64 \<Rightarrow> u64 \<Rightarrow> u64 \<Rightarrow> dict_t option \<Rightarrow> u64 \<times> dict_t option" where
  "copy_rows xdata xcnt i pos req =
     (if i < xcnt then
        copy_rows xdata xcnt (i + 1) (pos + 1)
          (snd (dict_set req (dec_str (unat pos)) (dict_get xdata (Some (dec_str (unat i))))))
      else (pos, req))"
  by pat_completeness auto
termination
  by (relation "measure (\<lambda>(_, xcnt, i, _). unat xcnt - unat i)") (auto simp: unat_succ_less dest: word_less_nat_alt [THEN iffD1])

declare copy_rows.simps [simp del]

text \<open>\<open>sprintf (keybuf, "%s:...", xlname)\<close> into 64 bytes; \<open>None\<close> is an overflow.\<close>

definition xl_key :: "string \<Rightarrow> string \<Rightarrow> string option" where
  "xl_key xlname suffix = (let s = xlname @ suffix in if length s < 64 then Some s else None)"

text \<open>The updates a reply makes to the dictionary of the request, under the lock: the first
  one that fails ends the section.\<close>

type_synonym dict_upd = "dict_t option \<Rightarrow> (int \<times> dict_t option) option"

fun run_updates :: "dict_upd list \<Rightarrow> dict_upd" where
  "run_updates [] d = Some (0, d)"
| "run_updates (f # fs) d = do { (ret, d') \<leftarrow> f d; if ret \<noteq> 0 then Some (ret, d') else run_updates fs d' }"

definition set_xl :: "string \<Rightarrow> string \<Rightarrow> data_t \<Rightarrow> dict_upd" where
  "set_xl xlname suffix v d = do { k \<leftarrow> xl_key xlname suffix; Some (dict_set_via (Some v) d k) }"

definition add_count :: "u64 \<Rightarrow> dict_upd" where
  "add_count xcnt d = (case dict_get_uint64 d (Some ''count'') of (ret, count) \<Rightarrow>
     if ret \<noteq> 0 then Some (ret, d)
     else Some (dict_set_uint64 d ''count'' (uint (word_of_int (the count) + xcnt))))"

definition add_comeback :: "int \<Rightarrow> dict_upd" where
  "add_comeback xcomeback d = (case dict_get_int32 d (Some ''comeback'') of (ret, comeback) \<Rightarrow>
     if ret \<noteq> 0 then Some (ret, d)
     else Some (dict_set_uint64 d ''comeback'' (uint (word_of_int (signed_take_bit 31 (the comeback + xcomeback)) :: u64))))"

definition reply_updates :: "fp_lib \<Rightarrow> string \<Rightarrow> dbl \<Rightarrow> dbl \<Rightarrow> u64 \<Rightarrow> int \<Rightarrow> int \<Rightarrow> dbl \<Rightarrow> dict_upd list" where
  "reply_updates fp xlname latency dbtime xcnt xcomeback xret runtime =
     [set_xl xlname '':latency'' (data_from_double fp latency)] @
     (if dbl_positive fp dbtime then [set_xl xlname '':dbtime'' (data_from_double fp dbtime)] else []) @
     [add_count xcnt, add_comeback xcomeback,
      set_xl xlname '':count'' (data_from_uint64 (uint xcnt)),
      set_xl xlname '':ret'' (data_from_int32 xret),
      set_xl xlname '':runtime'' (data_from_double fp runtime)]"

text \<open>A callback returns what it unwinds with, if it is the last one: the local
  variable \<open>dict_req\<close>, which is NULL when this very reply was not usable.\<close>

definition dht_ipc_cbk ::
  "fp_lib \<Rightarrow> dbl \<Rightarrow> int \<Rightarrow> dict_t option \<Rightarrow> dht_ipc_data \<Rightarrow> (dict_t option option \<times> dht_ipc_data) option" where
  "dht_ipc_cbk fp latency op_ret xdata d =
     (let out = (\<lambda>dict_req d. case dht_ipc_return (Some d) of (cnt, d') \<Rightarrow>
             Some (if cnt = 0 then Some dict_req else None, the d'));
          (r1, xcnt) = dict_get_uint64 xdata (Some ''count'');
          (r2, xret) = dict_get_int32 xdata (Some ''ret'');
          (r3, xlname) = dict_get_str xdata (Some ''from'');
          (r4, runtime) = dict_get_double fp xdata (Some ''runtime'');
          (r5, xcomeback) = dict_get_int32 xdata (Some ''comeback'');
          (r6, dbtime) = dict_get_double fp xdata (Some ''dbtime'')
      in if op_ret = -1 \<or> r1 OR r2 OR r3 OR r4 OR r5 \<noteq> 0 then out None d
         else
           case copy_rows xdata (word_of_int (the xcnt)) 0 (di_pos d) (di_xdata d) of (pos, req) \<Rightarrow> do {
             (_, req) \<leftarrow> run_updates (reply_updates fp (fmt_s xlname) latency (case dbtime of Some v \<Rightarrow> v | None \<Rightarrow> 0)
                (word_of_int (the xcnt)) (the xcomeback) (the xret) (the runtime)) req;
             out req (d\<lparr>di_pos := pos, di_xdata := req\<rparr>)
           })"

text \<open>\<open>Inl\<close> is the default handler; otherwise the state of the request and the subvolumes it
  is sent to.  The mask is read for every subvolume: \<open>None\<close> when it is too short.\<close>

definition dht_ipc :: "nat \<Rightarrow> dict_t option \<Rightarrow> (unit + dht_ipc_data \<times> nat list) option" where
  "dht_ipc subvolume_cnt xdata =
     (case xdata of
        None \<Rightarrow> Some (Inl ())
      | Some _ \<Rightarrow>
          case dict_get_bin xdata (Some ''cmask'') of (ret, cmask) \<Rightarrow>
          if ret \<noteq> 0 then Some (Inl ())
          else do {
            m \<leftarrow> cmask;
            if length m < subvolume_cnt then None
            else
              let targets = filter (\<lambda>i. m ! i \<noteq> 0) [0..<subvolume_cnt];
                  (_, x1) = dict_set_uint64 (Some dict_new) ''count'' 0;
                  (_, x2) = dict_set_int32 x1 ''comeback'' 0
              in Some (Inr (\<lparr>di_xdata = x2, di_pos = 0, di_call_cnt = int (length targets)\<rparr>, targets))
          })"

end
