(* ===== verification/Ixsql.thy ===== *)
theory Ixsql
  imports Dht_Ipc
begin

unbundle bit_operations_syntax

text \<open>
  The query shell (\<open>src/tools/imess-cli/src/ixsql.c\<close> and \<open>ixsql-cmd.c\<close>).  The cluster behind
  \<open>glfs_ipc\<close> is a parameter; what the shell writes to its output is a string.  The latencies it measures
  and prints, and the lines of the verbose mode, are left out.
\<close>

subsection \<open>Iteration by pattern\<close>

text \<open>\<open>fnmatch\<close> without flags, for patterns without brackets and backslashes.\<close>

fun fnmatch :: "string \<Rightarrow> string \<Rightarrow> bool" where
  "fnmatch [] s = (s = [])"
| "fnmatch (c # p) [] = (c = CHR ''*'' \<and> fnmatch p [])"
| "fnmatch (c # p) (d # s) =
     (if c = CHR ''*'' then fnmatch p (d # s) \<or> fnmatch (c # p) s
      else (c = CHR ''?'' \<or> c = d) \<and> fnmatch p s)"

definition dict_fnmatch :: "string \<Rightarrow> string \<Rightarrow> data_t \<Rightarrow> bool" where
  "dict_fnmatch pattern k val = fnmatch pattern k"

definition dict_foreach_fnmatch ::
  "dict_t option \<Rightarrow> string \<Rightarrow> (string \<Rightarrow> data_t \<Rightarrow> 's \<Rightarrow> int \<times> 's) \<Rightarrow> 's \<Rightarrow> int \<times> 's" where
  "dict_foreach_fnmatch dict pattern fn s = dict_foreach_match dict (dict_fnmatch pattern) fn s"


subsection \<open>State of the shell\<close>

record ixsql_query =
  q_sql :: "string option"
  q_result :: "dict_t option"
  q_operator :: "string option"
  q_type :: int
  q_offset :: u64
  q_count :: u64
  q_session_id :: "string option"

definition zero_query :: ixsql_query where
  "zero_query = \<lparr>q_sql = None, q_result = None, q_operator = None, q_type = 0, q_offset = 0, q_count = 0, q_session_id = None\<rparr>"

text \<open>\<open>fp_output\<close> is the text written so far.\<close>

record ixsql_control =
  fp_output :: string
  slice_count :: u64
  num_clients :: nat
  active_clients :: int
  c_mute :: bool
  cli_mask :: "byte list"

record ixsql_state =
  ix_ctl :: ixsql_control
  ix_seq :: u64
  ix_host :: string
  ix_pid :: int
  ix_verbose :: bool
  ix_operator :: "string option"

definition init_control :: "nat \<Rightarrow> ixsql_control" where
  "init_control n_clients = \<lparr>fp_output = [], slice_count = 0, num_clients = n_clients, active_clients = int n_clients,
     c_mute = False, cli_mask = replicate n_clients 1\<rparr>"

definition ixsql_new_session_id :: "ixsql_state \<Rightarrow> string \<times> ixsql_state" where
  "ixsql_new_session_id ix =
     (ix_host ix @ '':'' @ fmt_d (ix_pid ix) @ '':'' @ dec_str (unat (ix_seq ix)), ix\<lparr>ix_seq := ix_seq ix + 1\<rparr>)"

definition put_out :: "string \<Rightarrow> ixsql_control \<Rightarrow> ixsql_control" where
  "put_out s ctl = ctl\<lparr>fp_output := fp_output ctl @ s\<rparr>"


subsection \<open>Sending requests\<close>

text \<open>The cluster behind \<open>glfs_ipc\<close>: a function on the state of the world.\<close>

type_synonym 'w glfs_ipc = "dict_t option \<Rightarrow> 'w \<Rightarrow> (int \<times> dict_t option \<times> 'w) option"

definition ixsql_sql_query ::
  "'w glfs_ipc \<Rightarrow> ixsql_control \<Rightarrow> ixsql_query \<Rightarrow> 'w \<Rightarrow> (int \<times> ixsql_control \<times> ixsql_query \<times> 'w) option" where
  "ixsql_sql_query ipc ctl query w =
     (let (_, cmd) = dict_set_str (Some dict_new) ''type'' (Some ''query'');
          (r1, cmd) = dict_set_str cmd ''session'' (q_session_id query);
          (r2, cmd) = dict_set_str cmd ''sql'' (q_sql query);
          (r3, cmd) = dict_set_uint64 cmd ''offset'' (uint (q_offset query));
          (r4, cmd) = dict_set_uint64 cmd ''count'' (uint (q_count query));
          ret = r1 OR r2 OR r3 OR r4
      in if ret \<noteq> 0 then Some (ret, ctl, query, w)
         else if active_clients ctl \<le> 0 then Some (ret, put_out ''no active clients set.\<newline>'' ctl, query, w)
         else
           case dict_set_static_bin cmd ''cmask'' (Some (cli_mask ctl)) (int (num_clients ctl)) of (ret, cmd) \<Rightarrow>
           if ret \<noteq> 0 then Some (ret, ctl, query, w)
           else do {
             (ret, result, w) \<leftarrow> ipc cmd w;
             if ret \<noteq> 0 then Some (ret, ctl, query, w)
             else Some (ret, ctl, query\<lparr>q_result := result\<rparr>, w)
           })"

definition ixsql_query_type_str :: "string list" where
  "ixsql_query_type_str = [''unknown'', ''exec'', ''filter'', ''extractor'']"

definition ixsql_exec ::
  "'w glfs_ipc \<Rightarrow> ixsql_control \<Rightarrow> ixsql_query \<Rightarrow> 'w \<Rightarrow> (int \<times> ixsql_query \<times> 'w) option" where
  "ixsql_exec ipc ctl query w =
     (if q_type query < 0 \<or> int (length ixsql_query_type_str) \<le> q_type query then None
      else
        let typestr = ixsql_query_type_str ! nat (q_type query);
            (_, cmd) = dict_set_str (Some dict_new) ''type'' (Some typestr);
            (_, cmd) = dict_set_str cmd ''sql'' (q_sql query);
            (_, cmd) = dict_set_str cmd ''operator'' (q_operator query);
            (ret, cmd) = dict_set_static_bin cmd ''cmask'' (Some (cli_mask ctl)) (int (num_clients ctl))
        in if ret \<noteq> 0 then Some (ret, query, w)
           else do {
             (ret, result, w) \<leftarrow> ipc cmd w;
             if ret \<noteq> 0 then Some (ret, query, w) else Some (ret, query\<lparr>q_result := result\<rparr>, w)
           })"

definition ixsql_create_virtual_view ::
  "'w glfs_ipc \<Rightarrow> string option \<Rightarrow> string option \<Rightarrow> 'w \<Rightarrow> (int \<times> 'w) option" where
  "ixsql_create_virtual_view ipc sql name w =
     (let (r1, cmd) = dict_set_str (Some dict_new) ''type'' (Some ''meta:create-view'');
          (r2, cmd) = dict_set_str cmd ''sql'' sql;
          (r3, cmd) = dict_set_str cmd ''name'' name
      in if r1 OR r2 OR r3 \<noteq> 0 then Some (r1 OR r2 OR r3, w)
         else do { (ret, _, w) \<leftarrow> ipc cmd w; Some (ret, w) })"


subsection \<open>Printing results\<close>

definition process_result_count_fn :: "string \<Rightarrow> data_t \<Rightarrow> u64 \<Rightarrow> int \<times> u64" where
  "process_result_count_fn key val res_count = (0, res_count + word_of_int (data_to_uint64 (Some val)))"

text \<open>The key is looked up again for the times; what is printed is left out.\<close>

definition strstr :: "string \<Rightarrow> string \<Rightarrow> bool" where
  "strstr s t \<longleftrightarrow> (\<exists>n \<in> {..length s}. take (length t) (drop n s) = t)"

definition process_metadata_fn :: "fp_lib \<Rightarrow> dict_t option \<Rightarrow> string \<Rightarrow> data_t \<Rightarrow> unit \<Rightarrow> int \<times> unit" where
  "process_metadata_fn fp dict key val u =
     (if strstr key '':ret'' \<or> strstr key '':count'' then 0
      else if strstr key '':runtime'' \<or> strstr key '':dbtime'' then fst (dict_get_double fp dict (Some key))
      else if strstr key '':comeback'' then fst (dict_get_int32 dict (Some key))
      else 0, u)"

text \<open>A row ends with a newline when printed; \<open>row[strlen (row) - 1]\<close> is outside an empty
  row.\<close>

definition row_line :: "string \<Rightarrow> string option" where
  "row_line row = (if row = [] then None else Some (if last row = CHR 0x0A then row else row @ ''\<newline>''))"

function print_query_result ::
  "dict_t option \<Rightarrow> u64 \<Rightarrow> u64 \<Rightarrow> ixsql_control \<Rightarrow> (int \<times> ixsql_control) option" where
  "print_query_result result count i ctl =
     (if i < count then
        case dict_get_str result (Some (dec_str (unat i))) of (ret, row) \<Rightarrow>
          if ret \<noteq> 0 then Some (ret, ctl)
          else do {
            row \<leftarrow> row;
            line \<leftarrow> row_line row;
            print_query_result result count (i + 1) (put_out line ctl)
          }
      else Some (0, ctl))"
  by pat_completeness auto
termination
  by (relation "measure (\<lambda>(_, count, i, _). unat count - unat i)") (auto simp: unat_succ_less dest: word_less_nat_alt [THEN iffD1])

declare print_query_result.simps [simp del]

definition print_data :: "ixsql_query \<Rightarrow> ixsql_control \<Rightarrow> (int \<times> ixsql_control) option" where
  "print_data query ctl = print_query_result (q_result query) (q_count query) 0 ctl"

definition print_better_result :: "ixsql_query \<Rightarrow> ixsql_control \<Rightarrow> (int \<times> ixsql_control) option" where
  "print_better_result query ctl =
     (case dict_get_uint64 (q_result query) (Some ''count'') of (ret, _) \<Rightarrow>
      if ret \<noteq> 0 then Some (-1, ctl)
      else do {
        (ret, ctl) \<leftarrow> print_data query ctl;
        Some (if ret \<noteq> 0 then -1 else signed_take_bit 31 (uint (q_count query)), ctl)
      })"


subsection \<open>Queries in slices\<close>

text \<open>The loop may run forever, in particular when the slice is 0.  \<open>offset\<close> and \<open>count\<close>
  are of type \<open>int\<close>.\<close>

definition to_int32 :: "int \<Rightarrow> int" where
  "to_int32 x = signed_take_bit 31 x"

partial_function (option) sliced_loop ::
  "fp_lib \<Rightarrow> 'w glfs_ipc \<Rightarrow> string option \<Rightarrow> string \<Rightarrow> int \<Rightarrow> bool \<Rightarrow> int \<Rightarrow> u64 \<Rightarrow> ixsql_query \<Rightarrow> ixsql_control \<Rightarrow> 'w \<Rightarrow>
   (int \<times> ixsql_control \<times> 'w) option" where
  "sliced_loop fp ipc sql session count verbose offset res_count query ctl w = do {
     let query = query\<lparr>q_offset := word_of_int offset, q_count := word_of_int count, q_session_id := Some session, q_sql := sql\<rparr>;
     (ret, ctl, query, w) \<leftarrow> ixsql_sql_query ipc ctl query w;
     if ret \<noteq> 0 then Some (ret, ctl, w)
     else
       let result = q_result query;
           (ret, res_count) = dict_foreach_fnmatch result ''*:count'' process_result_count_fn res_count
       in if ret = 0 then Some (-1, ctl, w)
          else if verbose \<and> fst (dict_foreach_fnmatch result ''*:*'' (process_metadata_fn fp result) ()) = 0
          then Some (-1, ctl, w)
          else do {
            (_, ctl) \<leftarrow> (if c_mute ctl then Some (0, ctl) else print_query_result result res_count 0 ctl);
            case dict_get_int32 result (Some ''comeback'') of (ret, comeback) \<Rightarrow>
              if ret \<noteq> 0 then Some (ret, ctl, w)
              else if 0 < the comeback
              then sliced_loop fp ipc sql session count verbose (to_int32 (offset + count)) res_count query ctl w
              else Some (ret, ctl, w)
          }
   }"

definition process_sql_sliced ::
  "fp_lib \<Rightarrow> 'w glfs_ipc \<Rightarrow> ixsql_query \<Rightarrow> ixsql_state \<Rightarrow> 'w \<Rightarrow> (int \<times> ixsql_state \<times> 'w) option" where
  "process_sql_sliced fp ipc query ix w =
     (case ixsql_new_session_id ix of (session, ix) \<Rightarrow> do {
        (ret, ctl, w) \<leftarrow> sliced_loop fp ipc (q_sql query) session (to_int32 (uint (slice_count (ix_ctl ix)))) (ix_verbose ix)
          0 0 zero_query (ix_ctl ix) w;
        Some (ret, ix\<lparr>ix_ctl := ctl\<rparr>, w)
      })"

definition process_sql ::
  "fp_lib \<Rightarrow> 'w glfs_ipc \<Rightarrow> string \<Rightarrow> ixsql_state \<Rightarrow> 'w \<Rightarrow> (int \<times> ixsql_state \<times> 'w) option" where
  "process_sql fp ipc line ix w =
     (let query = zero_query\<lparr>q_sql := Some line\<rparr> in
      if to_lower (take 6 line) \<noteq> ''select'' \<or> \<not> strstr line ''from'' then do {
        (ret, ctl, query, w) \<leftarrow> ixsql_sql_query ipc (ix_ctl ix) query w;
        if ret \<noteq> 0 then Some (ret, ix\<lparr>ix_ctl := ctl\<rparr>, w)
        else do { (_, ctl) \<leftarrow> print_better_result query ctl; Some (ret, ix\<lparr>ix_ctl := ctl\<rparr>, w) }
      }
      else process_sql_sliced fp ipc query ix w)"

definition process_exec ::
  "'w glfs_ipc \<Rightarrow> string \<Rightarrow> int \<Rightarrow> ixsql_state \<Rightarrow> 'w \<Rightarrow> (int \<times> ixsql_state \<times> 'w) option" where
  "process_exec ipc line type ix w =
     (if to_lower (take 16 line) \<noteq> ''select path from'' then Some (-1, ix, w)
      else
        let ctl = (ix_ctl ix)\<lparr>slice_count := 0\<rparr>;
            query = zero_query\<lparr>q_sql := Some line, q_operator := ix_operator ix, q_type := type\<rparr>
        in do {
          (ret, query, w) \<leftarrow> ixsql_exec ipc ctl query w;
          if ret \<noteq> 0 \<or> type = IMS_IPC_TYPE_EXTRACTOR then Some (ret, ix\<lparr>ix_ctl := ctl\<rparr>, w)
          else do { (_, ctl) \<leftarrow> print_better_result query ctl; Some (ret, ix\<lparr>ix_ctl := ctl\<rparr>, w) }
        })"

subsection \<open>Commands of the shell\<close>

text \<open>\<open>cli_mask[cli]\<close> outside the mask is \<open>None\<close>.\<close>

definition count_active :: "byte list \<Rightarrow> int" where
  "count_active m = int (length (filter (\<lambda>b. b \<noteq> 0) m))"

definition set_clients :: "ixsql_control \<Rightarrow> int \<Rightarrow> ixsql_control option" where
  "set_clients ctl cli =
     (if cli = -1 then Some (ctl\<lparr>cli_mask := replicate (num_clients ctl) 1, active_clients := int (num_clients ctl)\<rparr>)
      else if cli = -2 then Some (ctl\<lparr>cli_mask := replicate (num_clients ctl) 0, active_clients := 0\<rparr>)
      else if 0 \<le> cli \<and> cli < int (length (cli_mask ctl)) then
        let m = (cli_mask ctl)[nat cli := (if cli_mask ctl ! nat cli \<noteq> 0 then 0 else 1)]
        in Some (ctl\<lparr>cli_mask := m, active_clients := count_active (take (num_clients ctl) m)\<rparr>)
      else None)"

text \<open>The tokens \<open>strtok_r\<close> finds, and the number of words between blanks.\<close>

fun c_tokens :: "char set \<Rightarrow> string \<Rightarrow> string \<Rightarrow> string list" where
  "c_tokens delim [] acc = (if acc = [] then [] else [acc])"
| "c_tokens delim (c # s) acc =
     (if c \<in> delim then (if acc = [] then c_tokens delim s [] else acc # c_tokens delim s [])
      else c_tokens delim s (acc @ [c]))"

definition strtok :: "char set \<Rightarrow> string \<Rightarrow> string list" where
  "strtok delim s = c_tokens delim s []"

fun token_count :: "string \<Rightarrow> bool \<Rightarrow> nat \<Rightarrow> nat" where
  "token_count [] is_spc count = count"
| "token_count (c # s) is_spc count =
     (if c = CHR '' '' then token_count s True count
      else if is_spc then token_count s False (count + 1) else token_count s is_spc count)"

definition cli_cmd_input_token_count :: "string \<Rightarrow> nat" where
  "cli_cmd_input_token_count text = token_count text True 0"

definition c_atoi :: "string \<Rightarrow> int" where
  "c_atoi s = to_int32 (case scan_ld s of Some i \<Rightarrow> i | None \<Rightarrow> 0)"

definition ixsql_quit :: int where "ixsql_quit = 0x12345"

text \<open>\<open>argv\<close> may hold NULL after the first entry.\<close>

definition ixsql_cmd_slice :: "ixsql_control \<Rightarrow> string option list \<Rightarrow> (int \<times> ixsql_control) option" where
  "ixsql_cmd_slice ctl argv =
     (case argv of
        [_] \<Rightarrow> Some (0, put_out (''current slice count = '' @ dec_str (unat (slice_count ctl)) @ ''\<newline>'') ctl)
      | [_, a] \<Rightarrow> do {
          a \<leftarrow> a;
          let n = (word_of_int (fst (strtoull a)) :: u64);
          Some (0, put_out (''slice count is set to '' @ dec_str (unat n) @ ''\<newline>'') (ctl\<lparr>slice_count := n\<rparr>))
        }
      | _ \<Rightarrow> Some (-1, put_out (fmt_s (hd argv) @ '' expects none or a single argument.\<newline>'') ctl))"

fun toggle_clients :: "string list \<Rightarrow> ixsql_control \<Rightarrow> ixsql_control option" where
  "toggle_clients [] ctl = Some ctl"
| "toggle_clients (token # ts) ctl = do { ctl \<leftarrow> set_clients ctl (c_atoi token); toggle_clients ts ctl }"

text \<open>An argument without a client number ends in \<open>atoi (NULL)\<close>.\<close>

definition ixsql_cmd_client :: "string \<Rightarrow> ixsql_control \<Rightarrow> string option list \<Rightarrow> (int \<times> ixsql_control) option" where
  "ixsql_cmd_client volname ctl argv =
     (case argv of
        [_] \<Rightarrow>
          Some (0, put_out (''total '' @ dec_str (num_clients ctl) @ '' clients, sending query to '' @ fmt_d (active_clients ctl) @ '' clients:\<newline>'' @
            concat (map (\<lambda>i. ''['' @ replicate (3 - length (dec_str i)) (CHR '' '') @ dec_str i @ ''] '' @ volname @ ''-client-'' @ dec_str i @
              (if cli_mask ctl ! i \<noteq> 0 then '' [*]'' else '''') @ ''\<newline>'') [0..<num_clients ctl])) ctl)
      | [_, a] \<Rightarrow> do {
          a \<leftarrow> a;
          if a = ''all'' then map_option (Pair 0) (set_clients ctl (-1))
          else if a = ''none'' then map_option (Pair 0) (set_clients ctl (-2))
          else (case strtok {CHR '',''} a of
                  [] \<Rightarrow> None
                | ts \<Rightarrow> map_option (Pair 0) (toggle_clients ts ctl))
        }
      | _ \<Rightarrow> Some (-1, put_out (fmt_s (hd argv) @ '' expects none or a single argument.\<newline>'') ctl))"

definition ixsql_cmd_help :: "ixsql_control \<Rightarrow> int \<times> ixsql_control" where
  "ixsql_cmd_help ctl = (0, put_out (''\<newline>available commands:\<newline>'' @
     concat (map (\<lambda>(k, h). ''  '' @ k @ ''   '' @ [CHR 0x09] @ h @ ''\<newline>'')
       [(''.help'', ''Print the help message.''), (''.quit'', ''Quit the program.''),
        (''.client'', ''Print or set the clients to send queries.''),
        (''.slice'', ''Print or set the query result slice count.'')])) ctl)"

definition process_control_cmd :: "string \<Rightarrow> ixsql_control \<Rightarrow> string option list \<Rightarrow> (int \<times> ixsql_control) option" where
  "process_control_cmd volname ctl argv =
     (case argv of
        Some cmd # _ \<Rightarrow>
          if has_prefix ''.help'' cmd then Some (ixsql_cmd_help ctl)
          else if has_prefix ''.quit'' cmd then Some (ixsql_quit, ctl)
          else if has_prefix ''.client'' cmd then ixsql_cmd_client volname ctl argv
          else if has_prefix ''.slice'' cmd then ixsql_cmd_slice ctl argv
          else Some (0, put_out (cmd @ '' is not a valid command.\<newline>'') ctl)
      | _ \<Rightarrow> None)"

text \<open>The array of tokens has \<open>count + 1\<close> entries, of which the last one has to stay NULL.
  \<open>count\<close> takes only blanks for separators, \<open>strtok_r\<close> also tabs and line ends: there may be
  more tokens than entries, or fewer.\<close>

definition ixsql_control_cmd :: "string \<Rightarrow> ixsql_control \<Rightarrow> string \<Rightarrow> (int \<times> ixsql_control) option" where
  "ixsql_control_cmd volname ctl text =
     (let count = cli_cmd_input_token_count text;
          tokens = strtok {CHR '' '', CHR 0x09, CHR 0x0D, CHR 0x0A} text
      in if count < length tokens then None
         else process_control_cmd volname ctl (map Some tokens @ replicate (count - length tokens) None))"


subsection \<open>Sessions\<close>

fun batch_loop ::
  "fp_lib \<Rightarrow> 'w glfs_ipc \<Rightarrow> string list \<Rightarrow> u64 \<Rightarrow> ixsql_state \<Rightarrow> 'w \<Rightarrow> (u64 \<times> ixsql_state \<times> 'w) option" where
  "batch_loop fp ipc [] count ix w = Some (count, ix\<lparr>ix_ctl := put_out ''\<newline>'' (ix_ctl ix)\<rparr>, w)"
| "batch_loop fp ipc (line # ls) count ix w =
     (if line = [] \<or> hd line = CHR ''#'' \<or> c_isspace (hd line) then batch_loop fp ipc ls count ix w
      else do {
        (ret, ix, w) \<leftarrow> process_sql fp ipc line ix w;
        if ret \<noteq> 0 then Some (count, ix, w)
        else
          let n = count + 1;
              s = dec_str (unat n);
              msg = ''processed: '' @ replicate (10 - length s) (CHR '' '') @ s @ [CHR 0x0D]
          in batch_loop fp ipc ls n (ix\<lparr>ix_ctl := put_out msg (ix_ctl ix)\<rparr>) w
      })"

text \<open>\<open>file\<close> is the text of the batch file, if it can be opened.\<close>

definition process_batch ::
  "fp_lib \<Rightarrow> 'w glfs_ipc \<Rightarrow> string option \<Rightarrow> ixsql_state \<Rightarrow> 'w \<Rightarrow> (u64 \<times> ixsql_state \<times> 'w) option" where
  "process_batch fp ipc file ix w = (case file of
     None \<Rightarrow> Some (-1, ix, w)
   | Some text \<Rightarrow> batch_loop fp ipc (map c_trunc (fgets_lines 4094 text)) 0 ix w)"

definition process_virtual_view ::
  "'w glfs_ipc \<Rightarrow> string \<Rightarrow> string option \<Rightarrow> ixsql_state \<Rightarrow> 'w \<Rightarrow> (int \<times> ixsql_state \<times> 'w) option" where
  "process_virtual_view ipc sql name ix w =
     (if to_lower (take 16 sql) \<noteq> ''select path from'' then Some (-1, ix, w)
      else do {
        (ret, w) \<leftarrow> ixsql_create_virtual_view ipc (Some sql) name w;
        Some (ret, if ret \<noteq> 0 then ix\<lparr>ix_ctl := put_out (''Failed to created a view ('' @ fmt_d ret @ '')\<newline>'') (ix_ctl ix)\<rparr> else ix, w)
      })"

text \<open>The interactive loop over the lines \<open>readline\<close> returns, each with the seconds and
  microseconds the query took.\<close>

fun ixsql_shell ::
  "fp_lib \<Rightarrow> 'w glfs_ipc \<Rightarrow> string \<Rightarrow> (string \<times> nat \<times> nat) list \<Rightarrow> ixsql_state \<Rightarrow> 'w \<Rightarrow> (ixsql_state \<times> 'w) option" where
  "ixsql_shell fp ipc volname [] ix w = Some (ix, w)"
| "ixsql_shell fp ipc volname ((line, sec, usec) # ls) ix w =
     (if line \<noteq> [] \<and> hd line = CHR ''.'' then do {
        (ret, ctl) \<leftarrow> ixsql_control_cmd volname (ix_ctl ix) line;
        if ret = ixsql_quit then Some (ix\<lparr>ix_ctl := ctl\<rparr>, w)
        else ixsql_shell fp ipc volname ls (ix\<lparr>ix_ctl := ctl\<rparr>) w
      }
      else do {
        (ret, ix, w) \<leftarrow> process_sql fp ipc line ix w;
        let u = dec_str usec;
        let ix = ix\<lparr>ix_ctl := put_out (''## elapsed: '' @ dec_str sec @ ''.'' @ replicate (6 - length u) (CHR ''0'') @ u @ '' sec\<newline>'') (ix_ctl ix)\<rparr>;
        if ret = ixsql_quit then Some (ix, w) else ixsql_shell fp ipc volname ls ix w
      })"


subsection \<open>Invariant of the client mask\<close>

definition mask_inv :: "ixsql_control \<Rightarrow> bool" where
  "mask_inv ctl \<longleftrightarrow> length (cli_mask ctl) = num_clients ctl \<and> active_clients ctl = count_active (cli_mask ctl)"

lemma mask_inv_out [simp]: "mask_inv (put_out s ctl) = mask_inv ctl"
  by (simp add: mask_inv_def put_out_def)

lemma mask_inv_set: "set_clients ctl cli = Some ctl' \<Longrightarrow> mask_inv ctl \<Longrightarrow> mask_inv ctl' \<and> num_clients ctl' = num_clients ctl"
  by (auto simp: set_clients_def mask_inv_def count_active_def Let_def split: if_splits)

lemma mask_inv_toggle: "toggle_clients ts ctl = Some ctl' \<Longrightarrow> mask_inv ctl \<Longrightarrow> mask_inv ctl' \<and> num_clients ctl' = num_clients ctl"
proof (induction ts arbitrary: ctl)
  case (Cons t ts)
  then obtain c where "set_clients ctl (c_atoi t) = Some c" "toggle_clients ts c = Some ctl'" by (auto split: bind_splits)
  then show ?case using Cons mask_inv_set by fastforce
qed simp

lemma mask_inv_cmd:
  assumes "ixsql_control_cmd volname ctl text = Some (ret, ctl')" "mask_inv ctl"
  shows "mask_inv ctl' \<and> num_clients ctl' = num_clients ctl"
proof -
  have "mask_inv ctl' \<and> num_clients ctl' = num_clients ctl"
    if "ixsql_cmd_client volname ctl argv = Some (ret, ctl')" for argv
  proof -
    from that consider "\<exists>s. ctl' = put_out s ctl" | cli where "set_clients ctl cli = Some ctl'" | ts where "toggle_clients ts ctl = Some ctl'"
      by (auto simp: ixsql_cmd_client_def simp del: toggle_clients.simps split: list.splits if_splits bind_splits)
    then show ?thesis using assms(2) mask_inv_set mask_inv_toggle by cases (auto simp: put_out_def mask_inv_def)
  qed
  moreover have "mask_inv ctl' \<and> num_clients ctl' = num_clients ctl" if "ixsql_cmd_slice ctl argv = Some (ret, ctl')" for argv
    using that assms(2) by (auto simp: ixsql_cmd_slice_def put_out_def mask_inv_def Let_def split: list.splits bind_splits)
  ultimately show ?thesis using assms
    by (auto simp: ixsql_control_cmd_def process_control_cmd_def ixsql_cmd_help_def put_out_def mask_inv_def Let_def
        split: list.splits if_splits option.splits)
qed

text \<open>C38. Whatever commands are entered, the number of active clients the shell keeps is the number of clients
  its mask selects, and the mask keeps one entry per client.\<close>

theorem client_mask_invariant:
  assumes "fold (\<lambda>text c. Option.bind c (\<lambda>c. map_option snd (ixsql_control_cmd volname c text))) texts (Some (init_control n)) = Some ctl"
  shows "num_clients ctl = n \<and> length (cli_mask ctl) = n \<and>
    active_clients ctl = int (card {i. i < n \<and> cli_mask ctl ! i \<noteq> 0})"
proof -
  let ?f = "\<lambda>text c. Option.bind c (\<lambda>c. map_option snd (ixsql_control_cmd volname c text))"
  have none: "fold ?f texts None = None" for texts by (induction texts) auto
  have "mask_inv ctl \<and> num_clients ctl = num_clients c" if "fold ?f texts (Some c) = Some ctl" "mask_inv c" for c texts
    using that
  proof (induction texts arbitrary: c)
    case (Cons t ts)
    then obtain ret c' where "ixsql_control_cmd volname c t = Some (ret, c')"
      using none by (cases "ixsql_control_cmd volname c t") auto
    then show ?case using Cons mask_inv_cmd by fastforce
  qed simp
  moreover have "mask_inv (init_control n)" by (simp add: mask_inv_def init_control_def count_active_def)
  ultimately have "mask_inv ctl" "num_clients ctl = n" using assms by (auto simp: init_control_def)
  then show ?thesis by (simp add: mask_inv_def count_active_def length_filter_conv_card)
qed

theorem client_mask_invariant_witness:
  "\<exists>ctl. fold (\<lambda>text c. Option.bind c (\<lambda>c. map_option snd (ixsql_control_cmd ''vol'' c text))) [''.client none'', ''.client 1,2''] (Some (init_control 4)) = Some ctl \<and>
    active_clients ctl = int (card {i. i < 4 \<and> cli_mask ctl ! i \<noteq> 0})"
proof -
  let ?r = "fold (\<lambda>text c. Option.bind c (\<lambda>c. map_option snd (ixsql_control_cmd ''vol'' c text))) [''.client none'', ''.client 1,2''] (Some (init_control 4))"
  have "\<not> Option.is_none ?r" by code_simp
  then obtain ctl where "?r = Some ctl" by (auto simp: Option.is_none_def)
  then show ?thesis using client_mask_invariant [of "''vol''" "[''.client none'', ''.client 1,2'']" 4 ctl] by blast
qed

end
