(* ===== verification/Ipc_Correct.thy ===== *)
theory Ipc_Correct
  imports Ixsql
begin

unbundle bit_operations_syntax

text \<open>
  What a server answers to a query: the page of the result the client asked for, with the number of rows
  in it and whether there are more, whether the result is new or was kept for the session.
\<close>

subsection \<open>Dictionaries as maps\<close>

text \<open>Reading and writing a dictionary without duplicate keys, in terms of its map.\<close>

lemma dict_set_via_put: "dict_set_via (Some v) (Some d) k = (0, Some (u_dict_set d k v True))"
  by (simp add: dict_set_via_def dict_set_def)

lemmas dict_put = dict_set_via_put dict_set_uint64_def dict_set_int32_def dict_set_double_def dict_set_dynstr_def
  dict_set_str_def data_from_dynstr_def str_to_data_def

lemmas dict_upd = dict_functional_set dict_map_set dict_functional_ok

lemma get_uint64:
  "dict_functional d \<Longrightarrow> dict_map d k = Some (data_from_uint64 v) \<Longrightarrow> uint_range 64 v \<Longrightarrow> dict_get_uint64 (Some d) (Some k) = (0, Some v)"
  by (rule dict_get_uint64_text) (simp_all add: dict_functional_ok)

lemma get_int32:
  "dict_functional d \<Longrightarrow> dict_map d k = Some (data_from_int32 v) \<Longrightarrow> int_range 32 v \<Longrightarrow> dict_get_int32 (Some d) (Some k) = (0, Some v)"
  using int32_codec.dec_enc [of v] by (simp add: dict_get_int32_def dict_get_via_def dict_get_with_ref_map dict_functional_ok)

text \<open>A number reads the same whichever function wrote it.\<close>

lemma data_from_uint64_int32: "data_from_uint64 v = data_from_int32 v"
  by (simp add: data_from_uint64_def data_from_int32_def)

lemma get_str:
  "dict_functional d \<Longrightarrow> dict_map d k = Some (text_data s) \<Longrightarrow> no_nul s \<Longrightarrow> dict_get_str (Some d) (Some k) = (0, Some s)"
  by (rule dict_get_str_text) (simp_all add: dict_functional_ok)

lemma get_static_str:
  "dict_functional d \<Longrightarrow> dict_map d k = Some ((text_data s)\<lparr>is_static := True\<rparr>) \<Longrightarrow> no_nul s \<Longrightarrow>
   dict_get_str (Some d) (Some k) = (0, Some s)"
  using str_at_cstr [of s "[]"] by (simp add: dict_get_str_def dict_get_with_ref_map text_data_def dict_functional_ok)

lemma get_str_missing: "dict_functional d \<Longrightarrow> dict_map d k = None \<Longrightarrow> dict_get_str (Some d) (Some k) = (- ENOENT, None)"
  by (simp add: dict_get_str_def dict_get_with_ref_map dict_functional_ok)

text \<open>What is relied on of the C library: \<open>strtod\<close> accepts what \<open>%f\<close> prints.\<close>

definition fp_ok :: "fp_lib \<Rightarrow> bool" where
  "fp_ok fp \<longleftrightarrow> (\<forall>v. no_nul (fmt_f fp v) \<and> fst (c_strtod fp (fmt_f fp v)) = 0)"

lemma get_double:
  assumes "dict_functional d" "dict_map d k = Some (data_from_double fp v)" "fp_ok fp"
  obtains w where "dict_get_double fp (Some d) (Some k) = (0, Some w)"
proof -
  have f: "no_nul (fmt_f fp v)" "fst (c_strtod fp (fmt_f fp v)) = 0" using assms(3) by (auto simp: fp_ok_def)
  then have "dict_get_double fp (Some d) (Some k) = (0, Some (snd (c_strtod fp (fmt_f fp v))))"
    using assms(1,2) by (simp add: dict_get_double_def dict_get_via_def dict_get_with_ref_map dict_functional_ok
        u_data_to_double_def data_from_double_def case_prod_beta)
  then show ?thesis by (rule that)
qed

lemma dec_str_no_colon: "CHR '':'' \<notin> set (dec_str n)"
  using dec_str_digits [of n] by (auto simp: list_all_iff digit_val_def split: if_splits)

lemma dec_str_words: "dec_str n \<noteq> ''comeback''" "dec_str n \<noteq> ''dbtime''" "dec_str n \<noteq> ''from''" "dec_str n \<noteq> ''runtime''" "dec_str n \<noteq> []"
  using dec_str_hd [of n] by (auto simp: digit_char_def dest!: arg_cong [of _ _ "of_char :: char \<Rightarrow> nat"])

lemmas dec_str_neq = dec_str_words dec_str_not_word dec_str_words [symmetric] dec_str_not_word [symmetric] dec_str_inj

subsection \<open>Pages\<close>

text \<open>The dictionary of a query result.\<close>

definition result_dict :: "fp_lib \<Rightarrow> dict_t \<Rightarrow> string list \<Rightarrow> bool" where
  "result_dict fp q rows \<longleftrightarrow> dict_functional q \<and>
     (\<forall>k < length rows. dict_map q (dec_str k) = Some (text_data (rows ! k))) \<and>
     (\<forall>k \<ge> length rows. dict_map q (dec_str k) = None) \<and>
     dict_map q ''count'' = Some (data_from_uint64 (int (length rows))) \<and>
     (\<exists>v. dict_map q ''dbtime'' = Some (data_from_double fp v)) \<and>
     (\<forall>r \<in> set rows. no_nul r)"

definition page :: "nat \<Rightarrow> nat \<Rightarrow> 'a list \<Rightarrow> 'a list" where
  "page offset count rows = take count (drop offset rows)"

lemma page_past: "length rows \<le> off \<Longrightarrow> page off cnt rows = []"
  by (simp add: page_def)

lemma page_Cons: "off < length rows \<Longrightarrow> 0 < cnt \<Longrightarrow> page off cnt rows = rows ! off # page (Suc off) (cnt - 1) rows"
  by (cases cnt) (simp_all add: page_def Cons_nth_drop_Suc [symmetric])

lemma sprintf_llu_fits: "n < 2 ^ 63 \<Longrightarrow> sprintf_llu 20 n = Some (dec_str n)"
  using dec_str_length [of 19 n] by (simp add: sprintf_llu_def)

text \<open>The rows from \<open>off\<close> on have not been given away yet.\<close>

definition rows_left :: "nat \<Rightarrow> 'a list \<Rightarrow> string list \<Rightarrow> bool" where
  "rows_left off rows gone \<longleftrightarrow> (\<forall>k. off \<le> k \<longrightarrow> k < length rows \<longrightarrow> dec_str k \<notin> set gone)"

lemma rows_left_mono: "rows_left off rows gone \<Longrightarrow> off \<le> off' \<Longrightarrow> rows_left off' rows gone"
  by (simp add: rows_left_def)

lemma rows_left_next: "rows_left off rows gone \<Longrightarrow> rows_left (Suc off) rows (dec_str off # gone)"
  by (auto simp: rows_left_def dec_str_inj)

lemma fetch_rows_page:
  assumes "result_dict fp q rows" "dict_functional x" "off + cnt < 2 ^ 63" "i \<le> cnt" "rows_left (off + i) rows gone"
  shows "\<exists>ret key x' gone'. fetch_rows gone (Some q) (word_of_nat off) (word_of_nat cnt) (word_of_nat i) 0 key0 (Some x) =
      Some (False, ret, word_of_nat (i + length (page (off + i) (cnt - i) rows)), key, Some x', gone') \<and>
    dict_functional x' \<and> rows_left (off + cnt) rows gone' \<and>
    (\<forall>k < length (page (off + i) (cnt - i) rows). dict_map x' (dec_str (i + k)) = Some (text_data (page (off + i) (cnt - i) rows ! k))) \<and>
    (\<forall>j. (\<forall>k < length (page (off + i) (cnt - i) rows). j \<noteq> dec_str (i + k)) \<longrightarrow> dict_map x' j = dict_map x j) \<and>
    (key = key0 \<or> (\<exists>n. key = dec_str n))"
  using assms(2,4,5)
proof (induction "cnt - i" arbitrary: i key0 x gone)
  case 0
  then have "i = cnt" by simp
  then show ?case using 0 by (subst fetch_rows.simps) (simp add: page_def)
next
  case (Suc m)
  let ?o = "word_of_nat off :: u64" and ?c = "word_of_nat cnt :: u64" and ?i = "word_of_nat i :: u64"
  have le: "i < cnt" "off + i < 2 ^ 64" "off + i < 2 ^ 63" "i < 2 ^ 63" using Suc.hyps(2) assms(3) by simp_all
  note fits = le(3,4) [THEN sprintf_llu_fits]
  from le have w: "?i < ?c" "unat (?o + ?i) = off + i" "unat ?i = i" "?i + 1 = word_of_nat (Suc i)"
    using assms(3) unat_of_nat_id [where 'a = 64, of "off + i"] unat_of_nat_id [where 'a = 64, of i]
    by (simp_all add: word_less_nat_alt unat_of_nat_id)
  show ?case
  proof (cases "off + i < length rows")
    case False
    then have "dict_map q (dec_str (off + i)) = None" "dict_functional q" using assms(1) by (simp_all add: result_dict_def)
    then have "fetch_rows gone (Some q) ?o ?c ?i 0 key0 (Some x) = Some (False, - ENOENT, ?i, dec_str (off + i), Some x, gone)"
      using w by (subst fetch_rows.simps) (simp add: get_str_missing fits)
    moreover have "rows_left (off + cnt) rows gone" using rows_left_mono [OF Suc.prems(3)] le(1) by simp
    ultimately show ?thesis using Suc.prems False by (auto simp: page_past)
  next
    case True
    let ?r = "rows ! (off + i)" and ?x = "u_dict_set x (dec_str i) (text_data (rows ! (off + i))) True"
    have "dict_get_str (Some q) (Some (dec_str (off + i))) = (0, Some ?r)"
      using assms(1) True by (intro get_str) (simp_all add: result_dict_def)
    moreover have "dec_str (off + i) \<notin> set gone" using Suc.prems(3) True by (simp add: rows_left_def)
    ultimately have step: "fetch_rows gone (Some q) ?o ?c ?i 0 key0 (Some x) =
        fetch_rows (dec_str (off + i) # gone) (Some q) ?o ?c (word_of_nat (Suc i)) 0 (dec_str i) (Some ?x)"
      using w fits by (subst fetch_rows.simps) (simp add: dict_put add.commute)
    have p: "page (off + i) (cnt - i) rows = ?r # page (off + Suc i) (cnt - Suc i) rows"
      using True le by (simp add: page_Cons)
    have "m = cnt - Suc i" "dict_functional ?x" "Suc i \<le> cnt" "rows_left (off + Suc i) rows (dec_str (off + i) # gone)"
      using Suc.hyps(2) Suc.prems le rows_left_next [OF Suc.prems(3)] by (simp_all add: dict_upd)
    from Suc.hyps(1) [OF this, of "dec_str i"] obtain ret key x' gone' where
      run: "fetch_rows (dec_str (off + i) # gone) (Some q) ?o ?c (word_of_nat (Suc i)) 0 (dec_str i) (Some ?x) =
        Some (False, ret, word_of_nat (Suc i + length (page (off + Suc i) (cnt - Suc i) rows)), key, Some x', gone')"
        "dict_functional x'" "rows_left (off + cnt) rows gone'"
      and rows: "\<forall>k < length (page (off + Suc i) (cnt - Suc i) rows).
        dict_map x' (dec_str (Suc i + k)) = Some (text_data (page (off + Suc i) (cnt - Suc i) rows ! k))"
      and keep: "\<forall>j. (\<forall>k < length (page (off + Suc i) (cnt - Suc i) rows). j \<noteq> dec_str (Suc i + k)) \<longrightarrow> dict_map x' j = dict_map ?x j"
      and key: "key = dec_str i \<or> (\<exists>n. key = dec_str n)" by blast
    have m: "dict_map ?x = (dict_map x)(dec_str i \<mapsto> text_data ?r)" using Suc.prems by (simp add: dict_upd)
    have "dict_map x' (dec_str (i + k)) = Some (text_data ((?r # page (off + Suc i) (cnt - Suc i) rows) ! k))"
      if "k < Suc (length (page (off + Suc i) (cnt - Suc i) rows))" for k
      using that rows keep [rule_format, of "dec_str i"] m by (cases k) (simp_all add: dec_str_inj)
    moreover have "dict_map x' j = dict_map x j"
      if "\<forall>k < Suc (length (page (off + Suc i) (cnt - Suc i) rows)). j \<noteq> dec_str (i + k)" for j
    proof -
      have "j \<noteq> dec_str i" using that [rule_format, of 0] by simp
      moreover have "\<forall>k < length (page (off + Suc i) (cnt - Suc i) rows). j \<noteq> dec_str (Suc i + k)"
        using that by (metis Suc_less_eq add_Suc_shift)
      ultimately show ?thesis using keep m by simp
    qed
    ultimately show ?thesis using run key unfolding step p by auto
  qed
qed

text \<open>Whether the client has to come back for more.\<close>

definition comeback_for :: "nat \<Rightarrow> nat \<Rightarrow> 'a list \<Rightarrow> int" where
  "comeback_for off cnt rows = (if length rows \<le> off + cnt then 0 else 1)"

text \<open>The reply of a server to a query.\<close>

definition static_text :: "string \<Rightarrow> data_t" where
  "static_text s = (text_data s)\<lparr>is_static := True\<rparr>"

definition page_dict :: "fp_lib \<Rightarrow> dict_t \<Rightarrow> string \<Rightarrow> string list \<Rightarrow> int \<Rightarrow> bool" where
  "page_dict fp x from rows cb \<longleftrightarrow> dict_functional x \<and>
     (\<forall>k < length rows. dict_map x (dec_str k) = Some (text_data (rows ! k))) \<and>
     dict_map x ''count'' = Some (data_from_uint64 (int (length rows))) \<and>
     dict_map x ''ret'' = Some (data_from_int32 0) \<and>
     dict_map x ''comeback'' = Some (data_from_int32 cb) \<and>
     dict_map x ''from'' = Some (static_text from)"

lemma process_page:
  assumes "result_dict fp q rows" "dict_functional x" "dict_functional qrs" "fp_ok fp" "off + cnt < 2 ^ 63" "length rows < 2 ^ 63"
    and "dict_map x ''from'' = Some (static_text from)" "rows_left off rows gone"
  obtains qrs' x' gone' where
    "ims_ipc_process_query_result fp qrs (Some q) gone (Some x) (word_of_nat off) (word_of_nat cnt) = Some (0, qrs', Some x', gone')"
    and "rows_left (off + cnt) rows gone'"
    and "dict_functional qrs'" "\<And>s. s \<noteq> [] \<Longrightarrow> (\<forall>n. s \<noteq> dec_str n) \<Longrightarrow> dict_map qrs' s = dict_map qrs s"
    and "page_dict fp x' from (page off cnt rows) (comeback_for off cnt rows)"
proof -
  let ?p = "page off cnt rows" and ?o = "word_of_nat off :: u64"
  have q: "dict_functional q" "dict_map q ''count'' = Some (data_from_uint64 (int (length rows)))"
    using assms(1) by (auto simp: result_dict_def)
  obtain v where "dict_map q ''dbtime'' = Some (data_from_double fp v)" using assms(1) by (auto simp: result_dict_def)
  from get_double [OF q(1) this assms(4)] obtain w where dbt: "dict_get_double fp (Some q) (Some ''dbtime'') = (0, Some w)" .
  have cnt: "dict_get_uint64 (Some q) (Some ''count'') = (0, Some (int (length rows)))"
    using assms(6) by (intro get_uint64 [OF q]) (simp add: uint_range_def)
  define x1 where "x1 = (if ?o = 0 then u_dict_set x ''dbtime'' (data_from_double fp w) True else x)"
  have x1: "dict_functional x1" "dict_map x1 ''from'' = Some (static_text from)"
    using assms(2,7) by (auto simp: x1_def dict_upd)
  have start: "(if ?o = 0 then case dict_get_double fp (Some q) (Some ''dbtime'') of (ret, dbtime) \<Rightarrow>
      if ret \<noteq> 0 then (ret, Some x) else dict_set_double fp (Some x) ''dbtime'' (the dbtime) else (0, Some x)) = (0, Some x1)"
    by (simp add: dbt x1_def dict_put)
  have "0 \<le> cnt" "rows_left (off + 0) rows gone" using assms(8) by simp_all
  from fetch_rows_page [OF assms(1) x1(1) assms(5) this, of "[]"] obtain ret key x2 gone' where
    run: "fetch_rows gone (Some q) ?o (word_of_nat cnt) 0 0 [] (Some x1) = Some (False, ret, word_of_nat (length ?p), key, Some x2, gone')"
      "rows_left (off + cnt) rows gone'"
    and x2: "dict_functional x2" "\<forall>k < length ?p. dict_map x2 (dec_str k) = Some (text_data (?p ! k))"
    and keep: "\<forall>j. (\<forall>k < length ?p. j \<noteq> dec_str k) \<longrightarrow> dict_map x2 j = dict_map x1 j"
    and key: "key = [] \<or> (\<exists>n. key = dec_str n)" by (auto simp: dec_str_inj)
  have len: "length ?p \<le> cnt" "length rows \<le> off + length ?p \<longleftrightarrow> length rows \<le> off + cnt" by (auto simp: page_def)
  then have n: "uint (word_of_nat (length ?p) :: u64) = int (length ?p)"
    using assms(5) by (simp add: unsigned_of_nat take_bit_nat_eq_self)
  have "off + length ?p < 2 ^ LENGTH(64)" "length rows < 2 ^ LENGTH(64)" using len(1) assms(5,6) by simp_all
  note w = this [THEN unat_of_nat_id]
  have fin: "word_of_nat (length rows) \<le> ?o + word_of_nat (length ?p) \<longleftrightarrow> length rows \<le> off + cnt"
    using len(2) unfolding word_le_nat_alt of_nat_add [symmetric] w by simp
  define qrs' where "qrs' = (if length rows \<le> off + cnt then u_dict_del qrs key else qrs)"
  define x3 where "x3 = u_dict_set (u_dict_set (u_dict_set x2 ''count'' (data_from_uint64 (int (length ?p))) True)
    ''ret'' (data_from_int32 0) True) ''comeback'' (data_from_int32 (comeback_for off cnt rows)) True"
  have "ims_ipc_process_query_result fp qrs (Some q) gone (Some x) ?o (word_of_nat cnt) = Some (0, qrs', Some x3, gone')"
    unfolding ims_ipc_process_query_result_def cnt prod.case start
    by (simp add: run fin dict_put dict_del_def Let_def qrs'_def x3_def comeback_for_def n)
  moreover have "dict_functional qrs'" "\<And>s. s \<noteq> [] \<Longrightarrow> (\<forall>n. s \<noteq> dec_str n) \<Longrightarrow> dict_map qrs' s = dict_map qrs s"
    using assms(3) key by (auto simp: qrs'_def dict_functional_del dict_map_del)
  moreover have "dict_functional x3" using x2(1) by (simp add: x3_def dict_upd)
  moreover have m: "dict_map x3 = (dict_map x2)(''count'' \<mapsto> data_from_uint64 (int (length ?p)), ''ret'' \<mapsto> data_from_int32 0,
      ''comeback'' \<mapsto> data_from_int32 (comeback_for off cnt rows))"
    using x2(1) by (simp add: x3_def dict_upd)
  moreover have "dict_map x2 ''from'' = Some (static_text from)" using keep x1(2) by (simp add: dec_str_neq)
  ultimately show ?thesis using that run(2) x2(2) by (auto simp: page_dict_def dec_str_neq)
qed

subsection \<open>Queries\<close>

text \<open>The command of a query, and a server that holds the result for a session, with the rows from
  \<open>off\<close> on still in it.\<close>

definition cmd_dict :: "dict_t \<Rightarrow> string \<Rightarrow> string \<Rightarrow> nat \<Rightarrow> nat \<Rightarrow> bool" where
  "cmd_dict cmd session sql off cnt \<longleftrightarrow> dict_functional cmd \<and> no_nul session \<and> no_nul sql \<and>
     dict_map cmd ''type'' = Some (static_text ''query'') \<and> dict_map cmd ''session'' = Some (static_text session) \<and>
     dict_map cmd ''sql'' = Some (static_text sql) \<and> dict_map cmd ''offset'' = Some (data_from_uint64 (int off)) \<and>
     dict_map cmd ''count'' = Some (data_from_uint64 (int cnt))"

abbreviation st_xdb :: "'c ipc_state \<Rightarrow> 'c ims_xdb" where "st_xdb st \<equiv> pv_xdb (ip_priv st)"

definition holds_result :: "fp_lib \<Rightarrow> string \<Rightarrow> string list \<Rightarrow> nat \<Rightarrow> 'c ipc_state \<Rightarrow> bool" where
  "holds_result fp session rows off st \<longleftrightarrow> dict_functional (qrset (st_xdb st)) \<and>
     (\<exists>r q. ims_xdb_get_result (Some (st_xdb st)) (Some session) = Some r \<and> ip_dicts st r = Some q \<and> result_dict fp q rows \<and>
        rows_left off rows (ip_freed st r))"

lemma holds_result_mono: "holds_result fp session rows off st \<Longrightarrow> off \<le> off' \<Longrightarrow> holds_result fp session rows off' st"
  unfolding holds_result_def using rows_left_mono by blast

definition session_ok :: "string \<Rightarrow> bool" where
  "session_ok s \<longleftrightarrow> s \<noteq> [] \<and> (\<forall>n. s \<noteq> dec_str n)"

lemma get_result_map:
  "dict_functional (qrset x) \<Longrightarrow> ims_xdb_get_result (Some x) (Some k) =
     (case dict_map (qrset x) k of None \<Rightarrow> None | Some v \<Rightarrow> map_option ptr_addr (data_data v))"
  by (simp add: ims_xdb_get_result_def dict_get_ptr_def dict_get_via_def dict_get_with_ref_map dict_functional_ok
      u_data_to_ptr_def split: option.split)

lemma cmd_get:
  assumes "cmd_dict cmd session sql off cnt" "off < 2 ^ 64" "cnt < 2 ^ 64"
  shows "dict_get_str (Some cmd) (Some ''session'') = (0, Some session)" "dict_get_str (Some cmd) (Some ''sql'') = (0, Some sql)"
    "dict_get_str (Some cmd) (Some ''type'') = (0, Some ''query'')"
    "dict_get_uint64 (Some cmd) (Some ''offset'') = (0, Some (int off))"
    "dict_get_uint64 (Some cmd) (Some ''count'') = (0, Some (int cnt))"
  using assms
  by (auto simp: cmd_dict_def static_text_def no_nul_def uint_range_def intro!: get_static_str get_uint64)

text \<open>The state after the result was found or made.\<close>

lemma query_page:
  assumes "holds_result fp session rows off st" "session_ok session" "fp_ok fp" "off + cnt < 2 ^ 63" "length rows < 2 ^ 63"
    and "dict_functional out" "dict_map out ''from'' = Some (static_text from)"
    and "ims_xdb_get_result (Some (st_xdb st)) (Some session) = Some r"
  obtains qrs x' gone where
    "ims_ipc_process_query_result fp (qrset (st_xdb st)) (ip_dicts st r) (ip_freed st r) (Some out) (word_of_nat off) (word_of_nat cnt) =
      Some (0, qrs, Some x', gone)"
    and "page_dict fp x' from (page off cnt rows) (comeback_for off cnt rows)"
    and "holds_result fp session rows (off + cnt) ((set_xdb ((st_xdb st)\<lparr>qrset := qrs\<rparr>) st)\<lparr>ip_freed := (ip_freed st)(r := gone)\<rparr>)"
proof -
  obtain q where q: "dict_functional (qrset (st_xdb st))" "ip_dicts st r = Some q" "result_dict fp q rows" "rows_left off rows (ip_freed st r)"
    using assms(1,8) by (auto simp: holds_result_def)
  obtain qrs x' gone where
    p: "ims_ipc_process_query_result fp (qrset (st_xdb st)) (Some q) (ip_freed st r) (Some out) (word_of_nat off) (word_of_nat cnt) =
      Some (0, qrs, Some x', gone)" "rows_left (off + cnt) rows gone"
    and qrs: "dict_functional qrs" "\<And>s. s \<noteq> [] \<Longrightarrow> (\<forall>n. s \<noteq> dec_str n) \<Longrightarrow> dict_map qrs s = dict_map (qrset (st_xdb st)) s"
    and x': "page_dict fp x' from (page off cnt rows) (comeback_for off cnt rows)"
    using process_page [OF q(3) assms(6) q(1) assms(3-5,7) q(4)] by metis
  have "dict_map qrs session = dict_map (qrset (st_xdb st)) session" using qrs(2) assms(2) by (simp add: session_ok_def)
  then have "holds_result fp session rows (off + cnt) ((set_xdb ((st_xdb st)\<lparr>qrset := qrs\<rparr>) st)\<lparr>ip_freed := (ip_freed st)(r := gone)\<rparr>)"
    using q qrs(1) assms(8) p(2) by (simp add: holds_result_def set_xdb_def get_result_map)
  then show ?thesis using that p x' q(2) by simp
qed

text \<open>A server answers from row \<open>off\<close> on: it holds the result with these rows still in it, or its
  engine gives the rows now.\<close>

definition can_answer :: "fp_lib \<Rightarrow> 'c sqlite3 \<Rightarrow> string \<Rightarrow> string \<Rightarrow> string list \<Rightarrow> nat \<Rightarrow> 'c ipc_state \<Rightarrow> bool" where
  "can_answer fp E session sql rows off st \<longleftrightarrow> holds_result fp session rows off st \<or>
     (dict_functional (qrset (st_xdb st)) \<and> dict_map (qrset (st_xdb st)) session = None \<and>
      (\<exists>rs c. sq_exec E (conn (st_xdb st)) sql = (rs, SQLITE_OK, c) \<and> rows = map row_text rs \<and> length rs \<le> 10 ^ 9 \<and>
         (\<forall>r \<in> set rs. length (row_text r) \<le> 1022 \<and> no_nul (row_text r))))"

lemma can_answer_mono: "can_answer fp E session sql rows off st \<Longrightarrow> off \<le> off' \<Longrightarrow> can_answer fp E session sql rows off' st"
  unfolding can_answer_def using holds_result_mono by blast

lemma new_query:
  assumes "cmd_dict cmd session sql off cnt" "off < 2 ^ 64" "cnt < 2 ^ 64" "r < 2 ^ 64"
    and "dict_functional (qrset (st_xdb st))" "sq_exec E (conn (st_xdb st)) sql = (rs, SQLITE_OK, c)" "length rs \<le> 10 ^ 9"
    and "\<forall>r \<in> set rs. length (row_text r) \<le> 1022 \<and> no_nul (row_text r)" "ip_dicts st r = Some dict_new" "ip_freed st r = []"
  obtains st' where "ims_ipc_new_query fp E env (Some cmd) r st = Some (0, 0, st')"
    "holds_result fp session (map row_text rs) off st'" "ims_xdb_get_result (Some (st_xdb st')) (Some session) = Some r"
    "pv_db_path (ip_priv st') = pv_db_path (ip_priv st)"
proof -
  let ?x = "(st_xdb st)\<lparr>conn := c, db_ret := SQLITE_OK\<rparr>"
  have "\<forall>r \<in> set rs. length (row_text r) \<le> 1022" using assms(8) by blast
  then obtain d' where dq: "ims_xdb_direct_query E (Some (st_xdb st)) (Some sql) (Some dict_new) = Some (0, ?x, Some d')"
    and d': "dict_functional d'" "\<forall>k < length rs. dict_map d' (dec_str k) = Some (text_data (row_text (rs ! k)))"
      "dict_map d' ''count'' = Some (data_from_uint64 (int (length rs)))"
      "\<forall>j. j \<noteq> ''count'' \<longrightarrow> j \<noteq> ''ret'' \<longrightarrow> (\<forall>k < length rs. j \<noteq> dec_str k) \<longrightarrow> dict_map d' j = dict_map dict_new j"
    by (rule direct_query_map [OF assms(6) dict_functional_new assms(7)])
  define q where "q = u_dict_set d' ''dbtime'' (data_from_double fp (ie_dbtime env)) True"
  have "dict_map q = (dict_map d')(''dbtime'' \<mapsto> data_from_double fp (ie_dbtime env))" "dict_functional q"
    using d'(1) by (simp_all add: q_def dict_upd)
  then have q: "result_dict fp q (map row_text rs)"
    using d' assms(8) by (auto simp: result_dict_def dec_str_neq)
  let ?v = "get_new_data\<lparr>is_static := True, data_data := Some (ptr_data r)\<rparr>"
  define qr where "qr = u_dict_set (qrset (st_xdb st)) session ?v True"
  have qr: "dict_functional qr" "dict_map qr session = Some ?v" using assms(5) by (simp_all add: qr_def dict_upd)
  define st' where "st' = set_xdb (?x\<lparr>qrset := qr\<rparr>) (st\<lparr>ip_dicts := (ip_dicts st)(r \<mapsto> q)\<rparr>)"
  have "ims_ipc_new_query fp E env (Some cmd) r st = Some (0, 0, st')"
    using cmd_get [OF assms(1-3)] dq
    by (simp add: ims_ipc_new_query_def assms(9) dict_put set_xdb_def ims_xdb_register_result_def dict_set_static_ptr_def
        data_from_static_ptr_def qr_def st'_def q_def)
  moreover have "ims_xdb_get_result (Some (st_xdb st')) (Some session) = Some r"
    using qr assms(4) by (simp add: st'_def set_xdb_def get_result_map ptr_addr_data)
  ultimately show ?thesis using that qr(1) q assms(10) by (simp add: holds_result_def st'_def set_xdb_def rows_left_def)
qed

lemma ipc_query_answer:
  assumes "can_answer fp E session sql rows off st" "session_ok session" "fp_ok fp" "off + cnt < 2 ^ 63" "length rows < 2 ^ 63"
    and "cmd_dict cmd session sql off cnt" "ie_new env = Some r" "r < 2 ^ 64"
    and "dict_functional out" "dict_map out ''from'' = Some (static_text from)"
  obtains x st' where "ims_ipc_query fp E env (Some cmd) (Some out) st = Some (0, 0, Some x, st')"
    "page_dict fp x from (page off cnt rows) (comeback_for off cnt rows)" "\<exists>v. dict_map x ''runtime'' = Some (data_from_double fp v)"
    "holds_result fp session rows (off + cnt) st'" "pv_db_path (ip_priv st') = pv_db_path (ip_priv st)"
proof -
  have bounds: "off < 2 ^ 64" "cnt < 2 ^ 64" using assms(4) by simp_all
  note get = cmd_get [OF assms(6) bounds]
  obtain r1 st1 where found: "(case ims_xdb_get_result (Some (st_xdb st)) (Some session) of
             Some r \<Rightarrow> Some (0, Some r, st)
           | None \<Rightarrow> (case ie_new env of
                None \<Rightarrow> Some (0, None, st)
              | Some r \<Rightarrow> do {
                  (ret, _, st) \<leftarrow> ims_ipc_new_query fp E env (Some cmd) r (new_result r st);
                  Some (ret, Some r, st)
                })) = Some (0, Some r1, st1)"
    and st1: "holds_result fp session rows off st1" "ims_xdb_get_result (Some (st_xdb st1)) (Some session) = Some r1"
      "pv_db_path (ip_priv st1) = pv_db_path (ip_priv st)"
  proof (cases "holds_result fp session rows off st")
    case True
    then obtain r1 where "ims_xdb_get_result (Some (st_xdb st)) (Some session) = Some r1" by (auto simp: holds_result_def)
    then show ?thesis using that [of r1 st] True by simp
  next
    case False
    then obtain rs c where new: "dict_functional (qrset (st_xdb st))" "dict_map (qrset (st_xdb st)) session = None"
      "sq_exec E (conn (st_xdb st)) sql = (rs, SQLITE_OK, c)" "rows = map row_text rs" "length rs \<le> 10 ^ 9"
      "\<forall>r \<in> set rs. length (row_text r) \<le> 1022 \<and> no_nul (row_text r)"
      using assms(1) by (auto simp: can_answer_def)
    let ?st = "new_result r st"
    from new obtain st' where "ims_ipc_new_query fp E env (Some cmd) r ?st = Some (0, 0, st')"
      "holds_result fp session rows off st'" "ims_xdb_get_result (Some (st_xdb st')) (Some session) = Some r"
      "pv_db_path (ip_priv st') = pv_db_path (ip_priv st)"
      using new_query [OF assms(6) bounds assms(8), of ?st E rs c fp env] by (auto simp: new_result_def)
    then show ?thesis using that [of r st'] new(1,2) assms(7) by (simp add: get_result_map)
  qed
  obtain qrs x' gone where p: "ims_ipc_process_query_result fp (qrset (st_xdb st1)) (ip_dicts st1 r1) (ip_freed st1 r1) (Some out)
      (word_of_nat off) (word_of_nat cnt) = Some (0, qrs, Some x', gone)"
    and x': "page_dict fp x' from (page off cnt rows) (comeback_for off cnt rows)"
    and st2: "holds_result fp session rows (off + cnt) ((set_xdb ((st_xdb st1)\<lparr>qrset := qrs\<rparr>) st1)\<lparr>ip_freed := (ip_freed st1)(r1 := gone)\<rparr>)"
    by (rule query_page [OF st1(1) assms(2-5,9,10) st1(2)])
  let ?x = "u_dict_set x' ''runtime'' (data_from_double fp (ie_runtime env)) True"
  have f: "dict_functional x'" using x' by (simp add: page_dict_def)
  have "ims_ipc_query fp E env (Some cmd) (Some out) st = Some (0, 0, Some ?x,
      (set_xdb ((st_xdb st1)\<lparr>qrset := qrs\<rparr>) st1)\<lparr>ip_freed := (ip_freed st1)(r1 := gone)\<rparr>)"
    unfolding ims_ipc_query_def get prod.case found by (simp add: p dict_put Let_def)
  moreover have "page_dict fp ?x from (page off cnt rows) (comeback_for off cnt rows)"
    using x' f by (simp add: page_dict_def dict_upd dec_str_neq)
  moreover have "dict_map ?x ''runtime'' = Some (data_from_double fp (ie_runtime env))" using f by (simp add: dict_upd)
  ultimately show ?thesis using that st1(3) st2 by (auto simp: set_xdb_def)
qed

text \<open>The whole handler.\<close>

lemma ims_ipc_answer:
  assumes "can_answer fp E session sql rows off st" "session_ok session" "fp_ok fp" "off + cnt < 2 ^ 63" "length rows < 2 ^ 63"
    and "cmd_dict cmd session sql off cnt" "ie_new env = Some r" "r < 2 ^ 64" "ie_out env"
    and "ipc_identity (ie_host env) (pv_db_path (ip_priv st)) = Some from"
  obtains x st' where "ims_ipc fp E os env envs IMESS_IPC_OP (Some cmd) st ost = Inr (Some (0, 0, Some x, st', ost))"
    "page_dict fp x from (page off cnt rows) (comeback_for off cnt rows)" "\<exists>v. dict_map x ''runtime'' = Some (data_from_double fp v)"
    "holds_result fp session rows (off + cnt) st'" "pv_db_path (ip_priv st') = pv_db_path (ip_priv st)"
proof -
  let ?out = "u_dict_set dict_new ''from'' (static_text from) True"
  have out: "dict_functional ?out" "dict_map ?out ''from'' = Some (static_text from)" by (simp_all add: dict_upd)
  have "off < 2 ^ 64" "cnt < 2 ^ 64" using assms(4) by simp_all
  note get = cmd_get [OF assms(6) this]
  obtain x st' where q: "ims_ipc_query fp E env (Some cmd) (Some ?out) st = Some (0, 0, Some x, st')"
    and x: "page_dict fp x from (page off cnt rows) (comeback_for off cnt rows)" "\<exists>v. dict_map x ''runtime'' = Some (data_from_double fp v)"
      "holds_result fp session rows (off + cnt) st'" "pv_db_path (ip_priv st') = pv_db_path (ip_priv st)"
    by (rule ipc_query_answer [OF assms(1-8) out])
  have "ims_ipc fp E os env envs IMESS_IPC_OP (Some cmd) st ost = Inr (Some (0, 0, Some x, st', ost))"
    using q by (simp add: ims_ipc_def get assms(9,10) dict_put has_prefix_def flip: static_text_def)
  then show ?thesis using that x by blast
qed

end
