(* ===== verification/Server_Correct.thy ===== *)
theory Server_Correct
  imports Server
begin

text \<open>
  Correctness of the server translator: what its callbacks do in both modes is stated once
  through the task an operation stands for, runs of the server interleave requests with
  the worker, both modes end with the same index, and the attribute of a
  \<open>setxattr\<close> request is well typed.
\<close>

subsection \<open>Operations as tasks\<close>

text \<open>The task an operation stands for.\<close>

definition new_file_task :: "string \<Rightarrow> iatt \<Rightarrow> ims_task" where
  "new_file_task path buf = zero_task\<lparr>t_op := IMS_TASK_INSERT_NEW_FILE,
     t_file := zero_file\<lparr>xf_gfid := Some (uuid_utoa (ia_gfid buf)), xf_path := Some path\<rparr>, t_sb := iatt_stat buf\<rparr>"

definition unlink_task :: "string \<Rightarrow> ims_task" where
  "unlink_task path = zero_task\<lparr>t_op := IMS_TASK_UNLINK_FILE, t_file := zero_file\<lparr>xf_path := Some path\<rparr>\<rparr>"

fun task_of :: "fop \<Rightarrow> ims_task list" where
  "task_of (Mkdir c buf) = (case c of None \<Rightarrow> [] | Some p \<Rightarrow> [new_file_task p buf])"
| "task_of (Create p buf) = [new_file_task p buf]"
| "task_of (Symlink p buf) = [new_file_task p buf]"
| "task_of (Unlink p) = [unlink_task p]"
| "task_of (Rmdir p) = [unlink_task p]"
| "task_of (Link p buf) = [zero_task\<lparr>t_op := IMS_TASK_LINK_FILE,
     t_file := zero_file\<lparr>xf_path := Some p, xf_gfid := Some (uuid_utoa (ia_gfid buf))\<rparr>\<rparr>]"
| "task_of (Rename c) = (case c of None \<Rightarrow> [] | Some (p, q) \<Rightarrow>
     [zero_task\<lparr>t_op := IMS_TASK_RENAME, t_file := zero_file\<lparr>xf_path := Some p, xf_extra := Some q\<rparr>\<rparr>])"
| "task_of (Setxattr c) = (case c of None \<Rightarrow> [] | Some a \<Rightarrow> [zero_task\<lparr>t_op := IMS_TASK_INSERT_XATTR, t_attr := a\<rparr>])"
| "task_of (Setattr buf) = (if gf_uuid_is_null (ia_gfid buf) then [] else
     [zero_task\<lparr>t_op := IMS_TASK_UPDATE_STAT, t_file := zero_file\<lparr>xf_gfid := Some (uuid_utoa (ia_gfid buf))\<rparr>,
       t_sb := iatt_stat buf\<rparr>])"

record request =
  rq_env :: mem_env
  rq_fop :: fop
  rq_ret :: int
  rq_errno :: int

definition request_tasks :: "request \<Rightarrow> ims_task list" where
  "request_tasks r = (if rq_ret r = -1 then [] else task_of (rq_fop r))"

definition serve :: "'c sqlite3 \<Rightarrow> 'c ims_priv \<Rightarrow> request \<Rightarrow> (reply \<times> 'c ims_priv) option" where
  "serve E priv r = fop_cbk E (rq_env r) priv (rq_ret r) (rq_errno r) (rq_fop r)"

lemmas cbk_defs = serve_def request_tasks_def ims_mkdir_cbk_def ims_create_cbk_def ims_symlink_cbk_def ims_unlink_cbk_def
  ims_rmdir_cbk_def ims_link_cbk_def ims_rename_cbk_def ims_setxattr_cbk_def ims_setattr_cbk_def insert_new_xdb_entry_def
  unlink_from_xdb_def new_file_task_def unlink_task_def Let_def

lemmas worker_defs = dispatch_def worker_insert_new_file_def worker_unlink_file_def worker_update_stat_def worker_link_file_def
  worker_rename_def worker_insert_xattr_def

text \<open>In synchronous mode a callback does what the worker does with the task, but for
  \<open>setattr\<close>, which updates fewer attributes.\<close>

lemma serve_sync:
  assumes "\<not> pv_async_update priv" "\<forall>buf. rq_fop r \<noteq> Setattr buf"
  shows "serve E priv r = (case request_tasks r of
      [] \<Rightarrow> Some ((rq_ret r, rq_errno r), priv)
    | t # _ \<Rightarrow> map_option (\<lambda>rx. ((rq_ret r, rq_errno r), priv\<lparr>pv_xdb := snd rx\<rparr>)) (dispatch E t 0 (pv_xdb priv)))"
  using assms
  by (cases "rq_fop r")
    (auto simp: cbk_defs worker_defs zero_task_def on_xdb_def option.map_comp comp_def case_prod_beta split: option.split prod.split)

lemma serve_async:
  assumes "pv_async_update priv" "pv_async_ctx priv = Some w" "m_new (rq_env r) = Some a"
  shows "serve E priv r = (case request_tasks r of
      [] \<Rightarrow> Some ((rq_ret r, rq_errno r), priv)
    | t # _ \<Rightarrow> Some ((rq_ret r, rq_errno r), priv\<lparr>pv_async_ctx :=
        Some (w\<lparr>w_async := snd (ims_async_put_task (m_ok (rq_env r)) (Some a) (m_now (rq_env r)) (w_async w) t)\<rparr>)\<rparr>))"
  using assms
  by (cases "rq_fop r")
    (auto simp: cbk_defs put_or_crash_def put_task_def ims_async_put_task_def split: option.split)


subsection \<open>Runs of the server\<close>

datatype srv_event = Request request | WFetch | WWork timeval

inductive srv_step :: "'c sqlite3 \<Rightarrow> 'c ims_priv \<Rightarrow> srv_event \<Rightarrow> 'c ims_priv \<Rightarrow> bool" for E where
  request: "(\<And>a w. m_new (rq_env r) = Some a \<Longrightarrow> pv_async_ctx priv = Some w \<Longrightarrow>
       a_tasks (w_async w) a = None \<and> a \<noteq> a_queue (w_async w)) \<Longrightarrow>
     serve E priv r = Some (rep, priv') \<Longrightarrow> srv_step E priv (Request r) priv'"
| wfetch: "pv_async_ctx priv = Some w \<Longrightarrow> async_step E w Fetch w' \<Longrightarrow>
     srv_step E priv WFetch (priv\<lparr>pv_async_ctx := Some w'\<rparr>)"
| wwork: "pv_async_ctx priv = Some w \<Longrightarrow> async_step E w (Work now) w' \<Longrightarrow>
     srv_step E priv (WWork now) (priv\<lparr>pv_async_ctx := Some w'\<rparr>)"

inductive srv_run :: "'c sqlite3 \<Rightarrow> 'c ims_priv \<Rightarrow> srv_event list \<Rightarrow> 'c ims_priv \<Rightarrow> bool" for E where
  srv_nil: "srv_run E p [] p"
| srv_snoc: "srv_run E p evs p1 \<Longrightarrow> srv_step E p1 ev p2 \<Longrightarrow> srv_run E p (evs @ [ev]) p2"

inductive_cases srv_stepE: "srv_step E p (Request r) p'" "srv_step E p WFetch p'" "srv_step E p (WWork now) p'"

text \<open>The requests of a run, and the events of the queue they amount to.\<close>

fun requests_of :: "srv_event \<Rightarrow> request list" where
  "requests_of (Request r) = [r]"
| "requests_of _ = []"

fun queue_events :: "srv_event \<Rightarrow> async_event list" where
  "queue_events (Request r) = map (Put (m_ok (rq_env r)) (m_new (rq_env r)) (m_now (rq_env r))) (request_tasks r)"
| "queue_events WFetch = [Fetch]"
| "queue_events (WWork now) = [Work now]"

lemma task_of_length: "length (task_of f) \<le> 1"
  by (cases f) (auto split: option.split)

lemma request_tasks_cases: obtains "request_tasks r = []" | t where "request_tasks r = [t]"
  using task_of_length [of "rq_fop r"] by (cases "request_tasks r") (auto simp: request_tasks_def split: if_splits)

lemma requests_length: "length (concat (map request_tasks rs)) \<le> length rs"
proof (induction rs)
  case (Cons r rs)
  then show ?case by (cases r rule: request_tasks_cases) simp_all
qed simp

lemma srv_run_async:
  assumes "srv_run E p evs p'" "pv_async_update p" "pv_async_ctx p = Some w"
    and "\<forall>r \<in> set (concat (map requests_of evs)). m_new (rq_env r) \<noteq> None"
  shows "pv_async_update p' \<and> pv_xdb p' = pv_xdb p \<and>
    (\<exists>w'. pv_async_ctx p' = Some w' \<and> async_run E w (concat (map queue_events evs)) w')"
  using assms
proof (induction rule: srv_run.induct)
  case (srv_nil p)
  then show ?case by (simp add: run_nil)
next
  case (srv_snoc p evs p1 ev p2)
  then obtain w1 where p1: "pv_async_update p1" "pv_xdb p1 = pv_xdb p" "pv_async_ctx p1 = Some w1"
    and run: "async_run E w (concat (map queue_events evs)) w1" by auto
  show ?case
  proof (cases ev)
    case (Request r)
    with srv_snoc.hyps(2) obtain rep where fresh: "\<And>a w. m_new (rq_env r) = Some a \<Longrightarrow> pv_async_ctx p1 = Some w \<Longrightarrow>
        a_tasks (w_async w) a = None \<and> a \<noteq> a_queue (w_async w)"
      and s: "serve E p1 r = Some (rep, p2)" by (auto elim: srv_stepE)
    obtain a where a: "m_new (rq_env r) = Some a" using srv_snoc.prems(3) Request by auto
    consider "request_tasks r = []" | t where "request_tasks r = [t]" by (rule request_tasks_cases)
    then show ?thesis
    proof cases
      case 1
      then show ?thesis using s serve_async [OF p1(1,3) a, of E] p1 run Request by auto
    next
      case 2
      obtain ret self where put: "ims_async_put_task (m_ok (rq_env r)) (Some a) (m_now (rq_env r)) (w_async w1) t = (ret, self)"
        by (metis surj_pair)
      have "async_step E w1 (Put (m_ok (rq_env r)) (Some a) (m_now (rq_env r)) t) (w1\<lparr>w_async := self\<rparr>)"
        using fresh [OF a p1(3)] by (intro async_step.put [OF _ put]) simp
      then show ?thesis using s serve_async [OF p1(1,3) a, of E] p1 run Request 2 put a
        by (auto intro: run_snoc)
    qed
  next
    case WFetch
    with srv_snoc.hyps(2) obtain w' where "async_step E w1 Fetch w'" "p2 = p1\<lparr>pv_async_ctx := Some w'\<rparr>"
      using p1(3) by (auto elim: srv_stepE)
    then show ?thesis using p1 run WFetch by (auto intro: run_snoc)
  next
    case (WWork now)
    with srv_snoc.hyps(2) obtain w' where "async_step E w1 (Work now) w'" "p2 = p1\<lparr>pv_async_ctx := Some w'\<rparr>"
      using p1(3) by (auto elim: srv_stepE)
    then show ?thesis using p1 run WWork by (auto intro: run_snoc)
  qed
qed


lemma task_dup_all [simp]: "task_dup (\<lambda>_. True) t = t"
  by (simp add: task_dup_def gf_strdup_def)

lemma ix_task_enqueue [simp]: "ix_task (t\<lparr>t_enqueue := n\<rparr>) = ix_task t"
  unfolding ix_task_def Let_def by (simp add: fun_eq_iff cong: if_cong)

lemma task_ok_enqueue [simp]: "task_ok (t\<lparr>t_enqueue := n\<rparr>) = task_ok t"
  unfolding task_ok_def by (simp cong: if_cong conj_cong)

text \<open>The allocations of a request all succeed.\<close>

definition mem_ok :: "request \<Rightarrow> bool" where
  "mem_ok r \<longleftrightarrow> m_new (rq_env r) \<noteq> None \<and> m_ok (rq_env r) = (\<lambda>_. True)"

lemma accepted_requests:
  assumes "\<forall>r \<in> set (concat (map requests_of evs)). mem_ok r" "\<And>t n. f (t\<lparr>t_enqueue := n\<rparr>) = f t"
  shows "map f (all_accepted stamp (concat (map queue_events evs))) =
    map f (concat (map request_tasks (concat (map requests_of evs))))"
proof -
  have "map f (concat (map (accepted stamp) (queue_events ev))) = map f (concat (map request_tasks (requests_of ev)))"
    if ok: "\<forall>r \<in> set (requests_of ev). mem_ok r" for ev
  proof (cases ev)
    case (Request r)
    then obtain a where "m_new (rq_env r) = Some a" "m_ok (rq_env r) = (\<lambda>_. True)" using ok by (auto simp: mem_ok_def)
    then show ?thesis using Request by (simp add: map_concat comp_def accept_def assms(2))
  qed simp_all
  with assms show ?thesis by (induction evs) (simp_all add: all_accepted_def)
qed

context reliable_engine
begin

lemma sync_refines:
  assumes "srv_run E p (map Request rs) p'" "\<not> pv_async_update p"
    and "db_ok (xdb_of (pv_xdb p))" "tx_of (pv_xdb p) = None" "gids_below b (xdb_of (pv_xdb p))" "1 \<le> b"
    and "b + int (length rs) \<le> 2 ^ 31 - 1"
    and "\<forall>r \<in> set rs. (\<forall>buf. rq_fop r \<noteq> Setattr buf) \<and> (\<forall>t \<in> set (request_tasks r). task_ok t)"
  shows "\<not> pv_async_update p' \<and> db_ok (xdb_of (pv_xdb p')) \<and> tx_of (pv_xdb p') = None \<and>
    gids_below (b + int (length rs)) (xdb_of (pv_xdb p')) \<and>
    abs_index (xdb_of (pv_xdb p')) = fold ix_task (concat (map request_tasks rs)) (abs_index (xdb_of (pv_xdb p)))"
  using assms
proof (induction "map Request rs" p' arbitrary: rs rule: srv_run.induct)
  case (srv_nil p)
  then show ?case by simp
next
  case (srv_snoc p evs p1 ev p2)
  then obtain rs' r where rs: "rs = rs' @ [r]" "evs = map Request rs'" "ev = Request r"
    by (cases rs rule: rev_cases) auto
  have IH: "\<not> pv_async_update p1" "db_ok (xdb_of (pv_xdb p1))" "tx_of (pv_xdb p1) = None"
    "gids_below (b + int (length rs')) (xdb_of (pv_xdb p1))"
    "abs_index (xdb_of (pv_xdb p1)) = fold ix_task (concat (map request_tasks rs')) (abs_index (xdb_of (pv_xdb p)))"
    using srv_snoc.hyps(2) [OF rs(2)] srv_snoc.prems rs by auto
  have r: "\<forall>buf. rq_fop r \<noteq> Setattr buf" "\<forall>t \<in> set (request_tasks r). task_ok t" using srv_snoc.prems(7) rs by auto
  obtain rep where s: "serve E p1 r = Some (rep, p2)" using srv_snoc.hyps(3) rs(3) by (auto elim: srv_stepE)
  have b: "1 \<le> b + int (length rs')" "b + int (length rs') \<le> 2 ^ 31 - 1" using srv_snoc.prems(5,6) rs by simp_all
  consider "request_tasks r = []" | t where "request_tasks r = [t]" by (rule request_tasks_cases)
  then show ?case
  proof cases
    case 1
    then have "p2 = p1" using s serve_sync [OF IH(1) r(1), of E] by simp
    then show ?thesis using IH 1 rs gids_below_mono [OF IH(4)] by simp
  next
    case 2
    then obtain ret x where x: "dispatch E t 0 (pv_xdb p1) = Some (ret, x)" "p2 = p1\<lparr>pv_xdb := x\<rparr>"
      using s serve_sync [OF IH(1) r(1), of E] by auto
    obtain ret' x' where "dispatch E t 0 (pv_xdb p1) = Some (ret', x')" "task_refined t (xdb_of (pv_xdb p1)) (xdb_of x')"
      "tx_of x' = None" "gids_below (b + int (length rs') + 1) (xdb_of x')"
      using r(2) 2 by (auto intro: dispatch_refined [OF IH(2,4) b IH(3), of t 0])
    then show ?thesis using IH x 2 rs by (simp add: task_refined_def algebra_simps)
  qed
qed

end


text \<open>C3. For every request but those of the \<open>setattr\<close> family (\<open>setattr\<close>, \<open>fsetattr\<close>, \<open>truncate\<close>, \<open>ftruncate\<close>,
  \<open>writev\<close>, where the two modes differ) indexing synchronously or through the queue makes no difference in
  the end, provided the engine has no faults, no allocation fails, every update carries the fields it
  needs and the row numbers stay below \<open>2^31\<close>: when the same requests are served by a server that
  updates the index in the callbacks and by one that hands the updates to its worker, in any
  interleaving, then once the queue is empty both databases hold the same index.\<close>

theorem modes_agree:
  assumes "reliable_engine E db tx"
    and "srv_run E p (map Request rs) p'" "\<not> pv_async_update p" "pv_xdb p = x"
    and "srv_run E q evs q'" "pv_async_update q" "pv_async_ctx q = Some (fresh_worker x head h stamp)"
    and "concat (map requests_of evs) = rs" "pv_async_ctx q' = Some w" "pending w = []"
    and "db_ok (db (conn x))" "tx (conn x) = None" "gids_below b (db (conn x))" "1 \<le> b" "b + int (length rs) \<le> 2 ^ 31 - 1"
    and "\<forall>r \<in> set rs. mem_ok r \<and> (\<forall>buf. rq_fop r \<noteq> Setattr buf) \<and> (\<forall>t \<in> set (request_tasks r). task_ok t)"
  shows "abs_index (db (conn (pv_xdb p'))) = abs_index (db (conn (a_xdb (w_async w))))"
proof -
  let ?es = "concat (map queue_events evs)" and ?ts = "concat (map request_tasks rs)"
  from srv_run_async [OF assms(5-7)] assms(8,9,16) have run: "async_run E (fresh_worker x head h stamp) ?es w"
    by (auto simp: mem_ok_def)
  have eq: "map f (all_accepted stamp ?es) = map f ?ts" if "\<And>t n. f (t\<lparr>t_enqueue := n\<rparr>) = f t" for f :: "ims_task \<Rightarrow> 'z"
    using accepted_requests [of evs f stamp] assms(8,16) that by auto
  have "length ?ts \<le> length rs" by (rule requests_length)
  moreover have len: "length (all_accepted stamp ?es) = length ?ts" using eq [of "\<lambda>_. ()"] by (metis length_map)
  moreover have all: "all_worked ?es = length (all_accepted stamp ?es)"
    using run_fifo [OF run] assms(10) by (auto simp: all_accepted_def all_worked_def)
  ultimately have b: "b + int (all_worked ?es) \<le> 2 ^ 31 - 1" using assms(15) by linarith
  have "task_ok ` set (all_accepted stamp ?es) = task_ok ` set ?ts" using arg_cong [OF eq [of task_ok], of set] by simp
  then have ok: "\<forall>t \<in> set (all_accepted stamp ?es). task_ok t" using assms(16) by (auto 0 4)
  have "abs_index (db (conn (a_xdb (w_async w)))) = fold ix_task (all_accepted stamp ?es) (abs_index (db (conn x)))"
    using run_index [OF assms(1) run assms(11-14) b ok] by (simp add: all)
  also have "\<dots> = fold id (map ix_task (all_accepted stamp ?es)) (abs_index (db (conn x)))" by (simp add: fold_map)
  also have "\<dots> = fold ix_task ?ts (abs_index (db (conn x)))" by (simp add: eq [of ix_task] fold_map)
  also have "\<dots> = abs_index (db (conn (pv_xdb p')))"
    using reliable_engine.sync_refines [OF assms(1,2,3), of b] assms(4,11-16) by simp
  finally show ?thesis ..
qed


lemma worker_run:
  assumes "async_run E w es w'" "\<forall>e \<in> set es. e = Fetch \<or> (\<exists>now. e = Work now)" "pv_async_ctx q = Some w"
  shows "\<exists>evs. srv_run E q evs (q\<lparr>pv_async_ctx := Some w'\<rparr>) \<and> concat (map requests_of evs) = []"
  using assms
proof (induction rule: async_run.induct)
  case (run_nil w)
  then have "q\<lparr>pv_async_ctx := Some w\<rparr> = q" by (cases q) simp
  then show ?case using srv_nil [of E q] by (intro exI [of _ "[]"]) simp
next
  case (run_snoc w es w1 e w2)
  then obtain evs where evs: "srv_run E q evs (q\<lparr>pv_async_ctx := Some w1\<rparr>)" "concat (map requests_of evs) = []" by auto
  consider "e = Fetch" | now where "e = Work now" using run_snoc.prems(1) by auto
  then obtain ev where "srv_step E (q\<lparr>pv_async_ctx := Some w1\<rparr>) ev (q\<lparr>pv_async_ctx := Some w2\<rparr>)" "requests_of ev = []"
    using wfetch [of "q\<lparr>pv_async_ctx := Some w1\<rparr>" w1 E w2] wwork [of "q\<lparr>pv_async_ctx := Some w1\<rparr>" w1 E _ w2] run_snoc.hyps(2)
    by cases fastforce+
  then show ?case using srv_run.srv_snoc [OF evs(1)] evs(2) by (intro exI [of _ "evs @ [ev]"]) auto
qed

lemma srv_run_append: "srv_run E p1 es2 p2 \<Longrightarrow> srv_run E p es1 p1 \<Longrightarrow> srv_run E p (es1 @ es2) p2"
  by (induction rule: srv_run.induct) (auto simp flip: append_assoc intro: srv_snoc)


subsection \<open>Samples\<close>

definition sample_create :: request where
  "sample_create = \<lparr>rq_env = \<lparr>m_ok = (\<lambda>_. True), m_new = Some 5, m_now = \<lparr>tv_sec = 1, tv_usec = 0\<rparr>\<rparr>,
     rq_fop = Create ''/a/b'' sample_iatt, rq_ret = 0, rq_errno = 0\<rparr>"

definition sample_priv :: "bool \<Rightarrow> ref_conn ims_priv" where
  "sample_priv async = \<lparr>pv_brick_path = ''/bricks/brick'', pv_db_path = ''/bricks/xdb'', pv_xdb = sample_xdb [] xdb_schema,
     pv_lookup_cache = False, pv_async_update = async, pv_latency_log = False, pv_dir_hash = False,
     pv_async_ctx = (if async then Some (fresh_worker (sample_xdb [] xdb_schema) 3 sample_heap False) else None)\<rparr>"


lemma sample_create_simps:
  "rq_fop sample_create = Create ''/a/b'' sample_iatt" "rq_env sample_create = \<lparr>m_ok = (\<lambda>_. True), m_new = Some 5, m_now = \<lparr>tv_sec = 1, tv_usec = 0\<rparr>\<rparr>"
  "mem_ok sample_create" "request_tasks sample_create = [new_file_task ''/a/b'' sample_iatt]"
  "task_ok (new_file_task ''/a/b'' sample_iatt)"
  by (simp_all add: sample_create_def mem_ok_def request_tasks_def new_file_task_def zero_task_def zero_file_def task_ok_def has_slash_def)

lemma sample_async:
  "\<exists>evs q' w. srv_run plain_engine (sample_priv True) (Request sample_create # evs) q' \<and> concat (map requests_of evs) = [] \<and>
    pv_async_ctx q' = Some w \<and> pending w = []"
proof -
  let ?q = "sample_priv True" and ?w = "fresh_worker (sample_xdb [] xdb_schema) 3 sample_heap False"
  have q: "pv_async_update ?q" "pv_async_ctx ?q = Some ?w" "m_new (rq_env sample_create) = Some 5"
    by (simp_all add: sample_priv_def sample_create_simps)
  obtain rep q1 where s: "serve plain_engine ?q sample_create = Some (rep, q1)"
    using serve_async [OF q, of plain_engine] sample_create_simps(4) by simp
  have "srv_step plain_engine ?q (Request sample_create) q1"
    by (rule request [OF _ s]) (auto simp: q(2) sample_create_simps fresh_worker_def ims_async_init_def)
  from srv_snoc [OF srv_nil this] have run1: "srv_run plain_engine ?q [Request sample_create] q1" by simp
  from srv_run_async [OF this q(1,2)] obtain w1 where w1: "pv_async_ctx q1 = Some w1"
    and run: "async_run plain_engine ?w (queue_events (Request sample_create)) w1"
    by (auto simp: sample_create_simps)
  from run_fifo [OF run] obtain ts where "worker_inv w1" "a_latency_log (w_async w1) = False"
    "all_accepted False (queue_events (Request sample_create)) = ts @ pending w1" "length ts = 0"
    by (auto simp: all_accepted_def sample_create_simps)
  moreover have "all_accepted False (queue_events (Request sample_create)) = [new_file_task ''/a/b'' sample_iatt]"
    by (simp add: all_accepted_def sample_create_simps accept_def)
  ultimately have inv: "worker_inv w1" "pending w1 = new_file_task ''/a/b'' sample_iatt # []" "a_latency_log (w_async w1) = False"
    by simp_all
  have db: "db_ok (rc_db (conn (a_xdb (w_async w1))))" "rc_tx (conn (a_xdb (w_async w1))) = None"
    "gids_below 1 (rc_db (conn (a_xdb (w_async w1))))"
    using plain_sqlite.run_refines [OF run, of 1] schema_ok sample_create_simps(5)
    by (simp_all add: sample_create_simps accept_def Let_def)
  obtain w' es where "async_run plain_engine w1 es w'" "pending w' = []" "\<forall>e \<in> set es. e = Fetch \<or> (\<exists>now. e = Work now)"
    by (rule plain_sqlite.work_progress [OF inv(1,2) db _ sample_create_simps(5)]) (simp_all add: loggable_def inv(3))
  from worker_run [OF this(1,3) w1] this(2) obtain evs where "srv_run plain_engine q1 evs (q1\<lparr>pv_async_ctx := Some w'\<rparr>)"
    "concat (map requests_of evs) = []" by blast
  with srv_run_append [OF this(1) run1] \<open>pending w' = []\<close> show ?thesis
    by (intro exI [of _ evs] exI [of _ "q1\<lparr>pv_async_ctx := Some w'\<rparr>"] exI [of _ w']) simp
qed

theorem modes_agree_witness:
  "\<exists>p' q' evs w. srv_run plain_engine (sample_priv False) [Request sample_create] p' \<and>
    srv_run plain_engine (sample_priv True) (Request sample_create # evs) q' \<and> pv_async_ctx q' = Some w \<and>
    abs_index (rc_db (conn (pv_xdb p'))) = abs_index (rc_db (conn (a_xdb (w_async w))))"
proof -
  obtain evs q' w where q: "srv_run plain_engine (sample_priv True) (Request sample_create # evs) q'"
    "concat (map requests_of evs) = []" "pv_async_ctx q' = Some w" "pending w = []" using sample_async by blast
  have p: "\<not> pv_async_update (sample_priv False)" "pv_xdb (sample_priv False) = sample_xdb [] xdb_schema"
    by (simp_all add: sample_priv_def)
  obtain ret x where "dispatch plain_engine (new_file_task ''/a/b'' sample_iatt) 0 (sample_xdb [] xdb_schema) = Some (ret, x)"
    by (rule plain_sqlite.dispatch_refined [of "sample_xdb [] xdb_schema" 1 "new_file_task ''/a/b'' sample_iatt" 0])
      (simp_all add: schema_ok sample_create_simps(5))
  then obtain rep p' where s: "serve plain_engine (sample_priv False) sample_create = Some (rep, p')"
    using serve_sync [OF p(1), of sample_create plain_engine] sample_create_simps p(2) by simp
  have "srv_step plain_engine (sample_priv False) (Request sample_create) p'"
    by (rule request [OF _ s]) (simp_all add: sample_priv_def)
  from srv_snoc [OF srv_nil this] have run: "srv_run plain_engine (sample_priv False) (map Request [sample_create]) p'" by simp
  have "abs_index (rc_db (conn (pv_xdb p'))) = abs_index (rc_db (conn (a_xdb (w_async w))))"
    using modes_agree [OF plain_sqlite.reliable_engine_axioms run p q(1), of 3 sample_heap False w 1] q(2-4) schema_ok
    by (simp add: sample_priv_def sample_create_simps)
  with run q show ?thesis by auto
qed

subsection \<open>Attributes of setxattr requests\<close>

text \<open>A typed attribute: the tag selects the one value that is set, and the value is
  what the text reads as.\<close>

definition attr_reads :: "(string \<Rightarrow> dbl option) \<Rightarrow> string \<Rightarrow> ims_xdb_attr \<Rightarrow> bool" where
  "attr_reads scan_lf s a \<longleftrightarrow>
     (if at_type a = IMS_XDB_TYPE_INTEGER
      then CHR ''.'' \<notin> set s \<and> scan_ld s = Some (sint (at_ival a)) \<and> at_rval a = 0 \<and> at_sval a = None
      else if at_type a = IMS_XDB_TYPE_REAL
      then (CHR ''.'' \<in> set s \<or> scan_ld s = None) \<and> scan_lf s = Some (at_rval a) \<and> at_ival a = 0 \<and> at_sval a = None
      else at_type a = IMS_XDB_TYPE_STRING \<and> (CHR ''.'' \<in> set s \<or> scan_ld s = None) \<and> scan_lf s = None \<and>
           at_sval a = Some s \<and> at_ival a = 0 \<and> at_rval a = 0)"

lemma scan_ld_range: "scan_ld s = Some i \<Longrightarrow> - (2 ^ 63) \<le> i \<and> i < 2 ^ 63"
  by (auto simp: scan_ld_def Let_def split: if_splits)

lemma sint_of_scan: "scan_ld s = Some i \<Longrightarrow> sint (word_of_int i :: u64) = i"
  using scan_ld_range [of s i] by (simp add: sint_sbintrunc' signed_take_bit_int_eq_self)

lemma xattr_value_reads:
  "attr_reads scan_lf s (xattr_value scan_lf k s a)" "at_name (xattr_value scan_lf k s a) = Some k"
  "at_gfid (xattr_value scan_lf k s a) = at_gfid a"
  by (auto simp: attr_reads_def xattr_value_def Let_def sint_of_scan split: option.split)

text \<open>What the walk over the dictionary keeps.\<close>

definition filled :: "(string \<Rightarrow> dbl option) \<Rightarrow> (string \<times> data_t) set \<Rightarrow> ims_xattr_filler \<Rightarrow> bool" where
  "filled scan_lf ps f \<longleftrightarrow> 0 \<le> fl_count f \<and> (0 < fl_count f \<longrightarrow>
     (\<exists>k v s. (k, v) \<in> ps \<and> XATTR_IS_IMESSXDB k \<and> xattr_text v = Some s \<and> at_name (fl_xattr f) = Some k \<and>
        attr_reads scan_lf s (fl_xattr f)))"

lemma find_kv_filled:
  assumes "ims_find_setxattr_kv scan_lf k v (Some f) = (r, Some f')" "filled scan_lf ps f" "(k, v) \<in> ps"
  shows "filled scan_lf ps f'"
proof (cases "XATTR_IS_IMESSXDB k")
  case True
  then obtain s where s: "xattr_text v = Some s"
    and f': "f' = \<lparr>fl_count = fl_count f + 1, fl_xattr = xattr_value scan_lf k s (fl_xattr f)\<rparr>"
    using assms(1) by (auto simp: ims_find_setxattr_kv_def split: bind_splits)
  have "0 \<le> fl_count f" using assms(2) by (simp add: filled_def)
  moreover have "(k, v) \<in> ps \<and> XATTR_IS_IMESSXDB k \<and> xattr_text v = Some s \<and> at_name (fl_xattr f') = Some k \<and>
    attr_reads scan_lf s (fl_xattr f')" using assms(3) True s by (simp add: f' xattr_value_reads)
  ultimately show ?thesis unfolding filled_def by (auto simp: f')
next
  case False
  then show ?thesis using assms by (simp add: ims_find_setxattr_kv_def)
qed

lemma find_kv_none: "snd (foreach_loop m (ims_find_setxattr_kv scan_lf) ps c None) = None"
  by (induction ps arbitrary: c) (auto simp: ims_find_setxattr_kv_def)

lemma foreach_filled:
  assumes "foreach_loop m (ims_find_setxattr_kv scan_lf) ps c (Some f) = (r, Some f')" "filled scan_lf qs f" "set ps \<subseteq> qs"
  shows "filled scan_lf qs f'"
  using assms
proof (induction ps arbitrary: c f)
  case (Cons p ps)
  obtain k v where p: "p = (k, v)" by (cases p)
  obtain r1 fo where one: "ims_find_setxattr_kv scan_lf k v (Some f) = (r1, fo)" by (metis surj_pair)
  have r1: "r1 = 0" using one by (auto simp: ims_find_setxattr_kv_def split: if_splits)
  show ?case
  proof (cases "m k v")
    case False
    then show ?thesis using Cons p by simp
  next
    case True
    then have rest: "foreach_loop m (ims_find_setxattr_kv scan_lf) ps (c + 1) fo = (r, Some f')"
      using Cons.prems(1) p one r1 by simp
    then obtain f1 where fo: "fo = Some f1" using find_kv_none [of m scan_lf ps "c + 1"] by (cases fo) auto
    have "filled scan_lf qs f1" using find_kv_filled [OF one [unfolded fo] Cons.prems(2)] Cons.prems(3) p by simp
    then show ?thesis using Cons.IH rest fo Cons.prems(3) by auto
  qed
qed simp

text \<open>C36. The attribute that a \<open>setxattr\<close> request hands to the index is well typed: it belongs to the file
  of the request, its name and text are those of a pair of the dictionary in the index's name
  space, its type tag selects the one value that is set, and that value is what the text reads
  as, an integer at full 64-bit width.  So the task made of it is one the database accepts.\<close>

theorem setxattr_typed:
  assumes "ims_setxattr scan_lf gfid dict = Some (Some a)"
  shows "at_gfid a = Some (uuid_utoa gfid) \<and>
    (\<exists>d k v s. dict = Some d \<and> (k, v) \<in> set (dict_alist d) \<and> XATTR_IS_IMESSXDB k \<and> at_name a = Some k \<and>
       xattr_text v = Some s \<and> attr_reads scan_lf s a) \<and>
    (\<forall>t \<in> set (task_of (Setxattr (Some a))). task_ok t)"
proof -
  let ?init = "\<lparr>fl_count = 0, fl_xattr = zero_attr\<rparr>"
  from assms obtain r d f where "dict = Some d" "fl_count f \<noteq> 0" and a: "a = (fl_xattr f)\<lparr>at_gfid := Some (uuid_utoa gfid)\<rparr>"
    and loop: "foreach_loop dict_match_everything (ims_find_setxattr_kv scan_lf) (dict_alist d) 0 (Some ?init) = (r, Some f)"
    by (auto simp: ims_setxattr_def dict_foreach_def dict_foreach_match_def split: prod.splits option.splits if_splits)
  moreover have "filled scan_lf (set (dict_alist d)) f"
    by (rule foreach_filled [OF loop]) (simp_all add: filled_def)
  ultimately obtain k v s where kv: "(k, v) \<in> set (dict_alist d)" "XATTR_IS_IMESSXDB k" "xattr_text v = Some s"
    "at_name a = Some k" "attr_reads scan_lf s a" unfolding filled_def by (auto simp: attr_reads_def)
  then show ?thesis using \<open>dict = Some d\<close> a
    by (auto simp: task_ok_def zero_task_def attr_reads_def split: if_splits)
qed

definition sample_dict :: dict_t where
  "sample_dict = \<lparr>hash_size = 1, dict_count = 1, dict_refcount = 1, members = (\<lambda>_. [0]), members_list = [0],
     pairs = (\<lambda>_. \<lparr>pair_key = ''user.imess.run'', pair_value = \<lparr>is_static = True, is_stdalloc = False, data_len = 3,
       data_data = Some [52, 50, 0]\<rparr>\<rparr>), free_pair_in_use = True\<rparr>"

lemma sample_setxattr:
  "ims_setxattr (\<lambda>_. None) gfid (Some sample_dict) = Some (Some (\<lparr>at_gfid = Some (uuid_utoa gfid), at_type = IMS_XDB_TYPE_INTEGER,
     at_name = Some ''user.imess.run'', at_ival = 42, at_rval = 0, at_sval = None\<rparr>))"
proof -
  have "string_of [52, 50] = ''42''" by code_simp
  then have "xattr_text \<lparr>is_static = True, is_stdalloc = False, data_len = 3, data_data = Some [52, 50, 0]\<rparr> = Some ''42''"
    by (simp add: xattr_text_def str_at_def PATH_MAX_def)
  moreover have "scan_ld ''42'' = Some 42" by code_simp
  ultimately show ?thesis
    by (simp add: ims_setxattr_def dict_foreach_def dict_foreach_match_def dict_alist_def sample_dict_def dict_match_everything_def
        ims_find_setxattr_kv_def XATTR_IS_IMESSXDB_def GF_XATTR_IMESS_KEY_def xattr_value_def zero_attr_def)
qed

theorem setxattr_typed_witness:
  "list_all task_ok (task_of (Setxattr (the (ims_setxattr (\<lambda>_. None) (replicate 16 1) (Some sample_dict)))))"
  unfolding sample_setxattr option.sel list_all_iff using setxattr_typed [OF sample_setxattr] by blast

end
