(* ===== verification/Query_Correct.thy ===== *)
theory Query_Correct
  imports Ipc_Correct Server_Correct "HOL-Library.Multiset"
begin

unbundle bit_operations_syntax

text \<open>
  Queries from end to end: the replies of the servers merge into one dictionary, whatever order they
  come back in, and the shell fetches and prints every row of every server exactly once.
\<close>

subsection \<open>Merging\<close>

lemma fnmatch_literal: "CHR ''*'' \<notin> set p \<Longrightarrow> CHR ''?'' \<notin> set p \<Longrightarrow> fnmatch p s \<longleftrightarrow> s = p"
  by (induction p s rule: fnmatch.induct) auto

lemma fnmatch_star: "fnmatch (CHR ''*'' # p) s \<longleftrightarrow> (\<exists>t u. s = t @ u \<and> fnmatch p u)"
proof (induction s)
  case (Cons d s)
  have "(\<exists>t u. d # s = t @ u \<and> fnmatch p u) \<longleftrightarrow> fnmatch p (d # s) \<or> (\<exists>t u. s = t @ u \<and> fnmatch p u)"
    by (metis append_Cons append_Nil list.inject list.exhaust)
  then show ?case using Cons.IH by simp
qed simp

definition count_key :: "string \<Rightarrow> bool" where
  "count_key k \<longleftrightarrow> fnmatch ''*:count'' k"

lemma count_key_iff: "count_key k \<longleftrightarrow> (\<exists>t. k = t @ '':count'')"
  using fnmatch_star [of "'':count''" k] by (simp add: count_key_def fnmatch_literal)

lemma count_key_last: "count_key k \<Longrightarrow> last k = CHR ''t''" "count_key k \<Longrightarrow> CHR '':'' \<in> set k"
  by (auto simp: count_key_iff)

text \<open>The sum over the keys \<open>*:count\<close>.\<close>

definition count_sum :: "(string \<times> data_t) list \<Rightarrow> u64" where
  "count_sum ps = sum_list (map (\<lambda>(k, v). word_of_int (data_to_uint64 (Some v))) (filter (\<lambda>(k, v). count_key k) ps))"

lemma count_sum_update: "\<not> count_key k \<Longrightarrow> count_sum (AList.update k v ps) = count_sum ps"
  by (induction ps) (auto simp: count_sum_def)

lemma count_sum_other: "dict_functional d \<Longrightarrow> \<not> count_key k \<Longrightarrow> count_sum (dict_alist (u_dict_set d k v True)) = count_sum (dict_alist d)"
  by (simp add: dict_alist_set dict_functional_ok alist_set_def count_sum_update) (simp add: count_sum_def)

lemma count_sum_new:
  assumes "dict_functional d" "count_key k" "dict_map d k = None"
  shows "count_sum (dict_alist (u_dict_set d k v True)) = word_of_int (data_to_uint64 (Some v)) + count_sum (dict_alist d)"
proof -
  have "k \<notin> fst ` set (dict_alist d)" using assms(3) by (simp add: dict_map_def map_of_eq_None_iff)
  then show ?thesis using assms(1,2) by (simp add: dict_alist_set dict_functional_ok alist_set_def count_sum_def)
qed

lemma count_foreach:
  "dict_foreach_fnmatch (Some d) ''*:count'' process_result_count_fn s =
     (int (length (filter (\<lambda>(k, v). count_key k) (dict_alist d))), s + count_sum (dict_alist d))"
proof -
  have "fold (\<lambda>(k, v) s. s + word_of_int (data_to_uint64 (Some v))) ps s =
      s + sum_list (map (\<lambda>(k, v). word_of_int (data_to_uint64 (Some v)) :: u64) ps)" for ps s
    by (induction ps arbitrary: s) (auto simp: add.assoc)
  then show ?thesis
    by (simp add: dict_foreach_fnmatch_def dict_foreach_match_def foreach_loop_total process_result_count_fn_def dict_fnmatch_def
        count_sum_def count_key_def)
qed

definition merged_dict :: "dict_t \<Rightarrow> string list \<Rightarrow> int \<Rightarrow> string set \<Rightarrow> bool" where
  "merged_dict q rows cb froms \<longleftrightarrow> dict_functional q \<and>
     (\<forall>k < length rows. dict_map q (dec_str k) = Some (text_data (rows ! k))) \<and>
     (\<forall>k \<ge> length rows. dict_map q (dec_str k) = None) \<and>
     dict_map q ''count'' = Some (data_from_uint64 (int (length rows))) \<and>
     dict_map q ''comeback'' = Some (data_from_int32 cb) \<and>
     count_sum (dict_alist q) = word_of_nat (length rows) \<and>
     (\<forall>from. dict_map q (from @ '':count'') \<noteq> None \<longleftrightarrow> from \<in> froms)"

lemma not_count_key: "\<not> count_key (dec_str n)" "\<not> count_key ''count''" "\<not> count_key ''comeback''"
  using count_key_last(2) [of "dec_str n"] count_key_last(2) [of "''count''"] count_key_last(2) [of "''comeback''"]
  by (auto simp: dec_str_no_colon)

lemma from_count_neq: "dec_str n \<noteq> from @ '':count''" "''count'' \<noteq> from @ '':count''" "''comeback'' \<noteq> from @ '':count''"
  using not_count_key count_key_iff by blast+

lemma xl_neq:
  assumes "CHR '':'' \<in> set suffix"
  shows "xl @ suffix \<noteq> dec_str n" "xl @ suffix \<noteq> ''count''" "xl @ suffix \<noteq> ''comeback''"
proof -
  have colon: "CHR '':'' \<in> set (xl @ suffix)" using assms by simp
  then show "xl @ suffix \<noteq> dec_str n" using dec_str_no_colon [of n] by metis
  have "CHR '':'' \<notin> set ''count''" "CHR '':'' \<notin> set ''comeback''" by simp_all
  with colon show "xl @ suffix \<noteq> ''count''" "xl @ suffix \<noteq> ''comeback''" by metis+
qed

lemma copy_rows_page:
  assumes "dict_functional x" "\<forall>k < length rows. dict_map x (dec_str k) = Some (text_data (rows ! k))"
    and "p + length rows < 2 ^ 64" "i \<le> length rows" "dict_functional q"
  shows "\<exists>q'. copy_rows (Some x) (word_of_nat (length rows)) (word_of_nat i) (word_of_nat (p + i)) (Some q) =
      (word_of_nat (p + length rows), Some q') \<and> dict_functional q' \<and>
    (\<forall>k. i \<le> k \<and> k < length rows \<longrightarrow> dict_map q' (dec_str (p + k)) = Some (text_data (rows ! k))) \<and>
    (\<forall>j. (\<forall>k. i \<le> k \<and> k < length rows \<longrightarrow> j \<noteq> dec_str (p + k)) \<longrightarrow> dict_map q' j = dict_map q j) \<and>
    count_sum (dict_alist q') = count_sum (dict_alist q)"
  using assms(4,5)
proof (induction "length rows - i" arbitrary: i q)
  case 0
  then show ?case by (subst copy_rows.simps) auto
next
  case (Suc m)
  let ?q = "u_dict_set q (dec_str (p + i)) (text_data (rows ! i)) True"
  have i: "i < length rows" using Suc.hyps(2) by simp
  have "i < 2 ^ LENGTH(64)" "length rows < 2 ^ LENGTH(64)" "p + i < 2 ^ LENGTH(64)" using i assms(3) by simp_all
  note w = this [THEN unat_of_nat_id]
  have succ: "word_of_nat (Suc i) = word_of_nat i + (1 :: u64)" "word_of_nat (p + Suc i) = word_of_nat (p + i) + (1 :: u64)"
    by simp_all
  have "dict_set (Some q) (dec_str (p + i)) (dict_get (Some x) (Some (dec_str i))) = (0, Some ?q)"
    using assms(1,2) i by (simp add: dict_get_map dict_functional_ok dict_set_def)
  then have step: "copy_rows (Some x) (word_of_nat (length rows)) (word_of_nat i) (word_of_nat (p + i)) (Some q) =
      copy_rows (Some x) (word_of_nat (length rows)) (word_of_nat (Suc i)) (word_of_nat (p + Suc i)) (Some ?q)"
    using i by (subst copy_rows.simps) (simp add: word_less_nat_alt w succ del: of_nat_add of_nat_Suc add_Suc_right)
  have "m = length rows - Suc i" "Suc i \<le> length rows" "dict_functional ?q" using Suc.hyps(2) Suc.prems by (simp_all add: dict_upd)
  from Suc.hyps(1) [OF this] obtain q' where
    q': "copy_rows (Some x) (word_of_nat (length rows)) (word_of_nat (Suc i)) (word_of_nat (p + Suc i)) (Some ?q) =
      (word_of_nat (p + length rows), Some q')" "dict_functional q'"
      "count_sum (dict_alist q') = count_sum (dict_alist ?q)"
    and rows: "\<forall>k. Suc i \<le> k \<and> k < length rows \<longrightarrow> dict_map q' (dec_str (p + k)) = Some (text_data (rows ! k))"
    and keep: "\<forall>j. (\<forall>k. Suc i \<le> k \<and> k < length rows \<longrightarrow> j \<noteq> dec_str (p + k)) \<longrightarrow> dict_map q' j = dict_map ?q j" by blast
  have m: "dict_map ?q = (dict_map q)(dec_str (p + i) \<mapsto> text_data (rows ! i))" using Suc.prems(2) by (simp add: dict_upd)
  have "dict_map q' (dec_str (p + k)) = Some (text_data (rows ! k))" if "i \<le> k \<and> k < length rows" for k
    using that rows keep [rule_format, of "dec_str (p + i)"] m by (cases "k = i") (auto simp: dec_str_inj)
  moreover have "dict_map q' j = dict_map q j" if j: "\<forall>k. i \<le> k \<and> k < length rows \<longrightarrow> j \<noteq> dec_str (p + k)" for j
    using keep [rule_format, of j] m j i by auto
  moreover have "count_sum (dict_alist q') = count_sum (dict_alist q)"
    using q'(3) Suc.prems(2) by (simp add: count_sum_other not_count_key)
  ultimately show ?case using q'(1,2) unfolding step by blast
qed

text \<open>The dictionary of a request while a reply is merged: its rows, the numbers stored
  under \<open>count\<close> and \<open>comeback\<close>, the sum over the keys \<open>*:count\<close> and the servers that have
  one.\<close>

definition merging :: "dict_t \<Rightarrow> string list \<Rightarrow> nat \<Rightarrow> int \<Rightarrow> nat \<Rightarrow> string set \<Rightarrow> bool" where
  "merging q rows n cb s froms \<longleftrightarrow> dict_functional q \<and>
     (\<forall>k < length rows. dict_map q (dec_str k) = Some (text_data (rows ! k))) \<and>
     (\<forall>k \<ge> length rows. dict_map q (dec_str k) = None) \<and>
     dict_map q ''count'' = Some (data_from_uint64 (int n)) \<and>
     dict_map q ''comeback'' = Some (data_from_int32 cb) \<and>
     count_sum (dict_alist q) = word_of_nat s \<and>
     (\<forall>from. dict_map q (from @ '':count'') \<noteq> None \<longleftrightarrow> from \<in> froms)"

lemma merged_merging: "merged_dict q rows cb froms \<longleftrightarrow> merging q rows (length rows) cb (length rows) froms"
  by (simp add: merged_dict_def merging_def)

lemma set_xl_keep:
  assumes "merging q rows n cb s froms" "length (xl @ suffix) < 64" "CHR '':'' \<in> set suffix" "\<forall>from. xl @ suffix \<noteq> from @ '':count''"
  obtains q' where "set_xl xl suffix v (Some q) = Some (0, Some q')" "merging q' rows n cb s froms"
proof -
  have nc: "\<not> count_key (xl @ suffix)" "f @ '':count'' \<noteq> xl @ suffix" for f
    using assms(4) by (auto simp: count_key_iff dest: sym)
  note neq = xl_neq [OF assms(3), of xl]
  have "merging (u_dict_set q (xl @ suffix) v True) rows n cb s froms"
    using assms(1) nc neq neq [symmetric]
    by (auto simp: merging_def dict_upd count_sum_other)
  then show ?thesis using that assms(2) by (simp add: set_xl_def xl_key_def dict_put)
qed

lemma set_xl_count:
  assumes "merging q rows n cb s froms" "length xl \<le> 57" "xl \<notin> froms" "m < 2 ^ 63"
  obtains q' where "set_xl xl '':count'' (data_from_uint64 (int m)) (Some q) = Some (0, Some q')" "merging q' rows n cb (s + m) (insert xl froms)"
proof -
  let ?q = "u_dict_set q (xl @ '':count'') (data_from_uint64 (int m)) True"
  have c: "count_key (xl @ '':count'')" "dict_map q (xl @ '':count'') = None" "dict_functional q"
    using assms(1,3) by (auto simp: count_key_iff merging_def)
  have "CHR '':'' \<in> set '':count''" by simp
  note neq = xl_neq [OF this, of xl]
  have v: "data_to_uint64 (Some (data_from_uint64 (int m))) = int m"
    using assms(4) by (simp add: data_to_uint64_def data_from_uint64_def no_nul_fmt_d strtoll_fmt_d take_bit_int_eq_self)
  have sum: "count_sum (dict_alist ?q) = word_of_nat (s + m)"
    using assms(1) count_sum_new [OF c(3,1,2), of "data_from_uint64 (int m)"] v by (simp add: merging_def add.commute)
  have "merging ?q rows n cb (s + m) (insert xl froms)"
    using assms(1) sum neq neq [symmetric] c(3)
    unfolding merging_def by (auto simp: dict_upd)
  then show ?thesis using that assms(2) by (simp add: set_xl_def xl_key_def dict_put)
qed

lemma add_count_step:
  assumes "merging q rows n cb s froms" "n + m < 2 ^ 64"
  obtains q' where "add_count (word_of_nat m) (Some q) = Some (0, Some q')" "merging q' rows (n + m) cb s froms"
proof -
  let ?q = "u_dict_set q ''count'' (data_from_uint64 (int (n + m))) True"
  have q: "dict_functional q" "dict_map q ''count'' = Some (data_from_uint64 (int n))" using assms(1) by (auto simp: merging_def)
  have "dict_get_uint64 (Some q) (Some ''count'') = (0, Some (int n))"
    using assms(2) by (intro get_uint64 [OF q]) (simp add: uint_range_def)
  moreover have "uint (word_of_nat n + word_of_nat m :: u64) = int (n + m)"
    unfolding of_nat_add [symmetric] using assms(2) by (simp only: unsigned_of_nat) (simp add: take_bit_nat_eq_self)
  ultimately have "add_count (word_of_nat m) (Some q) = Some (0, Some ?q)" by (simp add: add_count_def dict_put)
  moreover have "merging ?q rows (n + m) cb s froms"
    using assms(1) by (auto simp: merging_def dict_upd dec_str_neq count_sum_other not_count_key from_count_neq from_count_neq [symmetric])
  ultimately show ?thesis by (rule that)
qed

lemma add_comeback_step:
  assumes "merging q rows n cb s froms" "0 \<le> cb" "0 \<le> b" "cb + b < 2 ^ 31"
  obtains q' where "add_comeback b (Some q) = Some (0, Some q')" "merging q' rows n (cb + b) s froms"
proof -
  let ?q = "u_dict_set q ''comeback'' (data_from_int32 (cb + b)) True"
  have q: "dict_functional q" "dict_map q ''comeback'' = Some (data_from_int32 cb)" using assms(1) by (auto simp: merging_def)
  have "dict_get_int32 (Some q) (Some ''comeback'') = (0, Some cb)"
    using assms(2-4) by (intro get_int32 [OF q]) (simp add: int_range_def)
  moreover have "uint (word_of_int (signed_take_bit 31 (cb + b)) :: u64) = cb + b"
    using assms(2-4) by (simp add: signed_take_bit_int_eq_self unsigned_of_int take_bit_int_eq_self del: of_int_add)
  ultimately have "add_comeback b (Some q) = Some (0, Some ?q)"
    by (simp add: add_comeback_def dict_put data_from_uint64_int32)
  moreover have "merging ?q rows n (cb + b) s froms"
    using assms(1) by (auto simp: merging_def dict_upd dec_str_neq count_sum_other not_count_key from_count_neq from_count_neq [symmetric])
  ultimately show ?thesis by (rule that)
qed

lemma other_suffix:
  "\<forall>from. xl @ '':latency'' \<noteq> from @ '':count''" "\<forall>from. xl @ '':dbtime'' \<noteq> from @ '':count''"
  "\<forall>from. xl @ '':ret'' \<noteq> from @ '':count''" "\<forall>from. xl @ '':runtime'' \<noteq> from @ '':count''"
  by (auto dest!: arg_cong [of _ _ rev])

lemma run_reply_updates:
  assumes "merging q rows n cb s froms" "length xl \<le> 55" "xl \<notin> froms" "n + m < 2 ^ 63" "0 \<le> cb" "0 \<le> b" "cb + b < 2 ^ 31"
  obtains q' where "run_updates (reply_updates fp xl latency dbtime (word_of_nat m) b xret runtime) (Some q) = Some (0, Some q')"
    "merging q' rows (n + m) (cb + b) (s + m) (insert xl froms)"
proof -
  have len: "length (xl @ '':latency'') < 64" "length (xl @ '':dbtime'') < 64" "length (xl @ '':ret'') < 64" "length (xl @ '':runtime'') < 64"
    "length xl \<le> 57" "m < 2 ^ 63" "n + m < 2 ^ 64" using assms(2,4) by simp_all
  obtain q1 where 1: "set_xl xl '':latency'' (data_from_double fp latency) (Some q) = Some (0, Some q1)" "merging q1 rows n cb s froms"
    by (rule set_xl_keep [OF assms(1) len(1) _ other_suffix(1)]) simp_all
  obtain q2 where 2: "run_updates (if dbl_positive fp dbtime then [set_xl xl '':dbtime'' (data_from_double fp dbtime)] else []) (Some q1) = Some (0, Some q2)"
    "merging q2 rows n cb s froms"
  proof (cases "dbl_positive fp dbtime")
    case True
    obtain q2 where "set_xl xl '':dbtime'' (data_from_double fp dbtime) (Some q1) = Some (0, Some q2)" "merging q2 rows n cb s froms"
      by (rule set_xl_keep [OF 1(2) len(2) _ other_suffix(2)]) simp_all
    then show ?thesis using that True by simp
  qed (use 1 that in simp)
  obtain q3 where 3: "add_count (word_of_nat m) (Some q2) = Some (0, Some q3)" "merging q3 rows (n + m) cb s froms"
    by (rule add_count_step [OF 2(2) len(7)])
  obtain q4 where 4: "add_comeback b (Some q3) = Some (0, Some q4)" "merging q4 rows (n + m) (cb + b) s froms"
    by (rule add_comeback_step [OF 3(2) assms(5-7)])
  obtain q5 where 5: "set_xl xl '':count'' (data_from_uint64 (int m)) (Some q4) = Some (0, Some q5)"
    "merging q5 rows (n + m) (cb + b) (s + m) (insert xl froms)" by (rule set_xl_count [OF 4(2) len(5) assms(3) len(6)])
  obtain q6 where 6: "set_xl xl '':ret'' (data_from_int32 xret) (Some q5) = Some (0, Some q6)"
    "merging q6 rows (n + m) (cb + b) (s + m) (insert xl froms)" by (rule set_xl_keep [OF 5(2) len(3) _ other_suffix(3)]) simp_all
  obtain q7 where 7: "set_xl xl '':runtime'' (data_from_double fp runtime) (Some q6) = Some (0, Some q7)"
    "merging q7 rows (n + m) (cb + b) (s + m) (insert xl froms)" by (rule set_xl_keep [OF 6(2) len(4) _ other_suffix(4)]) simp_all
  have app: "run_updates (fs @ gs) d = do { (ret, d') \<leftarrow> run_updates fs d; if ret \<noteq> 0 then Some (ret, d') else run_updates gs d' }" for fs gs d
    by (induction fs arbitrary: d) (auto split: bind_splits)
  have "uint (word_of_nat m :: u64) = int m" using len(6) by (simp add: unsigned_of_nat take_bit_nat_eq_self)
  then have "run_updates (reply_updates fp xl latency dbtime (word_of_nat m) b xret runtime) (Some q) = Some (0, Some q7)"
    unfolding reply_updates_def app using 1(1) 2(1) 3(1) 4(1) 5(1) 6(1) 7(1) by simp
  then show ?thesis using that 7(2) by blast
qed

lemma dht_ipc_cbk_merges:
  assumes "page_dict fp x xl rows b" "dict_map x ''runtime'' = Some (data_from_double fp v)" "fp_ok fp"
    and "merged_dict q R cb froms" "length xl \<le> 55" "no_nul xl" "xl \<notin> froms"
    and "length R + length rows < 2 ^ 63" "0 \<le> cb" "0 \<le> b" "b < 2 ^ 31" "cb + b < 2 ^ 31"
    and "di_xdata d = Some q" "di_pos d = word_of_nat (length R)"
  obtains q' where "dht_ipc_cbk fp latency 0 (Some x) d =
      Some (if di_call_cnt d = 1 then Some (Some q') else None,
        d\<lparr>di_xdata := Some q', di_pos := word_of_nat (length (R @ rows)), di_call_cnt := di_call_cnt d - 1\<rparr>)"
    "merged_dict q' (R @ rows) (cb + b) (insert xl froms)"
proof -
  have x: "dict_functional x" "\<forall>k < length rows. dict_map x (dec_str k) = Some (text_data (rows ! k))"
    "dict_map x ''count'' = Some (data_from_uint64 (int (length rows)))" "dict_map x ''ret'' = Some (data_from_int32 0)"
    "dict_map x ''comeback'' = Some (data_from_int32 b)" "dict_map x ''from'' = Some (static_text xl)"
    using assms(1) by (auto simp: page_dict_def)
  have get: "dict_get_uint64 (Some x) (Some ''count'') = (0, Some (int (length rows)))"
    "dict_get_int32 (Some x) (Some ''ret'') = (0, Some 0)" "dict_get_int32 (Some x) (Some ''comeback'') = (0, Some b)"
    "dict_get_str (Some x) (Some ''from'') = (0, Some xl)"
    using assms(6,8,10,11) x by (auto simp: uint_range_def int_range_def static_text_def intro!: get_uint64 get_int32 get_static_str)
  obtain w where rt: "dict_get_double fp (Some x) (Some ''runtime'') = (0, Some w)" by (rule get_double [OF x(1) assms(2,3)])
  obtain r6 dbtime where db: "dict_get_double fp (Some x) (Some ''dbtime'') = (r6, dbtime)" by fastforce
  have q: "merging q R (length R) cb (length R) froms" "dict_functional q" using assms(4) by (auto simp: merged_merging merging_def)
  have "length R + length rows < 2 ^ 64" using assms(8) by simp
  from copy_rows_page [OF x(1,2) this _ q(2), of 0] obtain q1 where
    c: "copy_rows (Some x) (word_of_nat (length rows)) 0 (word_of_nat (length R)) (Some q) = (word_of_nat (length R + length rows), Some q1)"
    "dict_functional q1" "count_sum (dict_alist q1) = count_sum (dict_alist q)"
    and new: "\<forall>k < length rows. dict_map q1 (dec_str (length R + k)) = Some (text_data (rows ! k))"
    and keep: "\<forall>j. (\<forall>k < length rows. j \<noteq> dec_str (length R + k)) \<longrightarrow> dict_map q1 j = dict_map q j" by auto
  have "dict_map q1 (dec_str k) = Some (text_data ((R @ rows) ! k))" if "k < length (R @ rows)" for k
  proof (cases "k < length R")
    case True
    then show ?thesis using keep [rule_format, of "dec_str k"] q(1) by (simp add: dec_str_inj merging_def nth_append)
  next
    case False
    then show ?thesis using new [rule_format, of "k - length R"] that by (simp add: nth_append)
  qed
  moreover have "dict_map q1 (dec_str k) = None" if "length (R @ rows) \<le> k" for k
    using keep [rule_format, of "dec_str k"] q(1) that by (simp add: dec_str_inj merging_def)
  ultimately have "merging q1 (R @ rows) (length R) cb (length R) froms"
    using q(1) c(2,3) keep by (simp add: merging_def dec_str_neq from_count_neq [symmetric])
  from run_reply_updates [OF this assms(5,7,8-10,12)] obtain q' where
    u: "run_updates (reply_updates fp xl latency (case dbtime of Some v \<Rightarrow> v | None \<Rightarrow> 0) (word_of_nat (length rows)) b 0 w) (Some q1) = Some (0, Some q')"
    and q': "merging q' (R @ rows) (length R + length rows) (cb + b) (length R + length rows) (insert xl froms)" by blast
  have "dht_ipc_cbk fp latency 0 (Some x) d =
      Some (if di_call_cnt d = 1 then Some (Some q') else None,
        d\<lparr>di_xdata := Some q', di_pos := word_of_nat (length R + length rows), di_call_cnt := di_call_cnt d - 1\<rparr>)"
    by (simp add: dht_ipc_cbk_def get rt db assms(13,14) c(1) u fmt_s_def dht_ipc_return_def Let_def)
  then show ?thesis using that q' by (simp add: merged_merging)
qed

subsection \<open>The cluster\<close>

text \<open>A request reaches every server of the mask; the replies come back in an order the
  environment chooses.  The translators between the client and the servers pass the
  request and the replies on.\<close>

record cluster_env =
  ce_ipc :: "nat \<Rightarrow> nat \<Rightarrow> ipc_env"
  ce_mem :: "nat \<Rightarrow> nat \<Rightarrow> nat \<Rightarrow> mem_env"
  ce_order :: "nat \<Rightarrow> nat list \<Rightarrow> nat list"
  ce_latency :: "nat \<Rightarrow> nat \<Rightarrow> dbl"

record ('c, 'o) cluster =
  cl_servers :: "('c ipc_state \<times> 'o) list"
  cl_round :: nat

fun serve_replies ::
  "fp_lib \<Rightarrow> 'c sqlite3 \<Rightarrow> 'o os \<Rightarrow> cluster_env \<Rightarrow> dict_t option \<Rightarrow> nat list \<Rightarrow> dict_t option option \<Rightarrow> dht_ipc_data \<Rightarrow> ('c, 'o) cluster \<Rightarrow>
   (dict_t option option \<times> ('c, 'o) cluster) option" where
  "serve_replies fp E os ce cmd [] unwind d w = Some (unwind, w)"
| "serve_replies fp E os ce cmd (i # is) unwind d w = do {
     let (st, ost) = cl_servers w ! i;
     (case ims_ipc fp E os (ce_ipc ce (cl_round w) i) (ce_mem ce (cl_round w) i) IMESS_IPC_OP cmd st ost of
        Inl _ \<Rightarrow> None
      | Inr reply \<Rightarrow> do {
          (op_ret, _, xdata, st, ost) \<leftarrow> reply;
          (unwind, d) \<leftarrow> dht_ipc_cbk fp (ce_latency ce (cl_round w) i) op_ret xdata d;
          serve_replies fp E os ce cmd is unwind d (w\<lparr>cl_servers := (cl_servers w)[i := (st, ost)]\<rparr>)
        })
   }"

text \<open>\<open>None\<close> also stands for a request that is never answered.\<close>

definition cluster_ipc ::
  "fp_lib \<Rightarrow> 'c sqlite3 \<Rightarrow> 'o os \<Rightarrow> cluster_env \<Rightarrow> ('c, 'o) cluster glfs_ipc" where
  "cluster_ipc fp E os ce cmd w = do {
     r \<leftarrow> dht_ipc (length (cl_servers w)) cmd;
     (case r of
        Inl _ \<Rightarrow> None
      | Inr (d, targets) \<Rightarrow> do {
          (unwind, w) \<leftarrow> serve_replies fp E os ce cmd (ce_order ce (cl_round w) targets) None d w;
          result \<leftarrow> unwind;
          Some (0, result, w\<lparr>cl_round := Suc (cl_round w)\<rparr>)
        })
   }"

text \<open>The servers can answer a query with the given rows, server \<open>i\<close> from row \<open>offs i\<close> on.\<close>

definition cluster_from ::
  "fp_lib \<Rightarrow> 'c sqlite3 \<Rightarrow> cluster_env \<Rightarrow> string \<Rightarrow> string \<Rightarrow> string list list \<Rightarrow> string list \<Rightarrow> (nat \<Rightarrow> nat) \<Rightarrow> ('c, 'o) cluster \<Rightarrow> bool" where
  "cluster_from fp E ce session sql rowss froms offs w \<longleftrightarrow>
     length (cl_servers w) = length rowss \<and> length froms = length rowss \<and>
     (\<forall>i < length rowss. can_answer fp E session sql (rowss ! i) (offs i) (fst (cl_servers w ! i)) \<and>
        (\<forall>j. ipc_identity (ie_host (ce_ipc ce j i)) (pv_db_path (ip_priv (fst (cl_servers w ! i)))) = Some (froms ! i)))"

definition cluster_ok ::
  "fp_lib \<Rightarrow> 'c sqlite3 \<Rightarrow> cluster_env \<Rightarrow> string \<Rightarrow> string \<Rightarrow> string list list \<Rightarrow> string list \<Rightarrow> ('c, 'o) cluster \<Rightarrow> bool" where
  "cluster_ok fp E ce session sql rowss froms w \<longleftrightarrow> cluster_from fp E ce session sql rowss froms (\<lambda>_. 0) w"

lemma cluster_from_mono:
  "cluster_from fp E ce session sql rowss froms offs w \<Longrightarrow> (\<And>i. offs i \<le> offs' i) \<Longrightarrow>
   cluster_from fp E ce session sql rowss froms offs' w"
  unfolding cluster_from_def using can_answer_mono by blast

definition env_ok :: "cluster_env \<Rightarrow> bool" where
  "env_ok ce \<longleftrightarrow> (\<forall>j i. (\<exists>r. ie_new (ce_ipc ce j i) = Some r \<and> r < 2 ^ 64) \<and> ie_out (ce_ipc ce j i)) \<and>
     (\<forall>j ts. mset (ce_order ce j ts) = mset ts)"

definition names_ok :: "string list \<Rightarrow> bool" where
  "names_ok froms \<longleftrightarrow> distinct froms \<and> (\<forall>f \<in> set froms. length f \<le> 55 \<and> no_nul f)"

definition pages :: "nat \<Rightarrow> nat \<Rightarrow> string list list \<Rightarrow> nat list \<Rightarrow> string list" where
  "pages off cnt rowss is = concat (map (\<lambda>i. page off cnt (rowss ! i)) is)"

definition comebacks :: "nat \<Rightarrow> nat \<Rightarrow> 'a list list \<Rightarrow> nat list \<Rightarrow> int" where
  "comebacks off cnt rowss is = sum_list (map (\<lambda>i. comeback_for off cnt (rowss ! i)) is)"

lemma comeback_bounds: "0 \<le> comeback_for off cnt rows" "comeback_for off cnt rows \<le> 1"
  by (simp_all add: comeback_for_def)

lemma comebacks_nonneg: "0 \<le> comebacks off cnt rowss is"
  by (auto simp: comebacks_def comeback_for_def intro!: sum_list_nonneg)

lemma comebacks_le: "comebacks off cnt rowss is \<le> int (length is)"
  by (induction "is") (auto simp: comebacks_def comeback_for_def)

lemma serve_replies_merge:
  assumes "cluster_from fp E ce session sql rowss froms offs w" "env_ok ce" "names_ok froms" "session_ok session" "fp_ok fp"
    and "cmd_dict cmd session sql off cnt" "off + cnt < 2 ^ 63" "\<forall>rows \<in> set rowss. length rows < 2 ^ 63"
    and "distinct is" "set is \<subseteq> {..<length rowss}" "merged_dict q R cb (nth froms ` A)" "A \<inter> set is = {}" "A \<subseteq> {..<length rowss}"
    and "length R + length (pages off cnt rowss is) < 2 ^ 63" "0 \<le> cb" "cb + int (length is) < 2 ^ 31"
    and "di_xdata d = Some q" "di_pos d = word_of_nat (length R)" "di_call_cnt d = int (length is)"
    and "is = [] \<longrightarrow> unwind = Some (Some q)" "\<forall>i \<in> set is. offs i \<le> off" "\<forall>i. offs i \<le> off + cnt"
  shows "\<exists>q' w'. serve_replies fp E os ce (Some cmd) is unwind d w = Some (Some (Some q'), w') \<and>
    merged_dict q' (R @ pages off cnt rowss is) (cb + comebacks off cnt rowss is) (nth froms ` (A \<union> set is)) \<and>
    cluster_from fp E ce session sql rowss froms (\<lambda>_. off + cnt) w' \<and> cl_round w' = cl_round w"
  using assms(1,9-22)
proof (induction "is" arbitrary: q R cb A d w unwind offs)
  case Nil
  then show ?case using cluster_from_mono [of fp E ce session sql rowss froms offs w "\<lambda>_. off + cnt"]
    by (simp add: pages_def comebacks_def)
next
  case (Cons i "is")
  let ?env = "ce_ipc ce (cl_round w) i" and ?st = "fst (cl_servers w ! i)" and ?ost = "snd (cl_servers w ! i)"
  have i: "i < length rowss" "i \<notin> set is" "i \<notin> A" using Cons.prems by auto
  obtain r where env: "ie_new ?env = Some r" "r < 2 ^ 64" "ie_out ?env" using assms(2) unfolding env_ok_def by metis
  have "offs i \<le> off" using Cons.prems(14) by simp
  then have srv: "can_answer fp E session sql (rowss ! i) off ?st" "ipc_identity (ie_host ?env) (pv_db_path (ip_priv ?st)) = Some (froms ! i)"
    and len: "length (cl_servers w) = length rowss" "length froms = length rowss"
    using Cons.prems(1) i by (auto simp: cluster_from_def intro: can_answer_mono)
  have small: "length (rowss ! i) < 2 ^ 63" using assms(8) i by simp
  obtain x st' where ipc: "ims_ipc fp E os ?env (ce_mem ce (cl_round w) i) IMESS_IPC_OP (Some cmd) ?st ?ost = Inr (Some (0, 0, Some x, st', ?ost))"
    and x: "page_dict fp x (froms ! i) (page off cnt (rowss ! i)) (comeback_for off cnt (rowss ! i))"
    and rt: "\<exists>v. dict_map x ''runtime'' = Some (data_from_double fp v)"
    and st': "holds_result fp session (rowss ! i) (off + cnt) st'" "pv_db_path (ip_priv st') = pv_db_path (ip_priv ?st)"
    by (rule ims_ipc_answer [OF srv(1) assms(4,5,7) small assms(6) env srv(2)])
  obtain v where v: "dict_map x ''runtime'' = Some (data_from_double fp v)" using rt by blast
  have name: "length (froms ! i) \<le> 55" "no_nul (froms ! i)" "froms ! i \<notin> nth froms ` A"
    using assms(3) i len Cons.prems(6) by (auto simp: names_ok_def nth_eq_iff_index_eq subset_iff)
  have bound: "length R + length (page off cnt (rowss ! i)) < 2 ^ 63" "comeback_for off cnt (rowss ! i) < 2 ^ 31"
    "cb + comeback_for off cnt (rowss ! i) < 2 ^ 31"
    using Cons.prems(7,9) comeback_bounds(2) [of off cnt "rowss ! i"] by (simp_all add: pages_def)
  obtain q1 where cbk: "dht_ipc_cbk fp (ce_latency ce (cl_round w) i) 0 (Some x) d =
      Some (if di_call_cnt d = 1 then Some (Some q1) else None,
        d\<lparr>di_xdata := Some q1, di_pos := word_of_nat (length (R @ page off cnt (rowss ! i))), di_call_cnt := di_call_cnt d - 1\<rparr>)"
    and q1: "merged_dict q1 (R @ page off cnt (rowss ! i)) (cb + comeback_for off cnt (rowss ! i)) (insert (froms ! i) (nth froms ` A))"
    by (rule dht_ipc_cbk_merges [OF x v assms(5) Cons.prems(4) name bound(1) Cons.prems(8) comeback_bounds(1) bound(2,3) Cons.prems(10,11)])
  let ?w = "w\<lparr>cl_servers := (cl_servers w)[i := (st', ?ost)]\<rparr>"
  let ?d = "d\<lparr>di_xdata := Some q1, di_pos := word_of_nat (length (R @ page off cnt (rowss ! i))), di_call_cnt := di_call_cnt d - 1\<rparr>"
  let ?u = "if di_call_cnt d = 1 then Some (Some q1) else None"
  have w: "cluster_from fp E ce session sql rowss froms (offs(i := off + cnt)) ?w"
    using Cons.prems(1) st' len i by (auto simp: cluster_from_def nth_list_update can_answer_def)
  have "\<exists>q' w'. serve_replies fp E os ce (Some cmd) is ?u ?d ?w = Some (Some (Some q'), w') \<and>
    merged_dict q' ((R @ page off cnt (rowss ! i)) @ pages off cnt rowss is) ((cb + comeback_for off cnt (rowss ! i)) + comebacks off cnt rowss is)
      (nth froms ` (insert i A \<union> set is)) \<and>
    cluster_from fp E ce session sql rowss froms (\<lambda>_. off + cnt) w' \<and> cl_round w' = cl_round ?w"
  proof (rule Cons.IH [OF w])
    show "merged_dict q1 (R @ page off cnt (rowss ! i)) (cb + comeback_for off cnt (rowss ! i)) (nth froms ` insert i A)" using q1 by simp
    show "length (R @ page off cnt (rowss ! i)) + length (pages off cnt rowss is) < 2 ^ 63" using Cons.prems(7) by (simp add: pages_def)
    show "cb + comeback_for off cnt (rowss ! i) + int (length is) < 2 ^ 31"
      using Cons.prems(9) comeback_bounds(2) [of off cnt "rowss ! i"] by simp
  qed (use Cons.prems comeback_bounds(1) [of off cnt "rowss ! i"] i in auto)
  then show ?case using ipc cbk by (simp add: case_prod_beta pages_def comebacks_def add.assoc)
qed

definition mask_targets :: "byte list \<Rightarrow> nat \<Rightarrow> nat list" where
  "mask_targets m n = filter (\<lambda>i. m ! i \<noteq> 0) [0..<n]"

lemma mset_pages: "mset (pages off cnt rowss is) = (\<Sum>i \<in># mset is. mset (page off cnt (rowss ! i)))"
  by (simp add: pages_def mset_concat comp_def flip: sum_mset_sum_list)

lemma length_pages: "length (pages off cnt rowss is) = (\<Sum>i \<in># mset is. length (page off cnt (rowss ! i)))"
  by (simp add: pages_def length_concat comp_def flip: sum_mset_sum_list)

lemma empty_merged:
  "merged_dict (u_dict_set (u_dict_set dict_new ''count'' (data_from_uint64 0) True) ''comeback'' (data_from_int32 0) True) [] 0 {}"
proof -
  let ?d = "u_dict_set dict_new ''count'' (data_from_uint64 0) True"
  have d: "dict_functional ?d" by (simp add: dict_upd)
  have "count_sum (dict_alist (u_dict_set ?d ''comeback'' (data_from_int32 0) True)) = count_sum (dict_alist ?d)"
    by (rule count_sum_other [OF d not_count_key(3)])
  also have "\<dots> = count_sum (dict_alist dict_new)" by (rule count_sum_other [OF dict_functional_new not_count_key(2)])
  also have "\<dots> = 0" by (simp add: count_sum_def)
  finally show ?thesis using d
    by (simp add: merged_dict_def dict_upd dec_str_neq from_count_neq [symmetric])
qed

lemma cluster_round:
  assumes "cluster_from fp E ce session sql rowss froms (\<lambda>_. off) w" "env_ok ce" "names_ok froms" "session_ok session" "fp_ok fp"
    and "cmd_dict cmd session sql off cnt" "off + cnt < 2 ^ 63" "\<forall>rows \<in> set rowss. length rows < 2 ^ 63"
    and "dict_map cmd ''cmask'' = Some v" "data_data v = Some m" "length rowss \<le> length m" "length rowss < 2 ^ 31"
    and "mask_targets m (length rowss) \<noteq> []" "(\<Sum>i \<in># mset (mask_targets m (length rowss)). length (page off cnt (rowss ! i))) < 2 ^ 63"
  obtains q w' "is" where "cluster_ipc fp E os ce (Some cmd) w = Some (0, Some q, w')"
    "mset is = mset (mask_targets m (length rowss))"
    "merged_dict q (pages off cnt rowss is) (comebacks off cnt rowss is) (nth froms ` set is)"
    "cluster_from fp E ce session sql rowss froms (\<lambda>_. off + cnt) w'"
proof -
  let ?T = "mask_targets m (length rowss)"
  let ?q = "u_dict_set (u_dict_set dict_new ''count'' (data_from_uint64 0) True) ''comeback'' (data_from_int32 0) True"
  let ?d = "\<lparr>di_xdata = Some ?q, di_pos = 0, di_call_cnt = int (length ?T)\<rparr>"
  define os' where "os' = ce_order ce (cl_round w) ?T"
  have ms: "mset os' = mset ?T" using assms(2) unfolding os'_def env_ok_def by blast
  then have set: "set os' = set ?T" "length os' = length ?T" "distinct os'"
    using mset_eq_setD [OF ms] mset_eq_length [OF ms] mset_eq_imp_distinct_iff [OF ms] by (simp_all add: mask_targets_def)
  have len: "length os' \<le> length rowss" using set(2) by (simp add: mask_targets_def) (metis length_filter_le length_upt minus_nat.diff_0)
  have cl: "length (cl_servers w) = length rowss" using assms(1) by (simp add: cluster_from_def)
  have "dict_functional cmd" using assms(6) by (simp add: cmd_dict_def)
  then have "dict_get_bin (Some cmd) (Some ''cmask'') = (0, Some m)"
    using assms(9,10) by (simp add: dict_get_bin_def dict_get_with_ref_map dict_functional_ok)
  then have dht: "dht_ipc (length (cl_servers w)) (Some cmd) = Some (Inr (?d, ?T))"
    using assms(11) by (simp add: dht_ipc_def cl dict_put mask_targets_def Let_def)
  have "\<exists>q' w'. serve_replies fp E os ce (Some cmd) os' None ?d w = Some (Some (Some q'), w') \<and>
    merged_dict q' ([] @ pages off cnt rowss os') (0 + comebacks off cnt rowss os') (nth froms ` ({} \<union> set os')) \<and>
    cluster_from fp E ce session sql rowss froms (\<lambda>_. off + cnt) w' \<and> cl_round w' = cl_round w"
  proof (rule serve_replies_merge [OF assms(1-8)])
    show "merged_dict ?q [] 0 (nth froms ` {})" using empty_merged by simp
    show "length [] + length (pages off cnt rowss os') < 2 ^ 63" using assms(14) by (simp add: length_pages ms)
    show "0 + int (length os') < 2 ^ 31" using len assms(12) by simp
    show "set os' \<subseteq> {..<length rowss}" using set(1) by (auto simp: mask_targets_def)
  qed (use set assms(13) in auto)
  then obtain q w' where "serve_replies fp E os ce (Some cmd) os' None ?d w = Some (Some (Some q), w')"
    and q: "merged_dict q (pages off cnt rowss os') (comebacks off cnt rowss os') (nth froms ` set os')"
    and w': "cluster_from fp E ce session sql rowss froms (\<lambda>_. off + cnt) w'" by auto
  then have "cluster_ipc fp E os ce (Some cmd) w = Some (0, Some q, w'\<lparr>cl_round := Suc (cl_round w')\<rparr>)"
    by (simp add: cluster_ipc_def dht os'_def)
  then show ?thesis using that [OF _ ms q] w' by (simp add: cluster_from_def)
qed

subsection \<open>The client\<close>

lemma sql_query_sends:
  assumes "q_session_id query = Some session" "q_sql query = Some sql" "q_offset query = word_of_nat off" "q_count query = word_of_nat cnt"
    and "off < 2 ^ 64" "cnt < 2 ^ 64" "no_nul session" "no_nul sql" "0 < active_clients ctl"
  obtains cmd v where "cmd_dict cmd session sql off cnt" "dict_map cmd ''cmask'' = Some v" "data_data v = Some (cli_mask ctl)"
    "ixsql_sql_query ipc ctl query w = do {
       (ret, result, w) \<leftarrow> ipc (Some cmd) w;
       if ret \<noteq> 0 then Some (ret, ctl, query, w) else Some (ret, ctl, query\<lparr>q_result := result\<rparr>, w) }"
proof -
  have u: "uint (word_of_nat off :: u64) = int off" "uint (word_of_nat cnt :: u64) = int cnt"
    using assms(5,6) by (simp_all add: unsigned_of_nat take_bit_nat_eq_self)
  define v where "v = the (bin_to_data (Some (cli_mask ctl)) (int (num_clients ctl)))
    \<lparr>data_data := Some (cli_mask ctl), data_len := int (num_clients ctl), is_static := True\<rparr>"
  define cmd where "cmd = u_dict_set (u_dict_set (u_dict_set (u_dict_set (u_dict_set (u_dict_set dict_new ''type'' (static_text ''query'') True)
    ''session'' (static_text session) True) ''sql'' (static_text sql) True) ''offset'' (data_from_uint64 (int off)) True)
    ''count'' (data_from_uint64 (int cnt)) True) ''cmask'' v True"
  have "cmd_dict cmd session sql off cnt" "dict_map cmd ''cmask'' = Some v"
    using assms(7,8) by (simp_all add: cmd_def cmd_dict_def dict_upd)
  moreover have "data_data v = Some (cli_mask ctl)" by (simp add: v_def)
  moreover have "ixsql_sql_query ipc ctl query w = do {
       (ret, result, w) \<leftarrow> ipc (Some cmd) w;
       if ret \<noteq> 0 then Some (ret, ctl, query, w) else Some (ret, ctl, query\<lparr>q_result := result\<rparr>, w) }"
    using assms(1-4,9)
    by (simp add: ixsql_sql_query_def Let_def dict_put u dict_set_static_bin_def bin_to_data_def cmd_def v_def flip: static_text_def)
  ultimately show ?thesis by (rule that)
qed

lemma print_rows:
  assumes "merged_dict q rows cb froms" "\<forall>r \<in> set rows. r \<noteq> [] \<and> no_nul r" "length rows \<le> n" "n < 2 ^ 64" "i \<le> length rows"
  shows "\<exists>ret. print_query_result (Some q) (word_of_nat n) (word_of_nat i) ctl =
    Some (ret, put_out (concat (map (the \<circ> row_line) (drop i rows))) ctl)"
  using assms(5)
proof (induction "length rows - i" arbitrary: i ctl)
  case 0
  then have i: "i = length rows" by simp
  have "i < 2 ^ LENGTH(64)" "n < 2 ^ LENGTH(64)" using assms(3,4) i by simp_all
  note w = this [THEN unat_of_nat_id]
  have "dict_get_str (Some q) (Some (dec_str i)) = (- ENOENT, None)"
    using assms(1) i by (intro get_str_missing) (simp_all add: merged_dict_def)
  then show ?case by (subst print_query_result.simps) (simp add: w put_out_def i [symmetric])
next
  case (Suc m)
  then have i: "i < length rows" by simp
  have "i < 2 ^ LENGTH(64)" "n < 2 ^ LENGTH(64)" using assms(3,4) i by simp_all
  note w = this [THEN unat_of_nat_id]
  have row: "rows ! i \<noteq> []" "no_nul (rows ! i)" using assms(2) i by simp_all
  have "dict_get_str (Some q) (Some (dec_str i)) = (0, Some (rows ! i))"
    using assms(1) i row by (intro get_str) (simp_all add: merged_dict_def)
  moreover obtain l where l: "row_line (rows ! i) = Some l" using row(1) by (simp add: row_line_def)
  moreover have "word_of_nat (Suc i) = word_of_nat i + (1 :: u64)" by simp
  ultimately have step: "print_query_result (Some q) (word_of_nat n) (word_of_nat i) ctl =
      print_query_result (Some q) (word_of_nat n) (word_of_nat (Suc i)) (put_out l ctl)"
    using i assms(3) by (subst print_query_result.simps) (simp add: w word_less_nat_alt del: of_nat_Suc)
  have "m = length rows - Suc i" "Suc i \<le> length rows" using Suc.hyps(2) i by linarith+
  from Suc.hyps(1) [OF this] obtain ret where "print_query_result (Some q) (word_of_nat n) (word_of_nat (Suc i)) (put_out l ctl) =
    Some (ret, put_out (concat (map (the \<circ> row_line) (drop (Suc i) rows))) (put_out l ctl))" by blast
  then show ?case using i l by (simp only: step) (simp add: put_out_def Cons_nth_drop_Suc [symmetric])
qed

lemma to_int32_nat: "n < 2 ^ 31 \<Longrightarrow> to_int32 (int n) = int n"
  by (simp add: to_int32_def signed_take_bit_int_eq_self)

lemma foreach_nonzero:
  "\<exists>(k, v) \<in> set ps. match k v \<Longrightarrow> 0 \<le> c \<Longrightarrow> fst (foreach_loop match action ps c s) \<noteq> 0"
proof (induction ps arbitrary: c s)
  case (Cons p ps)
  have pos: "0 < c \<Longrightarrow> fst (foreach_loop match action ps c s) \<noteq> 0" for c s
    by (induction ps arbitrary: c s) (auto split: prod.splits if_splits)
  obtain k v where p: "p = (k, v)" by (cases p)
  show ?case
  proof (cases "match k v")
    case True
    then show ?thesis using Cons.prems(2) pos by (auto simp: p split: prod.splits if_splits)
  next
    case False
    then show ?thesis using Cons by (auto simp: p)
  qed
qed simp

lemma merged_has_count:
  assumes "merged_dict q rows cb froms" "f \<in> froms"
  shows "\<exists>(k, v) \<in> set (dict_alist q). count_key k \<and> fnmatch ''*:*'' k"
proof -
  obtain v where "dict_map q (f @ '':count'') = Some v" using assms unfolding merged_dict_def by blast
  then have mem: "(f @ '':count'', v) \<in> set (dict_alist q)" using assms(1) by (simp add: dict_map_mem merged_dict_def)
  have "fnmatch '':*'' '':count''" by simp
  then have "fnmatch ''*:*'' (f @ '':count'')" unfolding fnmatch_star by blast
  moreover have "count_key (f @ '':count'')" by (auto simp: count_key_iff)
  ultimately show ?thesis using mem by blast
qed

text \<open>What the whole query gives, from offset \<open>off\<close> on.\<close>

definition rest_rows :: "nat \<Rightarrow> string list list \<Rightarrow> nat list \<Rightarrow> string multiset" where
  "rest_rows off rowss ts = (\<Sum>i \<in># mset ts. mset (drop off (rowss ! i)))"

lemma rest_rows_page: "rest_rows off rowss ts = (\<Sum>i \<in># mset ts. mset (page off cnt (rowss ! i))) + rest_rows (off + cnt) rowss ts"
proof -
  have "mset (drop off xs) = mset (page off cnt xs) + mset (drop (off + cnt) xs)" for xs :: "string list"
    by (metis append_take_drop_id drop_drop mset_append page_def add.commute)
  then show ?thesis by (simp add: rest_rows_def sum_mset.distrib)
qed

lemma comebacks_zero: "comebacks off cnt rowss is = 0 \<longleftrightarrow> (\<forall>i \<in> set is. length (rowss ! i) \<le> off + cnt)"
proof (induction "is")
  case (Cons i "is")
  then show ?case using comebacks_nonneg [of off cnt rowss "is"] by (auto simp: comebacks_def comeback_for_def)
qed (simp add: comebacks_def)

lemma size_sum_mset: "size (\<Sum>i \<in># M. (f i :: 'b multiset)) = (\<Sum>i \<in># M. size (f i))"
  by (induction M) auto

lemma sliced_round:
  assumes env: "env_ok ce" "names_ok froms" "session_ok session" "fp_ok fp" "no_nul session" "no_nul sql"
    and rows: "\<forall>rows \<in> set rowss. \<forall>r \<in> set rows. r \<noteq> [] \<and> no_nul r"
    and size: "\<forall>rows \<in> set rowss. length rows + cnt < 2 ^ 31" "length rowss < 2 ^ 31" "c0 + size (rest_rows off rowss ts) < 2 ^ 63"
    and ts: "ts = mask_targets (cli_mask ctl) (length rowss)" "ts \<noteq> []" "length rowss \<le> length (cli_mask ctl)"
    and ctl: "0 < active_clients ctl" "\<not> c_mute ctl"
    and w: "cluster_from fp E ce session sql rowss froms (\<lambda>_. off) w" and off: "off + cnt < 2 ^ 31"
  obtains "is" w' query' where "mset is = mset ts" "cluster_from fp E ce session sql rowss froms (\<lambda>_. off + cnt) w'"
    "sliced_loop fp (cluster_ipc fp E os ce) (Some sql) session (int cnt) verbose (int off) (word_of_nat c0) query ctl w =
     (let ctl' = put_out (concat (map (the \<circ> row_line) (pages off cnt rowss is))) ctl in
      if 0 < comebacks off cnt rowss is
      then sliced_loop fp (cluster_ipc fp E os ce) (Some sql) session (int cnt) verbose (int (off + cnt))
        (word_of_nat (c0 + length (pages off cnt rowss is))) query' ctl' w'
      else Some (0, ctl', w'))"
proof -
  let ?ipc = "cluster_ipc fp E os ce"
  let ?q = "query\<lparr>q_offset := word_of_nat off, q_count := word_of_nat cnt, q_session_id := Some session, q_sql := Some sql\<rparr>"
  have bounds: "off < 2 ^ 64" "cnt < 2 ^ 64" "off + cnt < 2 ^ 63" using off by simp_all
  obtain cmd v where cmd: "cmd_dict cmd session sql off cnt" "dict_map cmd ''cmask'' = Some v" "data_data v = Some (cli_mask ctl)"
    and send: "ixsql_sql_query ?ipc ctl ?q w = do { (ret, result, w) \<leftarrow> ?ipc (Some cmd) w;
       if ret \<noteq> 0 then Some (ret, ctl, ?q, w) else Some (ret, ctl, ?q\<lparr>q_result := result\<rparr>, w) }"
    by (rule sql_query_sends [of ?q session sql off cnt, OF _ _ _ _ bounds(1,2) env(5,6) ctl(1)]) simp_all
  have "size (rest_rows off rowss ts) = (\<Sum>i \<in># mset ts. length (page off cnt (rowss ! i))) + size (rest_rows (off + cnt) rowss ts)"
    by (subst rest_rows_page [of _ _ _ cnt]) (simp add: size_sum_mset image_mset.compositionality comp_def)
  then have small: "c0 + (\<Sum>i \<in># mset ts. length (page off cnt (rowss ! i))) < 2 ^ 63" using size(3) by simp
  have "\<forall>rows \<in> set rowss. length rows < 2 ^ 63" using size(1) by fastforce
  moreover have "(\<Sum>i \<in># mset (mask_targets (cli_mask ctl) (length rowss)). length (page off cnt (rowss ! i))) < 2 ^ 63" using small ts(1) by simp
  moreover have "mask_targets (cli_mask ctl) (length rowss) \<noteq> []" using ts by simp
  ultimately obtain q w' "is" where round: "?ipc (Some cmd) w = Some (0, Some q, w')" and "is": "mset is = mset ts"
    and q: "merged_dict q (pages off cnt rowss is) (comebacks off cnt rowss is) (nth froms ` set is)"
    and w': "cluster_from fp E ce session sql rowss froms (\<lambda>_. off + cnt) w'"
    using cluster_round [OF w env(1-4) cmd(1) bounds(3) _ cmd(2,3) ts(3) size(2)] ts(1) by metis
  have set: "set is = set ts" "length is = length ts" using mset_eq_setD [OF "is"] mset_eq_length [OF "is"] by simp_all
  have n: "c0 + length (pages off cnt rowss is) < 2 ^ 63" using small "is" by (simp add: length_pages)
  let ?n = "c0 + length (pages off cnt rowss is)"
  have sum: "word_of_nat c0 + count_sum (dict_alist q) = word_of_nat ?n" using q by (simp add: merged_dict_def)
  obtain i where "i \<in> set is" using set(1) ts(2) by (cases ts) auto
  from merged_has_count [OF q imageI [OF this]] have keys: "\<exists>(k, v) \<in> set (dict_alist q). count_key k \<and> fnmatch ''*:*'' k" .
  then have "filter (\<lambda>(k, v). count_key k) (dict_alist q) \<noteq> []" by (auto simp: filter_empty_conv)
  then have cf: "dict_foreach_fnmatch (Some q) ''*:count'' process_result_count_fn (word_of_nat c0) = (int (length (filter (\<lambda>(k, v). count_key k) (dict_alist q))), word_of_nat ?n)"
    "int (length (filter (\<lambda>(k, v). count_key k) (dict_alist q))) \<noteq> 0" using sum by (simp_all add: count_foreach)
  have vf: "fst (dict_foreach_fnmatch (Some q) ''*:*'' (process_metadata_fn fp (Some q)) ()) \<noteq> 0"
    unfolding dict_foreach_fnmatch_def dict_foreach_match_def option.case using keys
    by (intro foreach_nonzero) (auto simp: dict_fnmatch_def)
  have "set is \<subseteq> {..<length rowss}" using set(1) ts(1) by (auto simp: mask_targets_def)
  then have pr: "\<forall>r \<in> set (pages off cnt rowss is). r \<noteq> [] \<and> no_nul r"
    using rows by (fastforce simp: pages_def page_def dest: in_set_takeD in_set_dropD)
  have "length (pages off cnt rowss is) \<le> ?n" "?n < 2 ^ 64" using n by simp_all
  from print_rows [OF q pr this, of 0 ctl] obtain ret where
    print: "print_query_result (Some q) (word_of_nat ?n) 0 ctl = Some (ret, put_out (concat (map (the \<circ> row_line) (pages off cnt rowss is))) ctl)"
    by auto
  have "length is \<le> length rowss" using set(2) ts(1) by (simp add: mask_targets_def) (metis length_filter_le length_upt minus_nat.diff_0)
  then have "int_range 32 (comebacks off cnt rowss is)"
    using comebacks_nonneg [of off cnt rowss "is"] comebacks_le [of off cnt rowss "is"] size(2) by (simp add: int_range_def)
  then have cb: "dict_get_int32 (Some q) (Some ''comeback'') = (0, Some (comebacks off cnt rowss is))"
    using q by (intro get_int32) (simp_all add: merged_dict_def)
  have i32: "to_int32 (int off + int cnt) = int (off + cnt)" using to_int32_nat [OF off] by simp
  show ?thesis
  proof (rule that [OF "is" w'])
    show "sliced_loop fp ?ipc (Some sql) session (int cnt) verbose (int off) (word_of_nat c0) query ctl w =
     (let ctl' = put_out (concat (map (the \<circ> row_line) (pages off cnt rowss is))) ctl in
      if 0 < comebacks off cnt rowss is
      then sliced_loop fp ?ipc (Some sql) session (int cnt) verbose (int (off + cnt)) (word_of_nat ?n) (?q\<lparr>q_result := Some q\<rparr>) ctl' w'
      else Some (0, ctl', w'))"
      by (subst sliced_loop.simps) (use cf(2) vf in \<open>simp add: send round cf(1) ctl(2) print cb i32 Let_def del: of_nat_add\<close>)
  qed
qed

lemma sliced_all:
  assumes env: "env_ok ce" "names_ok froms" "session_ok session" "fp_ok fp" "no_nul session" "no_nul sql"
    and rows: "\<forall>rows \<in> set rowss. \<forall>r \<in> set rows. r \<noteq> [] \<and> no_nul r"
    and size: "\<forall>rows \<in> set rowss. length rows + cnt < 2 ^ 31" "length rowss < 2 ^ 31"
    and cnt: "0 < cnt" and ts: "ts \<noteq> []"
    and "ts = mask_targets (cli_mask ctl) (length rowss)" "length rowss \<le> length (cli_mask ctl)"
    and "0 < active_clients ctl" "\<not> c_mute ctl" "cluster_from fp E ce session sql rowss froms (\<lambda>_. off) w"
    and "\<exists>rows \<in> set rowss. off \<le> length rows" "c0 + size (rest_rows off rowss ts) < 2 ^ 63"
  shows "\<exists>w' out. sliced_loop fp (cluster_ipc fp E os ce) (Some sql) session (int cnt) verbose (int off) (word_of_nat c0) query ctl w =
      Some (0, put_out (concat (map (the \<circ> row_line) out)) ctl, w') \<and> mset out = rest_rows off rowss ts"
  using assms(12-18)
proof (induction "Max (length ` set rowss) - off" arbitrary: off c0 query ctl w rule: less_induct)
  case less
  let ?ipc = "cluster_ipc fp E os ce"
  have off: "off + cnt < 2 ^ 31" using less.prems(6) size(1) by fastforce
  obtain "is" w' query' where "is": "mset is = mset ts" and w': "cluster_from fp E ce session sql rowss froms (\<lambda>_. off + cnt) w'"
    and run: "sliced_loop fp ?ipc (Some sql) session (int cnt) verbose (int off) (word_of_nat c0) query ctl w =
     (let ctl' = put_out (concat (map (the \<circ> row_line) (pages off cnt rowss is))) ctl in
      if 0 < comebacks off cnt rowss is
      then sliced_loop fp ?ipc (Some sql) session (int cnt) verbose (int (off + cnt))
        (word_of_nat (c0 + length (pages off cnt rowss is))) query' ctl' w'
      else Some (0, ctl', w'))"
    by (rule sliced_round [OF env rows size less.prems(7,1) ts less.prems(2-5) off])
  let ?ctl = "put_out (concat (map (the \<circ> row_line) (pages off cnt rowss is))) ctl"
  have split: "rest_rows off rowss ts = mset (pages off cnt rowss is) + rest_rows (off + cnt) rowss ts"
    by (subst rest_rows_page [of _ _ _ cnt]) (simp add: mset_pages "is")
  have sub: "i < length rowss" if "i \<in> set is" for i
    using that mset_eq_setD [OF "is"] less.prems(1) by (auto simp: mask_targets_def)
  show ?case
  proof (cases "0 < comebacks off cnt rowss is")
    case False
    then have "comebacks off cnt rowss is = 0" using comebacks_nonneg [of off cnt rowss "is"] by simp
    then have "\<forall>i \<in># mset ts. drop (off + cnt) (rowss ! i) = []" using "is" by (auto simp: comebacks_zero simp flip: set_mset_mset)
    then have "rest_rows (off + cnt) rowss ts = {#}" unfolding rest_rows_def by (intro sum_mset.neutral) auto
    then show ?thesis using run False split by (intro exI [of _ w'] exI [of _ "pages off cnt rowss is"]) simp
  next
    case True
    then obtain i where i: "i \<in> set is" "off + cnt < length (rowss ! i)"
      using comebacks_zero [of off cnt rowss "is"] by (metis less_irrefl not_le)
    have mem: "rowss ! i \<in> set rowss" using sub [OF i(1)] by simp
    then have "length (rowss ! i) \<le> Max (length ` set rowss)" by simp
    then have dec: "Max (length ` set rowss) - (off + cnt) < Max (length ` set rowss) - off" using i(2) cnt by linarith
    have "\<exists>rows \<in> set rowss. off + cnt \<le> length rows" using mem i(2) by (meson less_imp_le)
    moreover have "c0 + length (pages off cnt rowss is) + size (rest_rows (off + cnt) rowss ts) < 2 ^ 63"
      using less.prems(7) split by simp
    ultimately obtain w'' out where "sliced_loop fp ?ipc (Some sql) session (int cnt) verbose (int (off + cnt))
        (word_of_nat (c0 + length (pages off cnt rowss is))) query' ?ctl w' =
        Some (0, put_out (concat (map (the \<circ> row_line) out)) ?ctl, w'')" "mset out = rest_rows (off + cnt) rowss ts"
      using less.hyps [OF dec, of ?ctl w' "c0 + length (pages off cnt rowss is)" query'] less.prems(1-4) w'
      by (auto simp: put_out_def)
    then show ?thesis using run True split
      by (intro exI [of _ w''] exI [of _ "pages off cnt rowss is @ out"]) (simp add: put_out_def)
  qed
qed

text \<open>C1. Within the limits of the buffers, a \<open>select\<close> typed into the shell is answered completely and
  exactly: the rows every server of the mask has for it are fetched slice by slice, in whatever order
  the replies come back, merged by the distribution layer and printed each exactly once, and the loop
  ends.  The limits: the statement contains \<open>from\<close> in lower case; the slice is positive, and with the rows of any
  server stays below \<open>2^31\<close>; no row is empty or longer than 1022 bytes, and a server has at most \<open>10^9\<close>
  of them; the servers answer under different names of at most 55 bytes, their engines run the
  statement, and no allocation fails; the mask selects at least one server and the output is not
  muted.\<close>

theorem query_complete:
  assumes "to_lower (take 6 sql) = ''select''" "strstr sql ''from''" "no_nul sql" "no_nul (ix_host ix)"
    and "env_ok ce" "names_ok froms" "fp_ok fp"
    and "cluster_ok fp E ce (fst (ixsql_new_session_id ix)) sql rowss froms w"
    and "\<forall>rows \<in> set rowss. \<forall>r \<in> set rows. r \<noteq> [] \<and> no_nul r"
    and "\<forall>rows \<in> set rowss. length rows + unat (slice_count (ix_ctl ix)) < 2 ^ 31" "length rowss < 2 ^ 31"
    and "(\<Sum>i \<leftarrow> mask_targets (cli_mask (ix_ctl ix)) (length rowss). length (rowss ! i)) < 2 ^ 63"
    and "0 < slice_count (ix_ctl ix)" "0 < active_clients (ix_ctl ix)" "\<not> c_mute (ix_ctl ix)"
    and "length rowss \<le> length (cli_mask (ix_ctl ix))" "mask_targets (cli_mask (ix_ctl ix)) (length rowss) \<noteq> []"
  shows "\<exists>ix' w' out. process_sql fp (cluster_ipc fp E os ce) sql ix w = Some (0, ix', w') \<and>
    fp_output (ix_ctl ix') = fp_output (ix_ctl ix) @ concat (map (the \<circ> row_line) out) \<and>
    mset out = (\<Sum>i \<leftarrow> mask_targets (cli_mask (ix_ctl ix)) (length rowss). mset (rowss ! i))"
proof -
  let ?ts = "mask_targets (cli_mask (ix_ctl ix)) (length rowss)" and ?cnt = "unat (slice_count (ix_ctl ix))"
  let ?s = "fst (ixsql_new_session_id ix)"
  have "CHR '':'' \<in> set ?s" by (simp add: ixsql_new_session_id_def)
  then have s: "session_ok ?s" using dec_str_no_colon by (auto simp: session_ok_def)
  have "no_nul (dec_str n)" for n using no_nul_fmt_d [of "int n"] by (simp add: fmt_d_def)
  then have ns: "no_nul ?s" using assms(4) no_nul_fmt_d [of "ix_pid ix"] by (auto simp: ixsql_new_session_id_def no_nul_def)
  have rest: "rest_rows 0 rowss ?ts = (\<Sum>i \<leftarrow> ?ts. mset (rowss ! i))" by (simp add: rest_rows_def sum_mset_sum_list [symmetric])
  have "size (\<Sum>i \<leftarrow> is. mset (rowss ! i)) = (\<Sum>i \<leftarrow> is. length (rowss ! i))" for "is" by (induction "is") simp_all
  then have sz: "0 + size (rest_rows 0 rowss ?ts) < 2 ^ 63" using assms(12) rest by simp
  have c: "0 < ?cnt" using assms(13) by (simp add: word_less_nat_alt)
  obtain rows where rows: "rows \<in> set rowss" using assms(17) by (cases rowss) (auto simp: mask_targets_def)
  then have "?cnt < 2 ^ 31" using assms(10) by fastforce
  then have i32: "to_int32 (int ?cnt) = int ?cnt" by (rule to_int32_nat)
  have ctl: "ix_ctl (snd (ixsql_new_session_id ix)) = ix_ctl ix" by (simp add: ixsql_new_session_id_def)
  have "\<exists>rows \<in> set rowss. 0 \<le> length rows" using rows by blast
  from sliced_all [OF assms(5,6) s assms(7) ns assms(3,9,10,11) c assms(17) refl assms(16,14,15) assms(8) [unfolded cluster_ok_def] this sz,
      of os "ix_verbose (snd (ixsql_new_session_id ix))" zero_query]
  obtain w' out where "sliced_loop fp (cluster_ipc fp E os ce) (Some sql) ?s (int ?cnt) (ix_verbose (snd (ixsql_new_session_id ix))) 0 0 zero_query (ix_ctl ix) w =
      Some (0, put_out (concat (map (the \<circ> row_line) out)) (ix_ctl ix), w')" "mset out = rest_rows 0 rowss ?ts" by auto
  then show ?thesis using assms(1,2) rest
    by (auto simp: process_sql_def process_sql_sliced_def case_prod_beta ctl i32 [unfolded of_nat_unat] zero_query_def put_out_def)
qed


subsection \<open>Samples\<close>

definition sample_fp :: fp_lib where
  "sample_fp = \<lparr>fmt_f = (\<lambda>_. ''0.5''), c_strtod = (\<lambda>_. (0, 0)), scan_lf = (\<lambda>_. None), dbl_positive = (\<lambda>_. True)\<rparr>"

definition sample_os :: "unit os" where
  "sample_os = \<lparr>os_run = (\<lambda>_ _ s. (None, s)), os_lsetxattr = (\<lambda>_ _ _ _ _ s. ((0, 0), s)), os_lgetxattr = (\<lambda>_ _ _. []), os_errno = (\<lambda>_. 0)\<rparr>"

definition sample_ce :: cluster_env where
  "sample_ce = \<lparr>ce_ipc = (\<lambda>j i. \<lparr>ie_new = Some 4096, ie_out = True, ie_dbtime = 0, ie_runtime = 0, ie_host = (if i = 0 then ''a'' else ''b'')\<rparr>),
     ce_mem = (\<lambda>_ _ _. \<lparr>m_ok = (\<lambda>_. True), m_new = Some 5, m_now = \<lparr>tv_sec = 0, tv_usec = 0\<rparr>\<rparr>),
     ce_order = (\<lambda>j ts. if even j then rev ts else ts), ce_latency = (\<lambda>_ _. 0)\<rparr>"

definition sample_server :: "ref_conn ipc_state" where
  "sample_server = \<lparr>ip_priv = (sample_priv False)\<lparr>pv_xdb := query_xdb\<rparr>, ip_dicts = Map.empty, ip_freed = (\<lambda>_. [])\<rparr>"

definition sample_cluster :: "(ref_conn, unit) cluster" where
  "sample_cluster = \<lparr>cl_servers = [(sample_server, ()), (sample_server, ())], cl_round = 0\<rparr>"

definition sample_ix :: ixsql_state where
  "sample_ix = \<lparr>ix_ctl = (init_control 2)\<lparr>slice_count := 1\<rparr>, ix_seq = 0, ix_host = ''client'', ix_pid = 7, ix_verbose = True, ix_operator = None\<rparr>"

definition sample_rows :: "string list" where
  "sample_rows = [''1|/a/b'', ''2|(null)'']"

lemma sample_answers: "can_answer sample_fp ref_engine session ''select * from xdb'' sample_rows off sample_server"
proof -
  let ?rows = "[[Some ''1'', Some ''/a/b''], [Some ''2'', None]]"
  have "sq_exec ref_engine (conn query_xdb) ''select * from xdb'' = (?rows, SQLITE_OK, conn query_xdb)"
    by (simp add: ref_engine_def ref_exec_def plain_exec_def query_xdb_def begin_sql_def commit_sql_def rollback_sql_def)
  moreover have "sample_rows = map row_text ?rows" by (simp add: sample_rows_def column_text_def)
  moreover have "\<forall>r \<in> set ?rows. length (row_text r) \<le> 1022 \<and> no_nul (row_text r)" by (simp add: column_text_def no_nul_def)
  moreover have "dict_functional (qrset query_xdb)" "dict_map (qrset query_xdb) session = None"
    by (simp_all add: query_xdb_def sample_xdb_def)
  ultimately show ?thesis unfolding can_answer_def sample_server_def by fastforce
qed

lemma sample_cluster_ok:
  "cluster_ok sample_fp ref_engine sample_ce session ''select * from xdb'' [sample_rows, sample_rows] [''a-/bricks/xdb'', ''b-/bricks/xdb''] sample_cluster"
  using sample_answers
  by (simp add: cluster_ok_def cluster_from_def sample_cluster_def less_Suc_eq sample_ce_def sample_server_def sample_priv_def ipc_identity_def PATH_MAX_def)

theorem query_complete_witness:
  "\<exists>ix' w' out. process_sql sample_fp (cluster_ipc sample_fp ref_engine sample_os sample_ce) ''select * from xdb'' sample_ix sample_cluster =
      Some (0, ix', w') \<and>
    fp_output (ix_ctl ix') = concat (map (the \<circ> row_line) out) \<and> mset out = mset (sample_rows @ sample_rows)"
proof -
  have ix: "ix_host sample_ix = ''client''" "slice_count (ix_ctl sample_ix) = 1" "active_clients (ix_ctl sample_ix) = 2"
    "\<not> c_mute (ix_ctl sample_ix)" "cli_mask (ix_ctl sample_ix) = [1, 1]" "fp_output (ix_ctl sample_ix) = []"
    by (simp_all add: sample_ix_def init_control_def numeral_2_eq_2)
  have ts: "mask_targets [1, 1] (Suc (Suc 0)) = [0, 1]" by (simp add: mask_targets_def)
  have sql: "to_lower (take 6 ''select * from xdb'') = ''select''" "strstr ''select * from xdb'' ''from''" "no_nul ''select * from xdb''"
    by (code_simp, code_simp, simp add: no_nul_def)
  have rows: "\<forall>rows \<in> set [sample_rows, sample_rows]. \<forall>r \<in> set rows. r \<noteq> [] \<and> no_nul r" by (simp add: sample_rows_def no_nul_def)
  have "env_ok sample_ce" "names_ok [''a-/bricks/xdb'', ''b-/bricks/xdb'']" "fp_ok sample_fp"
    by (simp_all add: env_ok_def names_ok_def fp_ok_def sample_ce_def sample_fp_def no_nul_def)
  from query_complete [OF sql, of sample_ix, OF _ this sample_cluster_ok rows, of sample_os]
  show ?thesis using ts by (simp add: ix sample_rows_def no_nul_def)
qed

subsection \<open>Replies without a comeback\<close>

definition no_comeback :: "dict_t option \<Rightarrow> bool" where
  "no_comeback x \<longleftrightarrow> (\<forall>d. x = Some d \<longrightarrow> dict_functional d \<and> dict_map d ''comeback'' = None)"

lemma no_comeback_set: "no_comeback x \<Longrightarrow> k \<noteq> ''comeback'' \<Longrightarrow> no_comeback (snd (dict_set_via v x k))"
  by (auto simp: no_comeback_def dict_set_via_def dict_set_def dict_upd split: option.splits)

lemma no_comeback_put: "dict_set_via v x k = (r, x') \<Longrightarrow> no_comeback x \<Longrightarrow> k \<noteq> ''comeback'' \<Longrightarrow> no_comeback x'"
  by (metis no_comeback_set snd_conv)

lemma no_comeback_lines: "exec_lines ls n x = Some (n', x') \<Longrightarrow> no_comeback x \<Longrightarrow> no_comeback x'"
proof (induction ls n x rule: exec_lines.induct)
  case (2 ptr ls n x)
  let ?k = "dec_str (unat n)"
  have k: "sprintf_llu 12 (unat n) = Some ?k" using 2(2) by (auto simp: sprintf_llu_def Let_def split: if_splits)
  obtain r x1 where set: "dict_set_dynstr_with_alloc x ?k (Some (c_trunc ptr)) = (r, x1)" by fastforce
  have "no_comeback (snd (dict_set_dynstr_with_alloc x ?k (Some (c_trunc ptr))))"
    using 2(3) no_comeback_set dec_str_neq by (auto simp: dict_set_dynstr_with_alloc_def dict_set_dynstr_def)
  then show ?case using 2(1) [OF k set [symmetric]] 2(2) k set by (auto split: if_splits)
qed simp

lemma no_comeback_loop:
  "exec_loop os brick operator xfiles js r fl n x ost = Some (r', m, x', ost') \<Longrightarrow> no_comeback x \<Longrightarrow> no_comeback x'"
proof (induction js arbitrary: r fl n x ost)
  case (Cons i js)
  from Cons(2) obtain fl' path where path: "row_file xfiles i fl = Some fl'" "brick_file brick fl' = Some path"
    by (auto simp: bind_eq_Some_conv)
  obtain res ost1 where run: "os_run os operator path ost = (res, ost1)" by fastforce
  show ?case
  proof (cases res)
    case None
    then show ?thesis using Cons path run by auto
  next
    case (Some p)
    obtain out e where p: "p = (out, e)" by fastforce
    obtain n' x1 where l: "exec_lines (fgets_lines (PATH_MAX - 1) out) n x = Some (n', x1)"
      using Cons(2) path run Some p by (auto simp: bind_eq_Some_conv)
    from no_comeback_lines [OF l Cons(3)] show ?thesis using Cons(1,2) path run Some p l by auto
  qed
qed simp

lemma no_comeback_end: "no_comeback x \<Longrightarrow> no_comeback (snd (snd (work_files_end er e r n x)))"
  by (simp add: work_files_end_def dict_set_int32_def dict_set_uint64_def case_prod_beta no_comeback_set)

lemma no_comeback_work:
  assumes "active_work fp os envs type operator xfiles x st ost = Some (r, e, x', st', ost')" "no_comeback x"
  shows "no_comeback x'"
  using assms
  by (auto simp: active_work_def ipc_active_work_files_exec_def ipc_active_work_files_extract_def bind_eq_Some_conv
      case_prod_beta no_comeback_loop no_comeback_end split: if_splits)

lemma pred_option_intros:
  "P a \<Longrightarrow> pred_option P (Some a)"
  "(c \<Longrightarrow> pred_option P y) \<Longrightarrow> (\<not> c \<Longrightarrow> pred_option P z) \<Longrightarrow> pred_option P (if c then y else z)"
  "(\<And>b. m = Some b \<Longrightarrow> pred_option P (f b)) \<Longrightarrow> pred_option P (Option.bind m f)"
  "(\<And>b c. p = (b, c) \<Longrightarrow> pred_option P (g b c)) \<Longrightarrow> pred_option P (case p of (b, c) \<Rightarrow> g b c)"
  by (auto split: prod.splits bind_splits)

lemma no_comeback_active:
  "no_comeback x \<Longrightarrow> pred_option (\<lambda>(r, e, x', st', ost'). no_comeback x') (ims_ipc_active_exec fp E os env envs xin x type st ost)"
  unfolding ims_ipc_active_exec_def Let_def dict_set_double_def dict_set_int32_def dict_set_uint64_def
  by (intro pred_option_intros) (auto dest!: no_comeback_put no_comeback_work)

text \<open>C37. The results of \<open>exec\<close>, \<open>filter\<close> and \<open>extractor\<close> requests never reach the client: no server puts
  \<open>comeback\<close> into such a reply, and the distribution layer drops every reply without it, leaving the
  dictionary of the request as it was and unwinding with none after the last reply.\<close>

theorem exec_results_dropped:
  assumes "ims_ipc fp E os env envs IMESS_IPC_OP (Some cmd) st ost = Inr (Some (op_ret, op_errno, xdata, st', ost'))"
    and "dict_get_str (Some cmd) (Some ''type'') = (0, Some type)" "\<not> has_prefix ''query'' type"
  shows "dht_ipc_cbk fp latency op_ret xdata d =
    Some (if di_call_cnt d = 1 then Some None else None, d\<lparr>di_call_cnt := di_call_cnt d - 1\<rparr>)"
proof -
  have out: "no_comeback (Some (u_dict_set dict_new ''from'' v True))" for v by (simp add: no_comeback_def dict_upd)
  have active: "no_comeback xdata"
    if "ims_ipc_active_exec fp E os env envs xin (Some (u_dict_set dict_new ''from'' v True)) ty st ost =
      Some (op_ret, op_errno, xdata, st', ost')" for xin v ty
    using no_comeback_active [OF out, of fp E os env envs xin v ty st ost] that by simp
  have none: "no_comeback None" by (simp add: no_comeback_def)
  have "no_comeback xdata" using assms
    by (auto simp: ims_ipc_def dict_put bind_eq_Some_conv split: if_splits intro: active out none)
  then have "fst (dict_get_int32 xdata (Some ''comeback'')) \<noteq> 0"
    by (cases xdata) (auto simp: no_comeback_def dict_get_int32_def dict_get_via_def dict_get_with_ref_map dict_functional_ok)
  then show ?thesis
    by (auto simp: dht_ipc_cbk_def dht_ipc_return_def Let_def or_eq_0_iff split: prod.splits)
qed

definition sample_exec_cmd :: dict_t where
  "sample_exec_cmd = u_dict_set dict_new ''type'' (text_data ''exec'') True"

theorem exec_results_dropped_witness:
  "ims_ipc sample_fp ref_engine sample_os (ce_ipc sample_ce 0 0) (\<lambda>_. undefined) IMESS_IPC_OP (Some sample_exec_cmd) sample_server () =
      Inr (Some (- ENOENT, EINVAL, Some (u_dict_set dict_new ''from'' ((text_data ''a-/bricks/xdb'')\<lparr>is_static := True\<rparr>) True), sample_server, ())) \<and>
    dht_ipc_cbk sample_fp 0 (- ENOENT) (Some (u_dict_set dict_new ''from'' ((text_data ''a-/bricks/xdb'')\<lparr>is_static := True\<rparr>) True))
      \<lparr>di_xdata = Some dict_new, di_pos = 0, di_call_cnt = 1\<rparr> = Some (Some None, \<lparr>di_xdata = Some dict_new, di_pos = 0, di_call_cnt = 0\<rparr>)"
proof -
  have f: "dict_functional sample_exec_cmd" "dict_map sample_exec_cmd ''sql'' = None"
    "dict_map sample_exec_cmd ''type'' = Some (text_data ''exec'')" by (simp_all add: sample_exec_cmd_def dict_upd)
  then have t: "dict_get_str (Some sample_exec_cmd) (Some ''type'') = (0, Some ''exec'')"
    "dict_get_str (Some sample_exec_cmd) (Some ''sql'') = (- ENOENT, None)"
    by (simp_all add: get_str get_str_missing no_nul_def)
  have q: "\<not> has_prefix ''query'' ''exec''" "has_prefix ''exec'' ''exec''" by (simp_all add: has_prefix_def)
  have i: "ipc_identity ''a'' ''/bricks/xdb'' = Some ''a-/bricks/xdb''" by (simp add: ipc_identity_def PATH_MAX_def)
  have run: "ims_ipc sample_fp ref_engine sample_os (ce_ipc sample_ce 0 0) (\<lambda>_. undefined) IMESS_IPC_OP (Some sample_exec_cmd) sample_server () =
      Inr (Some (- ENOENT, EINVAL, Some (u_dict_set dict_new ''from'' ((text_data ''a-/bricks/xdb'')\<lparr>is_static := True\<rparr>) True), sample_server, ()))"
    by (simp add: ims_ipc_def t q i dict_put sample_ce_def sample_server_def sample_priv_def ims_ipc_active_exec_def)
  show ?thesis using exec_results_dropped [OF run t(1) q(1), of 0 "\<lparr>di_xdata = Some dict_new, di_pos = 0, di_call_cnt = 1\<rparr>"] run by simp
qed

end
