(* ===== verification/Gf8.thy ===== *)
theory Gf8
  imports Prelude
begin

unbundle bit_operations_syntax

text \<open>
  The field with 256 elements that the erasure code computes in
  (\<open>EC_GF_BITS\<close>, \<open>EC_GF_MOD\<close> of \<open>src/xlators/cluster/ec/src/ec-gf.h\<close>): polynomials over the
  bits modulo \<open>x^8 + x^4 + x^3 + x^2 + 1\<close>.  It is the reference for the tables and the unrolled
  routines of the code, and an instance of the class \<open>field\<close>.
\<close>

subsection \<open>Multiplication by x\<close>

definition xtime :: "8 word \<Rightarrow> 8 word" where
  "xtime a = (if bit a 7 then push_bit 1 a XOR 0x1D else push_bit 1 a)"

lemma byte_eqI:
  fixes a b :: "8 word"
  assumes "bit a 0 = bit b 0" "bit a 1 = bit b 1" "bit a 2 = bit b 2" "bit a 3 = bit b 3"
    "bit a 4 = bit b 4" "bit a 5 = bit b 5" "bit a 6 = bit b 6" "bit a 7 = bit b 7"
  shows "a = b"
proof (rule bit_word_eqI)
  fix n assume "n < LENGTH(8)"
  then have "n \<in> {0, 1, 2, 3, 4, 5, 6, 7}" by auto
  then show "bit a n = bit b n" using assms by auto
qed

lemma bit_times_2: "bit (a * 2 :: 8 word) n \<longleftrightarrow> n \<noteq> 0 \<and> n < 8 \<and> bit a (n - 1)"
  using bit_double_iff [of a n] by (auto simp: mult.commute)

lemma upt_8: "[0..<8] = [0, 1, 2, 3, 4, 5, 6, 7]"
  by (simp add: upt_rec numeral_eq_Suc)

lemma bit_xtime [simp]:
  "bit (xtime a) 0 = bit a 7" "bit (xtime a) (Suc 0) = bit a 0" "bit (xtime a) 2 = (bit a 1 \<noteq> bit a 7)"
  "bit (xtime a) 3 = (bit a 2 \<noteq> bit a 7)" "bit (xtime a) 4 = (bit a 3 \<noteq> bit a 7)" "bit (xtime a) 5 = bit a 4"
  "bit (xtime a) 6 = bit a 5" "bit (xtime a) 7 = bit a 6"
  by (auto simp: xtime_def bit_times_2 bit_xor_iff)

lemma xtime_xor: "xtime (a XOR b) = xtime a XOR xtime b"
  by (rule byte_eqI) (auto simp: bit_xor_iff)

lemma xtime_0 [simp]: "xtime 0 = 0"
  by (simp add: xtime_def)

lemma xtime_inj: "xtime a = xtime b \<Longrightarrow> a = b"
proof (rule byte_eqI)
  assume eq: "xtime a = xtime b"
  have *: "bit (xtime a) n = bit (xtime b) n" for n using eq by simp
  show "bit a 7 = bit b 7" using * [of 0] by simp
  show "bit a 0 = bit b 0" using * [of 1] by simp
  show "bit a 4 = bit b 4" using * [of 5] by simp
  show "bit a 5 = bit b 5" using * [of 6] by simp
  show "bit a 6 = bit b 6" using * [of 7] by simp
  show "bit a 1 = bit b 1" using * [of 2] * [of 0] by auto
  show "bit a 2 = bit b 2" using * [of 3] * [of 0] by auto
  show "bit a 3 = bit b 3" using * [of 4] * [of 0] by auto
qed

subsection \<open>Products\<close>

text \<open>Shift and add: the bits of the first factor select multiples of the second one.\<close>

definition gf_mul :: "8 word \<Rightarrow> 8 word \<Rightarrow> 8 word" where
  "gf_mul a b = foldr (\<lambda>i r. (if bit a i then b else 0) XOR xtime r) [0..<8] 0"

lemma gf_mul_0_left [simp]: "gf_mul 0 b = 0"
  by (simp add: gf_mul_def upt_8)

lemma gf_mul_0_right [simp]: "gf_mul a 0 = 0"
  by (simp add: gf_mul_def upt_8)

lemma gf_mul_1_left [simp]: "gf_mul 1 b = b"
  by (simp add: gf_mul_def upt_8 bit_1_iff)

lemma foldr_xtime_xor:
  "foldr (\<lambda>i r. (if P i then b XOR c else 0) XOR xtime r) ns (s XOR t) =
   foldr (\<lambda>i r. (if P i then b else 0) XOR xtime r) ns s XOR foldr (\<lambda>i r. (if P i then c else 0) XOR xtime r) ns t"
  by (induction ns) (auto simp: xtime_xor ac_simps)

lemma gf_mul_xor_right: "gf_mul a (b XOR c) = gf_mul a b XOR gf_mul a c"
  unfolding gf_mul_def using foldr_xtime_xor [of "bit a" b c _ 0 0] by simp

lemma foldr_xtime_sel:
  "foldr (\<lambda>i r. (if bit (a XOR b) i then c else 0) XOR xtime r) ns (s XOR t) =
   foldr (\<lambda>i r. (if bit a i then c else 0) XOR xtime r) ns s XOR foldr (\<lambda>i r. (if bit b i then c else 0) XOR xtime r) ns t"
  by (induction ns) (auto simp: xtime_xor bit_xor_iff ac_simps)

lemma gf_mul_xor_left: "gf_mul (a XOR b) c = gf_mul a c XOR gf_mul b c"
  unfolding gf_mul_def using foldr_xtime_sel [of a b c _ 0 0] by simp

text \<open>The modulus: \<open>x^8\<close> is \<open>x^4 + x^3 + x^2 + 1\<close>.\<close>

lemma xtime_8:
  "xtime (xtime (xtime (xtime (xtime (xtime (xtime (xtime b))))))) =
   b XOR xtime (xtime b) XOR xtime (xtime (xtime b)) XOR xtime (xtime (xtime (xtime b)))"
  by (rule byte_eqI) (auto simp: bit_xor_iff)

lemma sel_xor: "(if p \<noteq> q then b else 0) = (if p then b else 0) XOR (if q then b else (0 :: 8 word))"
  by simp

lemma gf_mul_sum:
  "gf_mul a b = (let s = (\<lambda>i. if bit a i then b else 0) in
     s 0 XOR xtime (s 1 XOR xtime (s 2 XOR xtime (s 3 XOR xtime (s 4 XOR xtime (s 5 XOR xtime (s 6 XOR xtime (s 7))))))))"
  by (simp add: gf_mul_def upt_8)

lemma gf_mul_xtime_left: "gf_mul (xtime a) b = xtime (gf_mul a b)"
  unfolding gf_mul_sum Let_def bit_xtime One_nat_def sel_xor xtime_xor xtime_8
  by (simp only: ac_simps)

subsection \<open>Powers of x\<close>

definition xpow :: "nat \<Rightarrow> 8 word" where
  "xpow n = (xtime ^^ n) 1"

lemma xpow_0 [simp]: "xpow 0 = 1" and xpow_Suc: "xpow (Suc n) = xtime (xpow n)"
  by (simp_all add: xpow_def)

lemma gf_mul_xpow: "gf_mul (xpow n) b = (xtime ^^ n) b"
  by (induction n) (simp_all add: xpow_Suc gf_mul_xtime_left)

lemma gf_mul_xpow_xpow: "gf_mul (xpow m) (xpow n) = xpow (m + n)"
  by (simp add: gf_mul_xpow) (simp add: xpow_def funpow_add)

lemma funpow_xtime_inj: "(xtime ^^ n) a = (xtime ^^ n) b \<Longrightarrow> a = b"
  by (induction n) (auto dest: xtime_inj)

text \<open>The order of \<open>x\<close> is 255, by running through its powers.\<close>

fun xpow_list :: "nat \<Rightarrow> 8 word \<Rightarrow> 8 word list" where
  "xpow_list 0 a = []"
| "xpow_list (Suc n) a = a # xpow_list n (xtime a)"

lemma set_xpow_list: "set (xpow_list n ((xtime ^^ k) a)) = (\<lambda>i. (xtime ^^ i) a) ` {k..<k + n}"
proof (induction n arbitrary: k)
  case (Suc n)
  have "{k..<k + Suc n} = insert k {Suc k..<Suc k + n}" by auto
  then show ?case using Suc [of "Suc k"] by simp
qed simp

lemma xpow_list_nth: "i < n \<Longrightarrow> xpow_list n a ! i = (xtime ^^ i) a"
  by (induction n arbitrary: i a) (auto simp: nth_Cons funpow_swap1 split: nat.split)

lemma xpow_cycle: "1 \<notin> set (xpow_list 254 (xtime 1))" "xpow_list 256 1 ! 255 = 1"
  by code_simp+

lemma xpow_255 [simp]: "xpow 255 = 1"
  using xpow_cycle(2) by (simp add: xpow_list_nth xpow_def)

lemma xpow_neq_1: "0 < n \<Longrightarrow> n < 255 \<Longrightarrow> xpow n \<noteq> 1"
  using xpow_cycle(1) set_xpow_list [of 254 1 1] by (force simp: xpow_def)

lemma xpow_inj: "xpow i = xpow j \<Longrightarrow> i < 255 \<Longrightarrow> j < 255 \<Longrightarrow> i = j"
proof (induction i j rule: linorder_wlog)
  case (le i j)
  then have "(xtime ^^ i) 1 = (xtime ^^ i) (xpow (j - i))" using funpow_add [of i "j - i" xtime] by (simp add: xpow_def)
  then have "xpow (j - i) = 1" by (metis funpow_xtime_inj)
  then show ?case using xpow_neq_1 [of "j - i"] le by fastforce
qed simp

lemma xpow_mod: "xpow (n mod 255) = xpow n"
proof -
  have "xpow (k * 255 + m) = xpow m" for k m
    by (induction k) (auto simp: gf_mul_xpow_xpow [symmetric] add.assoc)
  from this [of "n div 255" "n mod 255"] show ?thesis by simp
qed

lemma xpow_neq_0 [simp]: "xpow n \<noteq> 0"
proof (induction n)
  case (Suc n)
  then show ?case using xtime_inj [of "xpow n" 0] by (auto simp: xpow_Suc)
qed simp

text \<open>Every element but 0 is a power of \<open>x\<close>.\<close>

lemma xpow_surj: "a \<noteq> 0 \<Longrightarrow> \<exists>n < 255. a = xpow n"
proof -
  assume "a \<noteq> 0"
  have inj: "inj_on xpow {..<255}" by (auto intro: inj_onI xpow_inj)
  have "card (- {0 :: 8 word}) = 255" by (simp add: Compl_eq_Diff_UNIV card_Diff_singleton card_word)
  moreover have "xpow ` {..<255} \<subseteq> - {0}" by auto
  ultimately have "xpow ` {..<255} = - {0}" using card_image [OF inj] by (intro card_subset_eq) auto
  with \<open>a \<noteq> 0\<close> show ?thesis by auto
qed

lemma gf_mul_commute: "gf_mul a b = gf_mul b a"
  by (cases "a = 0 \<or> b = 0") (use xpow_surj [of a] xpow_surj [of b] in \<open>auto simp: gf_mul_xpow_xpow add.commute\<close>)

lemma gf_mul_assoc: "gf_mul (gf_mul a b) c = gf_mul a (gf_mul b c)"
  by (cases "a = 0 \<or> b = 0 \<or> c = 0")
    (use xpow_surj [of a] xpow_surj [of b] xpow_surj [of c] in \<open>auto simp: gf_mul_xpow_xpow add.assoc\<close>)

subsection \<open>The field\<close>

typedef gf8 = "UNIV :: 8 word set" morphisms gf_byte gf ..

setup_lifting type_definition_gf8

instantiation gf8 :: comm_ring_1
begin

lift_definition zero_gf8 :: gf8 is 0 .
lift_definition one_gf8 :: gf8 is 1 .
lift_definition plus_gf8 :: "gf8 \<Rightarrow> gf8 \<Rightarrow> gf8" is "\<lambda>a b. a XOR b" .
lift_definition minus_gf8 :: "gf8 \<Rightarrow> gf8 \<Rightarrow> gf8" is "\<lambda>a b. a XOR b" .
lift_definition uminus_gf8 :: "gf8 \<Rightarrow> gf8" is "\<lambda>a. a" .
lift_definition times_gf8 :: "gf8 \<Rightarrow> gf8 \<Rightarrow> gf8" is gf_mul .

instance
proof
  fix a b c :: gf8
  show "a * b * c = a * (b * c)" by transfer (rule gf_mul_assoc)
  show "a * b = b * a" by transfer (rule gf_mul_commute)
  show "(a + b) * c = a * c + b * c" by transfer (rule gf_mul_xor_left)
  show "a + b + c = a + (b + c)" by transfer (simp add: ac_simps)
  show "a + b = b + a" by transfer (simp add: ac_simps)
qed (transfer, simp)+

end

lemma gf_byte_power: "gf_byte (a ^ n) = (gf_mul (gf_byte a) ^^ n) 1"
  by (induction n) (simp_all add: one_gf8.rep_eq times_gf8.rep_eq)

lemma xpow_power: "gf (xpow n) = gf 2 ^ n"
proof (induction n)
  case (Suc n)
  have "xpow 1 = 2" by code_simp
  then have "gf (xpow (Suc n)) = gf 2 * gf (xpow n)"
    using gf_mul_xpow_xpow [of 1 n] by (simp add: times_gf8.abs_eq)
  then show ?case using Suc by simp
qed (simp add: one_gf8.abs_eq)

lemma gf8_order: "a \<noteq> 0 \<Longrightarrow> a ^ 255 = (1 :: gf8)"
proof -
  assume "a \<noteq> 0"
  then have "gf_byte a \<noteq> 0" by transfer
  then obtain n where "gf_byte a = xpow n" using xpow_surj by blast
  then have "a = gf 2 ^ n" by (metis gf_byte_inverse xpow_power)
  then have "a ^ 255 = (gf 2 ^ 255) ^ n" by (simp add: power_mult [symmetric] mult.commute)
  then show ?thesis by (simp add: xpow_power [symmetric] one_gf8.abs_eq [symmetric])
qed

instantiation gf8 :: field
begin

definition inverse_gf8 :: "gf8 \<Rightarrow> gf8" where "inverse_gf8 a = a ^ 254"
definition divide_gf8 :: "gf8 \<Rightarrow> gf8 \<Rightarrow> gf8" where "divide_gf8 a b = a * inverse b"

instance
proof
  fix a b :: gf8
  show "inverse a * a = 1" if "a \<noteq> 0"
    using gf8_order [OF that] power_Suc2 [of a 254] by (simp add: inverse_gf8_def)
qed (simp_all add: divide_gf8_def inverse_gf8_def power_0_left)

end

lemma gf8_add_self [simp]: "a + a = (0 :: gf8)"
  by transfer simp

lemma gf8_minus [simp]: "a - b = a + b" "- a = (a :: gf8)"
  by (transfer, simp)+

end
