(* ===== verification/Ec_Slices.thy ===== *)
theory Ec_Slices
  imports Gf8
begin

unbundle bit_operations_syntax

text \<open>
  The bit-sliced representation of chunks and the loop that the routines of
  \<open>src/xlators/cluster/ec/src/ec-gf.c\<close> share.  A chunk of \<open>8 * width\<close> words of 64 bits holds
  \<open>64 * width\<close> elements of the field: bit \<open>b\<close> of the element \<open>(i, k)\<close> is bit \<open>k\<close> of word
  \<open>i + b * width\<close>.  Buffers are lists of the words that the code accesses through its casts to
  \<open>uint64_t *\<close>; \<open>None\<close> is an access outside of a buffer.
\<close>

subsection \<open>The loop of the routines\<close>

type_synonym slices = "u64 \<times> u64 \<times> u64 \<times> u64 \<times> u64 \<times> u64 \<times> u64 \<times> u64"

text \<open>One round: \<open>in0\<close> \<dots> \<open>in7\<close> are loaded from the output buffer, \<open>body\<close> computes \<open>out0\<close> \<dots> \<open>out7\<close>
  from them, and these are stored, combined with the words of the input.\<close>

definition gf8_round :: "(slices \<Rightarrow> slices) \<Rightarrow> nat \<Rightarrow> u64 list \<Rightarrow> nat \<Rightarrow> u64 list \<Rightarrow> u64 list option" where
  "gf8_round body width in_ptr i out_ptr =
     (if i + width * 7 < length out_ptr \<and> i + width * 7 < length in_ptr then
        case body (out_ptr ! i, out_ptr ! (i + width), out_ptr ! (i + width * 2), out_ptr ! (i + width * 3),
                   out_ptr ! (i + width * 4), out_ptr ! (i + width * 5), out_ptr ! (i + width * 6), out_ptr ! (i + width * 7)) of
          (out0, out1, out2, out3, out4, out5, out6, out7) \<Rightarrow>
          Some (out_ptr[i := out0 XOR in_ptr ! i, i + width := out1 XOR in_ptr ! (i + width),
                i + width * 2 := out2 XOR in_ptr ! (i + width * 2), i + width * 3 := out3 XOR in_ptr ! (i + width * 3),
                i + width * 4 := out4 XOR in_ptr ! (i + width * 4), i + width * 5 := out5 XOR in_ptr ! (i + width * 5),
                i + width * 6 := out6 XOR in_ptr ! (i + width * 6), i + width * 7 := out7 XOR in_ptr ! (i + width * 7)])
      else None)"

fun gf8_rounds :: "(slices \<Rightarrow> slices) \<Rightarrow> nat \<Rightarrow> u64 list \<Rightarrow> nat list \<Rightarrow> u64 list \<Rightarrow> u64 list option" where
  "gf8_rounds body width in_ptr [] out_ptr = Some out_ptr"
| "gf8_rounds body width in_ptr (i # is) out_ptr =
     do { out_ptr \<leftarrow> gf8_round body width in_ptr i out_ptr; gf8_rounds body width in_ptr is out_ptr }"

type_synonym muladd = "u64 list \<Rightarrow> u64 list \<Rightarrow> nat \<Rightarrow> u64 list option"

definition gf8_loop :: "(slices \<Rightarrow> slices) \<Rightarrow> muladd" where
  "gf8_loop body out_ptr in_ptr width = gf8_rounds body width in_ptr [0..<width] out_ptr"

subsection \<open>Products of slices\<close>

text \<open>The reference for the bodies: multiplication by \<open>x\<close> and by a constant, given by its bits from
  the lowest one up, on eight slices at once.\<close>

fun slices_xtime :: "slices \<Rightarrow> slices" where
  "slices_xtime (s0, s1, s2, s3, s4, s5, s6, s7) = (s7, s0, s1 XOR s7, s2 XOR s7, s3 XOR s7, s4, s5, s6)"

fun slices_add :: "slices \<Rightarrow> slices \<Rightarrow> slices" where
  "slices_add (s0, s1, s2, s3, s4, s5, s6, s7) (t0, t1, t2, t3, t4, t5, t6, t7) =
   (s0 XOR t0, s1 XOR t1, s2 XOR t2, s3 XOR t3, s4 XOR t4, s5 XOR t5, s6 XOR t6, s7 XOR t7)"

definition slices_zero :: slices where
  "slices_zero = (0, 0, 0, 0, 0, 0, 0, 0)"

fun slices_mul :: "bool list \<Rightarrow> slices \<Rightarrow> slices" where
  "slices_mul [] s = slices_zero"
| "slices_mul (b # bs) s = slices_add (if b then s else slices_zero) (slices_xtime (slices_mul bs s))"

definition byte_bits :: "8 word \<Rightarrow> bool list" where
  "byte_bits c = map (bit c) [0..<8]"

definition gf8_muladd :: "8 word \<Rightarrow> muladd" where
  "gf8_muladd c = gf8_loop (slices_mul (byte_bits c))"

lemma xor_left_self: "a XOR (a XOR b) = (b :: u64)"
  by (simp flip: xor.assoc)

lemmas slices_simps = Let_def gf8_muladd_def slices_zero_def byte_bits_def upt_8 xor_left_self
  xor.assoc xor.commute xor.left_commute

text \<open>A routine is right when its body is the product with its constant.\<close>

lemma gf8_muladdI: "(\<And>in0 in1 in2 in3 in4 in5 in6 in7.
    body (in0, in1, in2, in3, in4, in5, in6, in7) = slices_mul (byte_bits c) (in0, in1, in2, in3, in4, in5, in6, in7)) \<Longrightarrow>
  gf8_loop body = gf8_muladd c"
  unfolding gf8_muladd_def by (rule arg_cong [where f = gf8_loop]) auto

subsection \<open>Elements of a chunk\<close>

fun slices_byte :: "slices \<Rightarrow> nat \<Rightarrow> 8 word" where
  "slices_byte (s0, s1, s2, s3, s4, s5, s6, s7) k =
     horner_sum of_bool 2 [bit s0 k, bit s1 k, bit s2 k, bit s3 k, bit s4 k, bit s5 k, bit s6 k, bit s7 k]"

lemma bit_slices_byte:
  "bit (slices_byte (s0, s1, s2, s3, s4, s5, s6, s7) k) n \<longleftrightarrow>
     n < 8 \<and> [bit s0 k, bit s1 k, bit s2 k, bit s3 k, bit s4 k, bit s5 k, bit s6 k, bit s7 k] ! n"
  by (simp only: slices_byte.simps bit_horner_sum_bit_word_iff) (simp add: numeral_eq_Suc)

declare slices_byte.simps [simp del]

lemma slices_cases:
  obtains s0 s1 s2 s3 s4 s5 s6 s7 where "s = (s0, s1, s2, s3, s4, s5, s6, s7 :: u64)"
  by (cases s) (metis surj_pair)

lemma slices_byte_xtime: "slices_byte (slices_xtime s) k = xtime (slices_byte s k)"
  by (cases s rule: slices_cases) (rule byte_eqI; auto simp: bit_slices_byte bit_xor_iff)

lemma slices_byte_add: "slices_byte (slices_add s t) k = slices_byte s k XOR slices_byte t k"
  by (cases s rule: slices_cases; cases t rule: slices_cases) (rule byte_eqI; simp add: bit_slices_byte bit_xor_iff)

lemma slices_byte_zero [simp]: "slices_byte slices_zero k = 0"
  by (rule byte_eqI) (simp_all add: bit_slices_byte slices_zero_def)

lemma slices_byte_mul: "slices_byte (slices_mul (byte_bits c) s) k = gf_mul c (slices_byte s k)"
proof -
  have "slices_byte (slices_mul (map (bit c) ns) s) k = foldr (\<lambda>i r. (if bit c i then slices_byte s k else 0) XOR xtime r) ns 0" for ns
    by (induction ns) (simp_all add: slices_byte_add slices_byte_xtime)
  then show ?thesis by (simp add: byte_bits_def gf_mul_def)
qed

lemma slices_byte_inj: "(\<And>k. k < 64 \<Longrightarrow> slices_byte s k = slices_byte t k) \<Longrightarrow> s = t"
proof -
  assume eq: "\<And>k. k < 64 \<Longrightarrow> slices_byte s k = slices_byte t k"
  obtain s0 s1 s2 s3 s4 s5 s6 s7 t0 t1 t2 t3 t4 t5 t6 t7
    where st: "s = (s0, s1, s2, s3, s4, s5, s6, s7)" "t = (t0, t1, t2, t3, t4, t5, t6, t7)"
    by (cases s rule: slices_cases; cases t rule: slices_cases)
  have "[bit s0 k, bit s1 k, bit s2 k, bit s3 k, bit s4 k, bit s5 k, bit s6 k, bit s7 k] ! n =
      [bit t0 k, bit t1 k, bit t2 k, bit t3 k, bit t4 k, bit t5 k, bit t6 k, bit t7 k] ! n" if "k < 64" "n < 8" for k n
    using eq [OF that(1)] that(2) bit_slices_byte unfolding st by metis
  from this [of _ 0] this [of _ 1] this [of _ 2] this [of _ 3] this [of _ 4] this [of _ 5] this [of _ 6] this [of _ 7]
  show ?thesis unfolding st by (simp add: bit_eq_iff)
qed

definition slices_at :: "nat \<Rightarrow> u64 list \<Rightarrow> nat \<Rightarrow> slices" where
  "slices_at width buf i = (buf ! i, buf ! (i + width), buf ! (i + width * 2), buf ! (i + width * 3),
     buf ! (i + width * 4), buf ! (i + width * 5), buf ! (i + width * 6), buf ! (i + width * 7))"

lemma slices_at_eqI:
  assumes "\<And>c. r ! (j + width * c) = s ! (j + width * c)"
  shows "slices_at width r j = slices_at width s j"
  using assms [of 0] assms [of 1] by (simp add: slices_at_def assms)

text \<open>The element \<open>(i, k)\<close> of the chunk at the start of a buffer.\<close>

definition elem :: "nat \<Rightarrow> u64 list \<Rightarrow> nat \<Rightarrow> nat \<Rightarrow> gf8" where
  "elem width buf i k = gf (slices_byte (slices_at width buf i) k)"

lemma slice_index_inj:
  fixes i j w :: nat
  assumes "i + w * a = j + w * b" "i < w" "j < w"
  shows "i = j \<and> a = b"
proof -
  have "(i + w * a) mod w = i" "(j + w * b) mod w = j" using assms(2,3) by simp_all
  then have "i = j" using assms(1) by simp
  then show ?thesis using assms by simp
qed

lemma slice_index_neq: "i < w \<Longrightarrow> j < w \<Longrightarrow> i \<noteq> j \<Longrightarrow> i + w * a \<noteq> j + w * b" for i j w :: nat
  using slice_index_inj by blast

lemma gf8_round_works:
  assumes "i < width" "width * 8 \<le> length out_ptr" "width * 8 \<le> length in_ptr"
  shows "\<exists>r. gf8_round body width in_ptr i out_ptr = Some r \<and> length r = length out_ptr \<and>
    drop (width * 8) r = drop (width * 8) out_ptr \<and>
    slices_at width r i = slices_add (body (slices_at width out_ptr i)) (slices_at width in_ptr i) \<and>
    (\<forall>j < width. j \<noteq> i \<longrightarrow> slices_at width r j = slices_at width out_ptr j)"
proof -
  have b: "i + width * 7 < length out_ptr" "i + width * 7 < length in_ptr" "0 < width" using assms by auto
  obtain o0 o1 o2 o3 o4 o5 o6 o7 where o: "body (slices_at width out_ptr i) = (o0, o1, o2, o3, o4, o5, o6, o7)"
    by (rule slices_cases)
  let ?v = "\<lambda>c v. v XOR in_ptr ! (i + width * c)"
  let ?r = "out_ptr[i := o0 XOR in_ptr ! i, i + width := o1 XOR in_ptr ! (i + width), i + width * 2 := ?v 2 o2,
    i + width * 3 := ?v 3 o3, i + width * 4 := ?v 4 o4, i + width * 5 := ?v 5 o5, i + width * 6 := ?v 6 o6, i + width * 7 := ?v 7 o7]"
  have keep: "?r ! m = out_ptr ! m" if "\<And>c. m \<noteq> i + width * c" for m
    using that [of 0] that [of 1] that [of 2] that [of 3] that [of 4] that [of 5] that [of 6] that [of 7] by (simp add: nth_list_update)
  have other: "?r ! (j + width * c) = out_ptr ! (j + width * c)" if "j < width" "j \<noteq> i" for j c
    by (rule keep) (use slice_index_neq that assms(1) in blast)
  have "drop (width * 8) ?r = drop (width * 8) out_ptr" using assms(1) by (simp add: drop_update_cancel)
  moreover have "gf8_round body width in_ptr i out_ptr = Some ?r" using b o by (simp add: gf8_round_def slices_at_def)
  moreover have "slices_at width ?r i = slices_add (body (slices_at width out_ptr i)) (slices_at width in_ptr i)"
    unfolding o using b by (simp add: slices_at_def nth_list_update)
  moreover have "\<forall>j < width. j \<noteq> i \<longrightarrow> slices_at width ?r j = slices_at width out_ptr j"
    by (intro allI impI slices_at_eqI other)
  ultimately show ?thesis by (intro exI [of _ ?r]) simp
qed

lemma gf8_rounds_work:
  assumes "distinct js" "set js \<subseteq> {..<width}" "width * 8 \<le> length out_ptr" "width * 8 \<le> length in_ptr"
  shows "\<exists>r. gf8_rounds body width in_ptr js out_ptr = Some r \<and> length r = length out_ptr \<and>
    drop (width * 8) r = drop (width * 8) out_ptr \<and>
    (\<forall>i < width. slices_at width r i =
      (if i \<in> set js then slices_add (body (slices_at width out_ptr i)) (slices_at width in_ptr i) else slices_at width out_ptr i))"
  using assms
proof (induction js arbitrary: out_ptr)
  case (Cons i js)
  then obtain r where r: "gf8_round body width in_ptr i out_ptr = Some r" "length r = length out_ptr"
    "drop (width * 8) r = drop (width * 8) out_ptr"
    "slices_at width r i = slices_add (body (slices_at width out_ptr i)) (slices_at width in_ptr i)"
    "\<forall>j < width. j \<noteq> i \<longrightarrow> slices_at width r j = slices_at width out_ptr j"
    using gf8_round_works [of i width out_ptr in_ptr body] by auto
  with Cons(1) [of r] Cons(2-) obtain s where "gf8_rounds body width in_ptr js r = Some s" "length s = length r"
    "drop (width * 8) s = drop (width * 8) r"
    "\<forall>i < width. slices_at width s i =
      (if i \<in> set js then slices_add (body (slices_at width r i)) (slices_at width in_ptr i) else slices_at width r i)"
    by auto
  with r Cons(2) show ?case by auto
qed simp

lemma gf8_loop_works:
  assumes "width * 8 \<le> length out_ptr" "width * 8 \<le> length in_ptr"
  shows "\<exists>r. gf8_loop body out_ptr in_ptr width = Some r \<and> length r = length out_ptr \<and>
    drop (width * 8) r = drop (width * 8) out_ptr \<and>
    (\<forall>i < width. slices_at width r i = slices_add (body (slices_at width out_ptr i)) (slices_at width in_ptr i))"
  using gf8_rounds_work [OF _ _ assms, of "[0..<width]" body] by (fastforce simp: gf8_loop_def)

lemma gf8_muladd_works:
  assumes "width * 8 \<le> length out_ptr" "width * 8 \<le> length in_ptr"
  shows "\<exists>r. gf8_muladd c out_ptr in_ptr width = Some r \<and> length r = length out_ptr \<and>
    drop (width * 8) r = drop (width * 8) out_ptr \<and>
    (\<forall>i < width. \<forall>k. elem width r i k = gf c * elem width out_ptr i k + elem width in_ptr i k)"
proof -
  obtain r where "gf8_muladd c out_ptr in_ptr width = Some r" "length r = length out_ptr"
    "drop (width * 8) r = drop (width * 8) out_ptr"
    "\<forall>i < width. slices_at width r i = slices_add (slices_mul (byte_bits c) (slices_at width out_ptr i)) (slices_at width in_ptr i)"
    using gf8_loop_works [OF assms] unfolding gf8_muladd_def by blast
  then show ?thesis
    by (auto simp: elem_def slices_byte_add slices_byte_mul times_gf8.abs_eq plus_gf8.abs_eq)
qed

end
