(* ===== verification/Ec_Gf_02.thy ===== *)
theory Ec_Gf_02
  imports Ec_Slices
begin

unbundle bit_operations_syntax

text \<open>
  The unrolled routines for the constants 0x01 to 0x43
  (\<open>gf8_muladd_01\<close> to \<open>gf8_muladd_43\<close> of \<open>src/xlators/cluster/ec/src/ec-gf.c\<close>).  A definition
  holds three consecutive routines; the names of the variables are those of the code, and the assignments
  come in its order.
\<close>

definition gf8_muladd_01 :: muladd where
  "gf8_muladd_01 = gf8_loop (\<lambda>s. s)"

definition gf8_muladd_02_04 :: "muladd list" where
  "gf8_muladd_02_04 = [
     gf8_loop (\<lambda>(in0, in1, in2, in3, in4, in5, in6, in7).
     let out0 = in7; out1 = in0; out7 = in6; out5 = in4; out6 = in5; out3 = in2 XOR in7; out4 = in3 XOR in7;
         out2 = in1 XOR in7
     in (out0, out1, out2, out3, out4, out5, out6, out7)),
     gf8_loop (\<lambda>(in0, in1, in2, in3, in4, in5, in6, in7).
     let out0 = in0 XOR in7; tmp0 = in2 XOR in7; out1 = in0 XOR in1; out7 = in6 XOR in7; out5 = in4 XOR in5;
         out6 = in5 XOR in6; out4 = in3 XOR in4 XOR in7; out2 = tmp0 XOR in1; out3 = tmp0 XOR in3
     in (out0, out1, out2, out3, out4, out5, out6, out7)),
     gf8_loop (\<lambda>(in0, in1, in2, in3, in4, in5, in6, in7).
     let out0 = in6; out1 = in7; out7 = in5; out6 = in4; tmp0 = in6 XOR in7; out2 = in0 XOR in6;
         out5 = in3 XOR in7; out3 = tmp0 XOR in1; out4 = tmp0 XOR in2
     in (out0, out1, out2, out3, out4, out5, out6, out7))]"

definition gf8_muladd_05_07 :: "muladd list" where
  "gf8_muladd_05_07 = [
     gf8_loop (\<lambda>(in0, in1, in2, in3, in4, in5, in6, in7).
     let out0 = in0 XOR in6; out1 = in1 XOR in7; out7 = in5 XOR in7; out6 = in4 XOR in6; out2 = out0 XOR in2;
         out3 = out1 XOR in3 XOR in6; out5 = out7 XOR in3; out4 = out6 XOR in2 XOR in7
     in (out0, out1, out2, out3, out4, out5, out6, out7)),
     gf8_loop (\<lambda>(in0, in1, in2, in3, in4, in5, in6, in7).
     let out0 = in6 XOR in7; tmp0 = in1 XOR in6; out1 = in0 XOR in7; out7 = in5 XOR in6; out6 = in4 XOR in5;
         out4 = in2 XOR in3 XOR in6; out5 = in3 XOR in4 XOR in7; out3 = tmp0 XOR in2; out2 = tmp0 XOR out1
     in (out0, out1, out2, out3, out4, out5, out6, out7)),
     gf8_loop (\<lambda>(in0, in1, in2, in3, in4, in5, in6, in7).
     let tmp0 = in2 XOR in6; tmp1 = in5 XOR in6; tmp2 = in0 XOR in7; tmp3 = tmp0 XOR in3; out6 = tmp1 XOR in4;
         out7 = tmp1 XOR in7; out0 = tmp2 XOR in6; out1 = tmp2 XOR in1; out3 = tmp3 XOR in1;
         out4 = tmp3 XOR in4; out5 = out4 XOR out7 XOR in2; out2 = tmp0 XOR out1
     in (out0, out1, out2, out3, out4, out5, out6, out7))]"

definition gf8_muladd_08_0A :: "muladd list" where
  "gf8_muladd_08_0A = [
     gf8_loop (\<lambda>(in0, in1, in2, in3, in4, in5, in6, in7).
     let out0 = in5; out1 = in6; out7 = in4; out6 = in3 XOR in7; out3 = in0 XOR in5 XOR in6;
         out5 = in2 XOR in6 XOR in7; out2 = in5 XOR in7; out4 = out2 XOR in1 XOR in6
     in (out0, out1, out2, out3, out4, out5, out6, out7)),
     gf8_loop (\<lambda>(in0, in1, in2, in3, in4, in5, in6, in7).
     let out0 = in0 XOR in5; tmp0 = in3 XOR in6; out1 = in1 XOR in6; out7 = in4 XOR in7;
         out2 = in2 XOR in5 XOR in7; out3 = tmp0 XOR out0; out6 = tmp0 XOR in7; out4 = out1 XOR out7 XOR in5;
         out5 = out2 XOR in6
     in (out0, out1, out2, out3, out4, out5, out6, out7)),
     gf8_loop (\<lambda>(in0, in1, in2, in3, in4, in5, in6, in7).
     let out0 = in5 XOR in7; out1 = in0 XOR in6; out7 = in4 XOR in6; out2 = in1 XOR in5; out6 = out0 XOR in3;
         out3 = out0 XOR out1 XOR in2; out5 = out7 XOR in2 XOR in7; out4 = out2 XOR in3 XOR in6
     in (out0, out1, out2, out3, out4, out5, out6, out7))]"

definition gf8_muladd_0B_0D :: "muladd list" where
  "gf8_muladd_0B_0D = [
     gf8_loop (\<lambda>(in0, in1, in2, in3, in4, in5, in6, in7).
     let tmp0 = in2 XOR in5; tmp1 = in0 XOR in6; tmp2 = in4 XOR in7; out0 = in0 XOR in5 XOR in7;
         out2 = tmp0 XOR in1; out1 = tmp1 XOR in1; out6 = tmp1 XOR out0 XOR in3; out7 = tmp2 XOR in6;
         out4 = tmp2 XOR out6 XOR in1; out3 = out6 XOR in0 XOR in2; out5 = tmp0 XOR out7
     in (out0, out1, out2, out3, out4, out5, out6, out7)),
     gf8_loop (\<lambda>(in0, in1, in2, in3, in4, in5, in6, in7).
     let out0 = in5 XOR in6; out1 = in6 XOR in7; out7 = in4 XOR in5; tmp0 = in1 XOR in5; tmp1 = in0 XOR in7;
         out5 = in2 XOR in3 XOR in6; out6 = in3 XOR in4 XOR in7; out2 = tmp1 XOR out0; out4 = tmp0 XOR in2;
         out3 = tmp0 XOR tmp1
     in (out0, out1, out2, out3, out4, out5, out6, out7)),
     gf8_loop (\<lambda>(in0, in1, in2, in3, in4, in5, in6, in7).
     let tmp0 = in4 XOR in5; tmp1 = in5 XOR in6; out1 = in1 XOR in6 XOR in7; out7 = tmp0 XOR in7;
         out4 = tmp0 XOR in1 XOR in2; out0 = tmp1 XOR in0; tmp2 = tmp1 XOR in3; out6 = tmp2 XOR out7;
         out2 = out0 XOR in2 XOR in7; out3 = out0 XOR out1 XOR in3; out5 = tmp2 XOR in2
     in (out0, out1, out2, out3, out4, out5, out6, out7))]"

definition gf8_muladd_0E_10 :: "muladd list" where
  "gf8_muladd_0E_10 = [
     gf8_loop (\<lambda>(in0, in1, in2, in3, in4, in5, in6, in7).
     let tmp0 = in0 XOR in1; tmp1 = in2 XOR in5; tmp2 = in5 XOR in6; out1 = in0 XOR in6 XOR in7;
         out3 = tmp0 XOR tmp1; out2 = tmp0 XOR tmp2; tmp3 = tmp1 XOR in3; out7 = tmp2 XOR in4;
         out0 = tmp2 XOR in7; out4 = tmp3 XOR in1 XOR in7; out5 = tmp3 XOR out7; out6 = out0 XOR out5 XOR in2
     in (out0, out1, out2, out3, out4, out5, out6, out7)),
     gf8_loop (\<lambda>(in0, in1, in2, in3, in4, in5, in6, in7).
     let tmp0 = in6 XOR in7; tmp1 = tmp0 XOR in1; tmp2 = tmp0 XOR in5; out1 = tmp1 XOR in0; out7 = tmp2 XOR in4;
         out0 = tmp2 XOR in0; out6 = out7 XOR in3; out5 = out6 XOR in2 XOR in7; tmp3 = tmp1 XOR out0 XOR in2;
         out4 = tmp1 XOR out5; out2 = tmp3 XOR in6; out3 = tmp3 XOR in3
     in (out0, out1, out2, out3, out4, out5, out6, out7)),
     gf8_loop (\<lambda>(in0, in1, in2, in3, in4, in5, in6, in7).
     let out0 = in4; out1 = in5; out7 = in3 XOR in7; tmp0 = in6 XOR in7; out2 = in4 XOR in6;
         tmp1 = out2 XOR in5; out6 = tmp0 XOR in2; out3 = tmp0 XOR tmp1; out5 = out2 XOR out3 XOR in1;
         out4 = tmp1 XOR in0
     in (out0, out1, out2, out3, out4, out5, out6, out7))]"

definition gf8_muladd_11_13 :: "muladd list" where
  "gf8_muladd_11_13 = [
     gf8_loop (\<lambda>(in0, in1, in2, in3, in4, in5, in6, in7).
     let out7 = in3; out0 = in0 XOR in4; out1 = in1 XOR in5; out6 = in2 XOR in7; out4 = in0 XOR in5 XOR in6;
         out5 = in1 XOR in6 XOR in7; out2 = in2 XOR in4 XOR in6; out3 = in3 XOR in4 XOR in5 XOR in7
     in (out0, out1, out2, out3, out4, out5, out6, out7)),
     gf8_loop (\<lambda>(in0, in1, in2, in3, in4, in5, in6, in7).
     let out0 = in4 XOR in7; out1 = in0 XOR in5; out3 = in2 XOR in4 XOR in5; tmp0 = out0 XOR in6;
         out2 = tmp0 XOR in1; tmp1 = tmp0 XOR in3; out6 = tmp0 XOR out3; out5 = out2 XOR in5;
         out7 = tmp1 XOR in4; out4 = tmp1 XOR out1
     in (out0, out1, out2, out3, out4, out5, out6, out7)),
     gf8_loop (\<lambda>(in0, in1, in2, in3, in4, in5, in6, in7).
     let out7 = in3 XOR in6; tmp0 = in0 XOR in5; tmp1 = in4 XOR in7; out6 = in2 XOR in5 XOR in7;
         out4 = tmp0 XOR out7 XOR in7; out1 = tmp0 XOR in1; out0 = tmp1 XOR in0; out5 = tmp1 XOR in1 XOR in6;
         out3 = tmp1 XOR out6 XOR in3; out2 = out5 XOR in2
     in (out0, out1, out2, out3, out4, out5, out6, out7))]"

definition gf8_muladd_14_16 :: "muladd list" where
  "gf8_muladd_14_16 = [
     gf8_loop (\<lambda>(in0, in1, in2, in3, in4, in5, in6, in7).
     let out0 = in4 XOR in6; out1 = in5 XOR in7; out2 = in0 XOR in4; tmp0 = out0 XOR in5; out7 = out1 XOR in3;
         tmp1 = out1 XOR in2; out3 = tmp0 XOR in1; out6 = tmp0 XOR tmp1; out4 = tmp1 XOR out2;
         out5 = out3 XOR in3 XOR in4
     in (out0, out1, out2, out3, out4, out5, out6, out7)),
     gf8_loop (\<lambda>(in0, in1, in2, in3, in4, in5, in6, in7).
     let out7 = in3 XOR in5; tmp0 = in0 XOR in4; out1 = in1 XOR in5 XOR in7; out5 = in1 XOR in3 XOR in6;
         out0 = tmp0 XOR in6; out2 = tmp0 XOR in2; out3 = out5 XOR in4 XOR in5; out6 = out2 XOR in0 XOR in7;
         out4 = tmp0 XOR out6 XOR in5
     in (out0, out1, out2, out3, out4, out5, out6, out7)),
     gf8_loop (\<lambda>(in0, in1, in2, in3, in4, in5, in6, in7).
     let tmp0 = in0 XOR in5; tmp1 = in4 XOR in7; tmp2 = in2 XOR in3 XOR in4; out1 = tmp0 XOR in7;
         out4 = tmp0 XOR tmp2; out0 = tmp1 XOR in6; tmp3 = tmp1 XOR in1; out6 = out0 XOR in2 XOR in5;
         out2 = tmp3 XOR in0; out3 = out6 XOR in1; out7 = tmp2 XOR out6; out5 = tmp3 XOR out7
     in (out0, out1, out2, out3, out4, out5, out6, out7))]"

definition gf8_muladd_17_19 :: "muladd list" where
  "gf8_muladd_17_19 = [
     gf8_loop (\<lambda>(in0, in1, in2, in3, in4, in5, in6, in7).
     let tmp0 = in2 XOR in5; tmp1 = in3 XOR in6; tmp2 = tmp0 XOR in4; out4 = tmp0 XOR in0 XOR in3;
         out7 = tmp1 XOR in5; tmp3 = tmp1 XOR in1; out6 = tmp2 XOR in7; out5 = tmp3 XOR in4;
         out3 = tmp3 XOR out6; out0 = out3 XOR out4 XOR in1; out2 = out3 XOR out7 XOR in0; out1 = tmp2 XOR out2
     in (out0, out1, out2, out3, out4, out5, out6, out7)),
     gf8_loop (\<lambda>(in0, in1, in2, in3, in4, in5, in6, in7).
     let out0 = in4 XOR in5; out1 = in5 XOR in6; tmp0 = in4 XOR in7; out5 = in1 XOR in2 XOR in5;
         out6 = in2 XOR in3 XOR in6; out2 = tmp0 XOR out1; out7 = tmp0 XOR in3; tmp1 = tmp0 XOR in0;
         out3 = tmp1 XOR in6; out4 = tmp1 XOR in1
     in (out0, out1, out2, out3, out4, out5, out6, out7)),
     gf8_loop (\<lambda>(in0, in1, in2, in3, in4, in5, in6, in7).
     let out5 = in1 XOR in2; out7 = in3 XOR in4; tmp0 = in0 XOR in7; out6 = in2 XOR in3;
         out1 = in1 XOR in5 XOR in6; out0 = in0 XOR in4 XOR in5; out4 = tmp0 XOR in1; tmp1 = tmp0 XOR in6;
         out2 = tmp1 XOR out0 XOR in2; out3 = tmp1 XOR out7
     in (out0, out1, out2, out3, out4, out5, out6, out7))]"

definition gf8_muladd_1A_1C :: "muladd list" where
  "gf8_muladd_1A_1C = [
     gf8_loop (\<lambda>(in0, in1, in2, in3, in4, in5, in6, in7).
     let tmp0 = in4 XOR in5; tmp1 = in5 XOR in6; tmp2 = tmp0 XOR in1; out0 = tmp0 XOR in7; out1 = tmp1 XOR in0;
         tmp3 = tmp1 XOR in3; out5 = tmp2 XOR in2; out2 = tmp2 XOR in6; out7 = tmp3 XOR out0;
         out6 = tmp3 XOR in2; out4 = tmp3 XOR out2 XOR in0; out3 = tmp0 XOR out1 XOR in2
     in (out0, out1, out2, out3, out4, out5, out6, out7)),
     gf8_loop (\<lambda>(in0, in1, in2, in3, in4, in5, in6, in7).
     let tmp0 = in2 XOR in4; tmp1 = in2 XOR in5; tmp2 = in3 XOR in6; out5 = tmp0 XOR in1; tmp3 = tmp0 XOR in0;
         out6 = tmp1 XOR in3; out0 = tmp1 XOR tmp3 XOR in7; out7 = tmp2 XOR in4; tmp4 = out5 XOR in6;
         out3 = tmp2 XOR tmp3; out2 = tmp4 XOR in5; out4 = tmp4 XOR out3; out1 = tmp3 XOR out2
     in (out0, out1, out2, out3, out4, out5, out6, out7)),
     gf8_loop (\<lambda>(in0, in1, in2, in3, in4, in5, in6, in7).
     let tmp0 = in2 XOR in3; tmp1 = in4 XOR in6; tmp2 = in5 XOR in7; out6 = tmp0 XOR tmp1; out0 = tmp1 XOR in5;
         out1 = tmp2 XOR in6; tmp3 = tmp2 XOR in1; tmp4 = tmp2 XOR in4; out2 = tmp4 XOR in0;
         out7 = tmp4 XOR in3; out5 = tmp0 XOR tmp3; out3 = tmp3 XOR out2; out4 = out3 XOR in2 XOR in6
     in (out0, out1, out2, out3, out4, out5, out6, out7))]"

definition gf8_muladd_1D_1F :: "muladd list" where
  "gf8_muladd_1D_1F = [
     gf8_loop (\<lambda>(in0, in1, in2, in3, in4, in5, in6, in7).
     let tmp0 = in1 XOR in3; tmp1 = in0 XOR in4; tmp2 = in3 XOR in4; tmp3 = in2 XOR in7; out3 = tmp0 XOR tmp1;
         out5 = tmp0 XOR tmp3; tmp4 = tmp1 XOR in5; out6 = tmp2 XOR in2; out7 = tmp2 XOR in5;
         out2 = tmp3 XOR tmp4; out4 = out3 XOR out6 XOR in6; out0 = tmp4 XOR in6; out1 = out2 XOR out4 XOR in4
     in (out0, out1, out2, out3, out4, out5, out6, out7)),
     gf8_loop (\<lambda>(in0, in1, in2, in3, in4, in5, in6, in7).
     let tmp0 = in0 XOR in4; tmp1 = in2 XOR in7; tmp2 = tmp0 XOR in1; out3 = tmp1 XOR tmp2; out2 = tmp2 XOR in5;
         out4 = out3 XOR in3 XOR in6; tmp3 = out4 XOR in7; out6 = tmp3 XOR out2 XOR in4; out7 = tmp1 XOR out6;
         out0 = out7 XOR in3; out1 = tmp0 XOR out0; out5 = tmp3 XOR out1
     in (out0, out1, out2, out3, out4, out5, out6, out7)),
     gf8_loop (\<lambda>(in0, in1, in2, in3, in4, in5, in6, in7).
     let tmp0 = in4 XOR in6; tmp1 = tmp0 XOR in5; out7 = tmp1 XOR in3; out0 = tmp1 XOR in0 XOR in7;
         out6 = out7 XOR in2 XOR in6; out1 = out0 XOR in1 XOR in4; out4 = out0 XOR out6 XOR in1;
         out3 = tmp0 XOR out4; out2 = out4 XOR out7 XOR in7; out5 = out3 XOR in0
     in (out0, out1, out2, out3, out4, out5, out6, out7))]"

definition gf8_muladd_20_22 :: "muladd list" where
  "gf8_muladd_20_22 = [
     gf8_loop (\<lambda>(in0, in1, in2, in3, in4, in5, in6, in7).
     let out1 = in4; out0 = in3 XOR in7; tmp0 = in3 XOR in4; tmp1 = in6 XOR in7; out2 = out0 XOR in5;
         out4 = tmp0 XOR in5; out3 = tmp0 XOR tmp1; out7 = tmp1 XOR in2; out6 = tmp1 XOR in1 XOR in5;
         out5 = out2 XOR out3 XOR in0
     in (out0, out1, out2, out3, out4, out5, out6, out7)),
     gf8_loop (\<lambda>(in0, in1, in2, in3, in4, in5, in6, in7).
     let out1 = in1 XOR in4; tmp0 = in4 XOR in6; out4 = in3 XOR in5; out7 = in2 XOR in6;
         out0 = in0 XOR in3 XOR in7; out6 = in1 XOR in5 XOR in7; out3 = tmp0 XOR in7; out5 = tmp0 XOR in0;
         out2 = out4 XOR in2 XOR in7
     in (out0, out1, out2, out3, out4, out5, out6, out7)),
     gf8_loop (\<lambda>(in0, in1, in2, in3, in4, in5, in6, in7).
     let out0 = in3; out1 = in0 XOR in4; out7 = in2 XOR in7; out4 = in4 XOR in5 XOR in7;
         out5 = in0 XOR in5 XOR in6; out6 = in1 XOR in6 XOR in7; out3 = in2 XOR in3 XOR in4 XOR in6;
         out2 = in1 XOR in3 XOR in5
     in (out0, out1, out2, out3, out4, out5, out6, out7))]"

definition gf8_muladd_23_25 :: "muladd list" where
  "gf8_muladd_23_25 = [
     gf8_loop (\<lambda>(in0, in1, in2, in3, in4, in5, in6, in7).
     let out7 = in2; out0 = in0 XOR in3; out4 = in5 XOR in7; out5 = in0 XOR in6; out6 = in1 XOR in7;
         out3 = in2 XOR in4 XOR in6; out1 = in0 XOR in1 XOR in4; out2 = out4 XOR out6 XOR in2 XOR in3
     in (out0, out1, out2, out3, out4, out5, out6, out7)),
     gf8_loop (\<lambda>(in0, in1, in2, in3, in4, in5, in6, in7).
     let out1 = in4 XOR in7; tmp0 = in3 XOR in4; out0 = in3 XOR in6 XOR in7; out3 = tmp0 XOR in1;
         tmp1 = out0 XOR in5; out6 = tmp1 XOR out3; out2 = tmp1 XOR in0; out7 = tmp1 XOR in2 XOR in3;
         out5 = out2 XOR in4; out4 = tmp0 XOR out7
     in (out0, out1, out2, out3, out4, out5, out6, out7)),
     gf8_loop (\<lambda>(in0, in1, in2, in3, in4, in5, in6, in7).
     let out3 = in1 XOR in4; tmp0 = in2 XOR in5; out1 = out3 XOR in7; out7 = tmp0 XOR in6; out6 = out1 XOR in5;
         out4 = out7 XOR in3 XOR in7; out2 = out4 XOR in0; out0 = tmp0 XOR out2; out5 = out0 XOR in4
     in (out0, out1, out2, out3, out4, out5, out6, out7))]"

definition gf8_muladd_26_28 :: "muladd list" where
  "gf8_muladd_26_28 = [
     gf8_loop (\<lambda>(in0, in1, in2, in3, in4, in5, in6, in7).
     let out0 = in3 XOR in6; tmp0 = in4 XOR in7; out7 = in2 XOR in5 XOR in7; tmp1 = out0 XOR in0 XOR in5;
         out1 = tmp0 XOR in0; tmp2 = tmp0 XOR in6; out2 = tmp1 XOR in1; out5 = tmp1 XOR in7;
         out6 = tmp2 XOR in1; out4 = tmp2 XOR out7; out3 = out0 XOR out6 XOR in2
     in (out0, out1, out2, out3, out4, out5, out6, out7)),
     gf8_loop (\<lambda>(in0, in1, in2, in3, in4, in5, in6, in7).
     let out7 = in2 XOR in5; out0 = in0 XOR in3 XOR in6; out6 = in1 XOR in4 XOR in7; out4 = out7 XOR in6;
         out2 = out0 XOR out7 XOR in1; out5 = out0 XOR in7; out1 = out6 XOR in0; out3 = out6 XOR in2
     in (out0, out1, out2, out3, out4, out5, out6, out7)),
     gf8_loop (\<lambda>(in0, in1, in2, in3, in4, in5, in6, in7).
     let out2 = in3; out1 = in4 XOR in6; out0 = in3 XOR in5 XOR in7; tmp0 = out1 XOR in7; tmp1 = out0 XOR in4;
         out7 = tmp0 XOR in2; tmp2 = tmp0 XOR in1; out3 = tmp1 XOR in0; out6 = tmp1 XOR tmp2;
         out4 = tmp2 XOR in3; out5 = out3 XOR in2 XOR in3
     in (out0, out1, out2, out3, out4, out5, out6, out7))]"

definition gf8_muladd_29_2B :: "muladd list" where
  "gf8_muladd_29_2B = [
     gf8_loop (\<lambda>(in0, in1, in2, in3, in4, in5, in6, in7).
     let out2 = in2 XOR in3; tmp0 = in1 XOR in3; tmp1 = in4 XOR in6; tmp2 = in0 XOR in4 XOR in7;
         out6 = tmp0 XOR in5; out4 = tmp0 XOR in6 XOR in7; out1 = tmp1 XOR in1; out7 = tmp1 XOR in2;
         out3 = tmp2 XOR in5; out5 = tmp2 XOR in2; out0 = out3 XOR in3 XOR in4
     in (out0, out1, out2, out3, out4, out5, out6, out7)),
     gf8_loop (\<lambda>(in0, in1, in2, in3, in4, in5, in6, in7).
     let out0 = in3 XOR in5; tmp0 = in1 XOR in3; tmp1 = in0 XOR in4; out7 = in2 XOR in4 XOR in7;
         out3 = tmp1 XOR out0 XOR in2; out2 = tmp0 XOR in7; out6 = tmp0 XOR in6; out1 = tmp1 XOR in6;
         out5 = tmp1 XOR out7 XOR in5; out4 = out1 XOR in0 XOR in1
     in (out0, out1, out2, out3, out4, out5, out6, out7)),
     gf8_loop (\<lambda>(in0, in1, in2, in3, in4, in5, in6, in7).
     let out4 = in1 XOR in6; out7 = in2 XOR in4; tmp0 = in0 XOR in5; tmp1 = in2 XOR in7; out6 = in1 XOR in3;
         out1 = out4 XOR in0 XOR in4; out3 = tmp0 XOR out7; out0 = tmp0 XOR in3; out5 = tmp1 XOR in0;
         out2 = tmp1 XOR out6
     in (out0, out1, out2, out3, out4, out5, out6, out7))]"

definition gf8_muladd_2C_2E :: "muladd list" where
  "gf8_muladd_2C_2E = [
     gf8_loop (\<lambda>(in0, in1, in2, in3, in4, in5, in6, in7).
     let tmp0 = in2 XOR in5; tmp1 = in2 XOR in3 XOR in4; tmp2 = tmp0 XOR in6; out4 = tmp1 XOR in1;
         out5 = tmp1 XOR in0 XOR in5; tmp3 = tmp2 XOR in4; out6 = tmp2 XOR out4; out7 = tmp3 XOR in7;
         out2 = tmp3 XOR out5; out3 = out6 XOR in0; out0 = tmp1 XOR out7; out1 = tmp0 XOR out7
     in (out0, out1, out2, out3, out4, out5, out6, out7)),
     gf8_loop (\<lambda>(in0, in1, in2, in3, in4, in5, in6, in7).
     let tmp0 = in2 XOR in3; out4 = tmp0 XOR in1; tmp1 = tmp0 XOR in0; out2 = tmp1 XOR in6; out5 = tmp1 XOR in4;
         tmp2 = out2 XOR in2; tmp3 = tmp2 XOR in5; out0 = tmp3 XOR in7; out7 = tmp3 XOR out5;
         out6 = out4 XOR out7 XOR in6; out3 = tmp2 XOR out6; out1 = out0 XOR out6 XOR in0
     in (out0, out1, out2, out3, out4, out5, out6, out7)),
     gf8_loop (\<lambda>(in0, in1, in2, in3, in4, in5, in6, in7).
     let tmp0 = in4 XOR in7; out0 = in3 XOR in5 XOR in6; tmp1 = tmp0 XOR in0; tmp2 = tmp0 XOR in2;
         out1 = tmp1 XOR in6; out4 = tmp2 XOR in1; out7 = tmp2 XOR in5; out3 = out0 XOR out4 XOR in0;
         out2 = out3 XOR out7 XOR in7; out6 = tmp1 XOR out2; out5 = tmp1 XOR out7 XOR in3
     in (out0, out1, out2, out3, out4, out5, out6, out7))]"

definition gf8_muladd_2F_31 :: "muladd list" where
  "gf8_muladd_2F_31 = [
     gf8_loop (\<lambda>(in0, in1, in2, in3, in4, in5, in6, in7).
     let tmp0 = in0 XOR in3; tmp1 = in2 XOR in5; out4 = in1 XOR in2 XOR in7; out6 = in1 XOR in3 XOR in4;
         out5 = tmp0 XOR in2; tmp2 = tmp0 XOR in6; out7 = tmp1 XOR in4; out0 = tmp2 XOR in5;
         out2 = tmp2 XOR out4; out1 = tmp2 XOR out6 XOR in7; out3 = tmp1 XOR out1
     in (out0, out1, out2, out3, out4, out5, out6, out7)),
     gf8_loop (\<lambda>(in0, in1, in2, in3, in4, in5, in6, in7).
     let out1 = in4 XOR in5; tmp0 = in3 XOR in6; tmp1 = in4 XOR in7; out6 = in1 XOR in2 XOR in5;
         out3 = tmp0 XOR in5; out4 = tmp0 XOR in0; out7 = tmp0 XOR in2; out0 = tmp1 XOR in3;
         out2 = tmp1 XOR out3; out5 = tmp1 XOR in0 XOR in1
     in (out0, out1, out2, out3, out4, out5, out6, out7)),
     gf8_loop (\<lambda>(in0, in1, in2, in3, in4, in5, in6, in7).
     let out3 = in5 XOR in6; tmp0 = in4 XOR in5; tmp1 = in0 XOR in3 XOR in4; tmp2 = out3 XOR in2;
         out1 = tmp0 XOR in1; out0 = tmp1 XOR in7; out4 = tmp1 XOR in6; out6 = tmp2 XOR in1;
         out2 = tmp2 XOR out0 XOR in0; out5 = out1 XOR in0 XOR in7; out7 = tmp0 XOR out2
     in (out0, out1, out2, out3, out4, out5, out6, out7))]"

definition gf8_muladd_32_34 :: "muladd list" where
  "gf8_muladd_32_34 = [
     gf8_loop (\<lambda>(in0, in1, in2, in3, in4, in5, in6, in7).
     let out0 = in3 XOR in4; out7 = in2 XOR in3; tmp0 = in5 XOR in6; tmp1 = in0 XOR in7; out6 = in1 XOR in2;
         out1 = in0 XOR in4 XOR in5; out2 = tmp0 XOR out0 XOR in1; out3 = tmp0 XOR out7 XOR in7;
         out4 = tmp1 XOR in6; out5 = tmp1 XOR in1
     in (out0, out1, out2, out3, out4, out5, out6, out7)),
     gf8_loop (\<lambda>(in0, in1, in2, in3, in4, in5, in6, in7).
     let tmp0 = in2 XOR in3; tmp1 = in0 XOR in4; tmp2 = in1 XOR in5; out6 = in1 XOR in2 XOR in6;
         out7 = tmp0 XOR in7; out0 = tmp1 XOR in3; out1 = tmp1 XOR tmp2; tmp3 = tmp2 XOR in7;
         tmp4 = tmp2 XOR in4 XOR in6; out5 = tmp3 XOR in0; out3 = tmp3 XOR out6; out4 = tmp4 XOR out5;
         out2 = tmp0 XOR tmp4
     in (out0, out1, out2, out3, out4, out5, out6, out7)),
     gf8_loop (\<lambda>(in0, in1, in2, in3, in4, in5, in6, in7).
     let tmp0 = in3 XOR in4; tmp1 = in4 XOR in5; tmp2 = tmp0 XOR in1; tmp3 = tmp0 XOR in6; out1 = tmp1 XOR in7;
         tmp4 = tmp1 XOR in2; out5 = tmp2 XOR in0; out3 = tmp2 XOR out1; out0 = tmp3 XOR in7;
         out7 = tmp3 XOR tmp4; out6 = tmp4 XOR in1; out2 = out3 XOR out5 XOR in3; out4 = tmp4 XOR out2
     in (out0, out1, out2, out3, out4, out5, out6, out7))]"

definition gf8_muladd_35_37 :: "muladd list" where
  "gf8_muladd_35_37 = [
     gf8_loop (\<lambda>(in0, in1, in2, in3, in4, in5, in6, in7).
     let tmp0 = in2 XOR in6; tmp1 = in5 XOR in7; out7 = tmp0 XOR tmp1 XOR in3; out3 = tmp1 XOR in1;
         out1 = out3 XOR in4; tmp2 = out1 XOR in7; out5 = tmp2 XOR in0 XOR in3; out6 = tmp0 XOR tmp2;
         out0 = out3 XOR out5 XOR in6; out4 = tmp0 XOR out0; out2 = out4 XOR in5
     in (out0, out1, out2, out3, out4, out5, out6, out7)),
     gf8_loop (\<lambda>(in0, in1, in2, in3, in4, in5, in6, in7).
     let out4 = in0 XOR in2; tmp0 = in1 XOR in3; out0 = in3 XOR in4 XOR in6; out6 = in1 XOR in2 XOR in4;
         out5 = tmp0 XOR in0; tmp1 = out5 XOR in5; out2 = tmp1 XOR in4; out3 = tmp1 XOR out4;
         out1 = tmp0 XOR out2 XOR in7; out7 = out3 XOR in1
     in (out0, out1, out2, out3, out4, out5, out6, out7)),
     gf8_loop (\<lambda>(in0, in1, in2, in3, in4, in5, in6, in7).
     let tmp0 = in1 XOR in2; tmp1 = in2 XOR in4; tmp2 = tmp0 XOR in6; out3 = tmp0 XOR in5; out4 = tmp1 XOR in0;
         out6 = tmp2 XOR in4; out1 = out3 XOR out4 XOR in7; tmp3 = out4 XOR in1 XOR in3; out7 = tmp3 XOR out1;
         out2 = tmp3 XOR in5; out5 = tmp1 XOR out2; out0 = tmp2 XOR tmp3
     in (out0, out1, out2, out3, out4, out5, out6, out7))]"

definition gf8_muladd_38_3A :: "muladd list" where
  "gf8_muladd_38_3A = [
     gf8_loop (\<lambda>(in0, in1, in2, in3, in4, in5, in6, in7).
     let out3 = in0 XOR in3; tmp0 = in3 XOR in4; tmp1 = in5 XOR in7; tmp2 = out3 XOR in1; out2 = tmp0 XOR in6;
         out0 = tmp0 XOR tmp1; out4 = tmp1 XOR tmp2; out7 = out2 XOR in2; out1 = out2 XOR in3 XOR in5;
         out6 = out4 XOR in0 XOR in2; out5 = tmp2 XOR out7
     in (out0, out1, out2, out3, out4, out5, out6, out7)),
     gf8_loop (\<lambda>(in0, in1, in2, in3, in4, in5, in6, in7).
     let out3 = in0; tmp0 = in1 XOR in5; tmp1 = tmp0 XOR in4; out1 = tmp1 XOR in6; out5 = out1 XOR in0 XOR in2;
         tmp2 = tmp0 XOR out5; out2 = tmp2 XOR in0 XOR in3; out7 = out2 XOR in7; out6 = tmp1 XOR out7;
         out4 = tmp2 XOR out6; out0 = out4 XOR in1
     in (out0, out1, out2, out3, out4, out5, out6, out7)),
     gf8_loop (\<lambda>(in0, in1, in2, in3, in4, in5, in6, in7).
     let tmp0 = in0 XOR in1; tmp1 = in0 XOR in2; tmp2 = in3 XOR in4; tmp3 = in1 XOR in6; tmp4 = in3 XOR in7;
         out4 = tmp0 XOR in5; out5 = tmp1 XOR tmp3; out3 = tmp1 XOR tmp4; out0 = tmp2 XOR in5;
         out7 = tmp2 XOR in2; tmp5 = tmp3 XOR in4; out2 = tmp4 XOR tmp5; out1 = tmp5 XOR out4;
         out6 = tmp0 XOR out3
     in (out0, out1, out2, out3, out4, out5, out6, out7))]"

definition gf8_muladd_3B_3D :: "muladd list" where
  "gf8_muladd_3B_3D = [
     gf8_loop (\<lambda>(in0, in1, in2, in3, in4, in5, in6, in7).
     let tmp0 = in1 XOR in6; tmp1 = in2 XOR in7; tmp2 = tmp0 XOR in3; out3 = tmp1 XOR in0; out6 = tmp1 XOR tmp2;
         out2 = out6 XOR in4; out7 = tmp0 XOR out2; out0 = out3 XOR out7 XOR in5; out5 = out0 XOR out2 XOR in7;
         out1 = tmp2 XOR out0; out4 = out1 XOR in6
     in (out0, out1, out2, out3, out4, out5, out6, out7)),
     gf8_loop (\<lambda>(in0, in1, in2, in3, in4, in5, in6, in7).
     let tmp0 = in0 XOR in3; tmp1 = in2 XOR in7; tmp2 = in1 XOR in6 XOR in7; out2 = tmp0 XOR in4;
         out3 = tmp0 XOR tmp2; out4 = tmp1 XOR out3 XOR in5; out5 = tmp2 XOR out2 XOR in2;
         out1 = out4 XOR out5 XOR in6; out0 = out1 XOR in3; out7 = tmp1 XOR out0; out6 = tmp2 XOR out7
     in (out0, out1, out2, out3, out4, out5, out6, out7)),
     gf8_loop (\<lambda>(in0, in1, in2, in3, in4, in5, in6, in7).
     let tmp0 = in0 XOR in2; tmp1 = tmp0 XOR in3; out2 = tmp1 XOR in4; tmp2 = out2 XOR in5;
         out4 = tmp2 XOR in1 XOR in6; out5 = out4 XOR in7; out6 = out5 XOR in0; out7 = out6 XOR in1;
         out0 = tmp0 XOR out7; out1 = tmp1 XOR out5; out3 = tmp2 XOR out6
     in (out0, out1, out2, out3, out4, out5, out6, out7))]"

definition gf8_muladd_3E_40 :: "muladd list" where
  "gf8_muladd_3E_40 = [
     gf8_loop (\<lambda>(in0, in1, in2, in3, in4, in5, in6, in7).
     let tmp0 = in3 XOR in5; tmp1 = tmp0 XOR in4; out0 = tmp1 XOR in6; out7 = tmp1 XOR in2;
         out6 = out7 XOR in1 XOR in5 XOR in7; out2 = out6 XOR in0 XOR in2; out4 = out0 XOR out6 XOR in0;
         out5 = tmp0 XOR out4; out3 = out5 XOR in7; out1 = out3 XOR out6 XOR in5
     in (out0, out1, out2, out3, out4, out5, out6, out7)),
     gf8_loop (\<lambda>(in0, in1, in2, in3, in4, in5, in6, in7).
     let tmp0 = in0 XOR in1; out3 = tmp0 XOR in2 XOR in6; tmp1 = out3 XOR in5 XOR in7; out4 = tmp1 XOR in4;
         out5 = tmp1 XOR in3; out1 = out4 XOR in2; out7 = out1 XOR out3 XOR in3; out2 = tmp0 XOR out7 XOR in5;
         tmp2 = out2 XOR in0; out6 = tmp2 XOR in6; out0 = tmp1 XOR tmp2
     in (out0, out1, out2, out3, out4, out5, out6, out7)),
     gf8_loop (\<lambda>(in0, in1, in2, in3, in4, in5, in6, in7).
     let out1 = in3 XOR in7; tmp0 = in3 XOR in4; tmp1 = in6 XOR in7; out4 = tmp0 XOR in2; out5 = tmp0 XOR in5;
         out0 = tmp1 XOR in2; out7 = tmp1 XOR in1 XOR in5; out2 = out0 XOR in4; out3 = out2 XOR out5 XOR in7;
         out6 = out3 XOR out4 XOR in0
     in (out0, out1, out2, out3, out4, out5, out6, out7))]"

definition gf8_muladd_41_43 :: "muladd list" where
  "gf8_muladd_41_43 = [
     gf8_loop (\<lambda>(in0, in1, in2, in3, in4, in5, in6, in7).
     let out4 = in2 XOR in3; tmp0 = in5 XOR in6; tmp1 = in6 XOR in7; out5 = in3 XOR in4;
         out1 = in1 XOR in3 XOR in7; out6 = in0 XOR in4 XOR in5; out3 = tmp0 XOR in2; out7 = tmp0 XOR in1;
         out2 = tmp1 XOR in4; out0 = tmp1 XOR in0 XOR in2
     in (out0, out1, out2, out3, out4, out5, out6, out7)),
     gf8_loop (\<lambda>(in0, in1, in2, in3, in4, in5, in6, in7).
     let out0 = in2 XOR in6; out5 = in3 XOR in5; out1 = in0 XOR in3 XOR in7; out7 = in1 XOR in5 XOR in7;
         out4 = in2 XOR in4 XOR in7; out6 = in0 XOR in4 XOR in6; out2 = out0 XOR in1 XOR in4;
         out3 = out5 XOR in6 XOR in7
     in (out0, out1, out2, out3, out4, out5, out6, out7)),
     gf8_loop (\<lambda>(in0, in1, in2, in3, in4, in5, in6, in7).
     let out5 = in3; out7 = in1 XOR in5; out4 = in2 XOR in7; out6 = in0 XOR in4; out0 = in0 XOR in2 XOR in6;
         out3 = in5 XOR in6 XOR in7; out2 = in1 XOR in4 XOR in6; out1 = in0 XOR in1 XOR in3 XOR in7
     in (out0, out1, out2, out3, out4, out5, out6, out7))]"

lemmas gf8_code_02 =
  gf8_muladd_01_def gf8_muladd_02_04_def gf8_muladd_05_07_def gf8_muladd_08_0A_def gf8_muladd_0B_0D_def
  gf8_muladd_0E_10_def gf8_muladd_11_13_def gf8_muladd_14_16_def gf8_muladd_17_19_def gf8_muladd_1A_1C_def
  gf8_muladd_1D_1F_def gf8_muladd_20_22_def gf8_muladd_23_25_def gf8_muladd_26_28_def gf8_muladd_29_2B_def
  gf8_muladd_2C_2E_def gf8_muladd_2F_31_def gf8_muladd_32_34_def gf8_muladd_35_37_def gf8_muladd_38_3A_def
  gf8_muladd_3B_3D_def gf8_muladd_3E_40_def gf8_muladd_41_43_def

lemma gf8_muladd_table_02:
  "list_all2 (\<lambda>f c. f = gf8_muladd c) (concat [
     [gf8_muladd_01], gf8_muladd_02_04, gf8_muladd_05_07, gf8_muladd_08_0A, gf8_muladd_0B_0D, gf8_muladd_0E_10,
     gf8_muladd_11_13, gf8_muladd_14_16, gf8_muladd_17_19, gf8_muladd_1A_1C, gf8_muladd_1D_1F, gf8_muladd_20_22,
     gf8_muladd_23_25, gf8_muladd_26_28, gf8_muladd_29_2B, gf8_muladd_2C_2E, gf8_muladd_2F_31, gf8_muladd_32_34,
     gf8_muladd_35_37, gf8_muladd_38_3A, gf8_muladd_3B_3D, gf8_muladd_3E_40, gf8_muladd_41_43])
    [
     0x01, 0x02, 0x03, 0x04, 0x05, 0x06, 0x07, 0x08, 0x09, 0x0A, 0x0B, 0x0C, 0x0D, 0x0E, 0x0F, 0x10, 0x11, 0x12,
     0x13, 0x14, 0x15, 0x16, 0x17, 0x18, 0x19, 0x1A, 0x1B, 0x1C, 0x1D, 0x1E, 0x1F, 0x20, 0x21, 0x22, 0x23, 0x24,
     0x25, 0x26, 0x27, 0x28, 0x29, 0x2A, 0x2B, 0x2C, 0x2D, 0x2E, 0x2F, 0x30, 0x31, 0x32, 0x33, 0x34, 0x35, 0x36,
     0x37, 0x38, 0x39, 0x3A, 0x3B, 0x3C, 0x3D, 0x3E, 0x3F, 0x40, 0x41, 0x42, 0x43]"
  unfolding gf8_code_02 concat.simps append.simps list_all2_Cons list_all2_Nil
  by (intro conjI TrueI gf8_muladdI) (simp_all add: slices_simps)

end
