(* ===== verification/Ec_Gf_44.thy ===== *)
theory Ec_Gf_44
  imports Ec_Slices
begin

unbundle bit_operations_syntax

text \<open>
  The unrolled routines for the constants 0x44 to 0x82
  (\<open>gf8_muladd_44\<close> to \<open>gf8_muladd_82\<close> of \<open>src/xlators/cluster/ec/src/ec-gf.c\<close>).  A definition
  holds three consecutive routines; the names of the variables are those of the code, and the assignments
  come in its order.
\<close>

definition gf8_muladd_44_46 :: "muladd list" where
  "gf8_muladd_44_46 = [
     gf8_loop (\<lambda>(in0, in1, in2, in3, in4, in5, in6, in7).
     let out1 = in3; out0 = in2 XOR in7; tmp0 = in4 XOR in7; out7 = in1 XOR in6 XOR in7;
         out6 = in0 XOR in5 XOR in6; out4 = tmp0 XOR in3 XOR in6; out3 = out0 XOR in1 XOR in3 XOR in5;
         out2 = out0 XOR in0 XOR in4; out5 = tmp0 XOR in5
     in (out0, out1, out2, out3, out4, out5, out6, out7)),
     gf8_loop (\<lambda>(in0, in1, in2, in3, in4, in5, in6, in7).
     let out1 = in1 XOR in3; out7 = in1 XOR in6; out5 = in4 XOR in7; out6 = in0 XOR in5;
         out0 = in0 XOR in2 XOR in7; out4 = in3 XOR in6 XOR in7; out2 = out5 XOR in0;
         out3 = out0 XOR out6 XOR in1
     in (out0, out1, out2, out3, out4, out5, out6, out7)),
     gf8_loop (\<lambda>(in0, in1, in2, in3, in4, in5, in6, in7).
     let out0 = in2; out1 = in0 XOR in3; out7 = in1 XOR in7; out4 = in4 XOR in6; out5 = in5 XOR in7;
         out6 = in0 XOR in6; out3 = in1 XOR in3 XOR in5; out2 = out4 XOR out6 XOR in1 XOR in2
     in (out0, out1, out2, out3, out4, out5, out6, out7))]"

definition gf8_muladd_47_49 :: "muladd list" where
  "gf8_muladd_47_49 = [
     gf8_loop (\<lambda>(in0, in1, in2, in3, in4, in5, in6, in7).
     let out4 = in6; out7 = in1; out5 = in7; out6 = in0; tmp0 = in0 XOR in1; out3 = in1 XOR in5;
         out0 = in0 XOR in2; out1 = tmp0 XOR in3; out2 = tmp0 XOR in4
     in (out0, out1, out2, out3, out4, out5, out6, out7)),
     gf8_loop (\<lambda>(in0, in1, in2, in3, in4, in5, in6, in7).
     let tmp0 = in2 XOR in3; out1 = in3 XOR in6 XOR in7; out3 = tmp0 XOR in0; out0 = tmp0 XOR out1 XOR in5;
         tmp1 = out0 XOR in4; out2 = tmp1 XOR in7; out5 = tmp1 XOR in3; out4 = out5 XOR in1;
         out7 = tmp0 XOR out4; out6 = tmp1 XOR out3
     in (out0, out1, out2, out3, out4, out5, out6, out7)),
     gf8_loop (\<lambda>(in0, in1, in2, in3, in4, in5, in6, in7).
     let out3 = in0 XOR in2; tmp0 = in2 XOR in5; out2 = in4 XOR in5 XOR in6; tmp1 = tmp0 XOR out2 XOR in3;
         out7 = out2 XOR in1; out5 = tmp1 XOR in7; out4 = out5 XOR out7 XOR in6; out1 = tmp0 XOR out4;
         out6 = out1 XOR out7 XOR in0; out0 = tmp1 XOR out6
     in (out0, out1, out2, out3, out4, out5, out6, out7))]"

definition gf8_muladd_4A_4C :: "muladd list" where
  "gf8_muladd_4A_4C = [
     gf8_loop (\<lambda>(in0, in1, in2, in3, in4, in5, in6, in7).
     let tmp0 = in2 XOR in6; tmp1 = in3 XOR in7; out0 = tmp0 XOR in5; out3 = tmp1 XOR in0; out5 = tmp1 XOR out0;
         out4 = out0 XOR in1 XOR in4; out1 = out3 XOR in6; out2 = out4 XOR in7; out6 = out1 XOR in4;
         out7 = tmp0 XOR out2
     in (out0, out1, out2, out3, out4, out5, out6, out7)),
     gf8_loop (\<lambda>(in0, in1, in2, in3, in4, in5, in6, in7).
     let out3 = in0 XOR in7; tmp0 = in1 XOR in5; tmp1 = in2 XOR in6; tmp2 = out3 XOR in3; out7 = tmp0 XOR in4;
         out4 = tmp0 XOR tmp1; tmp3 = tmp1 XOR in0; out6 = tmp2 XOR in4; out5 = tmp2 XOR tmp3;
         out1 = tmp2 XOR in1 XOR in6; out2 = out7 XOR in6 XOR in7; out0 = tmp3 XOR in5
     in (out0, out1, out2, out3, out4, out5, out6, out7)),
     gf8_loop (\<lambda>(in0, in1, in2, in3, in4, in5, in6, in7).
     let out1 = in3 XOR in6; tmp0 = in2 XOR in5; tmp1 = out1 XOR in5 XOR in7; out0 = tmp0 XOR in7;
         tmp2 = tmp0 XOR in4; out6 = tmp1 XOR in0; out2 = tmp2 XOR in0; out5 = tmp2 XOR in6;
         out3 = tmp0 XOR out6 XOR in1; out7 = out0 XOR out5 XOR in1; out4 = tmp1 XOR out7
     in (out0, out1, out2, out3, out4, out5, out6, out7))]"

definition gf8_muladd_4D_4F :: "muladd list" where
  "gf8_muladd_4D_4F = [
     gf8_loop (\<lambda>(in0, in1, in2, in3, in4, in5, in6, in7).
     let tmp0 = in0 XOR in5; tmp1 = in1 XOR in6; out4 = in1 XOR in3 XOR in5; tmp2 = tmp0 XOR in7;
         out2 = tmp0 XOR in4; out1 = tmp1 XOR in3; out7 = tmp1 XOR in4; out0 = tmp2 XOR in2;
         out6 = tmp2 XOR in3; out5 = out7 XOR in1 XOR in2; out3 = tmp1 XOR out0 XOR in5
     in (out0, out1, out2, out3, out4, out5, out6, out7)),
     gf8_loop (\<lambda>(in0, in1, in2, in3, in4, in5, in6, in7).
     let out0 = in2 XOR in5; out7 = in1 XOR in4 XOR in7; out1 = in0 XOR in3 XOR in6; out5 = out0 XOR in6;
         out4 = out7 XOR in5; out3 = out1 XOR in1; out6 = out1 XOR in7; out2 = out4 XOR in0 XOR in2
     in (out0, out1, out2, out3, out4, out5, out6, out7)),
     gf8_loop (\<lambda>(in0, in1, in2, in3, in4, in5, in6, in7).
     let out5 = in2 XOR in6; out7 = in1 XOR in4; out3 = in0 XOR in1 XOR in6; out4 = in1 XOR in5 XOR in7;
         out0 = in0 XOR in2 XOR in5; out6 = in0 XOR in3 XOR in7; out1 = out3 XOR in3;
         out2 = out4 XOR in0 XOR in4
     in (out0, out1, out2, out3, out4, out5, out6, out7))]"

definition gf8_muladd_50_52 :: "muladd list" where
  "gf8_muladd_50_52 = [
     gf8_loop (\<lambda>(in0, in1, in2, in3, in4, in5, in6, in7).
     let out2 = in2 XOR in7; tmp0 = in3 XOR in5; out0 = out2 XOR in4 XOR in6; out1 = tmp0 XOR in7;
         tmp1 = tmp0 XOR in6; out3 = out0 XOR in3; out7 = tmp1 XOR in1; tmp2 = tmp1 XOR in0;
         out5 = out3 XOR in1 XOR in2; out4 = tmp2 XOR in2; out6 = tmp2 XOR out3
     in (out0, out1, out2, out3, out4, out5, out6, out7)),
     gf8_loop (\<lambda>(in0, in1, in2, in3, in4, in5, in6, in7).
     let out2 = in7; out3 = in2 XOR in4 XOR in6 XOR in7; out0 = out3 XOR in0; out6 = out0 XOR in5;
         out4 = out6 XOR in3 XOR in7; out1 = out0 XOR out4 XOR in1; out7 = out1 XOR in6; out5 = out7 XOR in4
     in (out0, out1, out2, out3, out4, out5, out6, out7)),
     gf8_loop (\<lambda>(in0, in1, in2, in3, in4, in5, in6, in7).
     let out2 = in1 XOR in2; tmp0 = in2 XOR in4; tmp1 = in3 XOR in5; tmp2 = in3 XOR in6; tmp3 = in0 XOR in7;
         out0 = tmp0 XOR in6; out6 = tmp0 XOR tmp3; out7 = tmp1 XOR in1; out1 = tmp1 XOR tmp3;
         out3 = tmp2 XOR in4; out5 = tmp2 XOR in1 XOR in7; out4 = tmp2 XOR out1 XOR in2
     in (out0, out1, out2, out3, out4, out5, out6, out7))]"

definition gf8_muladd_53_55 :: "muladd list" where
  "gf8_muladd_53_55 = [
     gf8_loop (\<lambda>(in0, in1, in2, in3, in4, in5, in6, in7).
     let out2 = in1; out3 = in4 XOR in6; out0 = out3 XOR in0 XOR in2; out6 = out0 XOR in7; out4 = out6 XOR in5;
         out7 = out0 XOR out4 XOR in1 XOR in3; out1 = out7 XOR in0; out5 = out7 XOR in6
     in (out0, out1, out2, out3, out4, out5, out6, out7)),
     gf8_loop (\<lambda>(in0, in1, in2, in3, in4, in5, in6, in7).
     let out1 = in3 XOR in5; tmp0 = in1 XOR in3; tmp1 = in2 XOR in4; tmp2 = in0 XOR in7;
         out5 = in1 XOR in4 XOR in6; out4 = tmp2 XOR out1; out7 = tmp0 XOR in6; out3 = tmp0 XOR tmp1;
         out0 = tmp1 XOR in7; tmp3 = tmp2 XOR in2; out2 = tmp3 XOR in6; out6 = tmp3 XOR in5
     in (out0, out1, out2, out3, out4, out5, out6, out7)),
     gf8_loop (\<lambda>(in0, in1, in2, in3, in4, in5, in6, in7).
     let tmp0 = in1 XOR in3; tmp1 = in1 XOR in4; tmp2 = in6 XOR in7; out7 = tmp0 XOR tmp2; out1 = tmp0 XOR in5;
         out3 = tmp1 XOR in2; out5 = tmp1 XOR in5 XOR in6; out2 = tmp2 XOR in0; out4 = out5 XOR out7 XOR in0;
         out6 = out2 XOR in2 XOR in5; out0 = out5 XOR out6 XOR in1
     in (out0, out1, out2, out3, out4, out5, out6, out7))]"

definition gf8_muladd_56_58 :: "muladd list" where
  "gf8_muladd_56_58 = [
     gf8_loop (\<lambda>(in0, in1, in2, in3, in4, in5, in6, in7).
     let out0 = in2 XOR in4; tmp0 = in0 XOR in2; out4 = in0 XOR in5; out7 = in1 XOR in3; out5 = in1 XOR in6;
         out6 = tmp0 XOR in7; out2 = tmp0 XOR out5; out1 = out4 XOR in3; out3 = out7 XOR in4 XOR in7
     in (out0, out1, out2, out3, out4, out5, out6, out7)),
     gf8_loop (\<lambda>(in0, in1, in2, in3, in4, in5, in6, in7).
     let tmp0 = in0 XOR in5; tmp1 = in1 XOR in7; out0 = in0 XOR in2 XOR in4; out5 = in1 XOR in5 XOR in6;
         out4 = tmp0 XOR in4; out1 = tmp0 XOR in1 XOR in3; out2 = tmp0 XOR out5; out3 = tmp1 XOR in4;
         out7 = tmp1 XOR in3; out6 = tmp1 XOR out2 XOR in2
     in (out0, out1, out2, out3, out4, out5, out6, out7)),
     gf8_loop (\<lambda>(in0, in1, in2, in3, in4, in5, in6, in7).
     let out2 = in2 XOR in5; tmp0 = in2 XOR in3 XOR in4; out5 = tmp0 XOR in1; out6 = tmp0 XOR in0 XOR in5;
         out3 = out6 XOR in7; tmp1 = out2 XOR out5; out7 = tmp1 XOR in6; out4 = tmp1 XOR out3 XOR in3;
         out0 = out4 XOR out7 XOR in0; out1 = tmp0 XOR out0
     in (out0, out1, out2, out3, out4, out5, out6, out7))]"

definition gf8_muladd_59_5B :: "muladd list" where
  "gf8_muladd_59_5B = [
     gf8_loop (\<lambda>(in0, in1, in2, in3, in4, in5, in6, in7).
     let out2 = in5; tmp0 = in0 XOR in5 XOR in7; out3 = tmp0 XOR in2 XOR in4; out0 = out3 XOR in6;
         tmp1 = out0 XOR in7; out6 = tmp1 XOR in3; out5 = out6 XOR in0 XOR in1 XOR in6; out4 = tmp0 XOR out5;
         out1 = tmp1 XOR out4; out7 = out1 XOR in4
     in (out0, out1, out2, out3, out4, out5, out6, out7)),
     gf8_loop (\<lambda>(in0, in1, in2, in3, in4, in5, in6, in7).
     let tmp0 = in1 XOR in2; tmp1 = in2 XOR in5; out5 = tmp0 XOR in3; out4 = tmp0 XOR in0; tmp2 = tmp1 XOR in4;
         out2 = tmp1 XOR in1 XOR in7; out7 = tmp2 XOR out5; out6 = out4 XOR out7 XOR in5; out0 = tmp2 XOR in6;
         out1 = out0 XOR out6 XOR in7; out3 = tmp1 XOR out6
     in (out0, out1, out2, out3, out4, out5, out6, out7)),
     gf8_loop (\<lambda>(in0, in1, in2, in3, in4, in5, in6, in7).
     let tmp0 = in2 XOR in3; tmp1 = in0 XOR in4; tmp2 = in1 XOR in5; out5 = tmp0 XOR tmp2; tmp3 = tmp1 XOR in6;
         out3 = tmp1 XOR in5; out2 = tmp2 XOR in7; tmp4 = out3 XOR in2; out7 = out2 XOR in3 XOR in4;
         out0 = tmp4 XOR in6; out6 = tmp0 XOR tmp3; out4 = tmp2 XOR tmp4; out1 = tmp3 XOR out7
     in (out0, out1, out2, out3, out4, out5, out6, out7))]"

definition gf8_muladd_5C_5E :: "muladd list" where
  "gf8_muladd_5C_5E = [
     gf8_loop (\<lambda>(in0, in1, in2, in3, in4, in5, in6, in7).
     let tmp0 = in3 XOR in6; tmp1 = in0 XOR in2 XOR in5; out1 = tmp0 XOR in5; tmp2 = tmp0 XOR in1;
         out2 = tmp1 XOR in6; out6 = tmp1 XOR in3; out4 = tmp2 XOR in0; out7 = tmp2 XOR in4;
         out3 = tmp1 XOR out7; out0 = out3 XOR out4 XOR in7; out5 = out0 XOR in1 XOR in5
     in (out0, out1, out2, out3, out4, out5, out6, out7)),
     gf8_loop (\<lambda>(in0, in1, in2, in3, in4, in5, in6, in7).
     let tmp0 = in0 XOR in1; tmp1 = in0 XOR in6; out2 = tmp1 XOR in5; tmp2 = out2 XOR in3; out6 = tmp2 XOR in2;
         out1 = tmp0 XOR tmp2; tmp3 = out1 XOR in4 XOR in5; out4 = tmp3 XOR in0; out7 = tmp3 XOR in7;
         tmp4 = out4 XOR out6; out5 = tmp4 XOR in7; out0 = tmp0 XOR out5; out3 = tmp1 XOR tmp4
     in (out0, out1, out2, out3, out4, out5, out6, out7)),
     gf8_loop (\<lambda>(in0, in1, in2, in3, in4, in5, in6, in7).
     let tmp0 = in2 XOR in5; tmp1 = in3 XOR in5; tmp2 = in1 XOR in7; out7 = in1 XOR in3 XOR in4;
         out0 = tmp0 XOR in4; tmp3 = tmp1 XOR in0; out5 = tmp2 XOR in2; out1 = tmp3 XOR in6;
         out6 = tmp0 XOR tmp3; tmp4 = tmp2 XOR out1; out3 = tmp4 XOR in4; out4 = tmp1 XOR tmp4;
         out2 = tmp0 XOR out4
     in (out0, out1, out2, out3, out4, out5, out6, out7))]"

definition gf8_muladd_5F_61 :: "muladd list" where
  "gf8_muladd_5F_61 = [
     gf8_loop (\<lambda>(in0, in1, in2, in3, in4, in5, in6, in7).
     let tmp0 = in1 XOR in5; tmp1 = in0 XOR in6; tmp2 = tmp0 XOR in7; tmp3 = tmp1 XOR in3; out2 = tmp1 XOR tmp2;
         out5 = tmp2 XOR in2; out6 = tmp3 XOR in2; out3 = out2 XOR in4; out4 = out3 XOR in5;
         out1 = tmp0 XOR tmp3; out7 = tmp3 XOR out4; out0 = out4 XOR out5 XOR in6
     in (out0, out1, out2, out3, out4, out5, out6, out7)),
     gf8_loop (\<lambda>(in0, in1, in2, in3, in4, in5, in6, in7).
     let out4 = in2 XOR in5; tmp0 = in3 XOR in6; out1 = in3 XOR in4 XOR in7; out7 = out4 XOR in1;
         tmp1 = out4 XOR in4; out0 = tmp0 XOR in2; out5 = tmp0 XOR in0; out2 = tmp0 XOR tmp1;
         out3 = tmp1 XOR in7; out6 = out3 XOR out7 XOR in0
     in (out0, out1, out2, out3, out4, out5, out6, out7)),
     gf8_loop (\<lambda>(in0, in1, in2, in3, in4, in5, in6, in7).
     let tmp0 = in2 XOR in5; out4 = tmp0 XOR in4; tmp1 = out4 XOR in3; out3 = tmp1 XOR in7;
         out2 = tmp1 XOR in2 XOR in6; out1 = tmp0 XOR out3 XOR in1; out0 = out2 XOR out4 XOR in0;
         out7 = tmp1 XOR out1; out6 = out0 XOR out1 XOR in2; out5 = tmp0 XOR out0
     in (out0, out1, out2, out3, out4, out5, out6, out7))]"

definition gf8_muladd_62_64 :: "muladd list" where
  "gf8_muladd_62_64 = [
     gf8_loop (\<lambda>(in0, in1, in2, in3, in4, in5, in6, in7).
     let out3 = in4 XOR in5; tmp0 = in0 XOR in3 XOR in4; out1 = tmp0 XOR in7; out5 = tmp0 XOR in6;
         tmp1 = out1 XOR in0; tmp2 = tmp1 XOR out3; out4 = tmp2 XOR in2; tmp3 = tmp2 XOR in1;
         out0 = out4 XOR in5 XOR in6; out7 = tmp3 XOR out0; out6 = tmp0 XOR tmp3; out2 = tmp1 XOR out7
     in (out0, out1, out2, out3, out4, out5, out6, out7)),
     gf8_loop (\<lambda>(in0, in1, in2, in3, in4, in5, in6, in7).
     let tmp0 = in3 XOR in4; tmp1 = in1 XOR in7; out3 = tmp0 XOR in5; tmp2 = out3 XOR in6;
         out4 = out3 XOR in2 XOR in7; out5 = tmp2 XOR in0; tmp3 = out5 XOR in3; out0 = tmp3 XOR out4;
         out2 = tmp1 XOR tmp2; out6 = tmp1 XOR tmp3; tmp4 = tmp0 XOR out2; out1 = tmp4 XOR out5;
         out7 = tmp4 XOR in2
     in (out0, out1, out2, out3, out4, out5, out6, out7)),
     gf8_loop (\<lambda>(in0, in1, in2, in3, in4, in5, in6, in7).
     let out0 = in2 XOR in3; out1 = in3 XOR in4; out7 = in1 XOR in2; tmp0 = in4 XOR in5; tmp1 = in0 XOR in7;
         out4 = in5 XOR in6 XOR in7; out2 = tmp0 XOR out0 XOR in0; out3 = tmp0 XOR out7 XOR in6;
         out5 = tmp1 XOR in6; out6 = tmp1 XOR in1
     in (out0, out1, out2, out3, out4, out5, out6, out7))]"

definition gf8_muladd_65_67 :: "muladd list" where
  "gf8_muladd_65_67 = [
     gf8_loop (\<lambda>(in0, in1, in2, in3, in4, in5, in6, in7).
     let tmp0 = in0 XOR in3; tmp1 = in4 XOR in5; tmp2 = in6 XOR in7; out7 = in1 XOR in2 XOR in7;
         out1 = in1 XOR in3 XOR in4; out0 = tmp0 XOR in2; out2 = tmp0 XOR tmp1; out4 = tmp1 XOR tmp2;
         tmp3 = tmp2 XOR in0; out3 = out4 XOR out7 XOR in3; out5 = tmp3 XOR in5; out6 = tmp3 XOR in1
     in (out0, out1, out2, out3, out4, out5, out6, out7)),
     gf8_loop (\<lambda>(in0, in1, in2, in3, in4, in5, in6, in7).
     let tmp0 = in1 XOR in2; tmp1 = in2 XOR in3; tmp2 = in0 XOR in4; out7 = tmp0 XOR in6; out0 = tmp1 XOR in7;
         out1 = tmp2 XOR in3; tmp3 = tmp2 XOR in6; tmp4 = out1 XOR in5; out5 = tmp3 XOR in7;
         out4 = tmp3 XOR tmp4; out2 = tmp0 XOR tmp4 XOR in7; out6 = tmp1 XOR out2 XOR in4; out3 = tmp3 XOR out6
     in (out0, out1, out2, out3, out4, out5, out6, out7)),
     gf8_loop (\<lambda>(in0, in1, in2, in3, in4, in5, in6, in7).
     let tmp0 = in0 XOR in3; tmp1 = tmp0 XOR in1; tmp2 = tmp0 XOR in7; out1 = tmp1 XOR in4; out0 = tmp2 XOR in2;
         tmp3 = out1 XOR in7; out2 = tmp3 XOR in5; out3 = out2 XOR in0 XOR in6; out7 = tmp1 XOR out0 XOR in6;
         out5 = tmp1 XOR out3; out4 = tmp2 XOR out5; out6 = tmp3 XOR out4
     in (out0, out1, out2, out3, out4, out5, out6, out7))]"

definition gf8_muladd_68_6A :: "muladd list" where
  "gf8_muladd_68_6A = [
     gf8_loop (\<lambda>(in0, in1, in2, in3, in4, in5, in6, in7).
     let tmp0 = in3 XOR in4; tmp1 = in2 XOR in3 XOR in5; tmp2 = tmp0 XOR in1; tmp3 = tmp0 XOR in6;
         out0 = tmp1 XOR in6; out6 = tmp2 XOR in0; out7 = tmp1 XOR tmp2; out1 = tmp3 XOR in7;
         out2 = out1 XOR in2; out4 = tmp2 XOR out2; out3 = out4 XOR out6 XOR in3; out5 = tmp3 XOR out3
     in (out0, out1, out2, out3, out4, out5, out6, out7)),
     gf8_loop (\<lambda>(in0, in1, in2, in3, in4, in5, in6, in7).
     let tmp0 = in6 XOR in7; out2 = tmp0 XOR in3 XOR in4; out1 = out2 XOR in1; out3 = out2 XOR in0 XOR in2;
         out4 = out1 XOR in2 XOR in3; out6 = out1 XOR in0 XOR in7; out7 = out4 XOR in5 XOR in6;
         out5 = out4 XOR out6 XOR in5; out0 = tmp0 XOR out5
     in (out0, out1, out2, out3, out4, out5, out6, out7)),
     gf8_loop (\<lambda>(in0, in1, in2, in3, in4, in5, in6, in7).
     let tmp0 = in2 XOR in6; out3 = in0 XOR in4 XOR in6; tmp1 = tmp0 XOR in3; out4 = tmp1 XOR in1;
         tmp2 = tmp1 XOR in7; out2 = out4 XOR in4; out0 = tmp2 XOR in5; out5 = tmp2 XOR out3;
         out7 = out2 XOR in3 XOR in5; out1 = tmp0 XOR out5; out6 = tmp1 XOR out7 XOR in0
     in (out0, out1, out2, out3, out4, out5, out6, out7))]"

definition gf8_muladd_6B_6D :: "muladd list" where
  "gf8_muladd_6B_6D = [
     gf8_loop (\<lambda>(in0, in1, in2, in3, in4, in5, in6, in7).
     let tmp0 = in4 XOR in6; out2 = tmp0 XOR in1 XOR in3; out4 = out2 XOR in2; tmp1 = out2 XOR in0;
         out7 = out4 XOR in3 XOR in5 XOR in7; out1 = tmp1 XOR in7; out3 = tmp1 XOR in1; out6 = tmp1 XOR in5;
         out0 = tmp1 XOR out7 XOR in6; out5 = tmp0 XOR out0
     in (out0, out1, out2, out3, out4, out5, out6, out7)),
     gf8_loop (\<lambda>(in0, in1, in2, in3, in4, in5, in6, in7).
     let out4 = in1; tmp0 = in2 XOR in3; out5 = in0 XOR in2; out1 = in3 XOR in4 XOR in6; tmp1 = out5 XOR in1;
         out0 = tmp0 XOR in5; out6 = tmp0 XOR tmp1; out3 = tmp1 XOR in4; out7 = out3 XOR in0;
         out2 = out6 XOR out7 XOR in7
     in (out0, out1, out2, out3, out4, out5, out6, out7)),
     gf8_loop (\<lambda>(in0, in1, in2, in3, in4, in5, in6, in7).
     let out4 = in1 XOR in4; tmp0 = in0 XOR in2; tmp1 = out4 XOR in3; out7 = out4 XOR in2 XOR in7;
         out5 = tmp0 XOR in5; out3 = tmp0 XOR tmp1; out1 = tmp1 XOR in6; out0 = out5 XOR in3;
         out2 = out3 XOR out7 XOR in4; out6 = out1 XOR in0 XOR in4
     in (out0, out1, out2, out3, out4, out5, out6, out7))]"

definition gf8_muladd_6E_70 :: "muladd list" where
  "gf8_muladd_6E_70 = [
     gf8_loop (\<lambda>(in0, in1, in2, in3, in4, in5, in6, in7).
     let tmp0 = in1 XOR in3; tmp1 = in0 XOR in4; out4 = tmp0 XOR in7; out6 = tmp0 XOR in0 XOR in5;
         out5 = tmp1 XOR in2; tmp2 = tmp1 XOR in3; out3 = tmp2 XOR out4; out1 = tmp2 XOR in6;
         out2 = tmp0 XOR out5; out0 = out2 XOR out3 XOR in5; out7 = out1 XOR out2 XOR in4
     in (out0, out1, out2, out3, out4, out5, out6, out7)),
     gf8_loop (\<lambda>(in0, in1, in2, in3, in4, in5, in6, in7).
     let tmp0 = in3 XOR in7; tmp1 = tmp0 XOR in4; tmp2 = tmp0 XOR in0 XOR in2; out4 = tmp1 XOR in1;
         out0 = tmp2 XOR in5; out3 = out4 XOR in0; out2 = out3 XOR in7; out1 = out2 XOR in6;
         out6 = out1 XOR in4 XOR in5; out7 = tmp2 XOR out1; out5 = tmp1 XOR out0
     in (out0, out1, out2, out3, out4, out5, out6, out7)),
     gf8_loop (\<lambda>(in0, in1, in2, in3, in4, in5, in6, in7).
     let out3 = in2; tmp0 = in2 XOR in4; out2 = in2 XOR in3 XOR in5; tmp1 = tmp0 XOR in6; tmp2 = out2 XOR in7;
         out0 = tmp1 XOR in3; out4 = tmp1 XOR in0; out7 = tmp2 XOR in1; out6 = out4 XOR in1;
         out5 = out7 XOR in0 XOR in2; out1 = tmp0 XOR tmp2
     in (out0, out1, out2, out3, out4, out5, out6, out7))]"

definition gf8_muladd_71_73 :: "muladd list" where
  "gf8_muladd_71_73 = [
     gf8_loop (\<lambda>(in0, in1, in2, in3, in4, in5, in6, in7).
     let out2 = in3 XOR in5; out3 = in2 XOR in3; tmp0 = in0 XOR in2; tmp1 = out2 XOR in1; out4 = tmp0 XOR in6;
         tmp2 = tmp0 XOR in1; out7 = tmp1 XOR in2; out1 = tmp1 XOR in4 XOR in7; out0 = out4 XOR in3 XOR in4;
         out6 = tmp2 XOR in4; out5 = tmp2 XOR out3 XOR in7
     in (out0, out1, out2, out3, out4, out5, out6, out7)),
     gf8_loop (\<lambda>(in0, in1, in2, in3, in4, in5, in6, in7).
     let out3 = in7; tmp0 = in0 XOR in4; tmp1 = tmp0 XOR in3 XOR in7; out1 = tmp1 XOR in5; out5 = out1 XOR in1;
         tmp2 = tmp0 XOR out5; out2 = tmp2 XOR in2; out7 = out2 XOR in6; out6 = tmp1 XOR out7;
         out4 = tmp2 XOR out6; out0 = out4 XOR in0
     in (out0, out1, out2, out3, out4, out5, out6, out7)),
     gf8_loop (\<lambda>(in0, in1, in2, in3, in4, in5, in6, in7).
     let out3 = in3 XOR in7; out2 = out3 XOR in1 XOR in5; out1 = out2 XOR in0 XOR in4; out5 = out1 XOR in5;
         out6 = out1 XOR out3 XOR in2; out0 = out2 XOR out6 XOR in6; out7 = out0 XOR out1 XOR in3;
         out4 = out0 XOR in4
     in (out0, out1, out2, out3, out4, out5, out6, out7))]"

definition gf8_muladd_74_76 :: "muladd list" where
  "gf8_muladd_74_76 = [
     gf8_loop (\<lambda>(in0, in1, in2, in3, in4, in5, in6, in7).
     let tmp0 = in3 XOR in4; tmp1 = in1 XOR in2 XOR in6; out4 = in0 XOR in4 XOR in7; out5 = in0 XOR in1 XOR in5;
         out0 = tmp0 XOR in2; out1 = tmp0 XOR in5; out3 = tmp1 XOR in7; out6 = tmp1 XOR in0;
         out2 = tmp1 XOR out5 XOR in3; out7 = out3 XOR in3 XOR in6
     in (out0, out1, out2, out3, out4, out5, out6, out7)),
     gf8_loop (\<lambda>(in0, in1, in2, in3, in4, in5, in6, in7).
     let out4 = in0 XOR in7; tmp0 = in1 XOR in3; out5 = in0 XOR in1; out7 = tmp0 XOR in2; tmp1 = tmp0 XOR in4;
         out6 = out5 XOR in2; tmp2 = out7 XOR in6; out1 = tmp1 XOR in5; out0 = tmp1 XOR out6;
         out3 = tmp2 XOR in7; out2 = tmp2 XOR out6 XOR in5
     in (out0, out1, out2, out3, out4, out5, out6, out7)),
     gf8_loop (\<lambda>(in0, in1, in2, in3, in4, in5, in6, in7).
     let out3 = in1 XOR in6; tmp0 = in0 XOR in5; tmp1 = in3 XOR in7; tmp2 = tmp0 XOR in4; tmp3 = tmp1 XOR in2;
         out5 = tmp2 XOR in1; out1 = tmp2 XOR in3; out0 = tmp3 XOR in4; out4 = out1 XOR in5;
         out7 = tmp3 XOR out3; out2 = tmp0 XOR out7; out6 = tmp1 XOR out2
     in (out0, out1, out2, out3, out4, out5, out6, out7))]"

definition gf8_muladd_77_79 :: "muladd list" where
  "gf8_muladd_77_79 = [
     gf8_loop (\<lambda>(in0, in1, in2, in3, in4, in5, in6, in7).
     let out4 = in0 XOR in3; tmp0 = in1 XOR in4; tmp1 = in1 XOR in6; tmp2 = out4 XOR in5; out5 = tmp0 XOR in0;
         out1 = tmp0 XOR tmp2; out3 = tmp1 XOR in3; out2 = tmp1 XOR tmp2 XOR in7; out7 = out3 XOR in2;
         tmp3 = out7 XOR in6; out6 = tmp2 XOR tmp3; out0 = tmp3 XOR out5 XOR in7
     in (out0, out1, out2, out3, out4, out5, out6, out7)),
     gf8_loop (\<lambda>(in0, in1, in2, in3, in4, in5, in6, in7).
     let tmp0 = in0 XOR in3; tmp1 = in2 XOR in7; tmp2 = in0 XOR in5 XOR in6; out2 = tmp1 XOR in3;
         out3 = tmp2 XOR in2; out5 = out3 XOR in1 XOR in3; out0 = tmp0 XOR out3 XOR in4; out1 = tmp1 XOR out0;
         out4 = out1 XOR out5 XOR in5; out7 = tmp0 XOR out4; out6 = tmp2 XOR out7
     in (out0, out1, out2, out3, out4, out5, out6, out7)),
     gf8_loop (\<lambda>(in0, in1, in2, in3, in4, in5, in6, in7).
     let out2 = in3 XOR in7; tmp0 = in3 XOR in4; tmp1 = in1 XOR in5; tmp2 = tmp1 XOR in2;
         out4 = tmp2 XOR in0 XOR in7; tmp3 = out4 XOR in5; out5 = tmp3 XOR out2 XOR in6; out7 = tmp0 XOR tmp2;
         out6 = tmp0 XOR tmp3; out3 = tmp1 XOR out5; out0 = out3 XOR in4; out1 = tmp3 XOR out0
     in (out0, out1, out2, out3, out4, out5, out6, out7))]"

definition gf8_muladd_7A_7C :: "muladd list" where
  "gf8_muladd_7A_7C = [
     gf8_loop (\<lambda>(in0, in1, in2, in3, in4, in5, in6, in7).
     let tmp0 = in1 XOR in2; out2 = tmp0 XOR in3; tmp1 = out2 XOR in4; out4 = tmp1 XOR in0 XOR in5;
         out5 = out4 XOR in6; out6 = out5 XOR in7; out7 = out6 XOR in0; out0 = out7 XOR in1;
         out1 = tmp0 XOR out6; out3 = tmp1 XOR out6
     in (out0, out1, out2, out3, out4, out5, out6, out7)),
     gf8_loop (\<lambda>(in0, in1, in2, in3, in4, in5, in6, in7).
     let out2 = in1 XOR in3; tmp0 = in0 XOR in5; out4 = tmp0 XOR out2 XOR in2; tmp1 = out4 XOR in4;
         out6 = tmp1 XOR in7; out5 = tmp1 XOR in5 XOR in6; out0 = out6 XOR in1 XOR in6; tmp2 = out0 XOR in2;
         out1 = tmp2 XOR in1; out3 = tmp2 XOR in4; out7 = tmp0 XOR out5
     in (out0, out1, out2, out3, out4, out5, out6, out7)),
     gf8_loop (\<lambda>(in0, in1, in2, in3, in4, in5, in6, in7).
     let tmp0 = in3 XOR in5; tmp1 = tmp0 XOR in4; out0 = tmp1 XOR in2; out1 = tmp1 XOR in6;
         out7 = out0 XOR in1 XOR in5 XOR in7; out5 = out1 XOR out7 XOR in0; out3 = out5 XOR in6;
         out6 = tmp0 XOR out5; out2 = out6 XOR in1; out4 = out2 XOR out7 XOR in5
     in (out0, out1, out2, out3, out4, out5, out6, out7))]"

definition gf8_muladd_7D_7F :: "muladd list" where
  "gf8_muladd_7D_7F = [
     gf8_loop (\<lambda>(in0, in1, in2, in3, in4, in5, in6, in7).
     let tmp0 = in1 XOR in2; tmp1 = tmp0 XOR in3; tmp2 = tmp0 XOR in6; out7 = tmp1 XOR in4; tmp3 = tmp2 XOR in0;
         out5 = tmp3 XOR in7; out4 = tmp3 XOR in2 XOR in5; out2 = tmp1 XOR out5; out6 = tmp2 XOR out2;
         out0 = out4 XOR out7 XOR in6; out1 = tmp3 XOR out0; out3 = out6 XOR in5
     in (out0, out1, out2, out3, out4, out5, out6, out7)),
     gf8_loop (\<lambda>(in0, in1, in2, in3, in4, in5, in6, in7).
     let tmp0 = in3 XOR in4; tmp1 = in0 XOR in5; out1 = tmp0 XOR tmp1 XOR in6; out3 = tmp1 XOR in1;
         out4 = out1 XOR in1 XOR in7; tmp2 = out4 XOR in3; out5 = tmp2 XOR in2; out6 = tmp0 XOR out5;
         out7 = tmp1 XOR out4 XOR in2; out2 = out6 XOR in5 XOR in7; out0 = tmp2 XOR out2
     in (out0, out1, out2, out3, out4, out5, out6, out7)),
     gf8_loop (\<lambda>(in0, in1, in2, in3, in4, in5, in6, in7).
     let tmp0 = in2 XOR in7; tmp1 = tmp0 XOR in3 XOR in5; tmp2 = tmp1 XOR in0; out0 = tmp2 XOR in4;
         out6 = tmp2 XOR in1; out3 = tmp0 XOR out6; tmp3 = out3 XOR in6; out1 = tmp3 XOR in4;
         out2 = tmp3 XOR in5; out4 = tmp3 XOR in7; out5 = tmp1 XOR out1; out7 = out0 XOR out4 XOR in3
     in (out0, out1, out2, out3, out4, out5, out6, out7))]"

definition gf8_muladd_80_82 :: "muladd list" where
  "gf8_muladd_80_82 = [
     gf8_loop (\<lambda>(in0, in1, in2, in3, in4, in5, in6, in7).
     let tmp0 = in2 XOR in3; tmp1 = in4 XOR in5; out1 = in2 XOR in6 XOR in7; out5 = tmp0 XOR in4;
         tmp2 = tmp0 XOR in1; out6 = tmp1 XOR in3; out7 = tmp1 XOR in0 XOR in6; out4 = tmp2 XOR in7;
         out3 = tmp2 XOR out6; out2 = out3 XOR out5 XOR in6; out0 = out2 XOR in3 XOR in7
     in (out0, out1, out2, out3, out4, out5, out6, out7)),
     gf8_loop (\<lambda>(in0, in1, in2, in3, in4, in5, in6, in7).
     let tmp0 = in4 XOR in6; tmp1 = tmp0 XOR in3; out6 = tmp1 XOR in5; out5 = out6 XOR in2 XOR in6;
         out3 = out5 XOR in1; out2 = tmp0 XOR out3; out1 = out3 XOR out6 XOR in7; out4 = tmp1 XOR out1;
         out7 = out2 XOR out4 XOR in0; out0 = out7 XOR in1 XOR in4
     in (out0, out1, out2, out3, out4, out5, out6, out7)),
     gf8_loop (\<lambda>(in0, in1, in2, in3, in4, in5, in6, in7).
     let out4 = in1 XOR in2; tmp0 = in6 XOR in7; out5 = in2 XOR in3; out6 = in3 XOR in4;
         out7 = in0 XOR in4 XOR in5; out0 = in1 XOR in5 XOR in6; out1 = tmp0 XOR in0 XOR in2;
         out2 = tmp0 XOR in3 XOR in5; out3 = tmp0 XOR out0 XOR in4
     in (out0, out1, out2, out3, out4, out5, out6, out7))]"

lemmas gf8_code_44 =
  gf8_muladd_44_46_def gf8_muladd_47_49_def gf8_muladd_4A_4C_def gf8_muladd_4D_4F_def gf8_muladd_50_52_def
  gf8_muladd_53_55_def gf8_muladd_56_58_def gf8_muladd_59_5B_def gf8_muladd_5C_5E_def gf8_muladd_5F_61_def
  gf8_muladd_62_64_def gf8_muladd_65_67_def gf8_muladd_68_6A_def gf8_muladd_6B_6D_def gf8_muladd_6E_70_def
  gf8_muladd_71_73_def gf8_muladd_74_76_def gf8_muladd_77_79_def gf8_muladd_7A_7C_def gf8_muladd_7D_7F_def
  gf8_muladd_80_82_def

lemma gf8_muladd_table_44:
  "list_all2 (\<lambda>f c. f = gf8_muladd c) (concat [
     gf8_muladd_44_46, gf8_muladd_47_49, gf8_muladd_4A_4C, gf8_muladd_4D_4F, gf8_muladd_50_52, gf8_muladd_53_55,
     gf8_muladd_56_58, gf8_muladd_59_5B, gf8_muladd_5C_5E, gf8_muladd_5F_61, gf8_muladd_62_64, gf8_muladd_65_67,
     gf8_muladd_68_6A, gf8_muladd_6B_6D, gf8_muladd_6E_70, gf8_muladd_71_73, gf8_muladd_74_76, gf8_muladd_77_79,
     gf8_muladd_7A_7C, gf8_muladd_7D_7F, gf8_muladd_80_82])
    [
     0x44, 0x45, 0x46, 0x47, 0x48, 0x49, 0x4A, 0x4B, 0x4C, 0x4D, 0x4E, 0x4F, 0x50, 0x51, 0x52, 0x53, 0x54, 0x55,
     0x56, 0x57, 0x58, 0x59, 0x5A, 0x5B, 0x5C, 0x5D, 0x5E, 0x5F, 0x60, 0x61, 0x62, 0x63, 0x64, 0x65, 0x66, 0x67,
     0x68, 0x69, 0x6A, 0x6B, 0x6C, 0x6D, 0x6E, 0x6F, 0x70, 0x71, 0x72, 0x73, 0x74, 0x75, 0x76, 0x77, 0x78, 0x79,
     0x7A, 0x7B, 0x7C, 0x7D, 0x7E, 0x7F, 0x80, 0x81, 0x82]"
  unfolding gf8_code_44 concat.simps append.simps list_all2_Cons list_all2_Nil
  by (intro conjI TrueI gf8_muladdI) (simp_all add: slices_simps)

end
