(* ===== verification/Ec_Gf_83.thy ===== *)
theory Ec_Gf_83
  imports Ec_Slices
begin

unbundle bit_operations_syntax

text \<open>
  The unrolled routines for the constants 0x83 to 0xC1
  (\<open>gf8_muladd_83\<close> to \<open>gf8_muladd_C1\<close> of \<open>src/xlators/cluster/ec/src/ec-gf.c\<close>).  A definition
  holds three consecutive routines; the names of the variables are those of the code, and the assignments
  come in its order.
\<close>

definition gf8_muladd_83_85 :: "muladd list" where
  "gf8_muladd_83_85 = [
     gf8_loop (\<lambda>(in0, in1, in2, in3, in4, in5, in6, in7).
     let tmp0 = in0 XOR in1; tmp1 = in2 XOR in5; tmp2 = in3 XOR in6; out4 = in1 XOR in2 XOR in4;
         out0 = tmp0 XOR in5 XOR in6; out5 = tmp1 XOR in3; tmp3 = tmp1 XOR in7; out6 = tmp2 XOR in4;
         out2 = tmp2 XOR tmp3; tmp4 = tmp3 XOR out4; out1 = tmp3 XOR out0; out3 = tmp4 XOR in3;
         out7 = tmp0 XOR tmp4
     in (out0, out1, out2, out3, out4, out5, out6, out7)),
     gf8_loop (\<lambda>(in0, in1, in2, in3, in4, in5, in6, in7).
     let out1 = in2 XOR in6; out6 = in3 XOR in5; out0 = in1 XOR in5 XOR in7; out7 = in0 XOR in4 XOR in6;
         out4 = in1 XOR in3 XOR in6; out5 = in2 XOR in4 XOR in7; out2 = out6 XOR in0 XOR in1;
         out3 = out5 XOR in5 XOR in6
     in (out0, out1, out2, out3, out4, out5, out6, out7)),
     gf8_loop (\<lambda>(in0, in1, in2, in3, in4, in5, in6, in7).
     let tmp0 = in1 XOR in6; tmp1 = in3 XOR in6; tmp2 = tmp0 XOR in4; out1 = tmp0 XOR in2; out6 = tmp1 XOR in5;
         out4 = tmp2 XOR in3; tmp3 = out1 XOR out6; out2 = tmp3 XOR in0; out3 = tmp2 XOR tmp3 XOR in7;
         out7 = out2 XOR out3 XOR in1; out5 = tmp1 XOR out3; out0 = tmp2 XOR out7 XOR in5
     in (out0, out1, out2, out3, out4, out5, out6, out7))]"

definition gf8_muladd_86_88 :: "muladd list" where
  "gf8_muladd_86_88 = [
     gf8_loop (\<lambda>(in0, in1, in2, in3, in4, in5, in6, in7).
     let out6 = in3; out7 = in0 XOR in4; out0 = in1 XOR in5; out5 = in2 XOR in7; out3 = in4 XOR in5 XOR in6;
         out1 = in0 XOR in2 XOR in6; out4 = in1 XOR in6 XOR in7; out2 = in0 XOR in3 XOR in5 XOR in7
     in (out0, out1, out2, out3, out4, out5, out6, out7)),
     gf8_loop (\<lambda>(in0, in1, in2, in3, in4, in5, in6, in7).
     let out6 = in3 XOR in6; tmp0 = in0 XOR in1; out7 = in0 XOR in4 XOR in7; out5 = in2 XOR in5 XOR in7;
         out3 = out6 XOR in4 XOR in5; out0 = tmp0 XOR in5; tmp1 = tmp0 XOR in6; out2 = out5 XOR in0 XOR in3;
         out1 = tmp1 XOR in2; out4 = tmp1 XOR out7
     in (out0, out1, out2, out3, out4, out5, out6, out7)),
     gf8_loop (\<lambda>(in0, in1, in2, in3, in4, in5, in6, in7).
     let out1 = in2 XOR in7; tmp0 = in5 XOR in6; out0 = in1 XOR in6 XOR in7; out6 = in4 XOR in5 XOR in7;
         out3 = out0 XOR out1 XOR in0 XOR in4; out7 = tmp0 XOR in0; tmp1 = tmp0 XOR in3; out2 = out0 XOR in3;
         out4 = tmp1 XOR in2; out5 = tmp1 XOR out6
     in (out0, out1, out2, out3, out4, out5, out6, out7))]"

definition gf8_muladd_89_8B :: "muladd list" where
  "gf8_muladd_89_8B = [
     gf8_loop (\<lambda>(in0, in1, in2, in3, in4, in5, in6, in7).
     let tmp0 = in0 XOR in7; tmp1 = in2 XOR in7; tmp2 = tmp0 XOR in6; out1 = tmp1 XOR in1; out7 = tmp2 XOR in5;
         out0 = tmp2 XOR in1; out2 = out1 XOR in3 XOR in6; out6 = out7 XOR in0 XOR in4; out5 = out6 XOR in3;
         out3 = tmp0 XOR out2 XOR in4; out4 = tmp1 XOR out5
     in (out0, out1, out2, out3, out4, out5, out6, out7)),
     gf8_loop (\<lambda>(in0, in1, in2, in3, in4, in5, in6, in7).
     let out0 = in1 XOR in6; out7 = in0 XOR in5; out2 = in3 XOR in6; out6 = in4 XOR in7;
         out1 = in0 XOR in2 XOR in7; out3 = out0 XOR out6 XOR in0; out4 = out1 XOR out7 XOR in6;
         out5 = out2 XOR in7
     in (out0, out1, out2, out3, out4, out5, out6, out7)),
     gf8_loop (\<lambda>(in0, in1, in2, in3, in4, in5, in6, in7).
     let tmp0 = in0 XOR in1; tmp1 = in3 XOR in6; tmp2 = in5 XOR in7; tmp3 = tmp0 XOR in7; out0 = tmp0 XOR in6;
         out2 = tmp1 XOR in2; out5 = tmp1 XOR tmp2; out7 = tmp2 XOR in0; tmp4 = tmp3 XOR in4;
         out1 = tmp3 XOR in2; out6 = tmp4 XOR out0; out4 = out6 XOR in2 XOR in5; out3 = tmp1 XOR tmp4
     in (out0, out1, out2, out3, out4, out5, out6, out7))]"

definition gf8_muladd_8C_8E :: "muladd list" where
  "gf8_muladd_8C_8E = [
     gf8_loop (\<lambda>(in0, in1, in2, in3, in4, in5, in6, in7).
     let out1 = in2; out0 = in1 XOR in7; out7 = in0 XOR in6; out5 = in4 XOR in6; out6 = in5 XOR in7;
         out2 = out0 XOR in0 XOR in3; out3 = out5 XOR out7 XOR in2 XOR in7; out4 = out6 XOR in3
     in (out0, out1, out2, out3, out4, out5, out6, out7)),
     gf8_loop (\<lambda>(in0, in1, in2, in3, in4, in5, in6, in7).
     let out1 = in1 XOR in2; tmp0 = in6 XOR in7; out0 = in0 XOR in1 XOR in7; out5 = in4 XOR in5 XOR in6;
         out6 = tmp0 XOR in5; out7 = tmp0 XOR in0; out4 = tmp0 XOR out5 XOR in3; out2 = out0 XOR in2 XOR in3;
         out3 = out2 XOR in1 XOR in4
     in (out0, out1, out2, out3, out4, out5, out6, out7)),
     gf8_loop (\<lambda>(in0, in1, in2, in3, in4, in5, in6, in7).
     let out0 = in1; out4 = in5; out7 = in0; out5 = in6; out6 = in7; out3 = in0 XOR in4; out1 = in0 XOR in2;
         out2 = in0 XOR in3
     in (out0, out1, out2, out3, out4, out5, out6, out7))]"

definition gf8_muladd_8F_91 :: "muladd list" where
  "gf8_muladd_8F_91 = [
     gf8_loop (\<lambda>(in0, in1, in2, in3, in4, in5, in6, in7).
     let out0 = in0 XOR in1; tmp0 = in0 XOR in3; out4 = in4 XOR in5; out7 = in0 XOR in7; out5 = in5 XOR in6;
         out6 = in6 XOR in7; out1 = out0 XOR in2; out2 = tmp0 XOR in2; out3 = tmp0 XOR in4
     in (out0, out1, out2, out3, out4, out5, out6, out7)),
     gf8_loop (\<lambda>(in0, in1, in2, in3, in4, in5, in6, in7).
     let tmp0 = in1 XOR in2; tmp1 = in2 XOR in6 XOR in7; out3 = tmp0 XOR in7; out1 = tmp1 XOR in5;
         tmp2 = out1 XOR in4; out6 = tmp2 XOR in3; out5 = out6 XOR in1; out4 = out5 XOR in0;
         out0 = tmp0 XOR tmp2; out7 = tmp0 XOR out4; out2 = tmp1 XOR out5
     in (out0, out1, out2, out3, out4, out5, out6, out7)),
     gf8_loop (\<lambda>(in0, in1, in2, in3, in4, in5, in6, in7).
     let tmp0 = in2 XOR in4; tmp1 = tmp0 XOR in3 XOR in5; out2 = tmp1 XOR in1; out6 = tmp1 XOR in7;
         tmp2 = out2 XOR in5 XOR in7; out3 = tmp2 XOR in4; out5 = tmp2 XOR in6; out1 = tmp1 XOR out5 XOR in2;
         tmp3 = out1 XOR in0; out4 = tmp3 XOR in3; out0 = tmp0 XOR tmp3; out7 = tmp2 XOR tmp3
     in (out0, out1, out2, out3, out4, out5, out6, out7))]"

definition gf8_muladd_92_94 :: "muladd list" where
  "gf8_muladd_92_94 = [
     gf8_loop (\<lambda>(in0, in1, in2, in3, in4, in5, in6, in7).
     let out3 = in1; tmp0 = in4 XOR in5; tmp1 = tmp0 XOR in1; out2 = tmp0 XOR in3 XOR in7; out0 = tmp1 XOR in6;
         out7 = out2 XOR in0; out4 = out0 XOR in0 XOR in2; out5 = out4 XOR out7 XOR in5; out6 = tmp1 XOR out5;
         out1 = out6 XOR out7 XOR in7
     in (out0, out1, out2, out3, out4, out5, out6, out7)),
     gf8_loop (\<lambda>(in0, in1, in2, in3, in4, in5, in6, in7).
     let out3 = in1 XOR in3; tmp0 = in2 XOR in7; tmp1 = out3 XOR in6; tmp2 = tmp0 XOR in4; out5 = tmp0 XOR tmp1;
         out6 = tmp2 XOR in3; out2 = out6 XOR in5; out0 = out2 XOR out5 XOR in0; out7 = tmp1 XOR out0;
         out1 = tmp2 XOR out0; out4 = out1 XOR in7
     in (out0, out1, out2, out3, out4, out5, out6, out7)),
     gf8_loop (\<lambda>(in0, in1, in2, in3, in4, in5, in6, in7).
     let out3 = in2 XOR in6; tmp0 = in1 XOR in4 XOR in5; out1 = out3 XOR in5; out5 = tmp0 XOR out3;
         out0 = tmp0 XOR in7; out4 = tmp0 XOR in0 XOR in3; out6 = out1 XOR in3 XOR in7; out2 = out4 XOR in6;
         out7 = out0 XOR out2 XOR in4
     in (out0, out1, out2, out3, out4, out5, out6, out7))]"

definition gf8_muladd_95_97 :: "muladd list" where
  "gf8_muladd_95_97 = [
     gf8_loop (\<lambda>(in0, in1, in2, in3, in4, in5, in6, in7).
     let tmp0 = in2 XOR in3; out3 = tmp0 XOR in6; tmp1 = tmp0 XOR in7; tmp2 = out3 XOR in0; out6 = tmp1 XOR in5;
         tmp3 = tmp2 XOR in4; out7 = tmp3 XOR in2; tmp4 = tmp3 XOR in5; out2 = tmp4 XOR in1;
         tmp5 = out2 XOR in6; out0 = tmp1 XOR tmp5; out1 = tmp5 XOR out7; out4 = tmp2 XOR out1;
         out5 = tmp4 XOR out4
     in (out0, out1, out2, out3, out4, out5, out6, out7)),
     gf8_loop (\<lambda>(in0, in1, in2, in3, in4, in5, in6, in7).
     let out3 = in6 XOR in7; tmp0 = in1 XOR in5; tmp1 = in5 XOR in6; out6 = out3 XOR in2 XOR in3;
         out0 = tmp0 XOR in4; tmp2 = tmp1 XOR in2; out4 = out0 XOR in0 XOR in7; out1 = tmp2 XOR in0;
         out5 = tmp2 XOR in1; out7 = tmp0 XOR out4 XOR in3; out2 = tmp1 XOR out7
     in (out0, out1, out2, out3, out4, out5, out6, out7)),
     gf8_loop (\<lambda>(in0, in1, in2, in3, in4, in5, in6, in7).
     let tmp0 = in0 XOR in4; tmp1 = in2 XOR in6; out3 = in3 XOR in6 XOR in7; out7 = tmp0 XOR in3;
         tmp2 = tmp0 XOR in5; out5 = tmp1 XOR in1; out6 = tmp1 XOR out3; out0 = tmp2 XOR in1;
         out2 = tmp2 XOR out3 XOR in2; tmp3 = out0 XOR in4; out4 = tmp3 XOR in7; out1 = tmp1 XOR tmp3
     in (out0, out1, out2, out3, out4, out5, out6, out7))]"

definition gf8_muladd_98_9A :: "muladd list" where
  "gf8_muladd_98_9A = [
     gf8_loop (\<lambda>(in0, in1, in2, in3, in4, in5, in6, in7).
     let tmp0 = in5 XOR in7; tmp1 = in1 XOR in4 XOR in7; out1 = tmp0 XOR in2; out0 = tmp1 XOR in6;
         out2 = tmp1 XOR in3; out6 = out0 XOR out1 XOR in1; out5 = tmp0 XOR out2; out3 = tmp1 XOR out6 XOR in0;
         out7 = out0 XOR out5 XOR in0; out4 = out6 XOR out7 XOR in7
     in (out0, out1, out2, out3, out4, out5, out6, out7)),
     gf8_loop (\<lambda>(in0, in1, in2, in3, in4, in5, in6, in7).
     let tmp0 = in0 XOR in3; out5 = in1 XOR in3 XOR in4; out6 = in2 XOR in4 XOR in5; out4 = tmp0 XOR in2;
         tmp1 = tmp0 XOR in6; tmp2 = out5 XOR in7; out7 = tmp1 XOR in5; out0 = tmp1 XOR tmp2;
         out2 = tmp2 XOR in2; out3 = out0 XOR out6 XOR in3; out1 = tmp1 XOR out3
     in (out0, out1, out2, out3, out4, out5, out6, out7)),
     gf8_loop (\<lambda>(in0, in1, in2, in3, in4, in5, in6, in7).
     let out2 = in3 XOR in4; tmp0 = in0 XOR in5; tmp1 = in1 XOR in6; out5 = in1 XOR in3 XOR in5;
         tmp2 = tmp0 XOR in7; out3 = tmp0 XOR tmp1; out0 = tmp1 XOR in4; out7 = tmp2 XOR in3;
         out1 = tmp2 XOR in2; out6 = out0 XOR in1 XOR in2; out4 = out1 XOR in4 XOR in5
     in (out0, out1, out2, out3, out4, out5, out6, out7))]"

definition gf8_muladd_9B_9D :: "muladd list" where
  "gf8_muladd_9B_9D = [
     gf8_loop (\<lambda>(in0, in1, in2, in3, in4, in5, in6, in7).
     let out5 = in1 XOR in3; tmp0 = in3 XOR in5; out6 = in2 XOR in4; out4 = in0 XOR in2 XOR in7;
         out7 = tmp0 XOR in0; out2 = out6 XOR in3; out1 = out4 XOR in1 XOR in5; out3 = out7 XOR in1 XOR in6;
         out0 = tmp0 XOR out3 XOR in4
     in (out0, out1, out2, out3, out4, out5, out6, out7)),
     gf8_loop (\<lambda>(in0, in1, in2, in3, in4, in5, in6, in7).
     let out1 = in2 XOR in5; tmp0 = in0 XOR in3 XOR in6; out3 = out1 XOR in0; out6 = out1 XOR in6;
         out7 = tmp0 XOR in7; out4 = out7 XOR in4; out2 = out4 XOR in1; out0 = tmp0 XOR out2;
         out5 = out0 XOR in5
     in (out0, out1, out2, out3, out4, out5, out6, out7)),
     gf8_loop (\<lambda>(in0, in1, in2, in3, in4, in5, in6, in7).
     let out6 = in2 XOR in5; tmp0 = in0 XOR in3; out5 = in1 XOR in4 XOR in7; out1 = out6 XOR in1;
         out3 = tmp0 XOR out6; out7 = tmp0 XOR in6; out0 = out5 XOR in0; out4 = out7 XOR in7;
         out2 = out5 XOR out7 XOR in2
     in (out0, out1, out2, out3, out4, out5, out6, out7))]"

definition gf8_muladd_9E_A0 :: "muladd list" where
  "gf8_muladd_9E_A0 = [
     gf8_loop (\<lambda>(in0, in1, in2, in3, in4, in5, in6, in7).
     let out0 = in1 XOR in4; tmp0 = in0 XOR in5; out6 = in2 XOR in6; out7 = in0 XOR in3 XOR in7;
         out4 = in0 XOR in4 XOR in6; out5 = in1 XOR in5 XOR in7; out1 = tmp0 XOR in2; out3 = tmp0 XOR in7;
         out2 = out4 XOR in3
     in (out0, out1, out2, out3, out4, out5, out6, out7)),
     gf8_loop (\<lambda>(in0, in1, in2, in3, in4, in5, in6, in7).
     let out6 = in2; out7 = in0 XOR in3; tmp0 = in0 XOR in1; out4 = in0 XOR in6; out5 = in1 XOR in7;
         out1 = tmp0 XOR in2 XOR in5; out2 = out7 XOR in2 XOR in4 XOR in6; out3 = out7 XOR in5 XOR in7;
         out0 = tmp0 XOR in4
     in (out0, out1, out2, out3, out4, out5, out6, out7)),
     gf8_loop (\<lambda>(in0, in1, in2, in3, in4, in5, in6, in7).
     let tmp0 = in1 XOR in6; out2 = tmp0 XOR in7; tmp1 = tmp0 XOR in5; out6 = out2 XOR in3 XOR in4;
         out0 = tmp1 XOR in3; tmp2 = out0 XOR in2; out3 = tmp2 XOR in7; tmp3 = tmp2 XOR in1;
         out5 = tmp3 XOR in0; out4 = tmp3 XOR out6; out7 = out5 XOR out6 XOR in1; out1 = tmp1 XOR out4
     in (out0, out1, out2, out3, out4, out5, out6, out7))]"

definition gf8_muladd_A1_A3 :: "muladd list" where
  "gf8_muladd_A1_A3 = [
     gf8_loop (\<lambda>(in0, in1, in2, in3, in4, in5, in6, in7).
     let tmp0 = in2 XOR in5; tmp1 = tmp0 XOR in1; tmp2 = tmp0 XOR in4; out4 = tmp1 XOR in7; out7 = tmp2 XOR in0;
         out6 = tmp2 XOR out4 XOR in3; out3 = out4 XOR in6; out2 = out3 XOR in5; out1 = out2 XOR in4;
         out5 = out1 XOR out6 XOR in0; out0 = tmp1 XOR out5
     in (out0, out1, out2, out3, out4, out5, out6, out7)),
     gf8_loop (\<lambda>(in0, in1, in2, in3, in4, in5, in6, in7).
     let out2 = in6; tmp0 = in1 XOR in3 XOR in5; out3 = tmp0 XOR in6; out4 = tmp0 XOR in2 XOR in4;
         out0 = out3 XOR in7; out6 = out0 XOR in4; out1 = out0 XOR out4 XOR in0; out7 = out1 XOR in5;
         out5 = out7 XOR in3 XOR in7
     in (out0, out1, out2, out3, out4, out5, out6, out7)),
     gf8_loop (\<lambda>(in0, in1, in2, in3, in4, in5, in6, in7).
     let out2 = in2 XOR in6; out3 = in1 XOR in5 XOR in6; tmp0 = out2 XOR in0; out4 = out2 XOR out3 XOR in3;
         tmp1 = tmp0 XOR in4; out0 = tmp0 XOR out4 XOR in7; out5 = tmp1 XOR in3; out7 = tmp1 XOR in5;
         out1 = tmp1 XOR in1 XOR in7; out6 = tmp1 XOR out0 XOR in2
     in (out0, out1, out2, out3, out4, out5, out6, out7))]"

definition gf8_muladd_A4_A6 :: "muladd list" where
  "gf8_muladd_A4_A6 = [
     gf8_loop (\<lambda>(in0, in1, in2, in3, in4, in5, in6, in7).
     let tmp0 = in1 XOR in3; tmp1 = in2 XOR in4; tmp2 = in2 XOR in5; tmp3 = in0 XOR in7; out0 = tmp0 XOR in5;
         out6 = tmp0 XOR in6 XOR in7; out1 = tmp1 XOR in6; out7 = tmp1 XOR tmp3; out3 = tmp2 XOR in3;
         tmp4 = tmp2 XOR out1; out2 = tmp3 XOR in1; out5 = tmp4 XOR out7; out4 = tmp4 XOR in1
     in (out0, out1, out2, out3, out4, out5, out6, out7)),
     gf8_loop (\<lambda>(in0, in1, in2, in3, in4, in5, in6, in7).
     let out3 = in2 XOR in5; tmp0 = in1 XOR in6; tmp1 = in0 XOR in1; tmp2 = in2 XOR in4;
         out6 = in1 XOR in3 XOR in7; out4 = tmp0 XOR in5; out1 = tmp0 XOR tmp2; out0 = tmp1 XOR in3 XOR in5;
         out2 = tmp1 XOR in2 XOR in7; out7 = tmp2 XOR in0; out5 = tmp0 XOR out2
     in (out0, out1, out2, out3, out4, out5, out6, out7)),
     gf8_loop (\<lambda>(in0, in1, in2, in3, in4, in5, in6, in7).
     let out2 = in0; out3 = in3 XOR in5 XOR in7; out1 = in0 XOR in2 XOR in4 XOR in6; out0 = out3 XOR in1;
         out7 = out1 XOR in7; out6 = out0 XOR in6; out5 = out7 XOR in5; out4 = out6 XOR in4
     in (out0, out1, out2, out3, out4, out5, out6, out7))]"

definition gf8_muladd_A7_A9 :: "muladd list" where
  "gf8_muladd_A7_A9 = [
     gf8_loop (\<lambda>(in0, in1, in2, in3, in4, in5, in6, in7).
     let out2 = in0 XOR in2; out3 = in5 XOR in7; out7 = out2 XOR in4 XOR in6; out6 = out3 XOR in1 XOR in3;
         out1 = out7 XOR in1; out5 = out7 XOR in7; out0 = out6 XOR in0; out4 = out6 XOR in6
     in (out0, out1, out2, out3, out4, out5, out6, out7)),
     gf8_loop (\<lambda>(in0, in1, in2, in3, in4, in5, in6, in7).
     let tmp0 = in2 XOR in4; tmp1 = in1 XOR in6; tmp2 = in0 XOR in2 XOR in7; out1 = tmp0 XOR in7;
         out4 = tmp0 XOR in6; out0 = tmp1 XOR in3; out2 = tmp1 XOR in5; out6 = tmp1 XOR in4;
         out7 = tmp2 XOR in5; out3 = tmp2 XOR out0 XOR in6; out5 = out7 XOR in2 XOR in3
     in (out0, out1, out2, out3, out4, out5, out6, out7)),
     gf8_loop (\<lambda>(in0, in1, in2, in3, in4, in5, in6, in7).
     let out4 = in2 XOR in6; out6 = in1 XOR in4; out7 = in0 XOR in2 XOR in5; out5 = in0 XOR in3 XOR in7;
         out2 = out4 XOR in1 XOR in5; out1 = out6 XOR in2 XOR in7; out0 = out2 XOR out7 XOR in3;
         out3 = out1 XOR in0 XOR in4
     in (out0, out1, out2, out3, out4, out5, out6, out7))]"

definition gf8_muladd_AA_AC :: "muladd list" where
  "gf8_muladd_AA_AC = [
     gf8_loop (\<lambda>(in0, in1, in2, in3, in4, in5, in6, in7).
     let tmp0 = in0 XOR in2; tmp1 = in1 XOR in3; tmp2 = in6 XOR in7; out1 = tmp0 XOR in4 XOR in7;
         out3 = tmp1 XOR in0; out0 = tmp1 XOR tmp2; out2 = tmp2 XOR in5; out7 = tmp0 XOR out2;
         out6 = out1 XOR out7 XOR in1; out5 = out0 XOR out6 XOR in0; out4 = out5 XOR out7 XOR in7
     in (out0, out1, out2, out3, out4, out5, out6, out7)),
     gf8_loop (\<lambda>(in0, in1, in2, in3, in4, in5, in6, in7).
     let out3 = in0 XOR in1; tmp0 = in1 XOR in4; tmp1 = in0 XOR in7; out6 = tmp0 XOR in5;
         out1 = tmp0 XOR tmp1 XOR in2; out5 = tmp1 XOR in3 XOR in4; out0 = tmp0 XOR out5 XOR in6;
         out4 = out0 XOR out3 XOR in2; out2 = out4 XOR in3 XOR in5; out7 = tmp1 XOR out2
     in (out0, out1, out2, out3, out4, out5, out6, out7)),
     gf8_loop (\<lambda>(in0, in1, in2, in3, in4, in5, in6, in7).
     let out0 = in1 XOR in3; out1 = in2 XOR in4; tmp0 = in0 XOR in2; out4 = in4 XOR in7; out5 = in0 XOR in5;
         out6 = in1 XOR in6; out7 = tmp0 XOR in7; out3 = tmp0 XOR in3 XOR in6; out2 = out5 XOR in1
     in (out0, out1, out2, out3, out4, out5, out6, out7))]"

definition gf8_muladd_AD_AF :: "muladd list" where
  "gf8_muladd_AD_AF = [
     gf8_loop (\<lambda>(in0, in1, in2, in3, in4, in5, in6, in7).
     let out4 = in7; out5 = in0; out6 = in1; out7 = in0 XOR in2; out0 = in0 XOR in1 XOR in3;
         out2 = out7 XOR in1 XOR in5; out1 = in1 XOR in2 XOR in4; out3 = out7 XOR in6
     in (out0, out1, out2, out3, out4, out5, out6, out7)),
     gf8_loop (\<lambda>(in0, in1, in2, in3, in4, in5, in6, in7).
     let out4 = in3 XOR in4; tmp0 = in0 XOR in4; tmp1 = in0 XOR in7; out0 = in1 XOR in3 XOR in7;
         out1 = tmp0 XOR in2; out5 = tmp0 XOR in5; tmp2 = tmp1 XOR in6; out2 = tmp1 XOR in5;
         out3 = tmp2 XOR in3; out7 = tmp2 XOR in2; out6 = tmp2 XOR out2 XOR in1
     in (out0, out1, out2, out3, out4, out5, out6, out7)),
     gf8_loop (\<lambda>(in0, in1, in2, in3, in4, in5, in6, in7).
     let out4 = in3; tmp0 = in0 XOR in7; out5 = in0 XOR in4; out6 = in1 XOR in5; out7 = in0 XOR in2 XOR in6;
         out0 = tmp0 XOR in1 XOR in3; out3 = tmp0 XOR in6; out2 = tmp0 XOR in2 XOR in5;
         out1 = out5 XOR in1 XOR in2
     in (out0, out1, out2, out3, out4, out5, out6, out7))]"

definition gf8_muladd_B0_B2 :: "muladd list" where
  "gf8_muladd_B0_B2 = [
     gf8_loop (\<lambda>(in0, in1, in2, in3, in4, in5, in6, in7).
     let tmp0 = in1 XOR in4; tmp1 = in3 XOR in6; out2 = tmp0 XOR in7; tmp2 = tmp0 XOR tmp1; out0 = tmp2 XOR in5;
         out3 = tmp2 XOR in2; out6 = out3 XOR in6; tmp3 = out6 XOR in0 XOR in1; out7 = tmp3 XOR in5;
         out5 = tmp3 XOR out2; out1 = out0 XOR out5 XOR in0; out4 = tmp1 XOR out5
     in (out0, out1, out2, out3, out4, out5, out6, out7)),
     gf8_loop (\<lambda>(in0, in1, in2, in3, in4, in5, in6, in7).
     let tmp0 = in1 XOR in4; out2 = tmp0 XOR in2 XOR in7; tmp1 = out2 XOR in6; out1 = tmp1 XOR in5;
         out3 = tmp1 XOR in7; out4 = tmp1 XOR in0; out6 = out3 XOR in3; out0 = out6 XOR in0 XOR in2 XOR in5;
         out5 = tmp1 XOR out0 XOR in1; out7 = tmp0 XOR out5
     in (out0, out1, out2, out3, out4, out5, out6, out7)),
     gf8_loop (\<lambda>(in0, in1, in2, in3, in4, in5, in6, in7).
     let out2 = in4; tmp0 = in4 XOR in7; tmp1 = in1 XOR in3 XOR in6; out3 = tmp0 XOR tmp1; tmp2 = tmp1 XOR in0;
         out0 = out3 XOR in5; out4 = tmp2 XOR in2; tmp3 = out4 XOR in6; out5 = tmp0 XOR tmp3;
         out1 = tmp3 XOR out0; tmp4 = out1 XOR in7; out7 = tmp4 XOR in3; out6 = tmp2 XOR tmp4
     in (out0, out1, out2, out3, out4, out5, out6, out7))]"

definition gf8_muladd_B3_B5 :: "muladd list" where
  "gf8_muladd_B3_B5 = [
     gf8_loop (\<lambda>(in0, in1, in2, in3, in4, in5, in6, in7).
     let out2 = in2 XOR in4; tmp0 = in0 XOR in5; tmp1 = in1 XOR in6; out3 = tmp1 XOR in4 XOR in7;
         tmp2 = tmp0 XOR out3; out0 = tmp2 XOR in3; out1 = tmp2 XOR in2; out5 = out0 XOR in2 XOR in6;
         out7 = tmp1 XOR out5; out4 = out7 XOR in1 XOR in5 XOR in7; out6 = tmp0 XOR out4
     in (out0, out1, out2, out3, out4, out5, out6, out7)),
     gf8_loop (\<lambda>(in0, in1, in2, in3, in4, in5, in6, in7).
     let out4 = in0 XOR in1; out5 = out4 XOR in2; tmp0 = out4 XOR in4; out6 = out5 XOR in0 XOR in3;
         out7 = tmp0 XOR out6; out2 = tmp0 XOR in6 XOR in7; out3 = out7 XOR in0 XOR in7;
         out0 = out5 XOR out7 XOR in5; out1 = out0 XOR out6 XOR in6
     in (out0, out1, out2, out3, out4, out5, out6, out7)),
     gf8_loop (\<lambda>(in0, in1, in2, in3, in4, in5, in6, in7).
     let tmp0 = in0 XOR in1; tmp1 = in2 XOR in4; out4 = tmp0 XOR in4; out3 = tmp1 XOR in7; tmp2 = out4 XOR in5;
         out7 = out3 XOR in0 XOR in3; out0 = tmp2 XOR in3; out2 = tmp0 XOR out3 XOR in6; out5 = tmp1 XOR tmp2;
         out6 = out2 XOR out7 XOR in2; out1 = tmp0 XOR out0 XOR out6
     in (out0, out1, out2, out3, out4, out5, out6, out7))]"

definition gf8_muladd_B6_B8 :: "muladd list" where
  "gf8_muladd_B6_B8 = [
     gf8_loop (\<lambda>(in0, in1, in2, in3, in4, in5, in6, in7).
     let out3 = in3 XOR in4; tmp0 = in1 XOR in2; tmp1 = in0 XOR in4; tmp2 = in3 XOR in5;
         tmp3 = out3 XOR in1 XOR in7; out5 = tmp0 XOR tmp1; out6 = tmp0 XOR tmp2; out2 = tmp1 XOR in6;
         out4 = tmp1 XOR tmp3; out0 = tmp3 XOR in5; out1 = out2 XOR in2 XOR in5; out7 = tmp2 XOR out1
     in (out0, out1, out2, out3, out4, out5, out6, out7)),
     gf8_loop (\<lambda>(in0, in1, in2, in3, in4, in5, in6, in7).
     let out3 = in4; tmp0 = in0 XOR in4; out2 = tmp0 XOR in2 XOR in6; tmp1 = out2 XOR in7;
         out1 = out2 XOR in1 XOR in5; out7 = tmp1 XOR in3; out5 = out1 XOR in6; out6 = tmp0 XOR out1 XOR in3;
         out0 = tmp1 XOR out6; out4 = out0 XOR in5
     in (out0, out1, out2, out3, out4, out5, out6, out7)),
     gf8_loop (\<lambda>(in0, in1, in2, in3, in4, in5, in6, in7).
     let tmp0 = in1 XOR in4; tmp1 = in2 XOR in5; out2 = tmp0 XOR in5; out4 = tmp1 XOR in0; tmp2 = tmp1 XOR in7;
         out6 = tmp2 XOR out2; out7 = out4 XOR in3; out1 = tmp2 XOR in4; out3 = tmp0 XOR out7;
         out0 = out3 XOR out4 XOR in6; out5 = out0 XOR in0 XOR in4
     in (out0, out1, out2, out3, out4, out5, out6, out7))]"

definition gf8_muladd_B9_BB :: "muladd list" where
  "gf8_muladd_B9_BB = [
     gf8_loop (\<lambda>(in0, in1, in2, in3, in4, in5, in6, in7).
     let tmp0 = in0 XOR in2; tmp1 = in4 XOR in5; out4 = tmp0 XOR tmp1; tmp2 = tmp0 XOR in3 XOR in7;
         out3 = out4 XOR in1; out7 = tmp2 XOR in5; out2 = out3 XOR in0; out1 = out2 XOR in7;
         out6 = out1 XOR in5 XOR in6; out0 = tmp2 XOR out6; out5 = tmp1 XOR out0
     in (out0, out1, out2, out3, out4, out5, out6, out7)),
     gf8_loop (\<lambda>(in0, in1, in2, in3, in4, in5, in6, in7).
     let tmp0 = in5 XOR in7; out2 = tmp0 XOR in4; tmp1 = out2 XOR in2; out1 = tmp1 XOR in0; out6 = tmp1 XOR in1;
         out4 = out1 XOR in3 XOR in4; tmp2 = out4 XOR out6; out7 = out4 XOR in6 XOR in7; out5 = tmp2 XOR in6;
         out3 = tmp0 XOR tmp2; out0 = out6 XOR out7 XOR in0
     in (out0, out1, out2, out3, out4, out5, out6, out7)),
     gf8_loop (\<lambda>(in0, in1, in2, in3, in4, in5, in6, in7).
     let out2 = in2 XOR in4 XOR in5 XOR in7; tmp0 = out2 XOR in1; out4 = out2 XOR in0 XOR in3;
         out1 = tmp0 XOR in0; out6 = tmp0 XOR in6; out3 = out1 XOR in2; tmp1 = out4 XOR out6 XOR in4;
         out0 = tmp1 XOR in7; out5 = tmp1 XOR in5; out7 = tmp0 XOR tmp1
     in (out0, out1, out2, out3, out4, out5, out6, out7))]"

definition gf8_muladd_BC_BE :: "muladd list" where
  "gf8_muladd_BC_BE = [
     gf8_loop (\<lambda>(in0, in1, in2, in3, in4, in5, in6, in7).
     let tmp0 = in0 XOR in2; tmp1 = in2 XOR in4; out0 = in1 XOR in3 XOR in4; out6 = in1 XOR in2 XOR in7;
         out7 = tmp0 XOR in3; out5 = tmp0 XOR out6 XOR in6; out1 = tmp1 XOR in5; tmp2 = out1 XOR out5 XOR in1;
         out3 = tmp2 XOR in3; out4 = tmp1 XOR tmp2; out2 = tmp2 XOR out6
     in (out0, out1, out2, out3, out4, out5, out6, out7)),
     gf8_loop (\<lambda>(in0, in1, in2, in3, in4, in5, in6, in7).
     let tmp0 = in0 XOR in3; tmp1 = in1 XOR in4; out0 = tmp0 XOR tmp1; out7 = tmp0 XOR in2 XOR in7;
         out1 = tmp1 XOR in2 XOR in5; tmp2 = out1 XOR in0; out2 = tmp2 XOR in6; out3 = out2 XOR in1 XOR in7;
         out4 = out3 XOR in2; out5 = tmp1 XOR out4; out6 = tmp2 XOR out4
     in (out0, out1, out2, out3, out4, out5, out6, out7)),
     gf8_loop (\<lambda>(in0, in1, in2, in3, in4, in5, in6, in7).
     let tmp0 = in0 XOR in3 XOR in6; out4 = tmp0 XOR in5; out7 = tmp0 XOR in2; out3 = out4 XOR in4;
         out1 = out3 XOR out7 XOR in0; out2 = out3 XOR in3 XOR in7; out0 = out2 XOR out4 XOR in1;
         out5 = tmp0 XOR out0; out6 = out1 XOR out5 XOR in6
     in (out0, out1, out2, out3, out4, out5, out6, out7))]"

definition gf8_muladd_BF_C1 :: "muladd list" where
  "gf8_muladd_BF_C1 = [
     gf8_loop (\<lambda>(in0, in1, in2, in3, in4, in5, in6, in7).
     let tmp0 = in0 XOR in4; out3 = tmp0 XOR in5 XOR in6; out4 = out3 XOR in3; tmp1 = out3 XOR in7;
         out2 = tmp1 XOR in2; out5 = tmp1 XOR in1; tmp2 = out2 XOR in5; out7 = tmp2 XOR in3 XOR in4;
         tmp3 = tmp0 XOR out5; out0 = tmp3 XOR out4; out1 = tmp2 XOR tmp3; out6 = tmp3 XOR in2
     in (out0, out1, out2, out3, out4, out5, out6, out7)),
     gf8_loop (\<lambda>(in0, in1, in2, in3, in4, in5, in6, in7).
     let out5 = in2 XOR in5; tmp0 = in1 XOR in4; tmp1 = in3 XOR in6; out0 = out5 XOR in1; out4 = tmp0 XOR in7;
         out3 = tmp0 XOR tmp1; out1 = tmp1 XOR in2; out6 = tmp1 XOR in0; out7 = out4 XOR in0;
         out2 = out4 XOR out5 XOR in3
     in (out0, out1, out2, out3, out4, out5, out6, out7)),
     gf8_loop (\<lambda>(in0, in1, in2, in3, in4, in5, in6, in7).
     let out5 = in2; tmp0 = in0 XOR in1; out4 = in1 XOR in7; out6 = in0 XOR in3; out3 = in1 XOR in4 XOR in6;
         tmp1 = tmp0 XOR in2; out7 = tmp0 XOR in4; out0 = tmp1 XOR in5; out1 = tmp1 XOR out6 XOR in6;
         out2 = out6 XOR out7 XOR in5 XOR in7
     in (out0, out1, out2, out3, out4, out5, out6, out7))]"

lemmas gf8_code_83 =
  gf8_muladd_83_85_def gf8_muladd_86_88_def gf8_muladd_89_8B_def gf8_muladd_8C_8E_def gf8_muladd_8F_91_def
  gf8_muladd_92_94_def gf8_muladd_95_97_def gf8_muladd_98_9A_def gf8_muladd_9B_9D_def gf8_muladd_9E_A0_def
  gf8_muladd_A1_A3_def gf8_muladd_A4_A6_def gf8_muladd_A7_A9_def gf8_muladd_AA_AC_def gf8_muladd_AD_AF_def
  gf8_muladd_B0_B2_def gf8_muladd_B3_B5_def gf8_muladd_B6_B8_def gf8_muladd_B9_BB_def gf8_muladd_BC_BE_def
  gf8_muladd_BF_C1_def

lemma gf8_muladd_table_83:
  "list_all2 (\<lambda>f c. f = gf8_muladd c) (concat [
     gf8_muladd_83_85, gf8_muladd_86_88, gf8_muladd_89_8B, gf8_muladd_8C_8E, gf8_muladd_8F_91, gf8_muladd_92_94,
     gf8_muladd_95_97, gf8_muladd_98_9A, gf8_muladd_9B_9D, gf8_muladd_9E_A0, gf8_muladd_A1_A3, gf8_muladd_A4_A6,
     gf8_muladd_A7_A9, gf8_muladd_AA_AC, gf8_muladd_AD_AF, gf8_muladd_B0_B2, gf8_muladd_B3_B5, gf8_muladd_B6_B8,
     gf8_muladd_B9_BB, gf8_muladd_BC_BE, gf8_muladd_BF_C1])
    [
     0x83, 0x84, 0x85, 0x86, 0x87, 0x88, 0x89, 0x8A, 0x8B, 0x8C, 0x8D, 0x8E, 0x8F, 0x90, 0x91, 0x92, 0x93, 0x94,
     0x95, 0x96, 0x97, 0x98, 0x99, 0x9A, 0x9B, 0x9C, 0x9D, 0x9E, 0x9F, 0xA0, 0xA1, 0xA2, 0xA3, 0xA4, 0xA5, 0xA6,
     0xA7, 0xA8, 0xA9, 0xAA, 0xAB, 0xAC, 0xAD, 0xAE, 0xAF, 0xB0, 0xB1, 0xB2, 0xB3, 0xB4, 0xB5, 0xB6, 0xB7, 0xB8,
     0xB9, 0xBA, 0xBB, 0xBC, 0xBD, 0xBE, 0xBF, 0xC0, 0xC1]"
  unfolding gf8_code_83 concat.simps append.simps list_all2_Cons list_all2_Nil
  by (intro conjI TrueI gf8_muladdI) (simp_all add: slices_simps)

end
