(* ===== verification/Ec_Gf_C2.thy ===== *)
theory Ec_Gf_C2
  imports Ec_Slices
begin

unbundle bit_operations_syntax

text \<open>
  The unrolled routines for the constants 0xC2 to 0xFF
  (\<open>gf8_muladd_C2\<close> to \<open>gf8_muladd_FF\<close> of \<open>src/xlators/cluster/ec/src/ec-gf.c\<close>).  A definition
  holds three consecutive routines; the names of the variables are those of the code, and the assignments
  come in its order.
\<close>

definition gf8_muladd_C2_C4 :: "muladd list" where
  "gf8_muladd_C2_C4 = [
     gf8_loop (\<lambda>(in0, in1, in2, in3, in4, in5, in6, in7).
     let out4 = in1 XOR in3 XOR in4; tmp0 = in0 XOR in3 XOR in6; out5 = in2 XOR in4 XOR in5;
         tmp1 = out4 XOR in7; out1 = tmp0 XOR in2; out6 = tmp0 XOR in5; out2 = out5 XOR in3;
         out7 = tmp0 XOR tmp1; out3 = tmp1 XOR in2 XOR in6; out0 = tmp1 XOR out2
     in (out0, out1, out2, out3, out4, out5, out6, out7)),
     gf8_loop (\<lambda>(in0, in1, in2, in3, in4, in5, in6, in7).
     let out4 = in1 XOR in3; tmp0 = in0 XOR in2; tmp1 = in3 XOR in5; out5 = in2 XOR in4; tmp2 = tmp0 XOR out4;
         out2 = tmp1 XOR in4; out6 = tmp1 XOR in0; out0 = tmp1 XOR tmp2 XOR in7; out1 = tmp2 XOR in6;
         out7 = out1 XOR out5 XOR in3; out3 = tmp0 XOR out7 XOR in7
     in (out0, out1, out2, out3, out4, out5, out6, out7)),
     gf8_loop (\<lambda>(in0, in1, in2, in3, in4, in5, in6, in7).
     let tmp0 = in3 XOR in7; out3 = tmp0 XOR in4; tmp1 = tmp0 XOR in2; out1 = tmp1 XOR in6; out5 = tmp1 XOR in5;
         out4 = out1 XOR out3 XOR in1; out0 = out4 XOR in4 XOR in5; out2 = out0 XOR out3 XOR in0;
         out7 = out1 XOR out2 XOR in7; out6 = tmp1 XOR out0 XOR out7
     in (out0, out1, out2, out3, out4, out5, out6, out7))]"

definition gf8_muladd_C5_C7 :: "muladd list" where
  "gf8_muladd_C5_C7 = [
     gf8_loop (\<lambda>(in0, in1, in2, in3, in4, in5, in6, in7).
     let out3 = in4 XOR in7; tmp0 = in3 XOR in7; out4 = in1 XOR in2 XOR in6; out6 = in0 XOR in3 XOR in4;
         out5 = tmp0 XOR in2; out1 = tmp0 XOR out4; out0 = out4 XOR in0 XOR in5; out2 = out0 XOR out5 XOR in4;
         out7 = tmp0 XOR out2 XOR in6
     in (out0, out1, out2, out3, out4, out5, out6, out7)),
     gf8_loop (\<lambda>(in0, in1, in2, in3, in4, in5, in6, in7).
     let tmp0 = in5 XOR in6; tmp1 = in1 XOR in7; tmp2 = tmp0 XOR in0; tmp3 = tmp0 XOR tmp1; tmp4 = tmp2 XOR in4;
         out0 = tmp3 XOR in2; out6 = tmp4 XOR in3; out2 = out6 XOR in2; out7 = tmp1 XOR tmp4;
         out3 = tmp2 XOR out2; tmp5 = out3 XOR in5; out5 = tmp5 XOR in7; out4 = tmp3 XOR tmp5;
         out1 = tmp4 XOR out5
     in (out0, out1, out2, out3, out4, out5, out6, out7)),
     gf8_loop (\<lambda>(in0, in1, in2, in3, in4, in5, in6, in7).
     let out3 = in2 XOR in4; tmp0 = in3 XOR in5; tmp1 = out3 XOR in7; out6 = tmp0 XOR in0 XOR in4;
         out5 = tmp1 XOR in3; out2 = out6 XOR in6; out7 = out2 XOR in1 XOR in3; out0 = tmp1 XOR out7;
         out1 = tmp0 XOR out0; out4 = out1 XOR in0
     in (out0, out1, out2, out3, out4, out5, out6, out7))]"

definition gf8_muladd_C8_CA :: "muladd list" where
  "gf8_muladd_C8_CA = [
     gf8_loop (\<lambda>(in0, in1, in2, in3, in4, in5, in6, in7).
     let out0 = in1 XOR in2; out1 = in2 XOR in3; tmp0 = in5 XOR in6; tmp1 = in0 XOR in7;
         out2 = out1 XOR in1 XOR in4; out4 = tmp0 XOR in4; out5 = tmp0 XOR in7; out6 = tmp1 XOR in6;
         out7 = tmp1 XOR in1; out3 = out2 XOR in0 XOR in2 XOR in5
     in (out0, out1, out2, out3, out4, out5, out6, out7)),
     gf8_loop (\<lambda>(in0, in1, in2, in3, in4, in5, in6, in7).
     let out4 = in5 XOR in6; out7 = in0 XOR in1; tmp0 = in1 XOR in3; out5 = in6 XOR in7; out6 = in0 XOR in7;
         out0 = out7 XOR in2; out3 = out7 XOR in4 XOR in5; out1 = tmp0 XOR in2; out2 = tmp0 XOR in4
     in (out0, out1, out2, out3, out4, out5, out6, out7)),
     gf8_loop (\<lambda>(in0, in1, in2, in3, in4, in5, in6, in7).
     let tmp0 = in0 XOR in7; tmp1 = in2 XOR in7; tmp2 = tmp0 XOR in6; out0 = tmp1 XOR in1; tmp3 = tmp1 XOR in3;
         out6 = tmp2 XOR in5; out7 = tmp2 XOR in1; out2 = tmp3 XOR in4; out5 = out6 XOR in0 XOR in4;
         out4 = out5 XOR in3; out1 = tmp0 XOR tmp3; out3 = tmp3 XOR out5 XOR out7
     in (out0, out1, out2, out3, out4, out5, out6, out7))]"

definition gf8_muladd_CB_CD :: "muladd list" where
  "gf8_muladd_CB_CD = [
     gf8_loop (\<lambda>(in0, in1, in2, in3, in4, in5, in6, in7).
     let tmp0 = in4 XOR in7; tmp1 = in5 XOR in7; out7 = in0 XOR in1 XOR in6; out5 = tmp0 XOR in6;
         out2 = tmp0 XOR in3; out6 = tmp1 XOR in0; out4 = tmp1 XOR in3 XOR in6; tmp2 = out5 XOR out7 XOR in2;
         out1 = tmp2 XOR out2; out0 = tmp2 XOR in4; out3 = tmp2 XOR in5
     in (out0, out1, out2, out3, out4, out5, out6, out7)),
     gf8_loop (\<lambda>(in0, in1, in2, in3, in4, in5, in6, in7).
     let tmp0 = in3 XOR in5; tmp1 = in1 XOR in6; out1 = in2 XOR in3 XOR in7; out5 = tmp0 XOR in6;
         out0 = tmp1 XOR in2; tmp2 = out5 XOR in0 XOR in7; out3 = tmp2 XOR in4; out6 = tmp0 XOR out3;
         out7 = tmp1 XOR tmp2 XOR in3; tmp3 = out1 XOR out6; out4 = tmp2 XOR tmp3; out2 = tmp3 XOR in1
     in (out0, out1, out2, out3, out4, out5, out6, out7)),
     gf8_loop (\<lambda>(in0, in1, in2, in3, in4, in5, in6, in7).
     let out5 = in3 XOR in6; tmp0 = in0 XOR in1; tmp1 = in2 XOR in7; out6 = in0 XOR in4 XOR in7;
         out2 = tmp0 XOR out5 XOR in4; out7 = tmp0 XOR in5; out0 = tmp0 XOR in2 XOR in6; out4 = tmp1 XOR in5;
         out1 = tmp1 XOR in1 XOR in3; out3 = out6 XOR in5 XOR in6
     in (out0, out1, out2, out3, out4, out5, out6, out7))]"

definition gf8_muladd_CE_D0 :: "muladd list" where
  "gf8_muladd_CE_D0 = [
     gf8_loop (\<lambda>(in0, in1, in2, in3, in4, in5, in6, in7).
     let tmp0 = in2 XOR in5; tmp1 = tmp0 XOR in3; out4 = tmp1 XOR in4; tmp2 = out4 XOR in6; out3 = tmp2 XOR in0;
         out5 = tmp2 XOR in2; out2 = out3 XOR in5 XOR in7; out6 = tmp1 XOR out2; out7 = out2 XOR out4 XOR in1;
         out1 = tmp2 XOR out6; out0 = tmp0 XOR out7 XOR in0
     in (out0, out1, out2, out3, out4, out5, out6, out7)),
     gf8_loop (\<lambda>(in0, in1, in2, in3, in4, in5, in6, in7).
     let tmp0 = in3 XOR in6; tmp1 = in0 XOR in1 XOR in5; out4 = in2 XOR in3 XOR in5; out5 = tmp0 XOR in4;
         out7 = tmp1 XOR in6; out1 = tmp1 XOR out4 XOR in7; tmp2 = out5 XOR in0; out2 = tmp2 XOR in7;
         out3 = tmp2 XOR out4; out6 = tmp0 XOR out2 XOR in5; out0 = tmp0 XOR out1
     in (out0, out1, out2, out3, out4, out5, out6, out7)),
     gf8_loop (\<lambda>(in0, in1, in2, in3, in4, in5, in6, in7).
     let tmp0 = in0 XOR in3; tmp1 = in1 XOR in4; tmp2 = in2 XOR in5; out7 = tmp0 XOR tmp1; out0 = tmp1 XOR tmp2;
         tmp3 = tmp2 XOR in3; out1 = tmp3 XOR in6; tmp4 = out1 XOR in1; out2 = tmp4 XOR in7;
         out3 = out2 XOR in2; out4 = tmp0 XOR out3; out5 = tmp3 XOR out3; out6 = tmp4 XOR out4
     in (out0, out1, out2, out3, out4, out5, out6, out7))]"

definition gf8_muladd_D1_D3 :: "muladd list" where
  "gf8_muladd_D1_D3 = [
     gf8_loop (\<lambda>(in0, in1, in2, in3, in4, in5, in6, in7).
     let tmp0 = in3 XOR in5 XOR in6; tmp1 = tmp0 XOR in1; out1 = tmp1 XOR in2; out2 = tmp1 XOR in7;
         out3 = out2 XOR in3; out5 = out3 XOR in2; tmp2 = out3 XOR in0; out4 = tmp2 XOR in4;
         out7 = tmp0 XOR out4; out6 = tmp2 XOR out1 XOR in6; out0 = out2 XOR out6 XOR in4
     in (out0, out1, out2, out3, out4, out5, out6, out7)),
     gf8_loop (\<lambda>(in0, in1, in2, in3, in4, in5, in6, in7).
     let tmp0 = in5 XOR in6; out2 = tmp0 XOR in2 XOR in3; out1 = out2 XOR in0; out3 = out2 XOR in1;
         out4 = out1 XOR in1 XOR in2; out6 = out1 XOR in6 XOR in7; out7 = out4 XOR in4 XOR in5;
         out5 = out4 XOR out6 XOR in4; out0 = tmp0 XOR out5
     in (out0, out1, out2, out3, out4, out5, out6, out7)),
     gf8_loop (\<lambda>(in0, in1, in2, in3, in4, in5, in6, in7).
     let out2 = in3 XOR in5 XOR in6; tmp0 = out2 XOR in2; tmp1 = tmp0 XOR in1; out1 = tmp1 XOR in0;
         out3 = tmp1 XOR in3; out4 = out1 XOR in2 XOR in4; tmp2 = out4 XOR in5; out7 = tmp2 XOR in7;
         out0 = tmp0 XOR out7; tmp3 = out0 XOR in0; out5 = tmp3 XOR in6; out6 = tmp2 XOR tmp3
     in (out0, out1, out2, out3, out4, out5, out6, out7))]"

definition gf8_muladd_D4_D6 :: "muladd list" where
  "gf8_muladd_D4_D6 = [
     gf8_loop (\<lambda>(in0, in1, in2, in3, in4, in5, in6, in7).
     let out3 = in3 XOR in5; tmp0 = in1 XOR in5; tmp1 = tmp0 XOR in2; out4 = tmp1 XOR in0; tmp2 = tmp1 XOR in6;
         out2 = out4 XOR in3 XOR in7; out0 = tmp2 XOR in4; out5 = tmp2 XOR out3; out1 = tmp0 XOR out5 XOR in7;
         out6 = tmp0 XOR out2 XOR in4; out7 = tmp1 XOR out6 XOR in7
     in (out0, out1, out2, out3, out4, out5, out6, out7)),
     gf8_loop (\<lambda>(in0, in1, in2, in3, in4, in5, in6, in7).
     let out3 = in5; tmp0 = in0 XOR in4; tmp1 = tmp0 XOR in1 XOR in5; out4 = tmp1 XOR in2; out0 = out4 XOR in6;
         tmp2 = tmp0 XOR out0; out5 = tmp2 XOR in3; out1 = out5 XOR in7; out6 = tmp1 XOR out1;
         out7 = tmp2 XOR out6; out2 = out7 XOR in4
     in (out0, out1, out2, out3, out4, out5, out6, out7)),
     gf8_loop (\<lambda>(in0, in1, in2, in3, in4, in5, in6, in7).
     let tmp0 = in1 XOR in2 XOR in4 XOR in6; out5 = tmp0 XOR in3; out0 = tmp0 XOR in5 XOR in7;
         out3 = out0 XOR out5 XOR in2; tmp1 = out3 XOR in0; out1 = tmp1 XOR in6; out2 = tmp1 XOR in7;
         out4 = tmp1 XOR in1; out6 = tmp1 XOR in4; out7 = tmp0 XOR out2
     in (out0, out1, out2, out3, out4, out5, out6, out7))]"

definition gf8_muladd_D7_D9 :: "muladd list" where
  "gf8_muladd_D7_D9 = [
     gf8_loop (\<lambda>(in0, in1, in2, in3, in4, in5, in6, in7).
     let tmp0 = in0 XOR in3; out3 = in2 XOR in5 XOR in7; out2 = tmp0 XOR in5; tmp1 = tmp0 XOR out3 XOR in1;
         out1 = tmp1 XOR in6; out4 = tmp1 XOR in4; tmp2 = out1 XOR in4; out6 = tmp2 XOR in1;
         out7 = tmp2 XOR in2; out0 = tmp2 XOR in3; out5 = tmp2 XOR in0 XOR in7
     in (out0, out1, out2, out3, out4, out5, out6, out7)),
     gf8_loop (\<lambda>(in0, in1, in2, in3, in4, in5, in6, in7).
     let out4 = in0; out5 = in1; tmp0 = in1 XOR in2; out6 = in0 XOR in2; out0 = tmp0 XOR in4;
         tmp1 = tmp0 XOR in3; out7 = tmp1 XOR out6; out2 = tmp1 XOR in6; out3 = out7 XOR in7;
         out1 = tmp1 XOR in1 XOR in5
     in (out0, out1, out2, out3, out4, out5, out6, out7)),
     gf8_loop (\<lambda>(in0, in1, in2, in3, in4, in5, in6, in7).
     let out4 = in0 XOR in4; out5 = in1 XOR in5; out2 = in1 XOR in3 XOR in6; out3 = in0 XOR in1 XOR in7;
         out6 = in0 XOR in2 XOR in6; out0 = out4 XOR in1 XOR in2; out1 = out5 XOR in2 XOR in3;
         out7 = out3 XOR in3
     in (out0, out1, out2, out3, out4, out5, out6, out7))]"

definition gf8_muladd_DA_DC :: "muladd list" where
  "gf8_muladd_DA_DC = [
     gf8_loop (\<lambda>(in0, in1, in2, in3, in4, in5, in6, in7).
     let out5 = in1 XOR in4; tmp0 = in2 XOR in7; tmp1 = in0 XOR in2 XOR in3; out0 = tmp0 XOR out5;
         out4 = tmp0 XOR tmp1; out2 = tmp0 XOR in3 XOR in6; out1 = tmp1 XOR in5; out3 = tmp1 XOR in1;
         out6 = out1 XOR in3; out7 = out3 XOR in2 XOR in6
     in (out0, out1, out2, out3, out4, out5, out6, out7)),
     gf8_loop (\<lambda>(in0, in1, in2, in3, in4, in5, in6, in7).
     let tmp0 = in0 XOR in1; tmp1 = in1 XOR in5; tmp2 = in3 XOR in7; out3 = tmp0 XOR in2; out5 = tmp1 XOR in4;
         out6 = tmp1 XOR out3 XOR in6; out2 = tmp2 XOR in6; tmp3 = tmp2 XOR in4; tmp4 = out3 XOR in3;
         out4 = tmp3 XOR in0; out1 = tmp4 XOR in5; out0 = tmp3 XOR tmp4; out7 = tmp0 XOR out2
     in (out0, out1, out2, out3, out4, out5, out6, out7)),
     gf8_loop (\<lambda>(in0, in1, in2, in3, in4, in5, in6, in7).
     let tmp0 = in0 XOR in2; tmp1 = in0 XOR in3; out6 = tmp0 XOR in4; tmp2 = tmp0 XOR in7; out3 = tmp1 XOR in6;
         tmp3 = tmp1 XOR in1; out1 = tmp1 XOR tmp2 XOR in5; out4 = tmp2 XOR in6; out2 = tmp3 XOR in2;
         out7 = tmp3 XOR in5; out5 = tmp2 XOR out2; out0 = out2 XOR out3 XOR in4
     in (out0, out1, out2, out3, out4, out5, out6, out7))]"

definition gf8_muladd_DD_DF :: "muladd list" where
  "gf8_muladd_DD_DF = [
     gf8_loop (\<lambda>(in0, in1, in2, in3, in4, in5, in6, in7).
     let out3 = in0 XOR in6; out2 = in0 XOR in1 XOR in3; out6 = out3 XOR in2 XOR in4;
         out7 = out2 XOR in5 XOR in7; out0 = out6 XOR in1; out4 = out6 XOR in7; out5 = out7 XOR in0;
         out1 = out5 XOR in2
     in (out0, out1, out2, out3, out4, out5, out6, out7)),
     gf8_loop (\<lambda>(in0, in1, in2, in3, in4, in5, in6, in7).
     let tmp0 = in2 XOR in3 XOR in6; tmp1 = in3 XOR in4 XOR in7; out4 = tmp0 XOR in0; out5 = tmp1 XOR in1;
         out3 = out4 XOR in7; out2 = out3 XOR in6; out1 = out2 XOR in5; out6 = tmp1 XOR out1;
         out0 = tmp0 XOR out5; out7 = out0 XOR out1 XOR in4
     in (out0, out1, out2, out3, out4, out5, out6, out7)),
     gf8_loop (\<lambda>(in0, in1, in2, in3, in4, in5, in6, in7).
     let out2 = in0 XOR in3 XOR in7; tmp0 = out2 XOR in1 XOR in5; out1 = tmp0 XOR in2; out7 = tmp0 XOR in6;
         out5 = tmp0 XOR in0 XOR in4; tmp1 = out1 XOR out5 XOR in6; out4 = tmp1 XOR in3; out6 = tmp1 XOR in5;
         tmp2 = tmp1 XOR in7; out0 = tmp2 XOR in1; out3 = tmp2 XOR in4
     in (out0, out1, out2, out3, out4, out5, out6, out7))]"

definition gf8_muladd_E0_E2 :: "muladd list" where
  "gf8_muladd_E0_E2 = [
     gf8_loop (\<lambda>(in0, in1, in2, in3, in4, in5, in6, in7).
     let out3 = in1 XOR in7; tmp0 = in2 XOR in4; out4 = out3 XOR in3 XOR in5; out2 = tmp0 XOR in1;
         tmp1 = tmp0 XOR in6; out0 = out4 XOR in2; out6 = out4 XOR in0; out1 = tmp1 XOR in3;
         out5 = tmp1 XOR in0; out7 = out5 XOR in1
     in (out0, out1, out2, out3, out4, out5, out6, out7)),
     gf8_loop (\<lambda>(in0, in1, in2, in3, in4, in5, in6, in7).
     let out2 = in1 XOR in4; tmp0 = in1 XOR in7; out3 = tmp0 XOR in3; tmp1 = out3 XOR in5; out4 = tmp1 XOR in4;
         tmp2 = tmp1 XOR in0; out0 = tmp2 XOR in2; out6 = tmp2 XOR in6; tmp3 = out0 XOR out4 XOR in6;
         out5 = tmp3 XOR in5; out7 = tmp0 XOR tmp3; out1 = tmp2 XOR out5 XOR in7
     in (out0, out1, out2, out3, out4, out5, out6, out7)),
     gf8_loop (\<lambda>(in0, in1, in2, in3, in4, in5, in6, in7).
     let out3 = in1 XOR in2; out4 = in1 XOR in5; out2 = in2 XOR in4 XOR in7; out5 = in0 XOR in2 XOR in6;
         out0 = out3 XOR in3 XOR in5; out7 = out3 XOR in0 XOR in4; out6 = out2 XOR out7 XOR in3;
         out1 = out5 XOR in3 XOR in4
     in (out0, out1, out2, out3, out4, out5, out6, out7))]"

definition gf8_muladd_E3_E5 :: "muladd list" where
  "gf8_muladd_E3_E5 = [
     gf8_loop (\<lambda>(in0, in1, in2, in3, in4, in5, in6, in7).
     let out2 = in4 XOR in7; tmp0 = in1 XOR in3; out3 = tmp0 XOR in2; tmp1 = out3 XOR in0; out0 = tmp1 XOR in5;
         tmp2 = tmp1 XOR in4; out1 = tmp2 XOR in6; tmp3 = tmp2 XOR in3; out7 = tmp3 XOR in7;
         out6 = out1 XOR out2 XOR in2; tmp4 = tmp0 XOR out0; out5 = tmp4 XOR in6; out4 = tmp3 XOR tmp4
     in (out0, out1, out2, out3, out4, out5, out6, out7)),
     gf8_loop (\<lambda>(in0, in1, in2, in3, in4, in5, in6, in7).
     let out3 = in6; tmp0 = in0 XOR in4; tmp1 = tmp0 XOR in2 XOR in6; out2 = tmp1 XOR in1; out7 = out2 XOR in5;
         tmp2 = tmp0 XOR out7; out4 = tmp2 XOR in3; out0 = out4 XOR in7; out6 = tmp1 XOR out0;
         out5 = tmp2 XOR out6; out1 = out5 XOR in0
     in (out0, out1, out2, out3, out4, out5, out6, out7)),
     gf8_loop (\<lambda>(in0, in1, in2, in3, in4, in5, in6, in7).
     let out3 = in3 XOR in6; tmp0 = in0 XOR in1; tmp1 = in5 XOR in7; out2 = tmp0 XOR in4 XOR in6;
         tmp2 = tmp1 XOR out2; out6 = tmp2 XOR in3; out7 = tmp2 XOR in2; out0 = out6 XOR in2 XOR in4;
         out5 = out6 XOR in1 XOR in2; out1 = tmp0 XOR out5 XOR in5; out4 = tmp1 XOR out1
     in (out0, out1, out2, out3, out4, out5, out6, out7))]"

definition gf8_muladd_E6_E8 :: "muladd list" where
  "gf8_muladd_E6_E8 = [
     gf8_loop (\<lambda>(in0, in1, in2, in3, in4, in5, in6, in7).
     let out3 = in2 XOR in6 XOR in7; out2 = out3 XOR in0 XOR in4; out4 = out3 XOR in1 XOR in5;
         out1 = out2 XOR in3; out7 = out2 XOR out4 XOR in2; out0 = out4 XOR in3 XOR in7; out5 = out1 XOR in4;
         out6 = out0 XOR out2 XOR in5
     in (out0, out1, out2, out3, out4, out5, out6, out7)),
     gf8_loop (\<lambda>(in0, in1, in2, in3, in4, in5, in6, in7).
     let tmp0 = in2 XOR in3; out3 = tmp0 XOR in6 XOR in7; tmp1 = out3 XOR in0; out5 = tmp1 XOR in5;
         tmp2 = tmp1 XOR in4; tmp3 = out5 XOR in7; out1 = tmp2 XOR in1; out0 = tmp3 XOR in1;
         out6 = out1 XOR in2; out2 = tmp0 XOR tmp2; tmp4 = tmp3 XOR out6; out4 = tmp4 XOR in6;
         out7 = tmp4 XOR in0
     in (out0, out1, out2, out3, out4, out5, out6, out7)),
     gf8_loop (\<lambda>(in0, in1, in2, in3, in4, in5, in6, in7).
     let out4 = in3 XOR in6; tmp0 = in4 XOR in7; out1 = in2 XOR in3 XOR in4; out5 = tmp0 XOR in0;
         tmp1 = tmp0 XOR in1; tmp2 = tmp1 XOR in5; out0 = tmp1 XOR out1; out2 = tmp2 XOR in2;
         out6 = tmp2 XOR out5; tmp3 = out6 XOR in6; out3 = tmp3 XOR in7; out7 = tmp3 XOR in2 XOR in5
     in (out0, out1, out2, out3, out4, out5, out6, out7))]"

definition gf8_muladd_E9_EB :: "muladd list" where
  "gf8_muladd_E9_EB = [
     gf8_loop (\<lambda>(in0, in1, in2, in3, in4, in5, in6, in7).
     let tmp0 = in0 XOR in1; tmp1 = in3 XOR in6; tmp2 = tmp0 XOR in6; out4 = tmp1 XOR in4; out6 = tmp2 XOR in5;
         out7 = tmp2 XOR in2 XOR in7; out3 = out6 XOR in3 XOR in7; out0 = tmp1 XOR out7;
         out2 = out3 XOR out4 XOR in0; out5 = tmp0 XOR out2; out1 = out0 XOR out5 XOR in5
     in (out0, out1, out2, out3, out4, out5, out6, out7)),
     gf8_loop (\<lambda>(in0, in1, in2, in3, in4, in5, in6, in7).
     let out4 = in6 XOR in7; out5 = in0 XOR in7; out6 = in0 XOR in1; out0 = in1 XOR in2 XOR in3;
         out2 = in2 XOR in4 XOR in5; out7 = out6 XOR in2; out1 = out0 XOR out6 XOR in4;
         out3 = out7 XOR in5 XOR in6
     in (out0, out1, out2, out3, out4, out5, out6, out7)),
     gf8_loop (\<lambda>(in0, in1, in2, in3, in4, in5, in6, in7).
     let out2 = in4 XOR in5; tmp0 = in0 XOR in1; out4 = in4 XOR in6 XOR in7; out5 = in0 XOR in5 XOR in7;
         out6 = tmp0 XOR in6; tmp1 = tmp0 XOR in2; out0 = tmp1 XOR in3; out7 = tmp1 XOR in7;
         out1 = out0 XOR in4; out3 = out0 XOR in5 XOR in6
     in (out0, out1, out2, out3, out4, out5, out6, out7))]"

definition gf8_muladd_EC_EE :: "muladd list" where
  "gf8_muladd_EC_EE = [
     gf8_loop (\<lambda>(in0, in1, in2, in3, in4, in5, in6, in7).
     let out3 = in0 XOR in5; out4 = in2 XOR in3 XOR in7; out5 = in0 XOR in3 XOR in4;
         out6 = out3 XOR in1 XOR in4; out1 = out4 XOR in4; out0 = out4 XOR in1 XOR in6;
         out2 = out0 XOR out5 XOR in5; out7 = out2 XOR in4 XOR in7
     in (out0, out1, out2, out3, out4, out5, out6, out7)),
     gf8_loop (\<lambda>(in0, in1, in2, in3, in4, in5, in6, in7).
     let tmp0 = in2 XOR in4; tmp1 = in3 XOR in5; out4 = tmp0 XOR in3 XOR in7; out3 = tmp1 XOR in0;
         out1 = out4 XOR in1; out5 = out3 XOR in4; out7 = out1 XOR out5 XOR in6; out2 = tmp0 XOR out7;
         out0 = tmp1 XOR out7; out6 = out2 XOR in7
     in (out0, out1, out2, out3, out4, out5, out6, out7)),
     gf8_loop (\<lambda>(in0, in1, in2, in3, in4, in5, in6, in7).
     let out4 = in2; tmp0 = in0 XOR in1; out5 = in0 XOR in3; tmp1 = tmp0 XOR in2; out6 = tmp0 XOR in4;
         tmp2 = tmp1 XOR out5; out7 = tmp1 XOR in5; out1 = tmp2 XOR out6 XOR in7; out0 = tmp2 XOR in6;
         tmp3 = out7 XOR in1; out3 = tmp3 XOR in7; out2 = tmp3 XOR in4 XOR in6
     in (out0, out1, out2, out3, out4, out5, out6, out7))]"

definition gf8_muladd_EF_F1 :: "muladd list" where
  "gf8_muladd_EF_F1 = [
     gf8_loop (\<lambda>(in0, in1, in2, in3, in4, in5, in6, in7).
     let out4 = in2 XOR in4; tmp0 = in0 XOR in5; tmp1 = in4 XOR in6; out5 = tmp0 XOR in3; out2 = tmp0 XOR tmp1;
         out6 = tmp1 XOR in0 XOR in1; out3 = out5 XOR in2 XOR in7; out7 = out3 XOR in1 XOR in3;
         out0 = out4 XOR out6 XOR in3; out1 = tmp1 XOR out0 XOR in7
     in (out0, out1, out2, out3, out4, out5, out6, out7)),
     gf8_loop (\<lambda>(in0, in1, in2, in3, in4, in5, in6, in7).
     let tmp0 = in1 XOR in2; tmp1 = in4 XOR in5; out2 = tmp0 XOR in6; out3 = tmp1 XOR in1; tmp2 = tmp1 XOR in7;
         out1 = out2 XOR out3 XOR in3; tmp3 = tmp0 XOR tmp2; out0 = tmp3 XOR in3; out5 = tmp3 XOR in0;
         out4 = out1 XOR out5 XOR in4; out7 = out4 XOR in2; out6 = tmp2 XOR out7
     in (out0, out1, out2, out3, out4, out5, out6, out7)),
     gf8_loop (\<lambda>(in0, in1, in2, in3, in4, in5, in6, in7).
     let out2 = in1 XOR in6; tmp0 = in3 XOR in5; out3 = tmp0 XOR in1 XOR in4; tmp1 = out3 XOR in2;
         out1 = tmp1 XOR in6; tmp2 = tmp1 XOR in0; tmp3 = out1 XOR in5; out0 = tmp2 XOR in7;
         out6 = tmp2 XOR in4; out7 = tmp3 XOR in0; out5 = tmp0 XOR out0; out4 = tmp3 XOR out5 XOR in1
     in (out0, out1, out2, out3, out4, out5, out6, out7))]"

definition gf8_muladd_F2_F4 :: "muladd list" where
  "gf8_muladd_F2_F4 = [
     gf8_loop (\<lambda>(in0, in1, in2, in3, in4, in5, in6, in7).
     let tmp0 = in4 XOR in5; out2 = in2 XOR in6 XOR in7; tmp1 = tmp0 XOR in1; tmp2 = tmp1 XOR in2;
         out0 = tmp2 XOR in3; out3 = tmp2 XOR in7; out5 = out3 XOR in0 XOR in4; tmp3 = tmp0 XOR out5;
         out7 = tmp3 XOR in3; out4 = tmp3 XOR out2; out1 = out0 XOR out4 XOR in4; out6 = tmp1 XOR out1
     in (out0, out1, out2, out3, out4, out5, out6, out7)),
     gf8_loop (\<lambda>(in0, in1, in2, in3, in4, in5, in6, in7).
     let out2 = in6 XOR in7; tmp0 = in0 XOR in1; out4 = tmp0 XOR in6; tmp1 = tmp0 XOR in2; out5 = tmp1 XOR in7;
         out6 = tmp1 XOR in3; out7 = out6 XOR in4; out0 = out7 XOR in5; out1 = out0 XOR in6;
         out3 = out0 XOR in0 XOR in7
     in (out0, out1, out2, out3, out4, out5, out6, out7)),
     gf8_loop (\<lambda>(in0, in1, in2, in3, in4, in5, in6, in7).
     let out2 = in0 XOR in1 XOR in2; tmp0 = out2 XOR in3; out4 = tmp0 XOR in4; out5 = out4 XOR in5;
         out6 = out5 XOR in6; out7 = out6 XOR in7; out0 = out7 XOR in0; out1 = out0 XOR in1;
         out3 = tmp0 XOR out7
     in (out0, out1, out2, out3, out4, out5, out6, out7))]"

definition gf8_muladd_F5_F7 :: "muladd list" where
  "gf8_muladd_F5_F7 = [
     gf8_loop (\<lambda>(in0, in1, in2, in3, in4, in5, in6, in7).
     let out2 = in0 XOR in1; tmp0 = out2 XOR in2; out4 = tmp0 XOR in3; out5 = out4 XOR in4; out6 = out5 XOR in5;
         out7 = out6 XOR in6; out0 = out7 XOR in7; out1 = out0 XOR in0; out3 = tmp0 XOR out0
     in (out0, out1, out2, out3, out4, out5, out6, out7)),
     gf8_loop (\<lambda>(in0, in1, in2, in3, in4, in5, in6, in7).
     let tmp0 = in0 XOR in7; out2 = tmp0 XOR in2; out4 = out2 XOR in1 XOR in4; out7 = out4 XOR in3 XOR in5;
         out5 = out7 XOR in4 XOR in7; out0 = tmp0 XOR out7 XOR in6; tmp1 = out0 XOR in1;
         out6 = out0 XOR in0 XOR in5; out3 = tmp1 XOR in3; out1 = tmp0 XOR tmp1
     in (out0, out1, out2, out3, out4, out5, out6, out7)),
     gf8_loop (\<lambda>(in0, in1, in2, in3, in4, in5, in6, in7).
     let out2 = in0 XOR in7; tmp0 = out2 XOR in1; out4 = tmp0 XOR in2; out5 = out4 XOR in3 XOR in7;
         out6 = out5 XOR in4; out7 = out6 XOR in5; out0 = out7 XOR in6; out1 = out0 XOR in7;
         out3 = tmp0 XOR out1
     in (out0, out1, out2, out3, out4, out5, out6, out7))]"

definition gf8_muladd_F8_FA :: "muladd list" where
  "gf8_muladd_F8_FA = [
     gf8_loop (\<lambda>(in0, in1, in2, in3, in4, in5, in6, in7).
     let tmp0 = in0 XOR in4; tmp1 = in3 XOR in5; tmp2 = tmp0 XOR in6; out4 = tmp0 XOR tmp1;
         out1 = tmp1 XOR in2 XOR in4; out3 = tmp2 XOR in1; out5 = out3 XOR in5; out7 = out1 XOR out5 XOR in7;
         out6 = tmp1 XOR out7; out0 = tmp2 XOR out7; out2 = out6 XOR in0
     in (out0, out1, out2, out3, out4, out5, out6, out7)),
     gf8_loop (\<lambda>(in0, in1, in2, in3, in4, in5, in6, in7).
     let tmp0 = in3 XOR in5; tmp1 = in0 XOR in6; out4 = tmp0 XOR in0; tmp2 = tmp1 XOR in4; tmp3 = tmp1 XOR in2;
         out5 = tmp2 XOR in1; out3 = out5 XOR in3; tmp4 = tmp3 XOR out3; out1 = tmp4 XOR in5;
         out0 = tmp4 XOR in0 XOR in7; out6 = tmp0 XOR out0 XOR in4; out7 = tmp2 XOR tmp4; out2 = tmp3 XOR out6
     in (out0, out1, out2, out3, out4, out5, out6, out7)),
     gf8_loop (\<lambda>(in0, in1, in2, in3, in4, in5, in6, in7).
     let tmp0 = in0 XOR in1; tmp1 = tmp0 XOR in2; tmp2 = tmp0 XOR in5; tmp3 = tmp1 XOR in7; out5 = tmp2 XOR in6;
         out6 = tmp3 XOR in6; out7 = tmp3 XOR in3; out3 = out6 XOR in4; out2 = tmp1 XOR out5;
         out4 = out2 XOR out3 XOR in1; out0 = out4 XOR out7 XOR in5; out1 = tmp2 XOR out0
     in (out0, out1, out2, out3, out4, out5, out6, out7))]"

definition gf8_muladd_FB_FD :: "muladd list" where
  "gf8_muladd_FB_FD = [
     gf8_loop (\<lambda>(in0, in1, in2, in3, in4, in5, in6, in7).
     let out2 = in5 XOR in6; tmp0 = in0 XOR in1; out4 = in0 XOR in5 XOR in7; out5 = tmp0 XOR in6;
         tmp1 = tmp0 XOR in2; out6 = tmp1 XOR in7; out7 = tmp1 XOR in3; out0 = out7 XOR in4;
         out1 = out0 XOR in5; out3 = out0 XOR in6 XOR in7
     in (out0, out1, out2, out3, out4, out5, out6, out7)),
     gf8_loop (\<lambda>(in0, in1, in2, in3, in4, in5, in6, in7).
     let tmp0 = in1 XOR in2; tmp1 = in0 XOR in7; out2 = tmp0 XOR tmp1 XOR in5; out3 = tmp1 XOR in4;
         tmp2 = out2 XOR in6; out6 = tmp2 XOR in4; out7 = tmp2 XOR in3; out4 = out6 XOR in1 XOR in3;
         tmp3 = out4 XOR in0; out1 = tmp3 XOR in6; out0 = tmp3 XOR in1 XOR in5; out5 = tmp0 XOR out4
     in (out0, out1, out2, out3, out4, out5, out6, out7)),
     gf8_loop (\<lambda>(in0, in1, in2, in3, in4, in5, in6, in7).
     let tmp0 = in0 XOR in5; tmp1 = in1 XOR in7; out2 = tmp0 XOR tmp1; out6 = out2 XOR in2 XOR in4;
         tmp2 = out6 XOR in0; out1 = tmp2 XOR in3; out0 = tmp0 XOR out1 XOR in6; out5 = out0 XOR in2;
         tmp3 = out5 XOR in1; out3 = tmp3 XOR in6; out7 = tmp2 XOR tmp3; out4 = tmp1 XOR out7
     in (out0, out1, out2, out3, out4, out5, out6, out7))]"

definition gf8_muladd_FE_FF :: "muladd list" where
  "gf8_muladd_FE_FF = [
     gf8_loop (\<lambda>(in0, in1, in2, in3, in4, in5, in6, in7).
     let tmp0 = in0 XOR in2; out2 = tmp0 XOR in5; out3 = tmp0 XOR in4; tmp1 = out3 XOR in6; out4 = tmp1 XOR in5;
         tmp2 = tmp1 XOR in1; out6 = tmp2 XOR in7; tmp3 = tmp2 XOR in0; out0 = tmp3 XOR in3;
         tmp4 = out0 XOR out4 XOR in7; out5 = tmp4 XOR in6; out7 = tmp4 XOR in2; out1 = tmp3 XOR out5
     in (out0, out1, out2, out3, out4, out5, out6, out7)),
     gf8_loop (\<lambda>(in0, in1, in2, in3, in4, in5, in6, in7).
     let out2 = in0 XOR in5; tmp0 = in4 XOR in7; tmp1 = out2 XOR in2; out4 = tmp1 XOR in6;
         out7 = tmp1 XOR in1 XOR in3; out1 = tmp0 XOR out7; tmp2 = out1 XOR in5; out6 = tmp2 XOR in3;
         tmp3 = tmp2 XOR in7; out0 = tmp3 XOR in6; out3 = tmp3 XOR in1; out5 = tmp0 XOR out0 XOR in2
     in (out0, out1, out2, out3, out4, out5, out6, out7))]"

lemmas gf8_code_C2 =
  gf8_muladd_C2_C4_def gf8_muladd_C5_C7_def gf8_muladd_C8_CA_def gf8_muladd_CB_CD_def gf8_muladd_CE_D0_def
  gf8_muladd_D1_D3_def gf8_muladd_D4_D6_def gf8_muladd_D7_D9_def gf8_muladd_DA_DC_def gf8_muladd_DD_DF_def
  gf8_muladd_E0_E2_def gf8_muladd_E3_E5_def gf8_muladd_E6_E8_def gf8_muladd_E9_EB_def gf8_muladd_EC_EE_def
  gf8_muladd_EF_F1_def gf8_muladd_F2_F4_def gf8_muladd_F5_F7_def gf8_muladd_F8_FA_def gf8_muladd_FB_FD_def
  gf8_muladd_FE_FF_def

lemma gf8_muladd_table_C2:
  "list_all2 (\<lambda>f c. f = gf8_muladd c) (concat [
     gf8_muladd_C2_C4, gf8_muladd_C5_C7, gf8_muladd_C8_CA, gf8_muladd_CB_CD, gf8_muladd_CE_D0, gf8_muladd_D1_D3,
     gf8_muladd_D4_D6, gf8_muladd_D7_D9, gf8_muladd_DA_DC, gf8_muladd_DD_DF, gf8_muladd_E0_E2, gf8_muladd_E3_E5,
     gf8_muladd_E6_E8, gf8_muladd_E9_EB, gf8_muladd_EC_EE, gf8_muladd_EF_F1, gf8_muladd_F2_F4, gf8_muladd_F5_F7,
     gf8_muladd_F8_FA, gf8_muladd_FB_FD, gf8_muladd_FE_FF])
    [
     0xC2, 0xC3, 0xC4, 0xC5, 0xC6, 0xC7, 0xC8, 0xC9, 0xCA, 0xCB, 0xCC, 0xCD, 0xCE, 0xCF, 0xD0, 0xD1, 0xD2, 0xD3,
     0xD4, 0xD5, 0xD6, 0xD7, 0xD8, 0xD9, 0xDA, 0xDB, 0xDC, 0xDD, 0xDE, 0xDF, 0xE0, 0xE1, 0xE2, 0xE3, 0xE4, 0xE5,
     0xE6, 0xE7, 0xE8, 0xE9, 0xEA, 0xEB, 0xEC, 0xED, 0xEE, 0xEF, 0xF0, 0xF1, 0xF2, 0xF3, 0xF4, 0xF5, 0xF6, 0xF7,
     0xF8, 0xF9, 0xFA, 0xFB, 0xFC, 0xFD, 0xFE, 0xFF]"
  unfolding gf8_code_C2 concat.simps append.simps list_all2_Cons list_all2_Nil
  by (intro conjI TrueI gf8_muladdI) (simp_all add: slices_simps)

end
