(* ===== verification/Ec_Gf.thy ===== *)
theory Ec_Gf
  imports Ec_Gf_02 Ec_Gf_44 Ec_Gf_83 Ec_Gf_C2
begin

unbundle bit_operations_syntax

text \<open>
  The table of the routines (\<open>ec_gf_muladd\<close> of \<open>src/xlators/cluster/ec/src/ec-gf.c\<close>) and its
  correctness: entry \<open>c\<close> multiplies the elements of a chunk by \<open>c\<close> and adds those of another one.
\<close>

definition gf8_muladd_00 :: muladd where
  "gf8_muladd_00 out inp width =
     (if width * 8 \<le> length out \<and> width * 8 \<le> length inp
      then Some (take (width * 8) inp @ drop (width * 8) out) else None)"

definition ec_gf_muladd :: "muladd list" where
  "ec_gf_muladd = gf8_muladd_00 # [gf8_muladd_01] @ concat [
     gf8_muladd_02_04, gf8_muladd_05_07, gf8_muladd_08_0A, gf8_muladd_0B_0D, gf8_muladd_0E_10, gf8_muladd_11_13,
     gf8_muladd_14_16, gf8_muladd_17_19, gf8_muladd_1A_1C, gf8_muladd_1D_1F, gf8_muladd_20_22, gf8_muladd_23_25,
     gf8_muladd_26_28, gf8_muladd_29_2B, gf8_muladd_2C_2E, gf8_muladd_2F_31, gf8_muladd_32_34, gf8_muladd_35_37,
     gf8_muladd_38_3A, gf8_muladd_3B_3D, gf8_muladd_3E_40, gf8_muladd_41_43, gf8_muladd_44_46, gf8_muladd_47_49,
     gf8_muladd_4A_4C, gf8_muladd_4D_4F, gf8_muladd_50_52, gf8_muladd_53_55, gf8_muladd_56_58, gf8_muladd_59_5B,
     gf8_muladd_5C_5E, gf8_muladd_5F_61, gf8_muladd_62_64, gf8_muladd_65_67, gf8_muladd_68_6A, gf8_muladd_6B_6D,
     gf8_muladd_6E_70, gf8_muladd_71_73, gf8_muladd_74_76, gf8_muladd_77_79, gf8_muladd_7A_7C, gf8_muladd_7D_7F,
     gf8_muladd_80_82, gf8_muladd_83_85, gf8_muladd_86_88, gf8_muladd_89_8B, gf8_muladd_8C_8E, gf8_muladd_8F_91,
     gf8_muladd_92_94, gf8_muladd_95_97, gf8_muladd_98_9A, gf8_muladd_9B_9D, gf8_muladd_9E_A0, gf8_muladd_A1_A3,
     gf8_muladd_A4_A6, gf8_muladd_A7_A9, gf8_muladd_AA_AC, gf8_muladd_AD_AF, gf8_muladd_B0_B2, gf8_muladd_B3_B5,
     gf8_muladd_B6_B8, gf8_muladd_B9_BB, gf8_muladd_BC_BE, gf8_muladd_BF_C1, gf8_muladd_C2_C4, gf8_muladd_C5_C7,
     gf8_muladd_C8_CA, gf8_muladd_CB_CD, gf8_muladd_CE_D0, gf8_muladd_D1_D3, gf8_muladd_D4_D6, gf8_muladd_D7_D9,
     gf8_muladd_DA_DC, gf8_muladd_DD_DF, gf8_muladd_E0_E2, gf8_muladd_E3_E5, gf8_muladd_E6_E8, gf8_muladd_E9_EB,
     gf8_muladd_EC_EE, gf8_muladd_EF_F1, gf8_muladd_F2_F4, gf8_muladd_F5_F7, gf8_muladd_F8_FA, gf8_muladd_FB_FD,
     gf8_muladd_FE_FF]"

lemma ec_gf_muladd_0 [simp]: "ec_gf_muladd ! 0 = gf8_muladd_00"
  by (simp add: ec_gf_muladd_def)

lemma bytes_upt: "map word_of_nat [1..<256] = [
    0x01 :: 8 word, 0x02, 0x03, 0x04, 0x05, 0x06, 0x07, 0x08, 0x09, 0x0A, 0x0B, 0x0C, 0x0D, 0x0E, 0x0F, 0x10,
    0x11, 0x12, 0x13, 0x14, 0x15, 0x16, 0x17, 0x18, 0x19, 0x1A, 0x1B, 0x1C, 0x1D, 0x1E, 0x1F, 0x20, 0x21, 0x22,
    0x23, 0x24, 0x25, 0x26, 0x27, 0x28, 0x29, 0x2A, 0x2B, 0x2C, 0x2D, 0x2E, 0x2F, 0x30, 0x31, 0x32, 0x33, 0x34,
    0x35, 0x36, 0x37, 0x38, 0x39, 0x3A, 0x3B, 0x3C, 0x3D, 0x3E, 0x3F, 0x40, 0x41, 0x42, 0x43, 0x44, 0x45, 0x46,
    0x47, 0x48, 0x49, 0x4A, 0x4B, 0x4C, 0x4D, 0x4E, 0x4F, 0x50, 0x51, 0x52, 0x53, 0x54, 0x55, 0x56, 0x57, 0x58,
    0x59, 0x5A, 0x5B, 0x5C, 0x5D, 0x5E, 0x5F, 0x60, 0x61, 0x62, 0x63, 0x64, 0x65, 0x66, 0x67, 0x68, 0x69, 0x6A,
    0x6B, 0x6C, 0x6D, 0x6E, 0x6F, 0x70, 0x71, 0x72, 0x73, 0x74, 0x75, 0x76, 0x77, 0x78, 0x79, 0x7A, 0x7B, 0x7C,
    0x7D, 0x7E, 0x7F, 0x80, 0x81, 0x82, 0x83, 0x84, 0x85, 0x86, 0x87, 0x88, 0x89, 0x8A, 0x8B, 0x8C, 0x8D, 0x8E,
    0x8F, 0x90, 0x91, 0x92, 0x93, 0x94, 0x95, 0x96, 0x97, 0x98, 0x99, 0x9A, 0x9B, 0x9C, 0x9D, 0x9E, 0x9F, 0xA0,
    0xA1, 0xA2, 0xA3, 0xA4, 0xA5, 0xA6, 0xA7, 0xA8, 0xA9, 0xAA, 0xAB, 0xAC, 0xAD, 0xAE, 0xAF, 0xB0, 0xB1, 0xB2,
    0xB3, 0xB4, 0xB5, 0xB6, 0xB7, 0xB8, 0xB9, 0xBA, 0xBB, 0xBC, 0xBD, 0xBE, 0xBF, 0xC0, 0xC1, 0xC2, 0xC3, 0xC4,
    0xC5, 0xC6, 0xC7, 0xC8, 0xC9, 0xCA, 0xCB, 0xCC, 0xCD, 0xCE, 0xCF, 0xD0, 0xD1, 0xD2, 0xD3, 0xD4, 0xD5, 0xD6,
    0xD7, 0xD8, 0xD9, 0xDA, 0xDB, 0xDC, 0xDD, 0xDE, 0xDF, 0xE0, 0xE1, 0xE2, 0xE3, 0xE4, 0xE5, 0xE6, 0xE7, 0xE8,
    0xE9, 0xEA, 0xEB, 0xEC, 0xED, 0xEE, 0xEF, 0xF0, 0xF1, 0xF2, 0xF3, 0xF4, 0xF5, 0xF6, 0xF7, 0xF8, 0xF9, 0xFA,
    0xFB, 0xFC, 0xFD, 0xFE, 0xFF]"
  by code_simp

lemmas gf8_tables = list_all2_appendI [OF gf8_muladd_table_02 list_all2_appendI [OF gf8_muladd_table_44
  list_all2_appendI [OF gf8_muladd_table_83 gf8_muladd_table_C2]]]

lemma ec_gf_muladd_all: "list_all2 (\<lambda>f c. f = gf8_muladd c) (tl ec_gf_muladd) (map word_of_nat [1..<256])"
  using gf8_tables unfolding bytes_upt ec_gf_muladd_def list.sel concat.simps append.simps append_assoc .

lemma length_ec_gf_muladd [simp]: "length ec_gf_muladd = 256"
  using arg_cong [OF list_all2_lengthD [OF ec_gf_muladd_all], of Suc] by (simp add: ec_gf_muladd_def)

lemma ec_gf_muladd_nth: "c \<noteq> 0 \<Longrightarrow> ec_gf_muladd ! unat c = gf8_muladd (c :: 8 word)"
proof -
  assume "c \<noteq> 0"
  then have c: "0 < unat c" "unat c < 256" using unsigned_less [of c] by (simp_all add: unat_gt_0)
  then have "tl ec_gf_muladd ! (unat c - 1) = gf8_muladd (map word_of_nat [1..<256] ! (unat c - 1))"
    by (intro list_all2_nthD [OF ec_gf_muladd_all]) simp
  then show ?thesis using c by (simp add: nth_tl)
qed

lemma muladd_00_works:
  assumes "width * 8 \<le> length out" "width * 8 \<le> length inp"
  shows "\<exists>r. gf8_muladd_00 out inp width = Some r \<and> length r = length out \<and>
    drop (width * 8) r = drop (width * 8) out \<and> (\<forall>i < width. \<forall>k. elem width r i k = elem width inp i k)"
proof -
  let ?r = "take (width * 8) inp @ drop (width * 8) out"
  have "slices_at width ?r i = slices_at width inp i" if "i < width" for i
    using that assms by (simp add: slices_at_def nth_append)
  then show ?thesis using assms by (auto simp: gf8_muladd_00_def elem_def)
qed

lemma ec_gf_muladd_works:
  assumes "width * 8 \<le> length out" "width * 8 \<le> length inp"
  shows "\<exists>r. (ec_gf_muladd ! unat c) out inp width = Some r \<and> length r = length out \<and>
    drop (width * 8) r = drop (width * 8) out \<and>
    (\<forall>i < width. \<forall>k. elem width r i k = gf c * elem width out i k + elem width inp i k)"
proof (cases "c = 0")
  case True
  then show ?thesis using muladd_00_works [OF assms] by (simp add: zero_gf8.abs_eq [symmetric])
next
  case False
  then show ?thesis using gf8_muladd_works [OF assms, of c] by (simp add: ec_gf_muladd_nth)
qed

text \<open>C13. Each of the 256 routines of the table computes in the field: entry \<open>c\<close> stays in its buffers,
  replaces every element of the output chunk by \<open>c\<close> times the element plus the one of the input, and leaves
  what follows the chunk.\<close>

theorem ec_gf_muladd_correct:
  assumes "width * 8 \<le> length out" "width * 8 \<le> length inp"
  shows "\<exists>r. (ec_gf_muladd ! unat c) out inp width = Some r \<and> length r = length out \<and>
    drop (width * 8) r = drop (width * 8) out \<and>
    (\<forall>i < width. \<forall>k < 64. elem width r i k = gf c * elem width out i k + elem width inp i k)"
  using ec_gf_muladd_works [OF assms] by blast

theorem ec_gf_muladd_correct_witness:
  "\<exists>r. (ec_gf_muladd ! unat (0x8E :: 8 word)) (replicate 9 7) (replicate 8 5) 1 = Some r \<and> length r = 9 \<and>
    r ! 8 = 7 \<and> elem 1 r 0 2 = gf 0x8E * elem 1 (replicate 9 7) 0 2 + elem 1 (replicate 8 5) 0 2"
proof -
  obtain r where r: "(ec_gf_muladd ! unat (0x8E :: 8 word)) (replicate 9 7) (replicate 8 5) 1 = Some r" "length r = 9"
    "drop 8 r = drop 8 (replicate 9 7)"
    "elem 1 r 0 2 = gf 0x8E * elem 1 (replicate 9 7) 0 2 + elem 1 (replicate 8 5) 0 2"
    using ec_gf_muladd_correct [of 1 "replicate 9 7" "replicate 8 5" "0x8E"] by auto
  have "r ! 8 = drop 8 r ! 0" using r(2) by simp
  also have "\<dots> = 7" unfolding r(3) by simp
  finally show ?thesis using r by blast
qed

end
