(* ===== verification/Ec_Method.thy ===== *)
theory Ec_Method
  imports Ec_Gf
begin

unbundle bit_operations_syntax

text \<open>
  The erasure code (\<open>src/xlators/cluster/ec/src/ec-method.c\<close>): the tables of powers and
  logarithms, encoding of one fragment, and decoding from as many fragments as there are columns by
  inverting a matrix in place.  Buffers hold words of 64 bits, sizes are in bytes as in the code;
  \<open>None\<close> is an access outside of an array or buffer, or a loop that does not end.
\<close>

subsection \<open>Arrays and loops\<close>

definition aget :: "'a list \<Rightarrow> nat \<Rightarrow> 'a option" where
  "aget xs i = (if i < length xs then Some (xs ! i) else None)"

definition aset :: "'a list \<Rightarrow> nat \<Rightarrow> 'a \<Rightarrow> 'a list option" where
  "aset xs i v = (if i < length xs then Some (xs[i := v]) else None)"

text \<open>\<open>for_each f xs s\<close> is a loop whose rounds may fail.\<close>

fun for_each :: "('a \<Rightarrow> 's \<Rightarrow> 's option) \<Rightarrow> 'a list \<Rightarrow> 's \<Rightarrow> 's option" where
  "for_each f [] s = Some s"
| "for_each f (x # xs) s = do { s \<leftarrow> f x s; for_each f xs s }"

lemma aget_Some [simp]: "i < length xs \<Longrightarrow> aget xs i = Some (xs ! i)"
  by (simp add: aget_def)

lemma aset_Some [simp]: "i < length xs \<Longrightarrow> aset xs i v = Some (xs[i := v])"
  by (simp add: aset_def)

lemma for_each_append: "for_each f (xs @ ys) s = do { s \<leftarrow> for_each f xs s; for_each f ys s }"
proof (induction xs arbitrary: s)
  case (Cons x xs)
  then show ?case by (cases "f x s") simp_all
qed simp

lemma for_each_upt:
  assumes "P a s" "a \<le> b" "\<And>i s. a \<le> i \<Longrightarrow> i < b \<Longrightarrow> P i s \<Longrightarrow> \<exists>s'. f i s = Some s' \<and> P (Suc i) s'"
  shows "\<exists>s'. for_each f [a..<b] s = Some s' \<and> P b s'"
  using assms(2,3)
proof (induction b rule: dec_induct)
  case base
  then show ?case using assms(1) by simp
next
  case (step b)
  then obtain s' where "for_each f [a..<b] s = Some s'" "P b s'" by fastforce
  then show ?case using step(1,2) step(4) [of b s'] by (auto simp: for_each_append)
qed

subsection \<open>Tables\<close>

abbreviation (input) EC_GF_SIZE :: nat where "EC_GF_SIZE \<equiv> 256"
abbreviation (input) EC_GF_MOD :: u32 where "EC_GF_MOD \<equiv> 0x11D"

record ec_tables =
  GfPow :: "u32 list"
  GfLog :: "u32 list"

definition gf_double :: "u32 \<Rightarrow> u32" where
  "gf_double p = (let p = push_bit 1 p in if p \<ge> of_nat EC_GF_SIZE then p XOR EC_GF_MOD else p)"

definition gf_table_step :: "nat \<Rightarrow> ec_tables \<Rightarrow> ec_tables option" where
  "gf_table_step i t = do {
     p \<leftarrow> aget (GfPow t) (i - 1);
     let p = gf_double p;
     pw \<leftarrow> aset (GfPow t) i p;
     pw \<leftarrow> aset pw (i + EC_GF_SIZE - 1) p;
     lg \<leftarrow> aset (GfLog t) (unat p) (of_nat i);
     lg \<leftarrow> aset lg (unat p + EC_GF_SIZE - 1) (of_nat i);
     Some (t\<lparr>GfPow := pw, GfLog := lg\<rparr>)
   }"

definition ec_method_initialize :: "ec_tables option" where
  "ec_method_initialize =
     for_each gf_table_step [1..<EC_GF_SIZE]
       \<lparr>GfPow = (replicate (EC_GF_SIZE * 2) 0)[0 := 1], GfLog = (replicate (EC_GF_SIZE * 2) 0)[0 := of_nat EC_GF_SIZE]\<rparr>"

definition ec_method_mul :: "ec_tables \<Rightarrow> u32 \<Rightarrow> u32 \<Rightarrow> u32 option" where
  "ec_method_mul t a b =
     (if a \<noteq> 0 \<and> b \<noteq> 0 then do {
        la \<leftarrow> aget (GfLog t) (unat a);
        lb \<leftarrow> aget (GfLog t) (unat b);
        aget (GfPow t) (unat (la + lb))
      }
      else Some 0)"

definition ec_method_div :: "ec_tables \<Rightarrow> u32 \<Rightarrow> u32 \<Rightarrow> u32 option" where
  "ec_method_div t a b =
     (if b \<noteq> 0 then
        if a \<noteq> 0 then do {
          la \<leftarrow> aget (GfLog t) (unat a);
          lb \<leftarrow> aget (GfLog t) (unat b);
          aget (GfPow t) (unat (of_nat EC_GF_SIZE - 1 + la - lb))
        }
        else Some 0
      else Some (of_nat EC_GF_SIZE))"

subsection \<open>Encoding\<close>

abbreviation (input) EC_METHOD_MAX_FRAGMENTS :: nat where "EC_METHOD_MAX_FRAGMENTS \<equiv> 16"
abbreviation (input) EC_METHOD_CHUNK_SIZE :: nat where "EC_METHOD_CHUNK_SIZE \<equiv> 512"
abbreviation (input) EC_METHOD_WIDTH :: nat where "EC_METHOD_WIDTH \<equiv> 8"

text \<open>The words of a chunk.\<close>

abbreviation (input) chunk_words :: nat where "chunk_words \<equiv> 64"

text \<open>\<open>ec_gf_muladd[c](out + out_off, in + in_off, EC_METHOD_WIDTH)\<close>.\<close>

definition muladd_at :: "nat \<Rightarrow> u64 list \<Rightarrow> nat \<Rightarrow> u64 list \<Rightarrow> nat \<Rightarrow> u64 list option" where
  "muladd_at c out out_off inp in_off = do {
     f \<leftarrow> aget ec_gf_muladd c;
     r \<leftarrow> f (drop out_off out) (drop in_off inp) EC_METHOD_WIDTH;
     Some (take out_off out @ r)
   }"

definition encode_stripe :: "nat \<Rightarrow> u32 \<Rightarrow> u64 list \<Rightarrow> nat \<Rightarrow> nat \<times> nat \<times> u64 list \<Rightarrow> (nat \<times> nat \<times> u64 list) option" where
  "encode_stripe columns row inp j = (\<lambda>(in_off, out_off, out). do {
     out \<leftarrow> muladd_at 0 out out_off inp in_off;
     (in_off, out) \<leftarrow> for_each (\<lambda>i (in_off, out). do {
         out \<leftarrow> muladd_at (unat row) out out_off inp in_off;
         Some (in_off + chunk_words, out)
       }) [1..<columns] (in_off + chunk_words, out);
     Some (in_off, out_off + chunk_words, out)
   })"

text \<open>The divisor is a product of 32-bit numbers; the counter of the loop has 32 bits, so that the
  loop does not end when there are more stripes.\<close>

definition ec_method_encode :: "nat \<Rightarrow> nat \<Rightarrow> u32 \<Rightarrow> u64 list \<Rightarrow> u64 list \<Rightarrow> (nat \<times> u64 list) option" where
  "ec_method_encode len columns row inp out =
     (let d = EC_METHOD_CHUNK_SIZE * columns mod 2 ^ 32; len = len div d in
      if d = 0 \<or> 2 ^ 32 \<le> len then None
      else do {
        (_, _, out) \<leftarrow> for_each (encode_stripe columns (row + 1) inp) [0..<len] (0, 0, out);
        Some (len * EC_METHOD_CHUNK_SIZE, out)
      })"

subsection \<open>Decoding\<close>

type_synonym matrix = "byte list list"

definition mat_get :: "matrix \<Rightarrow> nat \<Rightarrow> nat \<Rightarrow> byte option" where
  "mat_get m i j = do { r \<leftarrow> aget m i; aget r j }"

definition mat_set :: "matrix \<Rightarrow> nat \<Rightarrow> nat \<Rightarrow> byte \<Rightarrow> matrix option" where
  "mat_set m i j v = do { r \<leftarrow> aget m i; r \<leftarrow> aset r j v; aset m i r }"

definition init_inv :: "nat \<Rightarrow> matrix option" where
  "init_inv columns =
     for_each (\<lambda>i inv. do { inv \<leftarrow> mat_set inv i i 1; mat_set inv i columns 1 }) [0..<columns]
       (replicate EC_METHOD_MAX_FRAGMENTS (replicate (EC_METHOD_MAX_FRAGMENTS + 1) 0))"

definition mtx_cell :: "ec_tables \<Rightarrow> u32 list \<Rightarrow> nat \<Rightarrow> nat \<Rightarrow> matrix \<Rightarrow> matrix option" where
  "mtx_cell t rows i j mtx = do {
     a \<leftarrow> mat_get mtx i j;
     r \<leftarrow> aget rows i;
     v \<leftarrow> ec_method_mul t (ucast a) (r + 1);
     mat_set mtx i (j - 1) (ucast v)
   }"

definition init_mtx :: "ec_tables \<Rightarrow> nat \<Rightarrow> u32 list \<Rightarrow> matrix option" where
  "init_mtx t columns rows =
     for_each (\<lambda>i mtx. do {
         mtx \<leftarrow> mat_set mtx i (columns - 1) 1;
         for_each (mtx_cell t rows i) (rev [1..<columns]) mtx
       }) [0..<columns] (replicate EC_METHOD_MAX_FRAGMENTS (replicate EC_METHOD_MAX_FRAGMENTS 0))"

text \<open>An assignment to a matrix cuts the value to a byte.\<close>

definition div_cell :: "ec_tables \<Rightarrow> u32 \<Rightarrow> nat \<Rightarrow> nat \<Rightarrow> matrix \<Rightarrow> matrix option" where
  "div_cell t f i j m = do {
     a \<leftarrow> mat_get m i j;
     v \<leftarrow> ec_method_div t (ucast a) f;
     mat_set m i j (ucast v)
   }"

definition muladd_cell :: "ec_tables \<Rightarrow> u32 \<Rightarrow> nat \<Rightarrow> nat \<Rightarrow> nat \<Rightarrow> matrix \<Rightarrow> matrix option" where
  "muladd_cell t f i j k m = do {
     a \<leftarrow> mat_get m i k;
     v \<leftarrow> ec_method_mul t (ucast a) f;
     b \<leftarrow> mat_get m j k;
     mat_set m j k (b XOR ucast v)
   }"

definition scale_row :: "ec_tables \<Rightarrow> nat \<Rightarrow> nat \<Rightarrow> matrix \<times> matrix \<Rightarrow> (matrix \<times> matrix) option" where
  "scale_row t columns i = (\<lambda>(mtx, inv). do {
     f \<leftarrow> mat_get mtx i i;
     for_each (\<lambda>j (mtx, inv). do {
         mtx \<leftarrow> div_cell t (ucast f) i j mtx;
         inv \<leftarrow> div_cell t (ucast f) i j inv;
         Some (mtx, inv)
       }) [0..<columns] (mtx, inv)
   })"

definition eliminate_row :: "ec_tables \<Rightarrow> nat \<Rightarrow> nat \<Rightarrow> nat \<Rightarrow> matrix \<times> matrix \<Rightarrow> (matrix \<times> matrix) option" where
  "eliminate_row t columns i j = (\<lambda>(mtx, inv).
     if i \<noteq> j then do {
       f \<leftarrow> mat_get mtx j i;
       for_each (\<lambda>k (mtx, inv). do {
           mtx \<leftarrow> muladd_cell t (ucast f) i j k mtx;
           inv \<leftarrow> muladd_cell t (ucast f) i j k inv;
           Some (mtx, inv)
         }) [0..<columns] (mtx, inv)
     }
     else Some (mtx, inv))"

definition pivot :: "ec_tables \<Rightarrow> nat \<Rightarrow> nat \<Rightarrow> matrix \<times> matrix \<Rightarrow> (matrix \<times> matrix) option" where
  "pivot t columns i s = do { s \<leftarrow> scale_row t columns i s; for_each (eliminate_row t columns i) [0..<columns] s }"

text \<open>\<open>while (inv[i][j] == 0) j++\<close>, with the entry it stops at.\<close>

function skip_zeros :: "byte list \<Rightarrow> nat \<Rightarrow> (nat \<times> byte) option" where
  "skip_zeros row j = do { v \<leftarrow> aget row j; if v = 0 then skip_zeros row (j + 1) else Some (j, v) }"
  by pat_completeness auto
termination
  by (relation "measure (\<lambda>(row, j). length row - j)") (auto simp: aget_def split: if_splits)

declare skip_zeros.simps [simp del]

lemma skip_zeros_ge: "skip_zeros row j = Some (k, v) \<Longrightarrow> j \<le> k"
proof (induction row j rule: skip_zeros.induct)
  case (1 row j)
  then show ?case by (subst (asm) (2) skip_zeros.simps) (fastforce simp: bind_eq_Some_conv split: if_splits)
qed

text \<open>The \<open>do\<close> loop that combines the fragments; it returns \<open>last\<close> and the output.\<close>

function combine ::
  "ec_tables \<Rightarrow> nat \<Rightarrow> byte list \<Rightarrow> u64 list list \<Rightarrow> u32 \<Rightarrow> nat \<Rightarrow> nat \<Rightarrow> u32 \<Rightarrow> u64 list \<Rightarrow> (u32 \<times> u64 list) option" where
  "combine t columns row ins off out_off j last' out = do {
     (j', v) \<leftarrow> skip_zeros row j;
     if j' < columns then do {
       value \<leftarrow> ec_method_div t last' (ucast v);
       buf \<leftarrow> aget ins j';
       out \<leftarrow> muladd_at (unat value) out out_off buf (unat off div 8);
       if j' + 1 < columns then combine t columns row ins off out_off (j' + 1) (ucast v) out
       else Some (ucast v, out)
     }
     else Some (last', out)
   }"
  by pat_completeness auto
termination
  by (relation "measure (\<lambda>(_, columns, _, _, _, _, j, _). columns - j)") (auto dest!: skip_zeros_ge)

declare combine.simps [simp del]

definition decode_row ::
  "ec_tables \<Rightarrow> nat \<Rightarrow> matrix \<Rightarrow> u64 list list \<Rightarrow> u32 \<Rightarrow> nat \<Rightarrow> nat \<times> u64 list \<Rightarrow> (nat \<times> u64 list) option" where
  "decode_row t columns inv' ins off i = (\<lambda>(out_off, out). do {
     row \<leftarrow> aget inv' i;
     (last', out) \<leftarrow> combine t columns row ins off out_off 0 0 out;
     out \<leftarrow> muladd_at (unat last') out out_off (replicate chunk_words 0) 0;
     Some (out_off + chunk_words, out)
   })"

definition decode_stripe ::
  "ec_tables \<Rightarrow> nat \<Rightarrow> matrix \<Rightarrow> u64 list list \<Rightarrow> nat \<Rightarrow> u32 \<times> nat \<times> u64 list \<Rightarrow> (u32 \<times> nat \<times> u64 list) option" where
  "decode_stripe t columns inv' ins f = (\<lambda>(off, out_off, out). do {
     (out_off, out) \<leftarrow> for_each (decode_row t columns inv' ins off) [0..<columns] (out_off, out);
     Some (off + of_nat EC_METHOD_CHUNK_SIZE, out_off, out)
   })"

definition ec_method_decode ::
  "ec_tables \<Rightarrow> nat \<Rightarrow> nat \<Rightarrow> u32 list \<Rightarrow> u64 list list \<Rightarrow> u64 list \<Rightarrow> (nat \<times> u64 list) option" where
  "ec_method_decode t len columns rows ins out =
     (let len = len div EC_METHOD_CHUNK_SIZE in do {
        inv \<leftarrow> init_inv columns;
        mtx \<leftarrow> init_mtx t columns rows;
        (mtx, inv) \<leftarrow> for_each (pivot t columns) [0..<columns] (mtx, inv);
        if 2 ^ 32 \<le> len then None
        else do {
          (_, _, out) \<leftarrow> for_each (decode_stripe t columns inv ins) [0..<len] (0, 0, out);
          Some (len * EC_METHOD_CHUNK_SIZE * columns, out)
        }
      })"

end
