(* ===== verification/Ec_Tables.thy ===== *)
theory Ec_Tables
  imports Ec_Method
begin

unbundle bit_operations_syntax

text \<open>
  The tables of the erasure code compute in the field, and the loops over a row of a matrix do what they
  should.
\<close>

subsection \<open>Tables\<close>

lemma unat_byte: "unat (b :: byte) < 256"
  using unsigned_less [of b] by simp

lemma unat_ucast_byte [simp]: "unat (ucast (b :: byte) :: u32) = unat b"
  using unat_byte [of b] by (simp add: unsigned_ucast_eq take_bit_nat_eq_self)

lemma ucast_byte_inverse [simp]: "ucast (ucast (b :: byte) :: u32) = b"
  by (rule bit_word_eqI) (simp add: bit_simps)

lemma ucast_byte_eq_0 [simp]: "(ucast (b :: byte) :: u32) = 0 \<longleftrightarrow> b = 0"
  by (metis ucast_byte_inverse unsigned_0)

lemma unat_u32: "n < 2 ^ 32 \<Longrightarrow> unat (word_of_nat n :: u32) = n"
  by (simp add: unsigned_of_nat take_bit_nat_eq_self)

lemma xor_cancel_middle: "(a XOR c) XOR (c XOR b) = a XOR (b :: u32)"
  by (metis xor.assoc xor.right_neutral xor_self_eq)

lemma high_bit: "bit (b :: byte) 7 \<longleftrightarrow> 128 \<le> unat b"
proof -
  have "bit b 7 \<longleftrightarrow> odd (unat b div 128)" using bit_unsigned_iff [of b 7, where 'a = nat] by (simp add: bit_iff_odd [of "unat b"])
  moreover have "unat b div 128 < 2" using unat_byte [of b] by (simp add: less_mult_imp_div_less)
  ultimately show ?thesis by (auto simp: less_2_cases_iff div_eq_0_iff not_le dest: div_less)
qed

lemma double_byte: "gf_double (ucast (b :: byte)) = ucast (xtime b)"
proof -
  let ?p = "push_bit 1 (ucast b) :: u32"
  have u: "unat ?p = 2 * unat b" using unat_byte [of b] by (simp add: unat_mult_lem [THEN iffD1] mult.commute)
  have p: "?p = ucast (push_bit 1 b) XOR (if bit b 7 then push_bit 8 1 else 0)"
  proof (rule bit_word_eqI)
    fix n assume "n < LENGTH(32)"
    moreover have "bit b (n - 1) \<Longrightarrow> n \<le> 8" using bit_imp_le_length [of b "n - 1"] by simp
    ultimately show "bit ?p n = bit ((ucast (push_bit 1 b) :: u32) XOR (if bit b 7 then push_bit 8 1 else 0)) n"
      unfolding bit_xor_iff bit_push_bit_iff bit_unsigned_iff if_distrib [of "\<lambda>a. bit a n"] bit_1_iff bit_0_eq
      by (cases "n = 8") auto
  qed
  have m: "EC_GF_MOD = push_bit 8 1 XOR ucast (0x1D :: byte)" by simp
  show ?thesis
  proof (cases "bit b 7")
    case True
    then have "?p \<ge> 256" using u by (simp add: high_bit word_le_nat_alt)
    then have "gf_double (ucast b) = ?p XOR EC_GF_MOD" by (simp add: gf_double_def)
    also have "\<dots> = (ucast (push_bit 1 b) XOR push_bit 8 1) XOR (push_bit 8 1 XOR ucast (0x1D :: byte))"
      using p m True by (simp only: if_True)
    also have "\<dots> = ucast (push_bit 1 b) XOR ucast (0x1D :: byte)" by (rule xor_cancel_middle)
    finally show ?thesis using True by (simp add: xtime_def unsigned_xor_eq)
  next
    case False
    then have "\<not> ?p \<ge> 256" using u by (simp add: high_bit word_le_nat_alt)
    then show ?thesis using False p by (simp add: gf_double_def xtime_def)
  qed
qed

definition table_inv :: "nat \<Rightarrow> ec_tables \<Rightarrow> bool" where
  "table_inv n t \<longleftrightarrow> length (GfPow t) = 512 \<and> length (GfLog t) = 512 \<and>
     (\<forall>j < n. GfPow t ! j = ucast (xpow j)) \<and> (\<forall>j. 0 < j \<longrightarrow> j < n \<longrightarrow> GfPow t ! (j + 255) = ucast (xpow j)) \<and>
     (\<forall>j. 0 < j \<longrightarrow> j < n \<longrightarrow> GfLog t ! unat (xpow j) = of_nat j)"

lemma xpow_inj_pos: "xpow i = xpow j \<Longrightarrow> 0 < i \<Longrightarrow> i < 256 \<Longrightarrow> 0 < j \<Longrightarrow> j < 256 \<Longrightarrow> i = j"
  using xpow_inj [of "i mod 255" "j mod 255"] xpow_mod [of i] xpow_mod [of j]
  by (cases "i = 255"; cases "j = 255") auto

lemma table_step:
  assumes "table_inv i t" "0 < i" "i < 256"
  shows "\<exists>t'. gf_table_step i t = Some t' \<and> table_inv (Suc i) t'"
proof -
  let ?p = "ucast (xpow i) :: u32"
  have p: "gf_double (GfPow t ! (i - 1)) = ?p"
    using assms double_byte [of "xpow (i - 1)"] xpow_Suc [of "i - 1"] by (simp add: table_inv_def)
  have u: "unat (xpow i) < 256" by (rule unat_byte)
  let ?t = "t\<lparr>GfPow := (GfPow t)[i := ?p, i + 255 := ?p], GfLog := (GfLog t)[unat (xpow i) := of_nat i, unat (xpow i) + 255 := of_nat i]\<rparr>"
  have "gf_table_step i t = Some ?t"
    using assms p u unfolding gf_table_step_def Let_def by (simp add: table_inv_def add.commute)
  moreover have "table_inv (Suc i) ?t"
  proof -
    have pos: "0 < unat (xpow i)" by (simp add: unat_gt_0)
    have log: "GfLog ?t ! unat (xpow j) = of_nat j" if "0 < j" "j < Suc i" for j
    proof -
      have "unat (xpow i) + 255 \<noteq> unat (xpow j)" "unat (xpow j) < 512" using unat_byte [of "xpow j"] pos by linarith+
      moreover have "unat (xpow i) = unat (xpow j) \<longleftrightarrow> j = i"
        using xpow_inj_pos [of j i] that assms by (auto dest: unsigned_word_eqI)
      ultimately show ?thesis using assms(1) that by (auto simp: table_inv_def less_Suc_eq)
    qed
    have pow: "GfPow ?t ! j = ucast (xpow j)" if "j < Suc i" for j using assms that by (auto simp: table_inv_def nth_list_update)
    have "GfPow ?t ! (j + 255) = ucast (xpow j)" if "0 < j" "j < Suc i" for j
      using assms that by (auto simp: table_inv_def nth_list_update)
    then show ?thesis using log pow assms(1) unfolding table_inv_def by simp
  qed
  ultimately show ?thesis by blast
qed

lemma initialize_works: "\<exists>t. ec_method_initialize = Some t \<and> table_inv 256 t"
  unfolding ec_method_initialize_def
  by (rule for_each_upt [where P = table_inv]) (simp_all add: table_inv_def table_step [unfolded table_inv_def])

text \<open>The tables after initialization, on their whole range.\<close>

definition tables_ok :: "ec_tables \<Rightarrow> bool" where
  "tables_ok t \<longleftrightarrow> length (GfPow t) = 512 \<and> length (GfLog t) = 512 \<and> (\<forall>j \<le> 510. GfPow t ! j = ucast (xpow j)) \<and>
     (\<forall>j. 0 < j \<longrightarrow> j \<le> 255 \<longrightarrow> GfLog t ! unat (xpow j) = of_nat j)"

lemma initialize_ok: "\<exists>t. ec_method_initialize = Some t \<and> tables_ok t"
proof -
  obtain t where t: "ec_method_initialize = Some t" "table_inv 256 t" using initialize_works by blast
  have "GfPow t ! j = ucast (xpow j)" if "j \<le> 510" for j
  proof (cases "j < 256")
    case False
    then have "xpow j = xpow (j - 255)" using gf_mul_xpow_xpow [of 255 "j - 255"] by simp
    moreover have "0 < j - 255" "j - 255 < 256" "j - 255 + 255 = j" using that False by auto
    then have "GfPow t ! j = ucast (xpow (j - 255))" using t(2) unfolding table_inv_def by metis
    ultimately show ?thesis using False by simp
  qed (use t(2) in \<open>simp add: table_inv_def\<close>)
  with t show ?thesis by (auto simp: tables_ok_def table_inv_def)
qed

lemma byte_log: "a \<noteq> 0 \<Longrightarrow> \<exists>j. 0 < j \<and> j \<le> 255 \<and> a = xpow j"
proof -
  assume "a \<noteq> 0"
  then obtain n where n: "n < 255" "a = xpow n" using xpow_surj by blast
  show ?thesis
  proof (cases "n = 0")
    case True
    then show ?thesis using n by (intro exI [of _ 255]) simp
  next
    case False
    then show ?thesis using n by (intro exI [of _ n]) simp
  qed
qed

lemma method_mul:
  assumes "tables_ok t"
  shows "ec_method_mul t (ucast a) (ucast b) = Some (ucast (gf_mul a b))"
proof (cases "a = 0 \<or> b = 0")
  case False
  then obtain i j where ij: "0 < i" "i \<le> 255" "a = xpow i" "0 < j" "j \<le> 255" "b = xpow j" using byte_log by metis
  have u: "unat (xpow n) < 512" for n using unat_byte [of "xpow n"] by simp
  have "unat (word_of_nat i + word_of_nat j :: u32) = i + j"
    using ij unat_u32 [of "i + j"] by simp
  then show ?thesis using assms ij u by (simp add: ec_method_mul_def tables_ok_def gf_mul_xpow_xpow)
qed (auto simp: ec_method_mul_def)

lemma method_div:
  assumes "tables_ok t" "b \<noteq> 0"
  obtains c where "ec_method_div t (ucast a) (ucast b) = Some (ucast c)" "gf c = gf a / gf b"
proof (cases "a = 0")
  case True
  then show thesis using assms(2) that [of 0] by (simp add: ec_method_div_def zero_gf8.abs_eq [symmetric])
next
  case False
  then obtain i j where ij: "0 < i" "i \<le> 255" "a = xpow i" "0 < j" "j \<le> 255" "b = xpow j" using byte_log assms(2) by metis
  have u: "unat (xpow n) < 512" for n using unat_byte [of "xpow n"] by simp
  have "of_nat EC_GF_SIZE - 1 + word_of_nat i - word_of_nat j = (word_of_nat (255 + i - j) :: u32)" using ij by simp
  then have "unat (of_nat EC_GF_SIZE - 1 + word_of_nat i - word_of_nat j :: u32) = 255 + i - j"
    using ij unat_u32 [of "255 + i - j"] by simp
  then have 1: "ec_method_div t (ucast a) (ucast b) = Some (ucast (xpow (255 + i - j)))"
    using assms ij u by (simp add: ec_method_div_def tables_ok_def)
  have "gf (xpow (255 + i - j)) * gf b = gf (xpow (255 + i))"
    using ij gf_mul_xpow_xpow [of "255 + i - j" j] by (simp add: times_gf8.abs_eq)
  also have "\<dots> = gf a" using ij gf_mul_xpow_xpow [of 255 i] by simp
  finally have "gf (xpow (255 + i - j)) = gf a / gf b"
    using assms(2) by (simp add: field_simps zero_gf8.abs_eq gf_inject)
  then show thesis using that 1 by blast
qed

subsection \<open>Matrices\<close>

definition dims :: "nat \<Rightarrow> matrix \<Rightarrow> bool" where
  "dims w m \<longleftrightarrow> length m = 16 \<and> (\<forall>r < 16. length (m ! r) = w)"

definition mupd :: "matrix \<Rightarrow> nat \<Rightarrow> nat \<Rightarrow> byte \<Rightarrow> matrix" where
  "mupd m i j v = m[i := (m ! i)[j := v]]"

lemma mat_get_Some [simp]: "dims w m \<Longrightarrow> i < 16 \<Longrightarrow> j < w \<Longrightarrow> mat_get m i j = Some (m ! i ! j)"
  by (simp add: mat_get_def dims_def)

lemma mat_set_Some [simp]: "dims w m \<Longrightarrow> i < 16 \<Longrightarrow> j < w \<Longrightarrow> mat_set m i j v = Some (mupd m i j v)"
  by (simp add: mat_set_def dims_def mupd_def)

lemma dims_mupd [simp]: "dims w m \<Longrightarrow> i < 16 \<Longrightarrow> dims w (mupd m i j v)"
  by (auto simp: dims_def mupd_def nth_list_update)

lemma nth_mupd: "dims w m \<Longrightarrow> i < 16 \<Longrightarrow> j < w \<Longrightarrow> r < 16 \<Longrightarrow> mupd m i j v ! r ! c = (if r = i \<and> c = j then v else m ! r ! c)"
  by (auto simp: dims_def mupd_def nth_list_update)

text \<open>A row after the loop over its first \<open>k\<close> columns: they hold the values of \<open>g\<close>.\<close>

definition row_upd :: "nat \<Rightarrow> nat \<Rightarrow> nat \<Rightarrow> (nat \<Rightarrow> gf8) \<Rightarrow> matrix \<Rightarrow> matrix \<Rightarrow> bool" where
  "row_upd w k r0 g m m' \<longleftrightarrow> dims w m' \<and> (\<forall>r < 16. \<forall>c < w. gf (m' ! r ! c) = (if r = r0 \<and> c < k then g c else gf (m ! r ! c)))"

lemma row_upd_0: "dims w m \<Longrightarrow> row_upd w 0 r0 g m m"
  by (simp add: row_upd_def)

lemma row_upd_dims: "row_upd w k r0 g m m' \<Longrightarrow> dims w m'"
  by (simp add: row_upd_def)

lemma row_upd_nth: "row_upd w k r0 g m m' \<Longrightarrow> r < 16 \<Longrightarrow> c < w \<Longrightarrow> gf (m' ! r ! c) = (if r = r0 \<and> c < k then g c else gf (m ! r ! c))"
  by (simp add: row_upd_def)

lemma row_upd_Suc:
  assumes "row_upd w k r0 g m m'" "r0 < 16" "k < w" "gf v = g k"
  shows "row_upd w (Suc k) r0 g m (mupd m' r0 k v)"
  using assms by (auto simp: row_upd_def nth_mupd less_Suc_eq)

lemma div_cell_works:
  assumes t: "tables_ok t" and f: "f \<noteq> 0" and m: "row_upd w j i (\<lambda>c. gf (m ! i ! c) / gf f) m m'" and ij: "i < 16" "j < w"
  shows "\<exists>m''. div_cell t (ucast f) i j m' = Some m'' \<and> row_upd w (Suc j) i (\<lambda>c. gf (m ! i ! c) / gf f) m m''"
proof -
  obtain c where c: "ec_method_div t (ucast (m' ! i ! j)) (ucast f) = Some (ucast c)" "gf c = gf (m' ! i ! j) / gf f"
    by (rule method_div [OF t f])
  have "gf (m' ! i ! j) = gf (m ! i ! j)" using row_upd_nth [OF m ij] by simp
  then have "row_upd w (Suc j) i (\<lambda>c. gf (m ! i ! c) / gf f) m (mupd m' i j c)" using row_upd_Suc [OF m ij] c(2) by simp
  then show ?thesis using c(1) ij row_upd_dims [OF m] by (simp add: div_cell_def)
qed

lemma muladd_cell_works:
  assumes t: "tables_ok t" and m: "row_upd w k j (\<lambda>c. gf (m ! j ! c) + gf (m ! i ! c) * gf f) m m'"
    and ijk: "i < 16" "j < 16" "k < w" "i \<noteq> j"
  shows "\<exists>m''. muladd_cell t (ucast f) i j k m' = Some m'' \<and> row_upd w (Suc k) j (\<lambda>c. gf (m ! j ! c) + gf (m ! i ! c) * gf f) m m''"
proof -
  let ?v = "m' ! j ! k XOR gf_mul (m' ! i ! k) f"
  have "gf (m' ! j ! k) = gf (m ! j ! k)" "gf (m' ! i ! k) = gf (m ! i ! k)" using row_upd_nth [OF m] ijk by simp_all
  then have "gf ?v = gf (m ! j ! k) + gf (m ! i ! k) * gf f" by (simp add: plus_gf8.abs_eq [symmetric] times_gf8.abs_eq [symmetric])
  then have "row_upd w (Suc k) j (\<lambda>c. gf (m ! j ! c) + gf (m ! i ! c) * gf f) m (mupd m' j k ?v)"
    using row_upd_Suc [OF m ijk(2,3)] by simp
  then show ?thesis using ijk row_upd_dims [OF m] by (simp add: muladd_cell_def method_mul [OF t])
qed

lemma pair_loop:
  assumes "P 0 m" "Q 0 v"
    and "\<And>k m. k < n \<Longrightarrow> P k m \<Longrightarrow> \<exists>m'. f k m = Some m' \<and> P (Suc k) m'"
    and "\<And>k v. k < n \<Longrightarrow> Q k v \<Longrightarrow> \<exists>v'. g k v = Some v' \<and> Q (Suc k) v'"
  shows "\<exists>m' v'. for_each (\<lambda>k (m, v). do { m \<leftarrow> f k m; v \<leftarrow> g k v; Some (m, v) }) [0..<n] (m, v) = Some (m', v') \<and> P n m' \<and> Q n v'"
proof -
  have "\<exists>s. for_each (\<lambda>k (m, v). do { m \<leftarrow> f k m; v \<leftarrow> g k v; Some (m, v) }) [0..<n] (m, v) = Some s \<and> P n (fst s) \<and> Q n (snd s)"
  proof (rule for_each_upt [where P = "\<lambda>k s. P k (fst s) \<and> Q k (snd s)"])
    fix k s assume "k < n" "P k (fst s) \<and> Q k (snd s)"
    then obtain m' v' where "f k (fst s) = Some m'" "P (Suc k) m'" "g k (snd s) = Some v'" "Q (Suc k) v'"
      using assms(3) [of k "fst s"] assms(4) [of k "snd s"] by blast
    then show "\<exists>s'. (case s of (m, v) \<Rightarrow> do { m \<leftarrow> f k m; v \<leftarrow> g k v; Some (m, v) }) = Some s' \<and> P (Suc k) (fst s') \<and> Q (Suc k) (snd s')"
      by (simp add: case_prod_beta)
  qed (use assms in simp_all)
  then show ?thesis by auto
qed

lemma scale_row_works:
  assumes "tables_ok t" "dims 16 mtx" "dims 17 inv'" "i < n" "n \<le> 16" "mtx ! i ! i \<noteq> 0"
  shows "\<exists>m v. scale_row t n i (mtx, inv') = Some (m, v) \<and>
    row_upd 16 n i (\<lambda>c. gf (mtx ! i ! c) / gf (mtx ! i ! i)) mtx m \<and>
    row_upd 17 n i (\<lambda>c. gf (inv' ! i ! c) / gf (mtx ! i ! i)) inv' v"
proof -
  let ?f = "mtx ! i ! i"
  have "\<exists>m v. for_each (\<lambda>j (m, v). do { m \<leftarrow> div_cell t (ucast ?f) i j m; v \<leftarrow> div_cell t (ucast ?f) i j v; Some (m, v) })
      [0..<n] (mtx, inv') = Some (m, v) \<and>
    row_upd 16 n i (\<lambda>c. gf (mtx ! i ! c) / gf ?f) mtx m \<and> row_upd 17 n i (\<lambda>c. gf (inv' ! i ! c) / gf ?f) inv' v"
    by (rule pair_loop) (use assms in \<open>auto intro: row_upd_0 div_cell_works\<close>)
  then show ?thesis using assms by (simp add: scale_row_def)
qed

lemma eliminate_row_works:
  assumes "tables_ok t" "dims 16 mtx" "dims 17 inv'" "i < n" "j < n" "n \<le> 16" "i \<noteq> j"
  shows "\<exists>m v. eliminate_row t n i j (mtx, inv') = Some (m, v) \<and>
    row_upd 16 n j (\<lambda>c. gf (mtx ! j ! c) + gf (mtx ! i ! c) * gf (mtx ! j ! i)) mtx m \<and>
    row_upd 17 n j (\<lambda>c. gf (inv' ! j ! c) + gf (inv' ! i ! c) * gf (mtx ! j ! i)) inv' v"
proof -
  let ?f = "mtx ! j ! i"
  have "\<exists>m v. for_each (\<lambda>k (m, v). do { m \<leftarrow> muladd_cell t (ucast ?f) i j k m; v \<leftarrow> muladd_cell t (ucast ?f) i j k v; Some (m, v) })
      [0..<n] (mtx, inv') = Some (m, v) \<and>
    row_upd 16 n j (\<lambda>c. gf (mtx ! j ! c) + gf (mtx ! i ! c) * gf ?f) mtx m \<and>
    row_upd 17 n j (\<lambda>c. gf (inv' ! j ! c) + gf (inv' ! i ! c) * gf ?f) inv' v"
    by (rule pair_loop) (use assms in \<open>auto intro: row_upd_0 muladd_cell_works\<close>)
  then show ?thesis using assms by (simp add: eliminate_row_def)
qed

end
