(* ===== verification/Ec_Elim.thy ===== *)
theory Ec_Elim
  imports Gf8
begin

text \<open>
  The algebra behind decoding: elimination without a choice of pivots inverts the matrix of the powers of
  different elements, all but 0.  The two matrices of the code are functions here.
\<close>

type_synonym gmatrix = "nat \<Rightarrow> nat \<Rightarrow> gf8"

text \<open>One pivot step, applied to either matrix: \<open>m\<close> is the one that is brought to the identity.\<close>

definition elim :: "nat \<Rightarrow> gmatrix \<Rightarrow> gmatrix \<Rightarrow> gmatrix" where
  "elim i m a r c = (if r = i then a i c / m i i else a r c + a i c / m i i * m r i)"

text \<open>What holds after the steps below \<open>i\<close>: \<open>m\<close> is \<open>v\<close> times the original matrix, its columns below \<open>i\<close> are those
  of the identity, and so are the columns of \<open>v\<close> from \<open>i\<close> on.\<close>

definition elim_inv :: "nat \<Rightarrow> (nat \<Rightarrow> gf8) \<Rightarrow> nat \<Rightarrow> gmatrix \<Rightarrow> gmatrix \<Rightarrow> bool" where
  "elim_inv n x i m v \<longleftrightarrow>
     (\<forall>r < n. \<forall>c < n. m r c = (\<Sum>k < n. v r k * x k ^ (n - 1 - c))) \<and>
     (\<forall>r < n. \<forall>c < i. m r c = of_bool (r = c)) \<and>
     (\<forall>r < n. \<forall>k < n. i \<le> k \<longrightarrow> v r k = of_bool (r = k))"

lemma gf8_char2: "a + (a + b) = b" "a + a = (0 :: gf8)"
  by (simp_all add: add.assoc [symmetric])

lemma elim_product:
  assumes "i < n" "r < n" "\<forall>r < n. \<forall>c < n. m r c = (\<Sum>k < n. v r k * y k c)" "c < n"
  shows "elim i m m r c = (\<Sum>k < n. elim i m v r k * y k c)"
proof -
  let ?p = "m i i" and ?q = "m r i"
  have row: "m r c = (\<Sum>k < n. v r k * y k c)" "m i c = (\<Sum>k < n. v i k * y k c)" using assms by blast+
  have "m i c / ?p = (\<Sum>k < n. v i k / ?p * y k c)" unfolding row by (simp add: sum_divide_distrib)
  moreover have "m i c / ?p * ?q = (\<Sum>k < n. v i k / ?p * ?q * y k c)" unfolding row(2) sum_divide_distrib sum_distrib_right
    by (rule sum.cong) (simp_all add: field_simps)
  ultimately show ?thesis
    by (cases "r = i") (simp_all only: elim_def row(1) simp_thms if_True if_False distrib_right sum.distrib)
qed

lemma elim_step:
  assumes inv: "elim_inv n x i m v" and "i < n" "m i i \<noteq> 0"
  shows "elim_inv n x (Suc i) (elim i m m) (elim i m v)"
  unfolding elim_inv_def
proof (intro conjI allI impI)
  fix r c assume "r < n" "c < n"
  then show "elim i m m r c = (\<Sum>k < n. elim i m v r k * x k ^ (n - 1 - c))"
    using elim_product [of i n r m v "\<lambda>k c. x k ^ (n - 1 - c)" c] inv assms(2) by (simp add: elim_inv_def)
next
  fix r c assume rc: "r < n" "c < Suc i"
  then have "m r c = of_bool (r = c)" "m i c = 0" if "c \<noteq> i"
    using inv assms(2) that by (auto simp: elim_inv_def less_Suc_eq)
  then show "elim i m m r c = of_bool (r = c)"
    using assms(3) rc by (cases "c = i") (auto simp: elim_def gf8_char2)
next
  fix r k assume "r < n" "k < n" "Suc i \<le> k"
  then show "elim i m v r k = of_bool (r = k)" using inv assms(2) by (auto simp: elim_inv_def elim_def)
qed

subsection \<open>No pivot is 0\<close>

lemma vanishing_products:
  fixes w x :: "nat \<Rightarrow> gf8"
  assumes "\<And>t. t \<le> i \<Longrightarrow> (\<Sum>k < n. w k * x k ^ t) = 0" "finite S" "t + card S \<le> i"
  shows "(\<Sum>k < n. w k * x k ^ t * (\<Prod>s \<in> S. x k - x s)) = 0"
  using assms(2,3)
proof (induction S arbitrary: t)
  case empty
  then show ?case using assms(1) by simp
next
  case (insert s S)
  let ?p = "\<lambda>k. \<Prod>s \<in> S. x k - x s"
  have "(\<Sum>k < n. w k * x k ^ t * (\<Prod>s \<in> insert s S. x k - x s)) =
      (\<Sum>k < n. w k * x k ^ Suc t * ?p k - x s * (w k * x k ^ t * ?p k))"
    using insert(1,2) by (intro sum.cong) (simp_all add: algebra_simps del: gf8_minus)
  also have "\<dots> = 0" using insert(1,2,4) insert(3) [of "Suc t"] insert(3) [of t]
    by (simp add: sum_subtractf sum_distrib_left [symmetric] del: gf8_minus power_Suc)
  finally show ?case .
qed

lemma pivot_nonzero:
  assumes inv: "elim_inv n x i m v" and i: "i < n" and x: "inj_on x {..<n}" "\<And>k. k < n \<Longrightarrow> x k \<noteq> 0"
  shows "m i i \<noteq> 0"
proof
  assume zero: "m i i = 0"
  define w where "w k = v i k * x k ^ (n - 1 - i)" for k
  have "(\<Sum>k < n. w k * x k ^ t) = 0" if "t \<le> i" for t
  proof -
    have "m i c = of_bool (i = c)" if "c < i" for c using inv i that unfolding elim_inv_def by blast
    then have "m i (i - t) = 0" using zero by (cases "t = 0 \<or> i = 0") auto
    moreover have "m i (i - t) = (\<Sum>k < n. v i k * x k ^ (n - 1 - (i - t)))" using inv i by (auto simp: elim_inv_def)
    moreover have "n - 1 - (i - t) = n - 1 - i + t" using i that by simp
    ultimately have "(\<Sum>k < n. v i k * x k ^ (n - 1 - i + t)) = 0" by metis
    then show ?thesis by (simp only: w_def power_add mult.assoc)
  qed
  then have "(\<Sum>k < n. w k * x k ^ 0 * (\<Prod>s < i. x k - x s)) = 0" by (intro vanishing_products [where i = i]) auto
  then have "0 = (\<Sum>k < n. w k * (\<Prod>s < i. x k - x s))" by simp
  also have "\<dots> = (\<Sum>k \<in> {i}. w k * (\<Prod>s < i. x k - x s))"
  proof (rule sum.mono_neutral_right)
    show "\<forall>k \<in> {..<n} - {i}. w k * (\<Prod>s < i. x k - x s) = 0"
    proof
      fix k assume k: "k \<in> {..<n} - {i}"
      show "w k * (\<Prod>s < i. x k - x s) = 0"
      proof (cases "k < i")
        case True
        then have "(\<Prod>s < i. x k - x s) = 0" by (intro prod_zero bexI [of _ k]) auto
        then show ?thesis by simp
      next
        case False
        then show ?thesis using k inv i by (auto simp: w_def elim_inv_def)
      qed
    qed
  qed (use i in auto)
  also have "\<dots> = x i ^ (n - 1 - i) * (\<Prod>s < i. x i - x s)" using inv i by (simp add: w_def elim_inv_def)
  finally have "(\<Prod>s < i. x i - x s) = 0" using x(2) [OF i] by auto
  then obtain s where "s < i" "x i - x s = 0" by (auto simp: prod_zero_iff simp del: gf8_minus)
  then show False using x(1) i by (auto dest: inj_onD simp del: gf8_minus)
qed

lemma elim_start: "elim_inv n x 0 (\<lambda>r c. x r ^ (n - 1 - c)) (\<lambda>r k. of_bool (r = k))"
  by (auto simp: elim_inv_def if_distrib [where f = "\<lambda>a. a * _"] cong: if_cong)

text \<open>At the end \<open>v\<close> is the inverse: it recovers the coefficients of a polynomial from its values.\<close>

lemma elim_inverse:
  assumes "elim_inv n x n m v" "r < n" "\<And>k. k < n \<Longrightarrow> y k = (\<Sum>c < n. d c * x k ^ (n - 1 - c))"
  shows "(\<Sum>k < n. v r k * y k) = d r"
proof -
  have "(\<Sum>k < n. v r k * y k) = (\<Sum>k < n. \<Sum>c < n. d c * (v r k * x k ^ (n - 1 - c)))"
    by (rule sum.cong) (simp_all add: assms(3) sum_distrib_left mult.commute mult.left_commute)
  also have "\<dots> = (\<Sum>c < n. d c * (\<Sum>k < n. v r k * x k ^ (n - 1 - c)))"
    by (subst sum.swap) (simp add: sum_distrib_left)
  also have "\<dots> = (\<Sum>c < n. d c * of_bool (r = c))" using assms(1,2) by (intro sum.cong) (auto simp: elim_inv_def)
  also have "\<dots> = d r" using assms(2) by simp
  finally show ?thesis .
qed

end
