(* ===== verification/Ec_Correct.thy ===== *)
theory Ec_Correct
  imports Ec_Tables Ec_Elim
begin

unbundle bit_operations_syntax

text \<open>
  Correctness of the erasure code: an encoded fragment holds the values of a polynomial, the matrix is
  inverted without ever meeting a pivot 0, and decoding any fragments of as many different rows as
  there are columns gives the data back.
\<close>

subsection \<open>Inverting the matrix\<close>

definition mat :: "matrix \<Rightarrow> gmatrix" where
  "mat m r c = gf (m ! r ! c)"

text \<open>The state of the loop over the rows: those below \<open>j\<close> are done.\<close>

definition eliminated :: "nat \<Rightarrow> nat \<Rightarrow> nat \<Rightarrow> nat \<Rightarrow> matrix \<Rightarrow> matrix \<Rightarrow> matrix \<Rightarrow> bool" where
  "eliminated w n i j m a a' \<longleftrightarrow> dims w a' \<and>
     (\<forall>r < 16. \<forall>c < w. mat a' r c = (if r < j \<and> r \<noteq> i \<and> c < n then mat a r c + mat a i c * mat m r i else mat a r c))"

lemma eliminated_step:
  assumes "eliminated w n i j m a a'" "row_upd w n j (\<lambda>c. gf (a' ! j ! c) + gf (a' ! i ! c) * q) a' b"
    "q = mat m j i" "i < 16" "j < 16" "i \<noteq> j"
  shows "eliminated w n i (Suc j) m a b"
  using assms by (auto simp: eliminated_def row_upd_def mat_def [symmetric] less_Suc_eq)

lemma eliminated_skip: "eliminated w n i i m a a' \<Longrightarrow> eliminated w n i (Suc i) m a a'"
  by (auto simp: eliminated_def less_Suc_eq)

lemma eliminate_rows_work:
  assumes "tables_ok t" "dims 16 m" "dims 17 v" "i < n" "n \<le> 16"
  shows "\<exists>m' v'. for_each (eliminate_row t n i) [0..<n] (m, v) = Some (m', v') \<and>
    eliminated 16 n i n m m m' \<and> eliminated 17 n i n m v v'"
proof -
  let ?P = "\<lambda>j s. eliminated 16 n i j m m (fst s) \<and> eliminated 17 n i j m v (snd s)"
  have "\<exists>s. for_each (eliminate_row t n i) [0..<n] (m, v) = Some s \<and> ?P n s"
  proof (rule for_each_upt [where P = ?P])
    fix j s assume j: "j < n" and P: "?P j s"
    obtain a b where s: "s = (a, b)" by (cases s)
    show "\<exists>s'. eliminate_row t n i j s = Some s' \<and> ?P (Suc j) s'"
    proof (cases "i = j")
      case True
      then show ?thesis using P eliminated_skip by (auto simp: s eliminate_row_def)
    next
      case False
      have d: "dims 16 a" "dims 17 b" using P s by (simp_all add: eliminated_def)
      from eliminate_row_works [OF assms(1) d assms(4) j assms(5) False]
      obtain a' b' where ab: "eliminate_row t n i j s = Some (a', b')"
        "row_upd 16 n j (\<lambda>c. gf (a ! j ! c) + gf (a ! i ! c) * gf (a ! j ! i)) a a'"
        "row_upd 17 n j (\<lambda>c. gf (b ! j ! c) + gf (b ! i ! c) * gf (a ! j ! i)) b b'" unfolding s by blast
      have "gf (a ! j ! i) = mat m j i" using P s j assms(4,5) by (simp add: eliminated_def mat_def)
      then show ?thesis using ab eliminated_step [of 16 n i j m m a _ a'] eliminated_step [of 17 n i j m v b _ b'] P s j False assms(4,5)
        by auto
    qed
  qed (use assms in \<open>simp_all add: eliminated_def\<close>)
  then show ?thesis by auto
qed

lemma pivot_works:
  assumes "tables_ok t" "dims 16 m" "dims 17 v" "i < n" "n \<le> 16" "mat m i i \<noteq> 0"
  shows "\<exists>m' v'. pivot t n i (m, v) = Some (m', v') \<and> dims 16 m' \<and> dims 17 v' \<and>
    (\<forall>r < n. \<forall>c < n. mat m' r c = elim i (mat m) (mat m) r c) \<and>
    (\<forall>r < n. \<forall>c < n. mat v' r c = elim i (mat m) (mat v) r c) \<and> (\<forall>r < n. mat v' r n = mat v r n)"
proof -
  have "m ! i ! i \<noteq> 0" using assms(6) by (auto simp: mat_def zero_gf8.abs_eq)
  from scale_row_works [OF assms(1-5) this] obtain m1 v1 where s: "scale_row t n i (m, v) = Some (m1, v1)"
    "row_upd 16 n i (\<lambda>c. mat m i c / mat m i i) m m1" "row_upd 17 n i (\<lambda>c. mat v i c / mat m i i) v v1"
    unfolding mat_def by blast
  from eliminate_rows_work [OF assms(1) row_upd_dims [OF s(2)] row_upd_dims [OF s(3)] assms(4,5)]
  obtain m2 v2 where e: "for_each (eliminate_row t n i) [0..<n] (m1, v1) = Some (m2, v2)"
    "eliminated 16 n i n m1 m1 m2" "eliminated 17 n i n m1 v1 v2" by blast
  have m1: "mat m1 r c = (if r = i then mat m i c / mat m i i else mat m r c)" if "r < n" "c < n" for r c
    using s(2) that assms(5) by (simp add: row_upd_def mat_def)
  have v1: "mat v1 r c = (if r = i \<and> c < n then mat v i c / mat m i i else mat v r c)" if "r < n" "c \<le> n" for r c
    using s(3) that assms(5) by (simp add: row_upd_def mat_def)
  have "mat m2 r c = elim i (mat m) (mat m) r c" if "r < n" "c < n" for r c
    using e(2) that assms(4,5) m1 by (simp add: eliminated_def elim_def)
  moreover have "mat v2 r c = elim i (mat m) (mat v) r c" if "r < n" "c < n" for r c
    using e(3) that assms(4,5) m1 v1 by (simp add: eliminated_def elim_def)
  moreover have "mat v2 r n = mat v r n" if "r < n" for r
    using e(3) that assms(5) v1 by (simp add: eliminated_def)
  ultimately show ?thesis using s(1) e by (auto simp: pivot_def eliminated_def)
qed

text \<open>The entries outside of the square do not matter to the invariant.\<close>

lemma elim_inv_cong:
  assumes "\<And>r c. r < n \<Longrightarrow> c < n \<Longrightarrow> m r c = m' r c" "\<And>r c. r < n \<Longrightarrow> c < n \<Longrightarrow> v r c = v' r c" "i \<le> n"
  shows "elim_inv n x i m v \<longleftrightarrow> elim_inv n x i m' v'"
proof -
  have "c < n" if "c < i" for c using that assms(3) by simp
  then show ?thesis using assms(1,2) by (simp add: elim_inv_def)
qed

lemma inversion_works:
  assumes "tables_ok t" "n \<le> 16" "inj_on x {..<n}" "\<And>k. k < n \<Longrightarrow> x k \<noteq> 0"
    and "dims 16 m" "dims 17 v" "elim_inv n x 0 (mat m) (mat v)" "\<forall>r < n. mat v r n = 1"
  shows "\<exists>m' v'. for_each (pivot t n) [0..<n] (m, v) = Some (m', v') \<and> dims 17 v' \<and>
    elim_inv n x n (mat m') (mat v') \<and> (\<forall>r < n. mat v' r n = 1)"
proof -
  let ?P = "\<lambda>i s. dims 16 (fst s) \<and> dims 17 (snd s) \<and> elim_inv n x i (mat (fst s)) (mat (snd s)) \<and> (\<forall>r < n. mat (snd s) r n = 1)"
  have "\<exists>s. for_each (pivot t n) [0..<n] (m, v) = Some s \<and> ?P n s"
  proof (rule for_each_upt [where P = ?P])
    fix i s assume i: "i < n" and P: "?P i s"
    have nz: "mat (fst s) i i \<noteq> 0" using pivot_nonzero [OF _ i assms(3,4)] P by blast
    from pivot_works [OF assms(1) _ _ i assms(2) nz, of "snd s"] P
    obtain m' v' where *: "pivot t n i s = Some (m', v')" "dims 16 m'" "dims 17 v'"
      "\<forall>r < n. \<forall>c < n. mat m' r c = elim i (mat (fst s)) (mat (fst s)) r c"
      "\<forall>r < n. \<forall>c < n. mat v' r c = elim i (mat (fst s)) (mat (snd s)) r c" "\<forall>r < n. mat v' r n = mat (snd s) r n" by auto
    have "elim_inv n x (Suc i) (elim i (mat (fst s)) (mat (fst s))) (elim i (mat (fst s)) (mat (snd s)))"
      using elim_step [of n x i "mat (fst s)" "mat (snd s)"] i nz P by blast
    then have "elim_inv n x (Suc i) (mat m') (mat v')"
      using elim_inv_cong [of n "mat m'" _ "mat v'" _ "Suc i" x] * i by simp
    then show "\<exists>s'. pivot t n i s = Some s' \<and> ?P (Suc i) s'" using * P by auto
  qed (use assms in auto)
  then show ?thesis by auto
qed

subsection \<open>The matrix of powers\<close>

text \<open>The point at which row \<open>row\<close> evaluates the polynomials.\<close>

definition row_point :: "u32 \<Rightarrow> gf8" where
  "row_point row = gf (ucast (row + 1))"

lemma row_succ: "row < 255 \<Longrightarrow> unat (row + 1 :: u32) = Suc (unat row) \<and> unat row < 255"
  using unat_word_ariths(1) [of row 1] by (simp add: word_less_nat_alt)

lemma row_byte: "row < 255 \<Longrightarrow> ucast (ucast (row + 1) :: byte) = (row + 1 :: u32)"
  using row_succ [of row] by (simp add: word_unat_eq_iff unsigned_ucast_eq unsigned_take_bit_eq take_bit_nat_eq_self)

lemma row_point_nonzero: "row < 255 \<Longrightarrow> row_point row \<noteq> 0"
proof
  assume row: "row < 255" and "row_point row = 0"
  then have "(ucast (row + 1) :: byte) = 0" by (simp add: row_point_def zero_gf8.abs_eq gf_inject)
  then have "unat (row + 1) = unat (0 :: u32)" using row_byte [OF row] by (simp only: unsigned_0)
  then show False using row_succ [OF row] by (simp only: unsigned_0)
qed

lemma row_point_inj: "row_point a = row_point b \<Longrightarrow> a < 255 \<Longrightarrow> b < 255 \<Longrightarrow> a = b"
  unfolding row_point_def by (metis UNIV_I add_right_cancel gf_inject row_byte)

lemma init_inv_works:
  assumes "n \<le> 16"
  shows "\<exists>v. init_inv n = Some v \<and> dims 17 v \<and> (\<forall>r < n. \<forall>c \<le> n. mat v r c = of_bool (r = c \<or> c = n))"
proof -
  let ?P = "\<lambda>i v. dims 17 v \<and> (\<forall>r < 16. \<forall>c < 17. v ! r ! c = (if r < i then of_bool (c = r \<or> c = n) else 0))"
  have "\<exists>v. init_inv n = Some v \<and> ?P n v"
    unfolding init_inv_def
  proof (rule for_each_upt [where P = ?P])
    fix i v assume i: "i < n" and P: "?P i v"
    have d: "dims 17 v" "i < 16" "i < 17" "n < 17" using i P assms by auto
    have "?P (Suc i) (mupd (mupd v i i 1) i n 1)" using i P d by (auto simp: nth_mupd [of 17] less_Suc_eq)
    moreover have "do { v \<leftarrow> mat_set v i i 1; mat_set v i n 1 } = Some (mupd (mupd v i i 1) i n 1)"
      using d mat_set_Some [of 17 v i i] mat_set_Some [of 17 "mupd v i i 1" i n] by simp
    ultimately show "\<exists>v'. do { v \<leftarrow> mat_set v i i 1; mat_set v i n 1 } = Some v' \<and> ?P (Suc i) v'" by blast
  qed (simp_all add: dims_def)
  then obtain v where "init_inv n = Some v" "?P n v" by blast
  then show ?thesis using assms by (auto simp: mat_def zero_gf8.abs_eq one_gf8.abs_eq)
qed

lemma for_each_down:
  assumes "P b s" "a \<le> b" "\<And>i s. a \<le> i \<Longrightarrow> i < b \<Longrightarrow> P (Suc i) s \<Longrightarrow> \<exists>s'. f i s = Some s' \<and> P i s'"
  shows "\<exists>s'. for_each f (rev [a..<b]) s = Some s' \<and> P a s'"
  using assms(2,1,3)
proof (induction b arbitrary: s rule: dec_induct)
  case (step b)
  then obtain s1 where "f b s = Some s1" "P b s1" by blast
  then show ?case using step(1) step(3) [of s1] step(5) by auto
qed simp

definition powers_from :: "nat \<Rightarrow> gf8 \<Rightarrow> nat \<Rightarrow> nat \<Rightarrow> matrix \<Rightarrow> matrix \<Rightarrow> bool" where
  "powers_from n x i j m m' \<longleftrightarrow> dims 16 m' \<and>
     (\<forall>r < 16. \<forall>c < 16. mat m' r c = (if r = i \<and> j \<le> Suc c \<and> c < n then x ^ (n - 1 - c) else mat m r c))"

lemma mtx_cell_works:
  assumes "tables_ok t" "n \<le> 16" "i < n" "i < length rows" "rows ! i < 255" "0 < j" "j < n"
    "powers_from n (row_point (rows ! i)) i (Suc j) m m'"
  shows "\<exists>m''. mtx_cell t rows i j m' = Some m'' \<and> powers_from n (row_point (rows ! i)) i j m m''"
proof -
  let ?x = "ucast (rows ! i + 1) :: byte"
  let ?m = "mupd m' i (j - 1) (gf_mul (m' ! i ! j) ?x)"
  have d: "dims 16 m'" using assms(8) by (simp add: powers_from_def)
  have x: "ucast ?x = rows ! i + 1" by (rule row_byte [OF assms(5)])
  have "ec_method_mul t (ucast (m' ! i ! j)) (rows ! i + 1) = Some (ucast (gf_mul (m' ! i ! j) ?x))"
    using method_mul [OF assms(1), of "m' ! i ! j" ?x] unfolding x .
  then have run: "mtx_cell t rows i j m' = Some ?m" using d assms(2-7) by (simp add: mtx_cell_def)
  have "gf (gf_mul (m' ! i ! j) ?x) = row_point (rows ! i) ^ (n - 1 - (j - 1))"
  proof -
    have "mat m' i j = row_point (rows ! i) ^ (n - 1 - j)" using assms(2,3,7,8) by (simp add: powers_from_def)
    moreover have "n - 1 - (j - 1) = Suc (n - 1 - j)" using assms(6,7) by simp
    moreover have "gf (gf_mul (m' ! i ! j) ?x) = row_point (rows ! i) * mat m' i j"
      by (simp add: mat_def row_point_def times_gf8.abs_eq [symmetric] mult.commute)
    ultimately show ?thesis by (simp only: power_Suc)
  qed
  then have "mat ?m r c = (if r = i \<and> c = j - 1 then row_point (rows ! i) ^ (n - 1 - (j - 1)) else mat m' r c)" if "r < 16" for r c
    using d assms(2,3,6,7) that by (simp add: mat_def nth_mupd [of 16])
  note cell = this
  have "powers_from n (row_point (rows ! i)) i j m ?m"
    unfolding powers_from_def
  proof (intro conjI allI impI)
    show "dims 16 ?m" using d assms(2,3) by simp
    fix r c assume rc: "r < (16 :: nat)" "c < (16 :: nat)"
    show "mat ?m r c = (if r = i \<and> j \<le> Suc c \<and> c < n then row_point (rows ! i) ^ (n - 1 - c) else mat m r c)"
    proof (cases "r = i \<and> c = j - 1")
      case True
      moreover from this have "j \<le> Suc c" "c < n" using assms(6,7) by auto
      ultimately show ?thesis using cell [OF rc(1), of c] by simp
    next
      case False
      then have "(r = i \<and> Suc j \<le> Suc c \<and> c < n) = (r = i \<and> j \<le> Suc c \<and> c < n)" using assms(6) by linarith
      moreover have "mat ?m r c = mat m' r c" using cell [OF rc(1), of c] False by (simp only: if_False)
      ultimately show ?thesis using assms(8) rc unfolding powers_from_def by simp
    qed
  qed
  then show ?thesis using run by blast
qed

lemma mtx_row_works:
  assumes "tables_ok t" "n \<le> 16" "i < n" "i < length rows" "rows ! i < 255" "dims 16 m"
  shows "\<exists>m'. do { m \<leftarrow> mat_set m i (n - 1) 1; for_each (mtx_cell t rows i) (rev [1..<n]) m } = Some m' \<and>
    powers_from n (row_point (rows ! i)) i 1 m m'"
proof -
  let ?m = "mupd m i (n - 1) 1"
  have "powers_from n (row_point (rows ! i)) i n m ?m"
    using assms(2,3,6) by (auto simp: powers_from_def mat_def nth_mupd [of 16] one_gf8.abs_eq)
  then have "\<exists>m'. for_each (mtx_cell t rows i) (rev [1..<n]) ?m = Some m' \<and> powers_from n (row_point (rows ! i)) i 1 m m'"
    using assms(3) mtx_cell_works [OF assms(1-5)] by (intro for_each_down) auto
  then show ?thesis using assms(2,3,6) by simp
qed

lemma init_mtx_works:
  assumes "tables_ok t" "n \<le> 16" "n \<le> length rows" "\<And>i. i < n \<Longrightarrow> rows ! i < 255"
  shows "\<exists>m. init_mtx t n rows = Some m \<and> dims 16 m \<and>
    (\<forall>r < n. \<forall>c < n. mat m r c = row_point (rows ! r) ^ (n - 1 - c))"
proof -
  let ?P = "\<lambda>i m. dims 16 m \<and> (\<forall>r < i. \<forall>c < n. mat m r c = row_point (rows ! r) ^ (n - 1 - c))"
  have "\<exists>m. init_mtx t n rows = Some m \<and> ?P n m"
    unfolding init_mtx_def
  proof (rule for_each_upt [where P = ?P])
    fix i m assume i: "i < n" and P: "?P i m"
    then show "\<exists>m'. do { m \<leftarrow> mat_set m i (n - 1) 1; for_each (mtx_cell t rows i) (rev [1..<n]) m } = Some m' \<and> ?P (Suc i) m'"
      using mtx_row_works [OF assms(1,2) i _ assms(4) [OF i], of m] assms(2,3)
      by (fastforce simp: powers_from_def less_Suc_eq)
  qed (simp_all add: dims_def)
  then show ?thesis by blast
qed

end
