(* ===== verification/Ec_Roundtrip.thy ===== *)
theory Ec_Roundtrip
  imports Ec_Correct
begin

unbundle bit_operations_syntax

text \<open>
  Encoding and decoding of whole buffers, chunk by chunk, and the round trip through the erasure code.
\<close>

subsection \<open>Chunks of a buffer\<close>

text \<open>The element \<open>(i, k)\<close> of the chunk at offset \<open>off\<close>.\<close>

definition el :: "u64 list \<Rightarrow> nat \<Rightarrow> nat \<times> nat \<Rightarrow> gf8" where
  "el buf off = (\<lambda>(i, k). elem 8 (drop off buf) i k)"

definition chunk_only :: "nat \<Rightarrow> u64 list \<Rightarrow> u64 list \<Rightarrow> bool" where
  "chunk_only off a b \<longleftrightarrow> length b = length a \<and> (\<forall>m < length a. m < off \<or> off + 64 \<le> m \<longrightarrow> b ! m = a ! m)"

lemma chunk_only_trans: "chunk_only off a b \<Longrightarrow> chunk_only off b c \<Longrightarrow> chunk_only off a c"
  by (simp add: chunk_only_def)

lemma chunk_only_refl [simp]: "chunk_only off a a"
  by (simp add: chunk_only_def)

lemma chunk_only_length: "chunk_only off a b \<Longrightarrow> length b = length a"
  by (simp add: chunk_only_def)

definition cells :: "(nat \<times> nat) set" where
  "cells = {..<8} \<times> {..<64}"

lemma el_cong:
  assumes "\<And>m. m < 64 \<Longrightarrow> a ! (off + m) = b ! (off' + m)" "off + 64 \<le> length a" "off' + 64 \<le> length b" "e \<in> cells"
  shows "el a off e = el b off' e"
proof -
  obtain i k where e: "e = (i, k)" "i < 8" using assms(4) by (auto simp: cells_def)
  have "slices_at 8 (drop off a) i = slices_at 8 (drop off' b) i" using e assms(1-3) by (simp add: slices_at_def)
  then show ?thesis by (simp add: el_def e elem_def)
qed

lemma el_chunk_only:
  assumes "chunk_only off a b" "off' + 64 \<le> off \<or> off + 64 \<le> off'" "off' + 64 \<le> length a" "e \<in> cells"
  shows "el b off' e = el a off' e"
  by (rule el_cong) (use assms in \<open>auto simp: chunk_only_def\<close>)

text \<open>Chunks with the same elements are the same.\<close>

lemma el_inj:
  assumes "\<And>e. e \<in> cells \<Longrightarrow> el a off e = el b off e" "off + 64 \<le> length a" "off + 64 \<le> length b" "m < 64"
  shows "a ! (off + m) = b ! (off + m)"
proof -
  define i c where "i = m mod 8" and "c = m div 8"
  have m: "m = i + 8 * c" "i < 8" "c < 8" using assms(4) by (auto simp: i_def c_def)
  have "slices_byte (slices_at 8 (drop off a) i) k = slices_byte (slices_at 8 (drop off b) i) k" if "k < 64" for k
    using assms(1) [of "(i, k)"] m(2) that by (simp add: el_def elem_def gf_inject cells_def)
  then have "slices_at 8 (drop off a) i = slices_at 8 (drop off b) i" by (rule slices_byte_inj)
  moreover have "c \<in> {0, 1, 2, 3, 4, 5, 6, 7}" using m(3) by auto
  ultimately show ?thesis using assms(2,3) m by (auto simp: slices_at_def add.commute)
qed

lemma muladd_at_works:
  assumes "out_off + 64 \<le> length out" "in_off + 64 \<le> length inp"
  shows "\<exists>r. muladd_at (unat (c :: byte)) out out_off inp in_off = Some r \<and> chunk_only out_off out r \<and>
    (\<forall>e \<in> cells. el r out_off e = gf c * el out out_off e + el inp in_off e)"
proof -
  have "8 * 8 \<le> length (drop out_off out)" "8 * 8 \<le> length (drop in_off inp)" using assms by auto
  from ec_gf_muladd_works [OF this, of c] obtain r where r: "(ec_gf_muladd ! unat c) (drop out_off out) (drop in_off inp) 8 = Some r"
    "length r = length out - out_off" "drop 64 r = drop (64 + out_off) out"
    "\<forall>i < 8. \<forall>k. elem 8 r i k = gf c * elem 8 (drop out_off out) i k + elem 8 (drop in_off inp) i k" by (auto simp: add.commute)
  let ?r = "take out_off out @ r"
  have "?r ! m = out ! m" if "m < length out" "m < out_off \<or> out_off + 64 \<le> m" for m
  proof (cases "m < out_off")
    case False
    have "drop 64 r ! (m - out_off - 64) = drop (64 + out_off) out ! (m - out_off - 64)" using r(3) by simp
    then show ?thesis using False that r(2) assms(1) by (simp add: nth_append)
  qed (use assms in \<open>simp add: nth_append\<close>)
  then have "chunk_only out_off out ?r" using r(2) assms(1) by (simp add: chunk_only_def)
  moreover have "muladd_at (unat c) out out_off inp in_off = Some ?r" using r(1) unat_byte [of c] by (simp add: muladd_at_def)
  moreover have "\<forall>e \<in> cells. el ?r out_off e = gf c * el out out_off e + el inp in_off e"
    using r(4) assms(1) by (auto simp: el_def cells_def)
  ultimately show ?thesis by blast
qed

text \<open>The chunks below \<open>m\<close> of a buffer hold what they should.\<close>

definition chunks_done :: "(nat \<Rightarrow> nat \<times> nat \<Rightarrow> gf8) \<Rightarrow> nat \<Rightarrow> u64 list \<Rightarrow> bool" where
  "chunks_done T m out \<longleftrightarrow> (\<forall>m' < m. \<forall>e \<in> cells. el out (64 * m') e = T m' e)"

lemma chunks_done_step:
  assumes "chunks_done T m a" "chunk_only (64 * m) a b" "64 * Suc m \<le> length a" "\<forall>e \<in> cells. el b (64 * m) e = T m e"
  shows "chunks_done T (Suc m) b"
  unfolding chunks_done_def
proof (intro allI impI ballI)
  fix m' e assume m': "m' < Suc m" and e: "e \<in> cells"
  show "el b (64 * m') e = T m' e"
  proof (cases "m' = m")
    case False
    then have "el b (64 * m') e = el a (64 * m') e" using el_chunk_only [OF assms(2) _ _ e, of "64 * m'"] m' assms(3) by simp
    then show ?thesis using assms(1) m' e False by (simp add: chunks_done_def)
  qed (use assms(4) e in simp)
qed

subsection \<open>Encoding\<close>

lemma horner_step: "(\<Sum>c < i. d c * x ^ (i - 1 - c)) * x + d i = (\<Sum>c < Suc i. d c * x ^ (i - c))" for x :: gf8
proof -
  have "(\<Sum>c < i. d c * x ^ (i - 1 - c)) * x = (\<Sum>c < i. d c * x ^ (i - c))"
    unfolding sum_distrib_right by (rule sum.cong) (auto simp: power_Suc [symmetric] Suc_diff_Suc mult.assoc mult.commute mult.left_commute)
  then show ?thesis by simp
qed

definition fragment :: "nat \<Rightarrow> gf8 \<Rightarrow> u64 list \<Rightarrow> nat \<Rightarrow> nat \<times> nat \<Rightarrow> gf8" where
  "fragment n x inp j e = (\<Sum>c < n. el inp (64 * (n * j + c)) e * x ^ (n - 1 - c))"

lemma encode_stripe_works:
  assumes "row < 255" "0 < n" "64 * (n * Suc j) \<le> length inp" "64 * Suc j \<le> length out"
  shows "\<exists>r. encode_stripe n (row + 1) inp j (64 * (n * j), 64 * j, out) = Some (64 * (n * Suc j), 64 * Suc j, r) \<and>
    chunk_only (64 * j) out r \<and> (\<forall>e \<in> cells. el r (64 * j) e = fragment n (row_point row) inp j e)"
proof -
  let ?x = "row_point row" and ?d = "\<lambda>c. el inp (64 * (n * j + c))"
  let ?P = "\<lambda>i s. fst s = 64 * (n * j + i) \<and> chunk_only (64 * j) out (snd s) \<and>
    (\<forall>e \<in> cells. el (snd s) (64 * j) e = (\<Sum>c < i. ?d c e * ?x ^ (i - 1 - c)))"
  let ?step = "\<lambda>i (in_off, out). do { out \<leftarrow> muladd_at (unat (row + 1)) out (64 * j) inp in_off; Some (in_off + 64, out) }"
  have row: "unat (row + 1) = unat (ucast (row + 1) :: byte)"
    using row_byte [OF assms(1)] unat_ucast_byte [of "ucast (row + 1)"] by simp
  have room: "64 * (n * j + i) + 64 \<le> length inp" if "i < n" for i
    using that assms(3) by (simp add: algebra_simps) 
  obtain r0 where r0: "muladd_at 0 out (64 * j) inp (64 * (n * j)) = Some r0" "chunk_only (64 * j) out r0"
    "\<forall>e \<in> cells. el r0 (64 * j) e = ?d 0 e"
    using muladd_at_works [of "64 * j" out "64 * (n * j)" inp 0] room [of 0] assms by (auto simp: zero_gf8.abs_eq [symmetric])
  have "\<exists>s. for_each ?step [1..<n] (64 * (n * j) + 64, r0) = Some s \<and> ?P n s"
  proof (rule for_each_upt [where P = ?P])
    fix i s assume i: "1 \<le> i" "i < n" and P: "?P i s"
    have "64 * j + 64 \<le> length (snd s)" using P assms(4) by (auto dest: chunk_only_length)
    from muladd_at_works [OF this room [OF i(2)], of "ucast (row + 1)"]
    obtain r where r: "muladd_at (unat (row + 1)) (snd s) (64 * j) inp (64 * (n * j + i)) = Some r" "chunk_only (64 * j) (snd s) r"
      "\<forall>e \<in> cells. el r (64 * j) e = ?x * el (snd s) (64 * j) e + ?d i e" unfolding row row_point_def by blast
    have "el r (64 * j) e = (\<Sum>c < Suc i. ?d c e * ?x ^ (Suc i - 1 - c))" if "e \<in> cells" for e
      using r(3) P that horner_step [of "\<lambda>c. ?d c e" ?x i] by (simp add: mult.commute)
    then show "\<exists>s'. ?step i s = Some s' \<and> ?P (Suc i) s'" using P r chunk_only_trans by (auto simp: case_prod_beta)
  qed (use r0 assms(2) in simp_all)
  then show ?thesis using r0(1) by (auto simp: encode_stripe_def fragment_def algebra_simps)
qed

lemma encode_works:
  assumes "row < 255" "0 < n" "n \<le> 16" "s < 2 ^ 32" "64 * (n * s) \<le> length inp" "64 * s \<le> length out"
  shows "\<exists>r. ec_method_encode (512 * n * s) n row inp out = Some (512 * s, r) \<and> length r = length out \<and>
    chunks_done (fragment n (row_point row) inp) s r"
proof -
  let ?P = "\<lambda>j t. fst t = 64 * (n * j) \<and> fst (snd t) = 64 * j \<and> length (snd (snd t)) = length out \<and>
    chunks_done (fragment n (row_point row) inp) j (snd (snd t))"
  have "\<exists>t. for_each (encode_stripe n (row + 1) inp) [0..<s] (0, 0, out) = Some t \<and> ?P s t"
  proof (rule for_each_upt [where P = ?P])
    fix j t assume j: "j < s" and P: "?P j t"
    have "n * Suc j \<le> n * s" using j by (intro mult_le_mono2) simp
    then have "64 * (n * Suc j) \<le> length inp" "64 * Suc j \<le> length (snd (snd t))" using j P assms(5,6) by auto
    from encode_stripe_works [OF assms(1,2) this] P
    obtain r where "encode_stripe n (row + 1) inp j t = Some (64 * (n * Suc j), 64 * Suc j, r)"
      "chunk_only (64 * j) (snd (snd t)) r" "\<forall>e \<in> cells. el r (64 * j) e = fragment n (row_point row) inp j e"
      by (metis prod.collapse)
    then show "\<exists>t'. encode_stripe n (row + 1) inp j t = Some t' \<and> ?P (Suc j) t'"
      using chunks_done_step P j assms(6) by (fastforce dest: chunk_only_length)
  qed (simp_all add: chunks_done_def)
  moreover have "512 * n mod 2 ^ 32 = 512 * n" "512 * n * s div (512 * n) = s" using assms(2,3) by simp_all
  ultimately show ?thesis using assms(2,4) by (auto simp: ec_method_encode_def mult.commute)
qed

subsection \<open>Decoding\<close>

lemma skip_zeros_works:
  assumes "j \<le> n" "n < length row" "row ! n \<noteq> 0"
  shows "\<exists>j'. skip_zeros row j = Some (j', row ! j') \<and> j \<le> j' \<and> j' \<le> n \<and> row ! j' \<noteq> 0 \<and> (\<forall>k. j \<le> k \<longrightarrow> k < j' \<longrightarrow> row ! k = 0)"
  using assms(1)
proof (induction "n - j" arbitrary: j)
  case 0
  then show ?case using assms by (subst skip_zeros.simps) auto
next
  case (Suc d)
  show ?case
  proof (cases "row ! j = 0")
    case True
    then have "j \<noteq> n" using assms by auto
    then have j: "Suc j \<le> n" "j < length row" using Suc(3) assms(2) by auto
    have "d = n - Suc j" using Suc(2) by simp
    from Suc(1) [OF this j(1)] obtain j' where j': "skip_zeros row (Suc j) = Some (j', row ! j')" "Suc j \<le> j'" "j' \<le> n"
      "row ! j' \<noteq> 0" "\<forall>k. Suc j \<le> k \<longrightarrow> k < j' \<longrightarrow> row ! k = 0" by auto
    have "row ! k = 0" if "j \<le> k" "k < j'" for k using that j'(5) True by (cases "k = j") auto
    moreover have "skip_zeros row j = Some (j', row ! j')" using True j j'(1) by (subst skip_zeros.simps) simp
    ultimately show ?thesis using j' by (intro exI [of _ j']) simp
  next
    case False
    then show ?thesis using Suc(3) assms(2) by (subst skip_zeros.simps) auto
  qed
qed

lemma sum_skip:
  fixes j j' :: nat
  assumes "j \<le> j'" "\<And>k. j \<le> k \<Longrightarrow> k < j' \<Longrightarrow> a k = (0 :: gf8)"
  shows "(\<Sum>k < j'. a k * b k) = (\<Sum>k < j. a k * b k)"
  by (rule sum.mono_neutral_right) (use assms in auto)

text \<open>One round of the loop: the fragment is added and the factor to come is that of its entry.\<close>

lemma combine_round:
  assumes "tables_ok t" "b \<noteq> 0" "out_off + 64 \<le> length out" "in_off + 64 \<le> length inp"
    and acc: "\<And>e. e \<in> cells \<Longrightarrow> gf l * el out out_off e = S e"
  shows "\<exists>(c :: byte) r. ec_method_div t (ucast l) (ucast b) = Some (ucast c) \<and> muladd_at (unat c) out out_off inp in_off = Some r \<and>
    chunk_only out_off out r \<and> (\<forall>e \<in> cells. gf b * el r out_off e = S e + gf b * el inp in_off e)"
proof -
  obtain c where c: "ec_method_div t (ucast l) (ucast b) = Some (ucast c)" "gf c = gf l / gf b"
    by (rule method_div [OF assms(1,2)])
  obtain r where r: "muladd_at (unat c) out out_off inp in_off = Some r" "chunk_only out_off out r"
    "\<forall>e \<in> cells. el r out_off e = gf c * el out out_off e + el inp in_off e"
    using muladd_at_works [OF assms(3,4)] by blast
  have "gf b \<noteq> 0" using assms(2) by (simp add: zero_gf8.abs_eq gf_inject)
  then have "gf b * gf c = gf l" using c(2) by simp
  then have "gf b * el r out_off e = S e + gf b * el inp in_off e" if "e \<in> cells" for e
    using r(3) acc [OF that] that by (simp add: distrib_left mult.assoc [symmetric])
  then show ?thesis using c(1) r(1,2) by blast
qed

lemma combine_works:
  assumes "tables_ok t" "n < length row" "row ! n \<noteq> 0" "n \<le> length ins" "\<And>k. k < n \<Longrightarrow> o1 + 64 \<le> length (ins ! k)"
    "unat off div 8 = o1" "out_off + 64 \<le> length out" "j < n"
    "\<forall>e \<in> cells. gf l * el out out_off e = (\<Sum>k < j. gf (row ! k) * el (ins ! k) o1 e)"
  shows "\<exists>l' r. combine t n row ins off out_off j (ucast l) out = Some (ucast l', r) \<and> chunk_only out_off out r \<and>
    (\<forall>e \<in> cells. gf l' * el r out_off e = (\<Sum>k < n. gf (row ! k) * el (ins ! k) o1 e))"
  using assms(7-9)
proof (induction "n - j" arbitrary: j l out rule: less_induct)
  case less
  obtain j' where j': "skip_zeros row j = Some (j', row ! j')" "j \<le> j'" "j' \<le> n" "row ! j' \<noteq> 0"
    "\<And>k. j \<le> k \<Longrightarrow> k < j' \<Longrightarrow> row ! k = 0"
    using skip_zeros_works [of j n row] assms(2,3) less(3) by auto
  have acc: "gf l * el out out_off e = (\<Sum>k < j'. gf (row ! k) * el (ins ! k) o1 e)" if "e \<in> cells" for e
    using sum_skip [OF j'(2), of "\<lambda>k. gf (row ! k)" "\<lambda>k. el (ins ! k) o1 e"] j'(5) less(4) that by (simp add: zero_gf8.abs_eq)
  show ?case
  proof (cases "j' < n")
    case False
    then show ?thesis using j' acc by (subst combine.simps) auto
  next
    case True
    from combine_round [OF assms(1) j'(4) less(2) assms(5) [OF True] acc]
    obtain c :: byte and r where c: "ec_method_div t (ucast l) (ucast (row ! j')) = Some (ucast c)"
      and r: "muladd_at (unat c) out out_off (ins ! j') o1 = Some r" "chunk_only out_off out r"
      and acc': "\<forall>e \<in> cells. gf (row ! j') * el r out_off e = (\<Sum>k < Suc j'. gf (row ! k) * el (ins ! k) o1 e)" by auto
    have run: "combine t n row ins off out_off j (ucast l) out =
        (if Suc j' < n then combine t n row ins off out_off (Suc j') (ucast (row ! j')) r else Some (ucast (row ! j'), r))"
      using True j'(1) c r(1) assms(4,6) by (subst combine.simps) simp
    show ?thesis
    proof (cases "Suc j' < n")
      case True
      have "out_off + 64 \<le> length r" using less(2) r(2) by (simp add: chunk_only_length)
      moreover have "n - Suc j' < n - j" using True j'(2) by simp
      ultimately obtain l' r' where "combine t n row ins off out_off (Suc j') (ucast (row ! j')) r = Some (ucast l', r')"
        "chunk_only out_off r r'" "\<forall>e \<in> cells. gf l' * el r' out_off e = (\<Sum>k < n. gf (row ! k) * el (ins ! k) o1 e)"
        using less(1) [of "Suc j'" r "row ! j'"] True acc' by blast
      then show ?thesis using run True chunk_only_trans [OF r(2)] by auto
    next
      case False
      then have "Suc j' = n" using \<open>j' < n\<close> by simp
      then show ?thesis using run acc' r(2) by auto
    qed
  qed
qed

lemma el_replicate_0: "e \<in> cells \<Longrightarrow> el (replicate 64 0) 0 e = 0"
  by (auto simp: el_def cells_def elem_def slices_at_def slices_zero_def [symmetric] zero_gf8.abs_eq)

lemma decode_row_works:
  assumes "tables_ok t" "dims 17 v" "0 < n" "n \<le> 16" "i < n" "v ! i ! n \<noteq> 0" "n \<le> length ins"
    "\<And>k. k < n \<Longrightarrow> o1 + 64 \<le> length (ins ! k)" "unat off div 8 = o1" "out_off + 64 \<le> length out"
  shows "\<exists>r. decode_row t n v ins off i (out_off, out) = Some (out_off + 64, r) \<and> chunk_only out_off out r \<and>
    (\<forall>e \<in> cells. el r out_off e = (\<Sum>k < n. mat v i k * el (ins ! k) o1 e))"
proof -
  have d: "i < length v" "length (v ! i) = 17" using assms(2,4,5) by (simp_all add: dims_def)
  have "\<forall>e \<in> cells. gf 0 * el out out_off e = (\<Sum>k < 0. gf (v ! i ! k) * el (ins ! k) o1 e)"
    by (simp add: zero_gf8.abs_eq [symmetric])
  from combine_works [OF assms(1) _ assms(6,7,8,9,10,3) this] d(2) assms(4)
  obtain l r where r: "combine t n (v ! i) ins off out_off 0 0 out = Some (ucast l, r)" "chunk_only out_off out r"
    "\<forall>e \<in> cells. gf l * el r out_off e = (\<Sum>k < n. gf (v ! i ! k) * el (ins ! k) o1 e)" by auto
  have "out_off + 64 \<le> length r" using r(2) assms(10) by (simp add: chunk_only_length)
  from muladd_at_works [OF this, of 0 "replicate 64 0" l] obtain r' where
    "muladd_at (unat l) r out_off (replicate 64 0) 0 = Some r'" "chunk_only out_off r r'"
    "\<forall>e \<in> cells. el r' out_off e = gf l * el r out_off e" by (auto simp: el_replicate_0)
  then show ?thesis using r d(1) chunk_only_trans [OF r(2)] by (auto simp: decode_row_def mat_def)
qed

lemma decode_stripe_works:
  assumes "tables_ok t" "dims 17 v" "0 < n" "n \<le> 16" "\<forall>i < n. v ! i ! n \<noteq> 0" "n \<le> length ins"
    "\<And>k. k < n \<Longrightarrow> 64 * Suc j \<le> length (ins ! k)" "512 * j < 2 ^ 32" "64 * (n * Suc j) \<le> length out"
    "\<And>i e. i < n \<Longrightarrow> e \<in> cells \<Longrightarrow> (\<Sum>k < n. mat v i k * el (ins ! k) (64 * j) e) = T (n * j + i) e"
    "chunks_done T (n * j) out"
  shows "\<exists>r. decode_stripe t n v ins j (of_nat (512 * j), 64 * (n * j), out) =
      Some (of_nat (512 * Suc j), 64 * (n * Suc j), r) \<and> length r = length out \<and> chunks_done T (n * Suc j) r"
proof -
  let ?off = "of_nat (512 * j) :: u32"
  let ?P = "\<lambda>i s. fst s = 64 * (n * j + i) \<and> length (snd s) = length out \<and> chunks_done T (n * j + i) (snd s)"
  have off: "unat ?off div 8 = 64 * j" unfolding unat_u32 [OF assms(8)] by simp
  have room: "64 * j + 64 \<le> length (ins ! k)" if "k < n" for k using assms(7) [OF that] by simp
  have "\<exists>s. for_each (decode_row t n v ins ?off) [0..<n] (64 * (n * j), out) = Some s \<and> ?P n s"
  proof (rule for_each_upt [where P = ?P])
    fix i s assume i: "i < n" and P: "?P i s"
    have len: "64 * Suc (n * j + i) \<le> length (snd s)" using P i assms(9) by simp
    then have len': "64 * (n * j + i) + 64 \<le> length (snd s)" by simp
    have "v ! i ! n \<noteq> 0" using assms(5) i by blast
    from decode_row_works [OF assms(1-4) i this assms(6) room off len']
    obtain r where r: "decode_row t n v ins ?off i (64 * (n * j + i), snd s) = Some (64 * (n * j + i) + 64, r)"
      "chunk_only (64 * (n * j + i)) (snd s) r"
      "\<forall>e \<in> cells. el r (64 * (n * j + i)) e = (\<Sum>k < n. mat v i k * el (ins ! k) (64 * j) e)" by blast
    have "chunks_done T (Suc (n * j + i)) r" by (rule chunks_done_step [OF _ r(2) len]) (use P r(3) assms(10) [OF i] in auto)
    then show "\<exists>s'. decode_row t n v ins ?off i s = Some s' \<and> ?P (Suc i) s'"
      using P r(1,2) by (cases s) (auto dest: chunk_only_length)
  qed (use assms(11) in simp_all)
  then obtain s where s: "for_each (decode_row t n v ins ?off) [0..<n] (64 * (n * j), out) = Some s" "?P n s" by blast
  moreover have "?off + of_nat 512 = of_nat (512 * Suc j)" "n * j + n = n * Suc j" by simp_all
  ultimately show ?thesis by (cases s) (auto simp: decode_stripe_def)
qed

lemma decode_works:
  assumes t: "tables_ok t" and n: "0 < n" "n \<le> 16" and rows: "n \<le> length rows" "\<And>i. i < n \<Longrightarrow> rows ! i < 255" "inj_on (\<lambda>i. row_point (rows ! i)) {..<n}"
    and ins: "n \<le> length ins" "\<And>k. k < n \<Longrightarrow> 64 * s \<le> length (ins ! k)"
      "\<And>k. k < n \<Longrightarrow> chunks_done (fragment n (row_point (rows ! k)) inp) s (ins ! k)"
    and s: "s \<le> 2 ^ 23" "64 * (n * s) \<le> length out"
  shows "\<exists>r. ec_method_decode t (512 * s) n rows ins out = Some (512 * n * s, r) \<and> length r = length out \<and>
    chunks_done (\<lambda>m. el inp (64 * m)) (n * s) r"
proof -
  let ?x = "\<lambda>i. row_point (rows ! i)" and ?T = "\<lambda>m. el inp (64 * m)"
  obtain v0 where v0: "init_inv n = Some v0" "dims 17 v0" "\<forall>r < n. \<forall>c \<le> n. mat v0 r c = of_bool (r = c \<or> c = n)"
    using init_inv_works [OF n(2)] by blast
  obtain m0 where m0: "init_mtx t n rows = Some m0" "dims 16 m0" "\<forall>r < n. \<forall>c < n. mat m0 r c = ?x r ^ (n - 1 - c)"
    using init_mtx_works [OF t n(2) rows(1,2)] by blast
  have "elim_inv n ?x 0 (mat m0) (mat v0)"
    using elim_start [of n ?x] elim_inv_cong [of n "mat m0" _ "mat v0" _ 0 ?x] m0(3) v0(3) by simp
  from inversion_works [OF t n(2) rows(3) _ m0(2) v0(2) this] row_point_nonzero [OF rows(2)] v0(3)
  obtain m v where v: "for_each (pivot t n) [0..<n] (m0, v0) = Some (m, v)" "dims 17 v"
    "elim_inv n ?x n (mat m) (mat v)" "\<forall>r < n. mat v r n = 1" by auto
  have v1: "\<forall>i < n. v ! i ! n \<noteq> 0" using v(4) by (auto simp: mat_def zero_gf8.abs_eq [symmetric])
  let ?P = "\<lambda>j u. fst u = (of_nat (512 * j) :: u32) \<and> fst (snd u) = 64 * (n * j) \<and> length (snd (snd u)) = length out \<and>
    chunks_done ?T (n * j) (snd (snd u))"
  have "\<exists>u. for_each (decode_stripe t n v ins) [0..<s] (0, 0, out) = Some u \<and> ?P s u"
  proof (rule for_each_upt [where P = ?P])
    fix j u assume j: "j < s" and P: "?P j u"
    have "n * Suc j \<le> n * s" using j by (intro mult_le_mono2) simp
    then have len: "64 * (n * Suc j) \<le> length (snd (snd u))" using P s(2) by linarith
    have room: "64 * Suc j \<le> length (ins ! k)" if "k < n" for k using ins(2) [OF that] j by simp
    have off: "512 * j < 2 ^ 32" using j s(1) by simp
    have "(\<Sum>k < n. mat v i k * el (ins ! k) (64 * j) e) = ?T (n * j + i) e" if "i < n" "e \<in> cells" for i e
      by (rule elim_inverse [OF v(3) that(1)]) (use ins(3) j that(2) in \<open>simp add: chunks_done_def fragment_def\<close>)
    from decode_stripe_works [OF t v(2) n v1 ins(1) room off len this] P
    show "\<exists>u'. decode_stripe t n v ins j u = Some u' \<and> ?P (Suc j) u'" by (cases u) fastforce
  qed (simp_all add: chunks_done_def)
  moreover have "s < 2 ^ 32" using s(1) by simp
  ultimately show ?thesis using v0(1) m0(1) v(1) by (auto simp: ec_method_decode_def mult.commute mult.left_commute)
qed

lemma chunks_done_take:
  assumes "chunks_done (\<lambda>m. el a (64 * m)) s b" "length a = 64 * s" "64 * s \<le> length b"
  shows "take (64 * s) b = a"
proof (rule nth_equalityI)
  fix p assume "p < length (take (64 * s) b)"
  then have p: "p < 64 * s" using assms(3) by simp
  define m where "m = p div 64"
  have m: "m < s" "p = 64 * m + p mod 64" using p by (simp_all add: m_def less_mult_imp_div_less mult.commute)
  have "b ! (64 * m + p mod 64) = a ! (64 * m + p mod 64)"
    by (rule el_inj) (use assms m(1) in \<open>auto simp: chunks_done_def\<close>)
  then show "take (64 * s) b ! p = a ! p" using p m(2) by simp
qed (use assms in simp)

text \<open>C2. The erasure code recovers its data from any fragments of as many different rows as there are
  columns: encoding succeeds for every row, and decoding the fragments, whatever they and the output buffers held
  before, gives the data back.\<close>

theorem ec_roundtrip:
  assumes "0 < n" "n \<le> 16" "s \<le> 2 ^ 23" "length data = 64 * (n * s)"
    and "length rows = n" "distinct rows" "\<forall>r \<in> set rows. r < 255"
    and "length bufs = n" "\<forall>buf \<in> set bufs. 64 * s \<le> length buf" "64 * (n * s) \<le> length out"
  shows "\<exists>t frags r. ec_method_initialize = Some t \<and> length frags = n \<and>
    (\<forall>k < n. ec_method_encode (512 * n * s) n (rows ! k) data (bufs ! k) = Some (512 * s, frags ! k)) \<and>
    ec_method_decode t (512 * s) n rows frags out = Some (512 * n * s, r) \<and> take (64 * (n * s)) r = data"
proof -
  obtain t where t: "ec_method_initialize = Some t" "tables_ok t" using initialize_ok by blast
  have rows: "rows ! k < 255" if "k < n" for k using assms(5,7) that by simp
  have s: "s < 2 ^ 32" using assms(3) by simp
  have enc: "\<exists>f. ec_method_encode (512 * n * s) n (rows ! k) data (bufs ! k) = Some (512 * s, f) \<and> 64 * s \<le> length f \<and>
      chunks_done (fragment n (row_point (rows ! k)) data) s f" if "k < n" for k
  proof -
    have "64 * s \<le> length (bufs ! k)" using assms(8,9) that by simp
    then show ?thesis using encode_works [OF rows [OF that] assms(1,2) s, of data "bufs ! k"] assms(4) by fastforce
  qed
  then obtain f where f: "\<And>k. k < n \<Longrightarrow> ec_method_encode (512 * n * s) n (rows ! k) data (bufs ! k) = Some (512 * s, f k) \<and>
      64 * s \<le> length (f k) \<and> chunks_done (fragment n (row_point (rows ! k)) data) s (f k)" by metis
  have inj: "inj_on (\<lambda>i. row_point (rows ! i)) {..<n}"
    using assms(5,6) rows by (auto intro!: inj_onI dest!: row_point_inj simp: nth_eq_iff_index_eq)
  from decode_works [OF t(2) assms(1,2) _ rows inj, of "map f [0..<n]" s data out] f assms(3,5,10)
  obtain r where "ec_method_decode t (512 * s) n rows (map f [0..<n]) out = Some (512 * n * s, r)" "length r = length out"
    "chunks_done (\<lambda>m. el data (64 * m)) (n * s) r" by auto
  then show ?thesis using t(1) f chunks_done_take [of data "n * s" r] assms(4,10)
    by (intro exI [of _ t] exI [of _ "map f [0..<n]"] exI [of _ r]) simp
qed

theorem ec_roundtrip_witness:
  "\<exists>t frags r. ec_method_initialize = Some t \<and> length frags = 2 \<and>
    ec_method_encode 1024 2 5 (replicate 64 3 @ replicate 64 9) (replicate 64 0) = Some (512, frags ! 0) \<and>
    ec_method_encode 1024 2 2 (replicate 64 3 @ replicate 64 9) (replicate 64 0) = Some (512, frags ! 1) \<and>
    ec_method_decode t 512 2 [5, 2] frags (replicate 128 0) = Some (1024, r) \<and> take 128 r = replicate 64 3 @ replicate 64 9"
proof -
  let ?d = "replicate 64 3 @ replicate 64 9 :: u64 list"
  obtain t frags r where w: "ec_method_initialize = Some t" "length frags = 2"
    "\<forall>k < 2. ec_method_encode (512 * 2 * 1) 2 ([5, 2] ! k) ?d (replicate 2 (replicate 64 0) ! k) = Some (512 * 1, frags ! k)"
    "ec_method_decode t (512 * 1) 2 [5, 2] frags (replicate 128 0) = Some (512 * 2 * 1, r)" "take (64 * (2 * 1)) r = ?d"
    using ec_roundtrip [of 2 1 ?d "[5, 2]" "replicate 2 (replicate 64 0)" "replicate 128 0"] by auto
  from w(3) have "ec_method_encode 1024 2 5 ?d (replicate 64 0) = Some (512, frags ! 0)"
    "ec_method_encode 1024 2 2 ?d (replicate 64 0) = Some (512, frags ! 1)" by (auto dest: spec [of _ 0] spec [of _ 1])
  then show ?thesis using w(1,2,4,5) by (intro exI [of _ t] exI [of _ frags] exI [of _ r]) simp
qed

end
