(* ===== verification/Posix_Locks.thy ===== *)
theory Posix_Locks
  imports Prelude
begin

text \<open>
  Advisory record locks (\<open>src/xlators/features/locks/src/common.c\<close>): the list of locks of an inode,
  the test whether a lock can be granted, insertion with merging and splitting of the locks of the
  same owner, blocked locks and their granting, and the sections of \<open>pl_setlk\<close> and \<open>pl_flush\<close> that take the mutex of the
  inode, as steps of any number of callers.  The list \<open>ext_list\<close> is a sequence of records in the order of
  the ring; allocations succeed.  Offsets are integers; \<open>range_ok\<close> of \<open>Posix_Locks_Correct\<close> says where they do not exceed
  \<open>off_t\<close>.  Pointers are numbers with 0 for NULL.  Time stamps, the translator of a lock, \<open>errno\<close> and the
  log are left out.
\<close>

subsection \<open>Locks\<close>

datatype lk_type = F_RDLCK | F_WRLCK | F_UNLCK

record gf_flock =
  l_type :: lk_type
  l_whence :: int
  l_start :: int
  l_len :: int
  l_pid :: int
  l_owner :: "byte list"

record posix_lock =
  fl_type :: lk_type
  fl_start :: int
  fl_end :: int
  blocked :: bool
  user_flock :: gf_flock
  fd_num :: nat
  lk_fd :: nat
  lk_frame :: nat
  lk_client :: nat
  lk_owner :: "byte list"
  client_pid :: int

abbreviation LLONG_MAX :: int where "LLONG_MAX \<equiv> 0x7FFFFFFFFFFFFFFF"

definition zero_flock :: gf_flock where
  "zero_flock = \<lparr>l_type = F_RDLCK, l_whence = 0, l_start = 0, l_len = 0, l_pid = 0, l_owner = []\<rparr>"

text \<open>What \<open>GF_CALLOC\<close> returns.\<close>

definition zero_lock :: posix_lock where
  "zero_lock = \<lparr>fl_type = F_RDLCK, fl_start = 0, fl_end = 0, blocked = False, user_flock = zero_flock, fd_num = 0,
     lk_fd = 0, lk_frame = 0, lk_client = 0, lk_owner = [], client_pid = 0\<rparr>"

text \<open>\<open>fd_to_fdnum\<close> is the address of the descriptor.\<close>

definition new_posix_lock :: "gf_flock \<Rightarrow> nat \<Rightarrow> int \<Rightarrow> byte list \<Rightarrow> nat \<Rightarrow> posix_lock option" where
  "new_posix_lock flock client pid own fd =
     (if client = 0 \<or> fd = 0 then None
      else Some (zero_lock\<lparr>fl_start := l_start flock, fl_type := l_type flock,
        fl_end := (if l_len flock = 0 then LLONG_MAX else l_start flock + l_len flock - 1),
        lk_client := client, fd_num := fd, lk_fd := fd, client_pid := pid, lk_owner := own\<rparr>))"

definition posix_lock_to_flock :: "posix_lock \<Rightarrow> gf_flock \<Rightarrow> gf_flock" where
  "posix_lock_to_flock lock flock =
     flock\<lparr>l_pid := client_pid lock, l_type := fl_type lock, l_start := fl_start lock, l_owner := lk_owner lock,
       l_len := (if fl_end lock = LLONG_MAX then 0 else fl_end lock - fl_start lock + 1)\<rparr>"

definition locks_overlap :: "posix_lock \<Rightarrow> posix_lock \<Rightarrow> bool" where
  "locks_overlap l1 l2 \<longleftrightarrow> fl_end l1 \<ge> fl_start l2 \<and> fl_end l2 \<ge> fl_start l1"

definition same_owner :: "posix_lock \<Rightarrow> posix_lock \<Rightarrow> bool" where
  "same_owner l1 l2 \<longleftrightarrow> lk_owner l1 = lk_owner l2 \<and> lk_client l1 = lk_client l2"

subsection \<open>The list of an inode\<close>

type_synonym ext_list = "posix_lock list"

text \<open>The answers sent to waiting requests: frame and lock.\<close>

type_synonym grants = "(nat \<times> gf_flock) list"

definition insert_lock :: "ext_list \<Rightarrow> posix_lock \<Rightarrow> ext_list" where
  "insert_lock ls lock = ls @ [lock]"

definition delete_unlck_locks :: "ext_list \<Rightarrow> ext_list" where
  "delete_unlck_locks ls = filter (\<lambda>l. fl_type l \<noteq> F_UNLCK) ls"

definition add_locks :: "posix_lock \<Rightarrow> posix_lock \<Rightarrow> posix_lock" where
  "add_locks l1 l2 = zero_lock\<lparr>fl_start := min (fl_start l1) (fl_start l2), fl_end := max (fl_end l1) (fl_end l2)\<rparr>"

text \<open>The array \<open>v.locks\<close>; all entries are NULL when \<open>small\<close> is not inside \<open>big\<close>.\<close>

definition subtract_locks :: "posix_lock \<Rightarrow> posix_lock \<Rightarrow> posix_lock option \<times> posix_lock option \<times> posix_lock option" where
  "subtract_locks big small =
     (if fl_start big = fl_start small \<and> fl_end big = fl_end small then
        (Some (big\<lparr>fl_type := fl_type small\<rparr>), None, None)
      else if fl_start small > fl_start big \<and> fl_end small < fl_end big then
        (Some (big\<lparr>fl_end := fl_start small - 1\<rparr>), Some small, Some (big\<lparr>fl_start := fl_end small + 1\<rparr>))
      else if fl_start small = fl_start big then
        (Some (big\<lparr>fl_start := fl_end small + 1\<rparr>), Some small, None)
      else if fl_end small = fl_end big then
        (Some (big\<lparr>fl_end := fl_start small - 1\<rparr>), Some small, None)
      else (None, None, None))"

definition first_conflicting_overlap :: "ext_list \<Rightarrow> posix_lock \<Rightarrow> posix_lock option" where
  "first_conflicting_overlap ls lock =
     find (\<lambda>l. \<not> blocked l \<and> locks_overlap l lock \<and> \<not> same_owner l lock \<and>
               (fl_type l = F_WRLCK \<or> fl_type lock = F_WRLCK)) ls"

definition first_overlap :: "ext_list \<Rightarrow> posix_lock \<Rightarrow> posix_lock option" where
  "first_overlap ls lock = find (\<lambda>l. \<not> blocked l \<and> locks_overlap l lock) ls"

definition is_lock_grantable :: "ext_list \<Rightarrow> posix_lock \<Rightarrow> bool" where
  "is_lock_grantable ls lock \<longleftrightarrow>
     \<not> list_ex (\<lambda>l. \<not> blocked l \<and> locks_overlap lock l \<and> (fl_type l = F_WRLCK \<or> fl_type lock = F_WRLCK) \<and>
                   fl_type lock \<noteq> F_UNLCK \<and> \<not> same_owner l lock) ls"

subsection \<open>Insertion\<close>

text \<open>The lock at which the scan of the list ends: the first one that overlaps and has the same owner,
  or is a read lock like the new one.\<close>

definition merge_target :: "posix_lock \<Rightarrow> ext_list \<Rightarrow> posix_lock option" where
  "merge_target lock ls =
     find (\<lambda>conf. \<not> blocked conf \<and> locks_overlap conf lock \<and>
                  (same_owner conf lock \<or> fl_type conf = F_RDLCK \<and> fl_type lock = F_RDLCK)) ls"

text \<open>The union of two locks with the identity of one of them.\<close>

definition sum_lock :: "posix_lock \<Rightarrow> posix_lock \<Rightarrow> posix_lock \<Rightarrow> posix_lock" where
  "sum_lock lock conf who =
     (add_locks lock conf)\<lparr>fl_type := fl_type who, lk_client := lk_client who, fd_num := fd_num who,
       client_pid := client_pid who, lk_owner := lk_owner who\<rparr>"

definition set_flock :: "posix_lock \<Rightarrow> posix_lock" where
  "set_flock l = l\<lparr>user_flock := posix_lock_to_flock l (user_flock l)\<rparr>"

text \<open>The recursion is not structural; \<open>None\<close> would be one that does not end.\<close>

partial_function (option) insert_and_merge :: "posix_lock \<Rightarrow> ext_list \<Rightarrow> ext_list option" where
  "insert_and_merge lock ls =
     (case merge_target lock ls of
        None \<Rightarrow> Some (if fl_type lock \<noteq> F_UNLCK then insert_lock ls lock else ls)
      | Some conf \<Rightarrow>
          if same_owner conf lock then
            if fl_type conf = fl_type lock then
              insert_and_merge (set_flock (sum_lock lock conf lock)) (remove1 conf ls)
            else
              case subtract_locks (sum_lock lock conf conf) lock of (v0, v1, v2) \<Rightarrow> do {
                ls \<leftarrow> (case v0 of None \<Rightarrow> Some (remove1 conf ls) | Some l \<Rightarrow> insert_and_merge (set_flock l) (remove1 conf ls));
                ls \<leftarrow> (case v1 of None \<Rightarrow> Some ls | Some l \<Rightarrow> insert_and_merge (set_flock l) ls);
                ls \<leftarrow> (case v2 of None \<Rightarrow> Some ls | Some l \<Rightarrow> insert_and_merge (set_flock l) ls);
                Some (delete_unlck_locks ls)
              }
          else Some (insert_lock ls lock))"

subsection \<open>Blocked locks\<close>

text \<open>The first loop takes out the blocked locks that overlap no granted one; granted locks do not change
  in it.\<close>

definition grant_scan :: "ext_list \<Rightarrow> ext_list \<times> ext_list" where
  "grant_scan ls =
     (filter (\<lambda>l. \<not> (blocked l \<and> first_overlap ls l = None)) ls,
      map (\<lambda>l. l\<lparr>blocked := False\<rparr>) (filter (\<lambda>l. blocked l \<and> first_overlap ls l = None) ls))"

text \<open>The second loop; \<open>granted\<close> holds the frame and the lock of every request that is answered.\<close>

fun grant_loop :: "ext_list \<Rightarrow> ext_list \<Rightarrow> grants \<Rightarrow> (ext_list \<times> grants) option" where
  "grant_loop [] ls granted = Some (ls, granted)"
| "grant_loop (l # tmp) ls granted =
     (if is_lock_grantable ls l then do {
        ls \<leftarrow> insert_and_merge (l\<lparr>lk_frame := 0\<rparr>) ls;
        grant_loop tmp ls ((lk_frame l, posix_lock_to_flock l zero_flock) # granted)
      }
      else grant_loop tmp (insert_lock ls (l\<lparr>blocked := True\<rparr>)) granted)"

definition grant_blocked_locks :: "ext_list \<Rightarrow> (ext_list \<times> grants) option" where
  "grant_blocked_locks ls = (case grant_scan ls of (ls, tmp_list) \<Rightarrow> grant_loop tmp_list ls [])"

definition pl_send_prelock_unlock :: "ext_list \<Rightarrow> posix_lock \<Rightarrow> (int \<times> ext_list \<times> grants) option" where
  "pl_send_prelock_unlock ls old_lock =
     (let flock = zero_flock\<lparr>l_type := F_UNLCK, l_whence := l_whence (user_flock old_lock),
            l_start := l_start (user_flock old_lock), l_len := l_len (user_flock old_lock)\<rparr>
      in case new_posix_lock flock (lk_client old_lock) (client_pid old_lock) (lk_owner old_lock) (lk_fd old_lock) of
           None \<Rightarrow> Some (-1, ls, [])
         | Some unlock_lock \<Rightarrow> do {
             ls \<leftarrow> insert_and_merge unlock_lock ls;
             (ls, granted) \<leftarrow> grant_blocked_locks ls;
             Some (0, ls, granted)
           })"

subsection \<open>Waiting reads and writes\<close>

text \<open>A read or write that mandatory locks hold back: the operation of its stub and the region it touches.\<close>

datatype rw_fop = GF_FOP_READ | GF_FOP_WRITE

record pl_rw_req =
  stub_fop :: rw_fop
  rw_region :: posix_lock

definition rw_allowable :: "ext_list \<Rightarrow> posix_lock \<Rightarrow> rw_fop \<Rightarrow> bool" where
  "rw_allowable ls region op \<longleftrightarrow>
     \<not> list_ex (\<lambda>l. locks_overlap l region \<and> \<not> same_owner l region \<and> \<not> (op = GF_FOP_READ \<and> fl_type l \<noteq> F_WRLCK)) ls"

text \<open>The requests that keep waiting and those that are resumed.\<close>

definition do_blocked_rw :: "ext_list \<Rightarrow> pl_rw_req list \<Rightarrow> pl_rw_req list \<times> pl_rw_req list" where
  "do_blocked_rw ls rws =
     (filter (\<lambda>rw. \<not> rw_allowable ls (rw_region rw) (stub_fop rw)) rws,
      filter (\<lambda>rw. rw_allowable ls (rw_region rw) (stub_fop rw)) rws)"

subsection \<open>Requests\<close>

record pl_inode =
  pl_ext_list :: ext_list
  pl_rw_list :: "pl_rw_req list"

text \<open>What \<open>pl_setlk\<close> does while it first holds the mutex of the inode: the result, the list, and the answers
  sent to waiting requests.\<close>

definition pl_setlk_locked :: "ext_list \<Rightarrow> posix_lock \<Rightarrow> bool \<Rightarrow> (int \<times> ext_list \<times> grants) option" where
  "pl_setlk_locked ls lock can_block = do {
     (ret, ls, early) \<leftarrow> (if can_block \<and> \<not> is_lock_grantable ls lock then pl_send_prelock_unlock ls lock else Some (0, ls, []));
     (ret, ls) \<leftarrow> (if is_lock_grantable ls lock then map_option (\<lambda>ls. (ret, ls)) (insert_and_merge lock ls)
                   else if can_block then Some (-1, insert_lock ls (lock\<lparr>blocked := True\<rparr>))
                   else Some (-1, ls));
     Some (ret, ls, early)
   }"

text \<open>The whole call when nobody else takes the mutex in between: \<open>grant_blocked_locks\<close> and \<open>do_blocked_rw\<close>
  take it again, each by itself.  The reads and writes that are resumed are the last component.\<close>

definition pl_setlk :: "pl_inode \<Rightarrow> posix_lock \<Rightarrow> bool \<Rightarrow> (int \<times> pl_inode \<times> grants \<times> pl_rw_req list) option" where
  "pl_setlk ino lock can_block = do {
     (ret, ls, early) \<leftarrow> pl_setlk_locked (pl_ext_list ino) lock can_block;
     (ls, granted) \<leftarrow> grant_blocked_locks ls;
     let (rws, wind_list) = do_blocked_rw ls (pl_rw_list ino);
     Some (ret, ino\<lparr>pl_ext_list := ls, pl_rw_list := rws\<rparr>, early @ granted, wind_list)
   }"

text \<open>The sections in which \<open>pl_flush\<close> deletes locks: those of a descriptor, with the waiting ones whose frames are
  answered with an error, and those of an owner.\<close>

definition delete_locks_of_fd :: "ext_list \<Rightarrow> nat \<Rightarrow> ext_list \<times> ext_list" where
  "delete_locks_of_fd ls fd = (filter (\<lambda>l. fd_num l \<noteq> fd) ls, filter (\<lambda>l. fd_num l = fd \<and> blocked l) ls)"

definition delete_locks_of_owner :: "ext_list \<Rightarrow> nat \<Rightarrow> byte list \<Rightarrow> ext_list" where
  "delete_locks_of_owner ls client own = filter (\<lambda>l. blocked l \<or> \<not> (lk_client l = client \<and> lk_owner l = own)) ls"

subsection \<open>Callers that interleave\<close>

text \<open>Between its sections a caller has given up the mutex.  \<open>Granting\<close> and \<open>Resuming\<close> are the callers that still
  have to run \<open>grant_blocked_locks\<close> and \<open>do_blocked_rw\<close>; any number of callers are in any of these places.\<close>

datatype pl_phase = Idle | Granting | Resuming

record lk_state =
  lk_inode :: pl_inode
  lk_phase :: "nat \<Rightarrow> pl_phase"

definition flock_in_range :: "gf_flock \<Rightarrow> bool" where
  "flock_in_range f \<longleftrightarrow> 0 \<le> l_len f \<and> l_start f \<le> LLONG_MAX \<and> l_start f + l_len f - 1 \<le> LLONG_MAX"

abbreviation lk_list :: "lk_state \<Rightarrow> ext_list" where
  "lk_list s \<equiv> pl_ext_list (lk_inode s)"

abbreviation lk_next :: "lk_state \<Rightarrow> nat \<Rightarrow> pl_phase \<Rightarrow> ext_list \<Rightarrow> lk_state" where
  "lk_next s t ph ls \<equiv> s\<lparr>lk_inode := (lk_inode s)\<lparr>pl_ext_list := ls\<rparr>, lk_phase := (lk_phase s)(t := ph)\<rparr>"

inductive lk_step :: "lk_state \<Rightarrow> lk_state \<Rightarrow> bool" where
  Setlk: "lk_phase s t = Idle \<Longrightarrow> new_posix_lock flock client pid own fd = Some l \<Longrightarrow> flock_in_range flock \<Longrightarrow>
    pl_setlk_locked (lk_list s) (l\<lparr>user_flock := flock, lk_frame := frame\<rparr>) can_block = Some (ret, ls, early) \<Longrightarrow>
    lk_step s (lk_next s t Granting ls)"
| Flush_fd: "lk_phase s t = Idle \<Longrightarrow> delete_locks_of_fd (lk_list s) fd = (ls, answered) \<Longrightarrow> lk_step s (lk_next s t Granting ls)"
| Flush_owner: "lk_phase s t = Idle \<Longrightarrow> lk_step s (lk_next s t Granting (delete_locks_of_owner (lk_list s) client own))"
| Grant: "lk_phase s t = Granting \<Longrightarrow> grant_blocked_locks (lk_list s) = Some (ls, granted) \<Longrightarrow> lk_step s (lk_next s t Resuming ls)"
| Resume: "lk_phase s t = Resuming \<Longrightarrow> do_blocked_rw (lk_list s) (pl_rw_list (lk_inode s)) = (rws, wind_list) \<Longrightarrow>
    lk_step s (s\<lparr>lk_inode := (lk_inode s)\<lparr>pl_rw_list := rws\<rparr>, lk_phase := (lk_phase s)(t := Idle)\<rparr>)"
| Wait_rw: "\<not> rw_allowable (lk_list s) (rw_region rw) (stub_fop rw) \<Longrightarrow>
    lk_step s (s\<lparr>lk_inode := (lk_inode s)\<lparr>pl_rw_list := pl_rw_list (lk_inode s) @ [rw]\<rparr>\<rparr>)"

definition lk_init :: lk_state where
  "lk_init = \<lparr>lk_inode = \<lparr>pl_ext_list = [], pl_rw_list = []\<rparr>, lk_phase = (\<lambda>_. Idle)\<rparr>"

inductive lk_reach :: "lk_state \<Rightarrow> bool" where
  lk_reach_init: "lk_reach lk_init"
| lk_reach_step: "lk_reach s \<Longrightarrow> lk_step s s' \<Longrightarrow> lk_reach s'"

subsection \<open>Queries\<close>

definition pl_getlk :: "ext_list \<Rightarrow> posix_lock \<Rightarrow> posix_lock" where
  "pl_getlk ls lock = (case first_conflicting_overlap ls lock of None \<Rightarrow> lock\<lparr>fl_type := F_UNLCK\<rparr> | Some conf \<Rightarrow> conf)"

end
