(* ===== verification/Posix_Locks_Correct.thy ===== *)
theory Posix_Locks_Correct
  imports Posix_Locks
begin

text \<open>
  Correctness of the record locks.  The recursion of \<open>insert_and_merge\<close> ends, because the total length of the
  locks of the owner and of the lock to insert goes down by the overlap that is resolved.  Locks that are
  granted to different owners never conflict.  Byte by byte, a request replaces what its owner held in its range.
\<close>

subsection \<open>Invariants\<close>

definition range_ok :: "posix_lock \<Rightarrow> bool" where
  "range_ok l \<longleftrightarrow> fl_start l \<le> fl_end l \<and> fl_end l \<le> LLONG_MAX"

definition who :: "posix_lock \<Rightarrow> byte list \<times> nat" where
  "who l = (lk_owner l, lk_client l)"

text \<open>The locks an insertion for one owner does not touch.\<close>

definition others :: "byte list \<times> nat \<Rightarrow> ext_list \<Rightarrow> ext_list" where
  "others w ls = filter (\<lambda>l. blocked l \<or> who l \<noteq> w) ls"

definition lock_len :: "posix_lock \<Rightarrow> nat" where
  "lock_len l = nat (fl_end l - fl_start l + 1)"

definition own_len :: "byte list \<times> nat \<Rightarrow> ext_list \<Rightarrow> nat" where
  "own_len w ls = sum_list (map lock_len (filter (\<lambda>l. \<not> blocked l \<and> who l = w) ls))"

definition at_byte :: "int \<Rightarrow> posix_lock \<Rightarrow> bool" where
  "at_byte b l \<longleftrightarrow> fl_start l \<le> b \<and> b \<le> fl_end l"

text \<open>Two granted locks of different owners that share a byte must both be read locks.\<close>

definition conflict :: "posix_lock \<Rightarrow> posix_lock \<Rightarrow> bool" where
  "conflict l1 l2 \<longleftrightarrow> \<not> blocked l1 \<and> \<not> blocked l2 \<and> who l1 \<noteq> who l2 \<and> (\<exists>b. at_byte b l1 \<and> at_byte b l2) \<and>
     \<not> (fl_type l1 = F_RDLCK \<and> fl_type l2 = F_RDLCK)"

definition lock_list_ok :: "ext_list \<Rightarrow> bool" where
  "lock_list_ok ls \<longleftrightarrow>
     (\<forall>l \<in> set ls. range_ok l \<and> fl_type l \<noteq> F_UNLCK) \<and> (\<forall>l1 \<in> set ls. \<forall>l2 \<in> set ls. \<not> conflict l1 l2)"

text \<open>The types of the locks an owner holds on a byte.\<close>

definition held :: "byte list \<times> nat \<Rightarrow> ext_list \<Rightarrow> int \<Rightarrow> lk_type list" where
  "held w ls b = map fl_type (filter (\<lambda>l. \<not> blocked l \<and> who l = w \<and> at_byte b l) ls)"

definition one_per_byte :: "byte list \<times> nat \<Rightarrow> ext_list \<Rightarrow> bool" where
  "one_per_byte w ls \<longleftrightarrow> (\<forall>b. length (held w ls b) \<le> 1)"

text \<open>When the early return at a read lock of another owner does no harm.\<close>

definition no_shortcut :: "posix_lock \<Rightarrow> ext_list \<Rightarrow> bool" where
  "no_shortcut lock ls \<longleftrightarrow>
     fl_type lock \<noteq> F_RDLCK \<or> (\<forall>l \<in> set ls. \<not> blocked l \<and> who l \<noteq> who lock \<longrightarrow> fl_type l \<noteq> F_RDLCK) \<or>
     (\<forall>b. at_byte b lock \<longrightarrow> held (who lock) ls b = [])"

definition request_effect :: "posix_lock \<Rightarrow> (int \<Rightarrow> lk_type list) \<Rightarrow> int \<Rightarrow> lk_type list" where
  "request_effect lock h b =
     (if at_byte b lock then if fl_type lock = F_UNLCK then [] else [fl_type lock] else h b)"

subsection \<open>Elementary facts\<close>

lemma same_owner_who: "same_owner l1 l2 \<longleftrightarrow> who l1 = who l2"
  by (simp add: same_owner_def who_def)

lemma grantable_iff:
  "is_lock_grantable ls lock \<longleftrightarrow>
     (\<forall>l \<in> set ls. \<not> blocked l \<and> who l \<noteq> who lock \<and> locks_overlap lock l \<and> fl_type lock \<noteq> F_UNLCK \<longrightarrow>
        fl_type l \<noteq> F_WRLCK \<and> fl_type lock \<noteq> F_WRLCK)"
  unfolding is_lock_grantable_def list_ex_iff same_owner_who by auto

lemma overlap_byte:
  assumes "range_ok c" "range_ok l" "locks_overlap c l"
  obtains b where "at_byte b c" "at_byte b l"
  using assms that [of "max (fl_start c) (fl_start l)"] by (auto simp: at_byte_def locks_overlap_def range_ok_def)

lemma overlapI: "at_byte b c \<Longrightarrow> at_byte b l \<Longrightarrow> locks_overlap c l"
  by (auto simp: at_byte_def locks_overlap_def)

lemma overlap_iff: "range_ok c \<Longrightarrow> range_ok l \<Longrightarrow> locks_overlap c l \<longleftrightarrow> (\<exists>b. at_byte b c \<and> at_byte b l)"
  using overlap_byte overlapI by metis

text \<open>The test of the code is the absence of conflicts.\<close>

lemma conflict_iff:
  assumes "range_ok l1" "range_ok l2" "fl_type l1 \<noteq> F_UNLCK" "fl_type l2 \<noteq> F_UNLCK"
  shows "conflict l1 l2 \<longleftrightarrow> \<not> blocked l1 \<and> \<not> blocked l2 \<and> who l2 \<noteq> who l1 \<and> locks_overlap l1 l2 \<and>
    (fl_type l2 = F_WRLCK \<or> fl_type l1 = F_WRLCK)"
  unfolding conflict_def overlap_iff [OF assms(1,2)] using assms(3,4)
  by (cases "fl_type l1"; cases "fl_type l2") auto

lemma lock_list_ok_iff:
  "lock_list_ok ls \<longleftrightarrow>
     (\<forall>l \<in> set ls. range_ok l \<and> fl_type l \<noteq> F_UNLCK) \<and> (\<forall>l \<in> set ls. \<not> blocked l \<longrightarrow> is_lock_grantable ls l)"
proof (cases "\<forall>l \<in> set ls. range_ok l \<and> fl_type l \<noteq> F_UNLCK")
  case True
  have "(\<forall>l2 \<in> set ls. \<not> conflict l l2) \<longleftrightarrow> (\<not> blocked l \<longrightarrow> is_lock_grantable ls l)" if l: "l \<in> set ls" for l
  proof -
    have "range_ok l" "fl_type l \<noteq> F_UNLCK" using True l by auto
    then have "(\<forall>l2 \<in> set ls. \<not> conflict l l2) \<longleftrightarrow>
        (\<forall>l2 \<in> set ls. \<not> (\<not> blocked l \<and> \<not> blocked l2 \<and> who l2 \<noteq> who l \<and> locks_overlap l l2 \<and> (fl_type l2 = F_WRLCK \<or> fl_type l = F_WRLCK)))"
      using True conflict_iff by metis
    then show ?thesis using \<open>fl_type l \<noteq> F_UNLCK\<close> unfolding grantable_iff by auto
  qed
  then show ?thesis using True unfolding lock_list_ok_def by auto
qed (auto simp: lock_list_ok_def)

lemma set_flock_sel [simp]:
  "fl_type (set_flock l) = fl_type l" "fl_start (set_flock l) = fl_start l" "fl_end (set_flock l) = fl_end l"
  "blocked (set_flock l) = blocked l" "who (set_flock l) = who l"
  by (simp_all add: set_flock_def who_def)

lemma sum_lock_sel [simp]:
  "fl_type (sum_lock l c w) = fl_type w" "fl_start (sum_lock l c w) = min (fl_start l) (fl_start c)"
  "fl_end (sum_lock l c w) = max (fl_end l) (fl_end c)" "\<not> blocked (sum_lock l c w)" "who (sum_lock l c w) = who w"
  by (simp_all add: sum_lock_def add_locks_def zero_lock_def who_def)

lemma set_flock_derived [simp]:
  "range_ok (set_flock l) = range_ok l" "lock_len (set_flock l) = lock_len l" "at_byte b (set_flock l) = at_byte b l"
  "locks_overlap (set_flock l) c = locks_overlap l c" "is_lock_grantable ls (set_flock l) = is_lock_grantable ls l"
  "no_shortcut (set_flock l) ls = no_shortcut l ls" "request_effect (set_flock l) h = request_effect l h"
  by (simp_all add: range_ok_def lock_len_def at_byte_def locks_overlap_def grantable_iff no_shortcut_def
        request_effect_def fun_eq_iff)

lemma grantable_others: "is_lock_grantable (others (who l) ls) l \<longleftrightarrow> is_lock_grantable ls l"
  by (auto simp: grantable_iff others_def)

lemma grantable_cong: "others (who l) ls = others (who l) ls' \<Longrightarrow> is_lock_grantable ls l = is_lock_grantable ls' l"
  by (metis grantable_others)

lemma grantable_subset: "is_lock_grantable ls l \<Longrightarrow> set ls' \<subseteq> set ls \<Longrightarrow> is_lock_grantable ls' l"
  by (auto simp: grantable_iff)

lemma grantable_part:
  assumes "is_lock_grantable ls conf" "who p = who conf" "fl_type p = fl_type conf"
    "fl_start conf \<le> fl_start p" "fl_end p \<le> fl_end conf"
  shows "is_lock_grantable ls p"
  using assms unfolding grantable_iff locks_overlap_def by (metis order_trans)

lemma lock_list_ok_subset: "lock_list_ok ls \<Longrightarrow> set ls' \<subseteq> set ls \<Longrightarrow> lock_list_ok ls'"
  unfolding lock_list_ok_iff using grantable_subset by blast

lemma lock_list_ok_insert:
  assumes "lock_list_ok ls" "range_ok lock" "fl_type lock \<noteq> F_UNLCK" "blocked lock \<or> is_lock_grantable ls lock"
  shows "lock_list_ok (insert_lock ls lock)"
proof -
  have "is_lock_grantable (insert_lock ls lock) l" if "l \<in> set ls" "\<not> blocked l" for l
    using assms that unfolding lock_list_ok_iff grantable_iff insert_lock_def locks_overlap_def by auto
  then show ?thesis
    using assms by (auto simp: lock_list_ok_iff insert_lock_def grantable_iff)
qed

lemma delete_unlck_none: "lock_list_ok ls \<Longrightarrow> delete_unlck_locks ls = ls"
  by (simp add: lock_list_ok_iff delete_unlck_locks_def)

lemma others_insert: "\<not> blocked l \<Longrightarrow> others (who l) (insert_lock ls l) = others (who l) ls"
  by (simp add: others_def insert_lock_def)

lemma own_len_insert: "\<not> blocked l \<Longrightarrow> own_len (who l) (insert_lock ls l) = lock_len l + own_len (who l) ls"
  by (simp add: own_len_def insert_lock_def)

lemma others_remove: "\<not> blocked c \<Longrightarrow> who c = w \<Longrightarrow> others w (remove1 c ls) = others w ls"
  by (induction ls) (auto simp: others_def)

lemma own_len_remove:
  "c \<in> set ls \<Longrightarrow> \<not> blocked c \<Longrightarrow> who c = w \<Longrightarrow> lock_len c + own_len w (remove1 c ls) = own_len w ls"
  by (induction ls) (auto simp: own_len_def)

lemma held_insert:
  "\<not> blocked l \<Longrightarrow> held (who l) (insert_lock ls l) b = held (who l) ls b @ (if at_byte b l then [fl_type l] else [])"
  by (simp add: held_def insert_lock_def)

lemma held_remove_out: "\<not> at_byte b c \<Longrightarrow> held w (remove1 c ls) b = held w ls b"
  by (induction ls) (auto simp: held_def)

lemma held_remove_length:
  "c \<in> set ls \<Longrightarrow> \<not> blocked c \<Longrightarrow> who c = w \<Longrightarrow> at_byte b c \<Longrightarrow> Suc (length (held w (remove1 c ls) b)) = length (held w ls b)"
  by (induction ls) (auto simp: held_def)

lemma held_in: "c \<in> set ls \<Longrightarrow> \<not> blocked c \<Longrightarrow> who c = w \<Longrightarrow> at_byte b c \<Longrightarrow> fl_type c \<in> set (held w ls b)"
  by (auto simp: held_def)

text \<open>Taking a lock out, when no byte is locked twice.\<close>

lemma held_remove:
  assumes "one_per_byte w ls" "c \<in> set ls" "\<not> blocked c" "who c = w"
  shows "held w (remove1 c ls) b = (if at_byte b c then [] else held w ls b)"
    and "at_byte b c \<Longrightarrow> held w ls b = [fl_type c]"
proof -
  have one: "length (held w ls b) \<le> 1"
    using assms(1) by (simp add: one_per_byte_def)
  show "held w (remove1 c ls) b = (if at_byte b c then [] else held w ls b)"
    using held_remove_out [of b c w ls] held_remove_length [OF assms(2-4), of b] one
    by (cases "held w (remove1 c ls) b") auto
  show "held w ls b = [fl_type c]" if "at_byte b c"
    using one held_in [OF assms(2-4) that] by (cases "held w ls b") auto
qed

lemma one_per_byte_remove: "one_per_byte w ls \<Longrightarrow> c \<in> set ls \<Longrightarrow> \<not> blocked c \<Longrightarrow> who c = w \<Longrightarrow> one_per_byte w (remove1 c ls)"
  by (simp add: one_per_byte_def held_remove)

lemma one_per_byte_effect:
  "one_per_byte w ls \<Longrightarrow> \<forall>b. held w ys b = request_effect l (held w ls) b \<Longrightarrow> one_per_byte w ys"
  by (simp add: one_per_byte_def request_effect_def)

subsection \<open>Splitting\<close>

text \<open>What is left of an old lock beside the request, and a lock that stands for the request.\<close>

definition remnant :: "posix_lock \<Rightarrow> posix_lock \<Rightarrow> posix_lock \<Rightarrow> bool" where
  "remnant conf lock p \<longleftrightarrow> who p = who conf \<and> \<not> blocked p \<and> range_ok p \<and> fl_type p = fl_type conf \<and>
     fl_start conf \<le> fl_start p \<and> fl_end p \<le> fl_end conf \<and> \<not> locks_overlap p lock"

definition stand_in :: "posix_lock \<Rightarrow> posix_lock \<Rightarrow> bool" where
  "stand_in lock p \<longleftrightarrow> who p = who lock \<and> \<not> blocked p \<and> fl_start p = fl_start lock \<and> fl_end p = fl_end lock \<and>
     fl_type p = fl_type lock"

definition opt_len :: "posix_lock option \<Rightarrow> nat" where
  "opt_len v = (case v of None \<Rightarrow> 0 | Some l \<Rightarrow> lock_len l)"

definition opt_effect :: "posix_lock option \<Rightarrow> (int \<Rightarrow> lk_type list) \<Rightarrow> int \<Rightarrow> lk_type list" where
  "opt_effect v h = (case v of None \<Rightarrow> h | Some l \<Rightarrow> request_effect l h)"

lemma who_range_update [simp]:
  "who (l\<lparr>fl_start := a\<rparr>) = who l" "who (l\<lparr>fl_end := a\<rparr>) = who l" "who (l\<lparr>fl_type := t\<rparr>) = who l"
  "who (l\<lparr>lk_frame := f\<rparr>) = who l" "who (l\<lparr>blocked := k\<rparr>) = who l"
  by (simp_all add: who_def)

lemma subtract_sum:
  assumes "range_ok lock" "range_ok conf" "locks_overlap conf lock" "who conf = who lock" "\<not> blocked lock"
    and v: "subtract_locks (sum_lock lock conf conf) lock = (v0, v1, v2)"
  shows subtract_first: "pred_option (\<lambda>p. remnant conf lock p \<or> stand_in lock p) v0"
    and subtract_second: "v1 = None \<or> v1 = Some lock"
    and subtract_third: "pred_option (\<lambda>p. remnant conf lock p \<and> pred_option (\<lambda>q. \<not> locks_overlap p q) v0) v2"
    and subtract_len: "opt_len v0 + opt_len v1 + opt_len v2 < lock_len lock + lock_len conf"
  using assms unfolding subtract_locks_def remnant_def stand_in_def range_ok_def locks_overlap_def opt_len_def lock_len_def
  by (auto split: if_splits)

lemma subtract_effect:
  assumes "range_ok lock" "range_ok conf" "locks_overlap conf lock" "fl_type conf \<noteq> F_UNLCK"
    and v: "subtract_locks (sum_lock lock conf conf) lock = (v0, v1, v2)"
    and h0: "\<And>b. h0 b = (if at_byte b conf then [] else h b)" and h: "\<And>b. at_byte b conf \<Longrightarrow> h b = [fl_type conf]"
  shows "opt_effect v2 (opt_effect v1 (opt_effect v0 h0)) b = request_effect lock h b"
  using assms(1-4) v h [of b] unfolding subtract_locks_def opt_effect_def request_effect_def range_ok_def locks_overlap_def h0
  by (auto simp: at_byte_def split: if_splits)

subsection \<open>One insertion\<close>

definition insert_pre :: "posix_lock \<Rightarrow> ext_list \<Rightarrow> bool" where
  "insert_pre lock ls \<longleftrightarrow> range_ok lock \<and> \<not> blocked lock \<and> lock_list_ok ls \<and> is_lock_grantable ls lock"

definition insert_result :: "posix_lock \<Rightarrow> ext_list \<Rightarrow> ext_list \<Rightarrow> bool" where
  "insert_result lock ls ys \<longleftrightarrow>
     lock_list_ok ys \<and> others (who lock) ys = others (who lock) ls \<and>
     own_len (who lock) ys \<le> lock_len lock + own_len (who lock) ls \<and>
     (one_per_byte (who lock) ls \<and> no_shortcut lock ls \<longrightarrow>
        (\<forall>b. held (who lock) ys b = request_effect lock (held (who lock) ls) b))"

definition returns :: "posix_lock \<Rightarrow> ext_list \<Rightarrow> bool" where
  "returns lock ls \<longleftrightarrow> (\<exists>ys. insert_and_merge lock ls = Some ys \<and> insert_result lock ls ys)"

definition returns_below :: "nat \<Rightarrow> bool" where
  "returns_below n \<longleftrightarrow> (\<forall>l ls. insert_pre l ls \<and> lock_len l + own_len (who l) ls < n \<longrightarrow> returns l ls)"

lemma insert_pre_set_flock [simp]: "insert_pre (set_flock l) ls = insert_pre l ls"
  by (simp add: insert_pre_def)

lemma insert_result_set_flock [simp]: "insert_result (set_flock l) ls = insert_result l ls"
  by (simp add: insert_result_def fun_eq_iff)

lemma merge_targetD:
  assumes "merge_target lock ls = Some conf"
  shows "conf \<in> set ls" "\<not> blocked conf" "locks_overlap conf lock"
    and "who conf = who lock \<or> who conf \<noteq> who lock \<and> fl_type conf = F_RDLCK \<and> fl_type lock = F_RDLCK"
  using assms unfolding merge_target_def find_Some_iff same_owner_who by auto

lemma not_overlap_byte: "\<not> locks_overlap c l \<Longrightarrow> at_byte b c \<Longrightarrow> \<not> at_byte b l"
  using overlapI by blast

text \<open>No lock of the owner is in the way: the lock is put at the end of the list.\<close>

lemma insert_result_append:
  assumes "insert_pre lock ls" "fl_type lock \<noteq> F_UNLCK"
    and "no_shortcut lock ls \<Longrightarrow> \<forall>b. at_byte b lock \<longrightarrow> held (who lock) ls b = []"
  shows "insert_result lock ls (insert_lock ls lock)"
  using assms by (auto simp: insert_result_def insert_pre_def lock_list_ok_insert others_insert own_len_insert held_insert
      request_effect_def)

lemma nothing_held:
  assumes "merge_target lock ls = None" "at_byte b lock"
  shows "held (who lock) ls b = []"
  using assms overlapI unfolding merge_target_def find_None_iff same_owner_who held_def by (auto simp: filter_empty_conv)

lemma returns_free:
  assumes "insert_pre lock ls" "merge_target lock ls = None"
  shows "returns lock ls"
proof (cases "fl_type lock = F_UNLCK")
  case True
  have "request_effect lock (held (who lock) ls) b = held (who lock) ls b" for b
    using nothing_held [OF assms(2), of b] True by (simp add: request_effect_def)
  then show ?thesis
    using assms True by (simp add: returns_def insert_and_merge.simps [of lock] insert_result_def insert_pre_def)
next
  case False
  then show ?thesis
    using assms insert_result_append [OF assms(1) False] nothing_held [OF assms(2)]
    by (simp add: returns_def insert_and_merge.simps [of lock])
qed

lemma returns_shared:
  assumes "insert_pre lock ls" "merge_target lock ls = Some conf" "who conf \<noteq> who lock"
  shows "returns lock ls"
proof -
  have rd: "fl_type conf = F_RDLCK" "fl_type lock = F_RDLCK" and conf: "conf \<in> set ls" "\<not> blocked conf"
    using merge_targetD [OF assms(2)] assms(3) by auto
  have "insert_result lock ls (insert_lock ls lock)"
    using rd conf assms(3) by (intro insert_result_append [OF assms(1)]) (auto simp: no_shortcut_def)
  then show ?thesis
    using assms by (simp add: returns_def insert_and_merge.simps [of lock] same_owner_who)
qed

lemma lock_len_sum:
  assumes "range_ok lock" "range_ok conf" "locks_overlap conf lock"
  shows "lock_len (sum_lock lock conf w) < lock_len lock + lock_len conf"
  using assms by (auto simp: lock_len_def range_ok_def locks_overlap_def)

lemma sum_pre:
  assumes pre: "insert_pre lock ls" and conf: "conf \<in> set ls" "\<not> blocked conf" "locks_overlap conf lock"
    and same: "who conf = who lock" "fl_type conf = fl_type lock"
  shows "insert_pre (sum_lock lock conf lock) (remove1 conf ls)"
proof -
  have ok: "lock_list_ok ls" "range_ok conf" "is_lock_grantable ls conf" "is_lock_grantable ls lock" "range_ok lock"
    using pre conf by (auto simp: insert_pre_def lock_list_ok_iff)
  have over: "locks_overlap lock l \<or> locks_overlap conf l" if "l \<in> set ls" "locks_overlap (sum_lock lock conf lock) l" for l
  proof -
    have "range_ok l" using ok(1) that(1) by (simp add: lock_list_ok_iff)
    then show ?thesis using that(2) ok(2,5) conf(3) by (auto simp: locks_overlap_def range_ok_def)
  qed
  have "is_lock_grantable ls (sum_lock lock conf lock)"
    using ok(3,4) same over unfolding grantable_iff by (metis sum_lock_sel(1,5))
  then show ?thesis
    using ok conf(3) set_remove1_subset [of conf ls] grantable_subset lock_list_ok_subset
    by (auto simp: insert_pre_def range_ok_def)
qed

text \<open>A lock of the same type is absorbed.\<close>

lemma returns_merge:
  assumes pre: "insert_pre lock ls" and t: "merge_target lock ls = Some conf"
    and same: "who conf = who lock" "fl_type conf = fl_type lock"
    and IH: "returns_below (lock_len lock + own_len (who lock) ls)"
  shows "returns lock ls"
proof -
  define s where "s = sum_lock lock conf lock"
  note conf = merge_targetD(1-3) [OF t]
  have ok: "range_ok lock" "range_ok conf" "fl_type conf \<noteq> F_UNLCK"
    using pre conf by (auto simp: insert_pre_def lock_list_ok_iff)
  have w: "who s = who lock" "fl_type s = fl_type lock" by (simp_all add: s_def)
  note len = lock_len_sum [OF ok(1,2) conf(3), of lock, folded s_def] own_len_remove [OF conf(1,2) same(1)]
  have "returns (set_flock s) (remove1 conf ls)"
    using IH sum_pre [OF pre conf same, folded s_def] len w(1) by (simp add: returns_below_def)
  then obtain ys where ys: "insert_and_merge (set_flock s) (remove1 conf ls) = Some ys" "insert_result s (remove1 conf ls) ys"
    by (auto simp: returns_def)
  have eff: "held (who lock) ys b = request_effect lock (held (who lock) ls) b"
    if "one_per_byte (who lock) ls" "no_shortcut lock ls" for b
  proof -
    note rem = held_remove [OF that(1) conf(1,2) same(1)]
    obtain b0 where "at_byte b0 conf" "at_byte b0 lock"
      using conf(3) ok(1,2) that unfolding at_byte_def locks_overlap_def range_ok_def by (metis linear order.refl)
    then have "no_shortcut s (remove1 conf ls)"
      using that(2) rem(2) [of b0] set_remove1_subset [of conf ls] by (auto simp: no_shortcut_def w)
    moreover have "one_per_byte (who lock) (remove1 conf ls)"
      using one_per_byte_remove [OF that(1) conf(1,2) same(1)] .
    ultimately have "held (who lock) ys b = request_effect s (held (who lock) (remove1 conf ls)) b"
      using ys(2) w by (simp add: insert_result_def)
    then show ?thesis
      using rem [of b] conf(3) ok same by (auto simp: request_effect_def w s_def at_byte_def locks_overlap_def split: if_splits)
  qed
  have "insert_result lock ls ys"
    using ys(2) w len eff others_remove [OF conf(2) same(1)] by (simp add: insert_result_def)
  then show ?thesis
    using ys(1) t same by (simp add: returns_def insert_and_merge.simps [of lock] same_owner_who s_def)
qed

text \<open>One round of the loop over the pieces.\<close>

definition insert_piece :: "posix_lock option \<Rightarrow> ext_list \<Rightarrow> ext_list option" where
  "insert_piece v ls = (case v of None \<Rightarrow> Some ls | Some l \<Rightarrow> insert_and_merge (set_flock l) ls)"

definition piece_result :: "byte list \<times> nat \<Rightarrow> posix_lock option \<Rightarrow> ext_list \<Rightarrow> ext_list \<Rightarrow> bool" where
  "piece_result w v ls ys \<longleftrightarrow>
     lock_list_ok ys \<and> others w ys = others w ls \<and> own_len w ys \<le> opt_len v + own_len w ls \<and>
     (one_per_byte w ls \<and> pred_option (\<lambda>l. no_shortcut l ls) v \<longrightarrow>
        one_per_byte w ys \<and> (\<forall>b. held w ys b = opt_effect v (held w ls) b))"

lemma insert_piece_returns:
  assumes IH: "returns_below n"
    and "pred_option (\<lambda>l. who l = w \<and> insert_pre l ls) v" "opt_len v + own_len w ls < n" "lock_list_ok ls"
  obtains ys where "insert_piece v ls = Some ys" "piece_result w v ls ys"
proof (cases v)
  case None
  then show ?thesis
    using assms(4) that [of ls] by (simp add: insert_piece_def piece_result_def opt_len_def opt_effect_def)
next
  case (Some l)
  then have l: "who l = w" "insert_pre l ls" "lock_len l + own_len w ls < n"
    using assms(2,3) by (simp_all add: opt_len_def)
  then have "returns (set_flock l) ls" using IH by (simp add: returns_below_def)
  then obtain ys where "insert_and_merge (set_flock l) ls = Some ys" "insert_result l ls ys" by (auto simp: returns_def)
  then show ?thesis
    using that [of ys] one_per_byte_effect [of w ls ys l] l(1) Some
    by (auto simp: insert_piece_def piece_result_def insert_result_def opt_len_def opt_effect_def)
qed

lemma piece_pre:
  assumes "insert_pre lock ls" "conf \<in> set ls" "\<not> blocked conf" "who conf = who lock"
    and p: "remnant conf lock p \<or> stand_in lock p"
    and ls': "lock_list_ok ls'" "others (who lock) ls' = others (who lock) ls"
  shows "who p = who lock" "insert_pre p ls'"
proof -
  have "is_lock_grantable ls conf" "is_lock_grantable ls lock" "range_ok lock"
    using assms(1-3) by (auto simp: insert_pre_def lock_list_ok_iff)
  then have "is_lock_grantable ls p \<and> range_ok p \<and> who p = who lock \<and> \<not> blocked p"
    using p assms(4) grantable_part [of ls conf p] grantable_part [of ls lock p]
    by (auto simp: remnant_def stand_in_def range_ok_def)
  then show "who p = who lock" "insert_pre p ls'"
    using ls' grantable_cong [of p ls' ls] by (simp_all add: insert_pre_def)
qed

text \<open>A read request that meets a lock of its owner has no shortcut only if nobody else holds a read lock, and
  this does not change while the pieces are inserted.\<close>

lemma no_shortcut_stand_in:
  assumes "no_shortcut lock ls" "at_byte b lock" "held (who lock) ls b \<noteq> []" "stand_in lock p"
    and "others (who lock) ls' = others (who lock) ls"
  shows "no_shortcut p ls'"
proof -
  have sub: "l \<in> set ls" if "l \<in> set ls'" "\<not> blocked l" "who l \<noteq> who lock" for l
  proof -
    have "l \<in> set (others (who lock) ls')" using that by (simp add: others_def)
    then show ?thesis by (simp add: assms(5)) (simp add: others_def)
  qed
  have "fl_type lock \<noteq> F_RDLCK \<or> (\<forall>l \<in> set ls. \<not> blocked l \<and> who l \<noteq> who lock \<longrightarrow> fl_type l \<noteq> F_RDLCK)"
    using assms(1-3) by (auto simp: no_shortcut_def)
  then show ?thesis
    using assms(4) sub by (auto simp: no_shortcut_def stand_in_def)
qed

lemma no_shortcut_remnant:
  assumes "remnant conf lock p" "who conf = who lock" "\<And>b. at_byte b p \<Longrightarrow> held (who lock) ls b = []"
  shows "no_shortcut p ls"
  using assms by (simp add: no_shortcut_def remnant_def)

lemma remnant_bytes: "remnant conf lock p \<Longrightarrow> at_byte b p \<Longrightarrow> at_byte b conf \<and> \<not> at_byte b lock"
  by (auto simp: remnant_def at_byte_def locks_overlap_def)

lemma opt_effect_out: "pred_option (\<lambda>q. \<not> at_byte b q) v \<Longrightarrow> opt_effect v h b = h b"
  by (cases v) (simp_all add: opt_effect_def request_effect_def)

lemma piece_resultD:
  assumes "piece_result w v ls ys" "one_per_byte w ls" "pred_option (\<lambda>l. no_shortcut l ls) v"
  shows "one_per_byte w ys" "held w ys = opt_effect v (held w ls)"
  using assms by (auto simp: piece_result_def)

text \<open>The three pieces one after the other.\<close>

lemma pieces_effect:
  assumes pre: "insert_pre lock ls" and conf: "conf \<in> set ls" "\<not> blocked conf" "locks_overlap conf lock" "who conf = who lock"
    and v: "subtract_locks (sum_lock lock conf conf) lock = (v0, v1, v2)"
    and r0: "piece_result (who lock) v0 (remove1 conf ls) ys0" and r1: "piece_result (who lock) v1 ys0 ys1"
    and r2: "piece_result (who lock) v2 ys1 ys2"
    and one: "one_per_byte (who lock) ls" and short: "no_shortcut lock ls"
  shows "held (who lock) ys2 b = request_effect lock (held (who lock) ls) b"
proof -
  let ?rest = "held (who lock) (remove1 conf ls)" and ?all = "held (who lock) ls"
  have ok: "range_ok lock" "range_ok conf" "fl_type conf \<noteq> F_UNLCK" "\<not> blocked lock"
    using pre conf by (auto simp: insert_pre_def lock_list_ok_iff)
  note rem = held_remove [OF one conf(1,2,4)]
  note sub = subtract_sum [OF ok(1,2) conf(3,4) ok(4) v]
  obtain b0 where b0: "at_byte b0 conf" "at_byte b0 lock" using overlap_byte [OF ok(2,1) conf(3)] .
  have stand: "no_shortcut p ls'" if "stand_in lock p" "others (who lock) ls' = others (who lock) ls" for p ls'
    using no_shortcut_stand_in [OF short b0(2) _ that] rem(2) [OF b0(1)] by simp
  have oth: "others (who lock) (remove1 conf ls) = others (who lock) ls" "others (who lock) ys0 = others (who lock) ls"
    using r0 others_remove [OF conf(2,4)] by (simp_all add: piece_result_def)
  have "pred_option (\<lambda>l. no_shortcut l (remove1 conf ls)) v0"
  proof (cases v0)
    case (Some p)
    have "no_shortcut p (remove1 conf ls)" if "remnant conf lock p"
      using no_shortcut_remnant [OF that conf(4)] remnant_bytes [OF that] rem(1) by simp
    then show ?thesis using sub(1) stand [OF _ oth(1), of p] Some by auto
  qed simp
  note h0 = piece_resultD [OF r0 one_per_byte_remove [OF one conf(1,2,4)] this]
  have "pred_option (\<lambda>l. no_shortcut l ys0) v1"
    using sub(2) stand [OF _ oth(2), of lock] ok(4) by (auto simp: stand_in_def)
  note h1 = piece_resultD [OF r1 h0(1) this]
  have "pred_option (\<lambda>l. no_shortcut l ys1) v2"
  proof (cases v2)
    case (Some p)
    then have p: "remnant conf lock p" "pred_option (\<lambda>q. \<not> locks_overlap p q) v0" using sub(3) by simp_all
    have "held (who lock) ys1 b = []" if "at_byte b p" for b
    proof -
      have "pred_option (\<lambda>q. \<not> at_byte b q) v1" "pred_option (\<lambda>q. \<not> at_byte b q) v0"
        using sub(2) p(2) remnant_bytes [OF p(1) that] overlapI [OF that] by (auto simp: pred_option_def)
      then show ?thesis using rem(1) remnant_bytes [OF p(1) that] by (simp add: h1(2) h0(2) opt_effect_out)
    qed
    then show ?thesis using no_shortcut_remnant [OF p(1) conf(4)] Some by simp
  qed simp
  note h2 = piece_resultD [OF r2 h1(1) this]
  show ?thesis
    using subtract_effect [OF ok(1,2) conf(3) ok(3) v, of ?rest ?all b] rem by (simp add: h2(2) h1(2) h0(2))
qed

text \<open>A lock of the other type is split.\<close>

lemma insert_and_merge_split:
  assumes "merge_target lock ls = Some conf" "who conf = who lock" "fl_type conf \<noteq> fl_type lock"
    and "subtract_locks (sum_lock lock conf conf) lock = (v0, v1, v2)"
    and "insert_piece v0 (remove1 conf ls) = Some ys0" "insert_piece v1 ys0 = Some ys1" "insert_piece v2 ys1 = Some ys2"
  shows "insert_and_merge lock ls = Some (delete_unlck_locks ys2)"
  using assms by (simp add: insert_and_merge.simps [of lock] same_owner_who insert_piece_def)

lemma returns_split:
  assumes pre: "insert_pre lock ls" and t: "merge_target lock ls = Some conf"
    and differ: "who conf = who lock" "fl_type conf \<noteq> fl_type lock"
    and IH: "returns_below (lock_len lock + own_len (who lock) ls)"
  shows "returns lock ls"
proof -
  let ?w = "who lock" and ?rest = "remove1 conf ls"
  note conf = merge_targetD(1-3) [OF t]
  obtain v0 v1 v2 where v: "subtract_locks (sum_lock lock conf conf) lock = (v0, v1, v2)" by (metis prod_cases3)
  have ok: "range_ok lock" "range_ok conf" "\<not> blocked lock" "lock_list_ok ls"
    using pre conf by (auto simp: insert_pre_def lock_list_ok_iff)
  note sub = subtract_sum [OF ok(1,2) conf(3) differ(1) ok(3) v]
  have piece: "pred_option (\<lambda>l. who l = ?w \<and> insert_pre l ls') v"
    if "pred_option (\<lambda>p. remnant conf lock p \<or> stand_in lock p) v" "lock_list_ok ls'" "others ?w ls' = others ?w ls" for v ls'
    using that(1) piece_pre [OF pre conf(1,2) differ(1) _ that(2,3)] by (cases v) auto
  have len: "opt_len v0 + opt_len v1 + opt_len v2 + own_len ?w ?rest < lock_len lock + own_len ?w ls"
    using sub(4) own_len_remove [OF conf(1,2) differ(1)] by linarith
  have rest: "lock_list_ok ?rest" "others ?w ?rest = others ?w ls"
    using lock_list_ok_subset [OF ok(4) set_remove1_subset] others_remove [OF conf(2) differ(1)] by auto
  have "opt_len v0 + own_len ?w ?rest < lock_len lock + own_len ?w ls" using len by linarith
  then obtain ys0 where ys0: "insert_piece v0 ?rest = Some ys0" "piece_result ?w v0 ?rest ys0"
    by (rule insert_piece_returns [OF IH piece [OF sub(1) rest] _ rest(1)])
  then have r0: "lock_list_ok ys0" "others ?w ys0 = others ?w ls" "own_len ?w ys0 \<le> opt_len v0 + own_len ?w ?rest"
    using rest(2) by (simp_all add: piece_result_def)
  have v1: "pred_option (\<lambda>p. remnant conf lock p \<or> stand_in lock p) v1"
    using sub(2) ok(3) by (auto simp: stand_in_def)
  have "opt_len v1 + own_len ?w ys0 < lock_len lock + own_len ?w ls" using len r0(3) by linarith
  then obtain ys1 where ys1: "insert_piece v1 ys0 = Some ys1" "piece_result ?w v1 ys0 ys1"
    by (rule insert_piece_returns [OF IH piece [OF v1 r0(1,2)] _ r0(1)])
  then have r1: "lock_list_ok ys1" "others ?w ys1 = others ?w ls" "own_len ?w ys1 \<le> opt_len v0 + opt_len v1 + own_len ?w ?rest"
    using r0 by (simp_all add: piece_result_def)
  have v2: "pred_option (\<lambda>p. remnant conf lock p \<or> stand_in lock p) v2"
    using sub(3) by (auto simp: pred_option_def)
  have "opt_len v2 + own_len ?w ys1 < lock_len lock + own_len ?w ls" using len r1(3) by linarith
  then obtain ys2 where ys2: "insert_piece v2 ys1 = Some ys2" "piece_result ?w v2 ys1 ys2"
    by (rule insert_piece_returns [OF IH piece [OF v2 r1(1,2)] _ r1(1)])
  have "insert_result lock ls ys2"
    using ys2(2) r1 len pieces_effect [OF pre conf differ(1) v ys0(2) ys1(2) ys2(2)]
    by (simp add: insert_result_def piece_result_def)
  moreover have "insert_and_merge lock ls = Some ys2"
    using insert_and_merge_split [OF t differ v ys0(1) ys1(1) ys2(1)] delete_unlck_none ys2(2)
    by (simp add: piece_result_def)
  ultimately show ?thesis by (simp add: returns_def)
qed

theorem insert_and_merge_ok: "insert_pre lock ls \<Longrightarrow> returns lock ls"
proof (induction "lock_len lock + own_len (who lock) ls" arbitrary: lock ls rule: less_induct)
  case less
  have IH: "returns_below (lock_len lock + own_len (who lock) ls)"
    using less.hyps by (simp add: returns_below_def)
  show ?case
  proof (cases "merge_target lock ls")
    case None
    then show ?thesis using returns_free less.prems by blast
  next
    case (Some conf)
    consider "who conf \<noteq> who lock" | "who conf = who lock" "fl_type conf = fl_type lock"
      | "who conf = who lock" "fl_type conf \<noteq> fl_type lock" by blast
    then show ?thesis
      using returns_shared [OF less.prems Some] returns_merge [OF less.prems Some _ _ IH]
        returns_split [OF less.prems Some _ _ IH] by cases auto
  qed
qed

subsection \<open>Waiting requests\<close>

lemma insert_keeps:
  assumes "range_ok lock" "\<not> blocked lock" "lock_list_ok ls" "is_lock_grantable ls lock"
  obtains ys where "insert_and_merge lock ls = Some ys" "lock_list_ok ys"
  using insert_and_merge_ok [of lock ls] assms that by (auto simp: insert_pre_def returns_def insert_result_def)

lemma grantable_update [simp]:
  "is_lock_grantable ls (l\<lparr>lk_frame := f\<rparr>) = is_lock_grantable ls l"
  "is_lock_grantable ls (l\<lparr>blocked := k\<rparr>) = is_lock_grantable ls l"
  "range_ok (l\<lparr>lk_frame := f\<rparr>) = range_ok l" "range_ok (l\<lparr>blocked := k\<rparr>) = range_ok l"
  by (simp_all add: grantable_iff range_ok_def locks_overlap_def)

lemma grant_loop_keeps:
  "lock_list_ok ls \<Longrightarrow> \<forall>l \<in> set tmp. range_ok l \<and> \<not> blocked l \<and> fl_type l \<noteq> F_UNLCK \<Longrightarrow>
   \<exists>ys granted'. grant_loop tmp ls granted = Some (ys, granted') \<and> lock_list_ok ys"
proof (induction tmp arbitrary: ls granted)
  case (Cons l tmp)
  then have l: "range_ok l" "\<not> blocked l" "fl_type l \<noteq> F_UNLCK" by auto
  show ?case
  proof (cases "is_lock_grantable ls l")
    case True
    then obtain ys where "insert_and_merge (l\<lparr>lk_frame := 0\<rparr>) ls = Some ys" "lock_list_ok ys"
      using insert_keeps [of "l\<lparr>lk_frame := 0\<rparr>" ls] l Cons.prems(1) by auto
    then show ?thesis using Cons True by simp
  next
    case False
    have "lock_list_ok (insert_lock ls (l\<lparr>blocked := True\<rparr>))"
      using l Cons.prems(1) by (intro lock_list_ok_insert) simp_all
    then show ?thesis using Cons False by simp
  qed
qed simp

lemma grant_blocked_keeps:
  assumes "lock_list_ok ls"
  obtains ys granted where "grant_blocked_locks ls = Some (ys, granted)" "lock_list_ok ys"
proof -
  have "lock_list_ok (fst (grant_scan ls))"
    using lock_list_ok_subset [OF assms] by (auto simp: grant_scan_def)
  moreover have "\<forall>l \<in> set (snd (grant_scan ls)). range_ok l \<and> \<not> blocked l \<and> fl_type l \<noteq> F_UNLCK"
    using assms by (auto simp: grant_scan_def lock_list_ok_iff)
  ultimately obtain ys granted where "grant_loop (snd (grant_scan ls)) (fst (grant_scan ls)) [] = Some (ys, granted)"
    "lock_list_ok ys" using grant_loop_keeps by blast
  then show ?thesis using that by (simp add: grant_blocked_locks_def split_beta)
qed

lemma prelock_keeps:
  assumes "lock_list_ok ls" and l: "new_posix_lock flock client pid own fd = Some l" and "range_ok l"
  obtains ret ys granted where
    "pl_send_prelock_unlock ls (l\<lparr>user_flock := flock, lk_frame := frame\<rparr>) = Some (ret, ys, granted)" "lock_list_ok ys"
proof -
  let ?u = "l\<lparr>fl_type := F_UNLCK\<rparr>"
  have new: "new_posix_lock (zero_flock\<lparr>l_type := F_UNLCK, l_whence := l_whence flock, l_start := l_start flock, l_len := l_len flock\<rparr>)
      client pid own fd = Some ?u"
    and sel: "lk_client l = client" "client_pid l = pid" "lk_owner l = own" "lk_fd l = fd" "\<not> blocked l"
    using l by (auto simp: new_posix_lock_def zero_lock_def split: if_splits)
  have "range_ok ?u" "is_lock_grantable ls ?u"
    using assms(3) by (simp_all add: range_ok_def grantable_iff)
  then obtain ys where ys: "insert_and_merge ?u ls = Some ys" "lock_list_ok ys"
    using insert_keeps [of ?u ls] assms(1) sel(5) by auto
  obtain zs granted where zs: "grant_blocked_locks ys = Some (zs, granted)" "lock_list_ok zs"
    using grant_blocked_keeps [OF ys(2)] .
  then show ?thesis
    using that new sel ys(1) by (simp add: pl_send_prelock_unlock_def Let_def)
qed

lemma setlk_insert:
  assumes "lock_list_ok ls" "range_ok lock" "\<not> blocked lock" "fl_type lock = F_UNLCK \<longrightarrow> is_lock_grantable ls lock"
  obtains ret' ys where
    "(if is_lock_grantable ls lock then map_option (\<lambda>ls. (ret, ls)) (insert_and_merge lock ls)
      else if can_block then Some (-1, insert_lock ls (lock\<lparr>blocked := True\<rparr>)) else Some (-1, ls)) = Some (ret', ys)"
    "lock_list_ok ys"
proof (cases "is_lock_grantable ls lock")
  case True
  then obtain ys where "insert_and_merge lock ls = Some ys" "lock_list_ok ys" using insert_keeps assms(1-3) by blast
  then show ?thesis using that [of ret ys] True by simp
next
  case False
  then have "lock_list_ok (insert_lock ls (lock\<lparr>blocked := True\<rparr>))"
    using assms by (intro lock_list_ok_insert) auto
  then show ?thesis using that assms(1) False by (cases can_block) simp_all
qed

lemma setlk_keeps:
  assumes "lock_list_ok ls" and l: "new_posix_lock flock client pid own fd = Some l" and "range_ok l"
  shows "\<exists>ret ys early. pl_setlk_locked ls (l\<lparr>user_flock := flock, lk_frame := frame\<rparr>) can_block = Some (ret, ys, early) \<and> lock_list_ok ys"
proof -
  let ?l = "l\<lparr>user_flock := flock, lk_frame := frame\<rparr>"
  have ok: "range_ok ?l" "\<not> blocked ?l" "fl_type ?l = F_UNLCK \<longrightarrow> is_lock_grantable ys ?l" for ys
    using l assms(3) by (auto simp: range_ok_def grantable_iff new_posix_lock_def zero_lock_def split: if_splits)
  obtain ret ys early where first: "(if can_block \<and> \<not> is_lock_grantable ls ?l then pl_send_prelock_unlock ls ?l else Some (0, ls, []))
      = Some (ret, ys, early)" "lock_list_ok ys"
  proof (cases "can_block \<and> \<not> is_lock_grantable ls ?l")
    case True
    obtain ret ys early where "pl_send_prelock_unlock ls ?l = Some (ret, ys, early)" "lock_list_ok ys"
      using prelock_keeps [OF assms] .
    then show ?thesis using that True by simp
  next
    case False
    then show ?thesis using that [of 0 ls "[]"] assms(1) by (metis (full_types))
  qed
  obtain ret' zs where second: "(if is_lock_grantable ys ?l then map_option (\<lambda>ls. (ret, ls)) (insert_and_merge ?l ys)
      else if can_block then Some (-1, insert_lock ys (?l\<lparr>blocked := True\<rparr>)) else Some (-1, ys)) = Some (ret', zs)" "lock_list_ok zs"
    using setlk_insert [OF first(2) ok, of ret can_block] .
  then show ?thesis
    unfolding pl_setlk_locked_def first(1) Option.bind.bind_lunit prod.case second(1) by simp
qed

subsection \<open>Sections that interleave\<close>

lemma request_range: "new_posix_lock flock client pid own fd = Some l \<Longrightarrow> flock_in_range flock \<Longrightarrow> range_ok l"
  by (auto simp: new_posix_lock_def flock_in_range_def range_ok_def zero_lock_def split: if_splits)

lemma lk_step_keeps:
  assumes "lk_step s s'" "lock_list_ok (lk_list s)"
  shows "lock_list_ok (lk_list s')"
  using assms(1)
proof cases
  case (Setlk t flock client pid own fd l frame can_block ret ls early)
  then show ?thesis using setlk_keeps [OF assms(2) Setlk(3) request_range [OF Setlk(3,4)], of frame can_block] by auto
next
  case (Grant t ls granted)
  then show ?thesis using grant_blocked_keeps [OF assms(2)] by auto
qed (use assms(2) lock_list_ok_subset [OF assms(2)] in \<open>auto simp: delete_locks_of_fd_def delete_locks_of_owner_def\<close>)

lemma lk_reach_ok: "lk_reach s \<Longrightarrow> lock_list_ok (lk_list s)"
proof (induction rule: lk_reach.induct)
  case lk_reach_init
  then show ?case by (simp add: lk_init_def lock_list_ok_def)
qed (rule lk_step_keeps)

text \<open>A call that nobody interrupts is three of these steps.\<close>

lemma pl_setlk_reach:
  assumes "lk_reach s" "lk_phase s t = Idle" "new_posix_lock flock client pid own fd = Some l" "flock_in_range flock"
    and "pl_setlk (lk_inode s) (l\<lparr>user_flock := flock, lk_frame := frame\<rparr>) can_block = Some (ret, ino, granted, wind_list)"
  shows "lk_reach (s\<lparr>lk_inode := ino\<rparr>)"
proof -
  obtain ls early ls' g rws where r: "pl_setlk_locked (lk_list s) (l\<lparr>user_flock := flock, lk_frame := frame\<rparr>) can_block = Some (ret, ls, early)"
      "grant_blocked_locks ls = Some (ls', g)" "do_blocked_rw ls' (pl_rw_list (lk_inode s)) = (rws, wind_list)"
      "ino = (lk_inode s)\<lparr>pl_ext_list := ls', pl_rw_list := rws\<rparr>"
    using assms(5) by (auto simp: pl_setlk_def split: Option.bind_splits prod.splits)
  have "lk_reach (lk_next s t Granting ls)"
    using lk_reach_step [OF assms(1) Setlk [OF assms(2-4) r(1)]] .
  from lk_reach_step [OF this Grant [of _ t ls' g]] r(2) have "lk_reach (lk_next s t Resuming ls')" by simp
  from lk_reach_step [OF this Resume [of _ t rws wind_list]] r(3) show ?thesis
    using assms(2) by (simp add: r(4) fun_upd_idem)
qed

subsection \<open>Properties\<close>

text \<open>C6. Locks exclude each other, however the sections of lock requests, flushes and the granting of waiting requests of
  any number of callers interleave: in every reachable list of locks two granted locks of different owners that share
  a byte are both read locks.  No section gets stuck: in every such state every request, blocking or not, a lock or an
  unlock, returns from its first section (the recursion of \<open>insert_and_merge\<close> ends), and so does
  \<open>grant_blocked_locks\<close>.  Requests are built by \<open>new_posix_lock\<close> from a range that does not exceed \<open>off_t\<close>.\<close>

theorem posix_locks_exclusive:
  assumes "lk_reach s"
  shows "(\<forall>l1 \<in> set (lk_list s). \<forall>l2 \<in> set (lk_list s). \<forall>b.
      \<not> blocked l1 \<and> \<not> blocked l2 \<and> (lk_owner l1, lk_client l1) \<noteq> (lk_owner l2, lk_client l2) \<and>
      fl_start l1 \<le> b \<and> b \<le> fl_end l1 \<and> fl_start l2 \<le> b \<and> b \<le> fl_end l2 \<longrightarrow> fl_type l1 = F_RDLCK \<and> fl_type l2 = F_RDLCK) \<and>
    (\<forall>flock client pid own fd l frame can_block. new_posix_lock flock client pid own fd = Some l \<and> flock_in_range flock \<longrightarrow>
      (\<exists>ret ys early. pl_setlk_locked (lk_list s) (l\<lparr>user_flock := flock, lk_frame := frame\<rparr>) can_block = Some (ret, ys, early))) \<and>
    (\<exists>ys granted. grant_blocked_locks (lk_list s) = Some (ys, granted))"
proof (intro conjI)
  note ok = lk_reach_ok [OF assms]
  show "\<forall>l1 \<in> set (lk_list s). \<forall>l2 \<in> set (lk_list s). \<forall>b.
      \<not> blocked l1 \<and> \<not> blocked l2 \<and> (lk_owner l1, lk_client l1) \<noteq> (lk_owner l2, lk_client l2) \<and>
      fl_start l1 \<le> b \<and> b \<le> fl_end l1 \<and> fl_start l2 \<le> b \<and> b \<le> fl_end l2 \<longrightarrow> fl_type l1 = F_RDLCK \<and> fl_type l2 = F_RDLCK"
    using ok unfolding lock_list_ok_def conflict_def who_def at_byte_def by blast
  show "\<exists>ys granted. grant_blocked_locks (lk_list s) = Some (ys, granted)"
    using grant_blocked_keeps [OF ok] by metis
  show "\<forall>flock client pid own fd l frame can_block. new_posix_lock flock client pid own fd = Some l \<and> flock_in_range flock \<longrightarrow>
      (\<exists>ret ys early. pl_setlk_locked (lk_list s) (l\<lparr>user_flock := flock, lk_frame := frame\<rparr>) can_block = Some (ret, ys, early))"
    using setlk_keeps [OF ok _ request_range] by blast
qed

text \<open>A writer, and a blocking reader of another owner that comes before the writer has run its granting section.\<close>

definition flock_wr :: gf_flock where
  "flock_wr = zero_flock\<lparr>l_type := F_WRLCK, l_len := 10\<rparr>"

definition flock_rd :: gf_flock where
  "flock_rd = zero_flock\<lparr>l_start := 5, l_len := 10\<rparr>"

definition lock_wr :: posix_lock where
  "lock_wr = zero_lock\<lparr>fl_type := F_WRLCK, fl_end := 9, lk_client := 1, fd_num := 3, lk_fd := 3, client_pid := 7, lk_owner := [1],
     user_flock := flock_wr, lk_frame := 8\<rparr>"

definition lock_rd :: posix_lock where
  "lock_rd = zero_lock\<lparr>fl_start := 5, fl_end := 14, lk_client := 1, fd_num := 3, lk_fd := 3, client_pid := 7, lk_owner := [2],
     user_flock := flock_rd, lk_frame := 9\<rparr>"

definition two_callers :: lk_state where
  "two_callers = \<lparr>lk_inode = \<lparr>pl_ext_list = [lock_wr, lock_rd\<lparr>blocked := True\<rparr>], pl_rw_list = []\<rparr>,
     lk_phase = (\<lambda>_. Idle)(0 := Granting, 1 := Granting)\<rparr>"

lemmas two_simps = flock_wr_def flock_rd_def lock_wr_def lock_rd_def zero_flock_def zero_lock_def

lemma two_callers_reach: "lk_reach two_callers"
proof -
  let ?one = "lk_next lk_init 0 Granting [lock_wr]"
  have "lk_step lk_init ?one"
  proof (rule Setlk)
    show "new_posix_lock flock_wr 1 7 [1] 3 = Some (lock_wr\<lparr>user_flock := zero_flock, lk_frame := 0\<rparr>)"
      by (simp add: new_posix_lock_def two_simps)
    show "pl_setlk_locked (lk_list lk_init) (lock_wr\<lparr>user_flock := zero_flock, lk_frame := 0, user_flock := flock_wr, lk_frame := 8\<rparr>) False =
        Some (0, [lock_wr], [])"
      by (simp add: pl_setlk_locked_def lk_init_def is_lock_grantable_def insert_and_merge.simps merge_target_def insert_lock_def two_simps)
  qed (simp_all add: lk_init_def flock_in_range_def two_simps)
  moreover have "lk_step ?one two_callers"
  proof -
    have "lk_step ?one (lk_next ?one 1 Granting [lock_wr, lock_rd\<lparr>blocked := True\<rparr>])"
    proof (rule Setlk)
      show "new_posix_lock flock_rd 1 7 [2] 3 = Some (lock_rd\<lparr>user_flock := zero_flock, lk_frame := 0\<rparr>)"
        by (simp add: new_posix_lock_def two_simps)
      show "pl_setlk_locked (lk_list ?one) (lock_rd\<lparr>user_flock := zero_flock, lk_frame := 0, user_flock := flock_rd, lk_frame := 9\<rparr>) True =
          Some (-1, [lock_wr, lock_rd\<lparr>blocked := True\<rparr>], [])"
        by (simp add: pl_setlk_locked_def is_lock_grantable_def locks_overlap_def same_owner_def pl_send_prelock_unlock_def Let_def
            new_posix_lock_def insert_and_merge.simps merge_target_def insert_lock_def grant_blocked_locks_def grant_scan_def two_simps)
    qed (simp_all add: lk_init_def flock_in_range_def two_simps)
    then show ?thesis by (simp add: two_callers_def lk_init_def)
  qed
  ultimately show ?thesis by (meson lk_reach_init lk_reach_step)
qed

theorem posix_locks_exclusive_witness:
  "lk_reach two_callers \<and> blocked (lk_list two_callers ! 1) \<and> (\<exists>ys granted. grant_blocked_locks (lk_list two_callers) = Some (ys, granted))"
  using posix_locks_exclusive [OF two_callers_reach] two_callers_reach by (simp add: two_callers_def)

text \<open>C7. A granted request replaces, byte by byte, what its owner held in its range and nothing else: after
  \<open>insert_and_merge\<close> the owner holds exactly the requested type (nothing after an unlock) on the bytes of the range and
  what it held before on all others, and locks of other owners and waiting locks are as before.  The owner holds at most one
  lock per byte before, and for a read request no other owner holds a read lock.\<close>

theorem request_replaces_range:
  assumes "lock_list_ok ls" "range_ok lock" "\<not> blocked lock" "is_lock_grantable ls lock" "one_per_byte (who lock) ls"
    and "fl_type lock = F_RDLCK \<Longrightarrow> \<forall>l \<in> set ls. \<not> blocked l \<and> who l \<noteq> who lock \<longrightarrow> fl_type l \<noteq> F_RDLCK"
  shows "\<exists>ys. insert_and_merge lock ls = Some ys \<and> others (who lock) ys = others (who lock) ls \<and>
    (\<forall>b. held (who lock) ys b =
       (if at_byte b lock then if fl_type lock = F_UNLCK then [] else [fl_type lock] else held (who lock) ls b))"
proof -
  have "insert_pre lock ls" "no_shortcut lock ls"
    using assms by (auto simp: insert_pre_def no_shortcut_def)
  then show ?thesis
    using insert_and_merge_ok [of lock ls] assms(5) by (auto simp: returns_def insert_result_def request_effect_def)
qed

text \<open>An unlock in the middle of a write lock.\<close>

theorem request_replaces_range_witness:
  "\<exists>ys. insert_and_merge (zero_lock\<lparr>fl_type := F_UNLCK, fl_start := 3, fl_end := 5\<rparr>) [zero_lock\<lparr>fl_type := F_WRLCK, fl_end := 9\<rparr>] = Some ys \<and>
     held ([], 0) ys 2 = [F_WRLCK] \<and> held ([], 0) ys 4 = [] \<and> held ([], 0) ys 6 = [F_WRLCK]"
proof -
  let ?l = "zero_lock\<lparr>fl_type := F_UNLCK, fl_start := 3, fl_end := 5\<rparr>" and ?ls = "[zero_lock\<lparr>fl_type := F_WRLCK, fl_end := 9\<rparr>]"
  have "lock_list_ok ?ls" "range_ok ?l" "\<not> blocked ?l" "is_lock_grantable ?ls ?l" "one_per_byte (who ?l) ?ls" "fl_type ?l \<noteq> F_RDLCK"
    by (simp_all add: lock_list_ok_iff range_ok_def grantable_iff zero_lock_def one_per_byte_def held_def)
  then have "\<exists>ys. insert_and_merge ?l ?ls = Some ys \<and> others (who ?l) ys = others (who ?l) ?ls \<and>
    (\<forall>b. held (who ?l) ys b = (if at_byte b ?l then if fl_type ?l = F_UNLCK then [] else [fl_type ?l] else held (who ?l) ?ls b))"
    by (intro request_replaces_range) simp_all
  then obtain ys where ys: "insert_and_merge ?l ?ls = Some ys"
      "held (who ?l) ys b = (if at_byte b ?l then if fl_type ?l = F_UNLCK then [] else [fl_type ?l] else held (who ?l) ?ls b)" for b
    by blast
  have "who ?l = ([], 0)" by (simp add: who_def zero_lock_def)
  then show ?thesis
    using ys(1) ys(2) [of 2] ys(2) [of 4] ys(2) [of 6] by (simp add: at_byte_def held_def) (simp add: zero_lock_def who_def)
qed

text \<open>A waiting request is only looked at when it overlaps no granted lock at all: a read request stays blocked
  behind a read lock of another owner although it could be granted.\<close>

lemma reader_not_woken:
  "let rd = zero_lock\<lparr>fl_start := 11, fl_end := 20, lk_client := 2\<rparr>;
       waiting = zero_lock\<lparr>fl_end := 20, lk_client := 3, blocked := True\<rparr>
   in is_lock_grantable [rd, waiting] waiting \<and> grant_blocked_locks [rd, waiting] = Some ([rd, waiting], [])"
  by (simp add: Let_def is_lock_grantable_def locks_overlap_def same_owner_def zero_lock_def grant_blocked_locks_def grant_scan_def
      first_overlap_def)

text \<open>C39. A read request may leave its owner with the write lock it was to replace.  When the first granted lock that
  overlaps a grantable read request is a read lock of another owner, the request is reported as successful, is put at
  the end of the list, and every write lock of its owner is kept: on a byte of such a lock in the range of the request the
  owner now holds both, and no other owner is granted even a read lock there.\<close>

theorem downgrade_keeps_write_lock:
  assumes "ls = pre @ rd # post" "\<forall>l \<in> set pre. blocked l \<or> \<not> locks_overlap l req"
    and "\<not> blocked rd" "fl_type rd = F_RDLCK" "who rd \<noteq> who req" "locks_overlap rd req"
    and "fl_type req = F_RDLCK" "is_lock_grantable ls req" "\<not> blocked req"
    and "wr \<in> set post" "\<not> blocked wr" "fl_type wr = F_WRLCK" "who wr = who req" "at_byte b wr" "at_byte b req"
  shows "pl_setlk_locked ls req can_block = Some (0, ls @ [req], []) \<and> {F_WRLCK, F_RDLCK} \<subseteq> set (held (who req) (ls @ [req]) b) \<and>
    (\<forall>reader. fl_type reader = F_RDLCK \<and> who reader \<noteq> who req \<and> at_byte b reader \<longrightarrow> \<not> is_lock_grantable (ls @ [req]) reader)"
proof (intro conjI)
  have "merge_target req (pre @ rd # post) = Some rd"
    using assms(2-7) by (induction pre) (auto simp: merge_target_def)
  then have "merge_target req ls = Some rd" by (simp add: assms(1))
  then have "insert_and_merge req ls = Some (ls @ [req])"
    using assms(5) by (simp add: insert_and_merge.simps [of req] same_owner_who insert_lock_def)
  then show "pl_setlk_locked ls req can_block = Some (0, ls @ [req], [])"
    using assms(8) by (simp add: pl_setlk_locked_def)
  show "{F_WRLCK, F_RDLCK} \<subseteq> set (held (who req) (ls @ [req]) b)"
    using assms(1,7,9-15) by (force simp: held_def)
  show "\<forall>reader. fl_type reader = F_RDLCK \<and> who reader \<noteq> who req \<and> at_byte b reader \<longrightarrow> \<not> is_lock_grantable (ls @ [req]) reader"
  proof (intro allI impI)
    fix reader
    assume r: "fl_type reader = F_RDLCK \<and> who reader \<noteq> who req \<and> at_byte b reader"
    then have "wr \<in> set (ls @ [req]) \<and> \<not> blocked wr \<and> who wr \<noteq> who reader \<and> locks_overlap reader wr \<and> fl_type reader \<noteq> F_UNLCK"
      using assms(1,10,11,13,14) overlapI [of b reader wr] by auto
    then show "\<not> is_lock_grantable (ls @ [req]) reader"
      using assms(12) unfolding grantable_iff by blast
  qed
qed

text \<open>One owner holds a write lock on the bytes 0 to 9, another one a read lock on 20 to 29 that comes first in the list;
  the first owner asks for a read lock on 0 to 29.\<close>

theorem downgrade_keeps_write_lock_witness:
  "let wr = zero_lock\<lparr>fl_type := F_WRLCK, fl_end := 9, lk_client := 1\<rparr>;
       rd = zero_lock\<lparr>fl_start := 20, fl_end := 29, lk_client := 2\<rparr>;
       req = zero_lock\<lparr>fl_end := 29, lk_client := 1\<rparr>
   in pl_setlk_locked [rd, wr] req False = Some (0, [rd, wr, req], []) \<and> \<not> is_lock_grantable [rd, wr, req] (zero_lock\<lparr>lk_client := 3\<rparr>)"
proof -
  let ?wr = "zero_lock\<lparr>fl_type := F_WRLCK, fl_end := 9, lk_client := 1\<rparr>" and ?rd = "zero_lock\<lparr>fl_start := 20, fl_end := 29, lk_client := 2\<rparr>"
    and ?req = "zero_lock\<lparr>fl_end := 29, lk_client := 1\<rparr>" and ?reader = "zero_lock\<lparr>lk_client := 3\<rparr>"
  have "pl_setlk_locked [?rd, ?wr] ?req False = Some (0, [?rd, ?wr] @ [?req], []) \<and>
      {F_WRLCK, F_RDLCK} \<subseteq> set (held (who ?req) ([?rd, ?wr] @ [?req]) 0) \<and>
      (\<forall>reader. fl_type reader = F_RDLCK \<and> who reader \<noteq> who ?req \<and> at_byte 0 reader \<longrightarrow> \<not> is_lock_grantable ([?rd, ?wr] @ [?req]) reader)"
    by (rule downgrade_keeps_write_lock [of _ "[]" ?rd "[?wr]" ?req ?wr])
      (simp_all add: locks_overlap_def is_lock_grantable_def same_owner_def who_def at_byte_def zero_lock_def)
  moreover have "fl_type ?reader = F_RDLCK" "who ?reader \<noteq> who ?req" "at_byte 0 ?reader"
    by (simp_all add: zero_lock_def who_def at_byte_def)
  ultimately show ?thesis unfolding Let_def append_Cons append_Nil by metis
qed

end
