(* ===== verification/Views.thy ===== *)
theory Views
  imports Query_Correct
begin

unbundle bit_operations_syntax

text \<open>
  Virtual views (\<open>src/xlators/meta/src/imess-views.c\<close> and \<open>imess-views-db.c\<close>): the directory of the views, one
  directory per view whose lookup runs the associated query, and the links in it.  The context of an inode of the
  meta translator is the dictionary its hook stores; a hook is a function of the context of
  the parent.  Allocations succeed.
\<close>

subsection \<open>The database of views\<close>

text \<open>What SQLite answers on the database of the views: the result codes, the number of rows, and the rows
  (name and SQL text, both not null).\<close>

record viewdb =
  vd_open :: int
  vd_prepare :: int
  vd_step :: int
  vd_count :: int
  vd_rows :: "(string \<times> string) list"
  vd_exec :: int

abbreviation (input) SQLITE_ABORT :: int where "SQLITE_ABORT \<equiv> 4"

definition viewdb_getlist_callback :: "string \<times> string \<Rightarrow> dict_t option \<Rightarrow> int \<times> dict_t option" where
  "viewdb_getlist_callback vals data = dict_set_str data (fst vals) (Some (snd vals))"

definition imess_viewdb_count :: "viewdb \<Rightarrow> int" where
  "imess_viewdb_count db =
     (if vd_prepare db \<noteq> SQLITE_OK then -1 else if vd_step db \<noteq> SQLITE_ROW then -2 else vd_count db)"

text \<open>\<open>sqlite3_exec\<close> calls back for every row and stops with \<open>SQLITE_ABORT\<close> when a callback fails.\<close>

fun exec_callback :: "('r \<Rightarrow> 's \<Rightarrow> int \<times> 's) \<Rightarrow> int \<Rightarrow> 'r list \<Rightarrow> 's \<Rightarrow> int \<times> 's" where
  "exec_callback f code [] s = (code, s)"
| "exec_callback f code (r # rs) s = (case f r s of (ret, s) \<Rightarrow> if ret \<noteq> 0 then (SQLITE_ABORT, s) else exec_callback f code rs s)"

definition imess_viewdb_getlist :: "viewdb \<Rightarrow> dict_t option \<Rightarrow> int \<times> dict_t option" where
  "imess_viewdb_getlist db data =
     (if vd_open db \<noteq> 0 then (vd_open db, data)
      else let n = imess_viewdb_count db in
        if n < 0 then (n, data)
        else case exec_callback viewdb_getlist_callback (vd_exec db) (vd_rows db) data of (ret, data) \<Rightarrow>
          (if ret \<noteq> 0 then - EIO else ret, data))"

subsection \<open>Directories and files\<close>

text \<open>A \<open>struct meta_dirent\<close> without its hook.\<close>

type_synonym dirent = "string \<times> ia_type"

definition meta_imess_views_dir_hook :: "viewdb \<Rightarrow> int \<times> dict_t option" where
  "meta_imess_views_dir_hook db = imess_viewdb_getlist db (Some dict_new)"

text \<open>\<open>None\<close>: there is no context, or more pairs than the count, so that the array is left.\<close>

definition imess_views_dir_fill :: "dict_t option \<Rightarrow> (int \<times> dirent list) option" where
  "imess_views_dir_fill data = do {
     d \<leftarrow> data;
     (let (ret, dirents) = dict_foreach data (\<lambda>key value dirents. (0, dirents @ [(key, IA_IFDIR)])) []
      in if int (length dirents) > dict_count d then None
         else Some (if ret \<noteq> 0 then (-1, []) else (dict_count d, dirents)))
   }"

text \<open>The hook of a view asks the child of the translator and keeps the answer as the context of the
  directory.\<close>

definition meta_imess_view_dir_hook ::
  "fp_lib \<Rightarrow> 'w glfs_ipc \<Rightarrow> dbl \<Rightarrow> string \<Rightarrow> dict_t option \<Rightarrow> 'w \<Rightarrow> (int \<times> dict_t option \<times> 'w) option" where
  "meta_imess_view_dir_hook fp ipc latency name data w =
     (case dict_get_str data (Some name) of (ret, sql) \<Rightarrow>
      if ret \<noteq> 0 then Some (-1, None, w)
      else
        let (r1, data_in) = dict_set_str (Some dict_new) ''type'' (Some ''query'');
            (r2, data_in) = dict_set_str data_in ''sql'' sql;
            (r3, data_in) = dict_set_str data_in ''clients'' (Some ''all'')
        in if r1 OR r2 OR r3 \<noteq> 0 then Some (-1, None, w)
           else do {
             (ret, data_out, w) \<leftarrow> ipc data_in w;
             if ret \<noteq> 0 then Some (-1, None, w)
             else case dict_set_str data_out ''sql'' sql of (ret, data_out) \<Rightarrow>
               if ret \<noteq> 0 then Some (-1, None, w)
               else case dict_set_double fp data_out ''latency'' latency of (ret, data_out) \<Rightarrow>
                 Some (if ret \<noteq> 0 then (-1, None, w) else (0, data_out, w))
           })"

definition imess_view_dir_fill :: "dict_t option \<Rightarrow> int \<times> dirent list" where
  "imess_view_dir_fill data =
     (case dict_get_uint64 data (Some ''count'') of (ret, cnt) \<Rightarrow>
      if ret \<noteq> 0 then (-1, [])
      else let n = nat (the cnt) in (signed_take_bit 31 (int n), map (\<lambda>i. (dec_str i, IA_IFLNK)) [0..<n]))"

text \<open>The context of a link is the path, that of a file is the one of its directory.\<close>

definition meta_imess_view_link_hook :: "string \<Rightarrow> dict_t option \<Rightarrow> int \<times> string option" where
  "meta_imess_view_link_hook name data =
     (case dict_get_str data (Some name) of (ret, path) \<Rightarrow> if ret \<noteq> 0 then (-1, None) else (0, path))"

definition imess_view_link_fill :: "string option \<Rightarrow> string" where
  "imess_view_link_fill path = ''../../../..'' @ fmt_s path"

definition imess_view_sql_file_fill :: "dict_t option \<Rightarrow> int \<times> string" where
  "imess_view_sql_file_fill data =
     (case dict_get_str data (Some ''sql'') of (ret, sql) \<Rightarrow> if ret \<noteq> 0 then (-1, []) else (0, fmt_s sql @ [CHR 0x0A]))"

definition imess_view_count_file_fill :: "dict_t option \<Rightarrow> int \<times> string" where
  "imess_view_count_file_fill data =
     (case dict_get_uint64 data (Some ''count'') of (ret, cnt) \<Rightarrow>
      if ret \<noteq> 0 then (-1, []) else (0, dec_str (nat (the cnt)) @ [CHR 0x0A]))"

definition imess_view_latency_file_fill :: "fp_lib \<Rightarrow> dict_t option \<Rightarrow> int \<times> string" where
  "imess_view_latency_file_fill fp data =
     (case dict_get_double fp data (Some ''latency'') of (ret, latency) \<Rightarrow>
      if ret \<noteq> 0 then (-1, []) else (0, fmt_f fp (the latency) @ [CHR 0x0A]))"

subsection \<open>The request of a view\<close>

text \<open>Without a client mask a request goes to the first subvolume only; the answer comes back as it is.\<close>

definition default_ipc ::
  "fp_lib \<Rightarrow> 'c sqlite3 \<Rightarrow> 'o os \<Rightarrow> cluster_env \<Rightarrow> dict_t option \<Rightarrow> ('c, 'o) cluster \<Rightarrow> (int \<times> int \<times> dict_t option \<times> ('c, 'o) cluster) option" where
  "default_ipc fp E os ce xdata w =
     (case cl_servers w of
        [] \<Rightarrow> None
      | (st, ost) # _ \<Rightarrow>
          (case ims_ipc fp E os (ce_ipc ce (cl_round w) 0) (ce_mem ce (cl_round w) 0) IMESS_IPC_OP xdata st ost of
             Inl _ \<Rightarrow> None
           | Inr reply \<Rightarrow> do {
               (op_ret, op_errno, xdata, st, ost) \<leftarrow> reply;
               Some (op_ret, op_errno, xdata, w\<lparr>cl_servers := (cl_servers w)[0 := (st, ost)], cl_round := Suc (cl_round w)\<rparr>)
             }))"

definition syncop_ipc :: "fp_lib \<Rightarrow> 'c sqlite3 \<Rightarrow> 'o os \<Rightarrow> cluster_env \<Rightarrow> ('c, 'o) cluster glfs_ipc" where
  "syncop_ipc fp E os ce xdata_in w = do {
     r \<leftarrow> dht_ipc (length (cl_servers w)) xdata_in;
     (case r of
        Inl _ \<Rightarrow> do {
          (op_ret, op_errno, xdata, w) \<leftarrow> default_ipc fp E os ce xdata_in w;
          Some (if op_ret < 0 then - op_errno else op_ret, xdata, w)
        }
      | Inr _ \<Rightarrow> cluster_ipc fp E os ce xdata_in w)
   }"

subsection \<open>What the views show\<close>

lemma getlist_rows:
  "dict_functional d \<Longrightarrow> \<exists>d'. exec_callback viewdb_getlist_callback code rows (Some d) = (code, Some d') \<and> dict_functional d' \<and>
     dict_map d' = (\<lambda>k. case map_of (rev rows) k of Some sql \<Rightarrow> str_to_data (Some sql) | None \<Rightarrow> dict_map d k)"
proof (induction rows arbitrary: d)
  case (Cons r rows)
  obtain name sql where r: "r = (name, sql)" by fastforce
  obtain v where v: "str_to_data (Some sql) = Some v" by (simp add: str_to_data_def)
  let ?d = "u_dict_set d name v True"
  have d: "dict_functional ?d" "dict_map ?d = (dict_map d)(name \<mapsto> v)"
    using Cons.prems by (simp_all add: dict_upd)
  obtain d' where "exec_callback viewdb_getlist_callback code rows (Some ?d) = (code, Some d')" "dict_functional d'"
     "dict_map d' = (\<lambda>k. case map_of (rev rows) k of Some sql \<Rightarrow> str_to_data (Some sql) | None \<Rightarrow> dict_map ?d k)"
    using Cons.IH [OF d(1)] by blast
  moreover have "viewdb_getlist_callback r (Some d) = (0, Some ?d)"
    using v by (simp add: r viewdb_getlist_callback_def dict_set_str_def dict_set_via_def dict_set_def)
  ultimately show ?case
    using d(2) v by (intro exI [of _ d']) (simp add: r map_add_def fun_eq_iff split: option.splits)
qed simp

text \<open>The directory of the views lists every name of the database once, and each of them leads to its query.\<close>

lemma views_listed:
  assumes "vd_open db = 0" "vd_prepare db = SQLITE_OK" "vd_step db = SQLITE_ROW" "0 \<le> vd_count db" "vd_exec db = SQLITE_OK"
    and "\<forall>(name, sql) \<in> set (vd_rows db). no_nul sql"
  obtains d where "meta_imess_views_dir_hook db = (0, Some d)" "dict_functional d"
    and "\<And>name. dict_get_str (Some d) (Some name) =
           (case map_of (rev (vd_rows db)) name of Some sql \<Rightarrow> (0, Some sql) | None \<Rightarrow> (- ENOENT, None))"
proof -
  obtain d where d: "exec_callback viewdb_getlist_callback (vd_exec db) (vd_rows db) (Some dict_new) = (vd_exec db, Some d)" "dict_functional d"
    "dict_map d = (\<lambda>k. case map_of (rev (vd_rows db)) k of Some sql \<Rightarrow> str_to_data (Some sql) | None \<Rightarrow> dict_map dict_new k)"
    using getlist_rows [OF dict_functional_new] by blast
  have "meta_imess_views_dir_hook db = (0, Some d)"
    using assms(1-5) d(1) by (simp add: meta_imess_views_dir_hook_def imess_viewdb_getlist_def imess_viewdb_count_def)
  moreover have "dict_get_str (Some d) (Some name) =
      (case map_of (rev (vd_rows db)) name of Some sql \<Rightarrow> (0, Some sql) | None \<Rightarrow> (- ENOENT, None))" for name
  proof (cases "map_of (rev (vd_rows db)) name")
    case None
    then show ?thesis using get_str_missing [OF d(2)] d(3) by simp
  next
    case (Some sql)
    then have "no_nul sql" using map_of_SomeD [OF Some] assms(6) by auto
    then show ?thesis using get_static_str [OF d(2), of name sql] d(3) Some by (simp add: str_to_data_def text_data_def)
  qed
  ultimately show ?thesis using that d(2) by blast
qed

text \<open>The links of a view, when a query answers with the given rows: one for every row, in order, that leads from the
  directory of the view to the path in the row.\<close>

lemma view_links:
  assumes "dict_functional d" "dict_map d ''count'' = Some (data_from_uint64 (int (length rows)))" "length rows < 2 ^ 31"
    and "\<And>i. i < length rows \<Longrightarrow> dict_get_str (Some d) (Some (dec_str i)) = (0, Some (rows ! i))"
  shows "imess_view_dir_fill (Some d) = (int (length rows), map (\<lambda>i. (dec_str i, IA_IFLNK)) [0..<length rows])"
    and "i < length rows \<Longrightarrow> meta_imess_view_link_hook (dec_str i) (Some d) = (0, Some (rows ! i))"
    and "imess_view_link_fill (Some row) = ''../../../..'' @ row"
proof -
  have "uint_range 64 (int (length rows))" using assms(3) by (simp add: uint_range_def)
  then have "dict_get_uint64 (Some d) (Some ''count'') = (0, Some (int (length rows)))"
    using get_uint64 [OF assms(1,2)] by simp
  moreover have "signed_take_bit 31 (int (length rows)) = int (length rows)"
    using assms(3) by (intro signed_take_bit_int_eq_self) simp_all
  ultimately show "imess_view_dir_fill (Some d) = (int (length rows), map (\<lambda>i. (dec_str i, IA_IFLNK)) [0..<length rows])"
    by (simp add: imess_view_dir_fill_def)
  show "meta_imess_view_link_hook (dec_str i) (Some d) = (0, Some (rows ! i))" if "i < length rows"
    using assms(4) [OF that] by (simp add: meta_imess_view_link_hook_def)
  show "imess_view_link_fill (Some row) = ''../../../..'' @ row"
    by (simp add: imess_view_link_fill_def fmt_s_def)
qed

text \<open>The request of a view has neither a client mask nor a session.\<close>

definition view_request :: "data_t \<Rightarrow> dict_t" where
  "view_request v =
     u_dict_set (u_dict_set (u_dict_set dict_new ''type'' (the (str_to_data (Some ''query''))) True) ''sql'' v True)
       ''clients'' (the (str_to_data (Some ''all''))) True"

lemma view_request_map:
  "dict_functional (view_request v)"
  "dict_map (view_request v) = [''type'' \<mapsto> the (str_to_data (Some ''query'')), ''sql'' \<mapsto> v, ''clients'' \<mapsto> the (str_to_data (Some ''all''))]"
  by (simp_all add: view_request_def dict_upd)

lemma view_request_get:
  "dict_get_str (Some (view_request v)) (Some ''type'') = (0, Some ''query'')"
  "dict_get_str (Some (view_request v)) (Some ''session'') = (- ENOENT, None)"
  "dict_get_bin (Some (view_request v)) (Some ''cmask'') = (- ENOENT, None)"
proof -
  note m = view_request_map
  show "dict_get_str (Some (view_request v)) (Some ''type'') = (0, Some ''query'')"
    by (rule get_static_str [OF m(1)]) (simp_all add: m(2) str_to_data_def text_data_def no_nul_def)
  show "dict_get_str (Some (view_request v)) (Some ''session'') = (- ENOENT, None)"
    by (rule get_str_missing [OF m(1)]) (simp add: m(2))
  show "dict_get_bin (Some (view_request v)) (Some ''cmask'') = (- ENOENT, None)"
    by (simp add: dict_get_bin_def dict_get_with_ref_map dict_functional_ok m)
qed

lemma view_request_refused:
  assumes "cl_servers w = (st, ost) # rest" "ie_out (ce_ipc ce (cl_round w) 0)"
    and "ipc_identity (ie_host (ce_ipc ce (cl_round w) 0)) (pv_db_path (ip_priv st)) = Some host"
  shows "\<exists>reply. syncop_ipc fp E os ce (Some (view_request v)) w = Some (- EINVAL, reply, w\<lparr>cl_round := Suc (cl_round w)\<rparr>)"
proof -
  have "has_prefix ''query'' ''query''" by code_simp
  moreover obtain x where "dict_set_str (Some dict_new) ''from'' (Some host) = (0, Some x)"
    by (simp add: dict_set_str_def dict_set_via_def str_to_data_def dict_set_def)
  ultimately have "default_ipc fp E os ce (Some (view_request v)) w = Some (- ENOENT, EINVAL, Some x, w\<lparr>cl_round := Suc (cl_round w)\<rparr>)"
    using assms by (simp add: default_ipc_def ims_ipc_def ims_ipc_query_def view_request_get)
  then show ?thesis by (simp add: syncop_ipc_def dht_ipc_def view_request_get)
qed

text \<open>C40. Opening a view never works: the request its hook sends carries neither the client mask the distribution layer
  looks for nor the session the servers require, so it goes to the first server alone and is refused there.  For
  every cluster, every view and every query the hook returns -1, the directory gets no context, and the
  servers are as before.\<close>

theorem view_lookup_fails:
  assumes "cl_servers w = (st, ost) # rest" "ie_out (ce_ipc ce (cl_round w) 0)"
    and "ipc_identity (ie_host (ce_ipc ce (cl_round w) 0)) (pv_db_path (ip_priv st)) = Some host"
  shows "\<exists>w'. meta_imess_view_dir_hook fp (syncop_ipc fp E os ce) latency name data w = Some (-1, None, w') \<and>
    cl_servers w' = cl_servers w"
proof -
  obtain ret sql where get: "dict_get_str data (Some name) = (ret, sql)" by fastforce
  show ?thesis
  proof (cases "ret = 0 \<and> sql \<noteq> None")
    case True
    then obtain s where s: "sql = Some s" by blast
    obtain reply where "syncop_ipc fp E os ce (Some (view_request (the (str_to_data (Some s))))) w = Some (- EINVAL, reply, w\<lparr>cl_round := Suc (cl_round w)\<rparr>)"
      using view_request_refused [OF assms] by blast
    then show ?thesis
      using True get
      by (simp add: meta_imess_view_dir_hook_def s dict_set_str_def dict_set_via_def str_to_data_def dict_set_def view_request_def)
  next
    case False
    then show ?thesis
      using get by (auto simp: meta_imess_view_dir_hook_def dict_set_str_def dict_set_via_def str_to_data_def dict_set_def)
  qed
qed

text \<open>A view of the database, looked up on a cluster of two servers.\<close>

theorem view_lookup_fails_witness:
  "\<exists>w'. meta_imess_view_dir_hook sample_fp (syncop_ipc sample_fp ref_engine sample_os sample_ce) 0 ''big''
      (snd (meta_imess_views_dir_hook \<lparr>vd_open = 0, vd_prepare = SQLITE_OK, vd_step = SQLITE_ROW, vd_count = 1,
         vd_rows = [(''big'', ''select path from xdb'')], vd_exec = SQLITE_OK\<rparr>)) sample_cluster = Some (-1, None, w') \<and>
    cl_servers w' = cl_servers sample_cluster"
  by (rule view_lookup_fails [where st = sample_server and ost = "()" and rest = "[(sample_server, ())]" and host = "''a-/bricks/xdb''"])
    (simp_all add: sample_cluster_def sample_ce_def sample_server_def sample_priv_def ipc_identity_def PATH_MAX_def)

end
