(* ===== verification/Spec2Isabelle.thy ===== *)
theory Spec2Isabelle
  imports Dict_Serialize Dht_Layout_Ref Dht_Selfheal Query_Correct Ec_Roundtrip Posix_Locks_Correct Views
begin

text \<open>
  A verification library for TagIt, a metadata index inside the distributed file system GlusterFS.

  \<^bold>\<open>The program.\<close>  A volume is a graph of translators.  On every brick the translator \<^verbatim>\<open>imess-server\<close> watches the
  requests that change the name space and keeps an SQLite database of paths, attributes and tags, either in the
  callback of the request or through a queue and a worker thread.  A client sends a query as an \<^verbatim>\<open>ipc\<close> request; the
  distribution layer (DHT) sends it to the bricks of a mask and merges the replies; the shell \<^verbatim>\<open>ixsql\<close> pages through
  them and prints the rows.  The meta translator shows stored queries as directories.  Around this are the services the parts use:
  dictionaries and their wire format, linked lists, UUIDs, hash functions, file attributes, the directory layouts of
  DHT, the erasure code, and record locks.

  \<^bold>\<open>How it is modelled.\<close>  A struct is a record, an enumeration a datatype, a function of the source a definition
  of the same name (a leading \<^verbatim>\<open>__\<close> or \<^verbatim>\<open>_\<close> is dropped or written \<^verbatim>\<open>u_\<close>).  State is passed explicitly; a NULL pointer is
  \<open>None\<close>, or 0 where addresses are numbers.  An operation whose type is an option is \<open>None\<close> where the source crashes, leaves a
  buffer or does not return.  Words have the width of the source where wrap-around matters.  What is not under \<^verbatim>\<open>src/\<close> is a
  parameter: SQLite (a record of functions with the contract \<open>sqlite_engine\<close>, in which every call may fail and a failed \<open>COMMIT\<close>
  or \<open>ROLLBACK\<close> may keep the transaction or undo it, and \<open>reliable_engine\<close> for an engine without faults), the operating system, the conversions of floating-point numbers, clocks, allocation results, and the
  order in which replies arrive.

  \<^bold>\<open>Theories.\<close>

  \<^item> \<open>Prelude\<close>, \<open>Byteorder\<close>: integer types, error numbers, loops, and byte order (\<^verbatim>\<open>byte-order.h\<close>).

  \<^item> \<open>Hashfn\<close>: the hashes of \<^verbatim>\<open>hashfn.c\<close>, byte for byte.

  \<^item> \<open>Dict\<close>, \<open>Dict_Codec\<close>, \<open>Dict_Serialize\<close>: \<^verbatim>\<open>dict.c\<close>.  The hash chains and the list of pairs implement a finite map
    (locale \<open>kv_store\<close>, interpretation \<open>dkv\<close>); typed values are read back as they were stored (locale \<open>dict_codec\<close>, one
    interpretation per integer type); the wire format is a round trip within its buffer.

  \<^item> \<open>List_Head\<close>: the rings of \<^verbatim>\<open>list.h\<close> on a heap of pointers; every operation refines the one on sequences, and ordered
    insertion is stable for any comparison, with the comparisons of its callers (\<^verbatim>\<open>orderfn\<close>, \<^verbatim>\<open>orderq\<close>) as instances.

  \<^item> \<open>Uuid\<close>, \<open>Iatt\<close>: \<^verbatim>\<open>contrib/uuid\<close> and \<^verbatim>\<open>iatt.h\<close>, with their round trips.

  \<^item> \<open>Exchange_Sort\<close>, \<open>Dht_Layout\<close>, \<open>Dht_Layout_Ref\<close>, \<open>Dht_Selfheal\<close>: \<^verbatim>\<open>dht-layout.c\<close>, \<^verbatim>\<open>dht-hashfn.c\<close> and the
    arithmetic of \<^verbatim>\<open>dht-selfheal.c\<close>.  A layout that is accepted gives every hash to a subvolume, the replies of all subvolumes, failed
    ones included, are merged into the layout, the ranges of a new directory partition the hash space, exchanging ranges permutes them
    and does not lower the overlap counted in hash values, and reference counts are exact in every interleaving of the lock sections.

  \<^item> \<open>Xdb_Schema\<close>, \<open>Sqlite\<close>, \<open>Xdb_Index\<close>, \<open>Xdb\<close>, \<open>Xdb_Laws\<close>, \<open>Xdb_Refine\<close>, \<open>Xdb_Correct\<close>: the index database
    (\<^verbatim>\<open>imess-server-xdb-schema.sql\<close>, \<^verbatim>\<open>imess-server-xdb.c\<close>, \<^verbatim>\<open>imess-server-xdb.h\<close>).  Each SQL statement is a function on the
    tables; every operation is all or nothing for the durable contents (\<open>durable_outcome\<close>) on every engine that can
    start a transaction, with a refused \<open>COMMIT\<close> the one case in which a result of 0 stores nothing, and refines an abstract index on one without faults.  The contracts are
    interpreted on a reference engine with injected faults (\<open>ref_sqlite\<close>) and on one without (\<open>plain_sqlite\<close>).

  \<^item> \<open>Async\<close>, \<open>Async_Correct\<close>: \<^verbatim>\<open>imess-server-async.c\<close>.  Producers and the worker interleave as steps of a relation; tasks are
    worked on in the order of acceptance (locale \<open>fifo\<close>, interpretation \<open>task_queue\<close>) and the index is the one of dispatching them in that
    order (\<open>carry_out\<close>); on an engine without faults it is their effect on the abstract index, and the queue can be drained.

  \<^item> \<open>Server\<close>, \<open>Server_Correct\<close>: \<^verbatim>\<open>imess-server.c\<close>.  The synchronous and the asynchronous mode give the same index, changes of attributes apart.

  \<^item> \<open>Ims_Ipc\<close>, \<open>Dht_Ipc\<close>, \<open>Ixsql\<close>, \<open>Ipc_Correct\<close>, \<open>Query_Correct\<close>: \<^verbatim>\<open>imess-server-ipc.c\<close>, \<^verbatim>\<open>dht_ipc\<close> of
    \<^verbatim>\<open>dht-common.c\<close>, and the shell (\<^verbatim>\<open>ixsql.c\<close>, \<^verbatim>\<open>ixsql-cmd.c\<close>).  A select prints every row of every server of the mask
    exactly once, whatever the order of the replies, for every positive slice and rows and names that fit the buffers.  A row that was sent
    is freed with its reply although the kept result still points to it (\<open>ip_freed\<close>), so that each is fetched once only; replies to exec requests are dropped.

  \<^item> \<open>Views\<close>: \<^verbatim>\<open>imess-views.c\<close> and \<^verbatim>\<open>imess-views-db.c\<close>.  The views of the database are listed and rows become links, but the
    request that opens a view is refused by the servers.

  \<^item> \<open>Gf8\<close>, \<open>Ec_Slices\<close>, \<open>Ec_Gf_02\<close>, \<open>Ec_Gf_44\<close>, \<open>Ec_Gf_83\<close>, \<open>Ec_Gf_C2\<close>, \<open>Ec_Gf\<close>, \<open>Ec_Method\<close>, \<open>Ec_Tables\<close>, \<open>Ec_Elim\<close>,
    \<open>Ec_Correct\<close>, \<open>Ec_Roundtrip\<close>: the erasure code (\<^verbatim>\<open>ec-gf.c\<close>, \<^verbatim>\<open>ec-method.c\<close>).  The type \<open>gf8\<close> is the field with 256 elements;
    each of the 256 unrolled routines multiplies in it; elimination without a choice of pivots never divides by 0; data is
    recovered from any fragments of as many different rows as there are columns.

  \<^item> \<open>Posix_Locks\<close>, \<open>Posix_Locks_Correct\<close>: the record locks of \<^verbatim>\<open>locks/src/common.c\<close>.  The sections under the lock of the inode
    (setting a lock, granting the blocked ones, waking reads and writes, releasing a file descriptor or an owner) are the steps of a relation \<open>lk_step\<close>: each returns, and locks of
    different owners never share a byte when one of them is a write lock.  A request replaces exactly its range, except that a downgrade beside the read lock of another owner can leave the old write lock behind.

  \<^bold>\<open>Loops and bounds.\<close>  No definition uses fuel.  Loops that are not structural are \<open>function\<close>s with a measure, or
  \<open>partial_function (option)\<close> where the source may not return: \<open>step_busy\<close> (returns on every engine that is busy only finitely often in a
  row), \<open>order_pos\<close> and \<open>list_walk\<close> (return on rings), \<open>sliced_loop\<close> (returns for every positive slice) and \<open>insert_and_merge\<close> (returns because the total
  length of the locks of the owner goes down).  Bounds in the theorems are those of the buffers and counters of the code: row
  ids below \<open>2 ^ 31\<close> (\<^verbatim>\<open>get_gid\<close> reads 32 bits), rows of at most 1022 bytes (\<^verbatim>\<open>buf[1024]\<close>), names of servers of at most 55 bytes (\<^verbatim>\<open>keybuf[64]\<close>),
  fragments of at most 4 GiB (32-bit offset of the decoder), lock ranges within \<^verbatim>\<open>off_t\<close>.

  \<^bold>\<open>Not modelled.\<close>  Most of GlusterFS does not take part in the index: the management daemon, the command line, the
  remote procedure calls and the protocol translators, storage on the local file system, replication, the erasure-code
  translator around the code, performance translators, quota, change log, mounts, NFS and geo-replication are I/O or long chains of
  callbacks over the network, and third-party code under \<^verbatim>\<open>contrib\<close> is only called.  Of the modelled parts, these are left out: reference
  counts and dumps of dictionaries, the mkdir, setxattr and locking steps of the directory self-heal, generation of UUIDs,
  the release functions of the database and the queue, latency logs, option parsing and line editing of the shell, the tables of
  entries of the meta translator, and the inode, entry and reservation locks.  The translator \<^verbatim>\<open>imess-client\<close> passes requests on unchanged.
  The recovery and view tools are batch programs around system calls and SQLite.
\<close>

end
